(* ===== verification/Prelude.thy ===== *)
theory Prelude
  imports Main "HOL-Library.Word" "HOL-Library.Monad_Syntax"
begin

text \<open>
  The vocabulary shared by every component of the development.

  \<^item> C's integer conversions on unbounded integers: \<open>s32\<close>, \<open>u32\<close>, \<open>s64\<close>, \<open>u64\<close>
    give the value an \<open>int\<close>, \<open>unsigned int\<close>, \<open>long\<close> and \<open>uint64_t\<close> object holds
    after a value is stored in it (LP64, two's complement).
  \<^item> The limits and error numbers that the sources compare with (Linux values).
  \<^item> Undefined behaviour is the value \<open>None\<close>: an operation that dereferences memory
    returns an \<open>option\<close>, read with the \<open>do\<close>-notation of the library's option monad, and a
    dangling or null pointer, a buffer overflow or a division by zero ends the run.
  \<^item> Facts about \<open>Option.bind\<close>, lists and maps that the component proofs use.
\<close>

named_theorems c_int_simps "range and idempotence facts of the C integer conversions"
named_theorems frame_simps "what an operation leaves unchanged"


section \<open>C integers\<close>

definition s32 :: "int \<Rightarrow> int" where
  "s32 x = signed_take_bit 31 x"

definition u32 :: "int \<Rightarrow> int" where
  "u32 x = take_bit 32 x"

definition s64 :: "int \<Rightarrow> int" where
  "s64 x = signed_take_bit 63 x"

definition u64 :: "int \<Rightarrow> int" where
  "u64 x = take_bit 64 x"

definition INT_MAX :: int where "INT_MAX = 2147483647"
definition UINT_MAX :: int where "UINT_MAX = 4294967295"
definition UCHAR_MAX :: int where "UCHAR_MAX = 255"
definition LONG_MAX :: int where "LONG_MAX = 9223372036854775807"
definition LONG_MIN :: int where "LONG_MIN = - 9223372036854775808"
definition ULONG_MAX :: int where "ULONG_MAX = 18446744073709551615"

definition ENOENT :: int where "ENOENT = 2"
definition EPERM :: int where "EPERM = 1"
definition EIO :: int where "EIO = 5"
definition ENXIO :: int where "ENXIO = 6"
definition ENOMEM :: int where "ENOMEM = 12"
definition EBUSY :: int where "EBUSY = 16"
definition ENODEV :: int where "ENODEV = 19"
definition EINVAL :: int where "EINVAL = 22"
definition ENOSPC :: int where "ENOSPC = 28"
definition ERANGE :: int where "ERANGE = 34"

lemmas c_limits = INT_MAX_def UINT_MAX_def UCHAR_MAX_def LONG_MAX_def LONG_MIN_def ULONG_MAX_def

lemmas errno_defs = ENOENT_def EPERM_def EIO_def ENXIO_def ENOMEM_def EBUSY_def ENODEV_def
  EINVAL_def ENOSPC_def ERANGE_def

lemma s32_bounds [c_int_simps]: "- 2147483648 \<le> s32 x" "s32 x \<le> 2147483647"
  using signed_take_bit_int_greater_eq_minus_exp [of 31 x] signed_take_bit_int_less_exp [of 31 x]
  by (simp_all add: s32_def)

lemma u32_bounds [c_int_simps]: "0 \<le> u32 x" "u32 x \<le> 4294967295"
  using take_bit_int_less_exp [of 32 x] by (simp_all add: u32_def)

lemma s64_bounds [c_int_simps]: "LONG_MIN \<le> s64 x" "s64 x \<le> LONG_MAX"
  using signed_take_bit_int_greater_eq_minus_exp [of 63 x] signed_take_bit_int_less_exp [of 63 x]
  by (simp_all add: s64_def LONG_MIN_def LONG_MAX_def)

lemma s32_id [c_int_simps]: "- 2147483648 \<le> x \<Longrightarrow> x \<le> 2147483647 \<Longrightarrow> s32 x = x"
  by (simp add: s32_def signed_take_bit_int_eq_self_iff)

lemma u32_id [c_int_simps]: "0 \<le> x \<Longrightarrow> x \<le> 4294967295 \<Longrightarrow> u32 x = x"
  by (simp add: u32_def take_bit_int_eq_self_iff)

lemma u64_id [c_int_simps]: "0 \<le> x \<Longrightarrow> x \<le> ULONG_MAX \<Longrightarrow> u64 x = x"
  by (simp add: u64_def ULONG_MAX_def take_bit_int_eq_self_iff)

lemma s32_u32 [c_int_simps, simp]: "s32 (u32 x) = s32 x"
  by (simp add: s32_def u32_def signed_take_bit_take_bit)

lemma u32_s32 [c_int_simps, simp]: "u32 (s32 x) = u32 x"
  by (simp add: s32_def u32_def take_bit_signed_take_bit)

lemma s32_s32 [c_int_simps, simp]: "s32 (s32 x) = s32 x"
  by (simp add: s32_id s32_bounds)

lemma s32_negative_iff: "- 2147483648 \<le> x \<Longrightarrow> x \<le> 2147483647 \<Longrightarrow> s32 x < 0 \<longleftrightarrow> x < 0"
  by (simp add: s32_id)


section \<open>Option binds, lists, maps\<close>

lemma bind_Some_iff:
  "Option.bind x f = Some y \<longleftrightarrow> (\<exists>a. x = Some a \<and> f a = Some y)"
  by (cases x) auto

lemma bind_pair_Some_iff:
  "Option.bind x (\<lambda>(a, b). f a b) = Some y \<longleftrightarrow> (\<exists>a b. x = Some (a, b) \<and> f a b = Some y)"
  by (cases x) auto

text \<open>
  Partial and total correctness of a run: \<open>wlp r Q\<close> says that if the run is defined its result
  satisfies \<open>Q\<close>, \<open>wp r Q\<close> that it is defined and its result satisfies \<open>Q\<close>.
\<close>

definition wlp :: "'a option \<Rightarrow> ('a \<Rightarrow> bool) \<Rightarrow> bool" where
  "wlp r Q = (case r of None \<Rightarrow> True | Some x \<Rightarrow> Q x)"

definition wp :: "'a option \<Rightarrow> ('a \<Rightarrow> bool) \<Rightarrow> bool" where
  "wp r Q = (case r of None \<Rightarrow> False | Some x \<Rightarrow> Q x)"

lemma wlp_iff: "wlp r Q \<longleftrightarrow> (\<forall>x. r = Some x \<longrightarrow> Q x)"
  by (cases r) (simp_all add: wlp_def)

lemma wp_iff: "wp r Q \<longleftrightarrow> (\<exists>x. r = Some x \<and> Q x)"
  by (cases r) (simp_all add: wp_def)

lemma wlp_simps [simp]:
  "wlp None Q" "wlp (Some x) Q = Q x" "wlp (Option.bind r f) Q = wlp r (\<lambda>x. wlp (f x) Q)"
  "wlp (case_prod g p) Q = (case p of (a, b) \<Rightarrow> wlp (g a b) Q)"
  by (cases r; cases p; simp add: wlp_def)+

lemma wp_simps [simp]:
  "\<not> wp None Q" "wp (Some x) Q = Q x" "wp (Option.bind r f) Q = wp r (\<lambda>x. wp (f x) Q)"
  "wp (case_prod g p) Q = (case p of (a, b) \<Rightarrow> wp (g a b) Q)"
  by (cases r; cases p; simp add: wp_def)+

lemma wlp_if [simp]: "wlp (if b then r else s) Q = (if b then wlp r Q else wlp s Q)"
  by simp

lemma wp_if [simp]: "wp (if b then r else s) Q = (if b then wp r Q else wp s Q)"
  by simp

lemma wlp_case_option [simp]:
  "wlp (case x of None \<Rightarrow> r | Some y \<Rightarrow> s y) Q = (case x of None \<Rightarrow> wlp r Q | Some y \<Rightarrow> wlp (s y) Q)"
  by (cases x) simp_all

lemma wp_case_option [simp]:
  "wp (case x of None \<Rightarrow> r | Some y \<Rightarrow> s y) Q = (case x of None \<Rightarrow> wp r Q | Some y \<Rightarrow> wp (s y) Q)"
  by (cases x) simp_all

lemma wlp_mono: "wlp r P \<Longrightarrow> (\<And>x. P x \<Longrightarrow> Q x) \<Longrightarrow> wlp r Q"
  by (simp add: wlp_iff)

lemma wp_mono: "wp r P \<Longrightarrow> (\<And>x. P x \<Longrightarrow> Q x) \<Longrightarrow> wp r Q"
  by (auto simp: wp_iff)

lemma wp_wlp: "wp r Q \<Longrightarrow> wlp r Q"
  by (auto simp: wp_iff wlp_iff)

lemma wp_wlp_conj: "wp r P \<Longrightarrow> wlp r Q \<Longrightarrow> wp r (\<lambda>x. P x \<and> Q x)"
  by (auto simp: wp_iff wlp_iff)

lemma takeWhile_append_stop: "\<not> P y \<Longrightarrow> takeWhile P (xs @ y # ys) = takeWhile P xs"
  by (induction xs) auto

lemma dropWhile_all: "(\<forall>x \<in> set xs. P x) \<Longrightarrow> dropWhile P xs = []"
  by (induction xs) auto

lemma distinct_remove1_notin: "distinct xs \<Longrightarrow> x \<notin> set (remove1 x xs)"
  by (simp add: set_remove1_eq)

end
