(* ===== verification/CString.thy ===== *)
theory CString
  imports Prelude
begin

text \<open>
  The part of the C library's string and number functions that the sources call: a C string is
  the list of its characters without the terminating NUL.  \<open>strtol\<close> and \<open>strtoull\<close> follow
  C11 7.22.1.4 (white space, sign, base 0 prefixes, the unread rest, saturation with ERANGE);
  the \<open>printf\<close> conversions are \<open>%d\<close>, \<open>%u\<close> and \<open>%x\<close>; the \<open>scanf\<close> helpers are the
  matching rules of \<open>%[a-z]\<close>, \<open>%d\<close>, \<open>%u\<close>, \<open>%x\<close> and literal characters.  The last part
  models the helpers of \<open>src/util/strbuf.c\<close>, \<open>src/util/util.h\<close> and \<open>src/util/sysfs.h\<close> on
  strings.  The lemmas show that parsing undoes printing.
\<close>

section \<open>Characters\<close>

definition NUL :: char where "NUL = CHR 0x00"
definition NL :: char where "NL = CHR 0x0A"

definition cstring :: "string \<Rightarrow> string" where
  "cstring buf = takeWhile (\<lambda>c. c \<noteq> NUL) buf"

definition isspace :: "char \<Rightarrow> bool" where
  "isspace c = (let n = (of_char c :: nat) in n = 32 \<or> (9 \<le> n \<and> n \<le> 13))"

definition digit_val :: "char \<Rightarrow> nat" where
  "digit_val c = (let n = (of_char c :: nat) in
     if 48 \<le> n \<and> n \<le> 57 then n - 48
     else if 97 \<le> n \<and> n \<le> 122 then n - 87
     else if 65 \<le> n \<and> n \<le> 90 then n - 55
     else 99)"

definition is_lower :: "char \<Rightarrow> bool" where
  "is_lower c = (let n = (of_char c :: nat) in 97 \<le> n \<and> n \<le> 122)"


section \<open>Numbers from strings\<close>

fun scan_digits :: "nat \<Rightarrow> nat \<Rightarrow> string \<Rightarrow> nat \<times> string" where
  "scan_digits b acc [] = (acc, [])"
| "scan_digits b acc (c # cs) =
     (if digit_val c < b then scan_digits b (acc * b + digit_val c) cs else (acc, c # cs))"

definition has_digit :: "nat \<Rightarrow> string \<Rightarrow> bool" where
  "has_digit b s = (case s of [] \<Rightarrow> False | c # _ \<Rightarrow> digit_val c < b)"

definition skip_ws :: "string \<Rightarrow> string" where
  "skip_ws s = dropWhile isspace s"

definition scan_sign :: "string \<Rightarrow> bool \<times> string" where
  "scan_sign s = (case s of
       [] \<Rightarrow> (False, s)
     | c # cs \<Rightarrow> if c = CHR ''-'' then (True, cs) else if c = CHR ''+'' then (False, cs) else (False, s))"

text \<open>The prefix a base of 0 or 16 allows: the base to use and the text after the prefix.\<close>

definition scan_base :: "nat \<Rightarrow> string \<Rightarrow> nat \<times> string" where
  "scan_base b s =
     (if (b = 0 \<or> b = 16) \<and> (take 2 s = ''0x'' \<or> take 2 s = ''0X'') \<and> has_digit 16 (drop 2 s)
      then (16, drop 2 s)
      else if b = 0 then (if take 1 s = ''0'' then (8, s) else (10, s))
      else (b, s))"

text \<open>Sign, magnitude and unread rest, or \<open>None\<close> when there is no number.\<close>

definition scan_number :: "nat \<Rightarrow> string \<Rightarrow> (bool \<times> nat \<times> string) option" where
  "scan_number b s =
     (case scan_sign (skip_ws s) of (neg, s1) \<Rightarrow>
      case scan_base b s1 of (b', s2) \<Rightarrow>
        if has_digit b' s2
        then (case scan_digits b' 0 s2 of (v, r) \<Rightarrow> Some (neg, v, r))
        else None)"

text \<open>Value, unread rest, and whether \<open>errno\<close> is set to ERANGE.\<close>

definition strtol :: "nat \<Rightarrow> string \<Rightarrow> int \<times> string \<times> bool" where
  "strtol b s = (case scan_number b s of
       None \<Rightarrow> (0, s, False)
     | Some (neg, v, r) \<Rightarrow>
        (let x = (if neg then - int v else int v) in
         if x < LONG_MIN then (LONG_MIN, r, True)
         else if LONG_MAX < x then (LONG_MAX, r, True)
         else (x, r, False)))"

definition strtoull :: "nat \<Rightarrow> string \<Rightarrow> int \<times> string \<times> bool" where
  "strtoull b s = (case scan_number b s of
       None \<Rightarrow> (0, s, False)
     | Some (neg, v, r) \<Rightarrow>
        (if ULONG_MAX < int v then (ULONG_MAX, r, True)
         else (u64 (if neg then - int v else int v), r, False)))"

definition atoi :: "string \<Rightarrow> int" where
  "atoi s = s32 (fst (strtol 10 s))"


section \<open>Strings from numbers\<close>

definition digit_char :: "nat \<Rightarrow> char" where
  "digit_char d = (if d < 10 then char_of (48 + d) else char_of (87 + d))"

fun show_nat :: "nat \<Rightarrow> nat \<Rightarrow> string" where
  "show_nat b n = (if b < 2 \<or> n < b then [digit_char n] else show_nat b (n div b) @ [digit_char (n mod b)])"

declare show_nat.simps [simp del]

definition show_int :: "int \<Rightarrow> string" where
  "show_int x = (if x < 0 then CHR ''-'' # show_nat 10 (nat (- x)) else show_nat 10 (nat x))"

definition show_hex :: "int \<Rightarrow> string" where
  "show_hex x = show_nat 16 (nat x)"


section \<open>String functions\<close>

fun strstr :: "string \<Rightarrow> string \<Rightarrow> bool" where
  "strstr [] needle = (needle = [])"
| "strstr (c # cs) needle = (take (length needle) (c # cs) = needle \<or> strstr cs needle)"

text \<open>\<open>strncmp (a, b, n) == 0\<close>.\<close>

definition strncmp_eq :: "string \<Rightarrow> string \<Rightarrow> nat \<Rightarrow> bool" where
  "strncmp_eq a b n = (take n a = take n b)"

text \<open>The text after the last slash; \<open>None\<close> when there is no slash.\<close>

definition after_last_slash :: "string \<Rightarrow> string option" where
  "after_last_slash s =
     (if CHR ''/'' \<in> set s then Some (rev (takeWhile (\<lambda>c. c \<noteq> CHR ''/'') (rev s))) else None)"

text \<open>
  \<open>devpath_to_devname\<close> is \<open>strrchr (path, '/') + 1\<close>: without a slash it computes on a null
  pointer.
\<close>

definition devpath_to_devname :: "string \<Rightarrow> string option" where
  "devpath_to_devname devpath = after_last_slash devpath"

definition basename :: "string \<Rightarrow> string" where
  "basename s = (case after_last_slash s of None \<Rightarrow> s | Some t \<Rightarrow> t)"

text \<open>The first token of \<open>strtok (s, ":")\<close>.\<close>

definition strtok_colon :: "string \<Rightarrow> string option" where
  "strtok_colon s =
     (let t = dropWhile (\<lambda>c. c = CHR '':'') s in
      if t = [] then None else Some (takeWhile (\<lambda>c. c \<noteq> CHR '':'') t))"

text \<open>\<open>prefixcmp\<close>: zero exactly on a prefix, else the difference of the first two that differ.\<close>

fun prefixcmp :: "string \<Rightarrow> string \<Rightarrow> int" where
  "prefixcmp str [] = 0"
| "prefixcmp [] (p # ps) = int (of_char p)"
| "prefixcmp (c # cs) (p # ps) =
     (if c \<noteq> p then int (of_char p) - int (of_char c) else prefixcmp cs ps)"

definition skip_prefix :: "string \<Rightarrow> string \<Rightarrow> string option" where
  "skip_prefix str prefix =
     (let len = length prefix in if strncmp_eq str prefix len then Some (drop len str) else None)"


section \<open>The scanf formats of the sources\<close>

text \<open>
  \<open>%d\<close>, \<open>%u\<close> and \<open>%x\<close>: the value stored and the unread rest.  The number is that of \<open>strtol\<close> or \<open>strtoul\<close>, which
  saturate at the ends of \<open>long\<close> and \<open>unsigned long\<close>, cut to the 32 bits of the \<open>int\<close> it is stored in.
\<close>

definition long_sat :: "int \<Rightarrow> int" where
  "long_sat x = (if x < LONG_MIN then LONG_MIN else if LONG_MAX < x then LONG_MAX else x)"

definition ulong_sat :: "bool \<Rightarrow> nat \<Rightarrow> int" where
  "ulong_sat neg v = (if ULONG_MAX < int v then ULONG_MAX else u64 (if neg then - int v else int v))"

definition scan_d :: "string \<Rightarrow> (int \<times> string) option" where
  "scan_d s = (case scan_number 10 s of None \<Rightarrow> None
     | Some (neg, v, r) \<Rightarrow> Some (s32 (long_sat (if neg then - int v else int v)), r))"

definition scan_u :: "string \<Rightarrow> (int \<times> string) option" where
  "scan_u s = (case scan_number 10 s of None \<Rightarrow> None
     | Some (neg, v, r) \<Rightarrow> Some (u32 (ulong_sat neg v), r))"

definition scan_u64 :: "string \<Rightarrow> (int \<times> string) option" where
  "scan_u64 s = (case scan_number 10 s of None \<Rightarrow> None
     | Some (neg, v, r) \<Rightarrow> Some (ulong_sat neg v, r))"

definition scan_x32 :: "string \<Rightarrow> (int \<times> string) option" where
  "scan_x32 s = (case scan_number 16 s of None \<Rightarrow> None
     | Some (neg, v, r) \<Rightarrow> Some (u32 (ulong_sat neg v), r))"

definition scan_lit :: "char \<Rightarrow> string \<Rightarrow> string option" where
  "scan_lit c s = (case s of [] \<Rightarrow> None | d # ds \<Rightarrow> if d = c then Some ds else None)"

text \<open>\<open>%[a-z]\<close>: a non-empty run of lower-case letters.\<close>

definition scan_lower :: "string \<Rightarrow> (string \<times> string) option" where
  "scan_lower s = (let t = takeWhile is_lower s in
     if t = [] then None else Some (t, dropWhile is_lower s))"

text \<open>A child name \<open>"wq%u.%u"\<close>, \<open>"group%u.%u"\<close>, \<open>"engine%u.%u"\<close>: both numbers, or no match.\<close>

definition scan_child :: "string \<Rightarrow> string \<Rightarrow> (int \<times> int) option" where
  "scan_child pfx s = do {
     r \<leftarrow> skip_prefix s pfx;
     (p, r) \<leftarrow> scan_u64 r;
     r \<leftarrow> scan_lit (CHR ''.'') r;
     (c, r) \<leftarrow> scan_u64 r;
     Some (p, c)
   }"

text \<open>
  \<open>"%x,%x,...,%x"\<close>: up to \<open>n\<close> hexadecimal 32-bit words separated by commas, those that are stored before the
  text stops to match.
\<close>

fun scan_x32s :: "nat \<Rightarrow> string \<Rightarrow> int list" where
  "scan_x32s 0 s = []"
| "scan_x32s (Suc n) s = (case scan_x32 s of None \<Rightarrow> []
     | Some (v, r) \<Rightarrow> v # (case scan_lit (CHR '','') r of None \<Rightarrow> [] | Some r' \<Rightarrow> scan_x32s n r'))"

fun show_x32s :: "int list \<Rightarrow> string" where
  "show_x32s [] = []"
| "show_x32s [v] = show_hex v"
| "show_x32s (v # w # vs) = show_hex v @ CHR '','' # show_x32s (w # vs)"



section \<open>Parsing undoes printing\<close>

text \<open>What may follow a number without being read as part of it, in any base up to 16.\<close>

definition num_stop :: "string \<Rightarrow> bool" where
  "num_stop r = (case r of [] \<Rightarrow> True
     | c # _ \<Rightarrow> \<not> digit_val c < 16 \<and> c \<noteq> CHR ''x'' \<and> c \<noteq> CHR ''X'')"

lemma digit_val_char: "d < 36 \<Longrightarrow> digit_val (digit_char d) = d"
  by (simp add: digit_val_def digit_char_def Let_def)

lemma of_char_digit_char: "d < 36 \<Longrightarrow> (of_char (digit_char d) :: nat) = (if d < 10 then 48 + d else 87 + d)"
  by (simp add: digit_char_def)

lemma digit_char_not_sign:
  assumes "d < 36"
  shows "digit_char d \<noteq> CHR ''-''" "digit_char d \<noteq> CHR ''+''"
  using of_char_digit_char [OF assms] by (auto split: if_splits)

lemma digit_char_not_space: "d < 36 \<Longrightarrow> \<not> isspace (digit_char d)"
  by (simp add: isspace_def of_char_digit_char)

lemma digit_char_zero_iff:
  assumes "d < 36"
  shows "digit_char d = CHR ''0'' \<longleftrightarrow> d = 0"
proof
  assume "digit_char d = CHR ''0''"
  with of_char_digit_char [OF assms] show "d = 0" by (simp split: if_splits)
next
  have "digit_char 0 = CHR ''0''" by code_simp
  then show "d = 0 \<Longrightarrow> digit_char d = CHR ''0''" by simp
qed

lemma show_nat_neq_Nil [simp]: "show_nat b n \<noteq> []"
  by (subst show_nat.simps) simp

lemma show_nat_digits:
  "2 \<le> b \<Longrightarrow> \<exists>ds. ds \<noteq> [] \<and> show_nat b n = map digit_char ds \<and> (\<forall>d \<in> set ds. d < b)
     \<and> (hd ds = 0 \<longrightarrow> n = 0 \<and> ds = [0]) \<and> foldl (\<lambda>a d. a * b + d) 0 ds = n"
proof (induction b n rule: show_nat.induct)
  case (1 b n)
  show ?case
  proof (cases "n < b")
    case True
    then show ?thesis
      by (intro exI [of _ "[n]"]) (simp add: show_nat.simps [of b n])
  next
    case False
    with "1.prems" have "\<not> (b < 2 \<or> n < b)" by simp
    from "1.IH" [OF this "1.prems"] obtain ds where ds: "ds \<noteq> []"
      "show_nat b (n div b) = map digit_char ds" "\<forall>d \<in> set ds. d < b"
      "hd ds = 0 \<longrightarrow> n div b = 0 \<and> ds = [0]" "foldl (\<lambda>a d. a * b + d) 0 ds = n div b"
      by (elim exE conjE)
    from False "1.prems" have "n div b \<noteq> 0" using div_greater_zero_iff [of n b] by linarith
    with ds "1.prems" False show ?thesis
      by (intro exI [of _ "ds @ [n mod b]"]) (simp add: show_nat.simps [of b n])
  qed
qed

lemma scan_digits_map:
  "\<forall>d \<in> set ds. d < b \<Longrightarrow> b \<le> 36 \<Longrightarrow> \<not> has_digit b r \<Longrightarrow>
     scan_digits b acc (map digit_char ds @ r) = (foldl (\<lambda>a d. a * b + d) acc ds, r)"
proof (induction ds arbitrary: acc)
  case Nil
  then show ?case by (cases r) (auto simp: has_digit_def)
next
  case (Cons d ds)
  then show ?case by (simp add: digit_val_char)
qed

lemma skip_ws_digit: "ds \<noteq> [] \<Longrightarrow> \<forall>d \<in> set ds. d < 36 \<Longrightarrow>
   skip_ws (map digit_char ds @ r) = map digit_char ds @ r"
  by (cases ds) (auto simp: skip_ws_def digit_char_not_space)

lemma scan_sign_digit: "ds \<noteq> [] \<Longrightarrow> \<forall>d \<in> set ds. d < 36 \<Longrightarrow>
   scan_sign (map digit_char ds @ r) = (False, map digit_char ds @ r)"
  by (cases ds) (auto simp: scan_sign_def dest: digit_char_not_sign)

lemma has_digit_map: "ds \<noteq> [] \<Longrightarrow> \<forall>d \<in> set ds. d < b \<Longrightarrow> b \<le> 36 \<Longrightarrow>
   has_digit b (map digit_char ds @ r)"
  by (cases ds) (auto simp: has_digit_def digit_val_char)

text \<open>A printed number is read back, sign first, in its own base or in base 0.\<close>

lemma show_nat_digitsE:
  assumes "2 \<le> b"
  obtains ds where "ds \<noteq> []" "show_nat b n = map digit_char ds" "\<forall>d \<in> set ds. d < b"
    "hd ds = 0 \<longrightarrow> n = 0 \<and> ds = [0]" "foldl (\<lambda>a d. a * b + d) 0 ds = n"
  using show_nat_digits [OF assms, of n] by (elim exE conjE)

lemma scan_number_digits:
  assumes "ds \<noteq> []" "\<forall>d \<in> set ds. d < b'" "b' \<le> 36" "\<not> has_digit b' r"
    and "scan_base b (map digit_char ds @ r) = (b', map digit_char ds @ r)"
  shows "scan_number b (map digit_char ds @ r) = Some (False, foldl (\<lambda>a d. a * b' + d) 0 ds, r)"
    and "scan_number b (CHR ''-'' # map digit_char ds @ r)
           = Some (True, foldl (\<lambda>a d. a * b' + d) 0 ds, r)"
proof -
  from assms(2,3) have lt: "\<forall>d \<in> set ds. d < 36" by auto
  have "skip_ws (CHR ''-'' # map digit_char ds @ r) = CHR ''-'' # map digit_char ds @ r"
    by (simp add: skip_ws_def isspace_def)
  moreover have "scan_sign (CHR ''-'' # map digit_char ds @ r) = (True, map digit_char ds @ r)"
    by (simp add: scan_sign_def)
  ultimately show "scan_number b (CHR ''-'' # map digit_char ds @ r)
           = Some (True, foldl (\<lambda>a d. a * b' + d) 0 ds, r)"
    and "scan_number b (map digit_char ds @ r) = Some (False, foldl (\<lambda>a d. a * b' + d) 0 ds, r)"
    using assms lt
    by (simp_all add: scan_number_def skip_ws_digit scan_sign_digit has_digit_map scan_digits_map)
qed

lemma digit_char_not_x:
  assumes "d < 17"
  shows "digit_char d \<noteq> CHR ''x''" "digit_char d \<noteq> CHR ''X''"
  using of_char_digit_char [of d] assms by (auto split: if_splits)

lemma no_hex_prefix:
  assumes "ds \<noteq> []" "\<forall>d \<in> set ds. d < 17" "num_stop r"
  shows "take 2 (map digit_char ds @ r) \<noteq> ''0x''" "take 2 (map digit_char ds @ r) \<noteq> ''0X''"
proof -
  obtain d ds' where d: "ds = d # ds'" using assms(1) by (cases ds) auto
  show "take 2 (map digit_char ds @ r) \<noteq> ''0x''" "take 2 (map digit_char ds @ r) \<noteq> ''0X''"
  proof -
    have "take 1 (map digit_char ds' @ r) \<noteq> ''x'' \<and> take 1 (map digit_char ds' @ r) \<noteq> ''X''"
      using assms(2,3) d
      by (cases ds'; cases r) (auto simp: num_stop_def dest: digit_char_not_x)
    then show "take 2 (map digit_char ds @ r) \<noteq> ''0x''" "take 2 (map digit_char ds @ r) \<noteq> ''0X''"
      using d by (auto simp: numeral_2_eq_2)
  qed
qed

lemma not_has_digit_mono: "num_stop r \<Longrightarrow> b \<le> 16 \<Longrightarrow> \<not> has_digit b r"
  by (cases r) (auto simp: has_digit_def num_stop_def)

lemma scan_base_dec:
  assumes "num_stop r" "ds \<noteq> []" "\<forall>d \<in> set ds. d < 10" "hd ds \<noteq> 0"
  shows "scan_base 0 (map digit_char ds @ r) = (10, map digit_char ds @ r)"
proof -
  obtain d ds' where d: "ds = d # ds'" using assms(2) by (cases ds) auto
  have "take 1 (map digit_char ds @ r) \<noteq> ''0''"
    using d assms digit_char_zero_iff [of d] by simp
  moreover have "\<forall>d \<in> set ds. d < 17" using assms(3) by auto
  ultimately show ?thesis
    using no_hex_prefix [OF assms(2) _ assms(1)] by (simp add: scan_base_def)
qed

lemma scan_number_show_nat_0:
  assumes "num_stop r"
  shows "scan_number 0 (show_nat 10 n @ r) = Some (False, n, r)"
    and "scan_number 0 (CHR ''-'' # show_nat 10 n @ r) = Some (True, n, r)"
proof -
  have "(2::nat) \<le> 10" by simp
  then obtain ds where ds: "ds \<noteq> []" "show_nat 10 n = map digit_char ds" "\<forall>d \<in> set ds. d < 10"
    "hd ds = 0 \<longrightarrow> n = 0 \<and> ds = [0]" "foldl (\<lambda>a d. a * 10 + d) 0 ds = n"
    by (rule show_nat_digitsE)
  have "scan_number 0 (show_nat 10 n @ r) = Some (False, n, r) \<and>
        scan_number 0 (CHR ''-'' # show_nat 10 n @ r) = Some (True, n, r)"
  proof (cases "hd ds = 0")
    case False
    from scan_number_digits [OF ds(1,3) _ not_has_digit_mono [OF assms] scan_base_dec [OF assms ds(1,3) False]]
      ds(2,5) show ?thesis by simp
  next
    case True
    with ds have n: "n = 0" "ds = [0]" by auto
    have "scan_base 0 (map digit_char [0] @ r) = (8, map digit_char [0] @ r)"
      using no_hex_prefix [of "[0]" r] assms digit_char_zero_iff [of 0] by (simp add: scan_base_def)
    from scan_number_digits [OF _ _ _ not_has_digit_mono [OF assms] this] n ds(2)
    show ?thesis by simp
  qed
  then show "scan_number 0 (show_nat 10 n @ r) = Some (False, n, r)"
    and "scan_number 0 (CHR ''-'' # show_nat 10 n @ r) = Some (True, n, r)" by simp_all
qed

lemma scan_number_show_nat_10:
  assumes "num_stop r"
  shows "scan_number 10 (show_nat 10 n @ r) = Some (False, n, r)"
    and "scan_number 10 (CHR ''-'' # show_nat 10 n @ r) = Some (True, n, r)"
proof -
  have "(2::nat) \<le> 10" by simp
  then obtain ds where ds: "ds \<noteq> []" "show_nat 10 n = map digit_char ds" "\<forall>d \<in> set ds. d < 10"
    "foldl (\<lambda>a d. a * 10 + d) 0 ds = n"
    by (rule show_nat_digitsE)
  have "scan_base 10 (map digit_char ds @ r) = (10, map digit_char ds @ r)" by (simp add: scan_base_def)
  from scan_number_digits [OF ds(1,3) _ not_has_digit_mono [OF assms] this] ds(2,4)
  show "scan_number 10 (show_nat 10 n @ r) = Some (False, n, r)"
    and "scan_number 10 (CHR ''-'' # show_nat 10 n @ r) = Some (True, n, r)" by simp_all
qed

text \<open>\<open>%d\<close> reads a printed number, and what a printed number is made of.\<close>

lemma scan_d_show_int: "num_stop r \<Longrightarrow> scan_d (show_int x @ r) = Some (s32 (long_sat x), r)"
  by (simp add: scan_d_def show_int_def scan_number_show_nat_10)

lemma long_sat_id: "LONG_MIN \<le> x \<Longrightarrow> x \<le> LONG_MAX \<Longrightarrow> long_sat x = x"
  by (simp add: long_sat_def)

lemma set_show_int: "c \<in> set (show_int x) \<Longrightarrow> c = CHR ''-'' \<or> (\<exists>d < 10. c = digit_char d)"
proof -
  have "\<exists>d < 10. c = digit_char d" if c: "c \<in> set (show_nat 10 n)" for n
  proof -
    have "(2::nat) \<le> 10" by simp
    then obtain ds where "show_nat 10 n = map digit_char ds" "\<forall>d \<in> set ds. d < 10" by (rule show_nat_digitsE)
    with c show ?thesis by auto
  qed
  then show "c \<in> set (show_int x) \<Longrightarrow> c = CHR ''-'' \<or> (\<exists>d < 10. c = digit_char d)"
    by (auto simp: show_int_def split: if_splits)
qed

lemma strstr_set: "strstr s needle \<Longrightarrow> set needle \<subseteq> set s"
proof (induction s)
  case (Cons c cs)
  then show ?case using set_take_subset [of "length needle" "c # cs"] by auto
qed simp

lemma scan_number_show_hex:
  assumes "num_stop r"
  shows "scan_number 16 (show_nat 16 n @ r) = Some (False, n, r)"
proof -
  have "(2::nat) \<le> 16" by simp
  then obtain ds where ds: "ds \<noteq> []" "show_nat 16 n = map digit_char ds" "\<forall>d \<in> set ds. d < 16"
    "foldl (\<lambda>a d. a * 16 + d) 0 ds = n"
    by (rule show_nat_digitsE)
  have "\<forall>d \<in> set ds. d < 17" using ds(3) by auto
  then have "scan_base 16 (map digit_char ds @ r) = (16, map digit_char ds @ r)"
    using no_hex_prefix [OF ds(1) _ assms] by (simp add: scan_base_def)
  from scan_number_digits [OF ds(1,3) _ not_has_digit_mono [OF assms] this] ds(2,4)
  show ?thesis by simp
qed

lemma has_digit_Nil [simp]: "\<not> has_digit b []"
  by (simp add: has_digit_def)

lemma num_stop_Nil [simp]: "num_stop []"
  by (simp add: num_stop_def)

lemma strtol_show_int:
  assumes "LONG_MIN \<le> x" "x \<le> LONG_MAX"
  shows "strtol 0 (show_int x) = (x, [], False)"
  using assms scan_number_show_nat_0 [of "[]"] by (simp add: strtol_def show_int_def)

lemma strtoull_show_nat:
  assumes "0 \<le> x" "x \<le> ULONG_MAX"
  shows "strtoull 0 (show_int x) = (x, [], False)"
  using assms scan_number_show_nat_0 [of "[]"] by (simp add: strtoull_def show_int_def u64_id)

lemma ulong_sat_small: "int v \<le> ULONG_MAX \<Longrightarrow> ulong_sat False v = int v"
  by (simp add: ulong_sat_def u64_id)

lemma scan_x32_show_hex:
  assumes "0 \<le> x" "x \<le> UINT_MAX" "num_stop r"
  shows "scan_x32 (show_hex x @ r) = Some (x, r)"
  using assms scan_number_show_hex [of r "nat x"]
  by (simp add: scan_x32_def show_hex_def ulong_sat_small u32_id c_limits)

lemma scan_x32s_show:
  assumes "\<forall>v \<in> set vs. 0 \<le> v \<and> v \<le> UINT_MAX"
  shows "scan_x32s (length vs) (show_x32s vs) = vs"
  using assms
proof (induction vs rule: show_x32s.induct)
  case 1
  then show ?case by simp
next
  case (2 v)
  then show ?case using scan_x32_show_hex [of v "[]"] by (simp add: scan_lit_def)
next
  case (3 v w vs)
  have "num_stop (CHR '','' # show_x32s (w # vs))"
    by (simp add: num_stop_def digit_val_def)
  with 3 show ?case
    using scan_x32_show_hex [of v "CHR '','' # show_x32s (w # vs)"] by (simp add: scan_lit_def)
qed

lemma show_nat_length: "n < b ^ k \<Longrightarrow> 2 \<le> b \<Longrightarrow> 0 < k \<Longrightarrow> length (show_nat b n) \<le> k"
proof (induction k arbitrary: n)
  case (Suc k)
  show ?case
  proof (cases "n < b")
    case False
    with Suc.prems have "0 < k" by (cases k) auto
    moreover have "n div b < b ^ k" using Suc.prems by (simp add: less_mult_imp_div_less mult.commute)
    ultimately show ?thesis using Suc.IH [of "n div b"] Suc.prems(2) False by (simp add: show_nat.simps [of b n])
  qed (simp add: show_nat.simps [of b n])
qed simp

lemma show_nat_chars:
  assumes "2 \<le> b" "b \<le> 36" "c \<in> set (show_nat b n)"
  obtains d where "d < 36" "c = digit_char d"
proof -
  obtain ds where "show_nat b n = map digit_char ds" "\<forall>d \<in> set ds. d < b" by (rule show_nat_digitsE [OF assms(1)])
  with assms(3) obtain d where "d < b" "c = digit_char d" by auto
  with assms(2) show ?thesis by (intro that [of d]) simp_all
qed

lemma digit_char_printable: "d < 36 \<Longrightarrow> digit_char d \<noteq> NUL \<and> digit_char d \<noteq> NL"
  using of_char_digit_char [of d] by (auto simp: NUL_def NL_def split: if_splits)

lemma show_hex_printable: "c \<in> set (show_hex v) \<Longrightarrow> c \<noteq> NUL \<and> c \<noteq> NL"
  unfolding show_hex_def by (rule show_nat_chars [of 16 c "nat v"]) (simp_all add: digit_char_printable)

lemma show_x32s_printable: "c \<in> set (show_x32s vs) \<Longrightarrow> c \<noteq> NUL \<and> c \<noteq> NL"
proof (induction vs rule: show_x32s.induct)
  case (3 v w vs)
  then show ?case using show_hex_printable [of c v] by (auto simp: NUL_def NL_def)
qed (simp_all add: show_hex_printable)

lemma show_hex_length: "0 \<le> v \<Longrightarrow> v \<le> UINT_MAX \<Longrightarrow> length (show_hex v) \<le> 8"
  using show_nat_length [of "nat v" 16 8] by (simp add: show_hex_def UINT_MAX_def)

lemma show_x32s_length: "\<forall>v \<in> set vs. 0 \<le> v \<and> v \<le> UINT_MAX \<Longrightarrow> length (show_x32s vs) \<le> 9 * length vs"
  using show_hex_length by (induction vs rule: show_x32s.induct) fastforce+

lemma show_x32s_nonempty: "vs \<noteq> [] \<Longrightarrow> show_x32s vs \<noteq> []"
  by (induction vs rule: show_x32s.induct) (simp_all add: show_hex_def)

section \<open>prefixcmp decides prefixes\<close>

lemma of_char_eq_0_iff: "(of_char c :: nat) = 0 \<longleftrightarrow> c = NUL"
proof
  assume "(of_char c :: nat) = 0"
  then have "char_of (of_char c :: nat) = char_of (0 :: nat)" by (rule arg_cong)
  moreover have "char_of (0 :: nat) = NUL" by code_simp
  ultimately show "c = NUL" by simp
qed (simp add: NUL_def)

lemma prefixcmp_eq_0_iff:
  "NUL \<notin> set prefix \<Longrightarrow> prefixcmp str prefix = 0 \<longleftrightarrow> take (length prefix) str = prefix"
  by (induction str prefix rule: prefixcmp.induct) (auto simp: of_char_eq_0_iff)

end
