(* ===== verification/Size.thy ===== *)
theory Size
  imports CString
begin

text \<open>
  The size parser of \<open>src/util/size.c\<close>: a number in base 0 followed by an optional unit letter,
  with 64-bit multiplication that wraps and a check that is meant to catch the overflow.
\<close>

type_synonym u64w = "64 word"

definition SZ_1K :: u64w where "SZ_1K = 0x400"
definition SZ_1M :: u64w where "SZ_1M = 0x100000"
definition SZ_1G :: u64w where "SZ_1G = 0x40000000"
definition SZ_1T :: u64w where "SZ_1T = 0x10000000000"

definition ULLONG_MAX_w :: u64w where "ULLONG_MAX_w = 0xFFFFFFFFFFFFFFFF"

text \<open>
  The \<open>switch\<close> on \<open>*end\<close>: the value written to \<open>*units\<close>, the multiplied value and the text
  after the unit letter.
\<close>

definition apply_unit :: "u64w \<Rightarrow> string \<Rightarrow> u64w \<times> u64w \<times> string" where
  "apply_unit val rest =
     (case rest of
        [] \<Rightarrow> (1, val, rest)
      | c # cs \<Rightarrow>
         if c = CHR ''k'' \<or> c = CHR ''K'' then (SZ_1K, val * SZ_1K, cs)
         else if c = CHR ''m'' \<or> c = CHR ''M'' then (SZ_1M, val * SZ_1M, cs)
         else if c = CHR ''g'' \<or> c = CHR ''G'' then (SZ_1G, val * SZ_1G, cs)
         else if c = CHR ''t'' \<or> c = CHR ''T'' then (SZ_1T, val * SZ_1T, cs)
         else (1, val, rest))"

text \<open>
  \<open>__parse_size64\<close>: the value returned and what is stored through a non-null \<open>units\<close> pointer
  (\<open>None\<close>: nothing is stored).
\<close>

definition parse_size64_units :: "string \<Rightarrow> u64w \<times> u64w option" where
  "parse_size64_units str =
     (case strtoull 0 str of (v, rest, _) \<Rightarrow>
      let val = word_of_int v in
      if val = ULLONG_MAX_w then (val, None)
      else
        (let check = val in
         case apply_unit val rest of (units, val, rest) \<Rightarrow>
           (if val < check \<or> rest \<noteq> [] then ULLONG_MAX_w else val, Some units)))"

definition parse_size64 :: "string \<Rightarrow> u64w" where
  "parse_size64 str = fst (parse_size64_units str)"

text \<open>The unit suffixes the parser knows and their factors.\<close>

definition size_units :: "(string \<times> u64w) list" where
  "size_units = [([], 1), (''k'', SZ_1K), (''K'', SZ_1K), (''m'', SZ_1M), (''M'', SZ_1M),
     (''g'', SZ_1G), (''G'', SZ_1G), (''t'', SZ_1T), (''T'', SZ_1T)]"


section \<open>What the parser computes\<close>

lemma strtoull_show_unit:
  assumes "int n < ULONG_MAX" "num_stop r"
  shows "strtoull 0 (show_nat 10 n @ r) = (int n, r, False)"
  using assms scan_number_show_nat_0 [of r n] by (simp add: strtoull_def u64_id)


lemma size_unit_stops: "(u, f) \<in> set size_units \<Longrightarrow> num_stop u"
  by (auto simp: size_units_def num_stop_def digit_val_def)

lemma apply_unit_known: "(u, f) \<in> set size_units \<Longrightarrow> apply_unit val u = (f, val * f, [])"
  by (auto simp: size_units_def apply_unit_def)

lemma word_of_int_below_max:
  assumes "int n < ULONG_MAX"
  shows "(word_of_int (int n) :: u64w) = of_nat n" "(of_nat n :: u64w) \<noteq> ULLONG_MAX_w"
    "unat (of_nat n :: u64w) = n"
proof -
  show u: "unat (of_nat n :: u64w) = n"
    using assms by (simp add: unat_of_nat ULONG_MAX_def)
  show "(word_of_int (int n) :: u64w) = of_nat n" by simp
  have "unat ULLONG_MAX_w = 18446744073709551615" by (simp add: ULLONG_MAX_w_def)
  with u assms show "(of_nat n :: u64w) \<noteq> ULLONG_MAX_w"
    by (auto simp: ULONG_MAX_def)
qed

text \<open>The parser on a number with a known unit: the wrapped product and the overflow test on it.\<close>

lemma parse_size64_known:
  assumes "int n < ULONG_MAX" "(u, f) \<in> set size_units"
  shows "parse_size64 (show_nat 10 n @ u)
           = (if (of_nat n * f :: u64w) < of_nat n then ULLONG_MAX_w else of_nat n * f)"
  using strtoull_show_unit [OF assms(1) size_unit_stops [OF assms(2)]]
    word_of_int_below_max [OF assms(1)] apply_unit_known [OF assms(2)]
  by (simp add: parse_size64_def parse_size64_units_def Let_def)

lemma unit_positive: "(u, f) \<in> set size_units \<Longrightarrow> 1 \<le> unat f"
  by (auto simp: size_units_def SZ_1K_def SZ_1M_def SZ_1G_def SZ_1T_def)

text \<open>
  C35: a decimal size with a unit suffix that fits in 64 bits is parsed to exactly that size, for
  every suffix the parser accepts.
\<close>

theorem parse_size64_value:
  assumes "int n < ULONG_MAX" "(u, f) \<in> set size_units" "n * unat f < 2 ^ 64"
  shows "unat (parse_size64 (show_nat 10 n @ u)) = n * unat f"
proof -
  have prod: "unat (of_nat n * f :: u64w) = n * unat f"
    using assms(1,3) by (simp add: unat_word_ariths word_of_int_below_max(3))
  have "n \<le> n * unat f" using unit_positive [OF assms(2)] by simp
  then have "\<not> (of_nat n * f :: u64w) < of_nat n"
    unfolding word_less_nat_alt prod word_of_int_below_max(3) [OF assms(1)] by (simp only: not_less)
  with prod show ?thesis by (simp add: parse_size64_known [OF assms(1,2)])
qed

theorem parse_size64_value_witness:
  "unat (parse_size64 (show_nat 10 16 @ ''G'')) = 16 * 1073741824"
  using parse_size64_value [of 16 "''G''" SZ_1G]
  by (simp add: size_units_def SZ_1G_def ULONG_MAX_def)

text \<open>
  the overflow test of the parser misses products that wrap past the multiplicand.  Whenever
  the wrapped product is not below the number itself, the wrapped product is returned as the size,
  even if the true size does not fit in 64 bits; the witness is such a size.
\<close>

lemma parse_size64_wraps:
  assumes "int n < ULONG_MAX" "(u, f) \<in> set size_units" "n \<le> n * unat f mod 2 ^ 64"
  shows "unat (parse_size64 (show_nat 10 n @ u)) = n * unat f mod 2 ^ 64"
proof -
  have prod: "unat (of_nat n * f :: u64w) = n * unat f mod 2 ^ 64"
    using assms(1) by (simp add: unat_word_ariths word_of_int_below_max(3))
  with assms(3) have "\<not> (of_nat n * f :: u64w) < of_nat n"
    using word_of_int_below_max(3) [OF assms(1)] by (simp add: word_less_nat_alt)
  with prod show ?thesis by (simp add: parse_size64_known [OF assms(1,2)])
qed

lemma parse_size64_wraps_example:
  "2 ^ 64 \<le> (19140298416324608 :: nat) * 1024
     \<and> unat (parse_size64 (show_nat 10 19140298416324608 @ ''k'')) = 2 ^ 60"
  using parse_size64_wraps [of 19140298416324608 "''k''" SZ_1K]
  by (simp add: size_units_def SZ_1K_def ULONG_MAX_def)

text \<open>
  Text after the number and its unit makes the parser answer ULLONG_MAX, whatever the number.
\<close>

lemma parse_size64_garbage:
  assumes "strtoull 0 str = (v, rest, e)" "snd (snd (apply_unit (word_of_int v) rest)) \<noteq> []"
  shows "parse_size64 str = ULLONG_MAX_w"
  using assms by (simp add: parse_size64_def parse_size64_units_def Let_def case_prod_beta)


end
