(* ===== verification/Strbuf.thy ===== *)
theory Strbuf
  imports CString
begin

text \<open>
  The growing buffers of \<open>src/util/strbuf.c\<close> and \<open>strbuf.h\<close>, with \<open>xrealloc\<close> and \<open>ALLOC_GROW\<close>.  The memory
  of a buffer is a list of bytes, \<open>None\<close> for one that was never written; \<open>size_t\<close> wraps at 64 bits.
  A function answers \<open>Inl\<close> with the exit status when the program dies, and \<open>None\<close> when it writes outside
  the memory or fails an assertion.  Which sizes \<open>realloc\<close> grants is the argument \<open>ok\<close>.
\<close>

section \<open>Sizes and memory\<close>

definition usize :: "nat \<Rightarrow> nat" where "usize n = n mod 18446744073709551616"

definition DIE_STATUS :: int where "DIE_STATUS = 128"

type_synonym 'a dying = "(int + 'a) option"

definition dying_bind :: "'a dying \<Rightarrow> ('a \<Rightarrow> 'b dying) \<Rightarrow> 'b dying" where
  "dying_bind r f = (case r of None \<Rightarrow> None | Some (Inl st) \<Rightarrow> Some (Inl st) | Some (Inr x) \<Rightarrow> f x)"

definition alloc_nr :: "nat \<Rightarrow> nat" where
  "alloc_nr x = usize (usize (x + 16) * 3) div 2"

text \<open>\<open>xrealloc\<close>: the old bytes and room that was never written.\<close>

definition xrealloc :: "(nat \<Rightarrow> bool) \<Rightarrow> char option list \<Rightarrow> nat \<Rightarrow> int + char option list" where
  "xrealloc ok p n =
     (if ok n then Inr (take n p @ replicate (n - length p) None) else Inl DIE_STATUS)"

text \<open>A copy of bytes to a position of the memory.\<close>

definition put_bytes :: "nat \<Rightarrow> char option list \<Rightarrow> char option list \<Rightarrow> char option list option" where
  "put_bytes pos bs mem =
     (if pos + length bs \<le> length mem then Some (take pos mem @ bs @ drop (pos + length bs) mem) else None)"


section \<open>Buffers\<close>

record strbuf =
  sb_alloc :: nat
  sb_len :: nat
  sb_buf :: "char option list"

definition strbuf_slopbuf :: "char option list" where "strbuf_slopbuf = [Some NUL]"

definition STRBUF_INIT :: strbuf where
  "STRBUF_INIT = \<lparr>sb_alloc = 0, sb_len = 0, sb_buf = strbuf_slopbuf\<rparr>"

text \<open>\<open>ALLOC_GROW\<close> on the buffer.\<close>

definition ALLOC_GROW :: "(nat \<Rightarrow> bool) \<Rightarrow> nat \<Rightarrow> strbuf \<Rightarrow> int + strbuf" where
  "ALLOC_GROW ok nr sb =
     (if nr > sb_alloc sb then
        (let a = (if alloc_nr (sb_alloc sb) < nr then nr else alloc_nr (sb_alloc sb)) in
         case xrealloc ok (sb_buf sb) a of
           Inl st \<Rightarrow> Inl st
         | Inr p \<Rightarrow> Inr (sb\<lparr>sb_alloc := a, sb_buf := p\<rparr>))
      else Inr sb)"

definition strbuf_grow :: "(nat \<Rightarrow> bool) \<Rightarrow> nat \<Rightarrow> strbuf \<Rightarrow> strbuf dying" where
  "strbuf_grow ok extra sb =
     (if usize (sb_len sb + extra + 1) \<le> sb_len sb then Some (Inl DIE_STATUS)
      else
        let sb = (if sb_alloc sb = 0 then sb\<lparr>sb_buf := []\<rparr> else sb) in
        Some (ALLOC_GROW ok (usize (sb_len sb + extra + 1)) sb))"

definition strbuf_init :: "(nat \<Rightarrow> bool) \<Rightarrow> int \<Rightarrow> strbuf dying" where
  "strbuf_init ok hint =
     (let sb = \<lparr>sb_alloc = 0, sb_len = 0, sb_buf = strbuf_slopbuf\<rparr> in
      if hint \<noteq> 0 then strbuf_grow ok (nat (u64 hint)) sb else Some (Inr sb))"

definition strbuf_release :: "(nat \<Rightarrow> bool) \<Rightarrow> strbuf \<Rightarrow> strbuf dying" where
  "strbuf_release ok sb = (if sb_alloc sb \<noteq> 0 then strbuf_init ok 0 else Some (Inr sb))"

definition strbuf_detach :: "(nat \<Rightarrow> bool) \<Rightarrow> strbuf \<Rightarrow> (char option list option \<times> nat \<times> strbuf) dying" where
  "strbuf_detach ok sb =
     (let res = (if sb_alloc sb \<noteq> 0 then Some (sb_buf sb) else None); sz = sb_len sb in
      dying_bind (strbuf_init ok 0) (\<lambda>sb. Some (Inr (res, sz, sb))))"

definition strbuf_avail :: "strbuf \<Rightarrow> int" where
  "strbuf_avail sb =
     (if sb_alloc sb \<noteq> 0 then s64 (int (sb_alloc sb) - int (sb_len sb) - 1) else 0)"

definition strbuf_setlen :: "(nat \<Rightarrow> bool) \<Rightarrow> nat \<Rightarrow> strbuf \<Rightarrow> strbuf dying" where
  "strbuf_setlen ok n sb =
     dying_bind (if sb_alloc sb = 0 then strbuf_grow ok 0 sb else Some (Inr sb)) (\<lambda>sb.
       if n < sb_alloc sb then
         map_option (\<lambda>p. Inr (sb\<lparr>sb_len := n, sb_buf := p\<rparr>)) (put_bytes n [Some NUL] (sb_buf sb))
       else None)"

definition strbuf_addch :: "(nat \<Rightarrow> bool) \<Rightarrow> char \<Rightarrow> strbuf \<Rightarrow> strbuf dying" where
  "strbuf_addch ok c sb =
     dying_bind (strbuf_grow ok 1 sb) (\<lambda>sb. do {
       p \<leftarrow> put_bytes (sb_len sb) [Some c] (sb_buf sb);
       p \<leftarrow> put_bytes (sb_len sb + 1) [Some NUL] p;
       Some (Inr (sb\<lparr>sb_len := sb_len sb + 1, sb_buf := p\<rparr>))
     })"

text \<open>\<open>strbuf_splice\<close>: the bytes from \<open>pos + len\<close> move to \<open>pos + dlen\<close>, and the data comes before them.\<close>

definition strbuf_splice :: "(nat \<Rightarrow> bool) \<Rightarrow> nat \<Rightarrow> nat \<Rightarrow> string option \<Rightarrow> nat \<Rightarrow> strbuf \<Rightarrow> strbuf dying" where
  "strbuf_splice ok pos len data dlen sb =
     (if usize (pos + len) < pos then Some (Inl DIE_STATUS)
      else if pos > sb_len sb then Some (Inl DIE_STATUS)
      else if usize (pos + len) > sb_len sb then Some (Inl DIE_STATUS)
      else dying_bind (if dlen \<ge> len then strbuf_grow ok (dlen - len) sb else Some (Inr sb)) (\<lambda>sb. do {
        p \<leftarrow> put_bytes (pos + dlen) (take (sb_len sb - pos - len) (drop (pos + len) (sb_buf sb))) (sb_buf sb);
        p \<leftarrow> (case data of Some d \<Rightarrow> put_bytes pos (map Some d) p | None \<Rightarrow> Some p);
        strbuf_setlen ok (usize (sb_len sb + dlen - len)) (sb\<lparr>sb_buf := p\<rparr>)
      }))"

definition strbuf_remove :: "(nat \<Rightarrow> bool) \<Rightarrow> nat \<Rightarrow> nat \<Rightarrow> strbuf \<Rightarrow> strbuf dying" where
  "strbuf_remove ok pos len sb = strbuf_splice ok pos len None 0 sb"

definition strbuf_add :: "(nat \<Rightarrow> bool) \<Rightarrow> string \<Rightarrow> strbuf \<Rightarrow> strbuf dying" where
  "strbuf_add ok data sb =
     dying_bind (strbuf_grow ok (length data) sb) (\<lambda>sb. do {
       p \<leftarrow> put_bytes (sb_len sb) (map Some data) (sb_buf sb);
       strbuf_setlen ok (usize (sb_len sb + length data)) (sb\<lparr>sb_buf := p\<rparr>)
     })"

definition strbuf_addstr :: "(nat \<Rightarrow> bool) \<Rightarrow> string \<Rightarrow> strbuf \<Rightarrow> strbuf dying" where
  "strbuf_addstr ok s sb = strbuf_add ok s sb"

text \<open>
  \<open>vsnprintf\<close> of a format and arguments that print as \<open>text\<close>: what fits in \<open>n\<close> bytes is written and
  terminated, and the length of the whole text is the result, or -1 when an \<open>int\<close> does not hold it.
\<close>

definition vsnprintf :: "nat \<Rightarrow> nat \<Rightarrow> string \<Rightarrow> char option list \<Rightarrow> (int \<times> char option list) option" where
  "vsnprintf pos n text mem =
     (if int (length text) > INT_MAX then Some (-1, mem)
      else if n = 0 then Some (int (length text), mem)
      else map_option (\<lambda>p. (int (length text), p)) (put_bytes pos (map Some (take (n - 1) text) @ [Some NUL]) mem))"

definition strbuf_addf :: "(nat \<Rightarrow> bool) \<Rightarrow> string \<Rightarrow> strbuf \<Rightarrow> strbuf dying" where
  "strbuf_addf ok text sb =
     dying_bind (if strbuf_avail sb = 0 then strbuf_grow ok 64 sb else Some (Inr sb)) (\<lambda>sb. do {
       (len, p) \<leftarrow> vsnprintf (sb_len sb) (sb_alloc sb - sb_len sb) text (sb_buf sb);
       let sb = sb\<lparr>sb_buf := p\<rparr>;
       if len < 0 then Some (Inl DIE_STATUS)
       else if len > strbuf_avail sb then
         dying_bind (strbuf_grow ok (nat len) sb) (\<lambda>sb. do {
           (len, p) \<leftarrow> vsnprintf (sb_len sb) (sb_alloc sb - sb_len sb) text (sb_buf sb);
           let sb = sb\<lparr>sb_buf := p\<rparr>;
           if len > strbuf_avail sb then Some (Inl DIE_STATUS)
           else strbuf_setlen ok (usize (sb_len sb + nat (u64 len))) sb
         })
       else strbuf_setlen ok (usize (sb_len sb + nat (u64 len))) sb
     })"

text \<open>
  \<open>strbuf_read\<close>: \<open>rd\<close> is \<open>read\<close> on the descriptor, which answers the bytes or an error; the loop ends at the
  end of the file or at an error, and is bounded by fuel here.
\<close>

fun read_loop :: "(nat \<Rightarrow> bool) \<Rightarrow> (nat \<Rightarrow> 'f \<Rightarrow> string option \<times> 'f) \<Rightarrow> nat \<Rightarrow> nat \<Rightarrow> nat \<Rightarrow> 'f \<Rightarrow> strbuf \<Rightarrow> (int \<times> 'f \<times> strbuf) dying" where
  "read_loop ok rd oldlen oldalloc 0 f sb = None"
| "read_loop ok rd oldlen oldalloc (Suc fuel) f sb =
     (case rd (sb_alloc sb - sb_len sb - 1) f of
        (None, f) \<Rightarrow>
          dying_bind (if oldalloc = 0 then strbuf_release ok sb else strbuf_setlen ok oldlen sb) (\<lambda>sb. Some (Inr (-1, f, sb)))
      | (Some bs, f) \<Rightarrow> do {
          p \<leftarrow> put_bytes (sb_len sb) (map Some bs) (sb_buf sb);
          let sb = sb\<lparr>sb_buf := p\<rparr>;
          if bs = [] then do {
            p \<leftarrow> put_bytes (sb_len sb) [Some NUL] (sb_buf sb);
            Some (Inr (s64 (int (sb_len sb) - int oldlen), f, sb\<lparr>sb_buf := p\<rparr>))
          }
          else
            dying_bind (strbuf_grow ok 8192 (sb\<lparr>sb_len := usize (sb_len sb + length bs)\<rparr>))
              (read_loop ok rd oldlen oldalloc fuel f)
        })"

definition strbuf_read ::
  "(nat \<Rightarrow> bool) \<Rightarrow> (nat \<Rightarrow> 'f \<Rightarrow> string option \<times> 'f) \<Rightarrow> nat \<Rightarrow> 'f \<Rightarrow> int \<Rightarrow> strbuf \<Rightarrow> (int \<times> 'f \<times> strbuf) dying" where
  "strbuf_read ok rd fuel f hint sb =
     dying_bind (strbuf_grow ok (nat (u64 (if hint \<noteq> 0 then hint else 8192))) sb)
       (read_loop ok rd (sb_len sb) (sb_alloc sb) fuel f)"


section \<open>What a buffer holds\<close>

text \<open>
  \<open>sb_area\<close>: the invariant of the structure without the final NUL; \<open>sb_holds\<close> with it, as the header states
  it.  An object is never larger than \<open>PTRDIFF_MAX\<close>.
\<close>

definition sb_area :: "strbuf \<Rightarrow> string \<Rightarrow> bool" where
  "sb_area sb cs \<longleftrightarrow> length cs = sb_len sb \<and>
     (if sb_alloc sb = 0 then cs = [] \<and> sb_buf sb = strbuf_slopbuf
      else sb_len sb < sb_alloc sb \<and> sb_alloc sb < 9223372036854775808 \<and> length (sb_buf sb) = sb_alloc sb \<and>
        take (sb_len sb) (sb_buf sb) = map Some cs)"

definition sb_holds :: "strbuf \<Rightarrow> string \<Rightarrow> bool" where
  "sb_holds sb cs \<longleftrightarrow> sb_area sb cs \<and> sb_buf sb ! sb_len sb = Some NUL"

definition mem_ok :: "(nat \<Rightarrow> bool) \<Rightarrow> bool" where
  "mem_ok ok \<longleftrightarrow> (\<forall>n. ok n \<longrightarrow> n < 9223372036854775808)"

text \<open>The size a request for \<open>extra\<close> more bytes leads to, and when it makes the program die.\<close>

definition grown :: "strbuf \<Rightarrow> nat \<Rightarrow> nat" where
  "grown sb extra =
     (let n = sb_len sb + extra + 1 in if sb_alloc sb < n then max n (alloc_nr (sb_alloc sb)) else sb_alloc sb)"

definition refused :: "(nat \<Rightarrow> bool) \<Rightarrow> strbuf \<Rightarrow> nat \<Rightarrow> bool" where
  "refused ok sb extra \<longleftrightarrow>
     (let n = sb_len sb + extra + 1 in
      18446744073709551616 \<le> n \<or> sb_alloc sb < n \<and> \<not> ok (grown sb extra))"

definition outcome :: "'a dying \<Rightarrow> bool \<Rightarrow> ('a \<Rightarrow> bool) \<Rightarrow> bool" where
  "outcome r d Q \<longleftrightarrow> (if d then r = Some (Inl DIE_STATUS) else \<exists>y. r = Some (Inr y) \<and> Q y)"

lemma outcome_Inr [simp]: "outcome (Some (Inr x)) False Q = Q x"
  by (simp add: outcome_def)

lemma outcome_bind:
  assumes "outcome r d Q" "\<And>x. \<not> d \<Longrightarrow> Q x \<Longrightarrow> outcome (f x) False R"
  shows "outcome (dying_bind r f) d R"
  using assms by (auto simp: outcome_def dying_bind_def)

lemma outcome_mono: "outcome r d Q \<Longrightarrow> (\<And>x. Q x \<Longrightarrow> R x) \<Longrightarrow> outcome r d R"
  by (auto simp: outcome_def)

lemma strbuf_grow_outcome:
  assumes "sb_area sb cs" "mem_ok ok" "extra < 18446744073709551616"
  shows "outcome (strbuf_grow ok extra sb) (refused ok sb extra)
    (\<lambda>sb'. sb_area sb' cs \<and> sb_len sb' = sb_len sb \<and> sb_len sb + extra < sb_alloc sb' \<and> sb_alloc sb' = grown sb extra)"
proof -
  let ?n = "sb_len sb + extra + 1"
  have len: "sb_len sb < 9223372036854775808" using assms(1) by (auto simp: sb_area_def split: if_splits)
  show ?thesis
  proof (cases "18446744073709551616 \<le> ?n")
    case True
    then have "usize ?n = ?n - 18446744073709551616" using len assms(3) by (simp add: usize_def mod_if)
    then have "usize ?n \<le> sb_len sb" using assms(3) by linarith
    then show ?thesis using True by (simp add: outcome_def strbuf_grow_def refused_def)
  next
    case False
    then have n: "usize ?n = ?n" by (simp add: usize_def)
    let ?a = "if alloc_nr (sb_alloc sb) < ?n then ?n else alloc_nr (sb_alloc sb)"
    have a: "?a = max ?n (alloc_nr (sb_alloc sb))" "?n \<le> ?a" by auto
    have "ok ?a \<Longrightarrow> ?a < 9223372036854775808" using assms(2) unfolding mem_ok_def by blast
    with n a False assms(1) show ?thesis
      by (auto simp: outcome_def strbuf_grow_def refused_def grown_def ALLOC_GROW_def xrealloc_def sb_area_def Let_def min_def split: if_splits)
  qed
qed

text \<open>Bytes in the memory.\<close>

lemma put_bytes_fits: "pos + length bs \<le> length mem \<Longrightarrow>
    put_bytes pos bs mem = Some (take pos mem @ bs @ drop (pos + length bs) mem)"
  by (simp add: put_bytes_def)

lemma put_bytes_length: "put_bytes pos bs mem = Some p \<Longrightarrow> length p = length mem"
  by (auto simp: put_bytes_def split: if_splits)

lemma strbuf_setlen_holds:
  assumes "sb_alloc sb \<noteq> 0" "sb_alloc sb < 9223372036854775808" "length (sb_buf sb) = sb_alloc sb" "n < sb_alloc sb"
    and "take n (sb_buf sb) = map Some cs"
  shows "outcome (strbuf_setlen ok n sb) False (\<lambda>sb'. sb_holds sb' cs)"
proof -
  have "length cs = n" using arg_cong [OF assms(5), of length] assms(3,4) by simp
  then show ?thesis
    using assms by (simp add: strbuf_setlen_def dying_bind_def put_bytes_fits sb_holds_def sb_area_def nth_append)
qed

lemma strbuf_setlen_buf:
  assumes "sb_alloc x \<noteq> 0" "sb_alloc x < 9223372036854775808" "length p = sb_alloc x" "n < sb_alloc x" "take n p = map Some cs"
  shows "outcome (strbuf_setlen ok n (x\<lparr>sb_buf := p\<rparr>)) False (\<lambda>sb'. sb_holds sb' cs)"
  by (rule strbuf_setlen_holds) (use assms in simp_all)

lemma strbuf_add_outcome:
  assumes "sb_area sb cs" "mem_ok ok" "length data < 18446744073709551616"
  shows "outcome (strbuf_add ok data sb) (refused ok sb (length data)) (\<lambda>sb'. sb_holds sb' (cs @ data))"
  unfolding strbuf_add_def
proof (rule outcome_bind [OF strbuf_grow_outcome [OF assms]])
  fix x
  assume x: "sb_area x cs \<and> sb_len x = sb_len sb \<and> sb_len sb + length data < sb_alloc x \<and> sb_alloc x = grown sb (length data)"
  then have "usize (sb_len x + length data) = sb_len x + length data" "length cs = sb_len x"
    by (auto simp: usize_def sb_area_def)
  with x show "outcome (put_bytes (sb_len x) (map Some data) (sb_buf x) \<bind> (\<lambda>p. strbuf_setlen ok (usize (sb_len x + length data)) (x\<lparr>sb_buf := p\<rparr>)))
      False (\<lambda>sb'. sb_holds sb' (cs @ data))"
    by (auto simp: put_bytes_fits sb_area_def intro!: strbuf_setlen_holds)
qed

lemma strbuf_addch_outcome:
  assumes "sb_area sb cs" "mem_ok ok"
  shows "outcome (strbuf_addch ok c sb) (refused ok sb 1) (\<lambda>sb'. sb_holds sb' (cs @ [c]))"
  unfolding strbuf_addch_def
proof (rule outcome_bind [OF strbuf_grow_outcome [OF assms]])
  fix x
  assume "sb_area x cs \<and> sb_len x = sb_len sb \<and> sb_len sb + 1 < sb_alloc x \<and> sb_alloc x = grown sb 1"
  then show "outcome (do { p \<leftarrow> put_bytes (sb_len x) [Some c] (sb_buf x); p \<leftarrow> put_bytes (sb_len x + 1) [Some NUL] p;
      Some (Inr (x\<lparr>sb_len := sb_len x + 1, sb_buf := p\<rparr>)) }) False (\<lambda>sb'. sb_holds sb' (cs @ [c]))"
    by (auto simp: put_bytes_fits sb_area_def sb_holds_def nth_append min_def split: if_splits)
qed simp

lemma take_length_append: "n = length xs \<Longrightarrow> take n (xs @ ys) = xs"
  by simp

lemma strbuf_splice_outcome:
  assumes "sb_area sb cs" "mem_ok ok" "pos + len < 18446744073709551616" "length ds < 9223372036854775808"
    and "d = Some ds \<or> d = None \<and> ds = []"
  shows "outcome (strbuf_splice ok pos len d (length ds) sb)
    (length cs < pos + len \<or> len \<le> length ds \<and> refused ok sb (length ds - len))
    (\<lambda>sb'. sb_holds sb' (take pos cs @ ds @ drop (pos + len) cs))"
proof (cases "length cs < pos + len")
  case True
  then show ?thesis using assms(1,3) by (auto simp: outcome_def strbuf_splice_def sb_area_def usize_def)
next
  case False
  have u: "usize (pos + len) = pos + len" using assms(3) by (simp add: usize_def)
  have len: "length cs = sb_len sb" using assms(1) by (simp add: sb_area_def)
  let ?R = "\<lambda>x. sb_area x cs \<and> sb_len x = sb_len sb \<and> sb_len sb + length ds - len < sb_alloc x"
  have grow: "outcome (if len \<le> length ds then strbuf_grow ok (length ds - len) sb else Some (Inr sb))
      (len \<le> length ds \<and> refused ok sb (length ds - len)) ?R"
  proof (cases "len \<le> length ds")
    case True
    then show ?thesis
      using outcome_mono [OF strbuf_grow_outcome [OF assms(1,2), of "length ds - len"]] assms(4) by simp
  next
    case shrink: False
    then have "sb_alloc sb \<noteq> 0" using assms(1) False by (cases "sb_alloc sb = 0") (auto simp: sb_area_def)
    then show ?thesis using shrink assms(1) by (auto simp: sb_area_def)
  qed
  have "outcome (do {
        p \<leftarrow> put_bytes (pos + length ds) (take (sb_len x - pos - len) (drop (pos + len) (sb_buf x))) (sb_buf x);
        p \<leftarrow> (case d of Some d \<Rightarrow> put_bytes pos (map Some d) p | None \<Rightarrow> Some p);
        strbuf_setlen ok (usize (sb_len x + length ds - len)) (x\<lparr>sb_buf := p\<rparr>)
      }) False (\<lambda>sb'. sb_holds sb' (take pos cs @ ds @ drop (pos + len) cs))" if R: "?R x" for x
  proof -
    let ?b = "sb_buf x"
    let ?tail = "take (sb_len x - pos - len) (drop (pos + len) ?b)"
    let ?p1 = "take (pos + length ds) ?b @ ?tail @ drop (pos + length ds + length ?tail) ?b"
    let ?n = "sb_len sb + length ds - len"
    let ?p2 = "take pos ?p1 @ map Some ds @ drop (pos + length ds) ?p1"
    have x: "sb_alloc x \<noteq> 0" "length ?b = sb_alloc x" "sb_alloc x < 9223372036854775808" "take (sb_len sb) ?b = map Some cs"
      "sb_len x = sb_len sb" using R by (auto simp: sb_area_def split: if_splits)
    have lt: "length ?tail = sb_len sb - pos - len" using R x(1,2,5) diff_le_mono [of "sb_len sb" "sb_alloc x" "pos + len"] by (simp add: sb_area_def min_absorb2)
    have tail: "?tail = map Some (drop (pos + len) cs)"
      unfolding x(5) diff_diff_left drop_take [symmetric] x(4) by (simp add: drop_map)
    have "sb_len x < sb_alloc x" using R x(1) by (simp add: sb_area_def)
    then have le: "pos + len \<le> sb_len sb" "sb_len sb < length ?b" "pos + length ds \<le> length ?b"
      using False len x(2,5) R by linarith+
    have "take pos ?b = take pos (take (sb_len sb) ?b)" using le(1) by (simp add: min_def)
    then have pre: "take pos ?b = map Some (take pos cs)" unfolding x(4) by (simp add: take_map)
    have "take pos ?p1 = take pos ?b" using le by (simp add: min_def)
    moreover have "drop (pos + length ds) ?p1 = ?tail @ drop (pos + length ds + length ?tail) ?b" using le(3) by simp
    ultimately have p2: "?p2 = (take pos ?b @ map Some ds @ ?tail) @ drop (pos + length ds + length ?tail) ?b" by (simp only: append_assoc)
    have "length (take pos ?b) = pos" using le by simp
    then have "?n = length (take pos ?b @ map Some ds @ ?tail)"
      unfolding length_append length_map lt using le by linarith
    then have "take ?n ?p2 = take pos ?b @ map Some ds @ ?tail" unfolding p2 by (rule take_length_append)
    then have t2: "take ?n ?p2 = map Some (take pos cs @ ds @ drop (pos + len) cs)" unfolding pre tail by simp
    have n: "usize ?n = ?n" "?n < sb_alloc x" using R x by (auto simp: usize_def)
    have put1: "put_bytes (pos + length ds) ?tail ?b = Some ?p1"
      by (rule put_bytes_fits) (use R x False len lt in auto)
    have len1: "length ?p1 = sb_alloc x" using R x False len lt by auto
    have fits: "pos + length (map Some ds) \<le> length ?p1" unfolding len1 length_map using le(3) x(2) by linarith
    have put2: "(case d of Some d \<Rightarrow> put_bytes pos (map Some d) ?p1 | None \<Rightarrow> Some ?p1) = Some ?p2"
    proof (cases d)
      case None
      have "take pos q @ map Some ds @ drop (pos + length ds) q = q" for q using None assms(5) by simp
      then show ?thesis using None by (simp only: option.case)
    next
      case (Some e)
      then have "e = ds" using assms(5) by simp
      then show ?thesis using put_bytes_fits [OF fits] unfolding Some option.case length_map by (simp only:)
    qed
    have lp2: "length ?p2 = sb_alloc x" using put_bytes_length [OF put_bytes_fits [OF fits]] unfolding len1 length_map .
    have "outcome (strbuf_setlen ok ?n (x\<lparr>sb_buf := ?p2\<rparr>)) False (\<lambda>sb'. sb_holds sb' (take pos cs @ ds @ drop (pos + len) cs))"
      by (rule strbuf_setlen_buf [OF x(1,3) lp2 n(2) t2])
    then show ?thesis unfolding put1 bind.simps put2 unfolding x(5) n(1) .
  qed
  from outcome_bind [OF grow this] False len u show ?thesis
    unfolding strbuf_splice_def by simp
qed

text \<open>The formatted addition dies when the text is too long for an \<open>int\<close> or one of the two requests is refused.\<close>

definition addf_refused :: "(nat \<Rightarrow> bool) \<Rightarrow> strbuf \<Rightarrow> nat \<Rightarrow> bool" where
  "addf_refused ok sb n \<longleftrightarrow>
     (let full = sb_alloc sb = 0 \<or> sb_alloc sb = sb_len sb + 1 in
      full \<and> refused ok sb 64 \<or> INT_MAX < int n \<or>
      refused ok (if full then sb\<lparr>sb_alloc := grown sb 64\<rparr> else sb) n)"

lemma outcome_bind_or:
  assumes "outcome r d Q" "\<And>x. \<not> d \<Longrightarrow> Q x \<Longrightarrow> outcome (f x) e R"
  shows "outcome (dying_bind r f) (d \<or> e) R"
  using assms by (cases d) (auto simp: outcome_def dying_bind_def)

lemma strbuf_avail_area: "sb_area sb cs \<Longrightarrow> strbuf_avail sb = int (sb_alloc sb) - (if sb_alloc sb = 0 then 0 else int (sb_len sb) + 1)"
  using signed_take_bit_int_eq_self_iff [of 63 "int (sb_alloc sb) - int (sb_len sb) - 1"]
  by (auto simp: strbuf_avail_def sb_area_def s64_def)

lemma vsnprintf_area:
  assumes "sb_area x cs" "sb_alloc x \<noteq> 0" "int (length text) \<le> INT_MAX"
  obtains p where "vsnprintf (sb_len x) (sb_alloc x - sb_len x) text (sb_buf x) = Some (int (length text), p)"
    "sb_area (x\<lparr>sb_buf := p\<rparr>) cs"
    "sb_len x + length text < sb_alloc x \<Longrightarrow> take (sb_len x + length text) p = map Some (cs @ text)"
proof
  let ?p = "take (sb_len x) (sb_buf x) @ (map Some (take (sb_alloc x - sb_len x - 1) text) @ [Some NUL]) @
      drop (sb_len x + (min (length text) (sb_alloc x - sb_len x - 1) + 1)) (sb_buf x)"
  have x: "sb_len x < sb_alloc x" "length (sb_buf x) = sb_alloc x" "take (sb_len x) (sb_buf x) = map Some cs"
    "length cs = sb_len x"
    using assms(1,2) by (auto simp: sb_area_def)
  then show "vsnprintf (sb_len x) (sb_alloc x - sb_len x) text (sb_buf x) = Some (int (length text), ?p)"
    using assms(3) by (simp add: vsnprintf_def put_bytes_def min.commute)
  show "sb_area (x\<lparr>sb_buf := ?p\<rparr>) cs" using x assms(1,2) by (simp add: sb_area_def)
  show "sb_len x + length text < sb_alloc x \<Longrightarrow> take (sb_len x + length text) ?p = map Some (cs @ text)" using x by simp
qed

lemma strbuf_addf_outcome:
  assumes "sb_area sb cs" "mem_ok ok"
  shows "outcome (strbuf_addf ok text sb) (addf_refused ok sb (length text)) (\<lambda>sb'. sb_holds sb' (cs @ text))"
proof -
  let ?full = "sb_alloc sb = 0 \<or> sb_alloc sb = sb_len sb + 1"
  let ?sb1 = "if ?full then sb\<lparr>sb_alloc := grown sb 64\<rparr> else sb"
  let ?n = "length text"
  let ?Q = "\<lambda>x. sb_area x cs \<and> sb_len x = sb_len ?sb1 \<and> sb_alloc x = sb_alloc ?sb1 \<and> sb_alloc x \<noteq> 0"
  have full: "strbuf_avail sb = 0 \<longleftrightarrow> ?full"
    using strbuf_avail_area [OF assms(1)] by auto
  have first: "outcome (if strbuf_avail sb = 0 then strbuf_grow ok 64 sb else Some (Inr sb)) (?full \<and> refused ok sb 64) ?Q"
    using outcome_mono [OF strbuf_grow_outcome [OF assms, of 64], of ?Q] assms(1) by (auto simp: full)
  have body: "outcome (do {
       (len, p) \<leftarrow> vsnprintf (sb_len x) (sb_alloc x - sb_len x) text (sb_buf x);
       let sb = x\<lparr>sb_buf := p\<rparr>;
       if len < 0 then Some (Inl DIE_STATUS)
       else if len > strbuf_avail sb then
         dying_bind (strbuf_grow ok (nat len) sb) (\<lambda>sb. do {
           (len, p) \<leftarrow> vsnprintf (sb_len sb) (sb_alloc sb - sb_len sb) text (sb_buf sb);
           let sb = sb\<lparr>sb_buf := p\<rparr>;
           if len > strbuf_avail sb then Some (Inl DIE_STATUS)
           else strbuf_setlen ok (usize (sb_len sb + nat (u64 len))) sb
         })
       else strbuf_setlen ok (usize (sb_len sb + nat (u64 len))) sb
     }) (INT_MAX < int ?n \<or> refused ok ?sb1 ?n) (\<lambda>sb'. sb_holds sb' (cs @ text))" if x: "?Q x" for x
  proof (cases "INT_MAX < int ?n")
    case True
    then show ?thesis by (simp add: outcome_def vsnprintf_def)
  next
    case False
    have set: "outcome (strbuf_setlen ok (usize (sb_len y + nat (u64 (int ?n)))) (y\<lparr>sb_buf := p\<rparr>)) False (\<lambda>sb'. sb_holds sb' (cs @ text))"
      if y: "sb_area (y\<lparr>sb_buf := p\<rparr>) cs" "sb_alloc y \<noteq> 0" "sb_len y + ?n < sb_alloc y"
        "take (sb_len y + ?n) p = map Some (cs @ text)" for y p
    proof -
      have "u64 (int ?n) = int ?n" using False by (simp add: u64_id c_limits)
      moreover have "usize (sb_len y + ?n) = sb_len y + ?n" using y by (auto simp: usize_def sb_area_def)
      ultimately show ?thesis using y by (auto simp: sb_area_def intro!: strbuf_setlen_holds)
    qed
    obtain p where p: "vsnprintf (sb_len x) (sb_alloc x - sb_len x) text (sb_buf x) = Some (int ?n, p)"
      "sb_area (x\<lparr>sb_buf := p\<rparr>) cs" "sb_len x + ?n < sb_alloc x \<Longrightarrow> take (sb_len x + ?n) p = map Some (cs @ text)"
      using vsnprintf_area [of x cs "text"] x False by auto
    have av: "int ?n > strbuf_avail (x\<lparr>sb_buf := p\<rparr>) \<longleftrightarrow> \<not> sb_len x + ?n < sb_alloc x"
      using strbuf_avail_area [OF p(2)] x by auto
    show ?thesis
    proof (cases "sb_len x + ?n < sb_alloc x")
      case True
      then have "\<not> refused ok ?sb1 ?n" using x False by (auto simp: refused_def Let_def sb_area_def)
      moreover have "take (sb_len x + ?n) p = map Some (cs @ text)" by (rule p(3)) fact
      ultimately show ?thesis using set [OF p(2) _ True] x False p(1) av True by simp
    next
      case grow: False
      let ?y = "x\<lparr>sb_buf := p\<rparr>"
      have "refused ok ?y ?n = refused ok ?sb1 ?n" using x by (simp add: refused_def grown_def)
      moreover have "outcome (dying_bind (strbuf_grow ok ?n ?y) (\<lambda>sb. do {
           (len, p) \<leftarrow> vsnprintf (sb_len sb) (sb_alloc sb - sb_len sb) text (sb_buf sb);
           let sb = sb\<lparr>sb_buf := p\<rparr>;
           if len > strbuf_avail sb then Some (Inl DIE_STATUS)
           else strbuf_setlen ok (usize (sb_len sb + nat (u64 len))) sb
         })) (refused ok ?y ?n) (\<lambda>sb'. sb_holds sb' (cs @ text))"
      proof (rule outcome_bind [OF strbuf_grow_outcome [OF p(2) assms(2)]])
        show "?n < 18446744073709551616" using False by (simp add: c_limits)
      next
        fix z
        assume z: "sb_area z cs \<and> sb_len z = sb_len ?y \<and> sb_len ?y + ?n < sb_alloc z \<and> sb_alloc z = grown ?y ?n"
        then obtain q where q: "vsnprintf (sb_len z) (sb_alloc z - sb_len z) text (sb_buf z) = Some (int ?n, q)"
          "sb_area (z\<lparr>sb_buf := q\<rparr>) cs" "sb_len z + ?n < sb_alloc z \<Longrightarrow> take (sb_len z + ?n) q = map Some (cs @ text)"
          using vsnprintf_area [of z cs "text"] False by auto
        have "\<not> int ?n > strbuf_avail (z\<lparr>sb_buf := q\<rparr>)"
          using strbuf_avail_area [OF q(2)] z by auto
        then show "outcome (do {
           (len, p) \<leftarrow> vsnprintf (sb_len z) (sb_alloc z - sb_len z) text (sb_buf z);
           let sb = z\<lparr>sb_buf := p\<rparr>;
           if len > strbuf_avail sb then Some (Inl DIE_STATUS)
           else strbuf_setlen ok (usize (sb_len sb + nat (u64 len))) sb
         }) False (\<lambda>sb'. sb_holds sb' (cs @ text))"
          using set [OF q(2)] q(1,3) z by simp
      qed
      ultimately show ?thesis using p(1) av grow False by simp
    qed
  qed
  have "addf_refused ok sb ?n \<longleftrightarrow> (?full \<and> refused ok sb 64) \<or> (INT_MAX < int ?n \<or> refused ok ?sb1 ?n)"
    by (simp add: addf_refused_def Let_def)
  then show ?thesis
    unfolding strbuf_addf_def using outcome_bind_or [OF first body] by simp
qed

section \<open>Releasing and reading\<close>

lemma STRBUF_INIT_holds: "sb_holds STRBUF_INIT []"
  by (simp add: sb_holds_def sb_area_def STRBUF_INIT_def strbuf_slopbuf_def)

lemma strbuf_init_0: "strbuf_init ok 0 = Some (Inr STRBUF_INIT)"
  by (simp add: strbuf_init_def STRBUF_INIT_def)

lemma strbuf_release_init: "sb_holds sb cs \<Longrightarrow> strbuf_release ok sb = Some (Inr STRBUF_INIT)"
  by (auto simp: strbuf_release_def strbuf_init_0 sb_holds_def sb_area_def STRBUF_INIT_def)

text \<open>
  A descriptor that delivers \<open>cs\<close>, in pieces that fit the room it is given, and then the end of the file, or
  an error (\<open>err\<close>).
\<close>

inductive delivers :: "(nat \<Rightarrow> 'f \<Rightarrow> string option \<times> 'f) \<Rightarrow> bool \<Rightarrow> 'f \<Rightarrow> string \<Rightarrow> bool" for rd err where
  delivers_end: "(\<And>n. 0 < n \<Longrightarrow> fst (rd n f) = (if err then None else Some [])) \<Longrightarrow> delivers rd err f []"
| delivers_more: "(\<And>n. 0 < n \<Longrightarrow> \<exists>bs rest f'. rd n f = (Some bs, f') \<and> bs \<noteq> [] \<and> length bs \<le> n \<and> cs = bs @ rest \<and> delivers rd err f' rest) \<Longrightarrow>
    cs \<noteq> [] \<Longrightarrow> delivers rd err f cs"

text \<open>Memory that does not run out below 4 EiB.\<close>

definition plenty :: "(nat \<Rightarrow> bool) \<Rightarrow> bool" where
  "plenty ok \<longleftrightarrow> (\<forall>n < 4611686018427387904. ok n)"

lemma alloc_nr_le: "a < n \<Longrightarrow> n \<le> 1152921504606846976 \<Longrightarrow> alloc_nr a \<le> 2 * n + 24"
  by (auto simp: alloc_nr_def usize_def)

lemma plenty_grows:
  assumes "plenty ok" "sb_len sb + extra + 1 \<le> n" "n \<le> 1152921504606846976" "sb_alloc sb \<le> 2 * n + 24"
  shows "\<not> refused ok sb extra" "grown sb extra \<le> 2 * n + 24"
proof -
  show g: "grown sb extra \<le> 2 * n + 24"
    using alloc_nr_le [of "sb_alloc sb" "sb_len sb + extra + 1"] assms(2-4) by (auto simp: grown_def Let_def)
  show "\<not> refused ok sb extra" using g assms(1-3) by (simp add: refused_def plenty_def)
qed

lemma read_loop_all:
  assumes "delivers rd err f new" "sb_area sb cs" "sb_alloc sb \<noteq> 0" "sb_len sb + 1 < sb_alloc sb" "mem_ok ok" "plenty ok"
    "length (cs @ new) + 8193 \<le> n" "n \<le> 1152921504606846976" "sb_alloc sb \<le> 2 * n + 24" "length new < fuel"
    "oldlen \<le> length cs" "oldalloc = 0 \<Longrightarrow> oldlen = 0"
  shows "outcome (read_loop ok rd oldlen oldalloc fuel f sb) False
    (\<lambda>(rc, f', sb'). if err then rc = -1 \<and> sb_holds sb' (take oldlen cs)
       else rc = int (length (cs @ new)) - int oldlen \<and> sb_holds sb' (cs @ new))"
  using assms
proof (induction new arbitrary: sb cs fuel rule: delivers.induct)
  case (delivers_end f)
  obtain k where fuel: "fuel = Suc k" using delivers_end.prems(9) by (cases fuel) auto
  have sb: "length (sb_buf sb) = sb_alloc sb" "length cs = sb_len sb" "take (sb_len sb) (sb_buf sb) = map Some cs"
    "sb_len sb < sb_alloc sb" "sb_alloc sb < 9223372036854775808"
    using delivers_end.prems(1,2) by (auto simp: sb_area_def)
  have s64: "s64 (int (sb_len sb) - int oldlen) = int (sb_len sb) - int oldlen"
    using signed_take_bit_int_eq_self_iff [of 63 "int (sb_len sb) - int oldlen"] sb delivers_end.prems(10) by (simp add: s64_def)
  obtain f' where rd: "rd (sb_alloc sb - sb_len sb - 1) f = (if err then None else Some [], f')"
    using delivers_end.hyps [of "sb_alloc sb - sb_len sb - 1"] delivers_end.prems(3)
    by (cases "rd (sb_alloc sb - sb_len sb - 1) f") auto
  show ?case
  proof (cases err)
    case False
    then show ?thesis
      unfolding fuel read_loop.simps rd using sb s64 by (simp add: put_bytes_fits sb_holds_def sb_area_def nth_append)
  next
    case err: True
    have "outcome (if oldalloc = 0 then strbuf_release ok sb else strbuf_setlen ok oldlen sb) False (\<lambda>sb'. sb_holds sb' (take oldlen cs))"
    proof (cases "oldalloc = 0")
      case True
      then show ?thesis
        using delivers_end.prems(2,11) STRBUF_INIT_holds by (simp add: strbuf_release_def strbuf_init_0)
    next
      case False
      have "take oldlen (sb_buf sb) = take oldlen (take (sb_len sb) (sb_buf sb))"
        using sb(2) delivers_end.prems(10) by (simp add: min_def)
      then have "take oldlen (sb_buf sb) = map Some (take oldlen cs)" unfolding sb(3) by (simp add: take_map)
      then show ?thesis
        using strbuf_setlen_holds [of sb oldlen "take oldlen cs" ok] False sb delivers_end.prems(2,10) by simp
    qed
    then show ?thesis
      unfolding fuel read_loop.simps rd using err by (auto simp: outcome_def dying_bind_def)
  qed
next
  case (delivers_more f new)
  obtain k where fuel: "fuel = Suc k" using delivers_more.prems(9) by (cases fuel) auto
  let ?n = "sb_alloc sb - sb_len sb - 1"
  have "0 < ?n" using delivers_more.prems(3) by simp
  from delivers_more.IH [OF this] obtain bs rest f' where
    rd: "rd ?n f = (Some bs, f')" "bs \<noteq> []" "length bs \<le> ?n" "new = bs @ rest"
    and IH: "\<And>sb cs fuel. sb_area sb cs \<Longrightarrow> sb_alloc sb \<noteq> 0 \<Longrightarrow> sb_len sb + 1 < sb_alloc sb \<Longrightarrow> mem_ok ok \<Longrightarrow> plenty ok \<Longrightarrow>
      length (cs @ rest) + 8193 \<le> n \<Longrightarrow> n \<le> 1152921504606846976 \<Longrightarrow> sb_alloc sb \<le> 2 * n + 24 \<Longrightarrow> length rest < fuel \<Longrightarrow>
      oldlen \<le> length cs \<Longrightarrow> (oldalloc = 0 \<Longrightarrow> oldlen = 0) \<Longrightarrow> outcome (read_loop ok rd oldlen oldalloc fuel f' sb) False
    (\<lambda>(rc, f', sb'). if err then rc = -1 \<and> sb_holds sb' (take oldlen cs)
       else rc = int (length (cs @ rest)) - int oldlen \<and> sb_holds sb' (cs @ rest))"
    by auto
  have sb: "length (sb_buf sb) = sb_alloc sb" "length cs = sb_len sb" "take (sb_len sb) (sb_buf sb) = map Some cs"
    "sb_len sb < sb_alloc sb" "sb_alloc sb < 9223372036854775808"
    using delivers_more.prems(1,2) by (auto simp: sb_area_def)
  let ?p = "take (sb_len sb) (sb_buf sb) @ map Some bs @ drop (sb_len sb + length bs) (sb_buf sb)"
  let ?sb = "sb\<lparr>sb_buf := ?p, sb_len := sb_len sb + length bs\<rparr>"
  have put: "put_bytes (sb_len sb) (map Some bs) (sb_buf sb) = Some ?p"
    using put_bytes_fits [of "sb_len sb" "map Some bs" "sb_buf sb"] rd(3) sb by simp
  have u: "usize (sb_len sb + length bs) = sb_len sb + length bs" using rd(3) sb by (simp add: usize_def)
  have area: "sb_area ?sb (cs @ bs)" using rd(3) sb by (simp add: sb_area_def)
  have fit: "sb_len ?sb + 8192 + 1 \<le> n" using delivers_more.prems(6) rd(4) sb(2) by simp
  have al: "sb_alloc ?sb \<le> 2 * n + 24" using delivers_more.prems(8) by simp
  note grow = plenty_grows [OF delivers_more.prems(5) fit delivers_more.prems(7) al]
  from strbuf_grow_outcome [OF area delivers_more.prems(4), of 8192] grow obtain sb' where
    sb': "strbuf_grow ok 8192 ?sb = Some (Inr sb')" "sb_area sb' (cs @ bs)" "sb_len sb' = sb_len ?sb"
      "sb_len ?sb + 8192 < sb_alloc sb'" "sb_alloc sb' \<le> 2 * n + 24"
    by (auto simp: outcome_def)
  have "0 < length bs" using rd(2) by simp
  moreover have "length bs + length rest < Suc k" using delivers_more.prems(9) rd(4) fuel by simp
  ultimately have k: "length rest < k" by linarith
  have out: "outcome (read_loop ok rd oldlen oldalloc k f' sb') False
    (\<lambda>(rc, f', sb'). if err then rc = -1 \<and> sb_holds sb' (take oldlen (cs @ bs))
       else rc = int (length ((cs @ bs) @ rest)) - int oldlen \<and> sb_holds sb' ((cs @ bs) @ rest))"
    by (rule IH [OF sb'(2)]) (use delivers_more.prems sb' rd k in auto)
  have step: "read_loop ok rd oldlen oldalloc (Suc k) f sb = read_loop ok rd oldlen oldalloc k f' sb'"
    using put rd(1,2) sb'(1) by (simp add: u dying_bind_def)
  show ?case
    unfolding fuel step by (rule outcome_mono [OF out]) (use delivers_more.prems(10) rd(4) in auto)
qed

section \<open>Properties\<close>

text \<open>
  C33: the buffers implement strings: on a buffer that holds \<open>cs\<close> each operation either makes the program die,
  exactly when its request overflows or memory is refused, or leaves a terminated buffer that holds the
  string with the addition or the removal done, and never writes outside its memory.
\<close>

theorem strbuf_refines:
  assumes "sb_holds sb cs" "mem_ok ok" "length data < 18446744073709551616" "pos + len < 18446744073709551616"
  shows "outcome (strbuf_addstr ok data sb) (refused ok sb (length data)) (\<lambda>sb'. sb_holds sb' (cs @ data)) \<and>
    outcome (strbuf_addch ok c sb) (refused ok sb 1) (\<lambda>sb'. sb_holds sb' (cs @ [c])) \<and>
    outcome (strbuf_addf ok data sb) (addf_refused ok sb (length data)) (\<lambda>sb'. sb_holds sb' (cs @ data)) \<and>
    outcome (strbuf_remove ok pos len sb) (length cs < pos + len \<or> len = 0 \<and> refused ok sb 0)
      (\<lambda>sb'. sb_holds sb' (take pos cs @ drop (pos + len) cs)) \<and>
    strbuf_release ok sb = Some (Inr STRBUF_INIT) \<and> sb_holds STRBUF_INIT []"
proof -
  have area: "sb_area sb cs" using assms(1) by (simp add: sb_holds_def)
  have "outcome (strbuf_remove ok pos len sb) (length cs < pos + len \<or> len = 0 \<and> refused ok sb 0)
      (\<lambda>sb'. sb_holds sb' (take pos cs @ drop (pos + len) cs))"
    using strbuf_splice_outcome [OF area assms(2,4), of "[]" None] by (simp add: strbuf_remove_def)
  then show ?thesis
    unfolding strbuf_addstr_def
    using strbuf_add_outcome [OF area assms(2,3)] strbuf_addch_outcome [OF area assms(2)]
      strbuf_addf_outcome [OF area assms(2)] strbuf_release_init [OF assms(1)] STRBUF_INIT_holds by blast
qed

text \<open>A buffer of eight bytes that holds \<open>dsa0\<close>, and memory for up to 30 bytes.\<close>

definition ex_sb :: strbuf where
  "ex_sb = \<lparr>sb_alloc = 8, sb_len = 4, sb_buf = map Some (''dsa0'' @ [NUL]) @ [None, None, None]\<rparr>"

lemma ex_sb_holds: "sb_holds ex_sb ''dsa0''"
  by (simp add: sb_holds_def sb_area_def ex_sb_def)

theorem strbuf_refines_witness:
  "(\<exists>sb'. strbuf_addstr (\<lambda>n. n < 40) ''/wq0.1'' ex_sb = Some (Inr sb') \<and> sb_holds sb' ''dsa0/wq0.1'') \<and>
   (\<exists>sb'. strbuf_remove (\<lambda>n. n < 40) 0 3 ex_sb = Some (Inr sb') \<and> sb_holds sb' ''0'') \<and>
   strbuf_addstr (\<lambda>n. n < 30) ''/wq0.1'' ex_sb = Some (Inl 128)"
proof -
  have ok: "mem_ok (\<lambda>n. n < 40)" "mem_ok (\<lambda>n. n < 30)" by (auto simp: mem_ok_def)
  have "\<not> refused (\<lambda>n. n < 40) ex_sb (length ''/wq0.1'')" "refused (\<lambda>n. n < 30) ex_sb (length ''/wq0.1'')"
    by (simp_all add: refused_def grown_def ex_sb_def alloc_nr_def usize_def)
  then show ?thesis
    using strbuf_refines [OF ex_sb_holds ok(1), of "''/wq0.1''" 0 3] strbuf_refines [OF ex_sb_holds ok(2), of "''/wq0.1''" 0 3]
    by (auto simp: outcome_def DIE_STATUS_def)
qed

text \<open>
  C34: reading a descriptor to its end: with memory for it the loop ends, having read everything behind the
  text the buffer held, and the result is the number of bytes; after an error the result is -1 and what
  was read is undone.
\<close>

theorem strbuf_read_all:
  assumes "delivers rd err f new" "sb_holds sb cs" "mem_ok ok" "plenty ok" "0 \<le> hint" "hint \<le> 65536"
    "length (cs @ new) + 65537 \<le> n" "n \<le> 1152921504606846976" "sb_alloc sb \<le> 2 * n + 24" "length new < fuel"
  shows "\<exists>rc f' sb'. strbuf_read ok rd fuel f hint sb = Some (Inr (rc, f', sb')) \<and>
    (if err then rc = -1 \<and> sb_holds sb' cs else rc = int (length new) \<and> sb_holds sb' (cs @ new))"
proof -
  let ?h = "nat (u64 (if hint \<noteq> 0 then hint else 8192))"
  have area: "sb_area sb cs" and len: "sb_len sb = length cs" using assms(2) by (auto simp: sb_holds_def sb_area_def)
  have h: "0 < ?h" "?h \<le> 65536" using assms(5,6) by (auto simp: u64_id c_limits)
  have fit: "sb_len sb + ?h + 1 \<le> n" using h(2) len assms(7) by simp
  note grow = plenty_grows [OF assms(4) fit assms(8,9)]
  from strbuf_grow_outcome [OF area assms(3), of ?h] grow h obtain sb1 where sb1: "strbuf_grow ok ?h sb = Some (Inr sb1)"
    "sb_area sb1 cs" "sb_len sb1 = length cs" "length cs + ?h < sb_alloc sb1" "sb_alloc sb1 \<le> 2 * n + 24"
    by (auto simp: outcome_def len)
  have "outcome (read_loop ok rd (length cs) (sb_alloc sb) fuel f sb1) False
    (\<lambda>(rc, f', sb'). if err then rc = -1 \<and> sb_holds sb' (take (length cs) cs)
       else rc = int (length (cs @ new)) - int (length cs) \<and> sb_holds sb' (cs @ new))"
    by (rule read_loop_all [OF assms(1) sb1(2), where n = n])
      (use sb1 h assms area in \<open>auto simp: sb_area_def\<close>)
  then show ?thesis
    using sb1(1) by (cases err) (auto simp: strbuf_read_def dying_bind_def len outcome_def)
qed

text \<open>A descriptor as the list of what is left.\<close>

definition list_read :: "nat \<Rightarrow> string \<Rightarrow> string option \<times> string" where
  "list_read n f = (Some (take n f), drop n f)"

lemma list_read_delivers: "delivers list_read False f f"
proof (induction f rule: length_induct)
  case (1 f)
  show ?case
  proof (cases "f = []")
    case False
    have "\<exists>bs rest f'. list_read n f = (Some bs, f') \<and> bs \<noteq> [] \<and> length bs \<le> n \<and> f = bs @ rest \<and> delivers list_read False f' rest"
      if "0 < n" for n
    proof -
      have "list_read n f = (Some (take n f), drop n f)" by (simp add: list_read_def)
      moreover have "delivers list_read False (drop n f) (drop n f)" using 1 that False by simp
      ultimately show ?thesis using that False by (metis append_take_drop_id length_take min.cobounded2 take_eq_Nil2 gr_implies_not0)
    qed
    then show ?thesis using False by (rule delivers_more)
  qed (auto simp: list_read_def intro: delivers_end)
qed

theorem strbuf_read_all_witness:
  "\<exists>f' sb'. strbuf_read (\<lambda>n. n < 4611686018427387904) list_read 5 '' wq'' 0 ex_sb = Some (Inr (3, f', sb')) \<and> sb_holds sb' ''dsa0 wq''"
proof -
  have "\<exists>rc f' sb'. strbuf_read (\<lambda>n. n < 4611686018427387904) list_read 5 '' wq'' 0 ex_sb = Some (Inr (rc, f', sb')) \<and>
    (if False then rc = -1 \<and> sb_holds sb' ''dsa0'' else rc = int (length '' wq'') \<and> sb_holds sb' (''dsa0'' @ '' wq''))"
    by (rule strbuf_read_all [OF list_read_delivers ex_sb_holds, where n = 70000])
      (simp_all add: mem_ok_def plenty_def ex_sb_def)
  then show ?thesis by simp
qed

text \<open>
  Growing a fresh buffer does not terminate it: after \<open>strbuf_init\<close> with a hint the first byte was never
  written, where the header says that every function keeps the buffer a C string.
\<close>

lemma strbuf_init_unterminated:
  assumes "0 < hint" "hint < LONG_MAX" "ok (max (nat hint + 1) 24)"
  shows "\<exists>sb. strbuf_init ok hint = Some (Inr sb) \<and> sb_len sb = 0 \<and> sb_buf sb ! 0 = None \<and> \<not> sb_holds sb []"
proof -
  have "u64 hint = hint" using assms(1,2) by (simp add: u64_id c_limits)
  moreover have "usize (nat hint + 1) = nat hint + 1" using assms(2) by (simp add: usize_def c_limits)
  moreover have "alloc_nr 0 = 24" by (simp add: alloc_nr_def usize_def)
  ultimately show ?thesis
    using assms by (auto simp: strbuf_init_def strbuf_grow_def ALLOC_GROW_def xrealloc_def sb_holds_def Let_def max_def split: if_splits)
qed

end
