(* ===== verification/Bitmap.thy ===== *)
theory Bitmap
  imports Size
begin

text \<open>
  The bit maps of \<open>src/util/bitmap.c\<close> and \<open>src/util/bitmap.h\<close>: an array of 64-bit words in
  which bit \<open>i\<close> of the map is bit \<open>i mod 64\<close> of word \<open>i div 64\<close>.  A word outside the array is
  \<open>None\<close>.  Setting and clearing a range share a loop over words with a first and a last mask; the
  locale \<open>word_update\<close> states what that loop needs of the word operation, and is interpreted for
  both.  The search functions return the position one past the bit they find.
\<close>

unbundle bit_operations_syntax

definition BITS_PER_LONG :: nat where "BITS_PER_LONG = 64"

definition BIT_WORD :: "nat \<Rightarrow> nat" where
  "BIT_WORD nr = nr div BITS_PER_LONG"

definition BITS_TO_LONGS :: "nat \<Rightarrow> nat" where
  "BITS_TO_LONGS nr = (nr + BITS_PER_LONG - 1) div BITS_PER_LONG"

definition BITMAP_FIRST_WORD_MASK :: "nat \<Rightarrow> u64w" where
  "BITMAP_FIRST_WORD_MASK start = push_bit (start mod BITS_PER_LONG) (NOT 0)"

text \<open>\<open>~0UL >> (-(nbits) & 63)\<close>.\<close>

definition BITMAP_LAST_WORD_MASK :: "nat \<Rightarrow> u64w" where
  "BITMAP_LAST_WORD_MASK nbits = drop_bit (nat (- int nbits mod 64)) (NOT 0)"

definition bitmap_alloc :: "nat \<Rightarrow> u64w list" where
  "bitmap_alloc nbits = replicate (BITS_TO_LONGS nbits) 0"

text \<open>
  The \<open>while\<close> loop of \<open>bitmap_set\<close> and \<open>bitmap_clear\<close>: \<open>upd\<close> is the update of one word by a
  mask.  The number of bits of the current word is always positive (the first word has
  \<open>64 - start % 64\<close>, every later one 64).
\<close>

function bitmap_loop ::
  "(u64w \<Rightarrow> u64w \<Rightarrow> u64w) \<Rightarrow> u64w list \<Rightarrow> nat \<Rightarrow> int \<Rightarrow> int \<Rightarrow> u64w
     \<Rightarrow> (u64w list \<times> nat \<times> int \<times> u64w) option" where
  "bitmap_loop upd bm p len bits mask_to_set =
     (if 0 < bits \<and> len - bits \<ge> 0 then
        if p < length bm
        then bitmap_loop upd (bm[p := upd (bm ! p) mask_to_set]) (p + 1) (len - bits) 64 (NOT 0)
        else None
      else Some (bm, p, len, mask_to_set))"
  by pat_completeness auto
termination
  by (relation "measure (\<lambda>(upd, bm, p, len, bits, mask_to_set). nat len)") auto

declare bitmap_loop.simps [simp del]

text \<open>The part after the loop: the last, partial word.\<close>

definition bitmap_rest ::
  "(u64w \<Rightarrow> u64w \<Rightarrow> u64w) \<Rightarrow> nat \<Rightarrow> u64w list \<times> nat \<times> int \<times> u64w \<Rightarrow> u64w list option" where
  "bitmap_rest upd sz st =
     (case st of (bm, p, len, mask_to_set) \<Rightarrow>
        if len \<noteq> 0 then
          (let mask_to_set = mask_to_set AND BITMAP_LAST_WORD_MASK sz in
           if p < length bm then Some (bm[p := upd (bm ! p) mask_to_set]) else None)
        else Some bm)"

definition bitmap_range :: "(u64w \<Rightarrow> u64w \<Rightarrow> u64w) \<Rightarrow> u64w list \<Rightarrow> nat \<Rightarrow> int \<Rightarrow> u64w list option" where
  "bitmap_range upd bm start len =
     (let sz = nat ((int start + len) mod 2 ^ 32);
          bits = int BITS_PER_LONG - int (start mod BITS_PER_LONG)
      in Option.bind (bitmap_loop upd bm (BIT_WORD start) len bits (BITMAP_FIRST_WORD_MASK start))
           (bitmap_rest upd sz))"

definition bitmap_set :: "u64w list \<Rightarrow> nat \<Rightarrow> int \<Rightarrow> u64w list option" where
  "bitmap_set bm start len = bitmap_range (\<lambda>w m. w OR m) bm start len"

definition bitmap_clear :: "u64w list \<Rightarrow> nat \<Rightarrow> int \<Rightarrow> u64w list option" where
  "bitmap_clear bm start len = bitmap_range (\<lambda>w m. w AND NOT m) bm start len"

definition test_bit :: "nat \<Rightarrow> u64w list \<Rightarrow> u64w option" where
  "test_bit nr addr =
     (if BIT_WORD nr < length addr
      then Some (1 AND drop_bit (nr mod BITS_PER_LONG) (addr ! BIT_WORD nr))
      else None)"

text \<open>\<open>__builtin_ffsl\<close>: one plus the index of the lowest set bit, 0 for the word 0.\<close>

definition ffsl :: "u64w \<Rightarrow> nat" where
  "ffsl w = (case List.find (bit w) [0..<64] of None \<Rightarrow> 0 | Some i \<Rightarrow> i + 1)"

function find_next_loop :: "u64w list \<Rightarrow> nat \<Rightarrow> nat \<Rightarrow> u64w \<Rightarrow> u64w \<Rightarrow> nat option" where
  "find_next_loop addr nbits start tmp invert =
     (if tmp = 0 then
        if start + BITS_PER_LONG \<ge> nbits then Some nbits
        else if BIT_WORD (start + BITS_PER_LONG) < length addr
        then find_next_loop addr nbits (start + BITS_PER_LONG)
               (addr ! BIT_WORD (start + BITS_PER_LONG) XOR invert) invert
        else None
      else Some (min (start + ffsl tmp) nbits))"
  by pat_completeness auto
termination
  by (relation "measure (\<lambda>(addr, nbits, start, tmp, invert). nbits - start)")
    (auto simp: BITS_PER_LONG_def)

declare find_next_loop.simps [simp del]

definition find_next_bit_inv :: "u64w list \<Rightarrow> nat \<Rightarrow> nat \<Rightarrow> u64w \<Rightarrow> nat option" where
  "find_next_bit_inv addr nbits start invert =
     (if nbits = 0 \<or> start \<ge> nbits then Some nbits
      else if BIT_WORD start < length addr
      then find_next_loop addr nbits (start - start mod BITS_PER_LONG)
             ((addr ! BIT_WORD start XOR invert) AND BITMAP_FIRST_WORD_MASK start) invert
      else None)"

definition find_next_bit :: "u64w list \<Rightarrow> nat \<Rightarrow> nat \<Rightarrow> nat option" where
  "find_next_bit addr sz offset = find_next_bit_inv addr sz offset 0"

definition find_next_zero_bit :: "u64w list \<Rightarrow> nat \<Rightarrow> nat \<Rightarrow> nat option" where
  "find_next_zero_bit addr sz offset = find_next_bit_inv addr sz offset (NOT 0)"

text \<open>
  \<open>bitmap_full\<close>: the argument is not a compile-time constant, so the search is always taken.
\<close>

definition bitmap_full :: "u64w list \<Rightarrow> nat \<Rightarrow> bool option" where
  "bitmap_full src nbits = map_option (\<lambda>r. r = nbits) (find_next_zero_bit src nbits 0)"

text \<open>Bit \<open>i\<close> of a map.\<close>

definition map_bit :: "u64w list \<Rightarrow> nat \<Rightarrow> bool" where
  "map_bit bm i = bit (bm ! (i div 64)) (i mod 64)"


section \<open>Updating a range of bits\<close>

lemma word_span:
  fixes i p :: nat
  shows "i div 64 = p \<longleftrightarrow> 64 * p \<le> i \<and> i < 64 * p + 64"
proof -
  obtain q r where "q = i div 64" "i = 64 * q + r" "r < 64"
    using mult_div_mod_eq [of 64 i] mod_less_divisor [of 64 i] by (metis zero_less_numeral)
  then show ?thesis by arith
qed

text \<open>What the range loop needs of the word operation: it acts bit by bit, and only under the mask.\<close>

locale word_update =
  fixes upd :: "u64w \<Rightarrow> u64w \<Rightarrow> u64w"
    and eff :: "bool \<Rightarrow> bool \<Rightarrow> bool"
  assumes upd_bit: "j < 64 \<Longrightarrow> bit (upd w m) j = eff (bit w j) (bit m j)"
    and eff_off: "eff b False = b"
begin

lemma eff_unmasked: "\<not> c \<Longrightarrow> eff b c = b"
  by (cases c) (simp_all add: eff_off)

lemma map_bit_update:
  assumes "p < length bm"
  shows "map_bit (bm[p := upd (bm ! p) m]) i
           = (if i div 64 = p then eff (map_bit bm i) (bit m (i mod 64)) else map_bit bm i)"
  using assms upd_bit [of "i mod 64"] by (simp add: map_bit_def)

lemma full_word_step:
  fixes i p b l :: nat
  assumes "i div 64 = p" "b \<le> 64" "b \<le> l"
  shows "(64 - b \<le> i mod 64) = (64 * p + (64 - b) \<le> i \<and> i < 64 * p + (64 - b) + l)"
proof -
  define c where "c = 64 - b"
  then have c: "b + c = 64" using assms(2) by simp
  define r where "r = i mod 64"
  then have r: "i mod 64 = r" "i = 64 * p + r" "r < 64"
    using mult_div_mod_eq [of 64 i] assms(1) by simp_all
  have "64 - b = c" using c by simp
  then have "(64 - b \<le> r) = (64 * p + (64 - b) \<le> i \<and> i < 64 * p + (64 - b) + l)"
    using r(2,3) c assms(3) by auto
  then show ?thesis by (simp only: r(1))
qed

lemma other_word_step:
  fixes i p b l :: nat
  assumes "i div 64 \<noteq> p" "b \<le> 64" "b \<le> l"
  shows "(64 * (p + 1) \<le> i \<and> i < 64 * (p + 1) + (l - b))
           = (64 * p + (64 - b) \<le> i \<and> i < 64 * p + (64 - b) + l)"
proof -
  define c where "c = 64 - b"
  then have c: "b + c = 64" using assms(2) by simp
  define d where "d = l - b"
  then have d: "l = b + d" using assms(3) by simp
  have cd: "64 - b = c" "l - b = d" "b \<le> 64" using c d by simp_all
  have "i < 64 * p \<or> 64 * (p + 1) \<le> i" using assms(1) by (auto simp: word_span)
  then show ?thesis
  proof
    assume "i < 64 * p"
    then show ?thesis by simp
  next
    assume "64 * (p + 1) \<le> i"
    moreover from this c have "64 * p + c \<le> i" by simp
    moreover have "64 * (p + 1) + d = 64 * p + c + l" using c d by simp
    ultimately show ?thesis by (simp only: cd(1,2))
  qed
qed

lemma last_word_step:
  assumes "i div 64 = p" "b \<le> 64" "l < b" "(64 * p + (64 - b) + l) mod 64 = sz mod 64" "0 < l"
  shows "(64 - b \<le> i mod 64 \<and> bit (BITMAP_LAST_WORD_MASK sz) (i mod 64))
           = (64 * p + (64 - b) \<le> i \<and> i < 64 * p + (64 - b) + l)"
proof -
  have i: "i = 64 * p + i mod 64" using mult_div_mod_eq [of 64 i] assms(1) by simp
  have "(64 * p + (64 - b + l)) mod 64 = (64 - b + l) mod 64" by simp
  then have sz: "sz mod 64 = 64 - b + l" using assms(2-5) by (simp add: add.assoc)
  have "int (sz mod 64) = int (64 - b + l)" using sz by simp
  then have "int sz mod 64 = 64 - int b + int l" using assms(2) by (simp add: zmod_int of_nat_diff)
  then have "- int sz mod 64 = int b - int l" using assms(2,3,5) by (simp add: zmod_zminus1_eq_if)
  then have "nat (- int sz mod 64) = 64 - (64 - b + l)" using assms(2,3) by simp
  then have "bit (BITMAP_LAST_WORD_MASK sz) (i mod 64) = (i mod 64 < 64 - b + l)"
    using assms(2,3) by (auto simp: BITMAP_LAST_WORD_MASK_def bit_drop_bit_eq bit_not_iff bit_mask_iff)
  with i assms(2,3) show ?thesis by arith
qed

text \<open>The loop and the last word together change exactly the bits of the range.\<close>

lemma range_bits:
  assumes "0 < b" "b \<le> 64" "\<forall>j < 64. bit m j = (64 - b \<le> j)"
    and "64 * p + (64 - b) + l \<le> 64 * length bm"
    and "(64 * p + (64 - b) + l) mod 64 = sz mod 64"
  shows "\<exists>bm'. Option.bind (bitmap_loop upd bm p (int l) (int b) m) (bitmap_rest upd sz) = Some bm'
           \<and> length bm' = length bm
           \<and> (\<forall>i. map_bit bm' i
                 = eff (map_bit bm i) (64 * p + (64 - b) \<le> i \<and> i < 64 * p + (64 - b) + l))"
  using assms
proof (induction l arbitrary: bm p b m rule: less_induct)
  case (less l)
  show ?case
  proof (cases "b \<le> l")
    case True
    let ?bm1 = "bm[p := upd (bm ! p) m]"
    have p: "p < length bm" using less.prems(1,2,4) True by simp
    have "64 * (p + 1) + (64 - 64) + (l - b) \<le> 64 * length ?bm1"
      and "(64 * (p + 1) + (64 - 64) + (l - b)) mod 64 = sz mod 64"
      using less.prems True by (simp_all add: algebra_simps)
    moreover have "\<forall>j < 64. bit (NOT 0 :: u64w) j = (64 - 64 \<le> j)" by (simp add: bit_not_iff)
    ultimately obtain bm' where bm':
      "Option.bind (bitmap_loop upd ?bm1 (p + 1) (int (l - b)) (int 64) (NOT 0)) (bitmap_rest upd sz) = Some bm'"
      "length bm' = length bm"
      "\<forall>i. map_bit bm' i = eff (map_bit ?bm1 i) (64 * (p + 1) \<le> i \<and> i < 64 * (p + 1) + (l - b))"
      using less.IH [of "l - b" 64 "NOT 0" "p + 1" ?bm1] less.prems(1) True by auto
    have "map_bit bm' i = eff (map_bit bm i) (64 * p + (64 - b) \<le> i \<and> i < 64 * p + (64 - b) + l)" for i
    proof (cases "i div 64 = p")
      case True
      then have "\<not> 64 * (p + 1) \<le> i" by (auto simp: word_span)
      then have "map_bit bm' i = map_bit ?bm1 i" using bm'(3) eff_off by simp
      with True p show ?thesis
        using less.prems(2,3) full_word_step [OF True less.prems(2) \<open>b \<le> l\<close>] by (simp add: map_bit_update)
    next
      case False
      with p bm'(3) show ?thesis
        using other_word_step [OF False less.prems(2) \<open>b \<le> l\<close>] by (simp add: map_bit_update)
    qed
    moreover have "bitmap_loop upd bm p (int l) (int b) m
        = bitmap_loop upd ?bm1 (p + 1) (int (l - b)) (int 64) (NOT 0)"
      using True p less.prems(1) by (simp add: bitmap_loop.simps [of upd bm] of_nat_diff)
    ultimately show ?thesis using bm'(1,2) by auto
  next
    case False
    then have loop: "bitmap_loop upd bm p (int l) (int b) m = Some (bm, p, int l, m)"
      by (simp add: bitmap_loop.simps [of upd bm])
    show ?thesis
    proof (cases "l = 0")
      case True
      with loop show ?thesis by (simp add: bitmap_rest_def eff_unmasked)
    next
      case l: False
      let ?m = "m AND BITMAP_LAST_WORD_MASK sz"
      have p: "p < length bm" using less.prems(2,4) l by simp
      have "map_bit (bm[p := upd (bm ! p) ?m]) i
          = eff (map_bit bm i) (64 * p + (64 - b) \<le> i \<and> i < 64 * p + (64 - b) + l)" for i
      proof (cases "i div 64 = p")
        case True
        with p show ?thesis
          using less.prems(3) last_word_step [OF True less.prems(2) _ less.prems(5)] False l
          by (simp add: map_bit_update bit_and_iff)
      next
        case other: False
        then have "i < 64 * p \<or> 64 * (p + 1) \<le> i" by (auto simp: word_span)
        moreover obtain c where "b + c = 64" "64 - b = c" using less.prems(2) by (metis le_add_diff_inverse)
        ultimately have "\<not> (64 * p + (64 - b) \<le> i \<and> i < 64 * p + (64 - b) + l)"
          using False by auto
        with p other show ?thesis by (simp only: map_bit_update eff_off if_False)
      qed
      with loop p l show ?thesis by (simp add: bitmap_rest_def)
    qed
  qed
qed

lemma bitmap_range_bits:
  assumes "start + l \<le> 64 * length bm" "start + l < 2 ^ 32"
  shows "\<exists>bm'. bitmap_range upd bm start (int l) = Some bm' \<and> length bm' = length bm
           \<and> (\<forall>i. map_bit bm' i = eff (map_bit bm i) (start \<le> i \<and> i < start + l))"
proof -
  let ?b = "64 - start mod 64"
  have st: "64 * (start div 64) + (64 - ?b) = start" by simp
  have "\<forall>j < 64. bit (BITMAP_FIRST_WORD_MASK start) j = (64 - ?b \<le> j)"
    by (auto simp: BITMAP_FIRST_WORD_MASK_def BITS_PER_LONG_def bit_push_bit_iff bit_not_iff bit_mask_iff)
  moreover have "nat ((int start + int l) mod 2 ^ 32) = start + l"
    using assms(2) by (simp add: nat_mod_as_int flip: of_nat_add)
  moreover have "int BITS_PER_LONG - int (start mod BITS_PER_LONG) = int ?b"
    by (simp add: BITS_PER_LONG_def of_nat_diff)
  moreover have "BIT_WORD start = start div 64" by (simp add: BIT_WORD_def BITS_PER_LONG_def)
  ultimately show ?thesis
    using range_bits [of ?b "BITMAP_FIRST_WORD_MASK start" "start div 64" l bm "start + l"] assms(1)
    unfolding bitmap_range_def Let_def by (simp add: st nat_int_add del: diff_diff_cancel)
qed

end

interpretation set_bits: word_update "\<lambda>w m. w OR m" "\<lambda>b m. b \<or> m"
  by unfold_locales (simp_all add: bit_or_iff)

interpretation clear_bits: word_update "\<lambda>w m. w AND NOT m" "\<lambda>b m. b \<and> \<not> m"
  by unfold_locales (auto simp: bit_and_iff bit_not_iff)

text \<open>
  C36: on a map large enough for the range, \<open>bitmap_set\<close> stays inside the array and sets exactly
  the bits of the range: every other bit keeps its value.
\<close>

theorem bitmap_set_bits:
  assumes "start + l \<le> 64 * length bm" "start + l < 2 ^ 32"
  shows "\<exists>bm'. bitmap_set bm start (int l) = Some bm' \<and> length bm' = length bm
           \<and> (\<forall>i. map_bit bm' i = (map_bit bm i \<or> start \<le> i \<and> i < start + l))"
  unfolding bitmap_set_def by (rule set_bits.bitmap_range_bits [OF assms])

theorem bitmap_set_bits_witness:
  "\<exists>bm'. bitmap_set (bitmap_alloc 130) 60 70 = Some bm'
     \<and> map_bit bm' 60 \<and> map_bit bm' 129 \<and> \<not> map_bit bm' 59 \<and> \<not> map_bit bm' 130"
proof -
  have len: "length (bitmap_alloc 130) = 3" by code_simp
  have "\<not> map_bit (bitmap_alloc 130) 59" "\<not> map_bit (bitmap_alloc 130) 130" by code_simp+
  with bitmap_set_bits [of 60 70 "bitmap_alloc 130"] len show ?thesis by auto
qed

text \<open>
  \<open>bitmap_clear\<close> clears exactly the bits of the range.
\<close>

lemma bitmap_clear_bits:
  assumes "start + l \<le> 64 * length bm" "start + l < 2 ^ 32"
  shows "\<exists>bm'. bitmap_clear bm start (int l) = Some bm' \<and> length bm' = length bm
           \<and> (\<forall>i. map_bit bm' i = (map_bit bm i \<and> \<not> (start \<le> i \<and> i < start + l)))"
  unfolding bitmap_clear_def by (rule clear_bits.bitmap_range_bits [OF assms])



section \<open>Searching\<close>

lemma ffsl_Some:
  assumes "w \<noteq> 0"
  obtains i where "ffsl w = i + 1" "i < 64" "bit w i" "\<forall>j < i. \<not> bit w j"
proof -
  obtain k where "k < 64" "bit w k" using assms by (auto simp: bit_eq_iff)
  then have "List.find (bit w) [0..<64] \<noteq> None" by (auto simp: find_None_iff)
  then obtain i where f: "List.find (bit w) [0..<64] = Some i" by blast
  then have "i < 64" "bit w i" "\<forall>j < i. \<not> bit w j" by (auto simp: find_Some_iff)
  with f show ?thesis using that by (simp add: ffsl_def)
qed

text \<open>The position one past the first hit in \<open>[lo, n)\<close>, and \<open>n\<close> when there is none.\<close>

definition past_first :: "(nat \<Rightarrow> bool) \<Rightarrow> nat \<Rightarrow> nat \<Rightarrow> nat" where
  "past_first P lo n = (case List.find P [lo..<n] of None \<Rightarrow> n | Some i \<Rightarrow> i + 1)"

lemma past_first_none: "\<forall>j. lo \<le> j \<and> j < n \<longrightarrow> \<not> P j \<Longrightarrow> past_first P lo n = n"
  by (auto simp: past_first_def split: option.splits dest!: find_Some_iff [THEN iffD1])

lemma past_first_skip:
  assumes "lo \<le> k" "\<forall>j. lo \<le> j \<and> j < k \<longrightarrow> \<not> P j" "k \<le> n"
  shows "past_first P lo n = past_first P k n"
  using assms
proof (induction k rule: dec_induct)
  case (step k)
  have "[k..<n] = k # [Suc k..<n]" using step.prems by (simp add: upt_conv_Cons)
  moreover have "\<not> P k" using step by simp
  ultimately have "past_first P k n = past_first P (Suc k) n" by (simp add: past_first_def)
  with step show ?case by simp
qed simp

lemma past_first_hit:
  assumes "lo \<le> i" "\<forall>j. lo \<le> j \<and> j < i \<longrightarrow> \<not> P j" "P i"
  shows "past_first P lo n = min (i + 1) n"
proof (cases "i < n")
  case True
  then have "[i..<n] = i # [Suc i..<n]" by (rule upt_conv_Cons)
  with True assms show ?thesis using past_first_skip [OF assms(1,2), of n] by (simp add: past_first_def)
next
  case False
  with assms show ?thesis by (subst past_first_none) auto
qed

text \<open>The search loop at a word whose bits from \<open>lo\<close> on are \<open>tmp\<close>.\<close>

lemma find_next_loop_first:
  assumes "nbits \<le> 64 * length addr" "start < nbits" "start mod 64 = 0" "start \<le> lo" "lo < start + 64"
    and "\<forall>j < 64. bit tmp j = (lo \<le> start + j \<and> (map_bit addr (start + j) \<noteq> bit invert j))"
    and "\<forall>j < 64. bit invert j = v"
  shows "find_next_loop addr nbits start tmp invert = Some (past_first (\<lambda>i. map_bit addr i \<noteq> v) lo nbits)"
  using assms
proof (induction addr nbits start tmp invert arbitrary: lo rule: find_next_loop.induct)
  case (1 addr nbits start tmp invert)
  let ?P = "\<lambda>i. map_bit addr i \<noteq> v"
  have tmp: "bit tmp (i - start) = ?P i" if "lo \<le> i" "i < start + 64" for i
    using that "1.prems"(4,6,7) by (auto dest: spec [of _ "i - start"])
  show ?case
  proof (cases "tmp = 0")
    case True
    then have miss: "\<forall>j. lo \<le> j \<and> j < start + 64 \<longrightarrow> \<not> ?P j" using tmp by auto
    show ?thesis
    proof (cases "nbits \<le> start + 64")
      case past: True
      with miss have "past_first ?P lo nbits = nbits" by (intro past_first_none) auto
      with True past show ?thesis by (simp add: find_next_loop.simps [of addr nbits start] BITS_PER_LONG_def)
    next
      case False
      let ?w = "addr ! BIT_WORD (start + BITS_PER_LONG) XOR invert"
      have word: "BIT_WORD (start + BITS_PER_LONG) = (start + 64) div 64"
        by (simp add: BIT_WORD_def BITS_PER_LONG_def)
      have "BIT_WORD (start + BITS_PER_LONG) < length addr" using False "1.prems"(1) word by auto
      moreover have "(start + 64 + j) div 64 = (start + 64) div 64 \<and> (start + 64 + j) mod 64 = j" if "j < 64" for j
        using that "1.prems"(3) by (simp add: div_add1_eq mod_add_eq [of "start + 64" 64 j, symmetric])
      then have "\<forall>j < 64. bit ?w j = (start + 64 \<le> start + 64 + j \<and> (map_bit addr (start + 64 + j) \<noteq> bit invert j))"
        by (auto simp: map_bit_def bit_xor_iff word)
      ultimately have "find_next_loop addr nbits (start + 64) ?w invert = Some (past_first ?P (start + 64) nbits)"
        using "1.IH" [OF True _ _ "1.prems"(1), of "start + 64"] False "1.prems"(3,7)
        by (simp add: BITS_PER_LONG_def)
      moreover have "past_first ?P lo nbits = past_first ?P (start + 64) nbits"
        using miss False "1.prems"(5) by (intro past_first_skip) auto
      ultimately show ?thesis
        using True False \<open>BIT_WORD _ < _\<close> by (simp add: find_next_loop.simps [of addr nbits start] BITS_PER_LONG_def)
    qed
  next
    case False
    then obtain i where i: "ffsl tmp = i + 1" "i < 64" "bit tmp i" "\<forall>j < i. \<not> bit tmp j" by (rule ffsl_Some)
    then have "lo \<le> start + i" "?P (start + i)" using "1.prems"(6,7) by auto
    moreover have "\<not> ?P j" if "lo \<le> j" "j < start + i" for j
      using tmp [of j] that i(2,4) "1.prems"(4) by auto
    ultimately have "past_first ?P lo nbits = min (start + i + 1) nbits" by (intro past_first_hit) auto
    with False i(1) show ?thesis by (simp add: find_next_loop.simps [of addr nbits start])
  qed
qed

lemma find_next_bit_inv_first:
  assumes "nbits \<le> 64 * length addr" "\<forall>j < 64. bit invert j = v"
  shows "find_next_bit_inv addr nbits lo invert = Some (past_first (\<lambda>i. map_bit addr i \<noteq> v) lo nbits)"
proof (cases "nbits \<le> lo")
  case True
  then show ?thesis by (simp add: find_next_bit_inv_def past_first_def)
next
  case False
  let ?tmp = "(addr ! BIT_WORD lo XOR invert) AND BITMAP_FIRST_WORD_MASK lo"
  define q r where "q = lo div 64" and "r = lo mod 64"
  then have lo: "lo = 64 * q + r" "r < 64" by simp_all
  have word: "BIT_WORD lo = q" by (simp add: BIT_WORD_def BITS_PER_LONG_def q_def)
  have "bit (BITMAP_FIRST_WORD_MASK lo) j = (r \<le> j)" if "j < 64" for j
    using that by (auto simp: BITMAP_FIRST_WORD_MASK_def BITS_PER_LONG_def bit_push_bit_iff bit_not_iff bit_mask_iff r_def)
  then have "\<forall>j < 64. bit ?tmp j = (lo \<le> 64 * q + j \<and> (map_bit addr (64 * q + j) \<noteq> bit invert j))"
    unfolding word using lo by (simp add: map_bit_def bit_and_iff bit_xor_iff) blast
  moreover have "q < length addr" using lo False assms(1) by auto
  ultimately show ?thesis
    using False lo word assms find_next_loop_first [of nbits addr "64 * q" lo ?tmp invert v]
    by (simp add: find_next_bit_inv_def BITS_PER_LONG_def)
qed

lemma find_next_zero_bit_first:
  assumes "sz \<le> 64 * length addr"
  shows "find_next_zero_bit addr sz offset = Some (past_first (\<lambda>i. \<not> map_bit addr i) offset sz)"
  using find_next_bit_inv_first [OF assms, of "NOT 0" True offset]
  by (simp add: find_next_zero_bit_def bit_not_iff)

text \<open>
  C37: the searches for the next set and the next clear bit never leave the array, and answer the
  position \<^emph>\<open>one past\<close> the bit they find (\<open>__builtin_ffsl\<close> counts from one), or the size of
  the map when there is none.
\<close>

theorem find_next_bits:
  assumes "sz \<le> 64 * length addr"
  shows "find_next_bit addr sz offset = Some (past_first (map_bit addr) offset sz)
    \<and> find_next_zero_bit addr sz offset = Some (past_first (\<lambda>i. \<not> map_bit addr i) offset sz)"
  using find_next_bit_inv_first [OF assms, of 0 False offset] find_next_zero_bit_first [OF assms]
  by (simp add: find_next_bit_def)

theorem find_next_bits_witness:
  "find_next_bit [0, 8] 128 0 = Some 68 \<and> find_next_zero_bit [NOT 0, 8] 128 0 = Some 65"
proof -
  have "past_first (map_bit [0, 8]) 0 128 = 68" "past_first (\<lambda>i. \<not> map_bit [NOT 0, 8] i) 0 128 = 65"
    by code_simp+
  then show ?thesis using find_next_bits [of 128 "[0, 8]" 0] find_next_bits [of 128 "[NOT 0, 8]" 0] by simp
qed

text \<open>
  as a consequence \<open>bitmap_full\<close> does not look at the last bit: it answers true exactly when
  every bit but the last one is set.
\<close>

lemma bitmap_full_last_bit:
  assumes "0 < nbits" "nbits \<le> 64 * length src"
  shows "bitmap_full src nbits = Some (\<forall>i < nbits - 1. map_bit src i)"
proof -
  let ?r = "past_first (\<lambda>i. \<not> map_bit src i) 0 nbits"
  have "?r = nbits \<longleftrightarrow> (\<forall>i < nbits - 1. map_bit src i)"
  proof (cases "\<exists>i < nbits. \<not> map_bit src i")
    case True
    then obtain i where i: "i < nbits" "\<not> map_bit src i" by blast
    define k where "k = (LEAST i. \<not> map_bit src i)"
    have k: "\<not> map_bit src k" "\<forall>j < k. map_bit src j"
      unfolding k_def using LeastI [of "\<lambda>i. \<not> map_bit src i", OF i(2)] not_less_Least by blast+
    then have "?r = min (k + 1) nbits" by (intro past_first_hit) auto
    moreover have "k < nbits"
      unfolding k_def using Least_le [of "\<lambda>i. \<not> map_bit src i", OF i(2)] i(1) by simp
    ultimately have "?r = k + 1" by simp
    moreover have "(\<forall>i < nbits - 1. map_bit src i) \<longleftrightarrow> nbits - 1 \<le> k"
      using k by (meson leI order.strict_trans2)
    ultimately show ?thesis using \<open>k < nbits\<close> by auto
  next
    case False
    then show ?thesis using assms(1) by (subst past_first_none) auto
  qed
  then show ?thesis using find_next_zero_bit_first [OF assms(2)] by (simp add: bitmap_full_def)
qed

lemma bitmap_full_last_bit_example:
  "bitmap_full [NOT (push_bit 63 1)] 64 = Some True"
proof -
  have "\<forall>i < 64 - 1. map_bit [NOT (push_bit 63 1)] i" by code_simp
  then show ?thesis using bitmap_full_last_bit [of 64 "[NOT (push_bit 63 1)]"] by simp
qed

lemma test_bit_value:
  assumes "nr < 64 * length addr"
  shows "test_bit nr addr = Some (if map_bit addr nr then 1 else 0)"
  using assms by (auto simp: test_bit_def BIT_WORD_def BITS_PER_LONG_def map_bit_def and_one_eq bit_iff_odd
      bit_drop_bit_eq odd_iff_mod_2_eq_one one_and_eq simp flip: drop_bit_eq_div)

end
