(* ===== verification/Sysfs.thy ===== *)
theory Sysfs
  imports CString
begin

text \<open>
  The system calls the program makes, and \<open>src/util/sysfs.c\<close>, the reader, writer and directory
  walker of sysfs attributes that libaccfg is built on.

  The operating system is code outside the repository: it is the argument \<open>os\<close> of every
  definition, a record of functions on an abstract kernel state \<open>'k\<close>.  A query (open, read, access,
  lstat, realpath, scandir) answers from the kernel state; a write and a memory allocation may
  change it.  The program's own state carries the kernel state and \<open>errno\<close>, which a failing call
  sets and a successful one leaves alone, as the C library documents.  Files are named by their
  path: a directory descriptor is the path it was opened with, and a descriptor that is read or
  written once is the path of its file.
\<close>

datatype open_mode = O_RDONLY | O_WRONLY | O_RDWR | O_PATH

record 'k os =
  os_open :: "string \<Rightarrow> open_mode \<Rightarrow> 'k \<Rightarrow> int option"
  os_read :: "string \<Rightarrow> nat \<Rightarrow> 'k \<Rightarrow> int + string"
  os_write :: "string \<Rightarrow> string \<Rightarrow> 'k \<Rightarrow> (int + nat) \<times> 'k"
  os_access :: "string \<Rightarrow> 'k \<Rightarrow> int option"
  os_lstat :: "string \<Rightarrow> 'k \<Rightarrow> int option"
  os_realpath :: "string \<Rightarrow> 'k \<Rightarrow> int + string"
  os_scandir :: "string \<Rightarrow> 'k \<Rightarrow> int + string list"
  os_alloc :: "'k \<Rightarrow> bool \<times> 'k"
  os_getenv :: "string \<Rightarrow> 'k \<Rightarrow> string option"

record 'k sys =
  kern :: 'k
  errno :: int

text \<open>
  Documented behaviour of the system calls that some properties rely on: the error numbers are
  positive and fit an \<open>int\<close>; a resolved path is absolute.
\<close>

definition errno_value :: "int \<Rightarrow> bool" where
  "errno_value e \<longleftrightarrow> 0 < e \<and> e \<le> INT_MAX"

definition os_ok :: "'k os \<Rightarrow> bool" where
  "os_ok os \<longleftrightarrow>
     (\<forall>p f k e. os_open os p f k = Some e \<longrightarrow> errno_value e) \<and>
     (\<forall>p n k e. os_read os p n k = Inl e \<longrightarrow> errno_value e) \<and>
     (\<forall>p b k e. fst (os_write os p b k) = Inl e \<longrightarrow> errno_value e) \<and>
     (\<forall>p k e. os_access os p k = Some e \<longrightarrow> errno_value e) \<and>
     (\<forall>p k e. os_realpath os p k = Inl e \<longrightarrow> errno_value e) \<and>
     (\<forall>p k s. os_realpath os p k = Inr s \<longrightarrow> CHR ''/'' \<in> set s)"

text \<open>Writing an attribute neither makes nor removes a directory.\<close>

definition same_dirs :: "'k os \<Rightarrow> 'k \<Rightarrow> 'k \<Rightarrow> bool" where
  "same_dirs os k k' \<longleftrightarrow>
     (\<forall>q. os_open os q O_PATH k' = os_open os q O_PATH k \<and> os_realpath os q k' = os_realpath os q k
        \<and> os_scandir os q k' = os_scandir os q k)"

definition dirs_stable :: "'k os \<Rightarrow> bool" where
  "dirs_stable os \<longleftrightarrow>
     (\<forall>k p b. os_open os p O_RDWR k = None \<longrightarrow> same_dirs os k (snd (os_write os p b k)))"

text \<open>Memory never runs out, and taking some does not change what files read.\<close>

definition alloc_ok :: "'k os \<Rightarrow> bool" where
  "alloc_ok os \<longleftrightarrow> (\<forall>k. os_alloc os k = (True, k))"


section \<open>System calls\<close>

text \<open>Each call answers \<open>False\<close>, \<open>None\<close> or -1 on failure and sets \<open>errno\<close>.\<close>

definition sys_status :: "int option \<Rightarrow> ('k, 'z) sys_scheme \<Rightarrow> bool \<times> ('k, 'z) sys_scheme" where
  "sys_status r m = (case r of None \<Rightarrow> (True, m) | Some e \<Rightarrow> (False, m\<lparr>errno := e\<rparr>))"

definition sys_result :: "int + 'a \<Rightarrow> ('k, 'z) sys_scheme \<Rightarrow> 'a option \<times> ('k, 'z) sys_scheme" where
  "sys_result r m = (case r of Inl e \<Rightarrow> (None, m\<lparr>errno := e\<rparr>) | Inr x \<Rightarrow> (Some x, m))"

definition sys_open :: "'k os \<Rightarrow> string \<Rightarrow> open_mode \<Rightarrow> ('k, 'z) sys_scheme \<Rightarrow> bool \<times> ('k, 'z) sys_scheme" where
  "sys_open os path mode m = sys_status (os_open os path mode (kern m)) m"

definition sys_read :: "'k os \<Rightarrow> string \<Rightarrow> nat \<Rightarrow> ('k, 'z) sys_scheme \<Rightarrow> string option \<times> ('k, 'z) sys_scheme" where
  "sys_read os path n m =
     (case sys_result (os_read os path n (kern m)) m of (r, m) \<Rightarrow> (map_option (take n) r, m))"

text \<open>The count written is at most the length asked for.\<close>

definition sys_write :: "'k os \<Rightarrow> string \<Rightarrow> string \<Rightarrow> ('k, 'z) sys_scheme \<Rightarrow> int \<times> ('k, 'z) sys_scheme" where
  "sys_write os path buf m =
     (case os_write os path buf (kern m) of
        (Inl e, k) \<Rightarrow> (- 1, m\<lparr>kern := k, errno := e\<rparr>)
      | (Inr n, k) \<Rightarrow> (int (min n (length buf)), m\<lparr>kern := k\<rparr>))"

definition sys_access :: "'k os \<Rightarrow> string \<Rightarrow> ('k, 'z) sys_scheme \<Rightarrow> bool \<times> ('k, 'z) sys_scheme" where
  "sys_access os path m = sys_status (os_access os path (kern m)) m"

definition sys_lstat :: "'k os \<Rightarrow> string \<Rightarrow> ('k, 'z) sys_scheme \<Rightarrow> bool \<times> ('k, 'z) sys_scheme" where
  "sys_lstat os path m = sys_status (os_lstat os path (kern m)) m"

definition sys_realpath :: "'k os \<Rightarrow> string \<Rightarrow> ('k, 'z) sys_scheme \<Rightarrow> string option \<times> ('k, 'z) sys_scheme" where
  "sys_realpath os path m = sys_result (os_realpath os path (kern m)) m"

definition sys_scandir :: "'k os \<Rightarrow> string \<Rightarrow> ('k, 'z) sys_scheme \<Rightarrow> string list option \<times> ('k, 'z) sys_scheme" where
  "sys_scandir os path m = sys_result (os_scandir os path (kern m)) m"

text \<open>\<open>calloc\<close>, \<open>strdup\<close>, \<open>asprintf\<close>: whether the memory was obtained.\<close>

definition sys_alloc :: "'k os \<Rightarrow> ('k, 'z) sys_scheme \<Rightarrow> bool \<times> ('k, 'z) sys_scheme" where
  "sys_alloc os m =
     (case os_alloc os (kern m) of (ok, k) \<Rightarrow>
        if ok then (True, m\<lparr>kern := k\<rparr>) else (False, m\<lparr>kern := k, errno := ENOMEM\<rparr>))"


section \<open>Attributes\<close>

definition SYSFS_ATTR_SIZE :: nat where "SYSFS_ATTR_SIZE = 1024"

text \<open>
  \<open>__sysfs_read_attr\<close>: the return code and the string in the caller's buffer, \<open>None\<close> when the
  buffer was not written.
\<close>

definition sysfs_read_attr ::
  "'k os \<Rightarrow> string \<Rightarrow> ('k, 'z) sys_scheme \<Rightarrow> int \<times> string option \<times> ('k, 'z) sys_scheme" where
  "sysfs_read_attr os path m =
     (case sys_open os path O_RDONLY m of (fd, m) \<Rightarrow>
      if \<not> fd then (- errno m, None, m)
      else
        case sys_read os path SYSFS_ATTR_SIZE m of
          (None, m) \<Rightarrow> (- errno m, Some [], m)
        | (Some buf, m) \<Rightarrow>
            if length buf \<ge> SYSFS_ATTR_SIZE then (- errno m, Some [], m)
            else if buf \<noteq> [] \<and> last buf = NL then (0, Some (cstring (butlast buf)), m)
            else (0, Some (cstring buf), m))"

definition write_attr :: "'k os \<Rightarrow> string \<Rightarrow> string \<Rightarrow> ('k, 'z) sys_scheme \<Rightarrow> int \<times> ('k, 'z) sys_scheme" where
  "write_attr os path buf m =
     (case sys_open os path O_WRONLY m of (fd, m) \<Rightarrow>
      let len = int (length buf) in
      if \<not> fd then (- errno m, m)
      else
        case sys_write os path buf m of (n, m) \<Rightarrow>
        let rc = - errno m in
        if n < len then (rc, m) else (0, m))"

definition sysfs_write_attr :: "'k os \<Rightarrow> string \<Rightarrow> string \<Rightarrow> ('k, 'z) sys_scheme \<Rightarrow> int \<times> ('k, 'z) sys_scheme" where
  "sysfs_write_attr os path buf m = write_attr os path buf m"

definition sysfs_write_attr_quiet ::
  "'k os \<Rightarrow> string \<Rightarrow> string \<Rightarrow> ('k, 'z) sys_scheme \<Rightarrow> int \<times> ('k, 'z) sys_scheme" where
  "sysfs_write_attr_quiet os path buf m = write_attr os path buf m"


section \<open>Walking a device directory\<close>

text \<open>
  \<open>sscanf (name, "%*[a-z]%d", &id)\<close>: end of input before the number (a negative result), no match
  (\<open>id\<close> stays indeterminate), or the number.
\<close>

datatype scan_id = ScanEof | ScanNoMatch | ScanId int

definition scan_name :: "string \<Rightarrow> scan_id" where
  "scan_name name =
     (if name = [] then ScanEof
      else case scan_lower name of
        None \<Rightarrow> ScanNoMatch
      | Some (_, r) \<Rightarrow>
          if skip_ws r = [] then ScanEof
          else (case scan_d r of None \<Rightarrow> ScanNoMatch | Some (v, _) \<Rightarrow> ScanId v))"

definition scan_id_value :: "scan_id \<Rightarrow> int option" where
  "scan_id_value s = (case s of ScanId v \<Rightarrow> Some v | _ \<Rightarrow> None)"

text \<open>
  \<open>add_dev_fn\<close>: parent, id (\<open>None\<close>: indeterminate), path, prefix and bus type; answers the new
  object or the null pointer.
\<close>

type_synonym ptr = nat
type_synonym 'm add_dev_fn = "ptr \<Rightarrow> int option \<Rightarrow> string \<Rightarrow> string \<Rightarrow> string \<Rightarrow> 'm \<Rightarrow> (ptr \<times> 'm) option"

fun device_parse_loop ::
  "'k os \<Rightarrow> string \<Rightarrow> string \<Rightarrow> string \<Rightarrow> ptr \<Rightarrow> ('k, 'z) sys_scheme add_dev_fn \<Rightarrow> string list \<Rightarrow> int
     \<Rightarrow> ('k, 'z) sys_scheme \<Rightarrow> (int \<times> ('k, 'z) sys_scheme) option" where
  "device_parse_loop os base_path dev_prefix bus_type parent add_dev [] add_errors m = Some (add_errors, m)"
| "device_parse_loop os base_path dev_prefix bus_type parent add_dev (d_name # d) add_errors m =
     (if scan_name d_name = ScanEof then Some (- EINVAL, m)
      else if CHR ''!'' \<in> set d_name
      then device_parse_loop os base_path dev_prefix bus_type parent add_dev d add_errors m
      else case sys_alloc os m of (ok, m) \<Rightarrow>
        if \<not> ok then device_parse_loop os base_path dev_prefix bus_type parent add_dev d add_errors m
        else do {
          (dev, m) \<leftarrow> add_dev parent (scan_id_value (scan_name d_name)) (base_path @ ''/'' @ d_name)
                       dev_prefix bus_type m;
          device_parse_loop os base_path dev_prefix bus_type parent add_dev d
            (if dev = 0 then add_errors + 1 else add_errors) m
        })"

definition sysfs_device_parse ::
  "'k os \<Rightarrow> string \<Rightarrow> string \<Rightarrow> string \<Rightarrow> (string \<Rightarrow> bool) \<Rightarrow> ptr \<Rightarrow> ('k, 'z) sys_scheme add_dev_fn
     \<Rightarrow> ('k, 'z) sys_scheme \<Rightarrow> (int \<times> ('k, 'z) sys_scheme) option" where
  "sysfs_device_parse os base_path dev_prefix bus_type flt parent add_dev m =
     (case sys_scandir os base_path m of
        (None, m) \<Rightarrow> Some (- ENODEV, m)
      | (Some d, m) \<Rightarrow>
          device_parse_loop os base_path dev_prefix bus_type parent add_dev (filter flt d) 0 m)"


section \<open>A file system that can be evaluated\<close>

text \<open>
  An instance of the operating system on which the properties are evaluated: a list of files with
  their contents, a list of directories with their entries, and the errors some paths answer to a
  write.  A write replaces the contents of the file.
\<close>

record fs =
  fs_files :: "(string \<times> string) list"
  fs_dirs :: "(string \<times> string list) list"
  fs_write_errors :: "(string \<times> int) list"

definition fs_os :: "fs os" where
  "fs_os = \<lparr>
     os_open = (\<lambda>p f k. if map_of (fs_files k) p = None \<and> map_of (fs_dirs k) p = None then Some ENOENT else None),
     os_read = (\<lambda>p n k. case map_of (fs_files k) p of None \<Rightarrow> Inl EIO | Some s \<Rightarrow> Inr (take n s)),
     os_write = (\<lambda>p b k. case map_of (fs_write_errors k) p of
         None \<Rightarrow> (Inr (length b), k\<lparr>fs_files := (p, b) # fs_files k\<rparr>)
       | Some e \<Rightarrow> (Inl (if 0 < e \<and> e \<le> INT_MAX then e else EIO), k)),
     os_access = (\<lambda>p k. if map_of (fs_files k) p = None \<and> map_of (fs_dirs k) p = None then Some ENOENT else None),
     os_lstat = (\<lambda>p k. if map_of (fs_files k) p = None \<and> map_of (fs_dirs k) p = None then Some ENOENT else None),
     os_realpath = (\<lambda>p k. if CHR ''/'' \<notin> set p \<or> map_of (fs_files k) p = None \<and> map_of (fs_dirs k) p = None
                           then Inl ENOENT else Inr p),
     os_scandir = (\<lambda>p k. case map_of (fs_dirs k) p of None \<Rightarrow> Inl ENOENT | Some ns \<Rightarrow> Inr ns),
     os_alloc = (\<lambda>k. (True, k)),
     os_getenv = (\<lambda>n k. None)\<rparr>"

lemma fs_os_sel [simp]:
  "os_open fs_os p f k
     = (if map_of (fs_files k) p = None \<and> map_of (fs_dirs k) p = None then Some ENOENT else None)"
  "os_read fs_os p n k = (case map_of (fs_files k) p of None \<Rightarrow> Inl EIO | Some s \<Rightarrow> Inr (take n s))"
  "os_write fs_os p b k = (case map_of (fs_write_errors k) p of
         None \<Rightarrow> (Inr (length b), k\<lparr>fs_files := (p, b) # fs_files k\<rparr>)
       | Some e \<Rightarrow> (Inl (if 0 < e \<and> e \<le> INT_MAX then e else EIO), k))"
  "os_access fs_os p k
     = (if map_of (fs_files k) p = None \<and> map_of (fs_dirs k) p = None then Some ENOENT else None)"
  "os_lstat fs_os p k
     = (if map_of (fs_files k) p = None \<and> map_of (fs_dirs k) p = None then Some ENOENT else None)"
  "os_realpath fs_os p k
     = (if CHR ''/'' \<notin> set p \<or> map_of (fs_files k) p = None \<and> map_of (fs_dirs k) p = None
        then Inl ENOENT else Inr p)"
  "os_scandir fs_os p k = (case map_of (fs_dirs k) p of None \<Rightarrow> Inl ENOENT | Some ns \<Rightarrow> Inr ns)"
  "os_alloc fs_os k = (True, k)"
  "os_getenv fs_os v k = None"
  by (simp_all add: fs_os_def)

lemma fs_os_ok: "os_ok fs_os" "alloc_ok fs_os"
  by (auto simp: os_ok_def alloc_ok_def errno_value_def errno_defs INT_MAX_def split: if_splits option.splits)

lemma fs_os_dirs_stable: "dirs_stable fs_os"
  by (auto simp: dirs_stable_def same_dirs_def split: option.splits if_splits)


section \<open>What the attribute functions do\<close>

lemmas sys_call_defs = sys_status_def sys_result_def sys_open_def sys_read_def sys_write_def sys_access_def
  sys_lstat_def sys_realpath_def sys_scandir_def sys_alloc_def

lemma sys_alloc_ok: "alloc_ok os \<Longrightarrow> sys_alloc os m = (True, m)"
  by (simp add: sys_alloc_def alloc_ok_def)

lemma os_ok_open: "os_ok os \<Longrightarrow> os_open os p f k = Some e \<Longrightarrow> 0 < e"
  unfolding os_ok_def errno_value_def by metis

lemma os_ok_write: "os_ok os \<Longrightarrow> os_write os p b k = (Inl e, k') \<Longrightarrow> 0 < e"
  unfolding os_ok_def errno_value_def by (metis fst_conv)

lemma os_ok_read: "os_ok os \<Longrightarrow> os_read os p n k = Inl e \<Longrightarrow> 0 < e"
  unfolding os_ok_def errno_value_def by metis

lemma os_ok_realpath: "os_ok os \<Longrightarrow> os_realpath os p k = Inl e \<Longrightarrow> 0 < e"
    "os_ok os \<Longrightarrow> os_realpath os p k = Inr s \<Longrightarrow> CHR ''/'' \<in> set s"
  unfolding os_ok_def errno_value_def by metis+

text \<open>A complete write, a failing open or write, and a short write.\<close>

lemma write_attr_cases:
  obtains (open_fails) e where "os_open os path O_WRONLY (kern m) = Some e"
      "write_attr os path buf m = (- e, m\<lparr>errno := e\<rparr>)"
  | (write_fails) e k where "os_open os path O_WRONLY (kern m) = None" "os_write os path buf (kern m) = (Inl e, k)"
      "write_attr os path buf m = (- e, m\<lparr>kern := k, errno := e\<rparr>)"
  | (short) n k where "os_open os path O_WRONLY (kern m) = None" "os_write os path buf (kern m) = (Inr n, k)"
      "n < length buf" "write_attr os path buf m = (- errno m, m\<lparr>kern := k\<rparr>)"
  | (complete) n k where "os_open os path O_WRONLY (kern m) = None" "os_write os path buf (kern m) = (Inr n, k)"
      "length buf \<le> n" "write_attr os path buf m = (0, m\<lparr>kern := k\<rparr>)"
proof (cases "os_open os path O_WRONLY (kern m)")
  case (Some e)
  then show ?thesis by (intro open_fails) (simp_all add: write_attr_def sys_call_defs)
next
  case None
  obtain r k where w: "os_write os path buf (kern m) = (r, k)" by fastforce
  show ?thesis
  proof (cases r)
    case (Inl e)
    with None w show ?thesis by (intro write_fails) (simp_all add: write_attr_def sys_call_defs Let_def)
  next
    case (Inr n)
    show ?thesis
    proof (cases "n < length buf")
      case True
      with None w Inr show ?thesis by (intro short) (simp_all add: write_attr_def sys_call_defs Let_def)
    next
      case False
      with None w Inr show ?thesis by (intro complete) (simp_all add: write_attr_def sys_call_defs Let_def not_less)
    qed
  qed
qed

text \<open>
  reading an attribute gives its text without the trailing newline, for every text without NUL
  that fits the buffer, and changes nothing.
\<close>

lemma sysfs_read_attr_line:
  assumes "os_open os path O_RDONLY (kern m) = None" "os_read os path SYSFS_ATTR_SIZE (kern m) = Inr (s @ [NL])"
    and "length s + 1 < SYSFS_ATTR_SIZE" "NUL \<notin> set s"
  shows "sysfs_read_attr os path m = (0, Some s, m)"
proof -
  have "cstring s = s" using assms(4) by (auto simp: cstring_def takeWhile_eq_all_conv)
  with assms(1-3) show ?thesis by (simp add: sysfs_read_attr_def sys_call_defs)
qed

lemma sysfs_read_attr_line_example:
  "sysfs_read_attr fs_os ''/s'' \<lparr>kern = \<lparr>fs_files = [(''/s'', ''enabled'' @ [NL])], fs_dirs = [], fs_write_errors = []\<rparr>,
     errno = 0\<rparr> = (0, Some ''enabled'', \<lparr>kern = \<lparr>fs_files = [(''/s'', ''enabled'' @ [NL])], fs_dirs = [], fs_write_errors = []\<rparr>,
     errno = 0\<rparr>)"
  by (rule sysfs_read_attr_line) (simp_all add: SYSFS_ATTR_SIZE_def NL_def NUL_def)

text \<open>
  \<open>write_attr\<close> answers 0 only in two cases: the whole text was written, or fewer bytes were
  written without an error while \<open>errno\<close> happened to be 0 (the return code of a short write is
  the stale \<open>errno\<close>); a failed open or write answers a negative code.
\<close>

lemma write_attr_zero:
  assumes "os_ok os"
  shows "fst (write_attr os path buf m) = 0 \<longleftrightarrow>
           os_open os path O_WRONLY (kern m) = None \<and>
           (\<exists>n k. os_write os path buf (kern m) = (Inr n, k) \<and> (length buf \<le> n \<or> errno m = 0))"
  by (cases rule: write_attr_cases [of os path m buf])
    (auto dest: os_ok_open [OF assms] os_ok_write [OF assms])

lemma write_attr_zero_example:
  "fst (write_attr fs_os ''/s'' ''1'' \<lparr>kern = \<lparr>fs_files = [(''/s'', [])], fs_dirs = [], fs_write_errors = []\<rparr>, errno = 7\<rparr>) = 0"
  by (subst write_attr_zero) (simp_all add: fs_os_ok)

text \<open>
  An attribute of 1024 bytes or more is refused with the stale \<open>errno\<close>, which is 0 (success,
  with an empty text) when no earlier call failed.
\<close>

lemma sysfs_read_attr_too_long:
  assumes "os_open os path O_RDONLY (kern m) = None" "os_read os path SYSFS_ATTR_SIZE (kern m) = Inr s"
    and "SYSFS_ATTR_SIZE \<le> length s"
  shows "sysfs_read_attr os path m = (- errno m, Some [], m)"
  using assms by (simp add: sysfs_read_attr_def sys_call_defs)



section \<open>The contract of the add functions\<close>

text \<open>
  What the directory walk needs of an \<open>add_dev\<close> function: in every state of an invariant that system
  calls keep, and for every acceptable name, it returns, keeps the invariant, and adds exactly the
  directories it recognises to a list that is a view of the state.  Then the walk returns, keeps
  the invariant, adds the recognised entries in the order of the directory up to the first entry
  that is only letters, and counts the others.
\<close>

definition walked :: "string list \<Rightarrow> string list" where
  "walked names = filter (\<lambda>n. CHR ''!'' \<notin> set n) (takeWhile (\<lambda>n. scan_name n \<noteq> ScanEof) names)"

locale add_dev_contract =
  fixes os :: "'k os"
    and add_dev :: "('k, 'z) sys_scheme add_dev_fn"
    and parent :: ptr and base_path dev_prefix bus_type :: string
    and name_ok found :: "string \<Rightarrow> bool"
    and label :: "string \<Rightarrow> string"
    and inv :: "('k, 'z) sys_scheme \<Rightarrow> bool"
    and view :: "('k, 'z) sys_scheme \<Rightarrow> string list"
  assumes add_dev_step: "\<lbrakk>inv m; name_ok name; scan_name name \<noteq> ScanEof\<rbrakk> \<Longrightarrow>
      \<exists>p m'. add_dev parent (scan_id_value (scan_name name)) (base_path @ ''/'' @ name) dev_prefix bus_type m
         = Some (p, m') \<and> inv m' \<and> (p \<noteq> 0 \<longleftrightarrow> found name)
         \<and> view m' = view m @ (if found name then [label name] else [])"
    and alloc_step: "inv m \<Longrightarrow> sys_alloc os m = (True, m)"
    and errno_step: "inv m \<Longrightarrow> inv (m\<lparr>errno := e\<rparr>) \<and> view (m\<lparr>errno := e\<rparr>) = view m"
begin

lemma parse_loop_adds:
  "inv m \<Longrightarrow> \<forall>name \<in> set names. name_ok name \<Longrightarrow>
     \<exists>rc m'. device_parse_loop os base_path dev_prefix bus_type parent add_dev names n m = Some (rc, m') \<and> inv m'
       \<and> view m' = view m @ map label (filter found (walked names))
       \<and> rc = (if ScanEof \<in> scan_name ` set names then - EINVAL
               else n + int (length (filter (\<lambda>x. \<not> found x) (walked names))))"
proof (induction names arbitrary: n m)
  case (Cons name names)
  show ?case
  proof (cases "scan_name name = ScanEof")
    case False
    from add_dev_step [OF Cons.prems(1) _ False] Cons.prems(2) obtain p m2 where add:
      "add_dev parent (scan_id_value (scan_name name)) (base_path @ ''/'' @ name) dev_prefix bus_type m = Some (p, m2)"
      "inv m2" "p \<noteq> 0 \<longleftrightarrow> found name"
      "view m2 = view m @ (if found name then [label name] else [])" by auto
    show ?thesis
    proof (cases "CHR ''!'' \<in> set name")
      case True
      then show ?thesis using Cons.IH [OF Cons.prems(1), of n] Cons.prems(2) False by (auto simp: walked_def)
    next
      case plain: False
      obtain rc m3 where "device_parse_loop os base_path dev_prefix bus_type parent add_dev names
          (if p = 0 then n + 1 else n) m2 = Some (rc, m3)" "inv m3"
        "view m3 = view m2 @ map label (filter found (walked names))"
        "rc = (if ScanEof \<in> scan_name ` set names then - EINVAL
               else (if p = 0 then n + 1 else n) + int (length (filter (\<lambda>x. \<not> found x) (walked names))))"
        using Cons.IH [OF add(2), of "if p = 0 then n + 1 else n"] Cons.prems(2) by auto
      with add plain False show ?thesis
        using alloc_step [OF Cons.prems(1)] by (cases "p = 0") (auto simp: walked_def)
    qed
  qed (use Cons.prems in \<open>auto simp: walked_def\<close>)
qed (auto simp: walked_def)

lemma device_parse_adds:
  assumes "inv m" "os_scandir os base_path (kern m) = Inr names" "\<forall>name \<in> set names. flt name \<longrightarrow> name_ok name"
  shows "\<exists>rc m'. sysfs_device_parse os base_path dev_prefix bus_type flt parent add_dev m = Some (rc, m') \<and> inv m'
       \<and> view m' = view m @ map label (filter found (walked (filter flt names)))"
  using assms parse_loop_adds [of m "filter flt names" 0] by (fastforce simp: sysfs_device_parse_def sys_call_defs)

lemma device_parse_keeps:
  assumes "inv m" "\<And>names. os_scandir os base_path (kern m) = Inr names \<Longrightarrow> \<forall>name \<in> set names. flt name \<longrightarrow> name_ok name"
  shows "\<exists>rc m'. sysfs_device_parse os base_path dev_prefix bus_type flt parent add_dev m = Some (rc, m') \<and> inv m'"
proof (cases "os_scandir os base_path (kern m)")
  case (Inl e)
  with errno_step [OF assms(1)] show ?thesis by (simp add: sysfs_device_parse_def sys_call_defs)
next
  case (Inr names)
  with assms device_parse_adds [of m names flt] show ?thesis by blast
qed

end

end
