(* ===== verification/Accfg_State.thy ===== *)
theory Accfg_State
  imports Sysfs
begin

text \<open>
  The data of libaccfg (\<open>src/accfg/lib/private.h\<close>, \<open>src/accfg/libaccel_config.h\<close>), the tables of
  \<open>src/accfg/lib/libaccfg.c\<close>, and the state the library runs on: the kernel and \<open>errno\<close>, the two
  static variables of the library, and one heap for each kind of object.  A pointer is a natural
  number, 0 is the null pointer, and reading a pointer that is null or was freed is undefined
  behaviour (\<open>None\<close>).  A \<open>list_head\<close> is the list of the pointers linked into it, in order.

  The \<open>device_buf\<close>, \<open>group_buf\<close>, \<open>wq_buf\<close> and \<open>engine_buf\<close> members are scratch memory for the
  path of the attribute at hand: what matters of them is their size, \<open>buf_len\<close>.  Members that no
  function reads or writes (\<open>opcap\<close>, \<open>errors\<close>, the \<open>wq\<close> and \<open>engine\<close> members of a device, the
  lists and \<open>numa_node\<close> of a group) are left out.  Messages are not modelled: \<open>do_log\<close> saves and
  restores \<open>errno\<close>.
\<close>

section \<open>Enumerations and limits\<close>

definition MAX_BUF_LEN :: nat where "MAX_BUF_LEN = 128"
definition MAX_PARAM_LEN :: nat where "MAX_PARAM_LEN = 4096"
definition TRAFFIC_CLASS_LIMIT :: int where "TRAFFIC_CLASS_LIMIT = 8"
definition WQ_PRIORITY_LIMIT :: int where "WQ_PRIORITY_LIMIT = 15"
definition PATH_MAX :: nat where "PATH_MAX = 4096"

datatype accfg_device_type = ACCFG_DEVICE_DSA | ACCFG_DEVICE_IAX | ACCFG_DEVICE_MAX | ACCFG_DEVICE_TYPE_UNKNOWN

datatype accfg_device_state = ACCFG_DEVICE_DISABLED | ACCFG_DEVICE_ENABLED | ACCFG_DEVICE_UNKNOWN

datatype accfg_wq_state =
  ACCFG_WQ_DISABLED | ACCFG_WQ_ENABLED | ACCFG_WQ_QUIESCING | ACCFG_WQ_LOCKED | ACCFG_WQ_UNKNOWN

datatype accfg_wq_type = ACCFG_WQT_NONE | ACCFG_WQT_KERNEL | ACCFG_WQT_USER

datatype accfg_control_flag = ACCFG_DEVICE_DISABLE | ACCFG_DEVICE_ENABLE | ACCFG_WQ_ENABLE | ACCFG_WQ_DISABLE

text \<open>\<open>enum accfg_wq_mode\<close> is kept as its integer value: \<open>accfg_wq_get_mode\<close> returns \<open>-errno\<close> in it.\<close>

definition ACCFG_WQ_SHARED :: int where "ACCFG_WQ_SHARED = 0"
definition ACCFG_WQ_DEDICATED :: int where "ACCFG_WQ_DEDICATED = 1"
definition ACCFG_WQ_MODE_UNKNOWN :: int where "ACCFG_WQ_MODE_UNKNOWN = 2"


section \<open>Objects\<close>

record accfg_error_ctx =
  ec_cmd_status :: int
  ec_device :: ptr
  ec_group :: ptr
  ec_wq :: ptr
  ec_engine :: ptr

record accfg_ctx =
  c_log_fn :: nat
  c_log_priority :: int
  c_refcount :: int
  c_devices_init :: int
  c_devices :: "ptr list"
  c_timeout :: int
  c_compat :: bool
  c_error_ctx :: "accfg_error_ctx option"

record accfg_device =
  dev_ctx :: ptr
  dev_id :: int
  dev_group :: ptr
  dev_groups :: "ptr list"
  dev_wqs :: "ptr list"
  dev_engines :: "ptr list"
  dev_group_init :: int
  dev_path :: string
  dev_bus_type_str :: string
  dev_type_str :: string
  dev_type :: accfg_device_type
  dev_buf_len :: nat
  dev_max_groups :: int
  dev_max_work_queues :: int
  dev_max_engines :: int
  dev_max_work_queues_size :: int
  dev_numa_node :: int
  dev_ims_size :: int
  dev_max_batch_size :: int
  dev_compl_size :: int
  dev_configurable :: int
  dev_max_read_buffers :: int
  dev_read_buffer_limit :: int
  dev_event_log_size :: int
  dev_cdev_major :: int
  dev_version :: int
  dev_max_transfer_size :: int
  dev_gencap :: int
  dev_pasid_enabled :: int

record accfg_group =
  grp_device :: ptr
  grp_id :: int
  grp_buf_len :: nat
  grp_size :: int
  grp_path :: string
  grp_engines :: "string option"
  grp_wqs :: "string option"
  grp_wqs_init :: int
  grp_engines_init :: int
  grp_read_buffers_reserved :: int
  grp_read_buffers_allowed :: int
  grp_use_read_buffer_limit :: int
  grp_traffic_class_a :: int
  grp_traffic_class_b :: int
  grp_desc_progress_limit :: int
  grp_batch_progress_limit :: int

record accfg_engine =
  eng_device :: ptr
  eng_group :: ptr
  eng_path :: string
  eng_id :: int
  eng_buf_len :: nat
  eng_group_id :: int

record accfg_wq =
  wq_device :: ptr
  wq_group :: ptr
  wq_path :: string
  wq_id :: int
  wq_buf_len :: nat
  wq_group_id :: int
  wq_size :: int
  wq_priv :: int
  wq_priority :: int
  wq_block_on_fault :: int
  wq_cdev_minor :: int
  wq_threshold :: int
  wq_mode :: "string option"
  wq_name :: "string option"
  wq_driver_name :: "string option"
  wq_type :: accfg_wq_type
  wq_state :: "string option"
  wq_max_batch_size :: int
  wq_max_transfer_size :: int
  wq_ats_disable :: int
  wq_prs_disable :: int

record 'k mach = "'k sys" +
  init_cmd_status :: int
  filename_prefix :: string
  next_ptr :: ptr
  ctxs :: "ptr \<rightharpoonup> accfg_ctx"
  devices :: "ptr \<rightharpoonup> accfg_device"
  groups :: "ptr \<rightharpoonup> accfg_group"
  wqs :: "ptr \<rightharpoonup> accfg_wq"
  engines :: "ptr \<rightharpoonup> accfg_engine"

text \<open>The result of an operation: undefined behaviour, or a value and the new state.\<close>

type_synonym ('k, 'a) run = "('a \<times> 'k mach) option"

text \<open>Assignments through a pointer.\<close>

definition upd_ctx :: "ptr \<Rightarrow> (accfg_ctx \<Rightarrow> accfg_ctx) \<Rightarrow> 'k mach \<Rightarrow> 'k mach option" where
  "upd_ctx p f m = do { x \<leftarrow> ctxs m p; Some (m\<lparr>ctxs := (ctxs m)(p \<mapsto> f x)\<rparr>) }"

definition upd_device :: "ptr \<Rightarrow> (accfg_device \<Rightarrow> accfg_device) \<Rightarrow> 'k mach \<Rightarrow> 'k mach option" where
  "upd_device p f m = do { x \<leftarrow> devices m p; Some (m\<lparr>devices := (devices m)(p \<mapsto> f x)\<rparr>) }"

definition upd_group :: "ptr \<Rightarrow> (accfg_group \<Rightarrow> accfg_group) \<Rightarrow> 'k mach \<Rightarrow> 'k mach option" where
  "upd_group p f m = do { x \<leftarrow> groups m p; Some (m\<lparr>groups := (groups m)(p \<mapsto> f x)\<rparr>) }"

definition upd_wq :: "ptr \<Rightarrow> (accfg_wq \<Rightarrow> accfg_wq) \<Rightarrow> 'k mach \<Rightarrow> 'k mach option" where
  "upd_wq p f m = do { x \<leftarrow> wqs m p; Some (m\<lparr>wqs := (wqs m)(p \<mapsto> f x)\<rparr>) }"

definition upd_engine :: "ptr \<Rightarrow> (accfg_engine \<Rightarrow> accfg_engine) \<Rightarrow> 'k mach \<Rightarrow> 'k mach option" where
  "upd_engine p f m = do { x \<leftarrow> engines m p; Some (m\<lparr>engines := (engines m)(p \<mapsto> f x)\<rparr>) }"

text \<open>
  \<open>sprintf (buf, "%s/%s", dir, name)\<close> into \<open>len\<close> bytes: writing past the end is undefined
  behaviour.  A null \<open>name\<close> prints as \<open>(null)\<close>, as glibc does.
\<close>

definition sprintf_path :: "nat \<Rightarrow> string \<Rightarrow> string option \<Rightarrow> string option" where
  "sprintf_path len dir name =
     (let s = dir @ ''/'' @ (case name of None \<Rightarrow> ''(null)'' | Some n \<Rightarrow> n) in
      if length s + 1 \<le> len then Some s else None)"

text \<open>\<open>snprintf\<close>: \<open>None\<close> when the text does not fit, which every caller treats as an error.\<close>

definition snprintf_path :: "nat \<Rightarrow> string \<Rightarrow> string \<Rightarrow> string option" where
  "snprintf_path len dir name =
     (let s = dir @ ''/'' @ name in if length s \<ge> len then None else Some s)"


section \<open>ccan lists of pointers\<close>

definition list_top :: "ptr list \<Rightarrow> ptr" where
  "list_top xs = (case xs of [] \<Rightarrow> 0 | x # _ \<Rightarrow> x)"

text \<open>The element after \<open>i\<close>, 0 after the last; \<open>i\<close> must be in the list.\<close>

fun list_next :: "ptr list \<Rightarrow> ptr \<Rightarrow> ptr option" where
  "list_next [] i = None"
| "list_next (x # xs) i = (if x = i then Some (list_top xs) else list_next xs i)"

text \<open>The assertion of \<open>list_del_from\<close>: the list is not empty; unlinking a node that is not in it is
  undefined.\<close>

definition list_del_from :: "ptr list \<Rightarrow> ptr \<Rightarrow> ptr list option" where
  "list_del_from xs i = (if i \<in> set xs then Some (remove1 i xs) else None)"


section \<open>Tables\<close>

definition accfg_wq_device_portals :: "accfg_wq_type \<Rightarrow> string option" where
  "accfg_wq_device_portals t = (case t of
       ACCFG_WQT_NONE \<Rightarrow> None | ACCFG_WQT_KERNEL \<Rightarrow> Some ''dmaengine'' | ACCFG_WQT_USER \<Rightarrow> Some ''user'')"

definition accfg_bus_types :: "string list" where
  "accfg_bus_types = [''dsa'', ''iax'']"

definition accfg_wq_mode_str :: "string list" where
  "accfg_wq_mode_str = [''shared'', ''dedicated'']"

definition accfg_basenames :: "(accfg_device_type \<times> string) list" where
  "accfg_basenames = [(ACCFG_DEVICE_DSA, ''dsa''), (ACCFG_DEVICE_IAX, ''iax'')]"

definition accfg_device_compl_size :: "accfg_device_type \<Rightarrow> int" where
  "accfg_device_compl_size t = (case t of ACCFG_DEVICE_DSA \<Rightarrow> 32 | ACCFG_DEVICE_IAX \<Rightarrow> 64 | _ \<Rightarrow> 0)"

definition attr_dict :: "(string \<times> string) list" where
  "attr_dict =
    [(''read_buffers_allowed'', ''tokens_allowed''),
     (''read_buffers_reserved'', ''tokens_reserved''),
     (''use_read_buffer_limit'', ''use_token_limit''),
     (''max_read_buffers'', ''max_tokens''),
     (''read_buffer_limit'', ''token_limit'')]"

definition deprecated_attr :: "string \<Rightarrow> string option" where
  "deprecated_attr attr = map_of attr_dict attr"

end
