(* ===== verification/Accfg_Heap.thy ===== *)
theory Accfg_Heap
  imports Accfg_State
begin

text \<open>
  The well-formedness of libaccfg's object graph.  A context lists its devices, a device lists its
  groups, work queues and engines, and each of these points back to its owner: \<open>linked\<close> is that
  relation between a heap of owners and a heap of parts.  The part of the state it depends on is the
  \<open>shape\<close>; an operation that keeps the shape keeps well-formedness.
\<close>

section \<open>Owners and parts\<close>

definition linked :: "('p \<Rightarrow> ptr list) \<Rightarrow> ('c \<Rightarrow> ptr) \<Rightarrow> (ptr \<rightharpoonup> 'p) \<Rightarrow> (ptr \<rightharpoonup> 'c) \<Rightarrow> bool" where
  "linked parts owner P C \<longleftrightarrow>
     (\<forall>p x. P p = Some x \<longrightarrow> distinct (parts x) \<and> (\<forall>c \<in> set (parts x). \<exists>y. C c = Some y \<and> owner y = p)) \<and>
     (\<forall>c y. C c = Some y \<longrightarrow> (\<exists>x. P (owner y) = Some x \<and> c \<in> set (parts x)))"

lemma linked_part: "linked parts owner P C \<Longrightarrow> P p = Some x \<Longrightarrow> c \<in> set (parts x) \<Longrightarrow>
   \<exists>y. C c = Some y \<and> owner y = p"
  by (simp add: linked_def)

lemma linked_owner: "linked parts owner P C \<Longrightarrow> C c = Some y \<Longrightarrow>
   \<exists>x. P (owner y) = Some x \<and> c \<in> set (parts x)"
  by (simp add: linked_def)

lemma linked_distinct: "linked parts owner P C \<Longrightarrow> P p = Some x \<Longrightarrow> distinct (parts x)"
  by (simp add: linked_def)

text \<open>A new part at the end of its owner's list.\<close>

lemma linked_add:
  assumes "linked parts owner P C" "P p = Some x" "C c = None"
    and "parts x' = parts x @ [c]" "owner y = p"
  shows "linked parts owner (P(p \<mapsto> x')) (C(c \<mapsto> y))"
proof -
  have "c \<notin> set (parts z)" if "P q = Some z" for q z
    using assms(3) linked_part [OF assms(1) that] by (metis option.distinct(1))
  then show ?thesis using assms by (fastforce simp: linked_def)
qed

text \<open>A new owner without parts.\<close>

lemma linked_new_owner:
  assumes "linked parts owner P C" "P p = None" "parts x = []"
  shows "linked parts owner (P(p \<mapsto> x)) C"
proof -
  have "owner y \<noteq> p" if "C c = Some y" for c y
    using linked_owner [OF assms(1) that] assms(2) by auto
  with assms show ?thesis by (auto simp: linked_def)
qed

text \<open>A part is unlinked and freed.\<close>

lemma linked_remove:
  assumes "linked parts owner P C" "P p = Some x" "C c = Some y" "owner y = p"
    and "parts x' = remove1 c (parts x)"
  shows "linked parts owner (P(p \<mapsto> x')) (C(c := None))"
proof -
  have d: "distinct (parts x)" using assms(1,2) by (rule linked_distinct)
  have "c \<notin> set (parts z)" if "P q = Some z" "q \<noteq> p" for q z
    using assms(3,4) linked_part [OF assms(1) that(1)] that(2) by (metis option.inject)
  with d assms show ?thesis by (fastforce simp: linked_def set_remove1_eq)
qed

text \<open>An owner without parts is freed.\<close>

lemma linked_free_owner:
  assumes "linked parts owner P C" "P p = Some x" "parts x = []"
  shows "linked parts owner (P(p := None)) C"
proof -
  have "owner y \<noteq> p" if "C c = Some y" for c y
    using linked_owner [OF assms(1) that] assms(2,3) by auto
  with assms show ?thesis by (auto simp: linked_def)
qed

text \<open>Only the links matter.\<close>

lemma linked_cong:
  assumes "\<And>p. map_option parts (P p) = map_option parts (P' p)"
    and "\<And>c. map_option owner (C c) = map_option owner (C' c)"
  shows "linked parts owner P C \<longleftrightarrow> linked parts owner P' C'"
proof -
  have *: "linked parts owner Q' D'"
    if "\<And>p. map_option parts (Q p) = map_option parts (Q' p)"
      "\<And>c. map_option owner (D c) = map_option owner (D' c)" "linked parts owner Q D"
    for Q Q' :: "ptr \<rightharpoonup> 'a" and D D' :: "ptr \<rightharpoonup> 'b"
  proof -
    have fwd: "\<exists>x. Q p = Some x \<and> parts x = parts x'" if "Q' p = Some x'" for p x'
      using \<open>\<And>p. map_option parts (Q p) = _\<close> [of p] that by auto
    have bwd: "\<exists>x'. Q' p = Some x' \<and> parts x = parts x'" if "Q p = Some x" for p x
      using \<open>\<And>p. map_option parts (Q p) = _\<close> [of p] that by (cases "Q' p") auto
    have fwd_c: "\<exists>y. D c = Some y \<and> owner y = owner y'" if "D' c = Some y'" for c y'
      using \<open>\<And>c. map_option owner (D c) = _\<close> [of c] that by auto
    have bwd_c: "\<exists>y'. D' c = Some y' \<and> owner y = owner y'" if "D c = Some y" for c y
      using \<open>\<And>c. map_option owner (D c) = _\<close> [of c] that by (cases "D' c") auto
    show ?thesis
      unfolding linked_def
    proof (intro conjI allI impI ballI)
      fix p x' assume p: "Q' p = Some x'"
      with fwd obtain x where x: "Q p = Some x" "parts x = parts x'" by blast
      then show "distinct (parts x')" using linked_distinct [OF that(3) x(1)] by simp
      fix c assume "c \<in> set (parts x')"
      with x linked_part [OF that(3) x(1)] bwd_c show "\<exists>y. D' c = Some y \<and> owner y = p" by metis
    next
      fix c y' assume "D' c = Some y'"
      with fwd_c obtain y where y: "D c = Some y" "owner y = owner y'" by blast
      with linked_owner [OF that(3) y(1)] bwd show "\<exists>x. Q' (owner y') = Some x \<and> c \<in> set (parts x)" by metis
    qed
  qed
  show ?thesis using * [of P P' C C'] * [of P' P C' C] assms by metis
qed


section \<open>Well-formed states\<close>

text \<open>A path with room for an attribute name after it, as \<open>calloc (1, strlen (path) + MAX_BUF_LEN)\<close> gives.\<close>

definition path_ok :: "string \<Rightarrow> nat \<Rightarrow> bool" where
  "path_ok path len \<longleftrightarrow> CHR ''/'' \<in> set path \<and> len = length path + MAX_BUF_LEN"

text \<open>A group pointer kept in a device, work queue or engine: null or a live group of that device.\<close>

definition group_ref :: "'k mach \<Rightarrow> ptr \<Rightarrow> ptr \<Rightarrow> bool" where
  "group_ref m d g \<longleftrightarrow> g = 0 \<or> (\<exists>gr. groups m g = Some gr \<and> grp_device gr = d)"

definition wf_state :: "'k mach \<Rightarrow> bool" where
  "wf_state m \<longleftrightarrow>
     linked c_devices dev_ctx (ctxs m) (devices m) \<and>
     linked dev_groups grp_device (devices m) (groups m) \<and>
     linked dev_wqs wq_device (devices m) (wqs m) \<and>
     linked dev_engines eng_device (devices m) (engines m) \<and>
     (\<forall>d dv. devices m d = Some dv \<longrightarrow> path_ok (dev_path dv) (dev_buf_len dv) \<and> group_ref m d (dev_group dv)) \<and>
     (\<forall>g gr. groups m g = Some gr \<longrightarrow> path_ok (grp_path gr) (grp_buf_len gr)) \<and>
     (\<forall>w wq. wqs m w = Some wq \<longrightarrow> path_ok (wq_path wq) (wq_buf_len wq) \<and> group_ref m (wq_device wq) (wq_group wq)) \<and>
     (\<forall>e en. engines m e = Some en \<longrightarrow> path_ok (eng_path en) (eng_buf_len en) \<and> group_ref m (eng_device en) (eng_group en)) \<and>
     (\<forall>p. p = 0 \<or> next_ptr m \<le> p \<longrightarrow> ctxs m p = None \<and> devices m p = None \<and> groups m p = None
        \<and> wqs m p = None \<and> engines m p = None) \<and>
     0 < next_ptr m"

text \<open>What well-formedness depends on.\<close>

definition shape where
  "shape m =
     (next_ptr m,
      \<lambda>p. map_option c_devices (ctxs m p),
      \<lambda>p. map_option (\<lambda>d. (dev_ctx d, dev_group d, dev_groups d, dev_wqs d, dev_engines d, dev_path d, dev_buf_len d)) (devices m p),
      \<lambda>p. map_option (\<lambda>g. (grp_device g, grp_path g, grp_buf_len g)) (groups m p),
      \<lambda>p. map_option (\<lambda>w. (wq_device w, wq_group w, wq_path w, wq_buf_len w)) (wqs m p),
      \<lambda>p. map_option (\<lambda>e. (eng_device e, eng_group e, eng_path e, eng_buf_len e)) (engines m p))"

lemma map_option_part:
  "map_option f a = map_option f b \<Longrightarrow> (\<And>x. h x = g (f x)) \<Longrightarrow> map_option h a = map_option h b"
  by (cases a; cases b) auto

lemma map_option_Some_part:
  "map_option f a = map_option f b \<Longrightarrow> b = Some y \<Longrightarrow> \<exists>x. a = Some x \<and> f x = f y"
  by (cases a) auto

lemma map_option_None_part: "map_option f a = map_option f b \<Longrightarrow> a = None \<longleftrightarrow> b = None"
  by (cases a; cases b) auto

lemma shapeD:
  assumes "shape m = shape m'"
  shows "next_ptr m = next_ptr m'"
    "\<And>p. map_option c_devices (ctxs m p) = map_option c_devices (ctxs m' p)"
    "\<And>p. map_option (\<lambda>d. (dev_ctx d, dev_group d, dev_groups d, dev_wqs d, dev_engines d, dev_path d, dev_buf_len d)) (devices m p)
        = map_option (\<lambda>d. (dev_ctx d, dev_group d, dev_groups d, dev_wqs d, dev_engines d, dev_path d, dev_buf_len d)) (devices m' p)"
    "\<And>p. map_option (\<lambda>g. (grp_device g, grp_path g, grp_buf_len g)) (groups m p)
        = map_option (\<lambda>g. (grp_device g, grp_path g, grp_buf_len g)) (groups m' p)"
    "\<And>p. map_option (\<lambda>w. (wq_device w, wq_group w, wq_path w, wq_buf_len w)) (wqs m p)
        = map_option (\<lambda>w. (wq_device w, wq_group w, wq_path w, wq_buf_len w)) (wqs m' p)"
    "\<And>p. map_option (\<lambda>e. (eng_device e, eng_group e, eng_path e, eng_buf_len e)) (engines m p)
        = map_option (\<lambda>e. (eng_device e, eng_group e, eng_path e, eng_buf_len e)) (engines m' p)"
  using assms unfolding shape_def by (simp_all add: fun_eq_iff)

lemma group_ref_shape: "shape m = shape m' \<Longrightarrow> group_ref m d g \<longleftrightarrow> group_ref m' d g"
  using shapeD(4) [of m m' g]
  by (cases "groups m g"; cases "groups m' g") (auto simp: group_ref_def)

lemma wf_shape:
  assumes "shape m = shape m'" "wf_state m"
  shows "wf_state m'"
proof -
  note sh = shapeD [OF assms(1)]
  note link = wf_state_def [THEN iffD1, OF assms(2)]
  have "linked c_devices dev_ctx (ctxs m') (devices m')"
    using link linked_cong [of c_devices "ctxs m" "ctxs m'" dev_ctx "devices m" "devices m'", OF sh(2)]
      map_option_part [OF sh(3), where g = fst] by simp
  moreover have "linked dev_groups grp_device (devices m') (groups m')"
    using link linked_cong [of dev_groups "devices m" "devices m'" grp_device "groups m" "groups m'"]
      map_option_part [OF sh(3), where g = "\<lambda>(_, _, a, _). a"] map_option_part [OF sh(4), where g = fst] by simp
  moreover have "linked dev_wqs wq_device (devices m') (wqs m')"
    using link linked_cong [of dev_wqs "devices m" "devices m'" wq_device "wqs m" "wqs m'"]
      map_option_part [OF sh(3), where g = "\<lambda>(_, _, _, a, _). a"] map_option_part [OF sh(5), where g = fst] by simp
  moreover have "linked dev_engines eng_device (devices m') (engines m')"
    using link linked_cong [of dev_engines "devices m" "devices m'" eng_device "engines m" "engines m'"]
      map_option_part [OF sh(3), where g = "\<lambda>(_, _, _, _, a, _). a"] map_option_part [OF sh(6), where g = fst] by simp
  moreover have "\<forall>d dv. devices m' d = Some dv \<longrightarrow> path_ok (dev_path dv) (dev_buf_len dv) \<and> group_ref m' d (dev_group dv)"
    using link map_option_Some_part [OF sh(3)] group_ref_shape [OF assms(1)] by fastforce
  moreover have "\<forall>g gr. groups m' g = Some gr \<longrightarrow> path_ok (grp_path gr) (grp_buf_len gr)"
    using link map_option_Some_part [OF sh(4)] by fastforce
  moreover have "\<forall>w wq. wqs m' w = Some wq \<longrightarrow> path_ok (wq_path wq) (wq_buf_len wq) \<and> group_ref m' (wq_device wq) (wq_group wq)"
    using link map_option_Some_part [OF sh(5)] group_ref_shape [OF assms(1)] by fastforce
  moreover have "\<forall>e en. engines m' e = Some en \<longrightarrow> path_ok (eng_path en) (eng_buf_len en) \<and> group_ref m' (eng_device en) (eng_group en)"
    using link map_option_Some_part [OF sh(6)] group_ref_shape [OF assms(1)] by fastforce
  moreover have "\<forall>p. p = 0 \<or> next_ptr m' \<le> p \<longrightarrow> ctxs m' p = None \<and> devices m' p = None \<and> groups m' p = None
        \<and> wqs m' p = None \<and> engines m' p = None"
    using link map_option_None_part [OF sh(2)] map_option_None_part [OF sh(3)] map_option_None_part [OF sh(4)]
      map_option_None_part [OF sh(5)] map_option_None_part [OF sh(6)] sh(1) by simp
  ultimately show ?thesis using link sh(1) unfolding wf_state_def by simp
qed

section \<open>Frames\<close>

lemma shape_sys [simp]:
  "shape (m\<lparr>kern := k\<rparr>) = shape m" "shape (m\<lparr>errno := e\<rparr>) = shape m"
  "shape (m\<lparr>init_cmd_status := i\<rparr>) = shape m" "shape (m\<lparr>filename_prefix := s\<rparr>) = shape m"
  by (simp_all add: shape_def)

lemma shape_upd_ctx:
  "upd_ctx p f m = Some m' \<Longrightarrow> (\<And>x. c_devices (f x) = c_devices x) \<Longrightarrow> shape m' = shape m"
  by (auto simp: upd_ctx_def bind_Some_iff shape_def fun_eq_iff)

lemma shape_upd_device:
  "upd_device p f m = Some m' \<Longrightarrow>
     (\<And>x. (dev_ctx (f x), dev_group (f x), dev_groups (f x), dev_wqs (f x), dev_engines (f x), dev_path (f x), dev_buf_len (f x))
        = (dev_ctx x, dev_group x, dev_groups x, dev_wqs x, dev_engines x, dev_path x, dev_buf_len x)) \<Longrightarrow>
     shape m' = shape m"
  by (auto simp: upd_device_def bind_Some_iff shape_def fun_eq_iff)

lemma shape_upd_group:
  "upd_group p f m = Some m' \<Longrightarrow>
     (\<And>x. (grp_device (f x), grp_path (f x), grp_buf_len (f x)) = (grp_device x, grp_path x, grp_buf_len x)) \<Longrightarrow>
     shape m' = shape m"
  by (auto simp: upd_group_def bind_Some_iff shape_def fun_eq_iff)

lemma shape_upd_wq:
  "upd_wq p f m = Some m' \<Longrightarrow>
     (\<And>x. (wq_device (f x), wq_group (f x), wq_path (f x), wq_buf_len (f x)) = (wq_device x, wq_group x, wq_path x, wq_buf_len x)) \<Longrightarrow>
     shape m' = shape m"
  by (auto simp: upd_wq_def bind_Some_iff shape_def fun_eq_iff)

lemma shape_upd_engine:
  "upd_engine p f m = Some m' \<Longrightarrow>
     (\<And>x. (eng_device (f x), eng_group (f x), eng_path (f x), eng_buf_len (f x)) = (eng_device x, eng_group x, eng_path x, eng_buf_len x)) \<Longrightarrow>
     shape m' = shape m"
  by (auto simp: upd_engine_def bind_Some_iff shape_def fun_eq_iff)

text \<open>
  Only the kernel and \<open>errno\<close> may have changed: the rest of the state, \<open>sys.more\<close>, is the same.  The
  frame rules of the functions that answer a pair are equations on it.
\<close>

definition sys_only :: "('k, 'z) sys_scheme \<Rightarrow> ('k, 'z) sys_scheme \<Rightarrow> bool" where
  "sys_only m m' \<longleftrightarrow> sys.more m' = sys.more m"

lemma sys_only_refl [simp, intro]: "sys_only m m"
  by (simp add: sys_only_def)

lemma sys_only_trans [trans]: "sys_only m m' \<Longrightarrow> sys_only m' m'' \<Longrightarrow> sys_only m m''"
  by (simp add: sys_only_def)

lemma sys_onlyD:
  fixes m m' :: "'k mach"
  assumes "sys_only m m'"
  shows "devices m' = devices m" "groups m' = groups m" "wqs m' = wqs m" "engines m' = engines m" "ctxs m' = ctxs m"
    "next_ptr m' = next_ptr m" "init_cmd_status m' = init_cmd_status m" "filename_prefix m' = filename_prefix m"
    "shape m' = shape m"
  using assms by (cases m; cases m'; simp add: sys_only_def shape_def)+

lemma sys_calls_more [simp, frame_simps]:
  "sys.more (snd (sys_open os p f m)) = sys.more m" "sys.more (snd (sys_read os p n m)) = sys.more m"
  "sys.more (snd (sys_write os p b m)) = sys.more m" "sys.more (snd (sys_access os p m)) = sys.more m"
  "sys.more (snd (sys_lstat os p m)) = sys.more m" "sys.more (snd (sys_realpath os p m)) = sys.more m"
  "sys.more (snd (sys_scandir os p m)) = sys.more m" "sys.more (snd (sys_alloc os m)) = sys.more m"
  by (simp_all add: sys_call_defs split: option.split sum.split prod.split)

text \<open>Queries leave the kernel as it is.\<close>

lemma sys_queries_kern [simp, frame_simps]:
  "kern (snd (sys_open os p f m)) = kern m" "kern (snd (sys_read os p n m)) = kern m"
  "kern (snd (sys_access os p m)) = kern m" "kern (snd (sys_lstat os p m)) = kern m"
  "kern (snd (sys_realpath os p m)) = kern m" "kern (snd (sys_scandir os p m)) = kern m"
  by (simp_all add: sys_call_defs split: option.split sum.split prod.split)

lemma sysfs_read_attr_more [simp, frame_simps]:
  "sys.more (snd (snd (sysfs_read_attr os path m))) = sys.more m"
  "kern (snd (snd (sysfs_read_attr os path m))) = kern m"
  by (simp_all add: sysfs_read_attr_def sys_call_defs split: option.split sum.split prod.split)

lemma sysfs_write_attr_more [simp, frame_simps]: "sys.more (snd (sysfs_write_attr os path b m)) = sys.more m"
  by (cases rule: write_attr_cases [of os path m b]) (auto simp: sysfs_write_attr_def)

lemmas sys_only_fields = sys_onlyD [unfolded sys_only_def]

lemmas sys_calls_fields [simp] =
  sys_only_fields [OF sys_calls_more(1)] sys_only_fields [OF sys_calls_more(2)] sys_only_fields [OF sys_calls_more(3)]
  sys_only_fields [OF sys_calls_more(4)] sys_only_fields [OF sys_calls_more(5)] sys_only_fields [OF sys_calls_more(6)]
  sys_only_fields [OF sys_calls_more(7)] sys_only_fields [OF sys_calls_more(8)]
  sys_only_fields [OF sysfs_read_attr_more(1)] sys_only_fields [OF sysfs_write_attr_more]

text \<open>The paths of a well-formed state fit their buffers with any attribute name of up to 126 characters.\<close>

lemma sprintf_path_fits:
  "path_ok path len \<Longrightarrow> length name < 127 \<Longrightarrow> sprintf_path len path (Some name) = Some (path @ ''/'' @ name)"
  by (simp add: path_ok_def sprintf_path_def MAX_BUF_LEN_def)

lemma sprintf_path_null_fits:
  "path_ok path len \<Longrightarrow> sprintf_path len path None = Some (path @ ''/(null)'')"
  by (simp add: path_ok_def sprintf_path_def MAX_BUF_LEN_def)

lemma snprintf_path_fits:
  "path_ok path len \<Longrightarrow> length name < 127 \<Longrightarrow> snprintf_path len path name = Some (path @ ''/'' @ name)"
  by (simp add: path_ok_def snprintf_path_def MAX_BUF_LEN_def)

lemma path_ok_devname: "path_ok path len \<Longrightarrow> \<exists>n. devpath_to_devname path = Some n"
  by (simp add: path_ok_def devpath_to_devname_def after_last_slash_def)

text \<open>What a well-formed state gives for a pointer to a live object.\<close>

lemma wfD:
  assumes "wf_state m"
  shows "linked c_devices dev_ctx (ctxs m) (devices m)"
    "linked dev_groups grp_device (devices m) (groups m)"
    "linked dev_wqs wq_device (devices m) (wqs m)"
    "linked dev_engines eng_device (devices m) (engines m)"
    "\<forall>d dv. devices m d = Some dv \<longrightarrow> path_ok (dev_path dv) (dev_buf_len dv) \<and> group_ref m d (dev_group dv)"
    "\<forall>g gr. groups m g = Some gr \<longrightarrow> path_ok (grp_path gr) (grp_buf_len gr)"
    "\<forall>w wq. wqs m w = Some wq \<longrightarrow> path_ok (wq_path wq) (wq_buf_len wq) \<and> group_ref m (wq_device wq) (wq_group wq)"
    "\<forall>e en. engines m e = Some en \<longrightarrow> path_ok (eng_path en) (eng_buf_len en) \<and> group_ref m (eng_device en) (eng_group en)"
    "\<forall>p. p = 0 \<or> next_ptr m \<le> p \<longrightarrow> ctxs m p = None \<and> devices m p = None \<and> groups m p = None
        \<and> wqs m p = None \<and> engines m p = None"
    "0 < next_ptr m"
  using assms unfolding wf_state_def by - (elim conjE, assumption)+

lemma wf_fresh:
  assumes "wf_state m" "p = 0 \<or> next_ptr m \<le> p"
  shows "ctxs m p = None" "devices m p = None" "groups m p = None" "wqs m p = None" "engines m p = None"
  using wfD(9) [OF assms(1), rule_format, OF assms(2)] by simp_all

lemmas wf_null = wf_fresh [of _ 0, OF _ disjI1 [OF refl]]

lemma wf_live:
  assumes "wf_state m"
  shows "ctxs m p = Some c \<Longrightarrow> 0 < p \<and> p < next_ptr m" "devices m p = Some d \<Longrightarrow> 0 < p \<and> p < next_ptr m"
    "groups m p = Some g \<Longrightarrow> 0 < p \<and> p < next_ptr m" "wqs m p = Some w \<Longrightarrow> 0 < p \<and> p < next_ptr m"
    "engines m p = Some e \<Longrightarrow> 0 < p \<and> p < next_ptr m"
  using wf_fresh [OF assms, of p] by (auto simp: not_less intro: ccontr)

lemma wf_device:
  assumes "wf_state m" "devices m d = Some dv"
  shows "path_ok (dev_path dv) (dev_buf_len dv)" "\<exists>cx. ctxs m (dev_ctx dv) = Some cx" "d \<noteq> 0"
    "group_ref m d (dev_group dv)"
  using wfD(5) [OF assms(1), rule_format, OF assms(2)] linked_owner [OF wfD(1) [OF assms(1)] assms(2)]
    wf_null(2) [OF assms(1)] assms(2) by (auto intro: ccontr)

lemma wf_group:
  assumes "wf_state m" "groups m g = Some gr"
  shows "path_ok (grp_path gr) (grp_buf_len gr)" "\<exists>dv. devices m (grp_device gr) = Some dv" "g \<noteq> 0"
  using wfD(6) [OF assms(1), rule_format, OF assms(2)] linked_owner [OF wfD(2) [OF assms(1)] assms(2)]
    wf_null(3) [OF assms(1)] assms(2) by (auto intro: ccontr)

lemma wf_wq:
  assumes "wf_state m" "wqs m w = Some wq"
  shows "path_ok (wq_path wq) (wq_buf_len wq)" "\<exists>dv. devices m (wq_device wq) = Some dv" "w \<noteq> 0"
    "group_ref m (wq_device wq) (wq_group wq)"
  using wfD(7) [OF assms(1), rule_format, OF assms(2)] linked_owner [OF wfD(3) [OF assms(1)] assms(2)]
    wf_null(4) [OF assms(1)] assms(2) by (auto intro: ccontr)

lemma wf_engine:
  assumes "wf_state m" "engines m e = Some en"
  shows "path_ok (eng_path en) (eng_buf_len en)" "\<exists>dv. devices m (eng_device en) = Some dv" "e \<noteq> 0"
    "group_ref m (eng_device en) (eng_group en)"
  using wfD(8) [OF assms(1), rule_format, OF assms(2)] linked_owner [OF wfD(4) [OF assms(1)] assms(2)]
    wf_null(5) [OF assms(1)] assms(2) by (auto intro: ccontr)

end
