(* ===== verification/Accfg_Param.thy ===== *)
theory Accfg_Param
  imports Accfg_Heap
begin

text \<open>
  The parameter readers and writers at the bottom of \<open>src/accfg/lib/libaccfg.c\<close>, the command status
  of a device, its translation to text, and the record of the last error.  A directory descriptor is
  the path it was opened with: \<open>openat (dfd, name)\<close> opens \<open>dfd/name\<close>.
\<close>

section \<open>Parameters\<close>

definition accfg_set_param ::
  "'k os \<Rightarrow> string \<Rightarrow> string \<Rightarrow> string \<Rightarrow> ('k, 'z) sys_scheme \<Rightarrow> int \<times> ('k, 'z) sys_scheme" where
  "accfg_set_param os dfd name buf m =
     (case sys_open os (dfd @ ''/'' @ name) O_RDWR m of (fd, m) \<Rightarrow>
      if \<not> fd then (- errno m, m)
      else
        case sys_write os (dfd @ ''/'' @ name) buf m of (n, m) \<Rightarrow>
        if n \<noteq> int (length buf) then (- errno m, m) else (0, m))"

text \<open>The text in the buffer after the trailing newline is replaced.\<close>

definition chomp :: "string \<Rightarrow> string" where
  "chomp buf = cstring (if last buf = NL then butlast buf else buf)"

text \<open>What follows a successful \<open>openat\<close> in the two number readers: read, trim, convert.\<close>

definition read_number ::
  "'k os \<Rightarrow> string \<Rightarrow> (string \<Rightarrow> int \<times> string \<times> bool) \<Rightarrow> ('k, 'z) sys_scheme \<Rightarrow> int \<times> ('k, 'z) sys_scheme" where
  "read_number os path conv m =
     (case sys_read os path (MAX_PARAM_LEN - 1) m of
        (None, m) \<Rightarrow> (- ENXIO, m)
      | (Some buf, m) \<Rightarrow>
          if buf = [] then (- ENXIO, m)
          else (case conv (chomp buf) of (v, _, erange) \<Rightarrow> (v, if erange then m\<lparr>errno := ERANGE\<rparr> else m)))"

definition accfg_get_param_long ::
  "'k os \<Rightarrow> string \<Rightarrow> string \<Rightarrow> ('k, 'z) sys_scheme \<Rightarrow> int \<times> ('k, 'z) sys_scheme" where
  "accfg_get_param_long os dfd name m =
     (case sys_open os (dfd @ ''/'' @ name) O_RDONLY m of (fd, m) \<Rightarrow>
      if fd then read_number os (dfd @ ''/'' @ name) (strtol 0) m
      else if errno m = ENOENT then
        (case deprecated_attr name of
           None \<Rightarrow> (- errno m, m)
         | Some p \<Rightarrow>
             case sys_open os (dfd @ ''/'' @ p) O_RDONLY m of (fd, m) \<Rightarrow>
             if \<not> fd then (- errno m, m) else read_number os (dfd @ ''/'' @ p) (strtol 0) m)
      else (- errno m, m))"

text \<open>The result type is \<open>uint64_t\<close>, also for the error codes.\<close>

definition accfg_get_param_unsigned_llong ::
  "'k os \<Rightarrow> string \<Rightarrow> string \<Rightarrow> ('k, 'z) sys_scheme \<Rightarrow> int \<times> ('k, 'z) sys_scheme" where
  "accfg_get_param_unsigned_llong os dfd name m =
     (case sys_open os (dfd @ ''/'' @ name) O_RDONLY m of (fd, m) \<Rightarrow>
      if \<not> fd then (u64 (- errno m), m)
      else case read_number os (dfd @ ''/'' @ name) (strtoull 0) m of (v, m) \<Rightarrow> (u64 v, m))"

text \<open>The text up to the first newline, \<open>None\<close> for a null pointer.\<close>

definition accfg_get_param_str ::
  "'k os \<Rightarrow> string \<Rightarrow> string \<Rightarrow> ('k, 'z) sys_scheme \<Rightarrow> string option \<times> ('k, 'z) sys_scheme" where
  "accfg_get_param_str os dfd name m =
     (case sys_open os (dfd @ ''/'' @ name) O_RDONLY m of (fd, m) \<Rightarrow>
      if \<not> fd then (None, m)
      else
        case sys_read os (dfd @ ''/'' @ name) (MAX_PARAM_LEN - 1) m of
          (None, m) \<Rightarrow> (None, m)
        | (Some buf, m) \<Rightarrow>
            if buf = [] then (None, m)
            else
              case sys_alloc os m of (ok, m) \<Rightarrow>
              if ok then (Some (takeWhile (\<lambda>c. c \<noteq> NL) (cstring buf)), m) else (None, m))"


section \<open>The command status\<close>

definition ACCFG_CMD_STATUS_MAX :: nat where "ACCFG_CMD_STATUS_MAX = 0x45"
definition ACCFG_CMD_STATUS_ERROR :: int where "ACCFG_CMD_STATUS_ERROR = 0x80010000"
definition IDXD_SCMD_SOFTERR_MASK :: int where "IDXD_SCMD_SOFTERR_MASK = 0x80000000"

text \<open>\<open>SCMD_STAT\<close> on an \<open>unsigned int\<close>: clear the top bit, shift by 16.\<close>

definition SCMD_STAT :: "int \<Rightarrow> nat" where
  "SCMD_STAT x = nat (x mod 2 ^ 31 div 2 ^ 16)"

text \<open>The tables as partial maps on their indices; an index not listed is a null pointer.\<close>

definition accfg_device_cmd_status :: "(nat \<times> string) list" where
  "accfg_device_cmd_status =
    [(0x0, ''Successful completion''),
     (0x1, ''Invalid command code''),
     (0x2, ''Invalid WQ index''),
     (0x3, ''Internal or platform hardware error''),
     (0x4, ''Non-zero reserved field in command''),
     (0x10, ''Device not disabled''),
     (0x11, ''Unspecified error in config for device enable''),
     (0x12, ''Bus master enable is 0''),
     (0x13, ''PRSREQALLOC value unsupported''),
     (0x14, ''Sum of WQCFG size fields out of range''),
     (0x15, ''Invalid group config: lack of wq or engines''),
     (0x16, ''Invalid group config: wq misconfigured''),
     (0x17, ''Invalid group config: engine misconfigured''),
     (0x18, ''Invalid group config: invalid read buffers config''),
     (0x20, ''Device not enabled''),
     (0x21, ''WQ is not disabled''),
     (0x22, ''WQ size is 0''),
     (0x23, ''WQ priority is 0''),
     (0x24, ''Invalid WQ mode''),
     (0x25, ''Invalid block on fault setting''),
     (0x26, ''Invalid value for WQ pasid enable''),
     (0x27, ''Invalid WQ max batch size''),
     (0x28, ''Invalid WQ max transfer size''),
     (0x2a, ''PCIe pasid cap Priv mode enable = 0''),
     (0x2b, ''Invalid WQ Occupancy Interrupt table or handle''),
     (0x2c, ''WQ ATS config mismatched''),
     (0x31, ''Device is not enabled''),
     (0x32, ''WQ(s) not enabled''),
     (0x41, ''Invalid interrupt table index''),
     (0x42, ''No interrupt handle available''),
     (0x43, ''No interrupt handles associated with the index''),
     (0x44, ''No revoked handles associated with the index''),
     (ACCFG_CMD_STATUS_MAX, ''Unknown error'')]"

definition accfg_sw_cmd_status :: "(nat \<times> string) list" where
  "accfg_sw_cmd_status =
    [(0x01, ''Error reading cmd_status (library error)''),
     (SCMD_STAT 0x80020000, ''DMA device registration error (driver error)''),
     (SCMD_STAT 0x80030000, ''wq error - group not set''),
     (SCMD_STAT 0x80040000, ''wq error - name not set''),
     (SCMD_STAT 0x80050000, ''wq error - no SVM support and needed (platform configuration error)''),
     (SCMD_STAT 0x80060000, ''wq error - threshold not set''),
     (SCMD_STAT 0x80070000, ''wq portal mapping error (driver error)''),
     (SCMD_STAT 0x80080000, ''wq resource allocation error (driver error)''),
     (SCMD_STAT 0x80090000, ''wq percpu counter allocation error (driver error)''),
     (SCMD_STAT 0x800a0000, ''wq DMA channel registration error (driver error)''),
     (SCMD_STAT 0x800b0000, ''wq char dev registration error (driver error)''),
     (SCMD_STAT 0x800c0000, ''wq error - no shared wq support (platform configuration error)''),
     (SCMD_STAT 0x800d0000, ''wq error - no wqs configured''),
     (SCMD_STAT 0x800e0000, ''wq error - size not set'')]"

text \<open>An array initialised by index is as long as its largest index requires.\<close>

definition table_size :: "(nat \<times> string) list \<Rightarrow> nat" where
  "table_size t = Suc (fold max (map fst t) 0)"

text \<open>Reading a table: outside it is undefined behaviour; a hole is a null pointer.\<close>

definition table_get :: "(nat \<times> string) list \<Rightarrow> nat \<Rightarrow> string option option" where
  "table_get t i = (if i < table_size t then Some (map_of t i) else None)"

definition get_cmd_status_str :: "int \<Rightarrow> string option option" where
  "get_cmd_status_str status =
     (let ext = (\<lambda>status. table_get accfg_device_cmd_status status);
          hw = (\<lambda>status. ext (if status > int ACCFG_CMD_STATUS_MAX then ACCFG_CMD_STATUS_MAX else nat status)) in
      if status \<ge> IDXD_SCMD_SOFTERR_MASK then
        (let sw_status = SCMD_STAT status in
         if sw_status \<noteq> 0 then
           if sw_status \<ge> table_size accfg_sw_cmd_status then ext ACCFG_CMD_STATUS_MAX
           else table_get accfg_sw_cmd_status sw_status
         else hw (status - IDXD_SCMD_SOFTERR_MASK))
      else hw status)"

definition accfg_device_get_cmd_status :: "'k os \<Rightarrow> ptr \<Rightarrow> 'k mach \<Rightarrow> ('k, int) run" where
  "accfg_device_get_cmd_status os device m =
     (if device = 0 then Some (ACCFG_CMD_STATUS_ERROR, m)
      else do {
        dv \<leftarrow> devices m device;
        case snprintf_path (dev_buf_len dv) (dev_path dv) ''cmd_status'' of
          None \<Rightarrow> Some (ACCFG_CMD_STATUS_ERROR, m)
        | Some path \<Rightarrow>
            (case sysfs_read_attr os path m of (rc, buf, m) \<Rightarrow>
             if rc \<noteq> 0 then Some (ACCFG_CMD_STATUS_ERROR, m)
             else do {
               buf \<leftarrow> buf;
               case strtol 0 buf of (status, end_ptr, erange) \<Rightarrow>
               let m = (if erange then m\<lparr>errno := ERANGE\<rparr> else m) in
               if errno m = ERANGE \<or> end_ptr = buf then Some (ACCFG_CMD_STATUS_ERROR, m)
               else if init_cmd_status m \<noteq> 0 \<and> init_cmd_status m = status then Some (ACCFG_CMD_STATUS_ERROR, m)
               else Some (u32 status, m)
             })
      })"

definition accfg_device_get_cmd_status_str :: "'k os \<Rightarrow> ptr \<Rightarrow> 'k mach \<Rightarrow> ('k, string option) run" where
  "accfg_device_get_cmd_status_str os device m = do {
     (status, m) \<leftarrow> accfg_device_get_cmd_status os device m;
     s \<leftarrow> get_cmd_status_str status;
     Some (s, m)
   }"


section \<open>The last error\<close>

definition save_last_error :: "'k os \<Rightarrow> ptr \<Rightarrow> ptr \<Rightarrow> ptr \<Rightarrow> ptr \<Rightarrow> 'k mach \<Rightarrow> 'k mach option" where
  "save_last_error os device wq grp engine m = do {
     dv \<leftarrow> devices m device;
     cx \<leftarrow> ctxs m (dev_ctx dv);
     (have_ctx, m) \<leftarrow>
       (if c_error_ctx cx = None then Some (sys_alloc os m) else Some (True, m));
     if \<not> have_ctx then Some m
     else do {
       (status, m) \<leftarrow> accfg_device_get_cmd_status os device m;
       upd_ctx (dev_ctx dv)
         (\<lambda>c. c\<lparr>c_error_ctx := Some \<lparr>ec_cmd_status = status, ec_device = device, ec_group = grp,
                                     ec_wq = wq, ec_engine = engine\<rparr>\<rparr>) m
     }
   }"

definition accfg_ctx_get_last_error :: "ptr \<Rightarrow> 'k mach \<Rightarrow> int option" where
  "accfg_ctx_get_last_error ctx m = do {
     cx \<leftarrow> ctxs m ctx;
     Some (case c_error_ctx cx of None \<Rightarrow> 0 | Some ec \<Rightarrow> ec_cmd_status ec)
   }"

definition accfg_ctx_get_last_error_str :: "ptr \<Rightarrow> 'k mach \<Rightarrow> string option option" where
  "accfg_ctx_get_last_error_str ctx m = do {
     status \<leftarrow> accfg_ctx_get_last_error ctx m;
     get_cmd_status_str status
   }"

definition last_error_field :: "(accfg_error_ctx \<Rightarrow> ptr) \<Rightarrow> ptr \<Rightarrow> 'k mach \<Rightarrow> ptr option" where
  "last_error_field f ctx m = do {
     cx \<leftarrow> ctxs m ctx;
     Some (case c_error_ctx cx of None \<Rightarrow> 0 | Some ec \<Rightarrow> f ec)
   }"

definition accfg_ctx_get_last_error_device :: "ptr \<Rightarrow> 'k mach \<Rightarrow> ptr option" where
  "accfg_ctx_get_last_error_device = last_error_field ec_device"

definition accfg_ctx_get_last_error_wq :: "ptr \<Rightarrow> 'k mach \<Rightarrow> ptr option" where
  "accfg_ctx_get_last_error_wq = last_error_field ec_wq"

definition accfg_ctx_get_last_error_group :: "ptr \<Rightarrow> 'k mach \<Rightarrow> ptr option" where
  "accfg_ctx_get_last_error_group = last_error_field ec_group"

definition accfg_ctx_get_last_error_engine :: "ptr \<Rightarrow> 'k mach \<Rightarrow> ptr option" where
  "accfg_ctx_get_last_error_engine = last_error_field ec_engine"


section \<open>Frames\<close>

lemma read_number_more [simp, frame_simps]:
  "sys.more (snd (read_number os path conv m)) = sys.more m"
  "kern (snd (read_number os path conv m)) = kern m"
  by (simp_all add: read_number_def case_prod_beta sys_call_defs split: option.split sum.split)

lemma accfg_get_param_long_more [simp, frame_simps]:
  "sys.more (snd (accfg_get_param_long os dfd name m)) = sys.more m"
  "kern (snd (accfg_get_param_long os dfd name m)) = kern m"
  by (simp_all add: accfg_get_param_long_def case_prod_beta split: option.split)

lemma accfg_get_param_unsigned_llong_more [simp, frame_simps]:
  "sys.more (snd (accfg_get_param_unsigned_llong os dfd name m)) = sys.more m"
  "kern (snd (accfg_get_param_unsigned_llong os dfd name m)) = kern m"
  by (simp_all add: accfg_get_param_unsigned_llong_def case_prod_beta)

lemma accfg_get_param_str_more [simp, frame_simps]:
  "sys.more (snd (accfg_get_param_str os dfd name m)) = sys.more m"
  by (simp add: accfg_get_param_str_def sys_call_defs case_prod_beta split: option.split sum.split)

lemma accfg_set_param_more [simp, frame_simps]: "sys.more (snd (accfg_set_param os dfd name buf m)) = sys.more m"
  by (simp add: accfg_set_param_def case_prod_beta)

lemmas accfg_param_fields [simp] =
  sys_only_fields [OF accfg_get_param_long_more(1)] sys_only_fields [OF accfg_get_param_unsigned_llong_more(1)]
  sys_only_fields [OF accfg_get_param_str_more] sys_only_fields [OF accfg_set_param_more]

lemma accfg_device_get_cmd_status_wlp:
  "wlp (accfg_device_get_cmd_status os d m) (\<lambda>(v, m'). sys_only m m' \<and> kern m' = kern m)"
  by (simp add: accfg_device_get_cmd_status_def Let_def case_prod_beta sys_only_def split: option.split)
    (simp add: wlp_iff)

text \<open>On a live device the command status is always defined.\<close>

lemma sysfs_read_attr_buf:
  "os_ok os \<Longrightarrow> fst (sysfs_read_attr os path m) = 0 \<Longrightarrow> \<exists>s. fst (snd (sysfs_read_attr os path m)) = Some s"
  by (auto simp: sysfs_read_attr_def sys_call_defs case_prod_beta split: option.splits sum.splits if_splits dest: os_ok_open)

lemma accfg_device_get_cmd_status_wp:
  assumes "os_ok os" "wf_state m" "d = 0 \<or> devices m d = Some dv"
  shows "wp (accfg_device_get_cmd_status os d m) (\<lambda>_. True)"
proof (cases "d = 0")
  case False
  then have d: "devices m d = Some dv" using assms(3) by simp
  with False show ?thesis
    using snprintf_path_fits [OF wf_device(1) [OF assms(2) d], of "''cmd_status''"]
      sysfs_read_attr_buf [OF assms(1), of "dev_path dv @ ''/cmd_status''" m]
    by (auto simp: accfg_device_get_cmd_status_def Let_def case_prod_beta)
qed (simp add: accfg_device_get_cmd_status_def)

text \<open>Recording an error changes the error record of the context, the kernel and \<open>errno\<close> only.\<close>

definition error_frame :: "'k mach \<Rightarrow> 'k mach \<Rightarrow> bool" where
  "error_frame m m' \<longleftrightarrow> shape m' = shape m \<and> devices m' = devices m \<and> groups m' = groups m \<and> wqs m' = wqs m
     \<and> engines m' = engines m \<and> init_cmd_status m' = init_cmd_status m
     \<and> (\<forall>c. map_option c_devices_init (ctxs m' c) = map_option c_devices_init (ctxs m c))"

lemma error_frame_refl [simp]: "error_frame m m"
  by (simp add: error_frame_def)

lemma error_frame_trans: "error_frame m m' \<Longrightarrow> error_frame m' m'' \<Longrightarrow> error_frame m m''"
  by (simp add: error_frame_def)

lemma error_frame_sys: "sys_only m m' \<Longrightarrow> error_frame m m'"
  by (simp add: error_frame_def sys_onlyD)

lemma wf_error_frame: "error_frame m m' \<Longrightarrow> wf_state m \<Longrightarrow> wf_state m'"
  unfolding error_frame_def using wf_shape by metis

text \<open>
  What every run after discovery keeps: the graph, the flags that stop another scan and the names of the buses; the name of
  a queue's driver changes to a short one at most.
\<close>

definition short_driver :: "accfg_wq \<Rightarrow> bool" where
  "short_driver q \<longleftrightarrow> (\<forall>n. wq_driver_name q = Some n \<longrightarrow> length n < 1000)"

definition steady :: "'k mach \<Rightarrow> 'k mach \<Rightarrow> bool" where
  "steady m m' \<longleftrightarrow> shape m' = shape m
     \<and> (\<forall>c. map_option c_devices_init (ctxs m' c) = map_option c_devices_init (ctxs m c))
     \<and> (\<forall>d. map_option (\<lambda>d. (dev_group_init d, dev_bus_type_str d)) (devices m' d)
           = map_option (\<lambda>d. (dev_group_init d, dev_bus_type_str d)) (devices m d))
     \<and> (\<forall>g. map_option (\<lambda>g. (grp_wqs_init g, grp_engines_init g)) (groups m' g)
           = map_option (\<lambda>g. (grp_wqs_init g, grp_engines_init g)) (groups m g))
     \<and> (\<forall>w q. wqs m' w = Some q \<longrightarrow> (\<exists>p. wqs m w = Some p \<and> (wq_driver_name q = wq_driver_name p \<or> short_driver q)))"

lemma steady_error_frame: "error_frame m m' \<Longrightarrow> steady m m'"
  by (simp add: error_frame_def steady_def)

lemma steady_refl [simp]: "steady m m"
  by (simp add: steady_def)

lemma steady_driver:
  "steady m m' \<Longrightarrow> wqs m' w = Some q \<Longrightarrow> \<exists>p. wqs m w = Some p \<and> (wq_driver_name q = wq_driver_name p \<or> short_driver q)"
  unfolding steady_def by blast

lemma steady_trans:
  assumes "steady m m'" "steady m' m''"
  shows "steady m m''"
proof -
  have "\<exists>p. wqs m w = Some p \<and> (wq_driver_name q = wq_driver_name p \<or> short_driver q)" if w: "wqs m'' w = Some q" for w q
  proof -
    obtain p where p: "wqs m' w = Some p" "wq_driver_name q = wq_driver_name p \<or> short_driver q"
      using steady_driver [OF assms(2) w] by blast
    moreover obtain p' where "wqs m w = Some p'" "wq_driver_name p = wq_driver_name p' \<or> short_driver p"
      using steady_driver [OF assms(1) p(1)] by blast
    moreover have "short_driver q" if "short_driver p" "wq_driver_name q = wq_driver_name p"
      using that by (simp add: short_driver_def)
    ultimately show ?thesis by fastforce
  qed
  then show ?thesis using assms unfolding steady_def by (intro conjI; simp)
qed

lemma steady_then: "error_frame m m' \<Longrightarrow> steady m' m'' \<Longrightarrow> steady m m''" "steady m m' \<Longrightarrow> error_frame m' m'' \<Longrightarrow> steady m m''"
  using steady_trans steady_error_frame by blast+

lemma wf_steady: "steady m m' \<Longrightarrow> wf_state m \<Longrightarrow> wf_state m'"
  unfolding steady_def using wf_shape by metis

lemma upd_error_ctx_wlp:
  "wlp (upd_ctx p (\<lambda>c. c\<lparr>c_error_ctx := x\<rparr>) m) (error_frame m)"
  by (auto simp: wlp_iff error_frame_def upd_ctx_def bind_Some_iff shape_def fun_eq_iff)

lemma save_last_error_wlp: "wlp (save_last_error os d w g e m) (error_frame m)"
proof -
  have *: "wlp (do { (status, m) \<leftarrow> accfg_device_get_cmd_status os d m1;
       upd_ctx p (\<lambda>c. c\<lparr>c_error_ctx := Some \<lparr>ec_cmd_status = status, ec_device = d, ec_group = g,
                                     ec_wq = w, ec_engine = e\<rparr>\<rparr>) m }) (error_frame m)"
    if "sys_only m m1" for m1 p
    using that
    by (auto intro!: wlp_mono [OF accfg_device_get_cmd_status_wlp] wlp_mono [OF upd_error_ctx_wlp]
        dest: error_frame_sys intro: error_frame_trans sys_only_trans)
  show ?thesis
    using * [of "snd (sys_alloc os m)"] * [of m]
    by (simp add: save_last_error_def case_prod_beta sys_only_def wlp_iff [of "devices m d"]
        wlp_iff [of "ctxs m _"]) (simp add: error_frame_sys sys_only_def)
qed

lemma save_last_error_wp:
  assumes "os_ok os" "wf_state m" "devices m d = Some dv"
  shows "wp (save_last_error os d w g e m) (error_frame m)"
proof -
  obtain cx where cx: "ctxs m (dev_ctx dv) = Some cx" using wf_device(2) [OF assms(2,3)] by blast
  have "wp (do { (status, m) \<leftarrow> accfg_device_get_cmd_status os d m1;
      upd_ctx (dev_ctx dv) (\<lambda>c. c\<lparr>c_error_ctx := Some \<lparr>ec_cmd_status = status, ec_device = d, ec_group = g,
                                     ec_wq = w, ec_engine = e\<rparr>\<rparr>) m }) (\<lambda>_. True)"
    if "sys_only m m1" for m1
  proof -
    have "wf_state m1" "devices m1 d = Some dv" "ctxs m1 (dev_ctx dv) = Some cx"
      using assms(2,3) cx sys_onlyD [OF that] wf_shape [of m m1] by simp_all
    then show ?thesis
      using wp_wlp_conj [OF accfg_device_get_cmd_status_wp [OF assms(1), of m1 d dv] accfg_device_get_cmd_status_wlp [of os d m1]]
      by (auto dest!: sys_onlyD(5) elim!: wp_mono simp: upd_ctx_def)
  qed
  from this [of "snd (sys_alloc os m)"] this [of m] assms(3) cx
  have "wp (save_last_error os d w g e m) (\<lambda>_. True)"
    by (simp add: save_last_error_def sys_only_def case_prod_beta)
  with save_last_error_wlp [of os d w g e m] show ?thesis by (auto dest: wp_wlp_conj)
qed


section \<open>Properties\<close>

lemma read_number_line:
  assumes "os_read os path (MAX_PARAM_LEN - 1) (kern m) = Inr (s @ [NL])"
    and "length s + 1 < MAX_PARAM_LEN" "NUL \<notin> set s" "conv s = (v, r, False)"
  shows "read_number os path conv m = (v, m)"
proof -
  have "chomp (s @ [NL]) = s" using assms(3) by (auto simp: chomp_def cstring_def takeWhile_eq_all_conv)
  with assms show ?thesis by (simp add: read_number_def sys_call_defs)
qed

lemma NUL_notin_show_int: "NUL \<notin> set (show_int x)"
proof -
  have nat: "NUL \<notin> set (show_nat 10 n)" for n
  proof -
    obtain ds where ds: "show_nat 10 n = map digit_char ds" "\<forall>d \<in> set ds. d < 10"
      using show_nat_digitsE [of 10 n] by auto
    have "digit_char d \<noteq> NUL" if "d < 10" for d
      using of_char_digit_char [of d] of_char_eq_0_iff [of "digit_char d"] that by auto
    with ds show ?thesis by fastforce
  qed
  then show ?thesis by (simp add: show_int_def NUL_def)
qed

text \<open>
  C31: an attribute whose text is a decimal number and a newline is read as that number, for every
  value of \<open>long\<close>; reading leaves the state as it is.
\<close>

theorem accfg_get_param_long_value:
  assumes "os_open os (dfd @ ''/'' @ name) O_RDONLY (kern m) = None"
    and "os_read os (dfd @ ''/'' @ name) (MAX_PARAM_LEN - 1) (kern m) = Inr (show_int x @ [NL])"
    and "length (show_int x) + 1 < MAX_PARAM_LEN" "LONG_MIN \<le> x" "x \<le> LONG_MAX"
  shows "accfg_get_param_long os dfd name m = (x, m)"
  using read_number_line [where conv = "strtol 0", OF assms(2,3) NUL_notin_show_int strtol_show_int [OF assms(4,5)]] assms(1)
  by (simp add: accfg_get_param_long_def sys_call_defs)

theorem accfg_get_param_long_value_witness:
  "accfg_get_param_long fs_os ''/d'' ''size''
     \<lparr>kern = \<lparr>fs_files = [(''/d/size'', ''-16'' @ [NL])], fs_dirs = [], fs_write_errors = []\<rparr>, errno = 0\<rparr>
   = (- 16, \<lparr>kern = \<lparr>fs_files = [(''/d/size'', ''-16'' @ [NL])], fs_dirs = [], fs_write_errors = []\<rparr>, errno = 0\<rparr>)"
proof -
  have "show_int (- 16) = ''-16''" by code_simp
  then show ?thesis
    by (intro accfg_get_param_long_value) (simp_all add: MAX_PARAM_LEN_def LONG_MIN_def LONG_MAX_def)
qed

text \<open>
  when an attribute does not exist under its new name, the value read is that of the attribute
  under the name older drivers use.
\<close>

lemma accfg_get_param_long_deprecated:
  assumes "os_open os (dfd @ ''/'' @ name) O_RDONLY (kern m) = Some ENOENT" "deprecated_attr name = Some old"
    and "os_open os (dfd @ ''/'' @ old) O_RDONLY (kern m) = None"
    and "deprecated_attr old = None"
  shows "accfg_get_param_long os dfd name m = accfg_get_param_long os dfd old (m\<lparr>errno := ENOENT\<rparr>)"
  using assms by (simp add: accfg_get_param_long_def sys_call_defs)

lemma accfg_get_param_long_deprecated_example:
  "fst (accfg_get_param_long fs_os ''/d'' ''read_buffer_limit''
     \<lparr>kern = \<lparr>fs_files = [(''/d/token_limit'', ''8'' @ [NL])], fs_dirs = [], fs_write_errors = []\<rparr>, errno = 0\<rparr>) = 8"
proof -
  let ?m = "\<lparr>kern = \<lparr>fs_files = [(''/d/token_limit'', ''8'' @ [NL])], fs_dirs = [], fs_write_errors = []\<rparr>, errno = 0\<rparr>"
  have "deprecated_attr ''read_buffer_limit'' = Some ''token_limit''" "deprecated_attr ''token_limit'' = None"
    by code_simp+
  then have "accfg_get_param_long fs_os ''/d'' ''read_buffer_limit'' ?m
      = accfg_get_param_long fs_os ''/d'' ''token_limit'' (?m\<lparr>errno := ENOENT\<rparr>)"
    by (intro accfg_get_param_long_deprecated) simp_all
  moreover have "fst (accfg_get_param_long fs_os ''/d'' ''token_limit'' (?m\<lparr>errno := ENOENT\<rparr>)) = 8" by code_simp
  ultimately show ?thesis by simp
qed

lemma table_sizes: "table_size accfg_device_cmd_status = 0x46" "table_size accfg_sw_cmd_status = 0x0f"
  by code_simp+

text \<open>
  the translation of a command status to text never reads outside its tables, for every 32-bit
  status.
\<close>

lemma get_cmd_status_str_in_bounds:
  assumes "0 \<le> status" "status \<le> UINT_MAX"
  shows "\<exists>s. get_cmd_status_str status = Some s"
proof -
  have "nat v < 0x46" if "\<not> v > int ACCFG_CMD_STATUS_MAX" for v
    using that by (auto simp: ACCFG_CMD_STATUS_MAX_def nat_less_iff)
  then have "\<exists>s. table_get accfg_device_cmd_status
      (if v > int ACCFG_CMD_STATUS_MAX then ACCFG_CMD_STATUS_MAX else nat v) = Some s" for v
    by (simp add: table_get_def table_sizes) (simp add: ACCFG_CMD_STATUS_MAX_def)
  moreover have "\<exists>s. table_get accfg_device_cmd_status ACCFG_CMD_STATUS_MAX = Some s"
    by (simp add: table_get_def table_sizes ACCFG_CMD_STATUS_MAX_def)
  ultimately show ?thesis by (simp add: get_cmd_status_str_def Let_def) (simp add: table_get_def)
qed

lemma get_cmd_status_str_in_bounds_example: "\<exists>s. get_cmd_status_str 0x80300000 = Some s"
  by (rule get_cmd_status_str_in_bounds) (simp_all add: UINT_MAX_def)

text \<open>
  The driver's software errors above 0x800e0000 have no text of their own: every status with
  software code 0x0f or more reads as "Unknown error" (this includes the four codes 0x800f0000,
  0x80100000, 0x80200000 and 0x80300000 that \<open>idxd.h\<close> defines).
\<close>

lemma get_cmd_status_str_unlisted:
  assumes "IDXD_SCMD_SOFTERR_MASK \<le> status" "0x0f \<le> SCMD_STAT status"
  shows "get_cmd_status_str status = Some (Some ''Unknown error'')"
proof -
  have "table_get accfg_device_cmd_status ACCFG_CMD_STATUS_MAX = Some (Some ''Unknown error'')" by code_simp
  with assms show ?thesis by (simp add: get_cmd_status_str_def Let_def table_sizes)
qed


end
