(* ===== verification/Idxd.thy ===== *)
theory Idxd
  imports Accfg_Param
begin

text \<open>
  The interface of the driver in \<open>src/accfg/idxd.h\<close>: the codes of operations and completions, the flags, and the layout of
  descriptors, completion records and windows, which device and driver share with programs.  A layout is the
  structure of the declaration; \<open>fields_from\<close> computes where each member is, by the rules that the compilers of x86-64
  follow: a member at a multiple of its alignment, a bit-field next to the last one unless it would cross a unit of
  its type, no alignment for the members of a packed structure (their own members keep theirs).
\<close>

section \<open>Status of a command\<close>

text \<open>The errors that the driver reports in the status of a command.\<close>

definition scmd_codes :: "(string \<times> int) list" where
  "scmd_codes =
    [(''IDXD_SCMD_DEV_ENABLED'', 0x80000010), (''IDXD_SCMD_DEV_NOT_ENABLED'', 0x80000020), (''IDXD_SCMD_WQ_ENABLED'', 0x80000021),
     (''IDXD_SCMD_DEV_DMA_ERR'', 0x80020000), (''IDXD_SCMD_WQ_NO_GRP'', 0x80030000), (''IDXD_SCMD_WQ_NO_NAME'', 0x80040000),
     (''IDXD_SCMD_WQ_NO_SVM'', 0x80050000), (''IDXD_SCMD_WQ_NO_THRESH'', 0x80060000), (''IDXD_SCMD_WQ_PORTAL_ERR'', 0x80070000),
     (''IDXD_SCMD_WQ_RES_ALLOC_ERR'', 0x80080000), (''IDXD_SCMD_PERCPU_ERR'', 0x80090000), (''IDXD_SCMD_DMA_CHAN_ERR'', 0x800a0000),
     (''IDXD_SCMD_CDEV_ERR'', 0x800b0000), (''IDXD_SCMD_WQ_NO_SWQ_SUPPORT'', 0x800c0000),
     (''IDXD_SCMD_WQ_NONE_CONFIGURED'', 0x800d0000), (''IDXD_SCMD_WQ_NO_SIZE'', 0x800e0000), (''IDXD_SCMD_WQ_NO_PRIV'', 0x800f0000),
     (''IDXD_SCMD_WQ_IRQ_ERR'', 0x80100000), (''IDXD_SCMD_WQ_NO_DRV_NAME'', 0x80200000), (''IDXD_SCMD_DEV_EVL_ERR'', 0x80300000)]"

section \<open>Codes\<close>

datatype dsa_opcode =
    DSA_OPCODE_NOOP | DSA_OPCODE_BATCH | DSA_OPCODE_DRAIN | DSA_OPCODE_MEMMOVE | DSA_OPCODE_MEMFILL | DSA_OPCODE_COMPARE |
  DSA_OPCODE_COMPVAL | DSA_OPCODE_CR_DELTA | DSA_OPCODE_AP_DELTA | DSA_OPCODE_DUALCAST | DSA_OPCODE_TRANSL_FETCH | DSA_OPCODE_CRCGEN |
  DSA_OPCODE_COPY_CRC | DSA_OPCODE_DIF_CHECK | DSA_OPCODE_DIF_INS | DSA_OPCODE_DIF_STRP | DSA_OPCODE_DIF_UPDT | DSA_OPCODE_DIX_GEN |
  DSA_OPCODE_CFLUSH | DSA_OPCODE_UPDATE_WIN | DSA_OPCODE_RS_IPASID_MEMCOPY | DSA_OPCODE_RS_IPASID_FILL |
  DSA_OPCODE_RS_IPASID_COMPARE | DSA_OPCODE_RS_IPASID_COMPVAL | DSA_OPCODE_RS_IPASID_CFLUSH | DSA_OPCODE_URS_IPASID_MEMCOPY |
  DSA_OPCODE_URS_IPASID_FILL | DSA_OPCODE_URS_IPASID_COMPARE | DSA_OPCODE_URS_IPASID_COMPVAL | DSA_OPCODE_URS_IPASID_CFLUSH

definition dsa_opcodes :: "(dsa_opcode \<times> nat) list" where
  "dsa_opcodes =
    [(DSA_OPCODE_NOOP, 0x00), (DSA_OPCODE_BATCH, 0x01), (DSA_OPCODE_DRAIN, 0x02), (DSA_OPCODE_MEMMOVE, 0x03),
     (DSA_OPCODE_MEMFILL, 0x04), (DSA_OPCODE_COMPARE, 0x05), (DSA_OPCODE_COMPVAL, 0x06), (DSA_OPCODE_CR_DELTA, 0x07),
     (DSA_OPCODE_AP_DELTA, 0x08), (DSA_OPCODE_DUALCAST, 0x09), (DSA_OPCODE_TRANSL_FETCH, 0x0a), (DSA_OPCODE_CRCGEN, 0x10),
     (DSA_OPCODE_COPY_CRC, 0x11), (DSA_OPCODE_DIF_CHECK, 0x12), (DSA_OPCODE_DIF_INS, 0x13), (DSA_OPCODE_DIF_STRP, 0x14),
     (DSA_OPCODE_DIF_UPDT, 0x15), (DSA_OPCODE_DIX_GEN, 0x17), (DSA_OPCODE_CFLUSH, 0x20), (DSA_OPCODE_UPDATE_WIN, 0x21),
     (DSA_OPCODE_RS_IPASID_MEMCOPY, 0x23), (DSA_OPCODE_RS_IPASID_FILL, 0x24), (DSA_OPCODE_RS_IPASID_COMPARE, 0x25),
     (DSA_OPCODE_RS_IPASID_COMPVAL, 0x26), (DSA_OPCODE_RS_IPASID_CFLUSH, 0x27), (DSA_OPCODE_URS_IPASID_MEMCOPY, 0x33),
     (DSA_OPCODE_URS_IPASID_FILL, 0x34), (DSA_OPCODE_URS_IPASID_COMPARE, 0x35), (DSA_OPCODE_URS_IPASID_COMPVAL, 0x36),
     (DSA_OPCODE_URS_IPASID_CFLUSH, 0x37)]"

datatype iax_opcode =
    IAX_OPCODE_NOOP | IAX_OPCODE_DRAIN | IAX_OPCODE_MEMMOVE | IAX_OPCODE_TRANSL_FETCH | IAX_OPCODE_DECRYPT | IAX_OPCODE_ENCRYPT |
  IAX_OPCODE_DECOMPRESS | IAX_OPCODE_COMPRESS | IAX_OPCODE_CRC64 | IAX_OPCODE_ZDECOMPRESS32 | IAX_OPCODE_ZDECOMPRESS16 |
  IAX_OPCODE_ZDECOMPRESS8 | IAX_OPCODE_ZCOMPRESS32 | IAX_OPCODE_ZCOMPRESS16 | IAX_OPCODE_ZCOMPRESS8 | IAX_OPCODE_SCAN |
  IAX_OPCODE_SET_MEMBERSHIP | IAX_OPCODE_EXTRACT | IAX_OPCODE_SELECT | IAX_OPCODE_RLE_BURST | IAX_OPCODE_FIND_UNIQUE |
  IAX_OPCODE_EXPAND

definition iax_opcodes :: "(iax_opcode \<times> nat) list" where
  "iax_opcodes =
    [(IAX_OPCODE_NOOP, 0x00), (IAX_OPCODE_DRAIN, 0x02), (IAX_OPCODE_MEMMOVE, 0x03), (IAX_OPCODE_TRANSL_FETCH, 0x0a),
     (IAX_OPCODE_DECRYPT, 0x40), (IAX_OPCODE_ENCRYPT, 0x41), (IAX_OPCODE_DECOMPRESS, 0x42), (IAX_OPCODE_COMPRESS, 0x43),
     (IAX_OPCODE_CRC64, 0x44), (IAX_OPCODE_ZDECOMPRESS32, 0x48), (IAX_OPCODE_ZDECOMPRESS16, 0x49), (IAX_OPCODE_ZDECOMPRESS8, 0x4a),
     (IAX_OPCODE_ZCOMPRESS32, 0x4c), (IAX_OPCODE_ZCOMPRESS16, 0x4d), (IAX_OPCODE_ZCOMPRESS8, 0x4e), (IAX_OPCODE_SCAN, 0x50),
     (IAX_OPCODE_SET_MEMBERSHIP, 0x51), (IAX_OPCODE_EXTRACT, 0x52), (IAX_OPCODE_SELECT, 0x53), (IAX_OPCODE_RLE_BURST, 0x54),
     (IAX_OPCODE_FIND_UNIQUE, 0x55), (IAX_OPCODE_EXPAND, 0x56)]"

datatype dsa_completion_status =
    DSA_COMP_NONE | DSA_COMP_SUCCESS | DSA_COMP_SUCCESS_PRED | DSA_COMP_PAGE_FAULT_NOBOF | DSA_COMP_PAGE_FAULT_IR |
  DSA_COMP_BATCH_FAIL | DSA_COMP_BATCH_PAGE_FAULT | DSA_COMP_DR_OFFSET_NOINC | DSA_COMP_DR_OFFSET_ERANGE | DSA_COMP_DIF_ERR |
  DSA_COMP_BAD_OPCODE | DSA_COMP_INVALID_FLAGS | DSA_COMP_NOZERO_RESERVE | DSA_COMP_XFER_ERANGE | DSA_COMP_DESC_CNT_ERANGE |
  DSA_COMP_DR_ERANGE | DSA_COMP_OVERLAP_BUFFERS | DSA_COMP_DCAST_ERR | DSA_COMP_DESCLIST_ALIGN | DSA_COMP_INT_HANDLE_INVAL |
  DSA_COMP_CRA_XLAT | DSA_COMP_CRA_ALIGN | DSA_COMP_ADDR_ALIGN | DSA_COMP_PRIV_BAD | DSA_COMP_TRAFFIC_CLASS_CONF |
  DSA_COMP_PFAULT_RDBA | DSA_COMP_HW_ERR1 | DSA_COMP_HW_ERR_DRB | DSA_COMP_TRANSLATION_FAIL

definition dsa_completion_status_codes :: "(dsa_completion_status \<times> nat) list" where
  "dsa_completion_status_codes =
    [(DSA_COMP_NONE, 0x00), (DSA_COMP_SUCCESS, 0x01), (DSA_COMP_SUCCESS_PRED, 0x02), (DSA_COMP_PAGE_FAULT_NOBOF, 0x03),
     (DSA_COMP_PAGE_FAULT_IR, 0x04), (DSA_COMP_BATCH_FAIL, 0x05), (DSA_COMP_BATCH_PAGE_FAULT, 0x06), (DSA_COMP_DR_OFFSET_NOINC, 0x07),
     (DSA_COMP_DR_OFFSET_ERANGE, 0x08), (DSA_COMP_DIF_ERR, 0x09), (DSA_COMP_BAD_OPCODE, 0x10), (DSA_COMP_INVALID_FLAGS, 0x11),
     (DSA_COMP_NOZERO_RESERVE, 0x12), (DSA_COMP_XFER_ERANGE, 0x13), (DSA_COMP_DESC_CNT_ERANGE, 0x14), (DSA_COMP_DR_ERANGE, 0x15),
     (DSA_COMP_OVERLAP_BUFFERS, 0x16), (DSA_COMP_DCAST_ERR, 0x17), (DSA_COMP_DESCLIST_ALIGN, 0x18), (DSA_COMP_INT_HANDLE_INVAL, 0x19),
     (DSA_COMP_CRA_XLAT, 0x1a), (DSA_COMP_CRA_ALIGN, 0x1b), (DSA_COMP_ADDR_ALIGN, 0x1c), (DSA_COMP_PRIV_BAD, 0x1d),
     (DSA_COMP_TRAFFIC_CLASS_CONF, 0x1e), (DSA_COMP_PFAULT_RDBA, 0x1f), (DSA_COMP_HW_ERR1, 0x20), (DSA_COMP_HW_ERR_DRB, 0x21),
     (DSA_COMP_TRANSLATION_FAIL, 0x22)]"

datatype iax_completion_status =
    IAX_COMP_NONE | IAX_COMP_SUCCESS | IAX_COMP_PAGE_FAULT_IR | IAX_COMP_OUTBUF_OVERFLOW | IAX_COMP_BAD_OPCODE |
  IAX_COMP_INVALID_FLAGS | IAX_COMP_NOZERO_RESERVE | IAX_COMP_INVALID_SIZE | IAX_COMP_OVERLAP_BUFFERS | IAX_COMP_INT_HANDLE_INVAL |
  IAX_COMP_CRA_XLAT | IAX_COMP_CRA_ALIGN | IAX_COMP_ADDR_ALIGN | IAX_COMP_PRIV_BAD | IAX_COMP_TRAFFIC_CLASS_CONF |
  IAX_COMP_PFAULT_RDBA | IAX_COMP_HW_ERR1 | IAX_COMP_HW_ERR_DRB | IAX_COMP_TRANSLATION_FAIL | IAX_COMP_PRS_TIMEOUT |
  IAX_COMP_WATCHDOG | IAX_COMP_INVALID_COMP_FLAG | IAX_COMP_INVALID_FILTER_FLAG | IAX_COMP_INVALID_NUM_ELEMS

definition iax_completion_status_codes :: "(iax_completion_status \<times> nat) list" where
  "iax_completion_status_codes =
    [(IAX_COMP_NONE, 0x00), (IAX_COMP_SUCCESS, 0x01), (IAX_COMP_PAGE_FAULT_IR, 0x04), (IAX_COMP_OUTBUF_OVERFLOW, 0x05),
     (IAX_COMP_BAD_OPCODE, 0x10), (IAX_COMP_INVALID_FLAGS, 0x11), (IAX_COMP_NOZERO_RESERVE, 0x12), (IAX_COMP_INVALID_SIZE, 0x13),
     (IAX_COMP_OVERLAP_BUFFERS, 0x16), (IAX_COMP_INT_HANDLE_INVAL, 0x19), (IAX_COMP_CRA_XLAT, 0x1a), (IAX_COMP_CRA_ALIGN, 0x1b),
     (IAX_COMP_ADDR_ALIGN, 0x1c), (IAX_COMP_PRIV_BAD, 0x1d), (IAX_COMP_TRAFFIC_CLASS_CONF, 0x1e), (IAX_COMP_PFAULT_RDBA, 0x1f),
     (IAX_COMP_HW_ERR1, 0x20), (IAX_COMP_HW_ERR_DRB, 0x21), (IAX_COMP_TRANSLATION_FAIL, 0x22), (IAX_COMP_PRS_TIMEOUT, 0x23),
     (IAX_COMP_WATCHDOG, 0x24), (IAX_COMP_INVALID_COMP_FLAG, 0x30), (IAX_COMP_INVALID_FILTER_FLAG, 0x31),
     (IAX_COMP_INVALID_NUM_ELEMS, 0x33)]"

datatype idxd_win_type =
    IDXD_WIN_TYPE_SA_SS | IDXD_WIN_TYPE_SA_MS

definition idxd_win_types :: "(idxd_win_type \<times> nat) list" where
  "idxd_win_types =
    [(IDXD_WIN_TYPE_SA_SS, 0x00), (IDXD_WIN_TYPE_SA_MS, 0x01)]"

text \<open>A code in the eight bits of a descriptor or record, and back.\<close>

definition code_of :: "('a \<times> nat) list \<Rightarrow> 'a \<Rightarrow> nat" where
  "code_of codes x = the (map_of codes x)"

definition of_code :: "('a \<times> nat) list \<Rightarrow> nat \<Rightarrow> 'a option" where
  "of_code codes n = map_of (map prod.swap codes) n"

section \<open>Flags\<close>

text \<open>The flags of a descriptor, those of the operations of an IAX, and those of a window.\<close>

definition op_flags :: "(string \<times> nat) list" where
  "op_flags =
    [(''IDXD_OP_FLAG_FENCE'', 0x0001), (''IDXD_OP_FLAG_BOF'', 0x0002), (''IDXD_OP_FLAG_CRAV'', 0x0004), (''IDXD_OP_FLAG_RCR'', 0x0008),
     (''IDXD_OP_FLAG_RCI'', 0x0010), (''IDXD_OP_FLAG_CRSTS'', 0x0020), (''IDXD_OP_FLAG_CR'', 0x0080), (''IDXD_OP_FLAG_CC'', 0x0100),
     (''IDXD_OP_FLAG_ADDR1_TCS'', 0x0200), (''IDXD_OP_FLAG_ADDR2_TCS'', 0x0400), (''IDXD_OP_FLAG_ADDR3_TCS'', 0x0800),
     (''IDXD_OP_FLAG_CR_TCS'', 0x1000), (''IDXD_OP_FLAG_STORD'', 0x2000), (''IDXD_OP_FLAG_DRDBK'', 0x4000),
     (''IDXD_OP_FLAG_DSTS'', 0x8000), (''IDXD_OP_FLAG_RD_SRC2_AECS'', 0x010000), (''IDXD_OP_FLAG_RD_SRC2_2ND'', 0x020000),
     (''IDXD_OP_FLAG_WR_SRC2_CMPL'', 0x040000)]"

definition iax_op_flags :: "(string \<times> nat) list" where
  "iax_op_flags =
    [(''IDXD_COMPRESS_FLAG_EOB_BFINAL'', 0x000c), (''IDXD_COMPRESS_FLAG_FLUSH_OUTPUT'', 0x0002),
     (''IDXD_DECOMPRESS_FLAG_SELECT_EOB_BFINAL'', 0x0010), (''IDXD_DECOMPRESS_FLAG_CHECK_EOB'', 0x0008),
     (''IDXD_DECOMPRESS_FLAG_STOP_ON_EOB'', 0x0004), (''IDXD_DECOMPRESS_FLAG_FLUSH_OUTPUT'', 0x0002),
     (''IDXD_DECOMPRESS_FLAG_EN_DECOMPRESS'', 0x0001), (''IDXD_CRYPTO_CIPHER_FLAG_FLUSH_OUTPUT'', 0x0002)]"

definition win_flags :: "(string \<times> nat) list" where
  "win_flags =
    [(''IDXD_WIN_FLAGS_PROT_READ'', 0x0001), (''IDXD_WIN_FLAGS_PROT_WRITE'', 0x0002), (''IDXD_WIN_FLAGS_WIN_CHECK'', 0x0004),
     (''IDXD_WIN_FLAGS_OFFSET_MODE'', 0x0008)]"

section \<open>Layouts\<close>

text \<open>
  A member of \<open>count\<close> units of so many bytes, a bit-field of a type of so many bytes, a structure, packed or not, and a
  union.  Places and sizes are in bits.
\<close>

datatype c_member =
  Plain string nat nat | Bits string nat nat | Struct bool "c_member list" | Union "c_member list"

definition up :: "nat \<Rightarrow> nat \<Rightarrow> nat" where
  "up off unit = (off + unit - 1) div unit * unit"

fun align :: "c_member \<Rightarrow> nat" and aligns :: "c_member list \<Rightarrow> nat" where
  "align (Plain n bytes count) = bytes"
| "align (Bits n bytes width) = bytes"
| "align (Struct packed ms) = (if packed then 1 else aligns ms)"
| "align (Union ms) = aligns ms"
| "aligns [] = 1"
| "aligns (m # ms) = max (align m) (aligns ms)"

definition place :: "bool \<Rightarrow> nat \<Rightarrow> c_member \<Rightarrow> nat" where
  "place packed off m = (case m of
       Bits n bytes width \<Rightarrow> if packed \<or> off mod (8 * bytes) + width \<le> 8 * bytes then off else up off (8 * bytes)
     | _ \<Rightarrow> up off (if packed then 8 else 8 * align m))"

fun bits_of :: "c_member \<Rightarrow> nat" and end_of :: "bool \<Rightarrow> nat \<Rightarrow> c_member list \<Rightarrow> nat" and longest :: "c_member list \<Rightarrow> nat" where
  "bits_of (Plain n bytes count) = 8 * bytes * count"
| "bits_of (Bits n bytes width) = width"
| "bits_of (Struct packed ms) = up (end_of packed 0 ms) (8 * align (Struct packed ms))"
| "bits_of (Union ms) = up (longest ms) (8 * aligns ms)"
| "end_of packed off [] = off"
| "end_of packed off (m # ms) = end_of packed (place packed off m + bits_of m) ms"
| "longest [] = 0"
| "longest (m # ms) = max (bits_of m) (longest ms)"

text \<open>The named members with their first bit and their width, of a member that starts at \<open>base\<close>.\<close>

fun fields_from :: "nat \<Rightarrow> c_member \<Rightarrow> (string \<times> nat \<times> nat) list"
  and struct_fields :: "nat \<Rightarrow> bool \<Rightarrow> nat \<Rightarrow> c_member list \<Rightarrow> (string \<times> nat \<times> nat) list"
  and union_fields :: "nat \<Rightarrow> c_member list \<Rightarrow> (string \<times> nat \<times> nat) list" where
  "fields_from base (Plain n bytes count) = [(n, base, 8 * bytes * count)]"
| "fields_from base (Bits n bytes width) = [(n, base, width)]"
| "fields_from base (Struct packed ms) = struct_fields base packed 0 ms"
| "fields_from base (Union ms) = union_fields base ms"
| "struct_fields base packed off [] = []"
| "struct_fields base packed off (m # ms) = fields_from (base + place packed off m) m @ struct_fields base packed (place packed off m + bits_of m) ms"
| "union_fields base [] = []"
| "union_fields base (m # ms) = fields_from base m @ union_fields base ms"

section \<open>Descriptors\<close>

text \<open>What the kinds of operations have in the last 24 bytes of a descriptor.\<close>

definition delta_record :: c_member where
  "delta_record = Struct False
    [Plain ''delta_addr'' 8 1, Plain ''max_delta_size'' 4 1, Plain ''delt_rsvd'' 4 1, Plain ''expected_res_mask'' 1 1]"

definition crc_seeds :: c_member where
  "crc_seeds = Struct False
    [Plain ''crc_seed'' 4 1, Plain ''crc_rsvd'' 4 1, Plain ''seed_addr'' 8 1]"

definition dif_check :: c_member where
  "dif_check = Struct False
    [Plain ''src_dif_flags'' 1 1, Plain ''dif_chk_res'' 1 1, Plain ''dif_chk_flags'' 1 1, Plain ''dif_chk_res2'' 1 5,
     Plain ''chk_ref_tag_seed'' 4 1, Plain ''chk_app_tag_mask'' 2 1, Plain ''chk_app_tag_seed'' 2 1]"

definition dif_insert :: c_member where
  "dif_insert = Struct False
    [Plain ''dif_ins_res'' 1 1, Plain ''dest_dif_flag'' 1 1, Plain ''dif_ins_flags'' 1 1, Plain ''dif_ins_res2'' 1 13,
     Plain ''ins_ref_tag_seed'' 4 1, Plain ''ins_app_tag_mask'' 2 1, Plain ''ins_app_tag_seed'' 2 1]"

definition dif_update :: c_member where
  "dif_update = Struct False
    [Plain ''src_upd_flags'' 1 1, Plain ''upd_dest_flags'' 1 1, Plain ''dif_upd_flags'' 1 1, Plain ''dif_upd_res'' 1 5,
     Plain ''src_ref_tag_seed'' 4 1, Plain ''src_app_tag_mask'' 2 1, Plain ''src_app_tag_seed'' 2 1, Plain ''dest_ref_tag_seed'' 4 1,
     Plain ''dest_app_tag_mask'' 2 1, Plain ''dest_app_tag_seed'' 2 1]"

definition iax_operands :: c_member where
  "iax_operands = Struct False
    [Plain ''iax_src2_addr'' 8 1, Plain ''iax_max_dst_size'' 4 1, Plain ''iax_src2_xfer_size'' 4 1, Plain ''iax_filter_flags'' 4 1,
     Plain ''iax_num_inputs'' 4 1]"

definition crc64_operands :: c_member where
  "crc64_operands = Struct False
    [Plain ''iax_crc64_rsvd'' 8 1, Plain ''iax_crc64_rsvd2'' 8 1, Plain ''iax_crc64_poly'' 8 1]"

definition transl_fetch_operands :: c_member where
  "transl_fetch_operands = Struct False
    [Plain ''transl_fetch_rsvd'' 8 1, Plain ''transl_fetch_region_stride'' 4 1, Plain ''transl_fetch_rsvd2'' 4 1,
     Plain ''transl_fetch_rsvd3'' 8 1]"

definition restricted_ipasid :: c_member where
  "restricted_ipasid = Struct False
    [Plain ''rest_ip_res1'' 1 20, Union [Plain ''src_pasid_hndl'' 2 1, Plain ''rest_ip_res2'' 1 2, Plain ''src1_pasid_hndl'' 2 1],
     Union [Plain ''dest_pasid_hndl'' 2 1, Plain ''src2_pasid_hndl'' 2 1, Plain ''rest_ip_res3'' 1 2]]"

definition unrestricted_ipasid :: c_member where
  "unrestricted_ipasid = Struct False
    [Plain ''unrest_ip_res1'' 1 8,
     Union [Struct False [Bits ''addr1_pasid'' 4 20, Bits ''unrest_ip_res2'' 4 11, Bits ''addr1_priv'' 4 1],
       Struct False [Bits ''src_pasid'' 4 20, Bits ''unrest_ip_res3'' 4 11, Bits ''unrest_src_priv'' 4 1],
       Struct False [Bits ''unrest_ip_res4'' 4 32], Struct False [Bits ''src1_pasid'' 4 20, Bits ''unrest_ip_res5'' 4 11,
       Bits ''unrest_src1_priv'' 4 1]],
     Union [Struct False [Bits ''addr2_pasid'' 4 20, Bits ''unrest_ip_res6'' 4 11, Bits ''addr2_priv'' 4 1],
       Struct False [Bits ''dest_pasid'' 4 20, Bits ''unrest_ip_res7'' 4 11, Bits ''unrest_dest_priv'' 4 1],
       Struct False [Bits ''src2_pasid'' 4 20, Bits ''unrest_ip_res8'' 4 11, Bits ''unrest_src2_priv'' 4 1],
       Struct False [Bits ''unrest_ip_res9'' 4 32]],
     Bits ''unrest_ip_res10'' 8 48, Plain ''ipt_handle'' 2 1]"

definition update_window :: c_member where
  "update_window = Struct False
    [Plain ''update_win_resv2'' 1 21, Plain ''idpt_win_flags'' 1 1, Plain ''idpt_win_handle'' 2 1]"

definition transl_fetch_region :: c_member where
  "transl_fetch_region = Struct False
    [Plain ''transl_fetch_res'' 8 1, Plain ''region_stride'' 4 1]"

definition dix_generate :: c_member where
  "dix_generate = Struct False
    [Plain ''dix_gen_res'' 1 1, Plain ''dest_dif_flags'' 1 1, Plain ''dif_flags'' 1 1, Plain ''dix_gen_res2'' 1 13,
     Plain ''ref_tag_seed'' 4 1, Plain ''app_tag_mask'' 2 1, Plain ''app_tag_seed'' 2 1]"

definition hw_desc :: c_member where
  "hw_desc = Struct True
    [Bits ''pasid'' 4 20, Bits ''rsvd'' 4 11, Bits ''priv'' 4 1, Bits ''flags'' 4 24, Bits ''opcode'' 4 8,
     Plain ''completion_addr'' 8 1,
     Union [Plain ''src_addr'' 8 1, Plain ''rdback_addr'' 8 1, Plain ''pattern'' 8 1, Plain ''desc_list_addr'' 8 1,
       Plain ''win_base_addr'' 8 1, Plain ''transl_fetch_addr'' 8 1],
     Union [Plain ''dst_addr'' 8 1, Plain ''rdback_addr2'' 8 1, Plain ''src2_addr'' 8 1, Plain ''comp_pattern'' 8 1,
       Plain ''win_size'' 8 1],
     Union [Plain ''xfer_size'' 4 1, Plain ''desc_count'' 4 1, Plain ''region_size'' 4 1], Plain ''int_handle'' 2 1,
     Union [Plain ''rsvd1'' 2 1, Plain ''iax_compr_flags'' 2 1, Plain ''iax_decompr_flags'' 2 1, Plain ''iax_crc64_flags'' 2 1,
       Plain ''iax_cipher_flags'' 2 1],
     Union [Plain ''expected_res'' 1 1, delta_record, Plain ''delta_rec_size'' 4 1, Plain ''dest2'' 8 1, crc_seeds, dif_check,
       dif_insert, dif_update, iax_operands, crc64_operands, transl_fetch_operands, restricted_ipasid, unrestricted_ipasid,
       update_window, transl_fetch_region, dix_generate, Plain ''op_specific'' 1 24]]"

definition raw_desc :: c_member where
  "raw_desc = Struct True
    [Plain ''field'' 8 8]"

section \<open>Completion records\<close>

definition invalid_flags :: c_member where
  "invalid_flags = Struct False
    [Bits ''invalid_flags'' 4 24, Bits ''rsvd2'' 4 8]"

definition dif_check_result :: c_member where
  "dif_check_result = Struct False
    [Plain ''dif_chk_ref_tag'' 4 1, Plain ''dif_chk_app_tag_mask'' 2 1, Plain ''dif_chk_app_tag'' 2 1]"

definition dif_insert_result :: c_member where
  "dif_insert_result = Struct False
    [Plain ''dif_ins_res'' 8 1, Plain ''dif_ins_ref_tag'' 4 1, Plain ''dif_ins_app_tag_mask'' 2 1, Plain ''dif_ins_app_tag'' 2 1]"

definition dif_update_result :: c_member where
  "dif_update_result = Struct False
    [Plain ''dif_upd_src_ref_tag'' 4 1, Plain ''dif_upd_src_app_tag_mask'' 2 1, Plain ''dif_upd_src_app_tag'' 2 1,
     Plain ''dif_upd_dest_ref_tag'' 4 1, Plain ''dif_upd_dest_app_tag_mask'' 2 1, Plain ''dif_upd_dest_app_tag'' 2 1]"

definition dix_generate_result :: c_member where
  "dix_generate_result = Struct False
    [Plain ''dix_gen_res'' 8 1, Plain ''dix_ref_tag'' 4 1, Plain ''dix_app_tag_mask'' 2 1, Plain ''dix_app_tag'' 2 1]"

definition iax_result :: c_member where
  "iax_result = Struct False
    [Plain ''iax_invalid_flags'' 4 1, Plain ''iax_rsvd'' 4 1, Plain ''iax_output_size'' 4 1, Plain ''iax_output_bits'' 1 1,
     Plain ''iax_rsvd2'' 1 1, Plain ''iax_xor_chksum'' 2 1, Plain ''iax_crc'' 4 1,
     Union [Plain ''iax_min'' 4 1, Plain ''iax_first'' 4 1], Union [Plain ''iax_max'' 4 1, Plain ''iax_last'' 4 1],
     Union [Plain ''iax_sum'' 4 1, Plain ''iax_population_cnt'' 4 1]]"

definition crc64_result :: c_member where
  "crc64_result = Struct False
    [Plain ''crc64_invalid_flags'' 4 1, Plain ''crc64_rsvd'' 4 1, Plain ''crc64_rsvd2'' 8 1, Plain ''crc64_rsvd3'' 8 1,
     Plain ''crc64_result'' 8 1]"

definition completion_record :: c_member where
  "completion_record = Struct True
    [Plain ''status'' 1 1, Union [Plain ''result'' 1 1, Plain ''dif_status'' 1 1], Plain ''rsvd'' 2 1,
     Union [Plain ''bytes_completed'' 4 1, Plain ''descs_completed'' 4 1], Plain ''fault_addr'' 8 1,
     Union [invalid_flags, Plain ''delta_rec_size'' 4 1, Plain ''crc_val'' 4 1, dif_check_result, dif_insert_result, dif_update_result,
       dix_generate_result, iax_result, crc64_result, Plain ''op_specific'' 1 48]]"

definition raw_completion_record :: c_member where
  "raw_completion_record = Struct True
    [Plain ''field'' 8 8]"

section \<open>Windows\<close>

definition idxd_win_param :: c_member where
  "idxd_win_param = Struct True
    [Plain ''base'' 8 1, Plain ''size'' 8 1, Plain ''type'' 4 1, Plain ''flags'' 2 1, Plain ''handle'' 2 1]"

definition idxd_win_attach :: c_member where
  "idxd_win_attach = Struct True
    [Plain ''fd'' 4 1, Plain ''handle'' 2 1]"

definition idxd_win_fault :: c_member where
  "idxd_win_fault = Struct True
    [Plain ''offset'' 8 1, Plain ''len'' 8 1, Plain ''write_fault'' 4 1]"

section \<open>What the declarations give\<close>

text \<open>Every code is read back, and fits in the byte it is written to; the top bit of a status is the one that the device sets for a write.\<close>

lemma codes_read_back:
  "of_code dsa_opcodes (code_of dsa_opcodes a) = Some a" "of_code iax_opcodes (code_of iax_opcodes b) = Some b"
  "of_code dsa_completion_status_codes (code_of dsa_completion_status_codes c) = Some c"
  "of_code iax_completion_status_codes (code_of iax_completion_status_codes d) = Some d"
     apply (cases a; simp add: of_code_def code_of_def dsa_opcodes_def)
    apply (cases b; simp add: of_code_def code_of_def iax_opcodes_def)
   apply (cases c; simp add: of_code_def code_of_def dsa_completion_status_codes_def)
  by (cases d; simp add: of_code_def code_of_def iax_completion_status_codes_def)

lemma codes_fit:
  "list_all (\<lambda>(_, n). n < 2 ^ 8) dsa_opcodes" "list_all (\<lambda>(_, n). n < 2 ^ 8) iax_opcodes"
  "list_all (\<lambda>(_, n). n < 2 ^ 7) dsa_completion_status_codes" "list_all (\<lambda>(_, n). n < 2 ^ 7) iax_completion_status_codes"
  by (simp_all add: dsa_opcodes_def iax_opcodes_def dsa_completion_status_codes_def iax_completion_status_codes_def)

text \<open>The flags of a descriptor are different single bits of its 24, without bit 6.\<close>

lemma op_flags_bits: "map snd op_flags = map ((^) 2) ([0..<6] @ [7..<19])"
  by (simp add: op_flags_def upt_rec)

text \<open>The errors that the library has no text for, of those that the driver reports.\<close>

lemma driver_error_texts:
  "map fst (filter (\<lambda>(_, c). get_cmd_status_str c = Some (Some ''Unknown error'')) scmd_codes) =
     [''IDXD_SCMD_WQ_NO_PRIV'', ''IDXD_SCMD_WQ_IRQ_ERR'', ''IDXD_SCMD_WQ_NO_DRV_NAME'', ''IDXD_SCMD_DEV_EVL_ERR'']"
  by (simp add: scmd_codes_def get_cmd_status_str_def IDXD_SCMD_SOFTERR_MASK_def SCMD_STAT_def ACCFG_CMD_STATUS_MAX_def table_size_def table_get_def
      accfg_sw_cmd_status_def accfg_device_cmd_status_def)

text \<open>A descriptor and a record have 64 bytes, as their raw forms; what the operations have of their own fits in its place.\<close>

lemmas desc_parts = delta_record_def crc_seeds_def dif_check_def dif_insert_def dif_update_def iax_operands_def crc64_operands_def
  transl_fetch_operands_def restricted_ipasid_def unrestricted_ipasid_def update_window_def transl_fetch_region_def dix_generate_def
lemmas record_parts = invalid_flags_def dif_check_result_def dif_insert_result_def dif_update_result_def dix_generate_result_def
  iax_result_def crc64_result_def

lemma part_sizes:
  "map bits_of [delta_record, crc_seeds, dif_check, dif_insert, dif_update, iax_operands, crc64_operands, transl_fetch_operands,
     restricted_ipasid, unrestricted_ipasid, update_window, transl_fetch_region, dix_generate] =
   map ((*) 8) [24, 16, 16, 24, 24, 24, 24, 24, 24, 24, 24, 16, 24]"
  by (simp add: desc_parts place_def up_def)

lemma layout_sizes:
  "bits_of hw_desc = 8 * 64" "bits_of raw_desc = 8 * 64" "bits_of completion_record = 8 * 64" "bits_of raw_completion_record = 8 * 64"
  "bits_of idxd_win_param = 8 * 24" "bits_of idxd_win_attach = 8 * 6" "bits_of idxd_win_fault = 8 * 20"
  by (simp_all add: hw_desc_def desc_parts raw_desc_def completion_record_def record_parts raw_completion_record_def
      idxd_win_param_def idxd_win_attach_def idxd_win_fault_def place_def up_def)

lemma fields_inside:
  "list_all (\<lambda>(_, off, w). off + w \<le> 8 * 64) (fields_from 0 hw_desc)" "list_all (\<lambda>(_, off, w). off + w \<le> 8 * 64) (fields_from 0 completion_record)"
  by (simp_all add: hw_desc_def desc_parts completion_record_def record_parts place_def up_def)

lemma header_places:
  "take 6 (fields_from 0 hw_desc) =
     [(''pasid'', 0, 20), (''rsvd'', 20, 11), (''priv'', 31, 1), (''flags'', 32, 24), (''opcode'', 56, 8), (''completion_addr'', 64, 64)]"
  "last (fields_from 0 hw_desc) = (''op_specific'', 8 * 40, 8 * 24)" "last (fields_from 0 completion_record) = (''op_specific'', 8 * 16, 8 * 48)"
  by (simp_all add: hw_desc_def desc_parts completion_record_def record_parts place_def up_def)

end
