(* ===== verification/Ccan_List.thy ===== *)
theory Ccan_List
  imports Accfg_State
begin

text \<open>
  The circular doubly linked lists of \<open>src/ccan/list/list.h\<close> and \<open>list.c\<close>, on a store of nodes, and the
  proof that they implement the lists of pointers by which the library's model represents its devices,
  groups, work queues and engines.  An entry is identified with its embedded node (an offset of 0), and a
  head with the node in it; following a pointer that is not in the store is undefined.
\<close>

section \<open>Nodes\<close>

record list_node =
  n_next :: ptr
  n_prev :: ptr

type_synonym links = "ptr \<rightharpoonup> list_node"

definition set_next :: "ptr \<Rightarrow> ptr \<Rightarrow> links \<Rightarrow> links option" where
  "set_next p v s = (case s p of None \<Rightarrow> None | Some n \<Rightarrow> Some (s(p \<mapsto> n\<lparr>n_next := v\<rparr>)))"

definition set_prev :: "ptr \<Rightarrow> ptr \<Rightarrow> links \<Rightarrow> links option" where
  "set_prev p v s = (case s p of None \<Rightarrow> None | Some n \<Rightarrow> Some (s(p \<mapsto> n\<lparr>n_prev := v\<rparr>)))"

definition nx :: "links \<Rightarrow> ptr \<rightharpoonup> ptr" where "nx s p = map_option n_next (s p)"
definition pv :: "links \<Rightarrow> ptr \<rightharpoonup> ptr" where "pv s p = map_option n_prev (s p)"


section \<open>Operations\<close>

definition list_head_init :: "ptr \<Rightarrow> links \<Rightarrow> links option" where
  "list_head_init h s = do { s \<leftarrow> set_prev h h s; set_next h h s }"

definition list_add :: "ptr \<Rightarrow> ptr \<Rightarrow> links \<Rightarrow> links option" where
  "list_add h n s = do {
     f \<leftarrow> nx s h; s \<leftarrow> set_next n f s;
     s \<leftarrow> set_prev n h s;
     f \<leftarrow> nx s h; s \<leftarrow> set_prev f n s;
     set_next h n s
   }"

definition list_add_tail :: "ptr \<Rightarrow> ptr \<Rightarrow> links \<Rightarrow> links option" where
  "list_add_tail h n s = do {
     s \<leftarrow> set_next n h s;
     l \<leftarrow> pv s h; s \<leftarrow> set_prev n l s;
     l \<leftarrow> pv s h; s \<leftarrow> set_next l n s;
     set_prev h n s
   }"

definition list_empty :: "ptr \<Rightarrow> links \<Rightarrow> bool option" where
  "list_empty h s = do { f \<leftarrow> nx s h; Some (f = h) }"

definition list_del :: "ptr \<Rightarrow> links \<Rightarrow> links option" where
  "list_del n s = do {
     q \<leftarrow> nx s n; p \<leftarrow> pv s n; s \<leftarrow> set_prev q p s;
     p \<leftarrow> pv s n; q \<leftarrow> nx s n; set_next p q s
   }"

text \<open>A failed assertion ends the run.\<close>

definition list_del_from_head :: "ptr \<Rightarrow> ptr \<Rightarrow> links \<Rightarrow> links option" where
  "list_del_from_head h n s = do {
     e \<leftarrow> list_empty h s;
     if e then None else list_del n s
   }"

definition list_top_entry :: "ptr \<Rightarrow> links \<Rightarrow> ptr option" where
  "list_top_entry h s = do { e \<leftarrow> list_empty h s; if e then Some 0 else nx s h }"

definition list_pop :: "ptr \<Rightarrow> links \<Rightarrow> (ptr \<times> links) option" where
  "list_pop h s = do {
     e \<leftarrow> list_empty h s;
     if e then Some (0, s) else do { n \<leftarrow> nx s h; s \<leftarrow> list_del n s; Some (n, s) }
   }"

definition list_tail :: "ptr \<Rightarrow> links \<Rightarrow> ptr option" where
  "list_tail h s = do { e \<leftarrow> list_empty h s; if e then Some 0 else pv s h }"

definition list_entry_or_null :: "ptr \<Rightarrow> ptr \<Rightarrow> ptr" where
  "list_entry_or_null h n = (if n = h then 0 else n)"

definition list_next_entry :: "ptr \<Rightarrow> ptr \<Rightarrow> links \<Rightarrow> ptr option" where
  "list_next_entry h i s = map_option (list_entry_or_null h) (nx s i)"

definition list_prev_entry :: "ptr \<Rightarrow> ptr \<Rightarrow> links \<Rightarrow> ptr option" where
  "list_prev_entry h i s = map_option (list_entry_or_null h) (pv s i)"

definition list_append_list :: "ptr \<Rightarrow> ptr \<Rightarrow> links \<Rightarrow> links option" where
  "list_append_list t f s = do {
     from_tail \<leftarrow> pv s f;
     to_tail \<leftarrow> pv s t;
     s \<leftarrow> set_prev t from_tail s;
     s \<leftarrow> set_next from_tail t s;
     s \<leftarrow> set_next to_tail f s;
     s \<leftarrow> set_prev f to_tail s;
     s \<leftarrow> list_del f s;
     list_head_init f s
   }"

definition list_prepend_list :: "ptr \<Rightarrow> ptr \<Rightarrow> links \<Rightarrow> links option" where
  "list_prepend_list t f s = do {
     from_tail \<leftarrow> pv s f;
     to_head \<leftarrow> nx s t;
     s \<leftarrow> set_next t f s;
     s \<leftarrow> set_prev f t s;
     s \<leftarrow> set_prev to_head from_tail s;
     s \<leftarrow> set_next from_tail to_head s;
     s \<leftarrow> list_del f s;
     list_head_init f s
   }"

text \<open>
  \<open>list_check_node\<close>: the walk along \<open>next\<close> that checks every \<open>prev\<close>; a circle that does not come back to
  the node never ends, so the steps are counted by fuel.
\<close>

fun check_loop :: "nat \<Rightarrow> ptr \<Rightarrow> ptr \<Rightarrow> ptr \<Rightarrow> links \<Rightarrow> bool option" where
  "check_loop fuel node p n s =
     (if n = node then do { q \<leftarrow> pv s node; Some (q = p) }
      else case fuel of
        0 \<Rightarrow> None
      | Suc fuel \<Rightarrow> do {
          q \<leftarrow> pv s n;
          if q \<noteq> p then Some False else do { n' \<leftarrow> nx s n; check_loop fuel node n n' s }
        })"

declare check_loop.simps [simp del]

definition list_check_node :: "nat \<Rightarrow> ptr \<Rightarrow> links \<Rightarrow> bool option" where
  "list_check_node fuel node s = do { n \<leftarrow> nx s node; check_loop fuel node node n s }"

definition list_check :: "nat \<Rightarrow> ptr \<Rightarrow> links \<Rightarrow> ptr option" where
  "list_check fuel h s = do { ok \<leftarrow> list_check_node fuel h s; Some (if ok then h else 0) }"

text \<open>The nodes \<open>list_for_each\<close> visits.\<close>

fun list_for_each_from :: "nat \<Rightarrow> ptr \<Rightarrow> ptr \<Rightarrow> links \<Rightarrow> ptr list option" where
  "list_for_each_from fuel h i s =
     (if i = h then Some []
      else case fuel of
        0 \<Rightarrow> None
      | Suc fuel \<Rightarrow> do { j \<leftarrow> nx s i; is \<leftarrow> list_for_each_from fuel h j s; Some (i # is) })"

declare list_for_each_from.simps [simp del]

definition list_for_each :: "nat \<Rightarrow> ptr \<Rightarrow> links \<Rightarrow> ptr list option" where
  "list_for_each fuel h s = do { i \<leftarrow> nx s h; list_for_each_from fuel h i s }"


section \<open>What a write changes\<close>

text \<open>Every property of the store that is used is a property of its two maps.\<close>

lemma set_next_wp:
  assumes "p \<in> dom (pv s)" "\<And>s'. nx s' = (nx s)(p \<mapsto> v) \<Longrightarrow> pv s' = pv s \<Longrightarrow> Q s'"
  shows "wp (set_next p v s) Q"
proof -
  from assms(1) obtain nd where nd: "s p = Some nd" by (auto simp: pv_def)
  have "nx (s(p \<mapsto> nd\<lparr>n_next := v\<rparr>)) = (nx s)(p \<mapsto> v)" "pv (s(p \<mapsto> nd\<lparr>n_next := v\<rparr>)) = pv s"
    using nd by (simp_all add: nx_def pv_def fun_eq_iff)
  with nd assms(2) show ?thesis by (simp add: set_next_def)
qed

lemma set_prev_wp:
  assumes "p \<in> dom (pv s)" "\<And>s'. nx s' = nx s \<Longrightarrow> pv s' = (pv s)(p \<mapsto> v) \<Longrightarrow> Q s'"
  shows "wp (set_prev p v s) Q"
proof -
  from assms(1) obtain nd where nd: "s p = Some nd" by (auto simp: pv_def)
  have "pv (s(p \<mapsto> nd\<lparr>n_prev := v\<rparr>)) = (pv s)(p \<mapsto> v)" "nx (s(p \<mapsto> nd\<lparr>n_prev := v\<rparr>)) = nx s"
    using nd by (simp_all add: nx_def pv_def fun_eq_iff)
  with nd assms(2) show ?thesis by (simp add: set_prev_def)
qed

lemma nx_dom: "p \<in> dom (pv s) \<Longrightarrow> \<exists>q. nx s p = Some q"
  by (auto simp: nx_def pv_def)

lemma list_head_init_wp:
  assumes "h \<in> dom (pv s)"
  shows "wp (list_head_init h s) (\<lambda>s'. nx s' = (nx s)(h \<mapsto> h) \<and> pv s' = (pv s)(h \<mapsto> h))"
  using assms by (auto simp: list_head_init_def intro!: set_prev_wp set_next_wp)

lemma list_add_wp:
  assumes "nx s h = Some f" "{f, n, h} \<subseteq> dom (pv s)" "n \<noteq> h"
  shows "wp (list_add h n s) (\<lambda>s'. nx s' = (nx s)(n \<mapsto> f, h \<mapsto> n) \<and> pv s' = (pv s)(n \<mapsto> h, f \<mapsto> n))"
  using assms by (auto simp: list_add_def intro!: set_prev_wp set_next_wp)

lemma list_add_tail_wp:
  assumes "pv s h = Some l" "{l, n, h} \<subseteq> dom (pv s)" "n \<noteq> h"
  shows "wp (list_add_tail h n s) (\<lambda>s'. nx s' = (nx s)(n \<mapsto> h, l \<mapsto> n) \<and> pv s' = (pv s)(n \<mapsto> l, h \<mapsto> n))"
  using assms by (auto simp: list_add_tail_def intro!: set_prev_wp set_next_wp)

lemma list_del_wp:
  assumes "nx s n = Some q" "pv s n = Some p" "{p, q} \<subseteq> dom (pv s)" "q \<noteq> n"
  shows "wp (list_del n s) (\<lambda>s'. nx s' = (nx s)(p \<mapsto> q) \<and> pv s' = (pv s)(q \<mapsto> p))"
  using assms by (auto simp: list_del_def intro!: set_prev_wp set_next_wp)


section \<open>The abstraction\<close>

definition linked :: "links \<Rightarrow> ptr \<Rightarrow> ptr \<Rightarrow> bool" where
  "linked s x y \<longleftrightarrow> nx s x = Some y \<and> pv s y = Some x"

fun chain :: "links \<Rightarrow> ptr list \<Rightarrow> bool" where
  "chain s (x # y # zs) \<longleftrightarrow> linked s x y \<and> chain s (y # zs)"
| "chain s _ \<longleftrightarrow> True"

text \<open>The head \<open>h\<close> represents the list \<open>ns\<close>.\<close>

definition dll :: "links \<Rightarrow> ptr \<Rightarrow> ptr list \<Rightarrow> bool" where
  "dll s h ns \<longleftrightarrow> distinct (h # ns) \<and> 0 \<notin> set (h # ns) \<and> chain s (h # ns @ [h])"

lemma chain_append: "chain s (xs @ y # zs) \<longleftrightarrow> chain s (xs @ [y]) \<and> chain s (y # zs)"
  by (induction xs rule: chain.induct) (auto split: list.splits)

lemma chain_frame:
  assumes "\<forall>x \<in> set (butlast xs). nx s' x = nx s x" "\<forall>x \<in> set (tl xs). pv s' x = pv s x"
  shows "chain s' xs = chain s xs"
  using assms by (induction xs rule: chain.induct) (auto simp: linked_def split: if_splits)


lemma chain_dom: "chain s xs \<Longrightarrow> 2 \<le> length xs \<Longrightarrow> set xs \<subseteq> dom (pv s)"
proof (induction s xs rule: chain.induct)
  case (1 s x y zs)
  then show ?case by (cases zs) (auto simp: linked_def nx_def pv_def)
qed auto

lemma dll_dom: "dll s h ns \<Longrightarrow> set (h # ns) \<subseteq> dom (pv s)"
  using chain_dom [of s "h # ns @ [h]"] by (auto simp: dll_def)

text \<open>The list splits at any of its nodes; the last node before and the first after are its neighbours.\<close>

lemma chain_last: "chain s (xs @ [x, y]) \<longleftrightarrow> chain s (xs @ [x]) \<and> linked s x y"
  using chain_append [of s xs x "[y]"] by simp

lemma chain_appendD1: "chain s (xs @ ys) \<Longrightarrow> chain s xs"
  by (induction s xs rule: chain.induct) auto

lemma chain_appendD2: "chain s (xs @ ys) \<Longrightarrow> chain s ys"
proof (induction xs)
  case (Cons x xs)
  then show ?case by (cases "xs @ ys") auto
qed simp

lemma dll_chain: "dll s h ns \<Longrightarrow> chain s (h # ns)" "dll s h ns \<Longrightarrow> chain s (ns @ [h])"
  using chain_appendD1 [of s "h # ns" "[h]"] chain_appendD2 [of s "[h]" "ns @ [h]"] by (simp_all add: dll_def)

lemma dll_snoc:
  assumes "dll s h ns"
  shows "linked s (last (h # ns)) h"
proof (cases ns rule: rev_cases)
  case (snoc as l)
  then show ?thesis using assms chain_last [of s "h # as" l h] by (simp add: dll_def)
qed (use assms in \<open>simp add: dll_def\<close>)

lemma in_set_tlD: "x \<in> set (tl xs) \<Longrightarrow> x \<in> set xs"
  by (cases xs) auto

lemma chain_insert:
  assumes "chain s (xs @ p # q # ys)" "n \<notin> set (xs @ p # q # ys)"
    and "nx s' = (nx s)(n \<mapsto> q, p \<mapsto> n)" "pv s' = (pv s)(n \<mapsto> p, q \<mapsto> n)"
    and "p \<notin> set xs" "p \<notin> set (butlast (q # ys))" "q \<notin> set (tl (xs @ [p]))" "q \<notin> set ys"
  shows "chain s' (xs @ p # n # q # ys)"
proof -
  have old: "chain s (xs @ [p])" "chain s (q # ys)"
    using assms(1) chain_append [of s xs p "q # ys"] chain_append [of s "[p]" q ys] by simp_all
  have "chain s' (xs @ [p])"
    using old(1) assms by (subst chain_frame [of _ s' s]) (auto dest: in_set_butlastD in_set_tlD)
  moreover have "chain s' (q # ys)"
    using old(2) assms by (subst chain_frame [of _ s' s]) (auto dest: in_set_butlastD in_set_tlD)
  moreover have "linked s' p n" "linked s' n q" using assms(2-4) by (auto simp: linked_def)
  ultimately show ?thesis
    using chain_append [of s' xs p "n # q # ys"] by simp
qed

lemma chain_remove:
  assumes "chain s (xs @ p # n # q # ys)"
    and "nx s' = (nx s)(p \<mapsto> q)" "pv s' = (pv s)(q \<mapsto> p)"
    and "p \<notin> set xs" "p \<notin> set (butlast (q # ys))" "q \<notin> set (tl (xs @ [p]))" "q \<notin> set ys"
  shows "chain s' (xs @ p # q # ys)"
proof -
  have old: "chain s (xs @ [p])" "chain s (q # ys)"
    using assms(1) chain_append [of s xs p "n # q # ys"] chain_append [of s "[p, n]" q ys] by simp_all
  have "chain s' (xs @ [p])"
    using old(1) assms by (subst chain_frame [of _ s' s]) (auto dest: in_set_butlastD in_set_tlD)
  moreover have "chain s' (q # ys)"
    using old(2) assms by (subst chain_frame [of _ s' s]) (auto dest: in_set_butlastD in_set_tlD)
  moreover have "linked s' p q" using assms(2,3) by (auto simp: linked_def)
  ultimately show ?thesis
    using chain_append [of s' xs p "q # ys"] by simp
qed

text \<open>What an operation on some nodes leaves alone.\<close>

definition same_outside :: "ptr set \<Rightarrow> links \<Rightarrow> links \<Rightarrow> bool" where
  "same_outside A s s' \<longleftrightarrow> dom (pv s') = dom (pv s) \<and> (\<forall>x. x \<notin> A \<longrightarrow> nx s' x = nx s x \<and> pv s' x = pv s x)"

lemma dll_frame: "same_outside A s s' \<Longrightarrow> set (h # ns) \<inter> A = {} \<Longrightarrow> dll s h ns \<Longrightarrow> dll s' h ns"
  unfolding dll_def by (subst chain_frame [of _ s' s]) (auto simp: same_outside_def dest!: in_set_butlastD)

lemma dll_init:
  assumes "h \<in> dom (pv s)" "h \<noteq> 0"
  shows "wp (list_head_init h s) (\<lambda>s'. dll s' h [] \<and> same_outside {h} s s')"
  by (rule wp_mono [OF list_head_init_wp [OF assms(1)]])
    (use assms in \<open>auto simp: dll_def linked_def same_outside_def\<close>)

lemma dll_add:
  assumes "dll s h ns" "n \<notin> set (h # ns)" "n \<in> dom (pv s)" "n \<noteq> 0"
  shows "wp (list_add h n s) (\<lambda>s'. dll s' h (n # ns) \<and> same_outside (set (h # n # ns)) s s')"
proof -
  obtain f r where f: "ns @ [h] = f # r" by (cases "ns @ [h]") auto
  then have fr: "linked s h f" "f \<in> set (h # ns)" using assms(1) by (cases ns; auto simp: dll_def)+
  have "f \<notin> set r" "h \<notin> set (butlast (f # r))" using f assms(1) by (cases ns; auto simp: dll_def)+
  note ins = chain_insert [of s "[]" h f r n, simplified]
  show ?thesis
  proof (rule wp_mono [OF list_add_wp])
    show "nx s h = Some f" "{f, n, h} \<subseteq> dom (pv s)" "n \<noteq> h"
      using fr dll_dom [OF assms(1)] assms(2,3) by (auto simp: linked_def)
  next
    fix s' assume s': "nx s' = (nx s)(n \<mapsto> f, h \<mapsto> n) \<and> pv s' = (pv s)(n \<mapsto> h, f \<mapsto> n)"
    have "chain s (h # f # r)" using assms(1) f by (simp add: dll_def)
    moreover have "n \<notin> set (ns @ [h])" using assms(2) by auto
    then have "n \<notin> set (h # f # r)" using assms(2) unfolding f by simp
    moreover have "h \<notin> set (butlast (f # r))" by fact
    ultimately have "chain s' (h # n # f # r)"
      using ins [of s'] s' \<open>f \<notin> set r\<close> by simp
    then have "chain s' (h # (n # ns) @ [h])" using f by simp
    then show "dll s' h (n # ns) \<and> same_outside (set (h # n # ns)) s s'"
      using s' fr(2) assms dll_dom [OF assms(1)] unfolding dll_def same_outside_def by auto
  qed
qed

lemma dll_add_tail:
  assumes "dll s h ns" "n \<notin> set (h # ns)" "n \<in> dom (pv s)" "n \<noteq> 0"
  shows "wp (list_add_tail h n s) (\<lambda>s'. dll s' h (ns @ [n]) \<and> same_outside (set (h # n # ns)) s s')"
proof -
  obtain xs l where l: "h # ns = xs @ [l]" by (cases "h # ns" rule: rev_cases) auto
  then have ll: "linked s l h" "l \<in> set (h # ns)" using dll_snoc [OF assms(1)] by auto
  have cyc: "h # ns @ [h] = xs @ [l, h]" using l by (metis append.assoc append_Cons append_Nil)
  have "l \<notin> set xs" using l assms(1) by (metis distinct_append dll_def list.set_intros(1) disjoint_iff)
  have "h \<notin> set (tl (xs @ [l]))" using assms(1) by (simp add: dll_def flip: l)
  show ?thesis
  proof (rule wp_mono [OF list_add_tail_wp])
    show "pv s h = Some l" "{l, n, h} \<subseteq> dom (pv s)" "n \<noteq> h"
      using ll dll_dom [OF assms(1)] assms(2,3) by (auto simp: linked_def)
  next
    fix s' assume s': "nx s' = (nx s)(n \<mapsto> h, l \<mapsto> n) \<and> pv s' = (pv s)(n \<mapsto> l, h \<mapsto> n)"
    have "chain s (xs @ [l, h])" using assms(1) unfolding dll_def cyc by simp
    moreover have "n \<notin> set (xs @ [l, h])" using assms(2) by (simp flip: cyc)
    ultimately have "chain s' (xs @ [l, n, h])"
      using chain_insert [of s xs l h "[]" n s'] s' \<open>l \<notin> set xs\<close> \<open>h \<notin> set (tl (xs @ [l]))\<close> by simp
    moreover have "xs @ [l, n, h] = h # (ns @ [n]) @ [h]" using l by (metis append.assoc append_Cons append_Nil)
    ultimately show "dll s' h (ns @ [n]) \<and> same_outside (set (h # n # ns)) s s'"
      using s' ll assms dll_dom [OF assms(1)] by (auto simp: dll_def same_outside_def)
  qed
qed

text \<open>The node before and the node after, on the circle.\<close>

lemma snoc_of: obtains xs p where "h # as = xs @ [p]"
  by (cases "h # as" rule: rev_cases) auto

lemma cons_of: obtains q ys where "bs @ [h] = q # ys"
  by (cases "bs @ [h]") auto

lemma distinct_cycle: "distinct (h # ns) \<Longrightarrow> h # ns @ [h] = xs @ zs \<Longrightarrow> xs \<noteq> [] \<Longrightarrow> zs \<noteq> [] \<Longrightarrow>
    distinct xs \<and> distinct zs"
  by (cases xs; cases zs rule: rev_cases) auto

lemma dll_del:
  assumes "dll s h (as @ n # bs)"
  shows "wp (list_del n s) (\<lambda>s'. dll s' h (as @ bs) \<and> same_outside (set (h # as @ bs)) s s')"
proof -
  obtain xs p where p: "h # as = xs @ [p]" using snoc_of .
  obtain q ys where q: "bs @ [h] = q # ys" using cons_of .
  have "h # (as @ n # bs) @ [h] = (h # as) @ n # (bs @ [h])" "h # (as @ bs) @ [h] = (h # as) @ (bs @ [h])" by simp_all
  then have cyc: "h # (as @ n # bs) @ [h] = xs @ p # n # q # ys" "h # (as @ bs) @ [h] = xs @ p # q # ys"
    unfolding p q by simp_all
  have ch: "chain s (xs @ p # n # q # ys)" using assms unfolding dll_def cyc by simp
  have set: "p \<in> set (h # as)" "q \<in> set (bs @ [h])" unfolding p q by simp_all
  have d: "distinct (h # as @ n # bs)" "0 \<notin> set (h # as @ n # bs)" using assms by (simp_all add: dll_def)
  then have "distinct (xs @ [p])" "distinct (q # ys)" unfolding p [symmetric] q [symmetric] by auto
  moreover have "p \<notin> set (butlast (q # ys))" "q \<notin> set (tl (xs @ [p]))" unfolding q [symmetric] p [symmetric] using d set by auto
  ultimately have fresh: "p \<notin> set xs" "p \<notin> set (butlast (q # ys))" "q \<notin> set (tl (xs @ [p]))" "q \<notin> set ys" by auto
  have nb: "linked s p n" "linked s n q"
    using ch chain_append [of s xs p "n # q # ys"] by simp_all
  show ?thesis
  proof (rule wp_mono [OF list_del_wp])
    show "nx s n = Some q" "pv s n = Some p" "{p, q} \<subseteq> dom (pv s)" "q \<noteq> n"
      using nb dll_dom [OF assms] set d by (auto simp: linked_def)
  next
    fix s' assume s': "nx s' = (nx s)(p \<mapsto> q) \<and> pv s' = (pv s)(q \<mapsto> p)"
    then have "chain s' (h # (as @ bs) @ [h])" unfolding cyc using chain_remove [OF ch _ _ fresh] by simp
    then show "dll s' h (as @ bs) \<and> same_outside (set (h # as @ bs)) s s'"
      using s' set d dll_dom [OF assms] by (auto simp: dll_def same_outside_def)
  qed
qed

lemma chain_join: "chain s (xs @ [a]) \<Longrightarrow> linked s a b \<Longrightarrow> chain s (b # ys) \<Longrightarrow> chain s (xs @ a # b # ys)"
  using chain_append [of s xs a "b # ys"] by simp

lemma dll_empty: "dll s h ns \<Longrightarrow> list_empty h s = Some (ns = [])"
  by (cases ns) (auto simp: dll_def list_empty_def linked_def)

lemma dll_top: "dll s h ns \<Longrightarrow> list_top_entry h s = Some (list_top ns)"
  by (cases ns) (auto simp: dll_def list_empty_def list_top_entry_def linked_def list_top_def)

lemma dll_tail: "dll s h ns \<Longrightarrow> list_tail h s = Some (if ns = [] then 0 else last ns)"
  using dll_snoc [of s h ns] dll_empty [of s h ns] by (auto simp: list_tail_def linked_def)

lemma dll_next: "dll s h ns \<Longrightarrow> i \<in> set ns \<Longrightarrow> list_next_entry h i s = list_next ns i"
proof -
  assume a: "dll s h ns" "i \<in> set ns"
  then obtain as bs where ns: "ns = as @ i # bs" "i \<notin> set as" using split_list_first by fastforce
  obtain q ys where q: "bs @ [h] = q # ys" using cons_of .
  have "chain s ((h # as) @ i # q # ys)" using a(1) q by (simp add: dll_def ns)
  then have "nx s i = Some q" using chain_append [of s "h # as" i "q # ys"] by (simp add: linked_def)
  moreover have "list_next (as @ i # bs) i = Some (list_top bs)" using ns(2) by (induction as) auto
  moreover have "list_entry_or_null h q = list_top bs"
    using q a(1) by (cases bs) (auto simp: list_entry_or_null_def list_top_def dll_def ns)
  ultimately show ?thesis by (simp add: list_next_entry_def ns)
qed

lemma dll_for_each_from:
  assumes "chain s (i # is @ [h])" "h \<notin> set (i # is)"
  shows "list_for_each_from (Suc (length is)) h i s = Some (i # is)"
  using assms
proof (induction "is" arbitrary: i)
  case Nil
  then show ?case by (simp add: list_for_each_from.simps linked_def)
next
  case (Cons j js)
  then have "list_for_each_from (Suc (length js)) h j s = Some (j # js)" "nx s i = Some j" by (simp_all add: linked_def)
  with Cons.prems(2) show ?case by (simp add: list_for_each_from.simps [of "Suc (Suc (length js))"])
qed

lemma dll_for_each:
  assumes "dll s h ns"
  shows "list_for_each (length ns) h s = Some ns"
proof (cases ns)
  case Nil
  then show ?thesis using assms by (simp add: dll_def list_for_each_def linked_def list_for_each_from.simps)
next
  case (Cons i "is")
  with assms dll_for_each_from [of s i "is" h] show ?thesis by (simp add: dll_def list_for_each_def linked_def)
qed


section \<open>Joining two lists\<close>

lemma linked_frame: "linked s x y \<Longrightarrow> nx s' x = nx s x \<Longrightarrow> pv s' y = pv s y \<Longrightarrow> linked s' x y"
  by (simp add: linked_def)

text \<open>After the four writes that sew two circles together the head \<open>f\<close> is a node of the circle of \<open>t\<close>; it is
  then unlinked and made an empty list.\<close>

lemma dll_unsew:
  assumes "dll s t (as @ f # bs)"
  shows "wp (do { s \<leftarrow> list_del f s; list_head_init f s }) (\<lambda>s'. dll s' t (as @ bs) \<and> dll s' f [] \<and>
     same_outside (set (t # as @ f # bs)) s s')"
proof -
  have f: "f \<in> dom (pv s)" "f \<noteq> 0" "f \<notin> set (t # as @ bs)" using dll_dom [OF assms] assms by (auto simp: dll_def)
  from dll_del [OF assms] obtain s1 where s1: "list_del f s = Some s1" "dll s1 t (as @ bs)" "same_outside (set (t # as @ bs)) s s1"
    by (auto simp: wp_iff)
  then have "f \<in> dom (pv s1)" using f(1) by (simp add: same_outside_def)
  from dll_init [OF this f(2)] obtain s2 where s2: "list_head_init f s1 = Some s2" "dll s2 f []" "same_outside {f} s1 s2"
    by (auto simp: wp_iff)
  have "dll s2 t (as @ bs)" using dll_frame [OF s2(3) _ s1(2)] f(3) by simp
  moreover have "same_outside (set (t # as @ f # bs)) s s2" using s1(3) s2(3) unfolding same_outside_def by auto
  ultimately show ?thesis using s1(1) s2(1,2) by simp
qed

lemma same_outside_trans: "same_outside A s s' \<Longrightarrow> same_outside B s' s'' \<Longrightarrow> A \<subseteq> B \<Longrightarrow> same_outside B s s''"
  by (auto simp: same_outside_def)

lemma dll_part:
  assumes "dll s h ns" "h # ns = xs @ [l]" "\<And>x. x \<in> set xs \<Longrightarrow> nx s' x = nx s x" "\<And>x. x \<in> set ns \<Longrightarrow> pv s' x = pv s x"
  shows "chain s' (h # ns)"
proof -
  have "butlast (h # ns) = xs" using assms(2) by (metis butlast_snoc)
  then have "chain s' (h # ns) = chain s (h # ns)" using assms(3,4) by (intro chain_frame) auto
  with dll_chain(1) [OF assms(1)] show ?thesis by simp
qed

lemma dll_append:
  assumes t: "dll s t ts" and f: "dll s f fs" and disj: "set (t # ts) \<inter> set (f # fs) = {}"
  shows "wp (list_append_list t f s) (\<lambda>s'. dll s' t (ts @ fs) \<and> dll s' f [] \<and> same_outside (set (t # ts @ f # fs)) s s')"
proof -
  obtain xs a where a: "t # ts = xs @ [a]" using snoc_of .
  obtain ys b where b: "f # fs = ys @ [b]" using snoc_of .
  have "a = last (t # ts)" "b = last (f # fs)" unfolding a b by simp_all
  then have la: "linked s a t" "linked s b f" using dll_snoc [OF t] dll_snoc [OF f] by simp_all
  have mem: "a \<in> set (t # ts)" "b \<in> set (f # fs)" unfolding a b by simp_all
  have dom: "{a, b, t, f} \<subseteq> dom (pv s)" using dll_dom [OF t] dll_dom [OF f] mem by auto
  have dist: "distinct (t # ts)" "distinct (f # fs)" using t f by (simp_all add: dll_def)
  have sewn: "dll s1 t (ts @ f # fs) \<and> same_outside (set (t # ts @ f # fs)) s s1"
    if s1: "nx s1 = (nx s)(b \<mapsto> t, a \<mapsto> f)" "pv s1 = (pv s)(t \<mapsto> b, f \<mapsto> a)" for s1
  proof -
    have "set xs \<subseteq> set (t # ts)" "set ys \<subseteq> set (f # fs)" "a \<notin> set xs" "b \<notin> set ys"
      using dist unfolding a b by auto
    then have "chain s1 (t # ts)" "chain s1 (f # fs)"
      using disj dist mem s1 by (intro dll_part [OF t a] dll_part [OF f b]; auto)+
    moreover have "linked s1 a f" "linked s1 b t" using s1 mem disj by (auto simp: linked_def)
    moreover have fl: "f # fs @ [t] = ys @ [b, t]" using b by (metis append.assoc append_Cons append_Nil)
    ultimately have "chain s1 (f # fs @ [t])" unfolding fl using chain_last [of s1 ys b t] b by simp
    moreover have "chain s1 (xs @ [a])" using \<open>chain s1 (t # ts)\<close> unfolding a .
    ultimately have "chain s1 (xs @ a # f # fs @ [t])" using \<open>linked s1 a f\<close> by (intro chain_join)
    moreover have "t # (ts @ f # fs) @ [t] = (t # ts) @ f # fs @ [t]" by simp
    then have tl: "t # (ts @ f # fs) @ [t] = xs @ a # f # fs @ [t]" unfolding a by simp
    ultimately have "chain s1 (t # (ts @ f # fs) @ [t])" unfolding tl by simp
    then show ?thesis using t f disj dom s1 mem unfolding dll_def same_outside_def by auto
  qed
  have unsew: "wp (do { s \<leftarrow> list_del f s1; list_head_init f s })
      (\<lambda>s'. dll s' t (ts @ fs) \<and> dll s' f [] \<and> same_outside (set (t # ts @ f # fs)) s s')"
    if "nx s1 = (nx s)(b \<mapsto> t, a \<mapsto> f)" "pv s1 = (pv s)(t \<mapsto> b, f \<mapsto> a)" for s1
    using sewn [OF that] by (intro wp_mono [OF dll_unsew]) (auto intro: same_outside_trans)
  show ?thesis
    using la dom unsew unfolding list_append_list_def linked_def
    by (auto intro!: set_prev_wp set_next_wp)
qed

lemma dll_prepend:
  assumes t: "dll s t ts" and f: "dll s f fs" and disj: "set (t # ts) \<inter> set (f # fs) = {}"
  shows "wp (list_prepend_list t f s) (\<lambda>s'. dll s' t (fs @ ts) \<and> dll s' f [] \<and> same_outside (set (t # f # fs @ ts)) s s')"
proof -
  obtain c r where c: "ts @ [t] = c # r" using cons_of .
  obtain ys b where b: "f # fs = ys @ [b]" using snoc_of .
  have "b = last (f # fs)" unfolding b by simp
  then have la: "linked s b f" "linked s t c"
    using dll_snoc [OF f] t c chain_append [of s "[t]" c r] by (simp_all add: dll_def)
  have mem: "c \<in> set (t # ts)" "b \<in> set (f # fs)" using c unfolding b by (cases ts; auto)+
  have dom: "{c, b, t, f} \<subseteq> dom (pv s)" using dll_dom [OF t] dll_dom [OF f] mem by auto
  have dist: "distinct (ts @ [t])" "distinct (f # fs)" using t f by (simp_all add: dll_def)
  have sewn: "dll s1 t ([] @ f # fs @ ts) \<and> same_outside (set (t # f # fs @ ts)) s s1"
    if s1: "nx s1 = (nx s)(t \<mapsto> f, b \<mapsto> c)" "pv s1 = (pv s)(f \<mapsto> t, c \<mapsto> b)" for s1
  proof -
    have "set ys \<subseteq> set (f # fs)" "b \<notin> set ys" using dist(2) unfolding b by auto
    then have "chain s1 (f # fs)"
      using disj dist mem s1 by (intro dll_part [OF f b]) auto
    moreover have "chain s1 (ts @ [t]) = chain s (ts @ [t])"
    proof (rule chain_frame)
      show "\<forall>x \<in> set (butlast (ts @ [t])). nx s1 x = nx s x" using s1 disj dist mem by auto
      have "set (c # r) = set (t # ts)" "c \<notin> set r" using dist(1) unfolding c [symmetric] by (auto, simp add: c)
      then show "\<forall>x \<in> set (tl (ts @ [t])). pv s1 x = pv s x" using s1 disj unfolding c by auto
    qed
    then have "chain s1 (c # r)" using dll_chain(2) [OF t] unfolding c by simp
    moreover have "linked s1 t f" "linked s1 b c" using s1 mem disj by (auto simp: linked_def)
    ultimately have "chain s1 ([t] @ ys @ b # c # r)"
      using chain_join [of s1 ys b c r] unfolding b [symmetric]
      by (cases ys) (use b in auto)
    moreover have "t # ([] @ f # fs @ ts) @ [t] = [t] @ (f # fs) @ ts @ [t]" by simp
    then have tl: "t # ([] @ f # fs @ ts) @ [t] = [t] @ ys @ b # c # r" unfolding b c by simp
    ultimately have "chain s1 (t # ([] @ f # fs @ ts) @ [t])" unfolding tl by simp
    then show ?thesis using t f disj dom s1 mem unfolding dll_def same_outside_def by auto
  qed
  have unsew: "wp (do { s \<leftarrow> list_del f s1; list_head_init f s })
      (\<lambda>s'. dll s' t (fs @ ts) \<and> dll s' f [] \<and> same_outside (set (t # f # fs @ ts)) s s')"
    if "nx s1 = (nx s)(t \<mapsto> f, b \<mapsto> c)" "pv s1 = (pv s)(f \<mapsto> t, c \<mapsto> b)" for s1
    using sewn [OF that] by (intro wp_mono [OF dll_unsew [of s1 t "[]"]]) (auto intro: same_outside_trans)
  show ?thesis
    using la dom unsew unfolding list_prepend_list_def linked_def
    by (auto intro!: set_prev_wp set_next_wp)
qed


section \<open>The consistency check\<close>

lemma check_loop_chain:
  assumes "chain s (p # ns @ [node])" "node \<notin> set ns"
  shows "check_loop (length ns) node p (hd (ns @ [node])) s = Some True"
  using assms
proof (induction ns arbitrary: p)
  case Nil
  then show ?case by (simp add: check_loop.simps linked_def)
next
  case (Cons n ns)
  then have n: "linked s p n" "n \<noteq> node" "chain s (n # ns @ [node])" by simp_all
  then have "nx s n = Some (hd (ns @ [node]))" by (cases ns) (auto simp: linked_def)
  with Cons.IH [of n] Cons.prems(2) n show ?case by (simp add: check_loop.simps [of "Suc (length ns)"] linked_def)
qed

lemma dll_check: "dll s h ns \<Longrightarrow> list_check (length ns) h s = Some h"
proof -
  assume d: "dll s h ns"
  then have "nx s h = Some (hd (ns @ [h]))" by (cases ns) (auto simp: dll_def linked_def)
  moreover have "check_loop (length ns) h h (hd (ns @ [h])) s = Some True"
    using d by (intro check_loop_chain) (auto simp: dll_def)
  ultimately show ?thesis by (simp add: list_check_def list_check_node_def)
qed

text \<open>An accepting walk passes through the nodes of a chain that ends at the node it started from.\<close>

lemma check_loop_accepts:
  assumes "check_loop fuel node p n s = Some True" "nx s p = Some n"
  shows "\<exists>ns. chain s (p # ns @ [node]) \<and> node \<notin> set ns \<and> hd (ns @ [node]) = n"
  using assms
proof (induction fuel arbitrary: p n)
  case 0
  then have "n = node" "linked s p node" by (auto simp: check_loop.simps linked_def bind_Some_iff split: if_splits)
  then show ?case by (intro exI [of _ "[]"]) simp
next
  case (Suc fuel)
  show ?case
  proof (cases "n = node")
    case True
    with Suc.prems have "linked s p node" by (auto simp: check_loop.simps linked_def bind_Some_iff)
    with True show ?thesis by (intro exI [of _ "[]"]) simp
  next
    case False
    with Suc.prems(1) obtain n' where n': "pv s n = Some p" "nx s n = Some n'" "check_loop fuel node n n' s = Some True"
      by (auto simp: check_loop.simps [of "Suc fuel"] bind_Some_iff split: if_splits)
    from Suc.IH [OF n'(3,2)] obtain ns where "chain s (n # ns @ [node])" "node \<notin> set ns" by blast
    with False n'(1) Suc.prems(2) show ?thesis by (intro exI [of _ "n # ns"]) (auto simp: linked_def)
  qed
qed

text \<open>On a chain whose first node does not come again every node comes once: a node that came twice would
  have the same predecessor twice, back to the first.\<close>

lemma chain_distinct: "chain s (h # ns) \<Longrightarrow> h \<notin> set ns \<Longrightarrow> distinct (h # ns)"
proof (induction ns rule: rev_induct)
  case (snoc x xs)
  have d: "distinct (h # xs)" using snoc chain_appendD1 [of s "h # xs" "[x]"] by simp
  have "x \<notin> set xs"
  proof
    assume "x \<in> set xs"
    then obtain as bs where xs: "xs = as @ x # bs" by (auto dest: split_list)
    obtain us u where u: "h # as = us @ [u]" using snoc_of .
    obtain vs v where v: "x # bs = vs @ [v]" using snoc_of .
    have ch: "chain s ((h # as) @ (x # bs) @ [x])" using snoc.prems(1) by (simp add: xs)
    then have "chain s ((us @ [u, x]) @ bs @ [x])" unfolding u by simp
    then have "linked s u x" using chain_appendD1 [of s "us @ [u, x]"] chain_last [of s us u x] by blast
    from ch have "chain s (((h # as) @ vs) @ [v, x])" unfolding v by simp
    then have "linked s v x" using chain_appendD2 [of s "(h # as) @ vs" "[v, x]"] by simp
    with \<open>linked s u x\<close> have "u = v" by (simp add: linked_def)
    moreover have "u \<in> set (h # as)" "v \<in> set (x # bs)" unfolding u v by simp_all
    ultimately show False using d by (auto simp: xs)
  qed
  with d snoc.prems(2) show ?case by auto
qed simp

lemma list_check_dll:
  assumes "list_check fuel h s = Some h" "h \<noteq> 0" "nx s 0 = None"
  shows "\<exists>ns. dll s h ns"
proof -
  from assms(1,2) obtain n where n: "nx s h = Some n" "check_loop fuel h h n s = Some True"
    by (auto simp: list_check_def list_check_node_def bind_Some_iff split: if_splits)
  from check_loop_accepts [OF n(2,1)] obtain ns where ns: "chain s (h # ns @ [h])" "h \<notin> set ns" by blast
  have d: "distinct (h # ns)" using chain_distinct [of s h ns] chain_appendD1 [of s "h # ns" "[h]"] ns by simp
  have "set (h # ns) \<subseteq> dom (pv s)" using chain_dom [OF ns(1)] by auto
  moreover have "0 \<notin> dom (pv s)" using assms(3) nx_dom [of 0 s] by auto
  ultimately have "0 \<notin> set (h # ns)" by auto
  with d show ?thesis using ns(1) unfolding dll_def by blast
qed


section \<open>The interface of a list of children\<close>

text \<open>
  What the library's code relies on: a head represents a list of pointers; adding at the tail, removing,
  the first element and the element after one behave on it as the functions of the object model do.
\<close>

fun add_all :: "(ptr \<Rightarrow> ptr \<Rightarrow> 's \<Rightarrow> 's option) \<Rightarrow> ptr \<Rightarrow> ptr list \<Rightarrow> 's \<Rightarrow> 's option" where
  "add_all add h [] s = Some s"
| "add_all add h (n # ns) s = do { s \<leftarrow> add h n s; add_all add h ns s }"

fun remove_all :: "(ptr \<Rightarrow> ptr \<Rightarrow> 's \<Rightarrow> 's option) \<Rightarrow> ptr \<Rightarrow> ptr list \<Rightarrow> 's \<Rightarrow> 's option" where
  "remove_all del h [] s = Some s"
| "remove_all del h (n # ns) s = do { s \<leftarrow> del h n s; remove_all del h ns s }"

locale child_store =
  fixes repr :: "'s \<Rightarrow> ptr \<Rightarrow> ptr list \<Rightarrow> bool"
    and addable :: "'s \<Rightarrow> ptr \<Rightarrow> bool"
    and add :: "ptr \<Rightarrow> ptr \<Rightarrow> 's \<Rightarrow> 's option"
    and del :: "ptr \<Rightarrow> ptr \<Rightarrow> 's \<Rightarrow> 's option"
    and top :: "ptr \<Rightarrow> 's \<Rightarrow> ptr option"
    and after :: "ptr \<Rightarrow> ptr \<Rightarrow> 's \<Rightarrow> ptr option"
  assumes add_repr: "repr s h ns \<Longrightarrow> n \<notin> set (h # ns) \<Longrightarrow> addable s n \<Longrightarrow>
      wp (add h n s) (\<lambda>s'. repr s' h (ns @ [n]) \<and> (\<forall>m. addable s m \<longrightarrow> addable s' m))"
    and del_repr: "repr s h ns \<Longrightarrow> n \<in> set ns \<Longrightarrow>
      wp (del h n s) (\<lambda>s'. \<exists>ns'. list_del_from ns n = Some ns' \<and> repr s' h ns')"
    and top_repr: "repr s h ns \<Longrightarrow> top h s = Some (list_top ns)"
    and after_repr: "repr s h ns \<Longrightarrow> n \<in> set ns \<Longrightarrow> after h n s = list_next ns n"
    and repr_distinct: "repr s h ns \<Longrightarrow> distinct (h # ns)"
begin

lemma add_all_repr:
  assumes "repr s h ns" "distinct ms" "set ms \<inter> set (h # ns) = {}" "\<forall>m \<in> set ms. addable s m"
  shows "wp (add_all add h ms s) (\<lambda>s'. repr s' h (ns @ ms))"
  using assms
proof (induction ms arbitrary: s ns)
  case (Cons m ms)
  from add_repr [OF Cons.prems(1), of m] Cons.prems obtain s1 where
    s1: "add h m s = Some s1" "repr s1 h (ns @ [m])" "\<forall>m. addable s m \<longrightarrow> addable s1 m" by (auto simp: wp_iff)
  with Cons.IH [OF s1(2)] Cons.prems show ?case by simp
qed simp

text \<open>The release of a parent: every child is removed, in the order of the list, and the list is empty.\<close>

lemma remove_all_repr:
  assumes "repr s h ns"
  shows "wp (remove_all del h ns s) (\<lambda>s'. repr s' h [])"
  using assms
proof (induction ns arbitrary: s)
  case (Cons n ns)
  from del_repr [OF Cons.prems, of n] obtain s1 where "del h n s = Some s1" "repr s1 h ns"
    by (auto simp: wp_iff list_del_from_def)
  with Cons.IH show ?case by simp
qed simp

text \<open>The loop over the children visits them in order.\<close>

lemma for_each_repr:
  assumes "repr s h (pre @ i # is)"
  shows "after h i s = Some (list_top is)"
proof -
  have "i \<notin> set pre" using repr_distinct [OF assms] by auto
  then have "list_next (pre @ i # is) i = Some (list_top is)" by (induction pre) auto
  then show ?thesis using after_repr [OF assms, of i] by simp
qed

end

text \<open>The linked nodes provide the interface.\<close>

lemma dll_del_from:
  assumes "dll s h ns" "i \<in> set ns"
  shows "wp (list_del_from_head h i s) (\<lambda>s'. \<exists>ns'. list_del_from ns i = Some ns' \<and> dll s' h ns')"
proof -
  obtain as bs where ns: "ns = as @ i # bs" "i \<notin> set as" using split_list_first [OF assms(2)] by blast
  then have "remove1 i ns = as @ bs" by (simp add: remove1_append)
  with dll_del [of s h as i bs] assms dll_empty [OF assms(1)] show ?thesis
    by (auto simp: list_del_from_head_def list_del_from_def ns(1) elim!: wp_mono)
qed

interpretation nodes: child_store dll "\<lambda>s n. n \<noteq> 0 \<and> n \<in> dom (pv s)" list_add_tail list_del_from_head list_top_entry list_next_entry
proof
  fix s h ns n
  assume d: "dll s h ns"
  show "n \<notin> set (h # ns) \<Longrightarrow> n \<noteq> 0 \<and> n \<in> dom (pv s) \<Longrightarrow>
      wp (list_add_tail h n s) (\<lambda>s'. dll s' h (ns @ [n]) \<and> (\<forall>m. m \<noteq> 0 \<and> m \<in> dom (pv s) \<longrightarrow> m \<noteq> 0 \<and> m \<in> dom (pv s')))"
    by (rule wp_mono [OF dll_add_tail [OF d]]) (auto simp: same_outside_def)
  show "n \<in> set ns \<Longrightarrow> wp (list_del_from_head h n s) (\<lambda>s'. \<exists>ns'. list_del_from ns n = Some ns' \<and> dll s' h ns')"
    by (rule dll_del_from [OF d])
  show "list_top_entry h s = Some (list_top ns)" by (rule dll_top [OF d])
  show "n \<in> set ns \<Longrightarrow> list_next_entry h n s = list_next ns n" by (rule dll_next [OF d])
  show "distinct (h # ns)" using d by (simp add: dll_def)
qed



section \<open>Properties\<close>

text \<open>
  C10: the linked lists implement the lists of pointers of the object model: on a head that represents \<open>ns\<close>, the empty list
  included, the test for emptiness, the first and the last node (the null pointer when there is none), the walk over all nodes,
  and adding a node at either end are defined, answer what the list says and leave a head that represents the new list; so do
  the step to the next node and the removal of a node for every node of the list.
\<close>

theorem ccan_list_refines:
  assumes "dll s h ns" "n \<notin> set (h # ns)" "n \<noteq> 0" "n \<in> dom s"
  shows "list_empty h s = Some (ns = []) \<and> list_top_entry h s = Some (list_top ns) \<and>
     list_tail h s = Some (if ns = [] then 0 else last ns) \<and> list_for_each (length ns) h s = Some ns \<and>
     wp (list_add h n s) (\<lambda>s'. dll s' h (n # ns)) \<and> wp (list_add_tail h n s) (\<lambda>s'. dll s' h (ns @ [n])) \<and>
     (\<forall>i \<in> set ns. list_next_entry h i s = list_next ns i \<and>
        wp (list_del_from_head h i s) (\<lambda>s'. \<exists>ns'. list_del_from ns i = Some ns' \<and> dll s' h ns'))"
proof -
  have n: "n \<in> dom (pv s)" using assms(4) by (auto simp: pv_def)
  have "list_next_entry h i s = list_next ns i \<and> wp (list_del_from_head h i s) (\<lambda>s'. \<exists>ns'. list_del_from ns i = Some ns' \<and> dll s' h ns')"
    if "i \<in> set ns" for i
    using dll_next [OF assms(1) that] dll_del_from [OF assms(1) that] by simp
  then show ?thesis
    using dll_empty [OF assms(1)] dll_top [OF assms(1)] dll_tail [OF assms(1)] dll_for_each [OF assms(1)]
      wp_mono [OF dll_add [OF assms(1,2) n assms(3)]] wp_mono [OF dll_add_tail [OF assms(1,2) n assms(3)]]
    by auto
qed

definition ex_links :: links where
  "ex_links = [1 \<mapsto> \<lparr>n_next = 2, n_prev = 3\<rparr>, 2 \<mapsto> \<lparr>n_next = 3, n_prev = 1\<rparr>, 3 \<mapsto> \<lparr>n_next = 1, n_prev = 2\<rparr>,
     4 \<mapsto> \<lparr>n_next = 5, n_prev = 5\<rparr>, 5 \<mapsto> \<lparr>n_next = 4, n_prev = 4\<rparr>, 6 \<mapsto> \<lparr>n_next = 0, n_prev = 0\<rparr>]"

lemma ex_links_dll: "dll ex_links 1 [2, 3]" "dll ex_links 4 [5]"
  by (simp_all add: dll_def linked_def ex_links_def nx_def pv_def)

lemma ex_links_empty: "dll (ex_links(7 \<mapsto> \<lparr>n_next = 7, n_prev = 7\<rparr>)) 7 []"
  by (simp add: dll_def linked_def nx_def pv_def)

theorem ccan_list_refines_witness:
  "list_next_entry 1 2 ex_links = Some 3 \<and> list_for_each 2 1 ex_links = Some [2, 3] \<and>
   wp (list_add 1 6 ex_links) (\<lambda>s'. dll s' 1 [6, 2, 3]) \<and> wp (list_add_tail 1 6 ex_links) (\<lambda>s'. dll s' 1 [2, 3, 6]) \<and>
   list_empty 7 (ex_links(7 \<mapsto> \<lparr>n_next = 7, n_prev = 7\<rparr>)) = Some True \<and>
   list_tail 7 (ex_links(7 \<mapsto> \<lparr>n_next = 7, n_prev = 7\<rparr>)) = Some 0"
  using ccan_list_refines [OF ex_links_dll(1), of 6] ccan_list_refines [OF ex_links_empty, of 6]
  by (simp add: ex_links_def list_top_def numeral_2_eq_2)

text \<open>
  the life of a list: from a head in any state, initialising it and adding distinct nodes at the tail
  gives a list that is walked in the order of the additions, and removing the nodes one by one empties it.
\<close>

lemma ccan_list_life:
  assumes "distinct (h # ms)" "0 \<notin> set (h # ms)" "set (h # ms) \<subseteq> dom s"
  shows "wp (do { s \<leftarrow> list_head_init h s; add_all list_add_tail h ms s }) (\<lambda>s'. list_for_each (length ms) h s' = Some ms \<and>
     wp (remove_all list_del_from_head h ms s') (\<lambda>s''. list_empty h s'' = Some True))"
proof -
  have dom: "set (h # ms) \<subseteq> dom (pv s)" using assms(3) by (auto simp: pv_def)
  then obtain s1 where s1: "list_head_init h s = Some s1" "dll s1 h []" "same_outside {h} s s1"
    using dll_init [of h s] assms(2) by (auto simp: wp_iff)
  have "\<forall>m \<in> set ms. m \<noteq> 0" using assms(2) by (metis list.set_intros(2))
  moreover have "set ms \<subseteq> dom (pv s1)" using dom s1(3) by (simp add: same_outside_def)
  ultimately have "\<forall>m \<in> set ms. m \<noteq> 0 \<and> m \<in> dom (pv s1)" by blast
  with nodes.add_all_repr [OF s1(2), of ms] assms(1) obtain s2 where s2: "add_all list_add_tail h ms s1 = Some s2" "dll s2 h ms"
    by (auto simp: wp_iff)
  have "wp (remove_all list_del_from_head h ms s2) (\<lambda>s''. list_empty h s'' = Some True)"
    by (rule wp_mono [OF nodes.remove_all_repr [OF s2(2)]]) (simp add: dll_empty)
  with s1(1) s2 dll_for_each [OF s2(2)] show ?thesis by simp
qed

lemma ccan_list_life_example:
  "wp (do { s \<leftarrow> list_head_init 3 ex_links; add_all list_add_tail 3 [6, 1] s }) (\<lambda>s'. list_for_each 2 3 s' = Some [6, 1] \<and>
     wp (remove_all list_del_from_head 3 [6, 1] s') (\<lambda>s''. list_empty 3 s'' = Some True))"
  using ccan_list_life [of 3 "[6, 1]" ex_links] by (simp add: ex_links_def numeral_2_eq_2)

text \<open>
  Joining: appending a list to another, or putting it in front, concatenates the two lists in that
  order and leaves the source empty, for any two disjoint lists, empty ones included.
\<close>

lemma ccan_list_join:
  assumes "dll s t ts" "dll s f fs" "set (t # ts) \<inter> set (f # fs) = {}"
  shows "wp (list_append_list t f s) (\<lambda>s'. dll s' t (ts @ fs) \<and> dll s' f []) \<and>
     wp (list_prepend_list t f s) (\<lambda>s'. dll s' t (fs @ ts) \<and> dll s' f [])"
  using wp_mono [OF dll_append [OF assms]] wp_mono [OF dll_prepend [OF assms]] by auto

lemma ccan_list_join_example:
  "wp (list_append_list 1 4 ex_links) (\<lambda>s'. dll s' 1 [2, 3, 5] \<and> dll s' 4 []) \<and>
   wp (list_prepend_list 1 4 ex_links) (\<lambda>s'. dll s' 1 [5, 2, 3] \<and> dll s' 4 [])"
  using ccan_list_join [OF ex_links_dll] by simp

text \<open>
  C32: the consistency check accepts exactly the heads that represent a list: when it accepts, the nodes it
  walked form a circle without repetition whose links agree, and on such a circle as many steps as it has
  nodes are enough to accept.
\<close>

theorem ccan_list_check_exact:
  assumes "h \<noteq> 0" "s 0 = None"
  shows "(\<exists>fuel. list_check fuel h s = Some h) \<longleftrightarrow> (\<exists>ns. dll s h ns)"
  using list_check_dll [of _ h s] dll_check [of s h] assms by (auto simp: nx_def)

theorem ccan_list_check_exact_witness: "(\<exists>fuel. list_check fuel 1 ex_links = Some 1) \<and> \<not> (\<exists>ns. dll ex_links 6 ns)"
proof -
  have "\<exists>fuel. list_check fuel 1 ex_links = Some 1"
    using ccan_list_check_exact [of 1 ex_links] ex_links_dll(1) by (auto simp: ex_links_def)
  moreover have "list_check fuel 6 ex_links \<noteq> Some 6" for fuel
    by (cases fuel) (simp_all add: list_check_def list_check_node_def check_loop.simps ex_links_def nx_def pv_def)
  then have "\<not> (\<exists>ns. dll ex_links 6 ns)"
    using ccan_list_check_exact [of 6 ex_links] by (simp add: ex_links_def)
  ultimately show ?thesis by blast
qed

end
