(* ===== verification/Ccan_Util.thy ===== *)
theory Ccan_Util
  imports CString
begin

text \<open>
  The helpers of \<open>src/ccan\<close> besides the lists: byte order (\<open>endian/endian.h\<close>), strings (\<open>str/str.h\<close>, \<open>str/str.c\<close>,
  \<open>str/debug.c\<close>), \<open>minmax/minmax.h\<close> and \<open>container_of/container_of.h\<close>.
\<close>

unbundle bit_operations_syntax


section \<open>Byte order\<close>

definition BSWAP_16 :: "16 word \<Rightarrow> 16 word" where
  "BSWAP_16 val = push_bit 8 (val AND 0x00ff) OR drop_bit 8 (val AND 0xff00)"

definition BSWAP_32 :: "32 word \<Rightarrow> 32 word" where
  "BSWAP_32 val =
     push_bit 24 (val AND 0x000000ff) OR push_bit 8 (val AND 0x0000ff00)
     OR drop_bit 8 (val AND 0x00ff0000) OR drop_bit 24 (val AND 0xff000000)"

definition BSWAP_64 :: "64 word \<Rightarrow> 64 word" where
  "BSWAP_64 val =
     push_bit 56 (val AND 0x00000000000000ff) OR push_bit 40 (val AND 0x000000000000ff00)
     OR push_bit 24 (val AND 0x0000000000ff0000) OR push_bit 8 (val AND 0x00000000ff000000)
     OR drop_bit 8 (val AND 0x000000ff00000000) OR drop_bit 24 (val AND 0x0000ff0000000000)
     OR drop_bit 40 (val AND 0x00ff000000000000) OR drop_bit 56 (val AND 0xff00000000000000)"

definition bswap_16 :: "16 word \<Rightarrow> 16 word" where "bswap_16 val = BSWAP_16 val"
definition bswap_32 :: "32 word \<Rightarrow> 32 word" where "bswap_32 val = BSWAP_32 val"
definition bswap_64 :: "64 word \<Rightarrow> 64 word" where "bswap_64 val = BSWAP_64 val"

text \<open>The conversions of a machine that is little-endian or not.\<close>

definition cpu_to_le64 :: "bool \<Rightarrow> 64 word \<Rightarrow> 64 word" where "cpu_to_le64 little native = (if little then native else BSWAP_64 native)"
definition cpu_to_le32 :: "bool \<Rightarrow> 32 word \<Rightarrow> 32 word" where "cpu_to_le32 little native = (if little then native else BSWAP_32 native)"
definition cpu_to_le16 :: "bool \<Rightarrow> 16 word \<Rightarrow> 16 word" where "cpu_to_le16 little native = (if little then native else BSWAP_16 native)"
definition le64_to_cpu :: "bool \<Rightarrow> 64 word \<Rightarrow> 64 word" where "le64_to_cpu little le_val = (if little then le_val else BSWAP_64 le_val)"
definition le32_to_cpu :: "bool \<Rightarrow> 32 word \<Rightarrow> 32 word" where "le32_to_cpu little le_val = (if little then le_val else BSWAP_32 le_val)"
definition le16_to_cpu :: "bool \<Rightarrow> 16 word \<Rightarrow> 16 word" where "le16_to_cpu little le_val = (if little then le_val else BSWAP_16 le_val)"

text \<open>\<open>cpu_to_be64\<close> swaps on every machine: its first statement returns.\<close>

definition cpu_to_be64 :: "bool \<Rightarrow> 64 word \<Rightarrow> 64 word" where "cpu_to_be64 little native = BSWAP_64 native"
definition cpu_to_be32 :: "bool \<Rightarrow> 32 word \<Rightarrow> 32 word" where "cpu_to_be32 little native = (if little then BSWAP_32 native else native)"
definition cpu_to_be16 :: "bool \<Rightarrow> 16 word \<Rightarrow> 16 word" where "cpu_to_be16 little native = (if little then BSWAP_16 native else native)"
definition be64_to_cpu :: "bool \<Rightarrow> 64 word \<Rightarrow> 64 word" where "be64_to_cpu little be_val = (if little then BSWAP_64 be_val else be_val)"
definition be32_to_cpu :: "bool \<Rightarrow> 32 word \<Rightarrow> 32 word" where "be32_to_cpu little be_val = (if little then BSWAP_32 be_val else be_val)"
definition be16_to_cpu :: "bool \<Rightarrow> 16 word \<Rightarrow> 16 word" where "be16_to_cpu little be_val = (if little then BSWAP_16 be_val else be_val)"

text \<open>A swap moves the byte \<open>k\<close> to the mirrored place: the bits of the result.\<close>

lemma ranges:
  "[0..<16] = [0::nat, 1, 2, 3, 4, 5, 6, 7, 8, 9, 10, 11, 12, 13, 14, 15]"
  "[0..<32] = [0..<16] @ map ((+) 16) [0..<16]"
  "[0..<64] = [0..<32] @ map ((+) 32) [0..<32]"
  by (simp_all add: upt_rec)

lemma BSWAP_16_bits: "\<forall>n \<in> set [0..<16]. bit (BSWAP_16 x) n = bit x (8 * (1 - n div 8) + n mod 8)"
  unfolding ranges by (simp add: BSWAP_16_def bit_simps) (simp add: numeral_2_eq_2)

lemma BSWAP_32_bits: "\<forall>n \<in> set [0..<32]. bit (BSWAP_32 x) n = bit x (8 * (3 - n div 8) + n mod 8)"
  unfolding ranges by (simp add: BSWAP_32_def bit_simps) (simp add: numeral_2_eq_2)

lemma BSWAP_64_bits: "\<forall>n \<in> set [0..<64]. bit (BSWAP_64 x) n = bit x (8 * (7 - n div 8) + n mod 8)"
  unfolding ranges by (simp add: BSWAP_64_def bit_simps) (simp add: numeral_2_eq_2)

text \<open>The place of a bit in the mirrored byte; mirrored twice it is itself.\<close>

definition mirror :: "nat \<Rightarrow> nat \<Rightarrow> nat" where
  "mirror k n = 8 * (k - n div 8) + n mod 8"

lemma mirror_twice: "n < 8 * Suc k \<Longrightarrow> mirror k n < 8 * Suc k \<and> mirror k (mirror k n) = n"
proof -
  assume n: "n < 8 * Suc k"
  then have q: "n div 8 \<le> k" by simp
  have "mirror k n div 8 = k - n div 8" "mirror k n mod 8 = n mod 8" by (simp_all add: mirror_def)
  then have "mirror k (mirror k n) = 8 * (n div 8) + n mod 8" using q by (simp add: mirror_def)
  moreover have "mirror k n < 8 * Suc k" using q by (simp add: mirror_def)
  ultimately show ?thesis by simp
qed

lemma BSWAP_bit:
  "n < 16 \<Longrightarrow> bit (BSWAP_16 x) n = bit x (mirror 1 n)"
  "n < 32 \<Longrightarrow> bit (BSWAP_32 y) n = bit y (mirror 3 n)"
  "n < 64 \<Longrightarrow> bit (BSWAP_64 z) n = bit z (mirror 7 n)"
  using BSWAP_16_bits [of x] BSWAP_32_bits [of y] BSWAP_64_bits [of z] by (simp_all add: mirror_def)

lemma BSWAP_twice [simp]: "BSWAP_16 (BSWAP_16 x) = x" "BSWAP_32 (BSWAP_32 y) = y" "BSWAP_64 (BSWAP_64 z) = z"
  by (rule bit_word_eqI; use mirror_twice [of _ 1] mirror_twice [of _ 3] mirror_twice [of _ 7] in \<open>simp add: BSWAP_bit\<close>)+

text \<open>Every conversion is undone by its inverse; only the 64-bit conversion to big-endian is wrong, on a big-endian machine.\<close>

lemma byte_order_roundtrip:
  "le64_to_cpu l (cpu_to_le64 l z) = z" "le32_to_cpu l (cpu_to_le32 l y) = y" "le16_to_cpu l (cpu_to_le16 l x) = x"
  "be64_to_cpu True (cpu_to_be64 True z) = z" "be32_to_cpu l (cpu_to_be32 l y) = y" "be16_to_cpu l (cpu_to_be16 l x) = x"
  by (simp_all add: le64_to_cpu_def cpu_to_le64_def le32_to_cpu_def cpu_to_le32_def le16_to_cpu_def cpu_to_le16_def
      be64_to_cpu_def cpu_to_be64_def be32_to_cpu_def cpu_to_be32_def be16_to_cpu_def cpu_to_be16_def)

lemma cpu_to_be64_big_endian: "be64_to_cpu False (cpu_to_be64 False 1) = 0x0100000000000000"
  by (simp add: be64_to_cpu_def cpu_to_be64_def BSWAP_64_def push_bit_eq_mult)


section \<open>Strings\<close>

text \<open>The classes of the C library, on the codes of the C locale, and their wrappers for characters.\<close>

definition c_isupper :: "int \<Rightarrow> bool" where "c_isupper i \<longleftrightarrow> 65 \<le> i \<and> i \<le> 90"
definition c_islower :: "int \<Rightarrow> bool" where "c_islower i \<longleftrightarrow> 97 \<le> i \<and> i \<le> 122"
definition c_isdigit :: "int \<Rightarrow> bool" where "c_isdigit i \<longleftrightarrow> 48 \<le> i \<and> i \<le> 57"
definition c_isalpha :: "int \<Rightarrow> bool" where "c_isalpha i \<longleftrightarrow> c_isupper i \<or> c_islower i"
definition c_isalnum :: "int \<Rightarrow> bool" where "c_isalnum i \<longleftrightarrow> c_isalpha i \<or> c_isdigit i"
definition c_isxdigit :: "int \<Rightarrow> bool" where "c_isxdigit i \<longleftrightarrow> c_isdigit i \<or> (65 \<le> i \<and> i \<le> 70) \<or> (97 \<le> i \<and> i \<le> 102)"
definition c_isblank :: "int \<Rightarrow> bool" where "c_isblank i \<longleftrightarrow> i = 32 \<or> i = 9"
definition c_isspace :: "int \<Rightarrow> bool" where "c_isspace i \<longleftrightarrow> i = 32 \<or> (9 \<le> i \<and> i \<le> 13)"
definition c_iscntrl :: "int \<Rightarrow> bool" where "c_iscntrl i \<longleftrightarrow> (0 \<le> i \<and> i \<le> 31) \<or> i = 127"
definition c_isgraph :: "int \<Rightarrow> bool" where "c_isgraph i \<longleftrightarrow> 33 \<le> i \<and> i \<le> 126"
definition c_isprint :: "int \<Rightarrow> bool" where "c_isprint i \<longleftrightarrow> 32 \<le> i \<and> i \<le> 126"
definition c_ispunct :: "int \<Rightarrow> bool" where "c_ispunct i \<longleftrightarrow> c_isgraph i \<and> \<not> c_isalnum i"
definition c_isascii :: "int \<Rightarrow> bool" where "c_isascii i \<longleftrightarrow> 0 \<le> i \<and> i \<le> 127"

definition cisalnum :: "char \<Rightarrow> bool" where "cisalnum c = c_isalnum (of_char c)"
definition cisalpha :: "char \<Rightarrow> bool" where "cisalpha c = c_isalpha (of_char c)"
definition cisascii :: "char \<Rightarrow> bool" where "cisascii c = c_isascii (of_char c)"
definition cisblank :: "char \<Rightarrow> bool" where "cisblank c = c_isblank (of_char c)"
definition ciscntrl :: "char \<Rightarrow> bool" where "ciscntrl c = c_iscntrl (of_char c)"
definition cisdigit :: "char \<Rightarrow> bool" where "cisdigit c = c_isdigit (of_char c)"
definition cisgraph :: "char \<Rightarrow> bool" where "cisgraph c = c_isgraph (of_char c)"
definition cislower :: "char \<Rightarrow> bool" where "cislower c = c_islower (of_char c)"
definition cisprint :: "char \<Rightarrow> bool" where "cisprint c = c_isprint (of_char c)"
definition cispunct :: "char \<Rightarrow> bool" where "cispunct c = c_ispunct (of_char c)"
definition cisspace :: "char \<Rightarrow> bool" where "cisspace c = c_isspace (of_char c)"
definition cisupper :: "char \<Rightarrow> bool" where "cisupper c = c_isupper (of_char c)"
definition cisxdigit :: "char \<Rightarrow> bool" where "cisxdigit c = c_isxdigit (of_char c)"

definition streq :: "string \<Rightarrow> string \<Rightarrow> bool" where "streq a b \<longleftrightarrow> a = b"

definition strstarts :: "string \<Rightarrow> string \<Rightarrow> bool" where
  "strstarts str prefix = strncmp_eq str prefix (length prefix)"

definition strends :: "string \<Rightarrow> string \<Rightarrow> bool" where
  "strends str postfix = (if length str < length postfix then False else streq (drop (length str - length postfix) str) postfix)"

text \<open>\<open>strstr\<close>: the text from the first place where the other one is found.\<close>

fun strstr_at :: "string \<Rightarrow> string \<Rightarrow> string option" where
  "strstr_at [] needle = (if needle = [] then Some [] else None)"
| "strstr_at (c # cs) needle = (if strstarts (c # cs) needle then Some (c # cs) else strstr_at cs needle)"

partial_function (option) strcount_loop :: "string \<Rightarrow> string \<Rightarrow> nat \<Rightarrow> nat option" where
  "strcount_loop haystack needle i = (case strstr_at haystack needle of
       None \<Rightarrow> Some i
     | Some h \<Rightarrow> strcount_loop (drop (length needle) h) needle (i + 1))"

definition strcount :: "string \<Rightarrow> string \<Rightarrow> nat option" where
  "strcount haystack needle = strcount_loop haystack needle 0"

text \<open>The room for the decimal text of an integer of so many bytes.\<close>

definition STR_MAX_CHARS :: "nat \<Rightarrow> nat" where
  "STR_MAX_CHARS sz = (sz * 8 + 8) div 9 * 3 + 2"

lemma strends_iff: "strends str postfix \<longleftrightarrow> (\<exists>pre. str = pre @ postfix)"
  by (auto simp: strends_def streq_def) (metis append_take_drop_id)

lemma strstarts_iff: "strstarts str prefix \<longleftrightarrow> (\<exists>rest. str = prefix @ rest)"
  by (auto simp: strstarts_def strncmp_eq_def) (metis append_take_drop_id)

text \<open>The number of places, counted from the left without overlaps.\<close>

fun places :: "nat \<Rightarrow> string \<Rightarrow> string \<Rightarrow> nat" where
  "places skip [] needle = 0"
| "places 0 (c # cs) needle =
     (if strstarts (c # cs) needle then Suc (places (length needle - 1) cs needle) else places 0 cs needle)"
| "places (Suc skip) (c # cs) needle = places skip cs needle"

lemma places_drop: "places n cs needle = places 0 (drop n cs) needle"
proof (induction n arbitrary: cs)
  case (Suc n)
  then show ?case by (cases cs) simp_all
qed simp

lemma strstr_at_places:
  "needle \<noteq> [] \<Longrightarrow> (case strstr_at h needle of None \<Rightarrow> places 0 h needle = 0
    | Some t \<Rightarrow> length t \<le> length h \<and> length needle \<le> length t \<and> places 0 h needle = Suc (places 0 (drop (length needle) t) needle))"
proof (induction h)
  case (Cons c cs)
  show ?case
  proof (cases "strstarts (c # cs) needle")
    case True
    then have "length needle \<le> length (c # cs)" unfolding strstarts_iff by (metis length_append le_add1)
    moreover have "places (length needle - 1) cs needle = places 0 (drop (length needle) (c # cs)) needle"
      using Cons.prems by (cases needle) (simp_all add: places_drop [of "length _" cs])
    ultimately show ?thesis using True by simp
  next
    case False
    then show ?thesis using Cons by (auto split: option.splits)
  qed
qed simp

lemma strcount_loop_places: "needle \<noteq> [] \<Longrightarrow> strcount_loop h needle i = Some (i + places 0 h needle)"
proof (induction "length h" arbitrary: h i rule: less_induct)
  case less
  show ?case
  proof (cases "strstr_at h needle")
    case None
    then show ?thesis using strstr_at_places [OF less.prems, of h] by (simp add: strcount_loop.simps)
  next
    case (Some t)
    then have t: "length t \<le> length h" "length needle \<le> length t" "places 0 h needle = Suc (places 0 (drop (length needle) t) needle)"
      using strstr_at_places [OF less.prems, of h] by simp_all
    have "length (drop (length needle) t) < length h" using t(1,2) less.prems by (cases needle) auto
    from less.hyps [OF this less.prems] Some t(3) show ?thesis by (simp add: strcount_loop.simps [of h])
  qed
qed

lemma strcount_loop_empty:
  assumes "strcount_loop h needle i = Some n"
  shows "needle \<noteq> []"
proof (rule strcount_loop.raw_induct [where P = "\<lambda>h needle i n. needle \<noteq> []", OF _ assms])
  fix loop h needle i n
  assume loop: "\<And>h needle i n. loop h needle i = Some n \<Longrightarrow> needle \<noteq> []"
    and body: "(case strstr_at h needle of None \<Rightarrow> Some i | Some t \<Rightarrow> loop (drop (length needle) t) needle (i + 1)) = Some (n :: nat)"
  have "strstr_at h [] = Some h" by (cases h) (simp_all add: strstarts_iff)
  with loop body show "needle \<noteq> []" by (cases "needle = []") auto
qed

text \<open>The loop ends for every text that is searched except the empty one, for which it runs forever.\<close>

lemma strcount_value: "strcount haystack needle = (if needle = [] then None else Some (places 0 haystack needle))"
  using strcount_loop_places [of needle haystack 0] strcount_loop_empty [of haystack "[]" 0]
  by (cases "strcount_loop haystack [] 0") (auto simp: strcount_def)

text \<open>The room is enough for a sign, the digits and the terminating null.\<close>

lemma STR_MAX_CHARS_enough:
  assumes "n < 2 ^ (8 * sz)" "0 < sz"
  shows "length (show_nat 10 n) + 2 \<le> STR_MAX_CHARS sz"
proof -
  let ?k = "(sz * 8 + 8) div 9"
  have "8 * sz \<le> 9 * ?k" by linarith
  then have "(2::nat) ^ (8 * sz) \<le> 2 ^ (9 * ?k)" by (rule power_increasing) simp
  also have "\<dots> = (2 ^ 9) ^ ?k" by (simp only: power_mult)
  also have "\<dots> \<le> (10 ^ 3) ^ ?k" by (rule power_mono) simp_all
  also have "\<dots> = 10 ^ (3 * ?k)" by (simp only: power_mult)
  finally have n: "n < 10 ^ (3 * ?k)" using assms by simp
  have "0 < 3 * ?k" using assms(2) by simp
  from show_nat_length [OF n _ this] show ?thesis by (simp add: STR_MAX_CHARS_def mult.commute)
qed


section \<open>Smaller, larger, within, around\<close>

definition min_c :: "int \<Rightarrow> int \<Rightarrow> int" where "min_c a b = (if a < b then a else b)"
definition max_c :: "int \<Rightarrow> int \<Rightarrow> int" where "max_c a b = (if a > b then a else b)"
definition clamp :: "int \<Rightarrow> int \<Rightarrow> int \<Rightarrow> int" where "clamp v f c = max_c (min_c v c) f"

text \<open>The variants that convert to a type first: \<open>t\<close> is the conversion.\<close>

definition min_t :: "(int \<Rightarrow> int) \<Rightarrow> int \<Rightarrow> int \<Rightarrow> int" where "min_t t a b = min_c (t a) (t b)"
definition max_t :: "(int \<Rightarrow> int) \<Rightarrow> int \<Rightarrow> int \<Rightarrow> int" where "max_t t a b = max_c (t a) (t b)"
definition clamp_t :: "(int \<Rightarrow> int) \<Rightarrow> int \<Rightarrow> int \<Rightarrow> int \<Rightarrow> int" where "clamp_t t v f c = clamp (t v) (t f) (t c)"

lemma clamp_between: "f \<le> c \<Longrightarrow> f \<le> clamp v f c \<and> clamp v f c \<le> c \<and> (f \<le> v \<and> v \<le> c \<longrightarrow> clamp v f c = v)"
  by (simp add: clamp_def min_c_def max_c_def)

text \<open>A conversion keeps the bounds only when their order survives it: -1 is the largest unsigned number.\<close>

lemma clamp_t_unsigned: "clamp_t u32 5 (-1) 10 = 4294967295"
  by (simp add: clamp_t_def clamp_def min_c_def max_c_def u32_def take_bit_eq_mod)

text \<open>The structure around a member: \<open>off\<close> is the offset of the member.\<close>

definition container_of :: "64 word \<Rightarrow> 64 word \<Rightarrow> 64 word" where
  "container_of member_ptr off = member_ptr - off"

lemma container_of_member: "container_of (container + off) off = container"
  by (simp add: container_of_def)

end
