(* ===== verification/Ccan_Walk.thy ===== *)
theory Ccan_Walk
  imports Ccan_List Ccan_Util
begin

text \<open>
  The other walks of \<open>src/ccan/list/list.h\<close>: backwards, with the removal of the current element allowed, and over
  elements given by the offset of their node.
\<close>

section \<open>Backwards\<close>

fun list_for_each_rev_from :: "nat \<Rightarrow> ptr \<Rightarrow> ptr \<Rightarrow> links \<Rightarrow> ptr list option" where
  "list_for_each_rev_from fuel h i s =
     (if i = h then Some []
      else case fuel of
        0 \<Rightarrow> None
      | Suc fuel \<Rightarrow> do { j \<leftarrow> pv s i; is \<leftarrow> list_for_each_rev_from fuel h j s; Some (i # is) })"

declare list_for_each_rev_from.simps [simp del]

definition list_for_each_rev :: "nat \<Rightarrow> ptr \<Rightarrow> links \<Rightarrow> ptr list option" where
  "list_for_each_rev fuel h s = do { i \<leftarrow> pv s h; list_for_each_rev_from fuel h i s }"

lemma dll_for_each_rev_from:
  assumes "chain s (h # is @ [i])" "h \<notin> set (is @ [i])"
  shows "list_for_each_rev_from (Suc (length is)) h i s = Some (i # rev is)"
  using assms
proof (induction "is" arbitrary: i rule: rev_induct)
  case Nil
  then show ?case by (simp add: list_for_each_rev_from.simps linked_def)
next
  case (snoc j js)
  have "chain s ((h # js) @ [j, i])" using snoc.prems(1) by simp
  then have "chain s (h # js @ [j])" "linked s j i" using chain_last [of s "h # js" j i] by simp_all
  with snoc.IH [of j] snoc.prems(2) show ?case by (simp add: list_for_each_rev_from.simps [of "Suc (Suc (length js))"] linked_def)
qed

text \<open>The walk visits the elements in the opposite order.\<close>

lemma dll_for_each_rev:
  assumes "dll s h ns"
  shows "list_for_each_rev (length ns) h s = Some (rev ns)"
proof (cases ns rule: rev_cases)
  case Nil
  then show ?thesis using assms by (simp add: dll_def list_for_each_rev_def linked_def list_for_each_rev_from.simps)
next
  case (snoc js j)
  then have "chain s ((h # js) @ [j, h])" "h \<notin> set (js @ [j])" using assms by (simp_all add: dll_def)
  then have "chain s (h # js @ [j])" "linked s j h" using chain_last [of s "h # js" j h] by simp_all
  with dll_for_each_rev_from [of s h js j] \<open>h \<notin> set (js @ [j])\<close> show ?thesis by (simp add: list_for_each_rev_def linked_def snoc)
qed


section \<open>With removal\<close>

text \<open>The successor is read before the body runs on the element.\<close>

fun list_for_each_safe_from :: "nat \<Rightarrow> ptr \<Rightarrow> (ptr \<Rightarrow> links \<Rightarrow> links option) \<Rightarrow> ptr \<Rightarrow> ptr \<Rightarrow> links \<Rightarrow> links option" where
  "list_for_each_safe_from fuel h body i nxt s =
     (if i = h then Some s
      else case fuel of
        0 \<Rightarrow> None
      | Suc fuel \<Rightarrow> do { s \<leftarrow> body i s; after \<leftarrow> nx s nxt; list_for_each_safe_from fuel h body nxt after s })"

declare list_for_each_safe_from.simps [simp del]

definition list_for_each_safe :: "nat \<Rightarrow> ptr \<Rightarrow> (ptr \<Rightarrow> links \<Rightarrow> links option) \<Rightarrow> links \<Rightarrow> links option" where
  "list_for_each_safe fuel h body s = do { i \<leftarrow> nx s h; nxt \<leftarrow> nx s i; list_for_each_safe_from fuel h body i nxt s }"

lemma dll_first: "dll s h (i # is) \<Longrightarrow> nx s h = Some i \<and> nx s i = Some (hd (is @ [h])) \<and> i \<noteq> h"
  by (cases "is") (auto simp: dll_def linked_def)

lemma dll_none: "dll s h [] \<Longrightarrow> nx s h = Some h"
  by (simp add: dll_def linked_def)

lemma dll_for_each_safe_from:
  "dll s h (i # is) \<Longrightarrow> wp (list_for_each_safe_from (Suc (length is)) h list_del i (hd (is @ [h])) s) (\<lambda>s'. dll s' h [])"
proof (induction "is" arbitrary: i s)
  case Nil
  then obtain s1 where "list_del i s = Some s1" "dll s1 h []" using dll_del [of s h "[]" i "[]"] by (auto simp: wp_iff)
  then show ?case using dll_first [OF Nil] dll_none by (simp add: list_for_each_safe_from.simps)
next
  case (Cons j js)
  then obtain s1 where s1: "list_del i s = Some s1" "dll s1 h (j # js)" using dll_del [of s h "[]" i "j # js"] by (auto simp: wp_iff)
  show ?case
    using Cons.IH [OF s1(2)] dll_first [OF Cons.prems] dll_first [OF s1(2)] s1(1)
    by (simp add: list_for_each_safe_from.simps [of "Suc (Suc (length js))"])
qed

text \<open>Deleting every element on the way is defined, ends, and leaves the list empty.\<close>

lemma dll_for_each_safe:
  assumes "dll s h ns"
  shows "wp (list_for_each_safe (length ns) h list_del s) (\<lambda>s'. dll s' h [])"
proof (cases ns)
  case Nil
  then show ?thesis using assms dll_none [of s h] by (simp add: list_for_each_safe_def list_for_each_safe_from.simps)
next
  case (Cons i "is")
  then show ?thesis using assms dll_first [of s h i "is"] dll_for_each_safe_from [of s h i "is"] by (simp add: list_for_each_safe_def)
qed


section \<open>By offset\<close>

definition list_node_to_off :: "64 word \<Rightarrow> 64 word \<Rightarrow> 64 word" where
  "list_node_to_off node off = node - off"

definition list_node_from_off :: "64 word \<Rightarrow> 64 word \<Rightarrow> 64 word" where
  "list_node_from_off p off = p + off"

definition list_entry :: "64 word \<Rightarrow> 64 word \<Rightarrow> 64 word" where
  "list_entry n off = container_of n off"

definition list_entry_off :: "64 word \<Rightarrow> 64 word \<Rightarrow> 64 word" where
  "list_entry_off n off = list_node_from_off n off"

lemma list_node_off_inverse:
  "list_node_to_off (list_node_from_off p off) off = p" "list_node_from_off (list_node_to_off n off) off = n"
  "list_entry n off = list_node_to_off n off"
  by (simp_all add: list_node_to_off_def list_node_from_off_def list_entry_def container_of_def)

text \<open>The entry by offset goes the wrong way: it is the entry only when twice the offset is 0.\<close>

lemma list_entry_off_wrong: "list_entry_off n off = list_entry n off \<longleftrightarrow> 2 * off = 0"
proof -
  have "n + off = n - off \<longleftrightarrow> n + off - (n - off) = 0" by (simp only: right_minus_eq)
  moreover have "n + off - (n - off) = 2 * off" by (simp add: algebra_simps)
  ultimately show ?thesis by (simp only: list_entry_off_def list_node_from_off_def list_entry_def container_of_def)
qed

end
