(* ===== verification/Accfg_Core.thy ===== *)
theory Accfg_Core
  imports Accfg_Param
begin

text \<open>
  The life cycle of libaccfg's objects (\<open>src/accfg/lib/libaccfg.c\<close>): contexts and their reference
  count, the discovery of devices, groups, work queues and engines from sysfs, iteration and lookup,
  and the release of everything.  A new object gets the next pointer when its memory is obtained
  and enters the heap when it is linked into its owner's list; on a failure path it never does.
\<close>

section \<open>Contexts\<close>

definition LOG_ERR :: int where "LOG_ERR = 3"
definition LOG_NOTICE :: int where "LOG_NOTICE = 5"
definition LOG_INFO :: int where "LOG_INFO = 6"
definition LOG_DEBUG :: int where "LOG_DEBUG = 7"

definition log_priority :: "string \<Rightarrow> int" where
  "log_priority priority =
     (case strtol 10 priority of (prio, endptr, _) \<Rightarrow>
      if endptr = [] \<or> isspace (hd endptr) then s32 prio
      else if strncmp_eq priority ''err'' 3 then LOG_ERR
      else if strncmp_eq priority ''info'' 4 then LOG_INFO
      else if strncmp_eq priority ''debug'' 5 then LOG_DEBUG
      else if strncmp_eq priority ''notice'' 6 then LOG_NOTICE
      else 0)"

text \<open>\<open>log_init\<close>: the log function (\<open>log_stderr\<close> is number 0) and the priority.\<close>

definition log_init :: "'k os \<Rightarrow> string \<Rightarrow> 'k \<Rightarrow> accfg_ctx \<Rightarrow> accfg_ctx" where
  "log_init os log_env k c =
     (let c = c\<lparr>c_log_fn := 0, c_log_priority := LOG_ERR\<rparr> in
      case os_getenv os log_env k of
        None \<Rightarrow> c
      | Some env \<Rightarrow> c\<lparr>c_log_priority := log_priority env\<rparr>)"

definition new_ptr :: "'k os \<Rightarrow> 'k mach \<Rightarrow> ptr \<times> 'k mach" where
  "new_ptr os m =
     (case sys_alloc os m of (ok, m) \<Rightarrow>
      if ok then (next_ptr m, m\<lparr>next_ptr := next_ptr m + 1\<rparr>) else (0, m))"

definition empty_ctx :: accfg_ctx where
  "empty_ctx = \<lparr>c_log_fn = 0, c_log_priority = 0, c_refcount = 0, c_devices_init = 0, c_devices = [],
     c_timeout = 0, c_compat = False, c_error_ctx = None\<rparr>"

definition IDXD_DRIVER_BIND_PATH :: string where
  "IDXD_DRIVER_BIND_PATH = ''/sys/bus/dsa/drivers/idxd''"

text \<open>
  \<open>accfg_new\<close>: the return code, the pointer stored through the argument.  \<open>strtoul\<close> always stores a
  pointer in \<open>end\<close>, so \<open>!end\<close> is false.
\<close>

definition accfg_new :: "'k os \<Rightarrow> 'k mach \<Rightarrow> int \<times> ptr \<times> 'k mach" where
  "accfg_new os m =
     (case new_ptr os m of (p, m) \<Rightarrow>
      if p = 0 then (- ENOMEM, 0, m)
      else
        let c = log_init os ''ACCFG_LOG'' (kern m) (empty_ctx\<lparr>c_refcount := 1\<rparr>);
            c = c\<lparr>c_timeout := 5000\<rparr> in
        case sys_access os IDXD_DRIVER_BIND_PATH m of (found, m) \<Rightarrow>
        let c = (if \<not> found then c\<lparr>c_compat := True\<rparr> else c) in
        case os_getenv os ''ACCFG_TIMEOUT'' (kern m) of
          None \<Rightarrow> (0, p, m\<lparr>ctxs := (ctxs m)(p \<mapsto> c)\<rparr>)
        | Some env \<Rightarrow>
            case strtoull 0 env of (tmo, rest, erange) \<Rightarrow>
            let m = (if erange then m\<lparr>errno := ERANGE\<rparr> else m);
                end_ptr = Some rest;
                c = (if tmo < ULONG_MAX \<and> end_ptr = None then c\<lparr>c_timeout := tmo\<rparr> else c) in
            (0, p, m\<lparr>ctxs := (ctxs m)(p \<mapsto> c)\<rparr>))"

definition accfg_ref :: "ptr \<Rightarrow> 'k mach \<Rightarrow> ('k, ptr) run" where
  "accfg_ref ctx m =
     (if ctx = 0 then Some (0, m)
      else do {
        m \<leftarrow> upd_ctx ctx (\<lambda>c. c\<lparr>c_refcount := s32 (c_refcount c + 1)\<rparr>) m;
        Some (ctx, m)
      })"

definition accfg_set_log_fn :: "ptr \<Rightarrow> nat \<Rightarrow> 'k mach \<Rightarrow> 'k mach option" where
  "accfg_set_log_fn ctx f m = upd_ctx ctx (\<lambda>c. c\<lparr>c_log_fn := f\<rparr>) m"

definition accfg_get_log_priority :: "ptr \<Rightarrow> 'k mach \<Rightarrow> int option" where
  "accfg_get_log_priority ctx m = do { c \<leftarrow> ctxs m ctx; Some (c_log_priority c) }"

definition accfg_set_log_priority :: "ptr \<Rightarrow> int \<Rightarrow> 'k mach \<Rightarrow> 'k mach option" where
  "accfg_set_log_priority ctx priority m = upd_ctx ctx (\<lambda>c. c\<lparr>c_log_priority := priority\<rparr>) m"


section \<open>Devices\<close>

definition device_parse_type :: "string \<Rightarrow> (accfg_device_type \<times> int) option" where
  "device_parse_type device_type_str =
     map_option (\<lambda>(t, _). (t, accfg_device_compl_size t)) (List.find (\<lambda>(_, b). device_type_str = b) accfg_basenames)"

text \<open>The attributes of a device, read in this order; the links and the path are filled in later.\<close>

definition device_read_params :: "'k os \<Rightarrow> string \<Rightarrow> 'k mach \<Rightarrow> accfg_device \<times> 'k mach" where
  "device_read_params os dfd m =
     (let (max_groups, m) = accfg_get_param_long os dfd ''max_groups'' m;
          (max_work_queues, m) = accfg_get_param_long os dfd ''max_work_queues'' m;
          (max_engines, m) = accfg_get_param_long os dfd ''max_engines'' m;
          (max_work_queues_size, m) = accfg_get_param_long os dfd ''max_work_queues_size'' m;
          (numa_node, m) = accfg_get_param_long os dfd ''numa_node'' m;
          (ims_size, m) = accfg_get_param_long os dfd ''ims_size'' m;
          (max_batch_size, m) = accfg_get_param_long os dfd ''max_batch_size'' m;
          (max_transfer_size, m) = accfg_get_param_unsigned_llong os dfd ''max_transfer_size'' m;
          (gencap, m) = accfg_get_param_unsigned_llong os dfd ''gen_cap'' m;
          (configurable, m) = accfg_get_param_unsigned_llong os dfd ''configurable'' m;
          (pasid_enabled, m) = accfg_get_param_long os dfd ''pasid_enabled'' m;
          (max_read_buffers, m) = accfg_get_param_long os dfd ''max_read_buffers'' m;
          (read_buffer_limit, m) = accfg_get_param_long os dfd ''read_buffer_limit'' m;
          (event_log_size, m) = accfg_get_param_long os dfd ''event_log_size'' m;
          (cdev_major, m) = accfg_get_param_long os dfd ''cdev_major'' m;
          (version, m) = accfg_get_param_unsigned_llong os dfd ''version'' m
      in (\<lparr>dev_ctx = 0, dev_id = 0, dev_group = 0, dev_groups = [], dev_wqs = [], dev_engines = [],
           dev_group_init = 0, dev_path = [], dev_bus_type_str = [], dev_type_str = [],
           dev_type = ACCFG_DEVICE_DSA, dev_buf_len = 0,
           dev_max_groups = s32 max_groups, dev_max_work_queues = s32 max_work_queues,
           dev_max_engines = s32 max_engines, dev_max_work_queues_size = s32 max_work_queues_size,
           dev_numa_node = s32 numa_node, dev_ims_size = s32 ims_size,
           dev_max_batch_size = s32 max_batch_size, dev_compl_size = 0,
           dev_configurable = s32 configurable, dev_max_read_buffers = s32 max_read_buffers,
           dev_read_buffer_limit = u32 read_buffer_limit, dev_event_log_size = s32 event_log_size,
           dev_cdev_major = u32 cdev_major, dev_version = u32 version,
           dev_max_transfer_size = max_transfer_size, dev_gencap = gencap,
           dev_pasid_enabled = s32 pasid_enabled\<rparr>, m))"

definition add_device :: "'k os \<Rightarrow> 'k mach add_dev_fn" where
  "add_device os ctx id_arg ctl_base dev_prefix bus_type m =
     (case sys_open os ctl_base O_PATH m of (dfd, m) \<Rightarrow>
      if \<not> dfd then Some (0, m)
      else
        case accfg_set_param os ctl_base ''cmd_status'' ''1'' m of (_, m) \<Rightarrow>
        case accfg_get_param_long os ctl_base ''cmd_status'' m of (status, m) \<Rightarrow>
        case new_ptr os (m\<lparr>init_cmd_status := status\<rparr>) of (device, m) \<Rightarrow>
        if device = 0 then Some (0, m)
        else do {
          i \<leftarrow> id_arg;
          case device_read_params os ctl_base m of (dv, m) \<Rightarrow>
          case sys_realpath os ctl_base m of (device_path, m) \<Rightarrow>
          case device_path of
            None \<Rightarrow> Some (0, m)
          | Some path \<Rightarrow>
              case sys_alloc os m of (ok, m) \<Rightarrow>
              if \<not> ok then Some (0, m)
              else case device_parse_type dev_prefix of
                None \<Rightarrow> Some (0, m)
              | Some (t, compl_size) \<Rightarrow> do {
                  m \<leftarrow> Some (m\<lparr>devices := (devices m)(device \<mapsto>
                    dv\<lparr>dev_ctx := ctx, dev_id := u32 i, dev_path := path, dev_buf_len := length path + MAX_BUF_LEN,
                       dev_type_str := dev_prefix, dev_type := t, dev_compl_size := compl_size,
                       dev_bus_type_str := bus_type\<rparr>)\<rparr>);
                  m \<leftarrow> upd_ctx ctx (\<lambda>c. c\<lparr>c_devices := c_devices c @ [device]\<rparr>) m;
                  Some (device, m)
                }
        })"


section \<open>Work queues\<close>

text \<open>\<open>wq_parse_type\<close>: the return code and the type assigned (\<open>None\<close>: not assigned).\<close>

definition wq_parse_type :: "'k os \<Rightarrow> string option \<Rightarrow> 'k mach \<Rightarrow> ('k, int \<times> accfg_wq_type option) run" where
  "wq_parse_type os wq_type_str m = do {
     s \<leftarrow> wq_type_str;
     let (ok, m) = sys_alloc os m;
     if \<not> ok then Some ((- ENOMEM, None), m)
     else case strtok_colon s of
       None \<Rightarrow> Some ((- EINVAL, None), m)
     | Some ptype \<Rightarrow>
         Some ((0, Some (if ptype = ''kernel'' then ACCFG_WQT_KERNEL
                         else if ptype = ''user'' then ACCFG_WQT_USER else ACCFG_WQT_NONE)), m)
   }"

text \<open>The attributes of a work queue, read in this order, and the text of its type.\<close>

definition wq_read_params :: "'k os \<Rightarrow> string \<Rightarrow> 'k mach \<Rightarrow> (accfg_wq \<times> string option) \<times> 'k mach" where
  "wq_read_params os dfd m =
     (let (group_id, m) = accfg_get_param_long os dfd ''group_id'' m;
          (sz, m) = accfg_get_param_long os dfd ''size'' m;
          (priority, m) = accfg_get_param_long os dfd ''priority'' m;
          (block_on_fault, m) = accfg_get_param_long os dfd ''block_on_fault'' m;
          (mode, m) = accfg_get_param_str os dfd ''mode'' m;
          (state, m) = accfg_get_param_str os dfd ''state'' m;
          (cdev_minor, m) = accfg_get_param_long os dfd ''cdev_minor'' m;
          (wq_type_str, m) = accfg_get_param_str os dfd ''type'' m;
          (name, m) = accfg_get_param_str os dfd ''name'' m;
          (driver_name, m) = accfg_get_param_str os dfd ''driver_name'' m;
          (threshold, m) = accfg_get_param_long os dfd ''threshold'' m;
          (max_batch_size, m) = accfg_get_param_long os dfd ''max_batch_size'' m;
          (max_transfer_size, m) = accfg_get_param_long os dfd ''max_transfer_size'' m;
          (ats_disable, m) = accfg_get_param_long os dfd ''ats_disable'' m;
          (prs_disable, m) = accfg_get_param_long os dfd ''prs_disable'' m
      in ((\<lparr>wq_device = 0, wq_group = 0, wq_path = [], wq_id = 0, wq_buf_len = 0,
            wq_group_id = s32 group_id, wq_size = s32 sz, wq_priv = 0, wq_priority = s32 priority,
            wq_block_on_fault = s32 block_on_fault, wq_cdev_minor = s32 cdev_minor,
            wq_threshold = u32 threshold, wq_mode = mode, wq_name = name, wq_driver_name = driver_name,
            wq_type = ACCFG_WQT_NONE, wq_state = state, wq_max_batch_size = u32 max_batch_size,
            wq_max_transfer_size = u64 max_transfer_size, wq_ats_disable = s32 ats_disable,
            wq_prs_disable = s32 prs_disable\<rparr>, wq_type_str), m))"

definition add_wq :: "'k os \<Rightarrow> 'k mach add_dev_fn" where
  "add_wq os device id_arg wq_base dev_prefix bus_type m =
     (if device = 0 then Some (0, m)
      else do {
        dv \<leftarrow> devices m device;
        case sys_open os wq_base O_PATH m of (dfd, m) \<Rightarrow>
        if \<not> dfd then Some (0, m)
        else
          case new_ptr os m of (w, m) \<Rightarrow>
          if w = 0 then Some (0, m)
          else
            case sys_alloc os m of (ok, m) \<Rightarrow>
            if \<not> ok then Some (0, m)
            else case scan_child ''wq'' (basename wq_base) of
              None \<Rightarrow> Some (0, m)
            | Some (device_id, wq_num) \<Rightarrow>
                case wq_read_params os wq_base m of ((wq, wq_type_str), m) \<Rightarrow> do {
                ((_, t), m) \<leftarrow> wq_parse_type os wq_type_str m;
                case sys_alloc os m of (ok, m) \<Rightarrow>
                if \<not> ok then Some (0, m)
                else
                  case sys_alloc os m of (ok, m) \<Rightarrow>
                  if \<not> ok then Some (0, m)
                  else do {
                    m \<leftarrow> Some (m\<lparr>wqs := (wqs m)(w \<mapsto>
                      wq\<lparr>wq_id := s32 wq_num, wq_group := dev_group dv, wq_device := device,
                         wq_type := (case t of None \<Rightarrow> ACCFG_WQT_NONE | Some t \<Rightarrow> t),
                         wq_path := wq_base, wq_buf_len := length wq_base + MAX_BUF_LEN\<rparr>)\<rparr>);
                    m \<leftarrow> upd_device device (\<lambda>d. d\<lparr>dev_wqs := dev_wqs d @ [w]\<rparr>) m;
                    Some (w, m)
                  }
              }
      })"


section \<open>Groups and engines\<close>

definition group_read_params :: "'k os \<Rightarrow> string \<Rightarrow> 'k mach \<Rightarrow> accfg_group \<times> 'k mach" where
  "group_read_params os dfd m =
     (let (engs, m) = accfg_get_param_str os dfd ''engines'' m;
          (work_queues, m) = accfg_get_param_str os dfd ''work_queues'' m;
          (read_buffers_reserved, m) = accfg_get_param_long os dfd ''read_buffers_reserved'' m;
          (read_buffers_allowed, m) = accfg_get_param_long os dfd ''read_buffers_allowed'' m;
          (use_read_buffer_limit, m) = accfg_get_param_long os dfd ''use_read_buffer_limit'' m;
          (traffic_class_a, m) = accfg_get_param_long os dfd ''traffic_class_a'' m;
          (traffic_class_b, m) = accfg_get_param_long os dfd ''traffic_class_b'' m;
          (desc_progress_limit, m) = accfg_get_param_long os dfd ''desc_progress_limit'' m;
          (batch_progress_limit, m) = accfg_get_param_long os dfd ''batch_progress_limit'' m
      in (\<lparr>grp_device = 0, grp_id = 0, grp_buf_len = 0, grp_size = 0, grp_path = [], grp_engines = engs,
           grp_wqs = work_queues, grp_wqs_init = 0, grp_engines_init = 0,
           grp_read_buffers_reserved = u32 read_buffers_reserved,
           grp_read_buffers_allowed = u32 read_buffers_allowed,
           grp_use_read_buffer_limit = u32 use_read_buffer_limit,
           grp_traffic_class_a = s32 traffic_class_a, grp_traffic_class_b = s32 traffic_class_b,
           grp_desc_progress_limit = u32 desc_progress_limit,
           grp_batch_progress_limit = u32 batch_progress_limit\<rparr>, m))"

text \<open>The device's \<open>group\<close> member is assigned before the last allocations, which may fail.\<close>

definition add_group :: "'k os \<Rightarrow> 'k mach add_dev_fn" where
  "add_group os device id_arg group_base dev_prefix bus_type m =
     (if device = 0 then Some (0, m)
      else do {
        dv \<leftarrow> devices m device;
        case sys_open os group_base O_PATH m of (dfd, m) \<Rightarrow>
        if \<not> dfd then Some (0, m)
        else
          case new_ptr os m of (g, m) \<Rightarrow>
          if g = 0 then Some (0, m)
          else
            case sys_alloc os m of (ok, m) \<Rightarrow>
            if \<not> ok then Some (0, m)
            else case scan_child ''group'' (basename group_base) of
              None \<Rightarrow> Some (0, m)
            | Some (device_id, group_id) \<Rightarrow> do {
                m \<leftarrow> upd_device device (\<lambda>d. d\<lparr>dev_group := g\<rparr>) m;
                case group_read_params os group_base m of (gr, m) \<Rightarrow>
                case sys_alloc os m of (ok, m) \<Rightarrow>
                if \<not> ok then Some (0, m)
                else
                  case sys_alloc os m of (ok, m) \<Rightarrow>
                  if \<not> ok then Some (0, m)
                  else do {
                    m \<leftarrow> Some (m\<lparr>groups := (groups m)(g \<mapsto>
                      gr\<lparr>grp_device := device, grp_id := s32 group_id, grp_path := group_base,
                         grp_buf_len := length group_base + MAX_BUF_LEN\<rparr>)\<rparr>);
                    m \<leftarrow> upd_device device (\<lambda>d. d\<lparr>dev_groups := dev_groups d @ [g]\<rparr>) m;
                    Some (g, m)
                  }
              }
      })"

definition add_engine :: "'k os \<Rightarrow> 'k mach add_dev_fn" where
  "add_engine os device id_arg engine_base dev_prefix bus_type m =
     (if device = 0 then Some (0, m)
      else do {
        dv \<leftarrow> devices m device;
        case sys_open os engine_base O_PATH m of (dfd, m) \<Rightarrow>
        if \<not> dfd then Some (0, m)
        else
          case new_ptr os m of (e, m) \<Rightarrow>
          if e = 0 then Some (0, m)
          else
            case sys_alloc os m of (ok, m) \<Rightarrow>
            if \<not> ok then Some (0, m)
            else case scan_child ''engine'' (basename engine_base) of
              None \<Rightarrow> Some (0, m)
            | Some (device_id, engine_id) \<Rightarrow>
                case accfg_get_param_long os engine_base ''group_id'' m of (group_id, m) \<Rightarrow>
                case sys_alloc os m of (ok, m) \<Rightarrow>
                if \<not> ok then Some (0, m)
                else
                  case sys_alloc os m of (ok, m) \<Rightarrow>
                  if \<not> ok then Some (0, m)
                  else do {
                    m \<leftarrow> Some (m\<lparr>engines := (engines m)(e \<mapsto>
                      \<lparr>eng_device = device, eng_group = dev_group dv, eng_path = engine_base, eng_id = s32 engine_id,
                       eng_buf_len = length engine_base + MAX_BUF_LEN, eng_group_id = s32 group_id\<rparr>)\<rparr>);
                    m \<leftarrow> upd_device device (\<lambda>d. d\<lparr>dev_engines := dev_engines d @ [e]\<rparr>) m;
                    Some (e, m)
                  }
      })"


section \<open>Discovery\<close>

definition set_filename_prefix :: "string \<Rightarrow> 'k mach \<Rightarrow> 'k mach" where
  "set_filename_prefix pfx m = m\<lparr>filename_prefix := pfx\<rparr>"

definition filter_file_name_prefix :: "'k mach \<Rightarrow> string \<Rightarrow> bool" where
  "filter_file_name_prefix m d_name =
     strncmp_eq (filename_prefix m) d_name (length (filename_prefix m))"

definition device_parse ::
  "'k os \<Rightarrow> string \<Rightarrow> string \<Rightarrow> string \<Rightarrow> ptr \<Rightarrow> 'k mach add_dev_fn \<Rightarrow> 'k mach \<Rightarrow> ('k, int) run" where
  "device_parse os base_path dev_prefix bus_type parent add_dev m =
     sysfs_device_parse os base_path dev_prefix bus_type (filter_file_name_prefix m) parent add_dev m"

definition groups_init :: "'k os \<Rightarrow> ptr \<Rightarrow> 'k mach \<Rightarrow> 'k mach option" where
  "groups_init os device m = do {
     dv \<leftarrow> devices m device;
     if dev_group_init dv \<noteq> 0 then Some m
     else do {
       m \<leftarrow> upd_device device (\<lambda>d. d\<lparr>dev_group_init := 1\<rparr>) m;
       let m = set_filename_prefix ''group'' m;
       (_, m) \<leftarrow> device_parse os (dev_path dv) ''group'' (dev_bus_type_str dv) device (add_group os) m;
       Some m
     }
   }"

text \<open>A \<open>foreach\<close> loop over a list that its body does not change.\<close>

fun foreach_run :: "(ptr \<Rightarrow> 'm \<Rightarrow> 'm option) \<Rightarrow> ptr list \<Rightarrow> 'm \<Rightarrow> 'm option" where
  "foreach_run f [] m = Some m"
| "foreach_run f (p # ps) m = do { m \<leftarrow> f p m; foreach_run f ps m }"

definition parse_accel :: "'k os \<Rightarrow> ptr \<Rightarrow> string \<times> string \<Rightarrow> 'k mach \<Rightarrow> 'k mach option" where
  "parse_accel os ctx names m =
     (case names of (bus_type, accel_name) \<Rightarrow>
      let m = set_filename_prefix accel_name m in do {
        (_, m) \<leftarrow> device_parse os (''/sys/bus/'' @ bus_type @ ''/devices'') accel_name bus_type ctx (add_device os) m;
        Some m
      })"

fun parse_accels :: "'k os \<Rightarrow> ptr \<Rightarrow> (string \<times> string) list \<Rightarrow> 'k mach \<Rightarrow> 'k mach option" where
  "parse_accels os ctx [] m = Some m"
| "parse_accels os ctx (n # ns) m = do { m \<leftarrow> parse_accel os ctx n m; parse_accels os ctx ns m }"

text \<open>
  The loop over the devices calls \<open>accfg_device_get_first\<close>, which calls \<open>devices_init\<close> again; that call
  returns at once because the flag is already set.
\<close>

definition devices_init :: "'k os \<Rightarrow> ptr \<Rightarrow> 'k mach \<Rightarrow> 'k mach option" where
  "devices_init os ctx m = do {
     cx \<leftarrow> ctxs m ctx;
     if c_devices_init cx \<noteq> 0 then Some m
     else do {
       m \<leftarrow> upd_ctx ctx (\<lambda>c. c\<lparr>c_devices_init := 1\<rparr>) m;
       m \<leftarrow> parse_accels os ctx (List.product accfg_bus_types (map snd accfg_basenames)) m;
       cx \<leftarrow> ctxs m ctx;
       foreach_run (groups_init os) (c_devices cx) m
     }
   }"

text \<open>
  The flag that stops a second scan for engines or work queues is a member of the device's current
  group; a device without a group has no such flag.
\<close>

definition engines_init :: "'k os \<Rightarrow> ptr \<Rightarrow> 'k mach \<Rightarrow> 'k mach option" where
  "engines_init os device m = do {
     dv \<leftarrow> devices m device;
     let g = dev_group dv;
     (skip, m) \<leftarrow>
       (if g \<noteq> 0 then do {
          gr \<leftarrow> groups m g;
          if grp_engines_init gr \<noteq> 0 then Some (True, m)
          else do {
            m \<leftarrow> upd_group g (\<lambda>x. x\<lparr>grp_engines_init := 1\<rparr>) m;
            Some (False, m)
          }
        } else Some (False, m));
     if skip then Some m
     else do {
       let m = set_filename_prefix ''engine'' m;
       (_, m) \<leftarrow> device_parse os (dev_path dv) ''engine'' (dev_bus_type_str dv) device (add_engine os) m;
       Some m
     }
   }"

definition wqs_init :: "'k os \<Rightarrow> ptr \<Rightarrow> 'k mach \<Rightarrow> 'k mach option" where
  "wqs_init os device m = do {
     dv \<leftarrow> devices m device;
     let g = dev_group dv;
     (skip, m) \<leftarrow>
       (if g \<noteq> 0 then do {
          gr \<leftarrow> groups m g;
          if grp_wqs_init gr \<noteq> 0 then Some (True, m)
          else do {
            m \<leftarrow> upd_group g (\<lambda>x. x\<lparr>grp_wqs_init := 1\<rparr>) m;
            Some (False, m)
          }
        } else Some (False, m));
     if skip then Some m
     else do {
       let m = set_filename_prefix ''wq'' m;
       (_, m) \<leftarrow> device_parse os (dev_path dv) ''wq'' (dev_bus_type_str dv) device (add_wq os) m;
       Some m
     }
   }"


section \<open>Iteration and lookup\<close>

definition accfg_device_get_first :: "'k os \<Rightarrow> ptr \<Rightarrow> 'k mach \<Rightarrow> ('k, ptr) run" where
  "accfg_device_get_first os ctx m = do {
     m \<leftarrow> devices_init os ctx m;
     cx \<leftarrow> ctxs m ctx;
     Some (list_top (c_devices cx), m)
   }"

definition accfg_device_get_next :: "ptr \<Rightarrow> 'k mach \<Rightarrow> ptr option" where
  "accfg_device_get_next device m = do {
     dv \<leftarrow> devices m device;
     cx \<leftarrow> ctxs m (dev_ctx dv);
     list_next (c_devices cx) device
   }"

definition accfg_group_get_first :: "'k os \<Rightarrow> ptr \<Rightarrow> 'k mach \<Rightarrow> ('k, ptr) run" where
  "accfg_group_get_first os device m = do {
     m \<leftarrow> groups_init os device m;
     dv \<leftarrow> devices m device;
     Some (list_top (dev_groups dv), m)
   }"

definition accfg_group_get_next :: "ptr \<Rightarrow> 'k mach \<Rightarrow> ptr option" where
  "accfg_group_get_next g m = do {
     gr \<leftarrow> groups m g;
     dv \<leftarrow> devices m (grp_device gr);
     list_next (dev_groups dv) g
   }"

definition accfg_wq_get_first :: "'k os \<Rightarrow> ptr \<Rightarrow> 'k mach \<Rightarrow> ('k, ptr) run" where
  "accfg_wq_get_first os device m = do {
     m \<leftarrow> wqs_init os device m;
     dv \<leftarrow> devices m device;
     Some (list_top (dev_wqs dv), m)
   }"

definition accfg_wq_get_next :: "ptr \<Rightarrow> 'k mach \<Rightarrow> ptr option" where
  "accfg_wq_get_next w m = do {
     wq \<leftarrow> wqs m w;
     dv \<leftarrow> devices m (wq_device wq);
     list_next (dev_wqs dv) w
   }"

definition accfg_engine_get_first :: "'k os \<Rightarrow> ptr \<Rightarrow> 'k mach \<Rightarrow> ('k, ptr) run" where
  "accfg_engine_get_first os device m = do {
     m \<leftarrow> engines_init os device m;
     dv \<leftarrow> devices m device;
     Some (list_top (dev_engines dv), m)
   }"

definition accfg_engine_get_next :: "ptr \<Rightarrow> 'k mach \<Rightarrow> ptr option" where
  "accfg_engine_get_next e m = do {
     en \<leftarrow> engines m e;
     dv \<leftarrow> devices m (eng_device en);
     list_next (dev_engines dv) e
   }"

text \<open>
  The \<open>foreach\<close> loop of a lookup: from the first object, step with \<open>next\<close> until the test holds or the
  list ends.  The number of steps is bounded by the fuel; the callers give the length of the list.
\<close>

fun find_from :: "nat \<Rightarrow> (ptr \<Rightarrow> bool option) \<Rightarrow> (ptr \<Rightarrow> ptr option) \<Rightarrow> ptr \<Rightarrow> ptr option" where
  "find_from 0 test step p = (if p = 0 then Some 0 else None)"
| "find_from (Suc n) test step p =
     (if p = 0 then Some 0
      else do {
        hit \<leftarrow> test p;
        if hit then Some p else do { q \<leftarrow> step p; find_from n test step q }
      })"

definition accfg_device_get_id :: "ptr \<Rightarrow> 'k mach \<Rightarrow> int option" where
  "accfg_device_get_id device m = do { dv \<leftarrow> devices m device; Some (s32 (dev_id dv)) }"

definition accfg_group_get_id :: "ptr \<Rightarrow> 'k mach \<Rightarrow> int option" where
  "accfg_group_get_id g m = do { gr \<leftarrow> groups m g; Some (grp_id gr) }"

definition accfg_wq_get_id :: "ptr \<Rightarrow> 'k mach \<Rightarrow> int option" where
  "accfg_wq_get_id w m = do { wq \<leftarrow> wqs m w; Some (wq_id wq) }"

definition accfg_engine_get_id :: "ptr \<Rightarrow> 'k mach \<Rightarrow> int option" where
  "accfg_engine_get_id e m = do { en \<leftarrow> engines m e; Some (eng_id en) }"

definition accfg_device_get_devname :: "ptr \<Rightarrow> 'k mach \<Rightarrow> string option" where
  "accfg_device_get_devname device m = do { dv \<leftarrow> devices m device; devpath_to_devname (dev_path dv) }"

definition accfg_group_get_devname :: "ptr \<Rightarrow> 'k mach \<Rightarrow> string option" where
  "accfg_group_get_devname g m = do { gr \<leftarrow> groups m g; devpath_to_devname (grp_path gr) }"

definition accfg_wq_get_devname :: "ptr \<Rightarrow> 'k mach \<Rightarrow> string option" where
  "accfg_wq_get_devname w m = do { wq \<leftarrow> wqs m w; devpath_to_devname (wq_path wq) }"

definition accfg_engine_get_devname :: "ptr \<Rightarrow> 'k mach \<Rightarrow> string option" where
  "accfg_engine_get_devname e m = do { en \<leftarrow> engines m e; devpath_to_devname (eng_path en) }"

definition id_is :: "int \<Rightarrow> int option \<Rightarrow> bool option" where
  "id_is i r = do { v \<leftarrow> r; Some (v = i) }"

definition accfg_ctx_device_get_by_id :: "'k os \<Rightarrow> ptr \<Rightarrow> int \<Rightarrow> 'k mach \<Rightarrow> ('k, ptr) run" where
  "accfg_ctx_device_get_by_id os ctx i m = do {
     (p, m) \<leftarrow> accfg_device_get_first os ctx m;
     cx \<leftarrow> ctxs m ctx;
     r \<leftarrow> find_from (length (c_devices cx)) (\<lambda>p. id_is i (accfg_device_get_id p m))
            (\<lambda>p. accfg_device_get_next p m) p;
     Some (r, m)
   }"

definition accfg_ctx_device_get_by_name :: "'k os \<Rightarrow> ptr \<Rightarrow> string \<Rightarrow> 'k mach \<Rightarrow> ('k, ptr) run" where
  "accfg_ctx_device_get_by_name os ctx dev_name m = do {
     (p, m) \<leftarrow> accfg_device_get_first os ctx m;
     cx \<leftarrow> ctxs m ctx;
     r \<leftarrow> find_from (length (c_devices cx))
            (\<lambda>p. do { n \<leftarrow> accfg_device_get_devname p m; Some (n = dev_name) })
            (\<lambda>p. accfg_device_get_next p m) p;
     Some (r, m)
   }"

definition accfg_device_group_get_by_id :: "'k os \<Rightarrow> ptr \<Rightarrow> int \<Rightarrow> 'k mach \<Rightarrow> ('k, ptr) run" where
  "accfg_device_group_get_by_id os dev i m = do {
     (p, m) \<leftarrow> accfg_group_get_first os dev m;
     dv \<leftarrow> devices m dev;
     r \<leftarrow> find_from (length (dev_groups dv)) (\<lambda>p. id_is i (accfg_group_get_id p m))
            (\<lambda>p. accfg_group_get_next p m) p;
     Some (r, m)
   }"

definition accfg_device_wq_get_by_id :: "'k os \<Rightarrow> ptr \<Rightarrow> int \<Rightarrow> 'k mach \<Rightarrow> ('k, ptr) run" where
  "accfg_device_wq_get_by_id os dev i m = do {
     (p, m) \<leftarrow> accfg_wq_get_first os dev m;
     dv \<leftarrow> devices m dev;
     r \<leftarrow> find_from (length (dev_wqs dv)) (\<lambda>p. id_is i (accfg_wq_get_id p m))
            (\<lambda>p. accfg_wq_get_next p m) p;
     Some (r, m)
   }"

definition accfg_device_engine_get_by_id :: "'k os \<Rightarrow> ptr \<Rightarrow> int \<Rightarrow> 'k mach \<Rightarrow> ('k, ptr) run" where
  "accfg_device_engine_get_by_id os dev i m = do {
     (p, m) \<leftarrow> accfg_engine_get_first os dev m;
     dv \<leftarrow> devices m dev;
     r \<leftarrow> find_from (length (dev_engines dv)) (\<lambda>p. id_is i (accfg_engine_get_id p m))
            (\<lambda>p. accfg_engine_get_next p m) p;
     Some (r, m)
   }"


section \<open>Release\<close>

definition free_engine :: "ptr \<Rightarrow> 'k mach \<Rightarrow> 'k mach option" where
  "free_engine e m = do {
     en \<leftarrow> engines m e;
     dv \<leftarrow> devices m (eng_device en);
     l \<leftarrow> list_del_from (dev_engines dv) e;
     m \<leftarrow> upd_device (eng_device en) (\<lambda>d. d\<lparr>dev_engines := l\<rparr>) m;
     Some (m\<lparr>engines := (engines m)(e := None)\<rparr>)
   }"

definition free_wq :: "ptr \<Rightarrow> 'k mach \<Rightarrow> 'k mach option" where
  "free_wq w m = do {
     wq \<leftarrow> wqs m w;
     dv \<leftarrow> devices m (wq_device wq);
     l \<leftarrow> list_del_from (dev_wqs dv) w;
     m \<leftarrow> upd_device (wq_device wq) (\<lambda>d. d\<lparr>dev_wqs := l\<rparr>) m;
     Some (m\<lparr>wqs := (wqs m)(w := None)\<rparr>)
   }"

definition free_group :: "ptr \<Rightarrow> 'k mach \<Rightarrow> 'k mach option" where
  "free_group g m = do {
     gr \<leftarrow> groups m g;
     dv \<leftarrow> devices m (grp_device gr);
     l \<leftarrow> list_del_from (dev_groups dv) g;
     m \<leftarrow> upd_device (grp_device gr) (\<lambda>d. d\<lparr>dev_groups := l\<rparr>) m;
     Some (m\<lparr>groups := (groups m)(g := None)\<rparr>)
   }"

text \<open>\<open>free_device (device, &ctx->devices)\<close>: \<open>head\<close> is the context whose list holds the device.\<close>

definition free_device :: "ptr \<Rightarrow> ptr \<Rightarrow> 'k mach \<Rightarrow> 'k mach option" where
  "free_device device head m = do {
     dv \<leftarrow> devices m device;
     m \<leftarrow> foreach_run free_group (dev_groups dv) m;
     dv \<leftarrow> devices m device;
     m \<leftarrow> foreach_run free_wq (dev_wqs dv) m;
     dv \<leftarrow> devices m device;
     m \<leftarrow> foreach_run free_engine (dev_engines dv) m;
     m \<leftarrow> (if head \<noteq> 0 then do {
             cx \<leftarrow> ctxs m head;
             l \<leftarrow> list_del_from (c_devices cx) device;
             upd_ctx head (\<lambda>c. c\<lparr>c_devices := l\<rparr>) m
           } else Some m);
     Some (m\<lparr>devices := (devices m)(device := None)\<rparr>)
   }"

definition free_context :: "ptr \<Rightarrow> 'k mach \<Rightarrow> 'k mach option" where
  "free_context ctx m = do {
     cx \<leftarrow> ctxs m ctx;
     m \<leftarrow> foreach_run (\<lambda>d. free_device d ctx) (c_devices cx) m;
     Some (m\<lparr>ctxs := (ctxs m)(ctx := None)\<rparr>)
   }"

definition accfg_unref :: "ptr \<Rightarrow> 'k mach \<Rightarrow> ('k, ptr) run" where
  "accfg_unref ctx m =
     (if ctx = 0 then Some (0, m)
      else do {
        m \<leftarrow> upd_ctx ctx (\<lambda>c. c\<lparr>c_refcount := s32 (c_refcount c - 1)\<rparr>) m;
        cx \<leftarrow> ctxs m ctx;
        if c_refcount cx > 0 then Some (0, m)
        else do {
          m \<leftarrow> free_context ctx m;
          Some (0, m)
        }
      })"

end
