(* ===== verification/Accfg_Attr.thy ===== *)
theory Accfg_Attr
  imports Accfg_Core
begin

text \<open>
  The end that every attribute setter of libaccfg shares: write the text to the attribute; when that
  fails record the error and answer \<open>-errno\<close>, else assign the cached value and answer 0.  The locale
  \<open>attr_setter\<close> is the contract a setter keeps, from which the facts about sequences of settings follow
  once for all setters.
\<close>

definition attr_commit ::
  "'k os \<Rightarrow> string \<Rightarrow> string \<Rightarrow> ptr \<Rightarrow> ptr \<Rightarrow> ptr \<Rightarrow> ptr \<Rightarrow> ('k mach \<Rightarrow> 'k mach option) \<Rightarrow> 'k mach \<Rightarrow> ('k, int) run" where
  "attr_commit os path buf device wq grp engine assign m =
     (case sysfs_write_attr os path buf m of (rc, m) \<Rightarrow>
      if rc < 0 then do {
        m \<leftarrow> save_last_error os device wq grp engine m;
        Some (- errno m, m)
      }
      else do {
        m \<leftarrow> assign m;
        Some (0, m)
      })"


section \<open>Error numbers stay positive\<close>

lemma sys_errno_pos:
  assumes "os_ok os" "0 < errno m"
  shows "0 < errno (snd (sys_open os p f m))" "0 < errno (snd (sys_read os p n m))" "0 < errno (snd (sys_alloc os m))"
  using assms
  by (auto simp: sys_call_defs ENOMEM_def split: option.split sum.split prod.split dest: os_ok_open os_ok_read)

lemma sysfs_read_attr_errno_pos:
  "os_ok os \<Longrightarrow> 0 < errno m \<Longrightarrow> 0 < errno (snd (snd (sysfs_read_attr os path m)))"
  by (auto simp: sysfs_read_attr_def case_prod_beta sys_errno_pos split: option.split)

lemma accfg_device_get_cmd_status_errno:
  "os_ok os \<Longrightarrow> 0 < errno m \<Longrightarrow> wlp (accfg_device_get_cmd_status os d m) (\<lambda>(v, m'). 0 < errno m')"
  by (simp add: accfg_device_get_cmd_status_def Let_def case_prod_beta split: option.split)
    (simp add: wlp_iff sysfs_read_attr_errno_pos ERANGE_def)

lemma save_last_error_errno:
  assumes "os_ok os" "0 < errno m"
  shows "wlp (save_last_error os d w g e m) (\<lambda>m'. 0 < errno m')"
proof -
  have *: "wlp (do { (status, m) \<leftarrow> accfg_device_get_cmd_status os d m1;
       upd_ctx p (\<lambda>c. c\<lparr>c_error_ctx := Some \<lparr>ec_cmd_status = status, ec_device = d, ec_group = g,
                                     ec_wq = w, ec_engine = e\<rparr>\<rparr>) m }) (\<lambda>m'. 0 < errno m')"
    if "0 < errno m1" for m1 p
    unfolding wlp_simps
    by (rule wlp_mono [OF accfg_device_get_cmd_status_errno [OF assms(1) that]])
      (auto simp: upd_ctx_def wlp_iff bind_Some_iff)
  show ?thesis
    using * [of "snd (sys_alloc os m)"] * [of m] sys_errno_pos(3) [OF assms] assms(2)
    by (simp add: save_last_error_def case_prod_beta wlp_iff [of "devices m d"] wlp_iff [of "ctxs m _"])
qed

lemma sysfs_write_attr_errno:
  "os_ok os \<Longrightarrow> fst (sysfs_write_attr os path buf m) < 0 \<Longrightarrow> 0 < errno (snd (sysfs_write_attr os path buf m))"
  by (cases rule: write_attr_cases [of os path m buf]) (auto simp: sysfs_write_attr_def)

lemma sysfs_write_attr_rc: "os_ok os \<Longrightarrow> 0 \<le> errno m \<Longrightarrow> fst (sysfs_write_attr os path buf m) \<le> 0"
  by (cases rule: write_attr_cases [of os path m buf])
    (auto simp: sysfs_write_attr_def dest: os_ok_open os_ok_write)

text \<open>The two outcomes of a setter's end.\<close>

lemma attr_commit_wp:
  fixes m :: "'k mach"
  assumes "os_ok os" "wf_state m" "devices m d = Some dv"
    and "assign (snd (sysfs_write_attr os path buf m)) = Some m1"
  shows "wp (attr_commit os path buf d w g e assign m) (\<lambda>(rc, m').
     if fst (sysfs_write_attr os path buf m) < 0 then rc < 0 \<and> error_frame m m' else rc = 0 \<and> m' = m1)"
proof (cases "fst (sysfs_write_attr os path buf m) < 0")
  case True
  let ?m = "snd (sysfs_write_attr os path buf m)"
  have "sys_only m ?m" by (simp add: sys_only_def)
  then have frame: "error_frame m ?m" by (rule error_frame_sys)
  have "wp (save_last_error os d w g e ?m) (\<lambda>m'. error_frame ?m m' \<and> 0 < errno m')"
    using assms(3) wf_error_frame [OF frame assms(2)]
    by (intro wp_wlp_conj save_last_error_wp [OF assms(1)] save_last_error_errno [OF assms(1)]
        sysfs_write_attr_errno [OF assms(1) True]) auto
  with True show ?thesis
    by (auto simp: attr_commit_def case_prod_beta elim!: wp_mono intro: error_frame_trans [OF frame])
qed (simp add: attr_commit_def case_prod_beta assms(4))

lemma attr_commit_wf_wp:
  fixes m :: "'k mach"
  assumes "os_ok os" "wf_state m" "devices m d = Some dv"
    and "assign (snd (sysfs_write_attr os path buf m)) = Some m1" "shape m1 = shape m"
  shows "wp (attr_commit os path buf d w g e assign m) (\<lambda>(rc, m'). wf_state m' \<and>
     (if fst (sysfs_write_attr os path buf m) < 0 then rc < 0 \<and> error_frame m m' else rc = 0 \<and> m' = m1))"
  using wf_shape [OF assms(5) [symmetric] assms(2)] wf_error_frame [OF _ assms(2)]
  by (intro wp_mono [OF attr_commit_wp [where assign = assign, OF assms(1-4)]]) (auto split: if_splits)


section \<open>The contract of a setter\<close>

text \<open>Setting a list of values one after the other.\<close>

fun set_all :: "(ptr \<Rightarrow> 'v \<Rightarrow> 'k mach \<Rightarrow> ('k, int) run) \<Rightarrow> ptr \<Rightarrow> 'v list \<Rightarrow> 'k mach \<Rightarrow> ('k, int list) run" where
  "set_all setter p [] m = Some ([], m)"
| "set_all setter p (v # vs) m = do {
     (rc, m) \<leftarrow> setter p v m;
     (rcs, m) \<leftarrow> set_all setter p vs m;
     Some (rc # rcs, m)
   }"

definition accepted :: "int list \<Rightarrow> 'v list \<Rightarrow> 'v list" where
  "accepted rcs vs = map snd (filter (\<lambda>(rc, v). rc = 0) (zip rcs vs))"

text \<open>
  A setting \<open>f\<close> of object \<open>p\<close>: it is defined, answers 0 or a negative code, and changes the object by \<open>st\<close>
  exactly when it answers 0; no other object of the kind changes.
\<close>

definition setting :: "'k os \<Rightarrow> ('k mach \<Rightarrow> ptr \<rightharpoonup> 'o) \<Rightarrow> ptr \<Rightarrow> ('k mach \<Rightarrow> ('k, int) run) \<Rightarrow> ('o \<Rightarrow> 'o) \<Rightarrow> bool" where
  "setting os obj p f st \<longleftrightarrow> (\<forall>m x. os_ok os \<longrightarrow> wf_state m \<longrightarrow> obj m p = Some x \<longrightarrow>
     wp (f m) (\<lambda>(rc, m'). wf_state m' \<and> rc \<le> 0 \<and> obj m' = (obj m)(p \<mapsto> if rc = 0 then st x else x)))"

text \<open>
  \<open>obj\<close> is the heap of the objects the setter works on, \<open>attr_file\<close> the attribute it writes, \<open>render\<close> the text
  and \<open>store\<close> the new cached value.  A setter answers 0 and changes the object exactly when the write
  succeeds, and otherwise answers a negative code and leaves every object as it was.
\<close>

locale attr_setter =
  fixes os :: "'k os"
    and setter :: "ptr \<Rightarrow> 'v \<Rightarrow> 'k mach \<Rightarrow> ('k, int) run"
    and obj :: "'k mach \<Rightarrow> ptr \<rightharpoonup> 'o"
    and attr_file :: "'k mach \<Rightarrow> 'o \<Rightarrow> string"
    and render :: "'v \<Rightarrow> string"
    and store :: "'v \<Rightarrow> 'o \<Rightarrow> 'o"
  assumes setter_wp: "\<lbrakk>os_ok os; wf_state m; obj m p = Some x\<rbrakk> \<Longrightarrow>
      wp (setter p v m) (\<lambda>(rc, m'). wf_state m' \<and>
        (if rc = 0 then obj m' = (obj m)(p \<mapsto> store v x) else rc < 0 \<and> obj m' = obj m) \<and>
        (\<exists>m0 :: 'k mach. kern m0 = kern m \<and> (rc = 0 \<longleftrightarrow> \<not> fst (sysfs_write_attr os (attr_file m x) (render v) m0) < 0)))"
begin

text \<open>After a sequence of settings the last one that was accepted is cached.\<close>

lemma set_all_wp:
  assumes "os_ok os" "wf_state m" "obj m p = Some x"
  shows "wp (set_all setter p vs m) (\<lambda>(rcs, m'). wf_state m' \<and> length rcs = length vs \<and> (\<forall>rc \<in> set rcs. rc \<le> 0) \<and>
     obj m' p = Some (fold store (accepted rcs vs) x) \<and>
     (\<forall>q. q \<noteq> p \<longrightarrow> obj m' q = obj m q))"
  using assms(2,3)
proof (induction vs arbitrary: m x)
  case (Cons v vs)
  from setter_wp [OF assms(1) Cons.prems, of v] obtain rc m1 where m1: "setter p v m = Some (rc, m1)" "wf_state m1"
    "if rc = 0 then obj m1 = (obj m)(p \<mapsto> store v x) else rc < 0 \<and> obj m1 = obj m" by (auto simp: wp_iff)
  then have "obj m1 p = Some (if rc = 0 then store v x else x)" using Cons.prems(2) by (auto split: if_splits)
  from Cons.IH [OF m1(2) this] obtain rcs m2 where "set_all setter p vs m1 = Some (rcs, m2)" "wf_state m2"
    "length rcs = length vs" "\<forall>rc \<in> set rcs. rc \<le> 0"
    "obj m2 p = Some (fold store (accepted rcs vs) (if rc = 0 then store v x else x))"
    "\<forall>q. q \<noteq> p \<longrightarrow> obj m2 q = obj m1 q" by (auto simp: wp_iff)
  with m1 show ?case by (auto simp: accepted_def split: if_splits)
qed (simp add: accepted_def)

text \<open>One setting of the attribute is a setting.\<close>

lemma setting: "setting os obj p (setter p v) (store v)"
proof -
  have *: "wf_state m \<and> (if rc = 0 then m2 = m1(p \<mapsto> store v x) else rc < 0 \<and> m2 = m1) \<and> R \<Longrightarrow> m1 p = Some x \<Longrightarrow>
     rc \<le> 0 \<and> m2 = m1(p \<mapsto> if rc = 0 then store v x else x)" for m :: "'k mach" and rc :: int and m1 m2 x R
    by (auto split: if_splits)
  show ?thesis
    unfolding setting_def by (intro allI impI, rule wp_mono, rule setter_wp) (auto dest: *)
qed

end

end
