(* ===== verification/Accfg_Inv.thy ===== *)
theory Accfg_Inv
  imports Accfg_Core
begin

text \<open>
  Discovery, iteration and release keep the object graph of libaccfg well-formed and never read a
  null or freed pointer, as long as memory does not run out and every work-queue directory has a
  readable \<open>type\<close>.  The walks over sysfs are instances of \<open>add_dev_contract\<close>.
\<close>

section \<open>New objects\<close>

lemma new_ptr_ok:
  "alloc_ok os \<Longrightarrow> new_ptr os m = (next_ptr m, m\<lparr>next_ptr := next_ptr m + 1\<rparr>)"
  by (simp add: new_ptr_def sys_alloc_ok)

text \<open>One step of a chain of reads, which keep everything but the kernel and \<open>errno\<close>.\<close>

lemma wp_read_step:
  assumes "sys.more (snd p) = sys.more m0" "kern (snd p) = kern m0"
    and "\<And>x m'. sys.more m' = sys.more m0 \<Longrightarrow> kern m' = kern m0 \<Longrightarrow> wp (g x m') Q"
  shows "wp (let (x, m') = p in g x m') Q"
  using assms(3) [OF assms(1,2)] by (simp add: case_prod_beta Let_def)

lemma accfg_get_param_str_kern [simp]: "alloc_ok os \<Longrightarrow> kern (snd (accfg_get_param_str os dfd name m)) = kern m"
  by (simp add: accfg_get_param_str_def sys_alloc_ok case_prod_beta split: option.split)

lemma wf_next_ptr: "wf_state m \<Longrightarrow> wf_state (m\<lparr>next_ptr := next_ptr m + 1\<rparr>)"
  unfolding wf_state_def group_ref_def by simp

lemma wf_sys_only:
  fixes m m' :: "'k mach"
  shows "wf_state m \<Longrightarrow> sys.more m' = sys.more m \<Longrightarrow> wf_state m'"
  using wf_shape [of m m'] sys_onlyD(9) [of m m'] by (simp add: sys_only_def)

lemma group_ref_mono: "group_ref m d g \<Longrightarrow> groups m \<subseteq>\<^sub>m groups m' \<Longrightarrow> group_ref m' d g"
  unfolding group_ref_def map_le_def by (metis domI)

text \<open>Linking a new engine, work queue, group or device.\<close>

lemma wf_add_engine:
  assumes "wf_state m" "devices m d = Some dv" "e < next_ptr m" "0 < e" "engines m e = None"
    and "eng_device en = d" "path_ok (eng_path en) (eng_buf_len en)" "group_ref m d (eng_group en)"
  shows "wf_state (m\<lparr>engines := (engines m)(e \<mapsto> en),
     devices := (devices m)(d \<mapsto> dv\<lparr>dev_engines := dev_engines dv @ [e]\<rparr>)\<rparr>)"
proof -
  note w = wfD [OF assms(1)]
  let ?D = "(devices m)(d \<mapsto> dv\<lparr>dev_engines := dev_engines dv @ [e]\<rparr>)"
  have "linked dev_engines eng_device ?D ((engines m)(e \<mapsto> en))"
    by (rule linked_add [OF w(4) assms(2,5)]) (simp_all add: assms(6))
  moreover have "linked c_devices dev_ctx (ctxs m) ?D" "linked dev_groups grp_device ?D (groups m)" "linked dev_wqs wq_device ?D (wqs m)"
    using w(1-3) assms(2) by (auto elim!: linked_cong [THEN iffD1, rotated 2])
  ultimately show ?thesis
    using w(5-10) assms(2-8) wf_live(2) [OF assms(1,2)] unfolding wf_state_def group_ref_def by auto
qed

lemma wf_add_wq:
  assumes "wf_state m" "devices m d = Some dv" "w < next_ptr m" "0 < w" "wqs m w = None"
    and "wq_device wq = d" "path_ok (wq_path wq) (wq_buf_len wq)" "group_ref m d (wq_group wq)"
  shows "wf_state (m\<lparr>wqs := (wqs m)(w \<mapsto> wq),
     devices := (devices m)(d \<mapsto> dv\<lparr>dev_wqs := dev_wqs dv @ [w]\<rparr>)\<rparr>)"
proof -
  note w = wfD [OF assms(1)]
  let ?D = "(devices m)(d \<mapsto> dv\<lparr>dev_wqs := dev_wqs dv @ [w]\<rparr>)"
  have "linked dev_wqs wq_device ?D ((wqs m)(w \<mapsto> wq))"
    by (rule linked_add [OF w(3) assms(2,5)]) (simp_all add: assms(6))
  moreover have "linked c_devices dev_ctx (ctxs m) ?D" "linked dev_groups grp_device ?D (groups m)" "linked dev_engines eng_device ?D (engines m)"
    using w(1,2,4) assms(2) by (auto elim!: linked_cong [THEN iffD1, rotated 2])
  ultimately show ?thesis
    using w(5-10) assms(2-8) wf_live(2) [OF assms(1,2)] unfolding wf_state_def group_ref_def by auto
qed

lemma wf_add_group:
  assumes "wf_state m" "devices m d = Some dv" "g < next_ptr m" "0 < g" "groups m g = None"
    and "grp_device gr = d" "path_ok (grp_path gr) (grp_buf_len gr)"
  shows "wf_state (m\<lparr>groups := (groups m)(g \<mapsto> gr),
     devices := (devices m)(d \<mapsto> dv\<lparr>dev_group := g, dev_groups := dev_groups dv @ [g]\<rparr>)\<rparr>)"
proof -
  note w = wfD [OF assms(1)]
  let ?D = "(devices m)(d \<mapsto> dv\<lparr>dev_group := g, dev_groups := dev_groups dv @ [g]\<rparr>)"
  have "linked dev_groups grp_device ?D ((groups m)(g \<mapsto> gr))"
    by (rule linked_add [OF w(2) assms(2,5)]) (simp_all add: assms(6))
  moreover have "linked c_devices dev_ctx (ctxs m) ?D" "linked dev_wqs wq_device ?D (wqs m)" "linked dev_engines eng_device ?D (engines m)"
    using w(1,3,4) assms(2) by (auto elim!: linked_cong [THEN iffD1, rotated 2])
  moreover have "group_ref (m\<lparr>groups := (groups m)(g \<mapsto> gr), devices := ?D\<rparr>) d' g'" if "group_ref m d' g'" for d' g'
    using that assms(5) by (auto simp: group_ref_def)
  moreover have "group_ref (m\<lparr>groups := (groups m)(g \<mapsto> gr), devices := ?D\<rparr>) d g"
    using assms(6) by (simp add: group_ref_def)
  ultimately show ?thesis
    using w(5-10) assms(2-7) wf_live(2) [OF assms(1,2)] unfolding wf_state_def by auto
qed

lemma wf_add_device:
  assumes "wf_state m" "ctxs m c = Some cx" "d < next_ptr m" "0 < d" "devices m d = None"
    and "dev_ctx dv = c" "path_ok (dev_path dv) (dev_buf_len dv)" "dev_group dv = 0"
    and "dev_groups dv = []" "dev_wqs dv = []" "dev_engines dv = []"
  shows "wf_state (m\<lparr>devices := (devices m)(d \<mapsto> dv),
     ctxs := (ctxs m)(c \<mapsto> cx\<lparr>c_devices := c_devices cx @ [d]\<rparr>)\<rparr>)"
proof -
  note w = wfD [OF assms(1)]
  have "linked c_devices dev_ctx ((ctxs m)(c \<mapsto> cx\<lparr>c_devices := c_devices cx @ [d]\<rparr>)) ((devices m)(d \<mapsto> dv))"
    by (rule linked_add [OF w(1) assms(2,5)]) (simp_all add: assms(6))
  moreover have "linked dev_groups grp_device ((devices m)(d \<mapsto> dv)) (groups m)"
    "linked dev_wqs wq_device ((devices m)(d \<mapsto> dv)) (wqs m)"
    "linked dev_engines eng_device ((devices m)(d \<mapsto> dv)) (engines m)"
    using w(2-4) assms(5,9-11) by (simp_all add: linked_new_owner)
  ultimately show ?thesis
    using w(5-10) assms(2-8) wf_live(1) [OF assms(1,2)] unfolding wf_state_def group_ref_def by auto
qed


section \<open>The add functions\<close>

lemma wp_read:
  assumes "sys.more (snd p) = sys.more m0" "kern (snd p) = kern m0"
    and "\<And>x m'. sys.more m' = sys.more m0 \<Longrightarrow> kern m' = kern m0 \<Longrightarrow> Q (g x m')"
  shows "Q (case p of (x, m') \<Rightarrow> g x m')"
  using assms(3) [OF assms(1,2)] by (simp add: case_prod_beta)

lemma device_read_params_more [simp]:
  "sys.more (snd (device_read_params os dfd m)) = sys.more m" "kern (snd (device_read_params os dfd m)) = kern m"
  by (simp_all add: device_read_params_def Let_def case_prod_beta)

lemma wq_read_params_more [simp]:
  "sys.more (snd (wq_read_params os dfd m)) = sys.more m"
  "alloc_ok os \<Longrightarrow> kern (snd (wq_read_params os dfd m)) = kern m"
  by (simp_all add: wq_read_params_def Let_def case_prod_beta)

lemma group_read_params_more [simp]:
  "sys.more (snd (group_read_params os dfd m)) = sys.more m"
  "alloc_ok os \<Longrightarrow> kern (snd (group_read_params os dfd m)) = kern m"
  by (simp_all add: group_read_params_def Let_def case_prod_beta)

lemmas read_params_fields [simp] =
  sys_only_fields [OF device_read_params_more(1)] sys_only_fields [OF wq_read_params_more(1)]
  sys_only_fields [OF group_read_params_more(1)]

lemma wf_fields:
  assumes "wf_state m" "ctxs m' = ctxs m" "devices m' = devices m" "groups m' = groups m" "wqs m' = wqs m"
    "engines m' = engines m" "next_ptr m' = next_ptr m"
  shows "wf_state m'"
  by (rule wf_shape [OF _ assms(1)]) (simp add: shape_def assms)

text \<open>An entry of a device directory that a child is made of: it can be opened and its name parses.\<close>

definition child_found :: "'k os \<Rightarrow> string \<Rightarrow> string \<Rightarrow> 'k \<Rightarrow> bool" where
  "child_found os pfx base k \<longleftrightarrow> os_open os base O_PATH k = None \<and> scan_child pfx (basename base) \<noteq> None"

lemma sys_open_fst: "fst (sys_open os p f m) \<longleftrightarrow> os_open os p f (kern m) = None"
  by (simp add: sys_call_defs split: option.split)

lemma path_ok_new: "CHR ''/'' \<in> set base \<Longrightarrow> path_ok base (length base + MAX_BUF_LEN)"
  by (simp add: path_ok_def)

lemma group_ref_next_ptr [simp]: "group_ref (m\<lparr>next_ptr := n\<rparr>) d g = group_ref m d g"
  by (simp add: group_ref_def)

lemma add_engine_wp:
  assumes "alloc_ok os" "wf_state m" "devices m d = Some dv" "CHR ''/'' \<in> set base"
  shows "wp (add_engine os d i base pfx bus m) (\<lambda>(p, m'). wf_state m' \<and> kern m' = kern m \<and> ctxs m' = ctxs m
     \<and> (p \<noteq> 0 \<longleftrightarrow> child_found os ''engine'' base (kern m))
     \<and> (if p = 0 then devices m' = devices m \<and> engines m' = engines m
        else p = next_ptr m \<and> map_option eng_path (engines m' p) = Some base \<and> engines m' = (engines m)(p := engines m' p)
          \<and> devices m' = (devices m)(d \<mapsto> dv\<lparr>dev_engines := dev_engines dv @ [p]\<rparr>)))"
proof -
  have d: "d \<noteq> 0" "0 < next_ptr m" using wf_live(2) [OF assms(2,3)] by simp_all
  have none: "engines m (next_ptr m) = None" using wf_fresh(5) [OF assms(2), of "next_ptr m"] by simp
  have wf1: "wf_state (m\<lparr>next_ptr := Suc (next_ptr m)\<rparr>)" using wf_next_ptr [OF assms(2)] by simp
  note add = wf_add_engine [OF wf1, of d dv "next_ptr m"] wf_device(4) [OF assms(2,3)]
  show ?thesis
  proof (cases "os_open os base O_PATH (kern m)")
    case (Some e)
    with assms(2,3) d show ?thesis
      by (auto simp: add_engine_def sys_call_defs child_found_def intro: wf_fields)
  next
    case None
    then have op: "sys_open os base O_PATH m = (True, m)" by (simp add: sys_call_defs)
    show ?thesis
    proof (cases "scan_child ''engine'' (basename base)")
      case scan: None
      with op d assms(1,3) wf1 show ?thesis
        by (simp add: add_engine_def child_found_def new_ptr_ok sys_alloc_ok)
    next
      case (Some ids)
      with op d assms wf1 None none show ?thesis
        by (auto simp: add_engine_def child_found_def new_ptr_ok sys_alloc_ok upd_device_def case_prod_beta
            path_ok_new intro!: wf_fields [OF add(1)] add(2))
    qed
  qed
qed

lemma add_group_wp:
  assumes "alloc_ok os" "wf_state m" "devices m d = Some dv" "CHR ''/'' \<in> set base"
  shows "wp (add_group os d i base pfx bus m) (\<lambda>(p, m'). wf_state m' \<and> kern m' = kern m \<and> ctxs m' = ctxs m
     \<and> (p \<noteq> 0 \<longleftrightarrow> child_found os ''group'' base (kern m))
     \<and> (if p = 0 then devices m' = devices m \<and> groups m' = groups m
        else p = next_ptr m \<and> map_option grp_path (groups m' p) = Some base \<and> groups m' = (groups m)(p := groups m' p)
          \<and> devices m' = (devices m)(d \<mapsto> dv\<lparr>dev_group := p, dev_groups := dev_groups dv @ [p]\<rparr>)))"
proof -
  have d: "d \<noteq> 0" "0 < next_ptr m" using wf_live(2) [OF assms(2,3)] by simp_all
  have none: "groups m (next_ptr m) = None" using wf_fresh(3) [OF assms(2), of "next_ptr m"] by simp
  have wf1: "wf_state (m\<lparr>next_ptr := Suc (next_ptr m)\<rparr>)" using wf_next_ptr [OF assms(2)] by simp
  note add = wf_add_group [OF wf1, of d dv "next_ptr m"] wf_device(4) [OF assms(2,3)]
  show ?thesis
  proof (cases "os_open os base O_PATH (kern m)")
    case (Some e)
    with assms(2,3) d show ?thesis
      by (auto simp: add_group_def sys_call_defs child_found_def intro: wf_fields)
  next
    case None
    then have op: "sys_open os base O_PATH m = (True, m)" by (simp add: sys_call_defs)
    show ?thesis
    proof (cases "scan_child ''group'' (basename base)")
      case scan: None
      with op d assms(1,3) wf1 show ?thesis
        by (simp add: add_group_def child_found_def new_ptr_ok sys_alloc_ok)
    next
      case (Some ids)
      with op d assms wf1 None none show ?thesis
        by (auto simp: add_group_def child_found_def new_ptr_ok sys_alloc_ok upd_device_def case_prod_beta
            path_ok_new intro!: wf_fields [OF add(1)] add(2))
    qed
  qed
qed

text \<open>The type attribute of a work-queue directory can be read and is not empty.\<close>

definition wq_type_readable :: "'k os \<Rightarrow> string \<Rightarrow> 'k \<Rightarrow> bool" where
  "wq_type_readable os base k \<longleftrightarrow> os_open os (base @ ''/type'') O_RDONLY k = None
     \<and> (case os_read os (base @ ''/type'') (MAX_PARAM_LEN - 1) k of Inl _ \<Rightarrow> False | Inr s \<Rightarrow> s \<noteq> [])"

lemma accfg_get_param_str_type:
  assumes "alloc_ok os" "wq_type_readable os base (kern m)"
  shows "\<exists>s. fst (accfg_get_param_str os base ''type'' m) = Some s"
  using assms
  by (auto simp: accfg_get_param_str_def wq_type_readable_def sys_call_defs sys_alloc_ok alloc_ok_def MAX_PARAM_LEN_def
      split: sum.splits)

lemma wq_read_params_type:
  assumes "alloc_ok os" "wq_type_readable os base (kern m)"
  shows "\<exists>s. snd (fst (wq_read_params os base m)) = Some s"
  using assms by (auto simp: wq_read_params_def Let_def case_prod_beta intro!: accfg_get_param_str_type)

lemma wq_parse_type_defined:
  assumes "alloc_ok os"
  shows "\<exists>rc t. wq_parse_type os (Some s) m = Some ((rc, t), m)"
  using assms by (simp add: wq_parse_type_def sys_alloc_ok Let_def split: option.split)

lemma add_wq_wp:
  assumes "alloc_ok os" "wf_state m" "devices m d = Some dv" "CHR ''/'' \<in> set base" "wq_type_readable os base (kern m)"
  shows "wp (add_wq os d i base pfx bus m) (\<lambda>(p, m'). wf_state m' \<and> kern m' = kern m \<and> ctxs m' = ctxs m
     \<and> (p \<noteq> 0 \<longleftrightarrow> child_found os ''wq'' base (kern m))
     \<and> (if p = 0 then devices m' = devices m \<and> wqs m' = wqs m
        else p = next_ptr m \<and> map_option wq_path (wqs m' p) = Some base \<and> wqs m' = (wqs m)(p := wqs m' p)
          \<and> devices m' = (devices m)(d \<mapsto> dv\<lparr>dev_wqs := dev_wqs dv @ [p]\<rparr>)))"
proof -
  have d: "d \<noteq> 0" "0 < next_ptr m" using wf_live(2) [OF assms(2,3)] by simp_all
  have none: "wqs m (next_ptr m) = None" using wf_fresh(4) [OF assms(2), of "next_ptr m"] by simp
  have wf1: "wf_state (m\<lparr>next_ptr := Suc (next_ptr m)\<rparr>)" using wf_next_ptr [OF assms(2)] by simp
  note add = wf_add_wq [OF wf1, of d dv "next_ptr m"] wf_device(4) [OF assms(2,3)]
  let ?r = "wq_read_params os base (m\<lparr>next_ptr := Suc (next_ptr m)\<rparr>)"
  obtain s where s: "snd (fst ?r) = Some s"
    using wq_read_params_type [OF assms(1), of base "m\<lparr>next_ptr := Suc (next_ptr m)\<rparr>"] assms(5) by auto
  then obtain rc t where parse: "wq_parse_type os (snd (fst ?r)) (snd ?r) = Some ((rc, t), snd ?r)"
    using wq_parse_type_defined [OF assms(1)] by fastforce
  show ?thesis
  proof (cases "os_open os base O_PATH (kern m)")
    case (Some e)
    with assms(2,3) d show ?thesis
      by (auto simp: add_wq_def sys_call_defs child_found_def intro: wf_fields)
  next
    case None
    then have op: "sys_open os base O_PATH m = (True, m)" by (simp add: sys_call_defs)
    show ?thesis
    proof (cases "scan_child ''wq'' (basename base)")
      case scan: None
      with op d assms(1,3) wf1 show ?thesis
        by (simp add: add_wq_def child_found_def new_ptr_ok sys_alloc_ok)
    next
      case (Some ids)
      with op d assms wf1 None none show ?thesis
        by (auto simp: add_wq_def child_found_def new_ptr_ok sys_alloc_ok upd_device_def case_prod_beta path_ok_new
            parse intro!: wf_fields [OF add(1)] add(2))
    qed
  qed
qed

lemma device_read_params_links:
  "dev_group (fst (device_read_params os dfd m)) = 0" "dev_groups (fst (device_read_params os dfd m)) = []"
  "dev_wqs (fst (device_read_params os dfd m)) = []" "dev_engines (fst (device_read_params os dfd m)) = []"
  by (simp_all add: device_read_params_def Let_def case_prod_beta)

text \<open>A device directory: it can be opened and resolved, and its prefix names a device type.\<close>

definition device_found :: "'k os \<Rightarrow> string \<Rightarrow> string \<Rightarrow> 'k \<Rightarrow> bool" where
  "device_found os pfx base k \<longleftrightarrow> os_open os base O_PATH k = None \<and> (\<exists>s. os_realpath os base k = Inr s)
     \<and> device_parse_type pfx \<noteq> None"

lemma same_dirs_refl: "same_dirs os k k"
  by (simp add: same_dirs_def)

lemma dirs_stable_write:
  "dirs_stable os \<Longrightarrow> os_write os p b k = (r, k') \<Longrightarrow> os_open os p O_RDWR k = None \<Longrightarrow> same_dirs os k k'"
  unfolding dirs_stable_def by (metis snd_conv)

lemma accfg_set_param_dirs:
  "dirs_stable os \<Longrightarrow> same_dirs os (kern m) (kern (snd (accfg_set_param os dfd name b m)))"
  by (auto simp: accfg_set_param_def sys_call_defs split: option.splits prod.splits sum.splits
      intro: same_dirs_refl dest: dirs_stable_write)

lemma add_device_wp:
  assumes "os_ok os" "alloc_ok os" "dirs_stable os" "wf_state m" "ctxs m c = Some cx"
  shows "wp (add_device os c (Some i) base pfx bus m) (\<lambda>(p, m'). wf_state m' \<and> same_dirs os (kern m) (kern m')
     \<and> (p \<noteq> 0 \<longleftrightarrow> device_found os pfx base (kern m))
     \<and> (if p = 0 then devices m' = devices m \<and> ctxs m' = ctxs m
        else p = next_ptr m \<and> map_option dev_path (devices m' p) = Some (projr (os_realpath os base (kern m)))
          \<and> devices m' = (devices m)(p := devices m' p)
          \<and> ctxs m' = (ctxs m)(c \<mapsto> cx\<lparr>c_devices := c_devices cx @ [p]\<rparr>)))"
proof (cases "os_open os base O_PATH (kern m)")
  case (Some e)
  with assms(4) show ?thesis
    by (auto simp: add_device_def sys_call_defs device_found_def same_dirs_def intro: wf_fields)
next
  case None
  have c: "0 < next_ptr m" using wf_live(1) [OF assms(4,5)] by simp
  have none: "devices m (next_ptr m) = None" using wf_fresh(2) [OF assms(4), of "next_ptr m"] by simp
  have wf1: "wf_state (m\<lparr>next_ptr := Suc (next_ptr m)\<rparr>)" using wf_next_ptr [OF assms(4)] by simp
  note add = wf_add_device [OF wf1, of c cx "next_ptr m"]
  let ?m1 = "snd (accfg_set_param os base ''cmd_status'' ''1'' m)"
  have dirs: "same_dirs os (kern m) (kern ?m1)" by (rule accfg_set_param_dirs [OF assms(3)])
  then have rp: "os_realpath os base (kern ?m1) = os_realpath os base (kern m)" by (simp add: same_dirs_def)
  have op: "sys_open os base O_PATH m = (True, m)" using None by (simp add: sys_call_defs)
  note defs = add_device_def device_found_def new_ptr_ok sys_alloc_ok upd_ctx_def case_prod_beta None
  show ?thesis
  proof (cases "os_realpath os base (kern m)")
    case (Inl e)
    with op c dirs rp assms wf1 show ?thesis
      by (auto simp: defs sys_realpath_def sys_result_def intro: wf_fields [OF wf1])
  next
    case (Inr path)
    have "CHR ''/'' \<in> set path" using os_ok_realpath(2) [OF assms(1) Inr] .
    note facts = op c dirs rp assms Inr none this
    show ?thesis
    proof (cases "device_parse_type pfx")
      case None
      with facts show ?thesis
        by (auto simp: defs sys_realpath_def sys_result_def intro: wf_fields [OF wf1])
    next
      case (Some t)
      with facts show ?thesis
        by (auto simp: defs sys_realpath_def sys_result_def path_ok_new device_read_params_links
            intro!: wf_fields [OF add])
    qed
  qed
qed


section \<open>The directory walks\<close>

text \<open>The paths of a device's children, and of a context's devices, in list order.\<close>

definition engine_paths :: "ptr \<Rightarrow> 'k mach \<Rightarrow> string list" where
  "engine_paths d m = (case devices m d of None \<Rightarrow> [] | Some dv \<Rightarrow>
     map (\<lambda>e. case engines m e of None \<Rightarrow> [] | Some en \<Rightarrow> eng_path en) (dev_engines dv))"

definition wq_paths :: "ptr \<Rightarrow> 'k mach \<Rightarrow> string list" where
  "wq_paths d m = (case devices m d of None \<Rightarrow> [] | Some dv \<Rightarrow>
     map (\<lambda>w. case wqs m w of None \<Rightarrow> [] | Some wq \<Rightarrow> wq_path wq) (dev_wqs dv))"

definition group_paths :: "ptr \<Rightarrow> 'k mach \<Rightarrow> string list" where
  "group_paths d m = (case devices m d of None \<Rightarrow> [] | Some dv \<Rightarrow>
     map (\<lambda>g. case groups m g of None \<Rightarrow> [] | Some gr \<Rightarrow> grp_path gr) (dev_groups dv))"

definition device_paths :: "ptr \<Rightarrow> 'k mach \<Rightarrow> string list" where
  "device_paths c m = (case ctxs m c of None \<Rightarrow> [] | Some cx \<Rightarrow>
     map (\<lambda>d. case devices m d of None \<Rightarrow> [] | Some dv \<Rightarrow> dev_path dv) (c_devices cx))"

text \<open>The invariants of the walks: a well-formed state in which the parent is live.\<close>

definition child_inv :: "'k os \<Rightarrow> 'k \<Rightarrow> (ptr \<rightharpoonup> accfg_ctx) \<Rightarrow> string \<Rightarrow> ptr \<Rightarrow> 'k mach \<Rightarrow> bool" where
  "child_inv os k cs base d m \<longleftrightarrow>
     alloc_ok os \<and> wf_state m \<and> kern m = k \<and> ctxs m = cs \<and> (\<exists>dv. devices m d = Some dv \<and> dev_path dv = base)"

definition device_inv :: "'k os \<Rightarrow> 'k \<Rightarrow> ptr \<Rightarrow> 'k mach \<Rightarrow> bool" where
  "device_inv os k c m \<longleftrightarrow>
     os_ok os \<and> alloc_ok os \<and> dirs_stable os \<and> wf_state m \<and> same_dirs os k (kern m) \<and> (\<exists>cx. ctxs m c = Some cx)"

text \<open>The part of a list that is live does not see a pointer that was not allocated.\<close>

lemma paths_append:
  assumes "p \<notin> set ps" "map_option f (h' p) = Some s" "h' = h(p := h' p)"
  shows "map (\<lambda>q. case h' q of None \<Rightarrow> [] | Some y \<Rightarrow> f y) (ps @ [p])
     = map (\<lambda>q. case h q of None \<Rightarrow> [] | Some y \<Rightarrow> f y) ps @ [s]"
proof -
  have "h' q = h q" if "q \<in> set ps" for q using assms(1,3) that by (metis fun_upd_other)
  then show ?thesis using assms(2) by auto
qed

lemma fresh_not_listed:
  assumes "linked parts owner P C" "P p = Some x" "C c = None"
  shows "c \<notin> set (parts x)"
  using assms linked_part [OF assms(1,2)] by fastforce

interpretation engine_walk: add_dev_contract os "add_engine os" d base "''engine''" bus "\<lambda>_. True"
    "\<lambda>name. child_found os ''engine'' (base @ ''/'' @ name) k" "\<lambda>name. base @ ''/'' @ name"
    "child_inv os k cs base d" "engine_paths d"
  for os :: "'k os" and d base bus k cs
proof
  fix m :: "'k mach" and name
  assume "child_inv os k cs base d m"
  then obtain dv where m: "alloc_ok os" "wf_state m" "kern m = k" "devices m d = Some dv" "dev_path dv = base" "ctxs m = cs"
    by (auto simp: child_inv_def)
  have "CHR ''/'' \<in> set (base @ ''/'' @ name)" by simp
  from add_engine_wp [OF m(1,2,4) this, of "scan_id_value (scan_name name)" "''engine''" bus] obtain p m' where add:
    "add_engine os d (scan_id_value (scan_name name)) (base @ ''/'' @ name) ''engine'' bus m = Some (p, m')"
    "wf_state m'" "kern m' = k \<and> ctxs m' = cs" "p \<noteq> 0 \<longleftrightarrow> child_found os ''engine'' (base @ ''/'' @ name) k"
    "if p = 0 then devices m' = devices m \<and> engines m' = engines m
     else p = next_ptr m \<and> map_option eng_path (engines m' p) = Some (base @ ''/'' @ name)
       \<and> engines m' = (engines m)(p := engines m' p)
       \<and> devices m' = (devices m)(d \<mapsto> dv\<lparr>dev_engines := dev_engines dv @ [p]\<rparr>)"
    using m(3,6) by (auto simp: wp_iff)
  have "next_ptr m \<notin> set (dev_engines dv)"
    using fresh_not_listed [OF wfD(4) [OF m(2)] m(4)] wf_fresh(5) [OF m(2)] by simp
  then have "engine_paths d m' = engine_paths d m @ (if p \<noteq> 0 then [base @ ''/'' @ name] else [])"
    using add(5) m(4) paths_append [of p "dev_engines dv" eng_path "engines m'" "base @ ''/'' @ name" "engines m"]
    by (auto simp: engine_paths_def split: if_splits)
  then show "\<exists>p m'. add_engine os d (scan_id_value (scan_name name)) (base @ ''/'' @ name) ''engine'' bus m = Some (p, m')
      \<and> child_inv os k cs base d m' \<and> (p \<noteq> 0 \<longleftrightarrow> child_found os ''engine'' (base @ ''/'' @ name) k)
      \<and> engine_paths d m' = engine_paths d m
          @ (if child_found os ''engine'' (base @ ''/'' @ name) k then [base @ ''/'' @ name] else [])"
    using add m by (auto simp: child_inv_def split: if_splits)
qed (auto simp: child_inv_def sys_alloc_ok engine_paths_def intro: wf_fields)

interpretation group_walk: add_dev_contract os "add_group os" d base "''group''" bus "\<lambda>_. True"
    "\<lambda>name. child_found os ''group'' (base @ ''/'' @ name) k" "\<lambda>name. base @ ''/'' @ name"
    "child_inv os k cs base d" "group_paths d"
  for os :: "'k os" and d base bus k cs
proof
  fix m :: "'k mach" and name
  assume "child_inv os k cs base d m"
  then obtain dv where m: "alloc_ok os" "wf_state m" "kern m = k" "devices m d = Some dv" "dev_path dv = base" "ctxs m = cs"
    by (auto simp: child_inv_def)
  have "CHR ''/'' \<in> set (base @ ''/'' @ name)" by simp
  from add_group_wp [OF m(1,2,4) this, of "scan_id_value (scan_name name)" "''group''" bus] obtain p m' where add:
    "add_group os d (scan_id_value (scan_name name)) (base @ ''/'' @ name) ''group'' bus m = Some (p, m')"
    "wf_state m'" "kern m' = k \<and> ctxs m' = cs" "p \<noteq> 0 \<longleftrightarrow> child_found os ''group'' (base @ ''/'' @ name) k"
    "if p = 0 then devices m' = devices m \<and> groups m' = groups m
     else p = next_ptr m \<and> map_option grp_path (groups m' p) = Some (base @ ''/'' @ name)
       \<and> groups m' = (groups m)(p := groups m' p)
       \<and> devices m' = (devices m)(d \<mapsto> dv\<lparr>dev_group := p, dev_groups := dev_groups dv @ [p]\<rparr>)"
    using m(3,6) by (auto simp: wp_iff)
  have "next_ptr m \<notin> set (dev_groups dv)"
    using fresh_not_listed [OF wfD(2) [OF m(2)] m(4)] wf_fresh(3) [OF m(2)] by simp
  then have "group_paths d m' = group_paths d m @ (if p \<noteq> 0 then [base @ ''/'' @ name] else [])"
    using add(5) m(4) paths_append [of p "dev_groups dv" grp_path "groups m'" "base @ ''/'' @ name" "groups m"]
    by (auto simp: group_paths_def split: if_splits)
  then show "\<exists>p m'. add_group os d (scan_id_value (scan_name name)) (base @ ''/'' @ name) ''group'' bus m = Some (p, m')
      \<and> child_inv os k cs base d m' \<and> (p \<noteq> 0 \<longleftrightarrow> child_found os ''group'' (base @ ''/'' @ name) k)
      \<and> group_paths d m' = group_paths d m
          @ (if child_found os ''group'' (base @ ''/'' @ name) k then [base @ ''/'' @ name] else [])"
    using add m by (auto simp: child_inv_def split: if_splits)
qed (auto simp: child_inv_def sys_alloc_ok group_paths_def intro: wf_fields)

interpretation wq_walk: add_dev_contract os "add_wq os" d base "''wq''" bus "\<lambda>name. wq_type_readable os (base @ ''/'' @ name) k"
    "\<lambda>name. child_found os ''wq'' (base @ ''/'' @ name) k" "\<lambda>name. base @ ''/'' @ name"
    "child_inv os k cs base d" "wq_paths d"
  for os :: "'k os" and d base bus k cs
proof
  fix m :: "'k mach" and name
  assume "child_inv os k cs base d m"
  and readable: "wq_type_readable os (base @ ''/'' @ name) k"
  then obtain dv where m: "alloc_ok os" "wf_state m" "kern m = k" "devices m d = Some dv" "dev_path dv = base" "ctxs m = cs"
    by (auto simp: child_inv_def)
  have "CHR ''/'' \<in> set (base @ ''/'' @ name)" by simp
  from add_wq_wp [OF m(1,2,4) this, of "scan_id_value (scan_name name)" "''wq''" bus] readable m(3) obtain p m' where add:
    "add_wq os d (scan_id_value (scan_name name)) (base @ ''/'' @ name) ''wq'' bus m = Some (p, m')"
    "wf_state m'" "kern m' = k \<and> ctxs m' = cs" "p \<noteq> 0 \<longleftrightarrow> child_found os ''wq'' (base @ ''/'' @ name) k"
    "if p = 0 then devices m' = devices m \<and> wqs m' = wqs m
     else p = next_ptr m \<and> map_option wq_path (wqs m' p) = Some (base @ ''/'' @ name)
       \<and> wqs m' = (wqs m)(p := wqs m' p)
       \<and> devices m' = (devices m)(d \<mapsto> dv\<lparr>dev_wqs := dev_wqs dv @ [p]\<rparr>)"
    using m(3,6) by (auto simp: wp_iff)
  have "next_ptr m \<notin> set (dev_wqs dv)"
    using fresh_not_listed [OF wfD(3) [OF m(2)] m(4)] wf_fresh(4) [OF m(2)] by simp
  then have "wq_paths d m' = wq_paths d m @ (if p \<noteq> 0 then [base @ ''/'' @ name] else [])"
    using add(5) m(4) paths_append [of p "dev_wqs dv" wq_path "wqs m'" "base @ ''/'' @ name" "wqs m"]
    by (auto simp: wq_paths_def split: if_splits)
  then show "\<exists>p m'. add_wq os d (scan_id_value (scan_name name)) (base @ ''/'' @ name) ''wq'' bus m = Some (p, m')
      \<and> child_inv os k cs base d m' \<and> (p \<noteq> 0 \<longleftrightarrow> child_found os ''wq'' (base @ ''/'' @ name) k)
      \<and> wq_paths d m' = wq_paths d m
          @ (if child_found os ''wq'' (base @ ''/'' @ name) k then [base @ ''/'' @ name] else [])"
    using add m by (auto simp: child_inv_def split: if_splits)
qed (auto simp: child_inv_def sys_alloc_ok wq_paths_def intro: wf_fields)

interpretation device_walk: add_dev_contract os "add_device os" c base pfx bus "\<lambda>name. \<exists>i. scan_name name = ScanId i"
    "\<lambda>name. device_found os pfx (base @ ''/'' @ name) k" "\<lambda>name. projr (os_realpath os (base @ ''/'' @ name) k)"
    "device_inv os k c" "device_paths c"
  for os :: "'k os" and c base pfx bus k
proof
  fix m :: "'k mach" and name
  assume "device_inv os k c m" and "\<exists>i. scan_name name = ScanId i"
  then obtain cx i where m: "os_ok os" "alloc_ok os" "dirs_stable os" "wf_state m" "same_dirs os k (kern m)" "ctxs m c = Some cx"
    and i: "scan_id_value (scan_name name) = Some i"
    by (auto simp: device_inv_def scan_id_value_def)
  have dirs: "device_found os pfx (base @ ''/'' @ name) (kern m) \<longleftrightarrow> device_found os pfx (base @ ''/'' @ name) k"
    "os_realpath os (base @ ''/'' @ name) (kern m) = os_realpath os (base @ ''/'' @ name) k"
    using m(5) by (simp_all add: device_found_def same_dirs_def)
  from add_device_wp [OF m(1-4,6), of i "base @ ''/'' @ name" pfx bus] dirs obtain p m' where add:
    "add_device os c (Some i) (base @ ''/'' @ name) pfx bus m = Some (p, m')"
    "wf_state m'" "same_dirs os (kern m) (kern m')" "p \<noteq> 0 \<longleftrightarrow> device_found os pfx (base @ ''/'' @ name) k"
    "if p = 0 then devices m' = devices m \<and> ctxs m' = ctxs m
     else p = next_ptr m \<and> map_option dev_path (devices m' p) = Some (projr (os_realpath os (base @ ''/'' @ name) k))
       \<and> devices m' = (devices m)(p := devices m' p)
       \<and> ctxs m' = (ctxs m)(c \<mapsto> cx\<lparr>c_devices := c_devices cx @ [p]\<rparr>)"
    by (auto simp: wp_iff)
  have "next_ptr m \<notin> set (c_devices cx)"
    using fresh_not_listed [OF wfD(1) [OF m(4)] m(6)] wf_fresh(2) [OF m(4)] by simp
  then have "device_paths c m' = device_paths c m
      @ (if p \<noteq> 0 then [projr (os_realpath os (base @ ''/'' @ name) k)] else [])"
    using add(5) m(6) paths_append [of p "c_devices cx" dev_path "devices m'" "projr (os_realpath os (base @ ''/'' @ name) k)" "devices m"]
    by (auto simp: device_paths_def split: if_splits)
  moreover have "same_dirs os k (kern m')" using m(5) add(3) by (simp add: same_dirs_def)
  ultimately show "\<exists>p m'. add_device os c (scan_id_value (scan_name name)) (base @ ''/'' @ name) pfx bus m = Some (p, m')
      \<and> device_inv os k c m' \<and> (p \<noteq> 0 \<longleftrightarrow> device_found os pfx (base @ ''/'' @ name) k)
      \<and> device_paths c m' = device_paths c m
          @ (if device_found os pfx (base @ ''/'' @ name) k then [projr (os_realpath os (base @ ''/'' @ name) k)] else [])"
    using add m i by (auto simp: device_inv_def split: if_splits)
qed (auto simp: device_inv_def sys_alloc_ok device_paths_def intro: wf_fields)


section \<open>Discovery is complete and keeps the graph well-formed\<close>

text \<open>
  The children that a scan of a device directory yields: the entries with the prefix, up to the first
  that is only letters, without those that contain an exclamation mark, that can be opened and whose
  name parses, in directory order.
\<close>

definition children_found :: "'k os \<Rightarrow> string \<Rightarrow> string \<Rightarrow> string list \<Rightarrow> 'k \<Rightarrow> string list" where
  "children_found os base pfx names k =
     map (\<lambda>n. base @ ''/'' @ n)
       (filter (\<lambda>n. child_found os pfx (base @ ''/'' @ n) k)
          (walked (filter (\<lambda>n. strncmp_eq pfx n (length pfx)) names)))"

lemma prefix_filter: "filter_file_name_prefix (set_filename_prefix pfx m) = (\<lambda>n. strncmp_eq pfx n (length pfx))"
  by (simp add: filter_file_name_prefix_def set_filename_prefix_def fun_eq_iff)

lemma engines_init_walk:
  assumes "alloc_ok os" "wf_state m" "devices m d = Some dv" "os_scandir os (dev_path dv) (kern m) = Inr names"
    and "dev_group dv \<noteq> 0 \<Longrightarrow> map_option grp_engines_init (groups m (dev_group dv)) = Some 0"
  shows "\<exists>m'. engines_init os d m = Some m' \<and> wf_state m' \<and> kern m' = kern m \<and> ctxs m' = ctxs m
    \<and> engine_paths d m' = engine_paths d m @ children_found os (dev_path dv) ''engine'' names (kern m)"
proof -
  have walk: "\<exists>m'. (do { (_, m) \<leftarrow> device_parse os (dev_path dv) ''engine'' (dev_bus_type_str dv) d (add_engine os)
        (set_filename_prefix ''engine'' m1); Some m }) = Some m' \<and> wf_state m' \<and> kern m' = kern m \<and> ctxs m' = ctxs m
      \<and> engine_paths d m' = engine_paths d m @ children_found os (dev_path dv) ''engine'' names (kern m)"
    if m1: "wf_state m1" "kern m1 = kern m" "ctxs m1 = ctxs m" "devices m1 = devices m" "engines m1 = engines m" for m1
  proof -
    have "child_inv os (kern m) (ctxs m) (dev_path dv) d (set_filename_prefix ''engine'' m1)"
      using assms(1,3) m1 by (auto simp: child_inv_def set_filename_prefix_def intro: wf_fields)
    moreover have "os_scandir os (dev_path dv) (kern (set_filename_prefix ''engine'' m1)) = Inr names"
      using assms(4) m1(2) by (simp add: set_filename_prefix_def)
    moreover have "engine_paths d (set_filename_prefix ''engine'' m1) = engine_paths d m"
      using m1 by (simp add: engine_paths_def set_filename_prefix_def split: option.split)
    ultimately show ?thesis
      using engine_walk.device_parse_adds [of os "kern m" "ctxs m" "dev_path dv" d "set_filename_prefix ''engine'' m1" names
          "filter_file_name_prefix (set_filename_prefix ''engine'' m1)" "dev_bus_type_str dv"]
      by (auto simp: device_parse_def children_found_def child_inv_def prefix_filter)
  qed
  show ?thesis
  proof (cases "dev_group dv = 0")
    case True
    with walk [OF assms(2)] assms(3) show ?thesis by (simp add: engines_init_def)
  next
    case False
    with assms(5) obtain gr where gr: "groups m (dev_group dv) = Some gr" "grp_engines_init gr = 0" by auto
    let ?m1 = "m\<lparr>groups := (groups m)(dev_group dv \<mapsto> gr\<lparr>grp_engines_init := 1\<rparr>)\<rparr>"
    have upd: "upd_group (dev_group dv) (\<lambda>x. x\<lparr>grp_engines_init := 1\<rparr>) m = Some ?m1" using gr by (simp add: upd_group_def)
    then have "wf_state ?m1" using shape_upd_group [OF upd] wf_shape [of m ?m1] assms(2) by simp
    with upd show ?thesis using walk [of ?m1] assms(3) gr False by (simp add: engines_init_def)
  qed
qed

lemma wqs_init_walk:
  assumes "alloc_ok os" "wf_state m" "devices m d = Some dv" "os_scandir os (dev_path dv) (kern m) = Inr names"
    "\<forall>n \<in> set names. strncmp_eq ''wq'' n (length ''wq'') \<longrightarrow> wq_type_readable os (dev_path dv @ ''/'' @ n) (kern m)"
    and "dev_group dv \<noteq> 0 \<Longrightarrow> map_option grp_wqs_init (groups m (dev_group dv)) = Some 0"
  shows "\<exists>m'. wqs_init os d m = Some m' \<and> wf_state m' \<and> kern m' = kern m \<and> ctxs m' = ctxs m
    \<and> wq_paths d m' = wq_paths d m @ children_found os (dev_path dv) ''wq'' names (kern m)"
proof -
  have walk: "\<exists>m'. (do { (_, m) \<leftarrow> device_parse os (dev_path dv) ''wq'' (dev_bus_type_str dv) d (add_wq os)
        (set_filename_prefix ''wq'' m1); Some m }) = Some m' \<and> wf_state m' \<and> kern m' = kern m \<and> ctxs m' = ctxs m
      \<and> wq_paths d m' = wq_paths d m @ children_found os (dev_path dv) ''wq'' names (kern m)"
    if m1: "wf_state m1" "kern m1 = kern m" "ctxs m1 = ctxs m" "devices m1 = devices m" "wqs m1 = wqs m" for m1
  proof -
    have "child_inv os (kern m) (ctxs m) (dev_path dv) d (set_filename_prefix ''wq'' m1)"
      using assms(1,3) m1 by (auto simp: child_inv_def set_filename_prefix_def intro: wf_fields)
    moreover have "os_scandir os (dev_path dv) (kern (set_filename_prefix ''wq'' m1)) = Inr names"
      using assms(4) m1(2) by (simp add: set_filename_prefix_def)
    moreover have "wq_paths d (set_filename_prefix ''wq'' m1) = wq_paths d m"
      using m1 by (simp add: wq_paths_def set_filename_prefix_def split: option.split)
    ultimately show ?thesis
      using wq_walk.device_parse_adds [of os "kern m" "ctxs m" "dev_path dv" d "set_filename_prefix ''wq'' m1" names
          "filter_file_name_prefix (set_filename_prefix ''wq'' m1)" "dev_bus_type_str dv"] assms(5)
      by (auto simp: device_parse_def children_found_def child_inv_def prefix_filter)
  qed
  show ?thesis
  proof (cases "dev_group dv = 0")
    case True
    with walk [OF assms(2)] assms(3) show ?thesis by (simp add: wqs_init_def)
  next
    case False
    with assms(6) obtain gr where gr: "groups m (dev_group dv) = Some gr" "grp_wqs_init gr = 0" by auto
    let ?m1 = "m\<lparr>groups := (groups m)(dev_group dv \<mapsto> gr\<lparr>grp_wqs_init := 1\<rparr>)\<rparr>"
    have upd: "upd_group (dev_group dv) (\<lambda>x. x\<lparr>grp_wqs_init := 1\<rparr>) m = Some ?m1" using gr by (simp add: upd_group_def)
    then have "wf_state ?m1" using shape_upd_group [OF upd] wf_shape [of m ?m1] assms(2) by simp
    with upd show ?thesis using walk [of ?m1] assms(3) gr False by (simp add: wqs_init_def)
  qed
qed

text \<open>The walk for engines leaves the device's path and its group member alone.\<close>

lemma add_engine_keeps_device:
  assumes "add_engine os d i base pfx bus m = Some (p, m')" "devices m q = Some dv"
  shows "\<exists>dv'. devices m' q = Some dv' \<and> dev_path dv' = dev_path dv \<and> dev_group dv' = dev_group dv"
proof -
  have "wlp (add_engine os d i base pfx bus m)
      (\<lambda>(p, m'). \<exists>dv'. devices m' q = Some dv' \<and> dev_path dv' = dev_path dv \<and> dev_group dv' = dev_group dv)"
    using assms(2)
    by (auto simp: add_engine_def new_ptr_def case_prod_beta upd_device_def wlp_iff [of "devices m d"] split: option.split)
  with assms(1) show ?thesis by simp
qed

lemma parse_loop_keeps_device:
  assumes "device_parse_loop os base pfx bus d (add_engine os) names n m = Some (rc, m')" "devices m q = Some dv"
  shows "\<exists>dv'. devices m' q = Some dv' \<and> dev_path dv' = dev_path dv \<and> dev_group dv' = dev_group dv"
  using assms
proof (induction names arbitrary: n m dv)
  case (Cons name names)
  then show ?case
    by (auto simp: case_prod_beta bind_pair_Some_iff split: if_splits dest!: add_engine_keeps_device)
      (fastforce dest: add_engine_keeps_device)+
qed auto

lemma engines_init_same_device:
  assumes "engines_init os d m = Some m'" "devices m d = Some dv" "dev_group dv = 0"
  shows "\<exists>dv'. devices m' d = Some dv' \<and> dev_path dv' = dev_path dv \<and> dev_group dv' = 0"
  using assms
  by (auto simp: engines_init_def device_parse_def sysfs_device_parse_def set_filename_prefix_def sys_call_defs
      bind_pair_Some_iff Let_def split: sum.splits option.splits dest!: parse_loop_keeps_device)

lemma groups_init_walk:
  assumes "alloc_ok os" "wf_state m" "devices m d = Some dv" "os_scandir os (dev_path dv) (kern m) = Inr names"
    and "dev_group_init dv = 0"
  shows "\<exists>m'. groups_init os d m = Some m' \<and> wf_state m' \<and> kern m' = kern m \<and> ctxs m' = ctxs m
    \<and> group_paths d m' = group_paths d m @ children_found os (dev_path dv) ''group'' names (kern m)"
proof -
  let ?m1 = "m\<lparr>devices := (devices m)(d \<mapsto> dv\<lparr>dev_group_init := 1\<rparr>)\<rparr>"
  have upd: "upd_device d (\<lambda>d. d\<lparr>dev_group_init := 1\<rparr>) m = Some ?m1" using assms(3) by (simp add: upd_device_def)
  then have wf1: "wf_state ?m1" using shape_upd_device [OF upd] wf_shape [of m ?m1] assms(2) by simp
  have "child_inv os (kern m) (ctxs m) (dev_path dv) d (set_filename_prefix ''group'' ?m1)"
    using assms(1) wf1 by (auto simp: child_inv_def set_filename_prefix_def intro: wf_fields)
  moreover have "os_scandir os (dev_path dv) (kern (set_filename_prefix ''group'' ?m1)) = Inr names"
    using assms(4) by (simp add: set_filename_prefix_def)
  moreover have "group_paths d (set_filename_prefix ''group'' ?m1) = group_paths d m"
    using assms(3) by (simp add: group_paths_def set_filename_prefix_def)
  ultimately show ?thesis
    using group_walk.device_parse_adds [of os "kern m" "ctxs m" "dev_path dv" d "set_filename_prefix ''group'' ?m1" names
        "filter_file_name_prefix (set_filename_prefix ''group'' ?m1)" "dev_bus_type_str dv"] upd assms(3,5)
    by (auto simp: groups_init_def device_parse_def children_found_def child_inv_def prefix_filter)
qed

lemma groups_init_keeps:
  assumes "alloc_ok os" "wf_state m" "devices m d = Some dv"
  shows "\<exists>m'. groups_init os d m = Some m' \<and> wf_state m' \<and> ctxs m' = ctxs m"
proof (cases "dev_group_init dv = 0")
  case True
  let ?m1 = "m\<lparr>devices := (devices m)(d \<mapsto> dv\<lparr>dev_group_init := 1\<rparr>)\<rparr>"
  have upd: "upd_device d (\<lambda>d. d\<lparr>dev_group_init := 1\<rparr>) m = Some ?m1" using assms(3) by (simp add: upd_device_def)
  then have wf1: "wf_state ?m1" using shape_upd_device [OF upd] wf_shape [of m ?m1] assms(2) by simp
  have "child_inv os (kern m) (ctxs m) (dev_path dv) d (set_filename_prefix ''group'' ?m1)"
    using assms(1) wf1 by (auto simp: child_inv_def set_filename_prefix_def intro: wf_fields)
  with True upd assms(3) show ?thesis
    using group_walk.device_parse_keeps [of os "kern m" "ctxs m" "dev_path dv" d "set_filename_prefix ''group'' ?m1"
        "filter_file_name_prefix (set_filename_prefix ''group'' ?m1)" "dev_bus_type_str dv"]
    by (auto simp: groups_init_def device_parse_def child_inv_def)
qed (use assms in \<open>simp add: groups_init_def\<close>)

lemma foreach_groups_init:
  assumes "alloc_ok os" "wf_state m" "ctxs m c = Some cx" "set ds \<subseteq> set (c_devices cx)"
  shows "\<exists>m'. foreach_run (groups_init os) ds m = Some m' \<and> wf_state m' \<and> ctxs m' = ctxs m"
  using assms(2-4)
proof (induction ds arbitrary: m)
  case (Cons d ds)
  from linked_part [OF wfD(1) [OF Cons.prems(1)] Cons.prems(2), of d] Cons.prems(3) obtain dv where "devices m d = Some dv" by auto
  from groups_init_keeps [OF assms(1) Cons.prems(1) this] obtain m1 where
    "groups_init os d m = Some m1" "wf_state m1" "ctxs m1 = ctxs m" by blast
  with Cons.IH [of m1] Cons.prems(2,3) show ?case by auto
qed auto

text \<open>Every entry of a bus directory that is named like a device ends in a number.\<close>

definition device_names_ok :: "'k os \<Rightarrow> 'k \<Rightarrow> string \<times> string \<Rightarrow> bool" where
  "device_names_ok os k n \<longleftrightarrow>
     (\<forall>names. os_scandir os (''/sys/bus/'' @ fst n @ ''/devices'') k = Inr names \<longrightarrow>
        (\<forall>name \<in> set names. strncmp_eq (snd n) name (length (snd n)) \<longrightarrow> (\<exists>i. scan_name name = ScanId i)))"

lemma parse_accel_keeps:
  assumes "device_inv os k c m" "device_names_ok os k n"
  shows "\<exists>m'. parse_accel os c n m = Some m' \<and> device_inv os k c m'"
proof -
  let ?m1 = "set_filename_prefix (snd n) m"
  have inv: "device_inv os k c ?m1"
    using assms(1) by (auto simp: device_inv_def set_filename_prefix_def intro: wf_fields)
  then have dirs: "os_scandir os p (kern ?m1) = os_scandir os p k" for p by (simp add: device_inv_def same_dirs_def)
  have "\<forall>name \<in> set names. filter_file_name_prefix ?m1 name \<longrightarrow> (\<exists>i. scan_name name = ScanId i)"
    if "os_scandir os (''/sys/bus/'' @ fst n @ ''/devices'') (kern ?m1) = Inr names" for names
    using that assms(2) unfolding dirs device_names_ok_def prefix_filter by blast
  from device_walk.device_parse_keeps [OF inv this] obtain rc m' where
    "sysfs_device_parse os (''/sys/bus/'' @ fst n @ ''/devices'') (snd n) (fst n) (filter_file_name_prefix ?m1) c
       (add_device os) ?m1 = Some (rc, m')" "device_inv os k c m'" by blast
  then show ?thesis by (simp add: parse_accel_def device_parse_def case_prod_beta Let_def)
qed

lemma parse_accels_keeps:
  assumes "device_inv os k c m" "\<forall>n \<in> set ns. device_names_ok os k n"
  shows "\<exists>m'. parse_accels os c ns m = Some m' \<and> device_inv os k c m'"
  using assms
proof (induction ns arbitrary: m)
  case (Cons n ns)
  from parse_accel_keeps [OF Cons.prems(1), of n] Cons.prems(2) obtain m1 where
    "parse_accel os c n m = Some m1" "device_inv os k c m1" by auto
  with Cons.IH [of m1] Cons.prems(2) show ?case by simp
qed auto

lemma devices_init_keeps:
  assumes "os_ok os" "alloc_ok os" "dirs_stable os" "wf_state m" "ctxs m c = Some cx"
    and "\<forall>n \<in> set (List.product accfg_bus_types (map snd accfg_basenames)). device_names_ok os (kern m) n"
  shows "\<exists>m' cx'. devices_init os c m = Some m' \<and> wf_state m' \<and> ctxs m' c = Some cx'"
proof (cases "c_devices_init cx = 0")
  case True
  let ?m1 = "m\<lparr>ctxs := (ctxs m)(c \<mapsto> cx\<lparr>c_devices_init := 1\<rparr>)\<rparr>"
  have upd: "upd_ctx c (\<lambda>c. c\<lparr>c_devices_init := 1\<rparr>) m = Some ?m1" using assms(5) by (simp add: upd_ctx_def)
  then have "wf_state ?m1" using shape_upd_ctx [OF upd] wf_shape [of m ?m1] assms(4) by simp
  then have "device_inv os (kern m) c ?m1" using assms(1-3) by (simp add: device_inv_def same_dirs_refl)
  from parse_accels_keeps [OF this assms(6)] obtain m2 where m2:
    "parse_accels os c (List.product accfg_bus_types (map snd accfg_basenames)) ?m1 = Some m2" "device_inv os (kern m) c m2" by blast
  then obtain cx2 where cx2: "wf_state m2" "ctxs m2 c = Some cx2" by (auto simp: device_inv_def)
  from foreach_groups_init [OF assms(2) this subset_refl] obtain m3 where
    "foreach_run (groups_init os) (c_devices cx2) m2 = Some m3" "wf_state m3" "ctxs m3 = ctxs m2" by blast
  with True assms(5) upd m2 cx2 show ?thesis by (simp add: devices_init_def)
qed (use assms in \<open>simp add: devices_init_def\<close>)

end
