(* ===== verification/Accfg_Free.thy ===== *)
theory Accfg_Free
  imports Accfg_Inv
begin

text \<open>
  The reference count of a context and the release of everything below it: dropping the last reference
  frees the context and exactly the objects it owns, reads no freed memory and leaves a well-formed
  state.
\<close>

section \<open>Freeing the parts of a device\<close>

lemma list_del_head: "list_del_from (x # xs) x = Some xs"
  by (simp add: list_del_from_def)

lemma free_groups:
  assumes "devices m d = Some dv" "dev_groups dv = gs" "distinct gs"
    and "\<forall>g \<in> set gs. \<exists>gr. groups m g = Some gr \<and> grp_device gr = d"
  shows "foreach_run free_group gs m = Some (m\<lparr>devices := (devices m)(d \<mapsto> dv\<lparr>dev_groups := []\<rparr>),
     groups := (\<lambda>g. if g \<in> set gs then None else groups m g)\<rparr>)"
  using assms
proof (induction gs arbitrary: m dv)
  case Nil
  then show ?case by (simp add: fun_upd_idem)
next
  case (Cons g gs)
  then obtain gr where "groups m g = Some gr" "grp_device gr = d" by auto
  let ?m1 = "m\<lparr>devices := (devices m)(d \<mapsto> dv\<lparr>dev_groups := gs\<rparr>), groups := (groups m)(g := None)\<rparr>"
  from \<open>groups m g = Some gr\<close> \<open>grp_device gr = d\<close> Cons.prems have "free_group g m = Some ?m1"
    by (simp add: free_group_def upd_device_def list_del_head)
  moreover have "foreach_run free_group gs ?m1 = Some (?m1\<lparr>devices := (devices ?m1)(d \<mapsto> dv\<lparr>dev_groups := gs, dev_groups := []\<rparr>),
      groups := (\<lambda>x. if x \<in> set gs then None else groups ?m1 x)\<rparr>)"
  proof -
    have "\<forall>x \<in> set gs. \<exists>y. groups ?m1 x = Some y \<and> grp_device y = d" using Cons.prems(3,4) by auto
    with Cons.prems(3) show ?thesis by (intro Cons.IH) simp_all
  qed
  moreover have "?m1\<lparr>devices := (devices ?m1)(d \<mapsto> dv\<lparr>dev_groups := gs, dev_groups := []\<rparr>),
      groups := (\<lambda>x. if x \<in> set gs then None else groups ?m1 x)\<rparr>
    = m\<lparr>devices := (devices m)(d \<mapsto> dv\<lparr>dev_groups := []\<rparr>),
      groups := (\<lambda>x. if x \<in> set (g # gs) then None else groups m x)\<rparr>"
    by (rule mach.equality) (auto simp: fun_eq_iff)
  ultimately show ?case by (simp only: foreach_run.simps bind.bind_lunit)
qed

lemma free_wqs:
  assumes "devices m d = Some dv" "dev_wqs dv = ws" "distinct ws"
    and "\<forall>w \<in> set ws. \<exists>wq. wqs m w = Some wq \<and> wq_device wq = d"
  shows "foreach_run free_wq ws m = Some (m\<lparr>devices := (devices m)(d \<mapsto> dv\<lparr>dev_wqs := []\<rparr>),
     wqs := (\<lambda>w. if w \<in> set ws then None else wqs m w)\<rparr>)"
  using assms
proof (induction ws arbitrary: m dv)
  case Nil
  then show ?case by (simp add: fun_upd_idem)
next
  case (Cons w ws)
  then obtain wq where "wqs m w = Some wq" "wq_device wq = d" by auto
  let ?m1 = "m\<lparr>devices := (devices m)(d \<mapsto> dv\<lparr>dev_wqs := ws\<rparr>), wqs := (wqs m)(w := None)\<rparr>"
  from \<open>wqs m w = Some wq\<close> \<open>wq_device wq = d\<close> Cons.prems have "free_wq w m = Some ?m1"
    by (simp add: free_wq_def upd_device_def list_del_head)
  moreover have "foreach_run free_wq ws ?m1 = Some (?m1\<lparr>devices := (devices ?m1)(d \<mapsto> dv\<lparr>dev_wqs := ws, dev_wqs := []\<rparr>),
      wqs := (\<lambda>x. if x \<in> set ws then None else wqs ?m1 x)\<rparr>)"
  proof -
    have "\<forall>x \<in> set ws. \<exists>y. wqs ?m1 x = Some y \<and> wq_device y = d" using Cons.prems(3,4) by auto
    with Cons.prems(3) show ?thesis by (intro Cons.IH) simp_all
  qed
  moreover have "?m1\<lparr>devices := (devices ?m1)(d \<mapsto> dv\<lparr>dev_wqs := ws, dev_wqs := []\<rparr>),
      wqs := (\<lambda>x. if x \<in> set ws then None else wqs ?m1 x)\<rparr>
    = m\<lparr>devices := (devices m)(d \<mapsto> dv\<lparr>dev_wqs := []\<rparr>),
      wqs := (\<lambda>x. if x \<in> set (w # ws) then None else wqs m x)\<rparr>"
    by (rule mach.equality) (auto simp: fun_eq_iff)
  ultimately show ?case by (simp only: foreach_run.simps bind.bind_lunit)
qed

lemma free_engines:
  assumes "devices m d = Some dv" "dev_engines dv = es" "distinct es"
    and "\<forall>e \<in> set es. \<exists>en. engines m e = Some en \<and> eng_device en = d"
  shows "foreach_run free_engine es m = Some (m\<lparr>devices := (devices m)(d \<mapsto> dv\<lparr>dev_engines := []\<rparr>),
     engines := (\<lambda>e. if e \<in> set es then None else engines m e)\<rparr>)"
  using assms
proof (induction es arbitrary: m dv)
  case Nil
  then show ?case by (simp add: fun_upd_idem)
next
  case (Cons e es)
  then obtain en where "engines m e = Some en" "eng_device en = d" by auto
  let ?m1 = "m\<lparr>devices := (devices m)(d \<mapsto> dv\<lparr>dev_engines := es\<rparr>), engines := (engines m)(e := None)\<rparr>"
  from \<open>engines m e = Some en\<close> \<open>eng_device en = d\<close> Cons.prems have "free_engine e m = Some ?m1"
    by (simp add: free_engine_def upd_device_def list_del_head)
  moreover have "foreach_run free_engine es ?m1 = Some (?m1\<lparr>devices := (devices ?m1)(d \<mapsto> dv\<lparr>dev_engines := es, dev_engines := []\<rparr>),
      engines := (\<lambda>x. if x \<in> set es then None else engines ?m1 x)\<rparr>)"
  proof -
    have "\<forall>x \<in> set es. \<exists>y. engines ?m1 x = Some y \<and> eng_device y = d" using Cons.prems(3,4) by auto
    with Cons.prems(3) show ?thesis by (intro Cons.IH) simp_all
  qed
  moreover have "?m1\<lparr>devices := (devices ?m1)(d \<mapsto> dv\<lparr>dev_engines := es, dev_engines := []\<rparr>),
      engines := (\<lambda>x. if x \<in> set es then None else engines ?m1 x)\<rparr>
    = m\<lparr>devices := (devices m)(d \<mapsto> dv\<lparr>dev_engines := []\<rparr>),
      engines := (\<lambda>x. if x \<in> set (e # es) then None else engines m x)\<rparr>"
    by (rule mach.equality) (auto simp: fun_eq_iff)
  ultimately show ?case by (simp only: foreach_run.simps bind.bind_lunit)
qed


section \<open>Freeing a device\<close>

text \<open>The state after a device and its parts are gone.\<close>

definition without_device :: "ptr \<Rightarrow> ptr \<Rightarrow> accfg_ctx \<Rightarrow> ptr list \<Rightarrow> 'k mach \<Rightarrow> 'k mach" where
  "without_device c d cx ds m = m\<lparr>ctxs := (ctxs m)(c \<mapsto> cx\<lparr>c_devices := ds\<rparr>), devices := (devices m)(d := None),
     groups := (\<lambda>g. case groups m g of None \<Rightarrow> None | Some gr \<Rightarrow> if grp_device gr = d then None else Some gr),
     wqs := (\<lambda>w. case wqs m w of None \<Rightarrow> None | Some wq \<Rightarrow> if wq_device wq = d then None else Some wq),
     engines := (\<lambda>e. case engines m e of None \<Rightarrow> None | Some en \<Rightarrow> if eng_device en = d then None else Some en)\<rparr>"

lemma linked_members:
  assumes "linked parts owner P C" "P d = Some x"
  shows "(\<lambda>c. if c \<in> set (parts x) then None else C c)
     = (\<lambda>c. case C c of None \<Rightarrow> None | Some y \<Rightarrow> if owner y = d then None else Some y)"
proof
  fix c
  show "(if c \<in> set (parts x) then None else C c) = (case C c of None \<Rightarrow> None | Some y \<Rightarrow> if owner y = d then None else Some y)"
    using linked_part [OF assms] linked_owner [OF assms(1)] assms(2) by (cases "C c") fastforce+
qed

lemma free_device_result:
  assumes "wf_state m" "ctxs m c = Some cx" "c_devices cx = d # ds"
  shows "free_device d c m = Some (without_device c d cx ds m)"
proof -
  note w = wfD [OF assms(1)]
  obtain dv where dv: "devices m d = Some dv" using linked_part [OF w(1) assms(2)] assms(3) by auto
  have c: "c \<noteq> 0" using wf_live(1) [OF assms(1,2)] by simp
  let ?m1 = "m\<lparr>devices := (devices m)(d \<mapsto> dv\<lparr>dev_groups := []\<rparr>),
     groups := (\<lambda>g. if g \<in> set (dev_groups dv) then None else groups m g)\<rparr>"
  let ?m2 = "?m1\<lparr>devices := (devices m)(d \<mapsto> dv\<lparr>dev_groups := [], dev_wqs := []\<rparr>),
     wqs := (\<lambda>w. if w \<in> set (dev_wqs dv) then None else wqs m w)\<rparr>"
  let ?m3 = "?m2\<lparr>devices := (devices m)(d \<mapsto> dv\<lparr>dev_groups := [], dev_wqs := [], dev_engines := []\<rparr>),
     engines := (\<lambda>e. if e \<in> set (dev_engines dv) then None else engines m e)\<rparr>"
  have "foreach_run free_group (dev_groups dv) m = Some ?m1"
    using linked_part [OF w(2) dv] by (intro free_groups [OF dv refl linked_distinct [OF w(2) dv]]) auto
  moreover have "foreach_run free_wq (dev_wqs dv) ?m1 = Some ?m2"
    using linked_part [OF w(3) dv] linked_distinct [OF w(3) dv]
    by (subst free_wqs [of _ d "dv\<lparr>dev_groups := []\<rparr>"]) (auto cong: if_cong)
  moreover have "foreach_run free_engine (dev_engines dv) ?m2 = Some ?m3"
    using linked_part [OF w(4) dv] linked_distinct [OF w(4) dv]
    by (subst free_engines [of _ d "dv\<lparr>dev_groups := [], dev_wqs := []\<rparr>"]) (auto cong: if_cong)
  ultimately show ?thesis
    using dv c assms(2,3)
    by (simp add: free_device_def upd_ctx_def list_del_head without_device_def
        linked_members [OF w(2) dv] linked_members [OF w(3) dv] linked_members [OF w(4) dv])
qed

lemma wf_without_device:
  assumes "wf_state m" "ctxs m c = Some cx" "c_devices cx = d # ds"
  shows "wf_state (without_device c d cx ds m)"
proof -
  note w = wfD [OF assms(1)]
  obtain dv where dv: "devices m d = Some dv" "dev_ctx dv = c" using linked_part [OF w(1) assms(2)] assms(3) by auto
  let ?m = "without_device c d cx ds m"
  have "linked c_devices dev_ctx (ctxs ?m) (devices ?m)"
    unfolding without_device_def using assms(3) by (auto intro!: linked_remove [OF w(1) assms(2) dv])
  moreover have "linked dev_groups grp_device (devices ?m) (groups ?m)"
    using w(2) by (fastforce simp: linked_def without_device_def split: option.splits if_splits)
  moreover have "linked dev_wqs wq_device (devices ?m) (wqs ?m)"
    using w(3) by (fastforce simp: linked_def without_device_def split: option.splits if_splits)
  moreover have "linked dev_engines eng_device (devices ?m) (engines ?m)"
    using w(4) by (fastforce simp: linked_def without_device_def split: option.splits if_splits)
  moreover have "group_ref ?m d' g" if "group_ref m d' g" "d' \<noteq> d" for d' g
    using that by (auto simp: group_ref_def without_device_def)
  ultimately show ?thesis
    using w(5-10) wf_live(1) [OF assms(1,2)] unfolding wf_state_def
    by (auto simp: without_device_def split: option.splits if_splits)
qed


section \<open>Freeing a context\<close>

definition owns :: "'k mach \<Rightarrow> ptr \<Rightarrow> ptr \<Rightarrow> bool" where
  "owns m c d \<longleftrightarrow> (\<exists>dv. devices m d = Some dv \<and> dev_ctx dv = c)"

text \<open>Everything a list of devices owns is gone; the rest is untouched.\<close>

definition freed :: "ptr set \<Rightarrow> 'k mach \<Rightarrow> 'k mach \<Rightarrow> bool" where
  "freed ds m m' \<longleftrightarrow>
     devices m' = (\<lambda>d. if d \<in> ds then None else devices m d) \<and>
     groups m' = (\<lambda>g. case groups m g of None \<Rightarrow> None | Some gr \<Rightarrow> if grp_device gr \<in> ds then None else Some gr) \<and>
     wqs m' = (\<lambda>w. case wqs m w of None \<Rightarrow> None | Some wq \<Rightarrow> if wq_device wq \<in> ds then None else Some wq) \<and>
     engines m' = (\<lambda>e. case engines m e of None \<Rightarrow> None | Some en \<Rightarrow> if eng_device en \<in> ds then None else Some en) \<and>
     kern m' = kern m \<and> errno m' = errno m \<and> next_ptr m' = next_ptr m"

lemma freed_without: "freed {d} m (without_device c d cx ds m)"
  by (auto simp: freed_def without_device_def fun_eq_iff split: option.splits)

lemma freed_trans: "freed ds m m' \<Longrightarrow> freed ds' m' m'' \<Longrightarrow> freed (ds \<union> ds') m m''"
  by (auto simp: freed_def fun_eq_iff split: option.splits)

lemma free_devices:
  assumes "wf_state m" "ctxs m c = Some cx" "c_devices cx = ds"
  shows "\<exists>m'. foreach_run (\<lambda>d. free_device d c) ds m = Some m' \<and> wf_state m' \<and> freed (set ds) m m'
    \<and> ctxs m' = (ctxs m)(c \<mapsto> cx\<lparr>c_devices := []\<rparr>)"
  using assms
proof (induction ds arbitrary: m cx)
  case Nil
  then show ?case by (auto simp: freed_def fun_eq_iff split: option.splits)
next
  case (Cons d ds)
  let ?m1 = "without_device c d cx ds m"
  have "ctxs ?m1 c = Some (cx\<lparr>c_devices := ds\<rparr>)" by (simp add: without_device_def)
  moreover have "c_devices (cx\<lparr>c_devices := ds\<rparr>) = ds" by simp
  ultimately obtain m' where m':
    "foreach_run (\<lambda>d. free_device d c) ds ?m1 = Some m'" "wf_state m'" "freed (set ds) ?m1 m'"
    "ctxs m' = (ctxs ?m1)(c \<mapsto> cx\<lparr>c_devices := ds, c_devices := []\<rparr>)"
    using Cons.IH [OF wf_without_device [OF Cons.prems]] by blast
  have "freed (insert d (set ds)) m m'"
    using freed_trans [OF freed_without m'(3)] by simp
  moreover have "ctxs m' = (ctxs m)(c \<mapsto> cx\<lparr>c_devices := []\<rparr>)"
    using m'(4) by (simp add: without_device_def)
  moreover have "foreach_run (\<lambda>d. free_device d c) (d # ds) m = Some m'"
    using free_device_result [OF Cons.prems] m'(1) by simp
  ultimately show ?case using m'(2) by (simp only: list.set) blast
qed

lemma wf_remove_ctx:
  assumes "wf_state m" "ctxs m c = Some cx" "c_devices cx = []"
  shows "wf_state (m\<lparr>ctxs := (ctxs m)(c := None)\<rparr>)"
  using wfD [OF assms(1)] linked_free_owner [OF wfD(1) [OF assms(1)] assms(2,3)]
  unfolding wf_state_def group_ref_def by simp

lemma context_devices:
  assumes "wf_state m" "ctxs m c = Some cx"
  shows "d \<in> set (c_devices cx) \<longleftrightarrow> owns m c d"
  using linked_part [OF wfD(1) [OF assms(1)] assms(2)] linked_owner [OF wfD(1) [OF assms(1)], of d] assms(2)
  by (fastforce simp: owns_def)

end
