(* ===== verification/Accfg_Example.thy ===== *)
theory Accfg_Example
  imports Accfg_Free
begin

text \<open>
  A small state on which the properties are evaluated: one context, one DSA device at \<open>/d/dsa0\<close> with
  one group, one work queue and one engine, over the file system of \<open>Sysfs\<close>; and the same device
  before its children are discovered.
\<close>

definition ex_ctx :: accfg_ctx where
  "ex_ctx = empty_ctx\<lparr>c_refcount := 1, c_devices_init := 1, c_devices := [2]\<rparr>"

definition ex_dev :: accfg_device where
  "ex_dev = \<lparr>dev_ctx = 1, dev_id = 0, dev_group = 3, dev_groups = [3], dev_wqs = [4], dev_engines = [5],
     dev_group_init = 1, dev_path = ''/d/dsa0'', dev_bus_type_str = ''dsa'', dev_type_str = ''dsa'',
     dev_type = ACCFG_DEVICE_DSA, dev_buf_len = 135, dev_max_groups = 4, dev_max_work_queues = 8,
     dev_max_engines = 4, dev_max_work_queues_size = 128, dev_numa_node = 0, dev_ims_size = 2048,
     dev_max_batch_size = 1024, dev_compl_size = 32, dev_configurable = 1, dev_max_read_buffers = 96,
     dev_read_buffer_limit = 0, dev_event_log_size = 64, dev_cdev_major = 236, dev_version = 256,
     dev_max_transfer_size = 2147483648, dev_gencap = 0, dev_pasid_enabled = 1\<rparr>"

definition ex_grp :: accfg_group where
  "ex_grp = \<lparr>grp_device = 2, grp_id = 0, grp_buf_len = 144, grp_size = 0, grp_path = ''/d/dsa0/group0.0'',
     grp_engines = None, grp_wqs = None, grp_wqs_init = 1, grp_engines_init = 1,
     grp_read_buffers_reserved = 0, grp_read_buffers_allowed = 96, grp_use_read_buffer_limit = 0,
     grp_traffic_class_a = 1, grp_traffic_class_b = 1, grp_desc_progress_limit = 0,
     grp_batch_progress_limit = 0\<rparr>"

definition ex_wq :: accfg_wq where
  "ex_wq = \<lparr>wq_device = 2, wq_group = 3, wq_path = ''/d/dsa0/wq0.0'', wq_id = 0, wq_buf_len = 141,
     wq_group_id = 0, wq_size = 16, wq_priv = 0, wq_priority = 10, wq_block_on_fault = 0, wq_cdev_minor = 0,
     wq_threshold = 15, wq_mode = Some ''shared'', wq_name = Some ''app'', wq_driver_name = Some ''user'',
     wq_type = ACCFG_WQT_USER, wq_state = Some ''disabled'', wq_max_batch_size = 32,
     wq_max_transfer_size = 16384, wq_ats_disable = 0, wq_prs_disable = 0\<rparr>"

definition ex_eng :: accfg_engine where
  "ex_eng = \<lparr>eng_device = 2, eng_group = 3, eng_path = ''/d/dsa0/engine0.0'', eng_id = 0, eng_buf_len = 145,
     eng_group_id = 0\<rparr>"

definition ex_mach :: "'k \<Rightarrow> 'k mach" where
  "ex_mach k = \<lparr>kern = k, errno = 0, init_cmd_status = 0, filename_prefix = [], next_ptr = 6,
     ctxs = [1 \<mapsto> ex_ctx], devices = [2 \<mapsto> ex_dev], groups = [3 \<mapsto> ex_grp], wqs = [4 \<mapsto> ex_wq],
     engines = [5 \<mapsto> ex_eng]\<rparr>"

definition ex_bare :: "'k \<Rightarrow> 'k mach" where
  "ex_bare k = \<lparr>kern = k, errno = 0, init_cmd_status = 0, filename_prefix = [], next_ptr = 3,
     ctxs = [1 \<mapsto> ex_ctx],
     devices = [2 \<mapsto> ex_dev\<lparr>dev_group := 0, dev_groups := [], dev_wqs := [], dev_engines := [], dev_group_init := 0\<rparr>],
     groups = Map.empty, wqs = Map.empty, engines = Map.empty\<rparr>"

definition ex_fs :: fs where
  "ex_fs = \<lparr>fs_files =
       [(''/d/dsa0/wq0.0/type'', ''user'' @ [NL]), (''/d/dsa0/wq0.0/state'', ''disabled'' @ [NL]),
        (''/d/dsa0/wq0.0/clients'', ''0'' @ [NL]), (''/d/dsa0/clients'', ''2'' @ [NL]),
        (''/d/dsa0/state'', ''enabled'' @ [NL]), (''/d/dsa0/cmd_status'', ''0'' @ [NL]),
        (''/d/dsa0/wq0.0/size'', ''16'' @ [NL]), (''/d/dsa0/group0.0/tokens_allowed'', ''8'' @ [NL]),
        (''/d/dsa0/engine0.0/group_id'', ''0'' @ [NL])],
     fs_dirs = [(''/d/dsa0'', [''engine0.0'', ''group0.0'', ''power'', ''wq0.0'', ''wq0.1'']),
        (''/d/dsa0/engine0.0'', []), (''/d/dsa0/group0.0'', []), (''/d/dsa0/wq0.0'', [])],
     fs_write_errors = []\<rparr>"

lemmas ex_defs = ex_mach_def ex_bare_def ex_ctx_def ex_dev_def ex_grp_def ex_wq_def ex_eng_def empty_ctx_def

lemma ex_mach_wf: "wf_state (ex_mach k)"
  by (simp add: wf_state_def linked_def ex_defs group_ref_def path_ok_def MAX_BUF_LEN_def)

lemma ex_bare_wf: "wf_state (ex_bare k)"
  by (simp add: wf_state_def linked_def ex_defs group_ref_def path_ok_def MAX_BUF_LEN_def)

lemma ex_sel [simp]:
  "devices (ex_mach k) = [2 \<mapsto> ex_dev]" "groups (ex_mach k) = [3 \<mapsto> ex_grp]" "wqs (ex_mach k) = [4 \<mapsto> ex_wq]"
  "engines (ex_mach k) = [5 \<mapsto> ex_eng]" "ctxs (ex_mach k) = [1 \<mapsto> ex_ctx]" "kern (ex_mach k) = k" "errno (ex_mach k) = 0"
  by (simp_all add: ex_mach_def)

end
