(* ===== verification/Accfg_Group.thy ===== *)
theory Accfg_Group
  imports Accfg_Attr Accfg_Example
begin

text \<open>
  The attributes of groups and engines (\<open>src/accfg/lib/libaccfg.c\<close>): the getters of the cached values and
  the setters that the macros \<open>accfg_group_set_field\<close> and \<open>accfg_engine_set_field\<close> generate.  A C
  identifier in a getter that only selects a member is the composition of the heap lookup with the
  record selector.
\<close>

section \<open>Groups\<close>

definition accfg_group_get_device :: "ptr \<Rightarrow> 'k mach \<Rightarrow> ptr option" where
  "accfg_group_get_device grp m = map_option grp_device (groups m grp)"

definition accfg_group_get_ctx :: "ptr \<Rightarrow> 'k mach \<Rightarrow> ptr option" where
  "accfg_group_get_ctx grp m = do { gr \<leftarrow> groups m grp; dv \<leftarrow> devices m (grp_device gr); Some (dev_ctx dv) }"

definition accfg_group_get_device_id :: "ptr \<Rightarrow> 'k mach \<Rightarrow> int option" where
  "accfg_group_get_device_id grp m = do { gr \<leftarrow> groups m grp; dv \<leftarrow> devices m (grp_device gr); Some (dev_id dv) }"

text \<open>The member is an \<open>int\<close>, the result a \<open>uint64_t\<close>.\<close>

definition accfg_group_get_size :: "ptr \<Rightarrow> 'k mach \<Rightarrow> int option" where
  "accfg_group_get_size grp m = map_option (\<lambda>gr. u64 (grp_size gr)) (groups m grp)"

definition accfg_group_get_available_size :: "'k os \<Rightarrow> ptr \<Rightarrow> 'k mach \<Rightarrow> ('k, int) run" where
  "accfg_group_get_available_size os grp m = do {
     gr \<leftarrow> groups m grp;
     ctx \<leftarrow> accfg_group_get_ctx grp m;
     case snprintf_path (grp_buf_len gr) (grp_path gr) ''available_size'' of
       None \<Rightarrow> Some (ULONG_MAX, m)
     | Some path \<Rightarrow>
         (case sysfs_read_attr os path m of (rc, buf, m) \<Rightarrow>
          if rc < 0 then do {
            m \<leftarrow> save_last_error os (grp_device gr) 0 grp 0 m;
            Some (ULONG_MAX, m)
          }
          else do {
            buf \<leftarrow> buf;
            case strtoull 0 buf of (v, _, erange) \<Rightarrow> Some (v, if erange then m\<lparr>errno := ERANGE\<rparr> else m)
          })
   }"

text \<open>
  The macro \<open>accfg_group_set_field\<close>: \<open>field\<close> is the attribute, \<open>store\<close> the assignment of the cached
  member.  When the attribute is not there its deprecated name is used; a field without one prints the
  null pointer.
\<close>

definition accfg_group_set_field ::
  "'k os \<Rightarrow> string \<Rightarrow> (int \<Rightarrow> accfg_group \<Rightarrow> accfg_group) \<Rightarrow> ptr \<Rightarrow> int \<Rightarrow> 'k mach \<Rightarrow> ('k, int) run" where
  "accfg_group_set_field os field store grp val m = do {
     gr \<leftarrow> groups m grp;
     ctx \<leftarrow> accfg_group_get_ctx grp m;
     path \<leftarrow> sprintf_path (grp_buf_len gr) (grp_path gr) (Some field);
     let (found, m) = sys_access os path m;
     path \<leftarrow> (if \<not> found then sprintf_path (grp_buf_len gr) (grp_path gr) (deprecated_attr field)
              else Some path);
     attr_commit os path (show_int val) (grp_device gr) 0 grp 0 (upd_group grp (store val)) m
   }"

definition accfg_group_set_read_buffers_reserved :: "'k os \<Rightarrow> ptr \<Rightarrow> int \<Rightarrow> 'k mach \<Rightarrow> ('k, int) run" where
  "accfg_group_set_read_buffers_reserved os = accfg_group_set_field os ''read_buffers_reserved''
     (\<lambda>val g. g\<lparr>grp_read_buffers_reserved := u32 val\<rparr>)"

definition accfg_group_set_read_buffers_allowed :: "'k os \<Rightarrow> ptr \<Rightarrow> int \<Rightarrow> 'k mach \<Rightarrow> ('k, int) run" where
  "accfg_group_set_read_buffers_allowed os = accfg_group_set_field os ''read_buffers_allowed''
     (\<lambda>val g. g\<lparr>grp_read_buffers_allowed := u32 val\<rparr>)"

definition accfg_group_set_use_read_buffer_limit :: "'k os \<Rightarrow> ptr \<Rightarrow> int \<Rightarrow> 'k mach \<Rightarrow> ('k, int) run" where
  "accfg_group_set_use_read_buffer_limit os = accfg_group_set_field os ''use_read_buffer_limit''
     (\<lambda>val g. g\<lparr>grp_use_read_buffer_limit := u32 val\<rparr>)"

definition accfg_group_set_traffic_class_a :: "'k os \<Rightarrow> ptr \<Rightarrow> int \<Rightarrow> 'k mach \<Rightarrow> ('k, int) run" where
  "accfg_group_set_traffic_class_a os = accfg_group_set_field os ''traffic_class_a''
     (\<lambda>val g. g\<lparr>grp_traffic_class_a := val\<rparr>)"

definition accfg_group_set_traffic_class_b :: "'k os \<Rightarrow> ptr \<Rightarrow> int \<Rightarrow> 'k mach \<Rightarrow> ('k, int) run" where
  "accfg_group_set_traffic_class_b os = accfg_group_set_field os ''traffic_class_b''
     (\<lambda>val g. g\<lparr>grp_traffic_class_b := val\<rparr>)"

definition accfg_group_set_desc_progress_limit :: "'k os \<Rightarrow> ptr \<Rightarrow> int \<Rightarrow> 'k mach \<Rightarrow> ('k, int) run" where
  "accfg_group_set_desc_progress_limit os = accfg_group_set_field os ''desc_progress_limit''
     (\<lambda>val g. g\<lparr>grp_desc_progress_limit := u32 val\<rparr>)"

definition accfg_group_set_batch_progress_limit :: "'k os \<Rightarrow> ptr \<Rightarrow> int \<Rightarrow> 'k mach \<Rightarrow> ('k, int) run" where
  "accfg_group_set_batch_progress_limit os = accfg_group_set_field os ''batch_progress_limit''
     (\<lambda>val g. g\<lparr>grp_batch_progress_limit := u32 val\<rparr>)"

text \<open>The macro \<open>accfg_group_get_field\<close>: the member as an \<open>int\<close>.\<close>

definition accfg_group_get_field :: "(accfg_group \<Rightarrow> int) \<Rightarrow> ptr \<Rightarrow> 'k mach \<Rightarrow> int option" where
  "accfg_group_get_field sel grp m = map_option (\<lambda>gr. s32 (sel gr)) (groups m grp)"

definition accfg_group_get_read_buffers_reserved :: "ptr \<Rightarrow> 'k mach \<Rightarrow> int option" where
  "accfg_group_get_read_buffers_reserved = accfg_group_get_field grp_read_buffers_reserved"

definition accfg_group_get_read_buffers_allowed :: "ptr \<Rightarrow> 'k mach \<Rightarrow> int option" where
  "accfg_group_get_read_buffers_allowed = accfg_group_get_field grp_read_buffers_allowed"

definition accfg_group_get_use_read_buffer_limit :: "ptr \<Rightarrow> 'k mach \<Rightarrow> int option" where
  "accfg_group_get_use_read_buffer_limit = accfg_group_get_field grp_use_read_buffer_limit"

definition accfg_group_get_traffic_class_a :: "ptr \<Rightarrow> 'k mach \<Rightarrow> int option" where
  "accfg_group_get_traffic_class_a = accfg_group_get_field grp_traffic_class_a"

definition accfg_group_get_traffic_class_b :: "ptr \<Rightarrow> 'k mach \<Rightarrow> int option" where
  "accfg_group_get_traffic_class_b = accfg_group_get_field grp_traffic_class_b"

definition accfg_group_get_desc_progress_limit :: "ptr \<Rightarrow> 'k mach \<Rightarrow> int option" where
  "accfg_group_get_desc_progress_limit = accfg_group_get_field grp_desc_progress_limit"

definition accfg_group_get_batch_progress_limit :: "ptr \<Rightarrow> 'k mach \<Rightarrow> int option" where
  "accfg_group_get_batch_progress_limit = accfg_group_get_field grp_batch_progress_limit"


section \<open>Engines\<close>

definition accfg_engine_get_group :: "ptr \<Rightarrow> 'k mach \<Rightarrow> ptr option" where
  "accfg_engine_get_group engine m = map_option eng_group (engines m engine)"

text \<open>\<open>engine->group->device\<close>: undefined for an engine without a group.\<close>

definition accfg_engine_get_device :: "ptr \<Rightarrow> 'k mach \<Rightarrow> ptr option" where
  "accfg_engine_get_device engine m = do { en \<leftarrow> engines m engine; gr \<leftarrow> groups m (eng_group en); Some (grp_device gr) }"

definition accfg_engine_get_ctx :: "ptr \<Rightarrow> 'k mach \<Rightarrow> ptr option" where
  "accfg_engine_get_ctx engine m = do { en \<leftarrow> engines m engine; dv \<leftarrow> devices m (eng_device en); Some (dev_ctx dv) }"

definition accfg_engine_set_field ::
  "'k os \<Rightarrow> string \<Rightarrow> (int \<Rightarrow> accfg_engine \<Rightarrow> accfg_engine) \<Rightarrow> ptr \<Rightarrow> int \<Rightarrow> 'k mach \<Rightarrow> ('k, int) run" where
  "accfg_engine_set_field os field store engine val m = do {
     en \<leftarrow> engines m engine;
     ctx \<leftarrow> accfg_engine_get_ctx engine m;
     path \<leftarrow> sprintf_path (eng_buf_len en) (eng_path en) (Some field);
     attr_commit os path (show_int val) (eng_device en) 0 0 engine (upd_engine engine (store val)) m
   }"

definition accfg_engine_set_group_id :: "'k os \<Rightarrow> ptr \<Rightarrow> int \<Rightarrow> 'k mach \<Rightarrow> ('k, int) run" where
  "accfg_engine_set_group_id os = accfg_engine_set_field os ''group_id'' (\<lambda>val e. e\<lparr>eng_group_id := val\<rparr>)"

definition accfg_engine_get_group_id :: "ptr \<Rightarrow> 'k mach \<Rightarrow> int option" where
  "accfg_engine_get_group_id engine m = map_option eng_group_id (engines m engine)"


section \<open>The setters keep the contract\<close>

text \<open>The attribute a group setter writes to.\<close>

definition group_attr_file :: "'k os \<Rightarrow> string \<Rightarrow> 'k mach \<Rightarrow> accfg_group \<Rightarrow> string" where
  "group_attr_file os field m gr = grp_path gr @ ''/'' @
     (if os_access os (grp_path gr @ ''/'' @ field) (kern m) = None then field
      else case deprecated_attr field of None \<Rightarrow> ''(null)'' | Some a \<Rightarrow> a)"

definition group_links :: "accfg_group \<Rightarrow> ptr \<times> string \<times> nat" where
  "group_links g = (grp_device g, grp_path g, grp_buf_len g)"

lemma deprecated_attr_length: "deprecated_attr field = Some a \<Longrightarrow> length a < 127"
  by (auto simp: deprecated_attr_def attr_dict_def split: if_splits)

lemma sys_access_found: "fst (sys_access os path m) \<longleftrightarrow> os_access os path (kern m) = None"
  by (simp add: sys_call_defs split: option.split)

lemma group_set_field_file:
  assumes "path_ok (grp_path gr) (grp_buf_len gr)" "length field < 127"
  shows "\<not> fst (sys_access os (grp_path gr @ ''/'' @ field) m) \<Longrightarrow>
     sprintf_path (grp_buf_len gr) (grp_path gr) (deprecated_attr field) = Some (group_attr_file os field m gr)"
    "fst (sys_access os (grp_path gr @ ''/'' @ field) m) \<Longrightarrow> group_attr_file os field m gr = grp_path gr @ ''/'' @ field"
  using sprintf_path_null_fits [OF assms(1)] sprintf_path_fits [OF assms(1) deprecated_attr_length, of field]
  by (cases "deprecated_attr field"; force simp: sys_access_found group_attr_file_def)+

lemma upd_group_ok:
  assumes "groups m g = Some gr" "group_links (f gr) = group_links gr"
  shows "upd_group g f m = Some (m\<lparr>groups := (groups m)(g \<mapsto> f gr)\<rparr>)"
    "shape (m\<lparr>groups := (groups m)(g \<mapsto> f gr)\<rparr>) = shape m"
  using assms by (auto simp: upd_group_def shape_def fun_eq_iff group_links_def)

lemma accfg_group_set_field_wp:
  fixes m :: "'k mach" and v :: int
  assumes os: "os_ok os" and wf: "wf_state m" and g: "groups m g = Some gr"
    and field: "length field < 127" and store: "\<And>v x. group_links (store v x) = group_links x"
  defines "m0 \<equiv> snd (sys_access os (grp_path gr @ ''/'' @ field) m)"
  defines "w \<equiv> sysfs_write_attr os (group_attr_file os field m gr) (show_int v) m0"
  shows "wp (accfg_group_set_field os field store g v m) (\<lambda>(rc, m'). wf_state m' \<and>
     (if fst w < 0 then rc < 0 \<and> error_frame m m'
      else rc = 0 \<and> m' = (snd w)\<lparr>groups := (groups m)(g \<mapsto> store v gr)\<rparr>))"
proof -
  note path = sprintf_path_fits [OF wf_group(1) [OF wf g] field]
    group_set_field_file [where m = m and os = os, OF wf_group(1) [OF wf g] field]
  obtain dv where d: "devices m (grp_device gr) = Some dv" using wf_group(2) [OF wf g] by blast
  have frame: "error_frame m m0" by (simp add: m0_def error_frame_sys sys_only_def)
  have shape_m0: "shape m0 = shape m" by (simp add: m0_def)
  have wf0: "wf_state m0" using frame wf by (rule wf_error_frame)
  have "groups (snd w) g = Some gr" by (simp add: w_def m0_def g)
  from upd_group_ok [where f = "store v", OF this store] have up: "upd_group g (store v) (snd w) = Some ((snd w)\<lparr>groups := (groups m)(g \<mapsto> store v gr)\<rparr>)"
    "shape ((snd w)\<lparr>groups := (groups m)(g \<mapsto> store v gr)\<rparr>) = shape m"
    by (simp_all add: w_def m0_def)
  have "devices m0 (grp_device gr) = Some dv" by (simp add: m0_def d)
  note commit = attr_commit_wf_wp [where assign = "upd_group g (store v)" and w = 0 and g = g and e = 0,
      OF os wf0 this up(1) [unfolded w_def] up(2) [unfolded w_def, folded shape_m0]]
  have "accfg_group_set_field os field store g v m
     = attr_commit os (group_attr_file os field m gr) (show_int v) (grp_device gr) 0 g 0 (upd_group g (store v)) m0"
    unfolding accfg_group_set_field_def accfg_group_get_ctx_def
    using path g d by (cases "fst (sys_access os (grp_path gr @ ''/'' @ field) m)") (simp_all add: m0_def case_prod_beta)
  then show ?thesis
    by (simp only:) (rule wp_mono [OF commit], auto simp: w_def split: if_splits intro: error_frame_trans [OF frame])
qed


definition engine_links :: "accfg_engine \<Rightarrow> ptr \<times> ptr \<times> string \<times> nat" where
  "engine_links e = (eng_device e, eng_group e, eng_path e, eng_buf_len e)"

lemma upd_engine_ok:
  assumes "engines m e = Some en" "engine_links (f en) = engine_links en"
  shows "upd_engine e f m = Some (m\<lparr>engines := (engines m)(e \<mapsto> f en)\<rparr>)"
    "shape (m\<lparr>engines := (engines m)(e \<mapsto> f en)\<rparr>) = shape m"
  using assms by (auto simp: upd_engine_def shape_def fun_eq_iff engine_links_def)

lemma accfg_engine_set_field_wp:
  fixes m :: "'k mach" and v :: int
  assumes os: "os_ok os" and wf: "wf_state m" and e: "engines m e = Some en"
    and field: "length field < 127" and store: "\<And>v x. engine_links (store v x) = engine_links x"
  defines "w \<equiv> sysfs_write_attr os (eng_path en @ ''/'' @ field) (show_int v) m"
  shows "wp (accfg_engine_set_field os field store e v m) (\<lambda>(rc, m'). wf_state m' \<and>
     (if fst w < 0 then rc < 0 \<and> error_frame m m'
      else rc = 0 \<and> m' = (snd w)\<lparr>engines := (engines m)(e \<mapsto> store v en)\<rparr>))"
proof -
  obtain dv where d: "devices m (eng_device en) = Some dv" using wf_engine(2) [OF wf e] by blast
  have "engines (snd w) e = Some en" by (simp add: w_def e)
  from upd_engine_ok [where f = "store v", OF this store]
  have up: "upd_engine e (store v) (snd w) = Some ((snd w)\<lparr>engines := (engines m)(e \<mapsto> store v en)\<rparr>)"
    "shape ((snd w)\<lparr>engines := (engines m)(e \<mapsto> store v en)\<rparr>) = shape m" by (simp_all add: w_def)
  note commit = attr_commit_wf_wp [where assign = "upd_engine e (store v)" and w = 0 and g = 0 and e = e,
      OF os wf d up(1) [unfolded w_def] up(2) [unfolded w_def]]
  have "accfg_engine_set_field os field store e v m
     = attr_commit os (eng_path en @ ''/'' @ field) (show_int v) (eng_device en) 0 0 e (upd_engine e (store v)) m"
    using sprintf_path_fits [OF wf_engine(1) [OF wf e] field] e d
    by (simp add: accfg_engine_set_field_def accfg_engine_get_ctx_def)
  then show ?thesis
    by (simp only:) (rule wp_mono [OF commit], auto simp: w_def split: if_splits)
qed

lemma group_attr_setter:
  fixes os :: "'k os"
  assumes "length field < 127" "\<And>v x. group_links (store v x) = group_links x"
  shows "attr_setter os (accfg_group_set_field os field store) groups (group_attr_file os field) show_int store"
proof
  fix m :: "'k mach" and p x v
  assume a: "os_ok os" "wf_state m" "groups m p = Some x"
  show "wp (accfg_group_set_field os field store p v m) (\<lambda>(rc, m'). wf_state m' \<and>
      (if rc = 0 then groups m' = (groups m)(p \<mapsto> store v x) else rc < 0 \<and> groups m' = groups m) \<and>
      (\<exists>m0 :: 'k mach. kern m0 = kern m \<and> (rc = 0 \<longleftrightarrow>
         \<not> fst (sysfs_write_attr os (group_attr_file os field m x) (show_int v) m0) < 0)))"
    by (rule wp_mono [OF accfg_group_set_field_wp [OF a assms]])
      (auto simp: error_frame_def split: if_splits intro: exI [of _ "snd (sys_access os (grp_path x @ ''/'' @ field) m)"])
qed

interpretation allowed: attr_setter os "accfg_group_set_read_buffers_allowed os" groups
    "group_attr_file os ''read_buffers_allowed''" show_int "\<lambda>v g. g\<lparr>grp_read_buffers_allowed := u32 v\<rparr>"
  for os :: "'k os"
  unfolding accfg_group_set_read_buffers_allowed_def by (rule group_attr_setter) (simp_all add: group_links_def)

interpretation engine_group: attr_setter os "accfg_engine_set_group_id os" engines
    "\<lambda>m en. eng_path en @ ''/group_id''" show_int "\<lambda>v e. e\<lparr>eng_group_id := v\<rparr>"
  for os :: "'k os"
proof
  fix m :: "'k mach" and p x v
  assume a: "os_ok os" "wf_state m" "engines m p = Some x"
  show "wp (accfg_engine_set_group_id os p v m) (\<lambda>(rc, m'). wf_state m' \<and>
      (if rc = 0 then engines m' = (engines m)(p \<mapsto> x\<lparr>eng_group_id := v\<rparr>)
       else rc < 0 \<and> engines m' = engines m) \<and>
      (\<exists>m0 :: 'k mach. kern m0 = kern m \<and> (rc = 0 \<longleftrightarrow>
         \<not> fst (sysfs_write_attr os (eng_path x @ ''/group_id'') (show_int v) m0) < 0)))"
    unfolding accfg_engine_set_group_id_def
    by (rule wp_mono [OF accfg_engine_set_field_wp [OF a]])
      (auto simp: engine_links_def error_frame_def split: if_splits intro!: exI [of _ m])
qed



section \<open>Properties\<close>

lemma fold_store_allowed:
  "grp_read_buffers_allowed (fold (\<lambda>v g. g\<lparr>grp_read_buffers_allowed := u32 v\<rparr>) vs g)
     = last (grp_read_buffers_allowed g # map u32 vs)"
  by (induction vs arbitrary: g) auto

text \<open>
  After any sequence of settings of \<open>read_buffers_allowed\<close> of a group, the getter answers the last
  value that was accepted, as an \<open>int\<close> (the value before when none was), no other group changed, every code
  is 0 or negative, and the object graph is well-formed.
\<close>

lemma accfg_group_settings_cached:
  assumes "os_ok os" "wf_state m" "groups m g = Some gr"
  shows "wp (set_all (accfg_group_set_read_buffers_allowed os) g vs m) (\<lambda>(rcs, m'). wf_state m' \<and>
     length rcs = length vs \<and> (\<forall>rc \<in> set rcs. rc \<le> 0) \<and>
     accfg_group_get_read_buffers_allowed g m'
       = Some (s32 (last (grp_read_buffers_allowed gr # accepted rcs vs))) \<and>
     (\<forall>q. q \<noteq> g \<longrightarrow> groups m' q = groups m q))"
  by (rule wp_mono [OF allowed.set_all_wp [OF assms]])
    (auto simp: accfg_group_get_read_buffers_allowed_def accfg_group_get_field_def fold_store_allowed last_map)


text \<open>
  on a kernel that has only the older name of the attribute, setting \<open>read_buffers_allowed\<close> writes
  the decimal value to \<open>tokens_allowed\<close>: when that write is complete the code is 0, the kernel is the one
  the write left, and the getter answers the value.
\<close>

lemma accfg_group_set_deprecated:
  assumes "os_ok os" "wf_state m" "groups m g = Some gr" "- 2147483648 \<le> v" "v \<le> 2147483647"
    and "os_access os (grp_path gr @ ''/read_buffers_allowed'') (kern m) \<noteq> None"
    and "os_open os (grp_path gr @ ''/tokens_allowed'') O_WRONLY (kern m) = None"
    and "os_write os (grp_path gr @ ''/tokens_allowed'') (show_int v) (kern m) = (Inr n, k)" "length (show_int v) \<le> n"
  shows "wp (accfg_group_set_read_buffers_allowed os g v m) (\<lambda>(rc, m'). rc = 0 \<and> kern m' = k \<and>
     accfg_group_get_read_buffers_allowed g m' = Some v \<and> accfg_group_get_traffic_class_a g m' = accfg_group_get_traffic_class_a g m)"
proof -
  let ?m0 = "snd (sys_access os (grp_path gr @ ''/'' @ ''read_buffers_allowed'') m)"
  have "group_attr_file os ''read_buffers_allowed'' m gr = grp_path gr @ ''/tokens_allowed''"
    using assms(6) by (simp add: group_attr_file_def deprecated_attr_def attr_dict_def)
  moreover have "sysfs_write_attr os (grp_path gr @ ''/tokens_allowed'') (show_int v) ?m0 = (0, ?m0\<lparr>kern := k\<rparr>)"
    using assms(7-9) by (cases rule: write_attr_cases [of os "grp_path gr @ ''/tokens_allowed''" ?m0 "show_int v"])
      (auto simp: sysfs_write_attr_def)
  ultimately show ?thesis
    unfolding accfg_group_set_read_buffers_allowed_def
    by (intro wp_mono [OF accfg_group_set_field_wp [OF assms(1-3)]])
      (use assms(3-5) in \<open>auto simp: group_links_def accfg_group_get_read_buffers_allowed_def accfg_group_get_traffic_class_a_def
         accfg_group_get_field_def s32_id\<close>)
qed

lemma accfg_group_set_deprecated_example:
  "wp (accfg_group_set_read_buffers_allowed fs_os 3 8 (ex_mach ex_fs)) (\<lambda>(rc, m'). rc = 0 \<and>
     kern m' = ex_fs\<lparr>fs_files := (''/d/dsa0/group0.0/tokens_allowed'', show_int 8) # fs_files ex_fs\<rparr> \<and>
     accfg_group_get_read_buffers_allowed 3 m' = Some 8 \<and>
     accfg_group_get_traffic_class_a 3 m' = accfg_group_get_traffic_class_a 3 (ex_mach ex_fs))"
  using accfg_group_set_deprecated [OF fs_os_ok(1) ex_mach_wf, of ex_fs 3 ex_grp 8 "length (show_int 8)"
      "ex_fs\<lparr>fs_files := (''/d/dsa0/group0.0/tokens_allowed'', show_int 8) # fs_files ex_fs\<rparr>"]
  by (simp add: ex_grp_def ex_fs_def)

text \<open>
  Setting the group of an engine writes one attribute, \<open>group_id\<close> of that engine: with a complete
  write the code is 0, the kernel is the one the write left and the getter answers the value; with a write
  that the kernel rejects the code is negative and no object changed.
\<close>

lemma accfg_engine_set_group_id_effect:
  assumes "os_ok os" "wf_state m" "engines m e = Some en"
    and "os_open os (eng_path en @ ''/group_id'') O_WRONLY (kern m) = None"
    and "os_write os (eng_path en @ ''/group_id'') (show_int v) (kern m) = (r, k)"
    and "\<And>n. r = Inr n \<Longrightarrow> length (show_int v) \<le> n"
  shows "wp (accfg_engine_set_group_id os e v m) (\<lambda>(rc, m'). wf_state m' \<and>
     (if isl r then rc < 0 \<and> engines m' = engines m \<and> groups m' = groups m \<and> wqs m' = wqs m \<and> devices m' = devices m
      else rc = 0 \<and> kern m' = k \<and> accfg_engine_get_group_id e m' = Some v))"
proof -
  let ?path = "eng_path en @ ''/group_id''"
  have "fst (sysfs_write_attr os ?path (show_int v) m) < 0 \<longleftrightarrow> isl r" "kern (snd (sysfs_write_attr os ?path (show_int v) m)) = k"
    using assms(4-6) os_ok_write [OF assms(1), of ?path "show_int v" "kern m"]
    by (cases rule: write_attr_cases [of os ?path m "show_int v"]; force simp: sysfs_write_attr_def)+
  then show ?thesis
    unfolding accfg_engine_set_group_id_def
    by (intro wp_mono [OF accfg_engine_set_field_wp [OF assms(1-3)]])
      (auto simp: engine_links_def accfg_engine_get_group_id_def error_frame_def)
qed


end
