(* ===== verification/Accfg_Device.thy ===== *)
theory Accfg_Device
  imports Accfg_Group
begin

text \<open>
  The attributes of a device and its control (\<open>src/accfg/lib/libaccfg.c\<close>): the getters of the cached
  values, the readers of attributes that are not cached, the two setters, and enabling and disabling, which
  bind the device to its driver or unbind it.
\<close>

section \<open>Cached values\<close>

text \<open>\<open>unsigned int\<close> results of \<open>int\<close> members wrap.\<close>

definition accfg_device_get_ctx :: "ptr \<Rightarrow> 'k mach \<Rightarrow> ptr option" where
  "accfg_device_get_ctx device m = map_option dev_ctx (devices m device)"

definition accfg_device_get_max_groups :: "ptr \<Rightarrow> 'k mach \<Rightarrow> int option" where
  "accfg_device_get_max_groups device m = map_option (\<lambda>d. u32 (dev_max_groups d)) (devices m device)"

definition accfg_device_get_max_work_queues :: "ptr \<Rightarrow> 'k mach \<Rightarrow> int option" where
  "accfg_device_get_max_work_queues device m = map_option (\<lambda>d. u32 (dev_max_work_queues d)) (devices m device)"

definition accfg_device_get_max_engines :: "ptr \<Rightarrow> 'k mach \<Rightarrow> int option" where
  "accfg_device_get_max_engines device m = map_option (\<lambda>d. u32 (dev_max_engines d)) (devices m device)"

definition accfg_device_get_max_work_queues_size :: "ptr \<Rightarrow> 'k mach \<Rightarrow> int option" where
  "accfg_device_get_max_work_queues_size device m = map_option (\<lambda>d. u32 (dev_max_work_queues_size d)) (devices m device)"

definition accfg_device_get_numa_node :: "ptr \<Rightarrow> 'k mach \<Rightarrow> int option" where
  "accfg_device_get_numa_node device m = map_option dev_numa_node (devices m device)"

definition accfg_device_get_ims_size :: "ptr \<Rightarrow> 'k mach \<Rightarrow> int option" where
  "accfg_device_get_ims_size device m = map_option (\<lambda>d. u32 (dev_ims_size d)) (devices m device)"

definition accfg_device_get_max_batch_size :: "ptr \<Rightarrow> 'k mach \<Rightarrow> int option" where
  "accfg_device_get_max_batch_size device m = map_option (\<lambda>d. u32 (dev_max_batch_size d)) (devices m device)"

definition accfg_device_get_max_transfer_size :: "ptr \<Rightarrow> 'k mach \<Rightarrow> int option" where
  "accfg_device_get_max_transfer_size device m = map_option dev_max_transfer_size (devices m device)"

definition accfg_device_get_compl_size :: "ptr \<Rightarrow> 'k mach \<Rightarrow> int option" where
  "accfg_device_get_compl_size device m = map_option (\<lambda>d. u32 (dev_compl_size d)) (devices m device)"

definition accfg_device_get_gen_cap :: "ptr \<Rightarrow> 'k mach \<Rightarrow> int option" where
  "accfg_device_get_gen_cap device m = map_option dev_gencap (devices m device)"

definition accfg_device_get_configurable :: "ptr \<Rightarrow> 'k mach \<Rightarrow> int option" where
  "accfg_device_get_configurable device m = map_option (\<lambda>d. u32 (dev_configurable d)) (devices m device)"

definition accfg_device_get_pasid_enabled :: "ptr \<Rightarrow> 'k mach \<Rightarrow> bool option" where
  "accfg_device_get_pasid_enabled device m = map_option (\<lambda>d. dev_pasid_enabled d \<noteq> 0) (devices m device)"

definition accfg_device_get_max_read_buffers :: "ptr \<Rightarrow> 'k mach \<Rightarrow> int option" where
  "accfg_device_get_max_read_buffers device m = map_option (\<lambda>d. u32 (dev_max_read_buffers d)) (devices m device)"

definition accfg_device_get_read_buffer_limit :: "ptr \<Rightarrow> 'k mach \<Rightarrow> int option" where
  "accfg_device_get_read_buffer_limit device m = map_option dev_read_buffer_limit (devices m device)"

definition accfg_device_get_event_log_size :: "ptr \<Rightarrow> 'k mach \<Rightarrow> int option" where
  "accfg_device_get_event_log_size device m = map_option dev_event_log_size (devices m device)"

definition accfg_device_get_cdev_major :: "ptr \<Rightarrow> 'k mach \<Rightarrow> int option" where
  "accfg_device_get_cdev_major device m = map_option dev_cdev_major (devices m device)"

definition accfg_device_get_version :: "ptr \<Rightarrow> 'k mach \<Rightarrow> int option" where
  "accfg_device_get_version device m = map_option dev_version (devices m device)"

definition accfg_device_get_type :: "ptr \<Rightarrow> 'k mach \<Rightarrow> accfg_device_type option" where
  "accfg_device_get_type device m = map_option dev_type (devices m device)"

definition accfg_device_get_type_str :: "ptr \<Rightarrow> 'k mach \<Rightarrow> string option" where
  "accfg_device_get_type_str device m = map_option dev_type_str (devices m device)"

definition accfg_device_type_validate :: "string \<Rightarrow> int" where
  "accfg_device_type_validate dev_name = (if list_ex (\<lambda>(_, accel_type). strstr dev_name accel_type) accfg_basenames then 1 else 0)"


section \<open>Attributes that are read on demand\<close>

text \<open>
  Open the device directory, read the text of an attribute, close: a code, or the text (\<open>None\<close> when it
  could not be read).
\<close>

definition read_dir_str ::
  "'k os \<Rightarrow> string \<Rightarrow> string \<Rightarrow> 'k mach \<Rightarrow> (int + string option) \<times> 'k mach" where
  "read_dir_str os dir name m =
     (case sys_open os dir O_PATH m of (dfd, m) \<Rightarrow>
      if \<not> dfd then (Inl (- errno m), m)
      else case accfg_get_param_str os dir name m of (s, m) \<Rightarrow> (Inr s, m))"

text \<open>The result pairs the code with the words stored through the pointer, the first ones up to where the text stops to match.\<close>

definition accfg_device_get_op_cap :: "'k os \<Rightarrow> ptr \<Rightarrow> 'k mach \<Rightarrow> ('k, int \<times> int list) run" where
  "accfg_device_get_op_cap os device m =
     (if device = 0 then Some ((- EINVAL, []), m)
      else do {
        dv \<leftarrow> devices m device;
        case read_dir_str os (dev_path dv) ''op_cap'' m of
          (Inl rc, m) \<Rightarrow> Some ((rc, []), m)
        | (Inr None, m) \<Rightarrow> Some ((- EIO, []), m)
        | (Inr (Some oc), m) \<Rightarrow>
            (let bits = scan_x32s 8 oc in
             Some ((if length bits \<noteq> 8 then (if errno m \<noteq> 0 then - errno m else - EIO) else 0, bits), m))
      })"

definition accfg_device_get_iaa_cap :: "'k os \<Rightarrow> ptr \<Rightarrow> 'k mach \<Rightarrow> ('k, int \<times> int option) run" where
  "accfg_device_get_iaa_cap os device m =
     (if device = 0 then Some ((- EINVAL, None), m)
      else do {
        dv \<leftarrow> devices m device;
        case read_dir_str os (dev_path dv) ''iaa_cap'' m of
          (Inl rc, m) \<Rightarrow> Some ((rc, None), m)
        | (Inr None, m) \<Rightarrow> Some ((- EIO, None), m)
        | (Inr (Some buf), m) \<Rightarrow>
            (case strtoull 0 buf of (v, _, erange) \<Rightarrow>
             let m = m\<lparr>errno := (if erange then ERANGE else 0)\<rparr> in
             Some ((- errno m, Some v), m))
      })"

text \<open>The text is passed to \<open>sscanf\<close> unchecked: a null pointer is undefined behaviour.\<close>

definition accfg_device_get_errors :: "'k os \<Rightarrow> ptr \<Rightarrow> 'k mach \<Rightarrow> ('k, int \<times> int list) run" where
  "accfg_device_get_errors os device m =
     (if device = 0 then Some ((- EINVAL, []), m)
      else do {
        dv \<leftarrow> devices m device;
        case read_dir_str os (dev_path dv) ''errors'' m of
          (Inl rc, m) \<Rightarrow> Some ((rc, []), m)
        | (Inr read_error, m) \<Rightarrow> do {
            s \<leftarrow> read_error;
            let val = scan_x32s 8 s;
            Some ((if length val \<noteq> 8 then (if errno m \<noteq> 0 then - errno m else - EIO) else 0, val), m)
          }
      })"

text \<open>
  The middle of the readers that go through \<open>sysfs_read_attr\<close>: the text, or \<open>None\<close> with the error
  recorded against the object.
\<close>

definition read_or_record ::
  "'k os \<Rightarrow> string \<Rightarrow> ptr \<Rightarrow> ptr \<Rightarrow> ptr \<Rightarrow> ptr \<Rightarrow> 'k mach \<Rightarrow> ('k, string option) run" where
  "read_or_record os path device wq grp engine m =
     (case sysfs_read_attr os path m of (rc, buf, m) \<Rightarrow>
      if rc < 0 then do {
        m \<leftarrow> save_last_error os device wq grp engine m;
        Some (None, m)
      }
      else do { s \<leftarrow> buf; Some (Some s, m) })"

definition accfg_device_get_state :: "'k os \<Rightarrow> ptr \<Rightarrow> 'k mach \<Rightarrow> ('k, accfg_device_state) run" where
  "accfg_device_get_state os device m =
     (if device = 0 then Some (ACCFG_DEVICE_UNKNOWN, m)
      else do {
        dv \<leftarrow> devices m device;
        case snprintf_path (dev_buf_len dv) (dev_path dv) ''state'' of
          None \<Rightarrow> Some (ACCFG_DEVICE_UNKNOWN, m)
        | Some path \<Rightarrow> do {
            (read_state, m) \<leftarrow> read_or_record os path device 0 0 0 m;
            Some (case read_state of
                    None \<Rightarrow> ACCFG_DEVICE_UNKNOWN
                  | Some s \<Rightarrow> if s = ''disabled'' then ACCFG_DEVICE_DISABLED
                             else if s = ''enabled'' then ACCFG_DEVICE_ENABLED
                             else ACCFG_DEVICE_UNKNOWN, m)
          }
      })"

definition accfg_device_get_clients :: "'k os \<Rightarrow> ptr \<Rightarrow> 'k mach \<Rightarrow> ('k, int) run" where
  "accfg_device_get_clients os device m =
     (if device = 0 then Some (- EINVAL, m)
      else do {
        dv \<leftarrow> devices m device;
        case snprintf_path (dev_buf_len dv) (dev_path dv) ''clients'' of
          None \<Rightarrow> Some (- errno m, m)
        | Some path \<Rightarrow> do {
            (buf, m) \<leftarrow> read_or_record os path device 0 0 0 m;
            Some (case buf of None \<Rightarrow> - errno m | Some s \<Rightarrow> atoi s, m)
          }
      })"

definition accfg_device_is_active :: "'k os \<Rightarrow> ptr \<Rightarrow> 'k mach \<Rightarrow> ('k, int) run" where
  "accfg_device_is_active os device m =
     (if device = 0 then Some (- EINVAL, m)
      else do {
        dv \<leftarrow> devices m device;
        case snprintf_path (dev_buf_len dv) (dev_path dv) ''state'' of
          None \<Rightarrow> Some (0, m)
        | Some path \<Rightarrow> do {
            (buf, m) \<leftarrow> read_or_record os path device 0 0 0 m;
            Some (if buf = Some ''enabled'' then 1 else 0, m)
          }
      })"


section \<open>Setters\<close>

text \<open>The buffer is large enough for both names, so the overflow checks after \<open>sprintf\<close> never fire.\<close>

definition accfg_device_set_read_buffer_limit :: "'k os \<Rightarrow> ptr \<Rightarrow> int \<Rightarrow> 'k mach \<Rightarrow> ('k, int) run" where
  "accfg_device_set_read_buffer_limit os dev val m =
     (if dev = 0 then Some (- EINVAL, m)
      else do {
        dv \<leftarrow> devices m dev;
        path \<leftarrow> sprintf_path (dev_buf_len dv) (dev_path dv) (Some ''read_buffer_limit'');
        let (found, m) = sys_access os path m;
        path \<leftarrow> (if \<not> found then sprintf_path (dev_buf_len dv) (dev_path dv) (deprecated_attr ''read_buffer_limit'')
                 else Some path);
        attr_commit os path (show_int val) dev 0 0 0 (upd_device dev (\<lambda>d. d\<lparr>dev_read_buffer_limit := u32 val\<rparr>)) m
      })"

definition accfg_device_set_event_log_size :: "'k os \<Rightarrow> ptr \<Rightarrow> int \<Rightarrow> 'k mach \<Rightarrow> ('k, int) run" where
  "accfg_device_set_event_log_size os dev val m =
     (if dev = 0 then Some (- EINVAL, m)
      else do {
        dv \<leftarrow> devices m dev;
        path \<leftarrow> sprintf_path (dev_buf_len dv) (dev_path dv) (Some ''event_log_size'');
        let (found, m) = sys_access os path m;
        if \<not> found then Some (0, m)
        else attr_commit os path (show_int val) dev 0 0 0 (upd_device dev (\<lambda>d. d\<lparr>dev_event_log_size := val\<rparr>)) m
      })"


section \<open>Enabling and disabling\<close>

text \<open>\<open>sprintf\<close> into \<open>PATH_MAX\<close> bytes; a null driver name prints as \<open>(null)\<close>.\<close>

definition sprintf_max :: "string \<Rightarrow> string option" where
  "sprintf_max s = (if length s + 1 \<le> PATH_MAX then Some s else None)"

definition get_driver_bind_path ::
  "'k os \<Rightarrow> string \<Rightarrow> string option \<Rightarrow> 'k mach \<Rightarrow> ('k, int \<times> string) run" where
  "get_driver_bind_path os bus_name drv_name m = do {
     p \<leftarrow> sprintf_max (''/sys/bus/'' @ bus_name @ ''/drivers/''
           @ (case drv_name of None \<Rightarrow> ''(null)'' | Some s \<Rightarrow> s) @ ''/bind'');
     let (ok, m) = sys_alloc os m;
     Some (if \<not> ok then ((- errno m, []), m) else ((0, p), m))
   }"

definition get_driver_unbind_path ::
  "'k os \<Rightarrow> string \<Rightarrow> string \<Rightarrow> 'k mach \<Rightarrow> ('k, int \<times> string) run" where
  "get_driver_unbind_path os bus_name dev_name m = do {
     p \<leftarrow> sprintf_max (''/sys/bus/'' @ bus_name @ ''/devices/'' @ dev_name @ ''/driver/unbind'');
     let (r, m) = sys_realpath os p m;
     Some (case r of None \<Rightarrow> ((- errno m, []), m) | Some path \<Rightarrow> ((0, path), m))
   }"

definition IDXD_DRIVER :: "ptr \<Rightarrow> 'k mach \<Rightarrow> string option" where
  "IDXD_DRIVER device m = do {
     dv \<leftarrow> devices m device;
     cx \<leftarrow> ctxs m (dev_ctx dv);
     Some (if c_compat cx then dev_bus_type_str dv else ''idxd'')
   }"

text \<open>The end of \<open>accfg_device_control\<close>: write the device's name to the path.\<close>

definition device_control_write :: "'k os \<Rightarrow> ptr \<Rightarrow> string \<Rightarrow> 'k mach \<Rightarrow> ('k, int) run" where
  "device_control_write os device path m = do {
     name \<leftarrow> accfg_device_get_devname device m;
     let (rc, m) = sysfs_write_attr os path name m;
     if rc < 0 then do {
       m \<leftarrow> save_last_error os device 0 0 0 m;
       Some (rc, m)
     }
     else Some (0, m)
   }"

definition accfg_device_control :: "'k os \<Rightarrow> ptr \<Rightarrow> accfg_control_flag \<Rightarrow> bool \<Rightarrow> 'k mach \<Rightarrow> ('k, int) run" where
  "accfg_device_control os device flag force m =
     (if device = 0 then Some (- EINVAL, m)
      else do {
        dv \<leftarrow> devices m device;
        if flag = ACCFG_DEVICE_ENABLE then do {
          driver \<leftarrow> IDXD_DRIVER device m;
          ((rc, path), m) \<leftarrow> get_driver_bind_path os (dev_bus_type_str dv) (Some driver) m;
          if rc < 0 then Some (rc, m) else device_control_write os device path m
        }
        else if flag = ACCFG_DEVICE_DISABLE then do {
          name \<leftarrow> accfg_device_get_devname device m;
          ((rc, path), m) \<leftarrow> get_driver_unbind_path os (dev_bus_type_str dv) name m;
          if rc < 0 then Some (rc, m)
          else do {
            (clients, m) \<leftarrow> accfg_device_get_clients os device m;
            if clients > 0 \<and> \<not> force then Some (- EPERM, m) else device_control_write os device path m
          }
        }
        else Some (0, m)
      })"

definition accfg_device_enable :: "'k os \<Rightarrow> ptr \<Rightarrow> 'k mach \<Rightarrow> ('k, int) run" where
  "accfg_device_enable os device m = accfg_device_control os device ACCFG_DEVICE_ENABLE False m"

definition accfg_device_disable :: "'k os \<Rightarrow> ptr \<Rightarrow> bool \<Rightarrow> 'k mach \<Rightarrow> ('k, int) run" where
  "accfg_device_disable os device force m = accfg_device_control os device ACCFG_DEVICE_DISABLE force m"



section \<open>Reading\<close>

lemma sysfs_read_attr_text:
  assumes "os_open os path O_RDONLY (kern m) = None" "os_read os path SYSFS_ATTR_SIZE (kern m) = Inr (s @ [NL])"
    and "length s + 1 < SYSFS_ATTR_SIZE" "NUL \<notin> set s"
  shows "sysfs_read_attr os path m = (0, Some s, m)"
proof -
  have "cstring s = s" using assms(4) by (auto simp: cstring_def takeWhile_eq_all_conv)
  with assms(1-3) show ?thesis by (simp add: sysfs_read_attr_def sys_call_defs)
qed

lemma sysfs_read_attr_buf_nonneg:
  "os_ok os \<Longrightarrow> \<not> fst (sysfs_read_attr os path m) < 0 \<Longrightarrow> \<exists>s. fst (snd (sysfs_read_attr os path m)) = Some s"
  by (auto simp: sysfs_read_attr_def sys_call_defs case_prod_beta split: option.splits sum.splits if_splits dest: os_ok_open)

text \<open>An attribute that reads as one line of text.\<close>

definition attr_reads :: "'k os \<Rightarrow> string \<Rightarrow> string \<Rightarrow> 'k \<Rightarrow> bool" where
  "attr_reads os path s k \<longleftrightarrow> os_open os path O_RDONLY k = None \<and> os_read os path SYSFS_ATTR_SIZE k = Inr (s @ [NL])
     \<and> length s + 1 < SYSFS_ATTR_SIZE \<and> NUL \<notin> set s"

lemma read_or_record_text: "attr_reads os path s (kern m) \<Longrightarrow> read_or_record os path d w g e m = Some (Some s, m)"
  by (simp add: read_or_record_def attr_reads_def sysfs_read_attr_text)

lemma read_or_record_wp:
  assumes "os_ok os" "wf_state m" "devices m d = Some dv"
  shows "wp (read_or_record os path d w g e m) (\<lambda>(s, m'). error_frame m m')"
proof -
  let ?m = "snd (snd (sysfs_read_attr os path m))"
  have frame: "error_frame m ?m" by (simp add: error_frame_sys sys_only_def)
  from frame assms(2) have "wf_state ?m" by (rule wf_error_frame)
  from save_last_error_wp [OF assms(1) this, of d dv w g e] assms(3)
  have "wp (save_last_error os d w g e ?m) (error_frame m)"
    by (auto elim!: wp_mono intro: error_frame_trans [OF frame])
  then show ?thesis
    using frame sysfs_read_attr_buf_nonneg [OF assms(1), of path m] by (auto simp: read_or_record_def case_prod_beta)
qed



lemma device_state_reads:
  assumes "wf_state m" "devices m d = Some dv" "attr_reads os (dev_path dv @ ''/state'') s (kern m)"
  shows "accfg_device_get_state os d m = Some (if s = ''disabled'' then ACCFG_DEVICE_DISABLED
      else if s = ''enabled'' then ACCFG_DEVICE_ENABLED else ACCFG_DEVICE_UNKNOWN, m)"
    and "accfg_device_is_active os d m = Some (if s = ''enabled'' then 1 else 0, m)"
  using wf_device(3) [OF assms(1,2)] assms(2) snprintf_path_fits [OF wf_device(1) [OF assms(1,2)], of "''state''"]
    read_or_record_text [OF assms(3)]
  by (simp_all add: accfg_device_get_state_def accfg_device_is_active_def)

section \<open>Properties\<close>

lemma sysfs_write_attr_complete:
  "os_open os path O_WRONLY (kern m) = None \<Longrightarrow> os_write os path buf (kern m) = (Inr n, k) \<Longrightarrow> length buf \<le> n
     \<Longrightarrow> sysfs_write_attr os path buf m = (0, m\<lparr>kern := k\<rparr>)"
  by (cases rule: write_attr_cases [of os path m buf]) (auto simp: sysfs_write_attr_def)

lemma devname_Some:
  "wf_state m \<Longrightarrow> devices m d = Some dv \<Longrightarrow> \<exists>n. accfg_device_get_devname d m = Some n \<and> devpath_to_devname (dev_path dv) = Some n"
  using path_ok_devname [OF wf_device(1)] by (fastforce simp: accfg_device_get_devname_def)

text \<open>
  C38: disabling a device whose driver directory resolves and whose client count can be read.  With
  clients and no \<open>force\<close> the call answers \<open>-EPERM\<close> and changes nothing, the kernel included; otherwise
  it writes the device's name to \<open>unbind\<close>, and when that write is complete answers 0 with the kernel the
  write left.
\<close>

theorem accfg_device_disable_effect:
  assumes "wf_state m" "devices m d = Some dv" "devpath_to_devname (dev_path dv) = Some name"
    and "length (dev_bus_type_str dv) + length name < 4000"
    and "os_realpath os (''/sys/bus/'' @ dev_bus_type_str dv @ ''/devices/'' @ name @ ''/driver/unbind'') (kern m) = Inr path"
    and "attr_reads os (dev_path dv @ ''/clients'') s (kern m)"
    and "os_open os path O_WRONLY (kern m) = None" "os_write os path name (kern m) = (Inr (length name), k)"
  shows "accfg_device_disable os d force m =
     (if 0 < atoi s \<and> \<not> force then Some (- EPERM, m) else Some (0, m\<lparr>kern := k\<rparr>))"
proof -
  have clients: "accfg_device_get_clients os d m = Some (atoi s, m)"
    using wf_device(3) [OF assms(1,2)] assms(2)
      snprintf_path_fits [OF wf_device(1) [OF assms(1,2)], of "''clients''"] read_or_record_text [OF assms(6)]
    by (simp add: accfg_device_get_clients_def)
  have unbind: "get_driver_unbind_path os (dev_bus_type_str dv) name m = Some ((0, path), m)"
    using assms(4,5) by (simp add: get_driver_unbind_path_def sprintf_max_def PATH_MAX_def sys_call_defs)
  have "accfg_device_get_devname d m = Some name" using assms(2,3) by (simp add: accfg_device_get_devname_def)
  with wf_device(3) [OF assms(1,2)] assms(2) clients unbind show ?thesis
    by (simp add: accfg_device_disable_def accfg_device_control_def device_control_write_def
        sysfs_write_attr_complete [OF assms(7,8)])
qed

definition ex_unbind_fs :: fs where
  "ex_unbind_fs = ex_fs\<lparr>fs_files := (''/sys/bus/dsa/devices/dsa0/driver/unbind'', []) # fs_files ex_fs\<rparr>"

theorem accfg_device_disable_effect_witness:
  "accfg_device_disable fs_os 2 False (ex_mach ex_unbind_fs) = Some (- EPERM, ex_mach ex_unbind_fs)
   \<and> (\<exists>k. accfg_device_disable fs_os 2 True (ex_mach ex_unbind_fs) = Some (0, (ex_mach ex_unbind_fs)\<lparr>kern := k\<rparr>)
        \<and> map_of (fs_files k) ''/sys/bus/dsa/devices/dsa0/driver/unbind'' = Some ''dsa0'')"
proof -
  let ?p = "''/sys/bus/dsa/devices/dsa0/driver/unbind''"
  let ?k = "ex_unbind_fs\<lparr>fs_files := (?p, ''dsa0'') # fs_files ex_unbind_fs\<rparr>"
  have "devpath_to_devname ''/d/dsa0'' = Some ''dsa0''" by code_simp
  moreover have "attr_reads fs_os ''/d/dsa0/clients'' ''2'' ex_unbind_fs"
    by (simp add: attr_reads_def ex_unbind_fs_def ex_fs_def SYSFS_ATTR_SIZE_def NL_def NUL_def)
  moreover have "0 < atoi ''2''" by code_simp
  ultimately have *: "accfg_device_disable fs_os 2 force (ex_mach ex_unbind_fs) =
      (if \<not> force then Some (- EPERM, ex_mach ex_unbind_fs) else Some (0, (ex_mach ex_unbind_fs)\<lparr>kern := ?k\<rparr>))" for force
    using accfg_device_disable_effect [OF ex_mach_wf, of ex_unbind_fs 2 ex_dev "''dsa0''" fs_os ?p "''2''" ?k force]
    by (simp add: ex_dev_def ex_unbind_fs_def ex_fs_def)
  show ?thesis by (simp add: *) (rule exI [of _ ?k], simp)
qed

lemma accfg_device_enable_writes:
  assumes "wf_state m" "devices m d = Some dv" "devpath_to_devname (dev_path dv) = Some name"
    and "ctxs m (dev_ctx dv) = Some cx" "length (dev_bus_type_str dv) < 1000" "alloc_ok os"
    and "path = ''/sys/bus/'' @ dev_bus_type_str dv @ ''/drivers/''
           @ (if c_compat cx then dev_bus_type_str dv else ''idxd'') @ ''/bind''"
    and "os_open os path O_WRONLY (kern m) = None" "os_write os path name (kern m) = (Inr (length name), k)"
  shows "accfg_device_enable os d m = Some (0, m\<lparr>kern := k\<rparr>)"
proof -
  have bind: "get_driver_bind_path os (dev_bus_type_str dv) (IDXD_DRIVER d m) m = Some ((0, path), m)"
    using assms(2,4,5,7) by (simp add: get_driver_bind_path_def sprintf_max_def PATH_MAX_def sys_alloc_ok [OF assms(6)] IDXD_DRIVER_def)
  have "accfg_device_get_devname d m = Some name" using assms(2,3) by (simp add: accfg_device_get_devname_def)
  with wf_device(3) [OF assms(1,2)] assms(2,4) bind show ?thesis
    by (simp add: accfg_device_enable_def accfg_device_control_def device_control_write_def IDXD_DRIVER_def
        sysfs_write_attr_complete [OF assms(8,9)])
qed

text \<open>
  enabling a device writes its name to the \<open>bind\<close> file of the \<open>idxd\<close> driver on its bus, or of the
  driver named after the bus in compatibility mode; when that write is complete the code is 0.
\<close>

lemma accfg_device_enable_effect:
  assumes "wf_state m" "devices m d = Some dv" "devpath_to_devname (dev_path dv) = Some name"
    and "ctxs m (dev_ctx dv) = Some cx" "length (dev_bus_type_str dv) < 1000" "alloc_ok os"
    and "path = ''/sys/bus/'' @ dev_bus_type_str dv @ ''/drivers/''
           @ (if c_compat cx then dev_bus_type_str dv else ''idxd'') @ ''/bind''"
    and "os_open os path O_WRONLY (kern m) = None" "os_write os path name (kern m) = (Inr (length name), k)"
  shows "accfg_device_enable os d m = Some (0, m\<lparr>kern := k\<rparr>)"
  using assms by (rule accfg_device_enable_writes)

lemma accfg_device_enable_effect_example:
  "\<exists>k. accfg_device_enable fs_os 2 (ex_mach (ex_fs\<lparr>fs_files := [(''/sys/bus/dsa/drivers/idxd/bind'', [])]\<rparr>))
      = Some (0, ex_mach k) \<and> map_of (fs_files k) ''/sys/bus/dsa/drivers/idxd/bind'' = Some ''dsa0''"
proof -
  let ?p = "''/sys/bus/dsa/drivers/idxd/bind''"
  let ?fs = "ex_fs\<lparr>fs_files := [(?p, [])]\<rparr>"
  let ?k = "ex_fs\<lparr>fs_files := [(?p, ''dsa0''), (?p, [])]\<rparr>"
  have "devpath_to_devname ''/d/dsa0'' = Some ''dsa0''" by code_simp
  then have "accfg_device_enable fs_os 2 (ex_mach ?fs) = Some (0, (ex_mach ?fs)\<lparr>kern := ?k\<rparr>)"
    by (intro accfg_device_enable_effect [OF ex_mach_wf, of _ _ ex_dev "''dsa0''" ex_ctx fs_os ?p])
      (simp_all add: ex_dev_def ex_ctx_def empty_ctx_def ex_fs_def fs_os_ok)
  then show ?thesis by (simp add: ex_mach_def)
qed

text \<open>
  \<open>accfg_device_is_active\<close> answers 1 exactly when \<open>accfg_device_get_state\<close> answers enabled, with
  the same effect on the state.
\<close>

lemma accfg_device_is_active_state:
  assumes "d \<noteq> 0"
  shows "accfg_device_is_active os d m =
     map_option (\<lambda>(st, m'). (if st = ACCFG_DEVICE_ENABLED then 1 else 0, m')) (accfg_device_get_state os d m)"
  using assms
  by (cases "devices m d"; cases "read_or_record os (dev_path (the (devices m d)) @ ''/state'') d 0 0 0 m")
    (auto simp: accfg_device_is_active_def accfg_device_get_state_def snprintf_path_def Let_def split: option.split)


text \<open>
  \<open>accfg_device_get_errors\<close> has no defined result when the directory opens and the attribute
  \<open>errors\<close> does not: the null pointer that stands for the missing text goes to \<open>sscanf\<close>.  The reader of
  the operation capabilities answers \<open>-EIO\<close> in the same situation.
\<close>

lemma accfg_device_get_errors_null:
  assumes "d \<noteq> 0" "devices m d = Some dv" "os_open os (dev_path dv) O_PATH (kern m) = None"
    and "os_open os (dev_path dv @ ''/errors'') O_RDONLY (kern m) = Some e"
    and "os_open os (dev_path dv @ ''/op_cap'') O_RDONLY (kern m) = Some e'"
  shows "accfg_device_get_errors os d m = None \<and>
     accfg_device_get_op_cap os d m = Some ((- EIO, []), m\<lparr>errno := e'\<rparr>)"
  using assms
  by (simp add: accfg_device_get_errors_def accfg_device_get_op_cap_def read_dir_str_def accfg_get_param_str_def sys_call_defs)

lemma accfg_device_get_errors_null_example:
  "accfg_device_get_errors fs_os 2 (ex_mach ex_fs) = None \<and>
     accfg_device_get_op_cap fs_os 2 (ex_mach ex_fs) = Some ((- EIO, []), (ex_mach ex_fs)\<lparr>errno := ENOENT\<rparr>)"
  using accfg_device_get_errors_null [of 2 "ex_mach ex_fs" ex_dev fs_os ENOENT ENOENT]
  by (simp add: ex_dev_def ex_fs_def)

end
