(* ===== verification/Accfg_Wq.thy ===== *)
theory Accfg_Wq
  imports Accfg_Device
begin

text \<open>
  The attributes of a work queue and its control (\<open>src/accfg/lib/libaccfg.c\<close>): getters, readers, the
  setters the macros generate, the checks on priority and total size, the operation configuration, the
  character device of a queue, and enabling and disabling, which verify the state the kernel reports.
\<close>

section \<open>Cached values\<close>

definition accfg_wq_get_priv :: "ptr \<Rightarrow> 'k mach \<Rightarrow> int option" where
  "accfg_wq_get_priv wq m = map_option (\<lambda>w. u32 (wq_priv w)) (wqs m wq)"

definition accfg_wq_get_group :: "ptr \<Rightarrow> 'k mach \<Rightarrow> ptr option" where
  "accfg_wq_get_group wq m = map_option wq_group (wqs m wq)"

definition accfg_wq_get_device :: "ptr \<Rightarrow> 'k mach \<Rightarrow> ptr option" where
  "accfg_wq_get_device wq m = map_option wq_device (wqs m wq)"

definition accfg_wq_get_ctx :: "ptr \<Rightarrow> 'k mach \<Rightarrow> ptr option" where
  "accfg_wq_get_ctx wq m = do { w \<leftarrow> wqs m wq; dv \<leftarrow> devices m (wq_device w); Some (dev_ctx dv) }"

definition accfg_wq_get_cdev_minor :: "ptr \<Rightarrow> 'k mach \<Rightarrow> int option" where
  "accfg_wq_get_cdev_minor wq m = map_option wq_cdev_minor (wqs m wq)"

definition accfg_wq_get_type :: "ptr \<Rightarrow> 'k mach \<Rightarrow> accfg_wq_type option" where
  "accfg_wq_get_type wq m = map_option wq_type (wqs m wq)"

definition accfg_wq_get_type_name :: "ptr \<Rightarrow> 'k mach \<Rightarrow> string option option" where
  "accfg_wq_get_type_name wq m = map_option wq_name (wqs m wq)"

definition accfg_wq_get_driver_name :: "ptr \<Rightarrow> 'k mach \<Rightarrow> string option option" where
  "accfg_wq_get_driver_name wq m = map_option wq_driver_name (wqs m wq)"

definition accfg_wq_get_size :: "ptr \<Rightarrow> 'k mach \<Rightarrow> int option" where
  "accfg_wq_get_size wq m = map_option (\<lambda>w. u64 (wq_size w)) (wqs m wq)"

definition accfg_wq_get_max_batch_size :: "ptr \<Rightarrow> 'k mach \<Rightarrow> int option" where
  "accfg_wq_get_max_batch_size wq m = map_option wq_max_batch_size (wqs m wq)"

definition accfg_wq_get_max_transfer_size :: "ptr \<Rightarrow> 'k mach \<Rightarrow> int option" where
  "accfg_wq_get_max_transfer_size wq m = map_option wq_max_transfer_size (wqs m wq)"

text \<open>The macro \<open>accfg_wq_get_field\<close>: the member as an \<open>int\<close>.\<close>

definition accfg_wq_get_field :: "(accfg_wq \<Rightarrow> int) \<Rightarrow> ptr \<Rightarrow> 'k mach \<Rightarrow> int option" where
  "accfg_wq_get_field sel wq m = map_option (\<lambda>w. s32 (sel w)) (wqs m wq)"

definition accfg_wq_get_priority :: "ptr \<Rightarrow> 'k mach \<Rightarrow> int option" where
  "accfg_wq_get_priority = accfg_wq_get_field wq_priority"

definition accfg_wq_get_threshold :: "ptr \<Rightarrow> 'k mach \<Rightarrow> int option" where
  "accfg_wq_get_threshold = accfg_wq_get_field wq_threshold"

definition accfg_wq_get_group_id :: "ptr \<Rightarrow> 'k mach \<Rightarrow> int option" where
  "accfg_wq_get_group_id = accfg_wq_get_field wq_group_id"

definition accfg_wq_get_block_on_fault :: "ptr \<Rightarrow> 'k mach \<Rightarrow> int option" where
  "accfg_wq_get_block_on_fault = accfg_wq_get_field wq_block_on_fault"

definition accfg_wq_get_ats_disable :: "ptr \<Rightarrow> 'k mach \<Rightarrow> int option" where
  "accfg_wq_get_ats_disable = accfg_wq_get_field wq_ats_disable"

definition accfg_wq_get_prs_disable :: "ptr \<Rightarrow> 'k mach \<Rightarrow> int option" where
  "accfg_wq_get_prs_disable = accfg_wq_get_field wq_prs_disable"


section \<open>Readers\<close>

text \<open>The enumeration is unsigned, and so is the negative code returned in it; a null pointer goes to
  \<open>strcmp\<close> when the attribute cannot be read.\<close>

definition accfg_wq_get_mode :: "'k os \<Rightarrow> ptr \<Rightarrow> 'k mach \<Rightarrow> ('k, int) run" where
  "accfg_wq_get_mode os wq m = do {
     w \<leftarrow> wqs m wq;
     ctx \<leftarrow> accfg_wq_get_ctx wq m;
     case read_dir_str os (wq_path w) ''mode'' m of
       (Inl rc, m) \<Rightarrow> Some (u32 rc, m)
     | (Inr read_mode, m) \<Rightarrow> do {
         s \<leftarrow> read_mode;
         Some (if s = ''shared'' then ACCFG_WQ_SHARED else ACCFG_WQ_DEDICATED, m)
       }
   }"

definition is_enabled :: "'k os \<Rightarrow> ptr \<Rightarrow> string \<Rightarrow> 'k mach \<Rightarrow> ('k, int) run" where
  "is_enabled os device drvpath m =
     (if device = 0 then Some (- EINVAL, m)
      else do {
        ctx \<leftarrow> accfg_device_get_ctx device m;
        Some (case sys_lstat os drvpath m of (ok, m) \<Rightarrow> (if \<not> ok then 0 else 1, m))
      })"

definition accfg_wq_is_enabled :: "'k os \<Rightarrow> ptr \<Rightarrow> 'k mach \<Rightarrow> ('k, int) run" where
  "accfg_wq_is_enabled os wq m = do {
     w \<leftarrow> wqs m wq;
     ctx \<leftarrow> accfg_wq_get_ctx wq m;
     case snprintf_path (wq_buf_len w) (wq_path w) ''mode'' of
       None \<Rightarrow> Some (- ENOMEM, m)
     | Some path \<Rightarrow> is_enabled os (wq_device w) path m
   }"

definition accfg_wq_driver_name_validate :: "'k os \<Rightarrow> ptr \<Rightarrow> string \<Rightarrow> 'k mach \<Rightarrow> ('k, int) run" where
  "accfg_wq_driver_name_validate os wq drv_name m = do {
     w \<leftarrow> wqs m wq;
     dv \<leftarrow> devices m (wq_device w);
     ((rc, path), m) \<leftarrow> get_driver_bind_path os (dev_bus_type_str dv) (Some drv_name) m;
     if rc < 0 then Some (0, m)
     else Some (case sys_access os path m of (ok, m) \<Rightarrow> (if ok then 1 else 0, m))
   }"

definition accfg_wq_get_occupancy :: "'k os \<Rightarrow> ptr \<Rightarrow> 'k mach \<Rightarrow> ('k, int) run" where
  "accfg_wq_get_occupancy os wq m = do {
     w \<leftarrow> wqs m wq;
     ctx \<leftarrow> accfg_wq_get_ctx wq m;
     let (dfd, m) = sys_open os (wq_path w) O_PATH m;
     if \<not> dfd then Some (- ENXIO, m)
     else Some (case accfg_get_param_long os (wq_path w) ''occupancy'' m of (v, m) \<Rightarrow> (s32 v, m))
   }"

definition accfg_wq_get_clients :: "'k os \<Rightarrow> ptr \<Rightarrow> 'k mach \<Rightarrow> ('k, int) run" where
  "accfg_wq_get_clients os wq m = do {
     w \<leftarrow> wqs m wq;
     ctx \<leftarrow> accfg_wq_get_ctx wq m;
     case snprintf_path (wq_buf_len w) (wq_path w) ''clients'' of
       None \<Rightarrow> Some (- errno m, m)
     | Some path \<Rightarrow> do {
         (buf, m) \<leftarrow> read_or_record os path (wq_device w) wq 0 0 m;
         Some (case buf of None \<Rightarrow> - errno m | Some s \<Rightarrow> atoi s, m)
       }
   }"

definition accfg_wq_get_state :: "'k os \<Rightarrow> ptr \<Rightarrow> 'k mach \<Rightarrow> ('k, accfg_wq_state) run" where
  "accfg_wq_get_state os wq m = do {
     w \<leftarrow> wqs m wq;
     ctx \<leftarrow> accfg_wq_get_ctx wq m;
     case snprintf_path (wq_buf_len w) (wq_path w) ''state'' of
       None \<Rightarrow> Some (ACCFG_WQ_UNKNOWN, m)
     | Some path \<Rightarrow> do {
         (read_state, m) \<leftarrow> read_or_record os path (wq_device w) wq 0 0 m;
         Some (case read_state of
                 None \<Rightarrow> ACCFG_WQ_UNKNOWN
               | Some s \<Rightarrow> if s = ''disabled'' then ACCFG_WQ_DISABLED
                          else if s = ''enabled'' then ACCFG_WQ_ENABLED
                          else if s = ''quiescing'' then ACCFG_WQ_QUIESCING
                          else if s = ''locked'' then ACCFG_WQ_LOCKED
                          else ACCFG_WQ_UNKNOWN, m)
       }
   }"


section \<open>Checks\<close>

definition accfg_wq_priority_boundary :: "ptr \<Rightarrow> 'k mach \<Rightarrow> int option" where
  "accfg_wq_priority_boundary wq m = do {
     w \<leftarrow> wqs m wq;
     ctx \<leftarrow> accfg_wq_get_ctx wq m;
     Some (if wq_priority w > WQ_PRIORITY_LIMIT then - ERANGE else 0)
   }"

text \<open>The sum is an \<open>int\<close>: overflow is undefined.\<close>

fun wq_size_loop :: "'k mach \<Rightarrow> int \<Rightarrow> ptr list \<Rightarrow> int \<Rightarrow> int option" where
  "wq_size_loop m max_size [] total_wq_size = Some 0"
| "wq_size_loop m max_size (wq # next) total_wq_size = do {
     w \<leftarrow> wqs m wq;
     let total_wq_size = total_wq_size + wq_size w;
     if total_wq_size > INT_MAX \<or> total_wq_size < - INT_MAX - 1 then None
     else if total_wq_size > max_size then Some (- ERANGE)
     else wq_size_loop m max_size next total_wq_size
   }"

definition accfg_wq_size_boundary :: "ptr \<Rightarrow> int \<Rightarrow> 'k mach \<Rightarrow> int option" where
  "accfg_wq_size_boundary device wq_num m =
     (if device = 0 then Some (- EINVAL)
      else do {
        dv \<leftarrow> devices m device;
        max_wqs \<leftarrow> map_option s32 (accfg_device_get_max_work_queues device m);
        if wq_num > max_wqs then Some (- ERANGE)
        else wq_size_loop m (dev_max_work_queues_size dv) (dev_wqs dv) 0
      })"


section \<open>The operation configuration\<close>

definition accfg_wq_get_op_config :: "'k os \<Rightarrow> ptr \<Rightarrow> 'k mach \<Rightarrow> ('k, int \<times> int list) run" where
  "accfg_wq_get_op_config os wq m =
     (if wq = 0 then Some ((- EINVAL, []), m)
      else do {
        w \<leftarrow> wqs m wq;
        ctx \<leftarrow> accfg_wq_get_ctx wq m;
        case read_dir_str os (wq_path w) ''op_config'' m of
          (Inl rc, m) \<Rightarrow> Some ((rc, []), m)
        | (Inr None, m) \<Rightarrow> Some ((- EIO, []), m)
        | (Inr (Some oc), m) \<Rightarrow>
            (let bits = scan_x32s 8 oc in Some ((if length bits \<noteq> 8 then - EIO else 0, bits), m))
      })"

definition accfg_wq_set_op_config_str :: "'k os \<Rightarrow> ptr \<Rightarrow> string option \<Rightarrow> 'k mach \<Rightarrow> ('k, int) run" where
  "accfg_wq_set_op_config_str os wq op_config m =
     (if wq = 0 \<or> op_config = None then Some (- EINVAL, m)
      else do {
        w \<leftarrow> wqs m wq;
        ctx \<leftarrow> accfg_wq_get_ctx wq m;
        let (dfd, m) = sys_open os (wq_path w) O_PATH m;
        if \<not> dfd then Some (- errno m, m)
        else do {
          oc \<leftarrow> op_config;
          let (rc, m) = accfg_set_param os (wq_path w) ''op_config'' oc m;
          Some (if rc \<noteq> 0 then - EIO else 0, m)
        }
      })"

text \<open>The eight words of the configuration; \<open>snprintf\<close> truncates to the buffer.\<close>

definition accfg_wq_set_op_config :: "'k os \<Rightarrow> ptr \<Rightarrow> int list option \<Rightarrow> 'k mach \<Rightarrow> ('k, int) run" where
  "accfg_wq_set_op_config os wq op_config m =
     (if wq = 0 \<or> op_config = None then Some (- EINVAL, m)
      else do {
        bits \<leftarrow> op_config;
        accfg_wq_set_op_config_str os wq (Some (take (MAX_PARAM_LEN - 1) (show_x32s bits))) m
      })"


section \<open>Enabling and disabling\<close>

definition accfg_wq_retrieve_cdev_minor :: "'k os \<Rightarrow> ptr \<Rightarrow> 'k mach \<Rightarrow> ('k, int) run" where
  "accfg_wq_retrieve_cdev_minor os wq m = do {
     w \<leftarrow> wqs m wq;
     ctx \<leftarrow> accfg_wq_get_ctx wq m;
     let (dfd, m) = sys_open os (wq_path w) O_PATH m;
     if \<not> dfd then Some (- ENXIO, m)
     else do {
       let (v, m) = accfg_get_param_long os (wq_path w) ''cdev_minor'' m;
       m \<leftarrow> upd_wq wq (\<lambda>w. w\<lparr>wq_cdev_minor := s32 v\<rparr>) m;
       Some (0, m)
     }
   }"

definition accfg_wq_state_expected :: "'k os \<Rightarrow> ptr \<Rightarrow> accfg_control_flag \<Rightarrow> 'k mach \<Rightarrow> ('k, bool) run" where
  "accfg_wq_state_expected os wq flag m =
     (let run = (\<lambda>expected. do { (state, m) \<leftarrow> accfg_wq_get_state os wq m; Some (state = expected, m) }) in
      if flag = ACCFG_WQ_DISABLE then run ACCFG_WQ_DISABLED
      else if flag = ACCFG_WQ_ENABLE then run ACCFG_WQ_ENABLED
      else Some (False, m))"

definition IDXD_WQ_DEVICE_PORTAL :: "ptr \<Rightarrow> accfg_wq \<Rightarrow> 'k mach \<Rightarrow> string option option" where
  "IDXD_WQ_DEVICE_PORTAL device w m = do {
     dv \<leftarrow> devices m device;
     cx \<leftarrow> ctxs m (dev_ctx dv);
     Some (if c_compat cx then Some (dev_bus_type_str dv) else accfg_wq_device_portals (wq_type w))
   }"

text \<open>The first part of \<open>accfg_wq_control\<close>: a code to return, or the path to write to (\<open>None\<close>: no path).\<close>

definition wq_control_path ::
  "'k os \<Rightarrow> ptr \<Rightarrow> accfg_control_flag \<Rightarrow> bool \<Rightarrow> string \<Rightarrow> 'k mach \<Rightarrow> ('k, int + string option) run" where
  "wq_control_path os wq flag force name m = do {
     w \<leftarrow> wqs m wq;
     dv \<leftarrow> devices m (wq_device w);
     if flag = ACCFG_WQ_ENABLE then do {
       drv \<leftarrow> (case wq_driver_name w of
                 Some n \<Rightarrow> if n \<noteq> [] then Some (Some n) else IDXD_WQ_DEVICE_PORTAL (wq_device w) w m
               | None \<Rightarrow> IDXD_WQ_DEVICE_PORTAL (wq_device w) w m);
       ((rc, path), m) \<leftarrow> get_driver_bind_path os (dev_bus_type_str dv) drv m;
       if rc < 0 then Some (Inl rc, m)
       else if wq_driver_name w \<noteq> None then
         (case sys_access os path m of (ok, m) \<Rightarrow> Some (if \<not> ok then Inl (- ENOENT) else Inr (Some path), m))
       else Some (Inr (Some path), m)
     }
     else if flag = ACCFG_WQ_DISABLE then do {
       ((rc, path), m) \<leftarrow> get_driver_unbind_path os (dev_bus_type_str dv) name m;
       if rc < 0 then Some (Inl rc, m)
       else do {
         (clients, m) \<leftarrow> accfg_wq_get_clients os wq m;
         Some (if clients > 0 \<and> \<not> force then Inl (- EPERM) else Inr (Some path), m)
       }
     }
     else Some (Inr None, m)
   }"

text \<open>The last part: verify the state and refresh the minor number.\<close>

definition wq_control_verify :: "'k os \<Rightarrow> ptr \<Rightarrow> accfg_control_flag \<Rightarrow> 'k mach \<Rightarrow> ('k, int) run" where
  "wq_control_verify os wq flag m = do {
     (expected, m) \<leftarrow> accfg_wq_state_expected os wq flag m;
     if \<not> expected then Some (- ENXIO, m)
     else do {
       (rc, m) \<leftarrow> accfg_wq_retrieve_cdev_minor os wq m;
       Some (if rc \<noteq> 0 then - ENXIO else 0, m)
     }
   }"

definition accfg_wq_control :: "'k os \<Rightarrow> ptr \<Rightarrow> accfg_control_flag \<Rightarrow> bool \<Rightarrow> 'k mach \<Rightarrow> ('k, int) run" where
  "accfg_wq_control os wq flag force m = do {
     w \<leftarrow> wqs m wq;
     ctx \<leftarrow> accfg_wq_get_ctx wq m;
     name \<leftarrow> accfg_wq_get_devname wq m;
     (r, m) \<leftarrow> wq_control_path os wq flag force name m;
     case r of
       Inl rc \<Rightarrow> Some (rc, m)
     | Inr None \<Rightarrow> wq_control_verify os wq flag m
     | Inr (Some path) \<Rightarrow>
         (case sysfs_write_attr os path name m of (rc, m) \<Rightarrow>
          if rc < 0 then do {
            m \<leftarrow> save_last_error os (wq_device w) wq 0 0 m;
            Some (rc, m)
          }
          else wq_control_verify os wq flag m)
   }"

definition accfg_wq_enable :: "'k os \<Rightarrow> ptr \<Rightarrow> 'k mach \<Rightarrow> ('k, int) run" where
  "accfg_wq_enable os wq m = accfg_wq_control os wq ACCFG_WQ_ENABLE False m"

definition accfg_wq_disable :: "'k os \<Rightarrow> ptr \<Rightarrow> bool \<Rightarrow> 'k mach \<Rightarrow> ('k, int) run" where
  "accfg_wq_disable os wq force m = accfg_wq_control os wq ACCFG_WQ_DISABLE force m"


section \<open>The character device\<close>

text \<open>
  \<open>fnmatch\<close> of the pattern \<open>name-*\<close>, for a name without pattern characters.  The entries of the directory
  are in the order \<open>alphasort\<close> gives them; the loop starts at the last.  The result pairs the code with the
  text copied to the caller's buffer of \<open>size\<close> bytes.
\<close>

definition fnmatch_dash :: "string \<Rightarrow> string \<Rightarrow> bool" where
  "fnmatch_dash name f \<longleftrightarrow> take (length name + 1) f = name @ ''-''"

definition accfg_wq_get_user_dev_path :: "'k os \<Rightarrow> ptr \<Rightarrow> nat \<Rightarrow> 'k mach \<Rightarrow> ('k, int \<times> string option) run" where
  "accfg_wq_get_user_dev_path os wq size_arg m = do {
     w \<leftarrow> wqs m wq;
     dv \<leftarrow> devices m (wq_device w);
     p \<leftarrow> sprintf_max (''/dev/'' @ dev_type_str dv);
     case sys_scandir os p m of
       (None, m) \<Rightarrow> Some ((- ENOENT, None), m)
     | (Some d, m) \<Rightarrow> do {
         name \<leftarrow> accfg_wq_get_devname wq m;
         _ \<leftarrow> sprintf_max (name @ ''-*'');
         case find (\<lambda>f. fnmatch_dash name f \<or> f = name) (rev d) of
           None \<Rightarrow> Some ((- ENOENT, None), m)
         | Some f \<Rightarrow> do {
             p \<leftarrow> sprintf_max (''/dev/'' @ dev_type_str dv @ ''/'' @ f);
             Some (if length p \<ge> size_arg then (- ERANGE, None) else (0, Some p), m)
           }
       }
   }"


section \<open>Setters\<close>

text \<open>
  The macro \<open>accfg_wq_set_field\<close>.  A threshold is refused on a device that is not configurable; the
  code is the negated \<open>errno\<close> of some earlier call.
\<close>

definition accfg_wq_set_field ::
  "'k os \<Rightarrow> string \<Rightarrow> (int \<Rightarrow> accfg_wq \<Rightarrow> accfg_wq) \<Rightarrow> ptr \<Rightarrow> int \<Rightarrow> 'k mach \<Rightarrow> ('k, int) run" where
  "accfg_wq_set_field os field store wq val m = do {
     w \<leftarrow> wqs m wq;
     ctx \<leftarrow> accfg_wq_get_ctx wq m;
     path \<leftarrow> sprintf_path (wq_buf_len w) (wq_path w) (Some field);
     configurable \<leftarrow> accfg_device_get_configurable (wq_device w) m;
     if configurable = 0 \<and> field = ''threshold'' then Some (- errno m, m)
     else attr_commit os path (show_int val) (wq_device w) wq 0 0 (upd_wq wq (store val)) m
   }"

definition accfg_wq_set_size :: "'k os \<Rightarrow> ptr \<Rightarrow> int \<Rightarrow> 'k mach \<Rightarrow> ('k, int) run" where
  "accfg_wq_set_size os = accfg_wq_set_field os ''size'' (\<lambda>val w. w\<lparr>wq_size := val\<rparr>)"

definition accfg_wq_set_priority :: "'k os \<Rightarrow> ptr \<Rightarrow> int \<Rightarrow> 'k mach \<Rightarrow> ('k, int) run" where
  "accfg_wq_set_priority os = accfg_wq_set_field os ''priority'' (\<lambda>val w. w\<lparr>wq_priority := val\<rparr>)"

definition accfg_wq_set_group_id :: "'k os \<Rightarrow> ptr \<Rightarrow> int \<Rightarrow> 'k mach \<Rightarrow> ('k, int) run" where
  "accfg_wq_set_group_id os = accfg_wq_set_field os ''group_id'' (\<lambda>val w. w\<lparr>wq_group_id := val\<rparr>)"

definition accfg_wq_set_block_on_fault :: "'k os \<Rightarrow> ptr \<Rightarrow> int \<Rightarrow> 'k mach \<Rightarrow> ('k, int) run" where
  "accfg_wq_set_block_on_fault os = accfg_wq_set_field os ''block_on_fault'' (\<lambda>val w. w\<lparr>wq_block_on_fault := val\<rparr>)"

definition accfg_wq_set_threshold :: "'k os \<Rightarrow> ptr \<Rightarrow> int \<Rightarrow> 'k mach \<Rightarrow> ('k, int) run" where
  "accfg_wq_set_threshold os = accfg_wq_set_field os ''threshold'' (\<lambda>val w. w\<lparr>wq_threshold := u32 val\<rparr>)"

definition accfg_wq_set_max_batch_size :: "'k os \<Rightarrow> ptr \<Rightarrow> int \<Rightarrow> 'k mach \<Rightarrow> ('k, int) run" where
  "accfg_wq_set_max_batch_size os = accfg_wq_set_field os ''max_batch_size'' (\<lambda>val w. w\<lparr>wq_max_batch_size := u32 val\<rparr>)"

definition accfg_wq_set_ats_disable :: "'k os \<Rightarrow> ptr \<Rightarrow> int \<Rightarrow> 'k mach \<Rightarrow> ('k, int) run" where
  "accfg_wq_set_ats_disable os = accfg_wq_set_field os ''ats_disable'' (\<lambda>val w. w\<lparr>wq_ats_disable := val\<rparr>)"

definition accfg_wq_set_prs_disable :: "'k os \<Rightarrow> ptr \<Rightarrow> int \<Rightarrow> 'k mach \<Rightarrow> ('k, int) run" where
  "accfg_wq_set_prs_disable os = accfg_wq_set_field os ''prs_disable'' (\<lambda>val w. w\<lparr>wq_prs_disable := val\<rparr>)"

definition accfg_wq_set_long_field ::
  "'k os \<Rightarrow> string \<Rightarrow> (int \<Rightarrow> accfg_wq \<Rightarrow> accfg_wq) \<Rightarrow> ptr \<Rightarrow> int \<Rightarrow> 'k mach \<Rightarrow> ('k, int) run" where
  "accfg_wq_set_long_field os field store wq val m = do {
     w \<leftarrow> wqs m wq;
     ctx \<leftarrow> accfg_wq_get_ctx wq m;
     path \<leftarrow> sprintf_path (wq_buf_len w) (wq_path w) (Some field);
     configurable \<leftarrow> accfg_device_get_configurable (wq_device w) m;
     if configurable = 0 then Some (- errno m, m)
     else attr_commit os path (show_int val) (wq_device w) wq 0 0 (upd_wq wq (store val)) m
   }"

definition accfg_wq_set_max_transfer_size :: "'k os \<Rightarrow> ptr \<Rightarrow> int \<Rightarrow> 'k mach \<Rightarrow> ('k, int) run" where
  "accfg_wq_set_max_transfer_size os =
     accfg_wq_set_long_field os ''max_transfer_size'' (\<lambda>val w. w\<lparr>wq_max_transfer_size := val\<rparr>)"

text \<open>The macro \<open>accfg_wq_set_str_field\<close>: \<open>sprintf\<close> of the value into a buffer of
  \<open>SYSFS_ATTR_SIZE\<close> bytes; the old text is freed before the copy is allocated.\<close>

definition accfg_wq_set_str_field ::
  "'k os \<Rightarrow> string \<Rightarrow> (string option \<Rightarrow> accfg_wq \<Rightarrow> accfg_wq) \<Rightarrow> ptr \<Rightarrow> string \<Rightarrow> 'k mach \<Rightarrow> ('k, int) run" where
  "accfg_wq_set_str_field os field store wq val m = do {
     w \<leftarrow> wqs m wq;
     ctx \<leftarrow> accfg_wq_get_ctx wq m;
     path \<leftarrow> sprintf_path (wq_buf_len w) (wq_path w) (Some field);
     buf \<leftarrow> (if length val + 1 \<le> SYSFS_ATTR_SIZE then Some val else None);
     configurable \<leftarrow> accfg_device_get_configurable (wq_device w) m;
     if configurable = 0 \<and> field \<noteq> ''name'' \<and> field \<noteq> ''driver_name'' then Some (- errno m, m)
     else case sysfs_write_attr os path buf m of (rc, m) \<Rightarrow>
       if rc < 0 then
         (if rc = - ENOENT \<and> field = ''driver_name'' then Some (0, m)
          else do {
            m \<leftarrow> save_last_error os (wq_device w) wq 0 0 m;
            Some (- errno m, m)
          })
       else
         case sys_alloc os m of (ok, m) \<Rightarrow> do {
         m \<leftarrow> upd_wq wq (store (if ok then Some val else None)) m;
         Some (if \<not> ok then - ENOMEM else 0, m)
       }
   }"

definition accfg_wq_set_str_mode :: "'k os \<Rightarrow> ptr \<Rightarrow> string \<Rightarrow> 'k mach \<Rightarrow> ('k, int) run" where
  "accfg_wq_set_str_mode os = accfg_wq_set_str_field os ''mode'' (\<lambda>val w. w\<lparr>wq_mode := val\<rparr>)"

definition accfg_wq_set_str_name :: "'k os \<Rightarrow> ptr \<Rightarrow> string \<Rightarrow> 'k mach \<Rightarrow> ('k, int) run" where
  "accfg_wq_set_str_name os = accfg_wq_set_str_field os ''name'' (\<lambda>val w. w\<lparr>wq_name := val\<rparr>)"

definition accfg_wq_set_str_driver_name :: "'k os \<Rightarrow> ptr \<Rightarrow> string \<Rightarrow> 'k mach \<Rightarrow> ('k, int) run" where
  "accfg_wq_set_str_driver_name os = accfg_wq_set_str_field os ''driver_name'' (\<lambda>val w. w\<lparr>wq_driver_name := val\<rparr>)"

definition accfg_wq_set_str_type :: "'k os \<Rightarrow> ptr \<Rightarrow> string \<Rightarrow> 'k mach \<Rightarrow> ('k, int) run" where
  "accfg_wq_set_str_type os wq val m = do {
     w \<leftarrow> wqs m wq;
     ctx \<leftarrow> accfg_wq_get_ctx wq m;
     path \<leftarrow> sprintf_path (wq_buf_len w) (wq_path w) (Some ''type'');
     buf \<leftarrow> (if length val + 1 \<le> SYSFS_ATTR_SIZE then Some val else None);
     case sysfs_write_attr os path buf m of (rc, m) \<Rightarrow>
     if rc < 0 then do {
       m \<leftarrow> save_last_error os (wq_device w) wq 0 0 m;
       Some (- errno m, m)
     }
     else
       case sys_alloc os m of (ok, m) \<Rightarrow>
       if \<not> ok then Some (- ENOMEM, m)
       else do {
         ((rc, t), m) \<leftarrow> wq_parse_type os (Some val) m;
         m \<leftarrow> (case t of None \<Rightarrow> Some m | Some t \<Rightarrow> upd_wq wq (\<lambda>w. w\<lparr>wq_type := t\<rparr>) m);
         Some (if rc < 0 then rc else 0, m)
       }
   }"

definition accfg_wq_set_mode :: "'k os \<Rightarrow> ptr \<Rightarrow> int \<Rightarrow> 'k mach \<Rightarrow> ('k, int) run" where
  "accfg_wq_set_mode os wq mode m =
     (if u32 mode \<ge> ACCFG_WQ_MODE_UNKNOWN then Some (- EINVAL, m)
      else accfg_wq_set_str_mode os wq (accfg_wq_mode_str ! nat (u32 mode)) m)"



section \<open>The setters keep the contract\<close>

definition wq_links :: "accfg_wq \<Rightarrow> ptr \<times> ptr \<times> string \<times> nat" where
  "wq_links w = (wq_device w, wq_group w, wq_path w, wq_buf_len w)"

lemma upd_wq_ok:
  assumes "wqs m w = Some wq" "wq_links (f wq) = wq_links wq"
  shows "upd_wq w f m = Some (m\<lparr>wqs := (wqs m)(w \<mapsto> f wq)\<rparr>)"
    "shape (m\<lparr>wqs := (wqs m)(w \<mapsto> f wq)\<rparr>) = shape m"
  using assms by (auto simp: upd_wq_def shape_def fun_eq_iff wq_links_def)

lemma wq_ctx_Some:
  assumes "wf_state m" "wqs m w = Some wq"
  obtains dv where "devices m (wq_device wq) = Some dv" "accfg_wq_get_ctx w m = Some (dev_ctx dv)"
    "accfg_device_get_configurable (wq_device wq) m = Some (u32 (dev_configurable dv))"
  using wf_wq(2) [OF assms] assms(2) that by (auto simp: accfg_wq_get_ctx_def accfg_device_get_configurable_def)

lemma accfg_wq_set_field_wp:
  fixes m :: "'k mach" and v :: int
  assumes os: "os_ok os" and wf: "wf_state m" and w: "wqs m p = Some wq"
    and field: "length field < 127" "field \<noteq> ''threshold''" and store: "\<And>v x. wq_links (store v x) = wq_links x"
  defines "r \<equiv> sysfs_write_attr os (wq_path wq @ ''/'' @ field) (show_int v) m"
  shows "wp (accfg_wq_set_field os field store p v m) (\<lambda>(rc, m'). wf_state m' \<and>
     (if fst r < 0 then rc < 0 \<and> error_frame m m'
      else rc = 0 \<and> m' = (snd r)\<lparr>wqs := (wqs m)(p \<mapsto> store v wq)\<rparr>))"
proof -
  obtain dv where d: "devices m (wq_device wq) = Some dv" "accfg_wq_get_ctx p m = Some (dev_ctx dv)"
    "accfg_device_get_configurable (wq_device wq) m = Some (u32 (dev_configurable dv))" using wq_ctx_Some [OF wf w] .
  have "wqs (snd r) p = Some wq" by (simp add: r_def w)
  from upd_wq_ok [where f = "store v", OF this store]
  have up: "upd_wq p (store v) (snd r) = Some ((snd r)\<lparr>wqs := (wqs m)(p \<mapsto> store v wq)\<rparr>)"
    "shape ((snd r)\<lparr>wqs := (wqs m)(p \<mapsto> store v wq)\<rparr>) = shape m" by (simp_all add: r_def)
  note commit = attr_commit_wf_wp [where assign = "upd_wq p (store v)" and w = p and g = 0 and e = 0,
      OF os wf d(1) up(1) [unfolded r_def] up(2) [unfolded r_def]]
  have "accfg_wq_set_field os field store p v m
     = attr_commit os (wq_path wq @ ''/'' @ field) (show_int v) (wq_device wq) p 0 0 (upd_wq p (store v)) m"
    using sprintf_path_fits [OF wf_wq(1) [OF wf w] field(1)] w d field(2)
    by (simp add: accfg_wq_set_field_def)
  then show ?thesis
    by (simp only:) (rule wp_mono [OF commit], auto simp: r_def split: if_splits)
qed

interpretation wq_size_attr: attr_setter os "accfg_wq_set_size os" wqs
    "\<lambda>m w. wq_path w @ ''/size''" show_int "\<lambda>v w. w\<lparr>wq_size := v\<rparr>"
  for os :: "'k os"
proof
  fix m :: "'k mach" and p x v
  assume a: "os_ok os" "wf_state m" "wqs m p = Some x"
  show "wp (accfg_wq_set_size os p v m) (\<lambda>(rc, m'). wf_state m' \<and>
      (if rc = 0 then wqs m' = (wqs m)(p \<mapsto> x\<lparr>wq_size := v\<rparr>)
       else rc < 0 \<and> wqs m' = wqs m) \<and>
      (\<exists>m0 :: 'k mach. kern m0 = kern m \<and> (rc = 0 \<longleftrightarrow>
         \<not> fst (sysfs_write_attr os (wq_path x @ ''/size'') (show_int v) m0) < 0)))"
    unfolding accfg_wq_set_size_def
    by (rule wp_mono [OF accfg_wq_set_field_wp [OF a]])
      (auto simp: wq_links_def error_frame_def split: if_splits intro!: exI [of _ m])
qed


section \<open>Properties\<close>

lemma fold_store_size: "wq_size (fold (\<lambda>v w. w\<lparr>wq_size := v\<rparr>) vs w) = last (wq_size w # vs)"
  by (induction vs arbitrary: w) auto

text \<open>
  After any sequence of settings of the size of a work queue, the getter answers the last value
  accepted, and no other queue changed.
\<close>

lemma accfg_wq_size_settings_cached:
  assumes "os_ok os" "wf_state m" "wqs m w = Some wq"
  shows "wp (set_all (accfg_wq_set_size os) w vs m) (\<lambda>(rcs, m'). wf_state m' \<and>
     length rcs = length vs \<and> (\<forall>rc \<in> set rcs. rc \<le> 0) \<and>
     accfg_wq_get_size w m' = Some (u64 (last (wq_size wq # accepted rcs vs))) \<and>
     (\<forall>q. q \<noteq> w \<longrightarrow> wqs m' q = wqs m q))"
  by (rule wp_mono [OF wq_size_attr.set_all_wp [OF assms]])
    (auto simp: accfg_wq_get_size_def fold_store_size)


text \<open>
  on a device that is not configurable, setting a threshold or a maximum transfer size writes nothing
  and caches nothing, and the code is whatever \<open>errno\<close> was before: 0, success, when no earlier call had
  failed.
\<close>

lemma accfg_wq_set_refused:
  assumes "wf_state m" "wqs m w = Some wq" "devices m (wq_device wq) = Some dv" "u32 (dev_configurable dv) = 0"
  shows "accfg_wq_set_threshold os w v m = Some (- errno m, m) \<and>
     accfg_wq_set_max_transfer_size os w v m = Some (- errno m, m)"
  using assms sprintf_path_fits [OF wf_wq(1) [OF assms(1,2)], of "''threshold''"]
    sprintf_path_fits [OF wf_wq(1) [OF assms(1,2)], of "''max_transfer_size''"]
  by (simp add: accfg_wq_set_threshold_def accfg_wq_set_field_def accfg_wq_set_max_transfer_size_def
      accfg_wq_set_long_field_def accfg_wq_get_ctx_def accfg_device_get_configurable_def)

definition ex_fixed :: "'k \<Rightarrow> 'k mach" where
  "ex_fixed k = (ex_mach k)\<lparr>devices := [2 \<mapsto> ex_dev\<lparr>dev_configurable := 0\<rparr>]\<rparr>"

lemma ex_fixed_wf: "wf_state (ex_fixed k)"
  by (rule wf_shape [OF _ ex_mach_wf [of k]]) (simp add: ex_fixed_def shape_def fun_eq_iff)

lemma accfg_wq_set_refused_example:
  "accfg_wq_set_threshold fs_os 4 12 (ex_fixed ex_fs) = Some (0, ex_fixed ex_fs) \<and>
     accfg_wq_set_max_transfer_size fs_os 4 12 (ex_fixed ex_fs) = Some (0, ex_fixed ex_fs)"
  using accfg_wq_set_refused [OF ex_fixed_wf, of ex_fs 4 ex_wq "ex_dev\<lparr>dev_configurable := 0\<rparr>" fs_os 12]
  by (simp add: ex_fixed_def ex_wq_def u32_def)


text \<open>
  C23: disabling a work queue that has clients, without \<open>force\<close>, answers \<open>-EPERM\<close> and changes nothing,
  the kernel included: the queue is not unbound.
\<close>

theorem accfg_wq_disable_refused:
  assumes "wf_state m" "wqs m w = Some wq" "devices m (wq_device wq) = Some dv"
    and "devpath_to_devname (wq_path wq) = Some name" "length (dev_bus_type_str dv) + length name < 4000"
    and "os_realpath os (''/sys/bus/'' @ dev_bus_type_str dv @ ''/devices/'' @ name @ ''/driver/unbind'') (kern m) = Inr path"
    and "attr_reads os (wq_path wq @ ''/clients'') s (kern m)" "0 < atoi s"
  shows "accfg_wq_disable os w False m = Some (- EPERM, m)"
proof -
  have "accfg_wq_get_clients os w m = Some (atoi s, m)"
    using assms(2,3) snprintf_path_fits [OF wf_wq(1) [OF assms(1,2)], of "''clients''"] read_or_record_text [OF assms(7)]
    by (simp add: accfg_wq_get_clients_def accfg_wq_get_ctx_def)
  moreover have "get_driver_unbind_path os (dev_bus_type_str dv) name m = Some ((0, path), m)"
    using assms(5,6) by (simp add: get_driver_unbind_path_def sprintf_max_def PATH_MAX_def sys_call_defs)
  moreover have "accfg_wq_get_devname w m = Some name" using assms(2,4) by (simp add: accfg_wq_get_devname_def)
  ultimately show ?thesis
    using assms(2,3,8) by (simp add: accfg_wq_disable_def accfg_wq_control_def wq_control_path_def accfg_wq_get_ctx_def)
qed

definition ex_busy_fs :: fs where
  "ex_busy_fs = ex_fs\<lparr>fs_files := (''/sys/bus/dsa/devices/wq0.0/driver/unbind'', [])
     # (''/d/dsa0/wq0.0/clients'', ''3'' @ [NL]) # fs_files ex_fs\<rparr>"

theorem accfg_wq_disable_refused_witness:
  "accfg_wq_disable fs_os 4 False (ex_mach ex_busy_fs) = Some (- EPERM, ex_mach ex_busy_fs)"
proof -
  have "devpath_to_devname ''/d/dsa0/wq0.0'' = Some ''wq0.0''" by code_simp
  moreover have "attr_reads fs_os ''/d/dsa0/wq0.0/clients'' ''3'' ex_busy_fs"
    by (simp add: attr_reads_def ex_busy_fs_def ex_fs_def SYSFS_ATTR_SIZE_def NL_def NUL_def)
  moreover have "0 < atoi ''3''" by code_simp
  ultimately show ?thesis
    using accfg_wq_disable_refused [OF ex_mach_wf, of ex_busy_fs 4 ex_wq ex_dev "''wq0.0''" fs_os
        "''/sys/bus/dsa/devices/wq0.0/driver/unbind''" "''3''"]
    by (simp add: ex_dev_def ex_wq_def ex_busy_fs_def ex_fs_def)
qed


text \<open>What a verified state means: the state attribute of the resulting kernel reads as the text.\<close>

definition state_text :: "accfg_control_flag \<Rightarrow> string" where
  "state_text flag = (if flag = ACCFG_WQ_ENABLE then ''enabled'' else ''disabled'')"

lemma sysfs_read_attr_kern:
  assumes "kern m' = kern m" "fst (sysfs_read_attr os path m) = 0" "fst (snd (sysfs_read_attr os path m)) = Some s" "s \<noteq> []"
  shows "sysfs_read_attr os path m' = (0, Some s, m')"
  using assms by (auto simp: sysfs_read_attr_def sys_call_defs split: option.splits sum.splits if_splits)

lemma read_or_record_Some:
  assumes "os_ok os" "read_or_record os path d w g e m = Some (Some s, m')" "s \<noteq> []"
  shows "sysfs_read_attr os path m = (0, Some s, m) \<and> m' = m"
  using assms
  by (auto simp: read_or_record_def bind_Some_iff sysfs_read_attr_def sys_call_defs
      split: option.splits sum.splits if_splits prod.splits)


lemma get_driver_bind_path_wp:
  "length bus + (case drv of None \<Rightarrow> 6 | Some d \<Rightarrow> length d) < 4000 \<Longrightarrow>
     wp (get_driver_bind_path os bus drv m) (\<lambda>(_, m'). error_frame m m')"
  by (auto simp: get_driver_bind_path_def sprintf_max_def PATH_MAX_def case_prod_beta error_frame_sys sys_only_def
      split: option.splits)

lemma get_driver_unbind_path_wp:
  "length bus + length name < 4000 \<Longrightarrow> wp (get_driver_unbind_path os bus name m) (\<lambda>(_, m'). error_frame m m')"
  by (simp add: get_driver_unbind_path_def sprintf_max_def PATH_MAX_def case_prod_beta error_frame_sys sys_only_def
      split: option.split)

lemma accfg_wq_get_clients_wp:
  assumes "os_ok os" "wf_state m" "wqs m w = Some wq"
  shows "wp (accfg_wq_get_clients os w m) (\<lambda>(_, m'). error_frame m m')"
proof -
  obtain dv where d: "devices m (wq_device wq) = Some dv" using wf_wq(2) [OF assms(2,3)] by blast
  show ?thesis
    using assms(3) d snprintf_path_fits [OF wf_wq(1) [OF assms(2,3)], of "''clients''"]
      read_or_record_wp [OF assms(1,2) d, of "wq_path wq @ ''/clients''" w 0 0]
    by (auto simp: accfg_wq_get_clients_def accfg_wq_get_ctx_def elim!: wp_mono)
qed

lemma accfg_wq_get_state_wp:
  assumes "os_ok os" "wf_state m" "wqs m w = Some wq"
  shows "wp (accfg_wq_get_state os w m) (\<lambda>(st, m'). error_frame m m' \<and>
     (st = ACCFG_WQ_ENABLED \<longrightarrow> sysfs_read_attr os (wq_path wq @ ''/state'') m' = (0, Some ''enabled'', m')) \<and>
     (st = ACCFG_WQ_DISABLED \<longrightarrow> sysfs_read_attr os (wq_path wq @ ''/state'') m' = (0, Some ''disabled'', m')))"
proof -
  let ?p = "wq_path wq @ ''/state''"
  obtain dv where d: "devices m (wq_device wq) = Some dv" using wf_wq(2) [OF assms(2,3)] by blast
  from read_or_record_wp [OF assms(1,2) d, of ?p w 0 0] obtain s m1
    where m1: "read_or_record os ?p (wq_device wq) w 0 0 m = Some (s, m1)" "error_frame m m1" by (auto simp: wp_iff)
  show ?thesis
    using assms(3) d m1 snprintf_path_fits [OF wf_wq(1) [OF assms(2,3)], of "''state''"]
      read_or_record_Some [OF assms(1), of ?p "wq_device wq" w 0 0 m "the s" m1]
    by (auto simp: accfg_wq_get_state_def accfg_wq_get_ctx_def split: option.split)
qed

lemma accfg_wq_retrieve_cdev_minor_wp:
  assumes "wf_state m" "wqs m w = Some wq"
  shows "wp (accfg_wq_retrieve_cdev_minor os w m) (\<lambda>(rc, m'). steady m m' \<and> kern m' = kern m)"
proof -
  obtain dv where d: "devices m (wq_device wq) = Some dv" using wf_wq(2) [OF assms] by blast
  have up: "wp (upd_wq w (\<lambda>w. w\<lparr>wq_cdev_minor := v\<rparr>) m1) (\<lambda>m'. steady m m' \<and> kern m' = kern m1)"
    if "wqs m1 w = Some wq" "error_frame m m1" for v and m1 :: "'a mach"
    using upd_wq_ok [OF that(1), of "\<lambda>w. w\<lparr>wq_cdev_minor := v\<rparr>"] that
    by (auto simp: wq_links_def steady_def error_frame_def split: if_splits)
  show ?thesis
    using assms(2) d
    by (auto simp: accfg_wq_retrieve_cdev_minor_def accfg_wq_get_ctx_def case_prod_beta steady_error_frame error_frame_sys sys_only_def
        intro!: wp_mono [OF up])
qed

lemma wq_control_verify_wp:
  assumes "os_ok os" "wf_state m" "wqs m w = Some wq" "flag = ACCFG_WQ_ENABLE \<or> flag = ACCFG_WQ_DISABLE"
  shows "wp (wq_control_verify os w flag m) (\<lambda>(rc, m'). steady m m' \<and>
     (0 \<le> rc \<longrightarrow> sysfs_read_attr os (wq_path wq @ ''/state'') m' = (0, Some (state_text flag), m')))"
proof -
  let ?p = "wq_path wq @ ''/state''"
  from accfg_wq_get_state_wp [OF assms(1-3)] obtain st m1 where st: "accfg_wq_get_state os w m = Some (st, m1)" "error_frame m m1"
    "st = ACCFG_WQ_ENABLED \<longrightarrow> sysfs_read_attr os ?p m1 = (0, Some ''enabled'', m1)"
    "st = ACCFG_WQ_DISABLED \<longrightarrow> sysfs_read_attr os ?p m1 = (0, Some ''disabled'', m1)" by (auto simp: wp_iff)
  then have wf: "wf_state m1" "wqs m1 w = Some wq" using wf_error_frame assms(2,3) by (auto simp: error_frame_def)
  from accfg_wq_retrieve_cdev_minor_wp [OF this, of os] obtain rc m2
    where m2: "accfg_wq_retrieve_cdev_minor os w m1 = Some (rc, m2)" "steady m1 m2" "kern m2 = kern m1" by (auto simp: wp_iff)
  have "steady m m2" using st(2) m2(2) by (rule steady_then)
  with st m2 wf sysfs_read_attr_kern [OF m2(3), of os ?p "state_text flag"] assms(4) show ?thesis
    by (auto simp: wq_control_verify_def accfg_wq_state_expected_def Let_def state_text_def ENXIO_def steady_error_frame)
qed


lemma wq_control_path_wp:
  assumes "os_ok os" "wf_state m" "wqs m w = Some wq" "devices m (wq_device wq) = Some dv"
    and "length (dev_bus_type_str dv) < 1000" "length name < 1000"
    and "\<forall>n. wq_driver_name wq = Some n \<longrightarrow> length n < 1000"
  shows "wp (wq_control_path os w flag force name m) (\<lambda>(r, m'). error_frame m m' \<and> (\<forall>rc. r = Inl rc \<longrightarrow> rc < 0))"
proof -
  obtain cx where cx: "ctxs m (dev_ctx dv) = Some cx" using wf_device(2) [OF assms(2,4)] by blast
  let ?drv = "case wq_driver_name wq of Some n \<Rightarrow> if n \<noteq> [] then Some (Some n) else IDXD_WQ_DEVICE_PORTAL (wq_device wq) wq m
     | None \<Rightarrow> IDXD_WQ_DEVICE_PORTAL (wq_device wq) wq m"
  obtain portal where portal: "IDXD_WQ_DEVICE_PORTAL (wq_device wq) wq m = Some portal"
    "(case portal of None \<Rightarrow> 6 | Some d \<Rightarrow> length d) < 1000"
    using assms(4,5) cx by (cases "wq_type wq") (auto simp: IDXD_WQ_DEVICE_PORTAL_def accfg_wq_device_portals_def)
  have "\<exists>drv. ?drv = Some drv \<and> (case drv of None \<Rightarrow> 6 | Some d \<Rightarrow> length d) < 1000"
    using portal assms(7) by (auto split: option.split)
  then obtain drv where drv: "?drv = Some drv" "(case drv of None \<Rightarrow> 6 | Some d \<Rightarrow> length d) < 1000" by blast
  have "length (dev_bus_type_str dv) + (case drv of None \<Rightarrow> 6 | Some d \<Rightarrow> length d) < 4000"
    using drv(2) assms(5) by simp
  from get_driver_bind_path_wp [OF this, of os m] obtain rc p m1
    where bind: "get_driver_bind_path os (dev_bus_type_str dv) drv m = Some ((rc, p), m1)" "error_frame m m1"
    by (auto simp: wp_iff)
  have acc: "error_frame m (snd (sys_access os p m1))"
    by (rule error_frame_trans [OF bind(2)]) (simp add: error_frame_sys sys_only_def)
  from get_driver_unbind_path_wp [of "dev_bus_type_str dv" name os m] assms(5,6) obtain rc' p' m2
    where unbind: "get_driver_unbind_path os (dev_bus_type_str dv) name m = Some ((rc', p'), m2)" "error_frame m m2"
    by (auto simp: wp_iff)
  then have "wf_state m2" "wqs m2 w = Some wq" using wf_error_frame assms(2,3) by (auto simp: error_frame_def)
  from accfg_wq_get_clients_wp [OF assms(1) this] obtain c m3
    where "accfg_wq_get_clients os w m2 = Some (c, m3)" "error_frame m2 m3" by (auto simp: wp_iff)
  then have clients: "accfg_wq_get_clients os w m2 = Some (c, m3)" "error_frame m m3"
    using error_frame_trans [OF unbind(2)] by auto
  show ?thesis
    using assms(3,4) drv(1) bind acc unbind clients
    by (auto simp: wq_control_path_def case_prod_beta errno_defs)
qed

lemma accfg_wq_control_steady:
  assumes "os_ok os" "wf_state m" "wqs m w = Some wq" "devices m (wq_device wq) = Some dv"
    and "devpath_to_devname (wq_path wq) = Some name"
    and "length (dev_bus_type_str dv) < 1000" "length name < 1000"
    and "\<forall>n. wq_driver_name wq = Some n \<longrightarrow> length n < 1000"
    and "flag = ACCFG_WQ_ENABLE \<or> flag = ACCFG_WQ_DISABLE"
  shows "wp (accfg_wq_control os w flag force m) (\<lambda>(rc, m'). steady m m' \<and> wf_state m' \<and>
     (0 \<le> rc \<longrightarrow> fst (snd (sysfs_read_attr os (wq_path wq @ ''/state'') m'))
        = Some (if flag = ACCFG_WQ_ENABLE then ''enabled'' else ''disabled'')))"
proof -
  from wq_control_path_wp [OF assms(1-4,6-8), of flag force] obtain r m1
    where m1: "wq_control_path os w flag force name m = Some (r, m1)" "error_frame m m1" "\<forall>rc. r = Inl rc \<longrightarrow> rc < 0" by (auto simp: wp_iff)
  have live: "wf_state m'" "wqs m' w = Some wq" "devices m' (wq_device wq) = Some dv" if "error_frame m1 m'" for m'
    using that error_frame_trans [OF m1(2) that] wf_error_frame assms(2-4) by (auto simp: error_frame_def)
  have verify: "wp (wq_control_verify os w flag m') (\<lambda>(rc, m'). steady m m' \<and> wf_state m' \<and>
      (0 \<le> rc \<longrightarrow> fst (snd (sysfs_read_attr os (wq_path wq @ ''/state'') m'))
        = Some (if flag = ACCFG_WQ_ENABLE then ''enabled'' else ''disabled'')))" if "error_frame m1 m'" for m'
    by (rule wp_mono [OF wq_control_verify_wp [OF assms(1) live(1,2) [OF that] assms(9)]])
      (auto simp: state_text_def intro: steady_then(1) [OF error_frame_trans [OF m1(2) that]] wf_steady [OF _ live(1) [OF that]])
  let ?w = "\<lambda>p. snd (sysfs_write_attr os p name m1)"
  have frame: "error_frame m1 (?w p)" for p by (simp add: error_frame_sys sys_only_def)
  have fail: "wp (save_last_error os (wq_device wq) w 0 0 (?w p)) (\<lambda>m'. steady m m' \<and> wf_state m')" for p
    by (rule wp_mono [OF save_last_error_wp [OF assms(1) live(1,3) [OF frame]]])
      (intro conjI steady_error_frame error_frame_trans [OF error_frame_trans [OF m1(2) frame]] wf_error_frame [OF _ live(1) [OF frame]])
  show ?thesis
    using assms(3-5) m1(1,3) live(1) [OF error_frame_refl] steady_error_frame [OF m1(2)] verify [OF error_frame_refl] verify [OF frame] fail
    by (auto simp: accfg_wq_control_def accfg_wq_get_ctx_def accfg_wq_get_devname_def case_prod_beta
        split: sum.split option.split)
qed

lemma accfg_wq_control_wp:
  assumes "os_ok os" "wf_state m" "wqs m w = Some wq" "devices m (wq_device wq) = Some dv"
    and "devpath_to_devname (wq_path wq) = Some name"
    and "length (dev_bus_type_str dv) < 1000" "length name < 1000"
    and "\<forall>n. wq_driver_name wq = Some n \<longrightarrow> length n < 1000"
    and "flag = ACCFG_WQ_ENABLE \<or> flag = ACCFG_WQ_DISABLE"
  shows "wp (accfg_wq_control os w flag force m) (\<lambda>(rc, m'). wf_state m' \<and>
     (0 \<le> rc \<longrightarrow> fst (snd (sysfs_read_attr os (wq_path wq @ ''/state'') m'))
        = Some (if flag = ACCFG_WQ_ENABLE then ''enabled'' else ''disabled'')))"
  by (rule wp_mono [OF accfg_wq_control_steady [OF assms]]) auto


text \<open>
  C3: a work queue is reported enabled or disabled only after the kernel says so: enabling and disabling
  are defined on every well-formed state and keep it well-formed, and when the code is not negative the queue's
  \<open>state\<close> attribute reads as the requested state in the resulting kernel.
\<close>

theorem accfg_wq_control_verified:
  assumes "os_ok os" "wf_state m" "wqs m w = Some wq" "devices m (wq_device wq) = Some dv"
    and "devpath_to_devname (wq_path wq) = Some name"
    and "length (dev_bus_type_str dv) < 1000" "length name < 1000"
    and "\<forall>n. wq_driver_name wq = Some n \<longrightarrow> length n < 1000"
    and "flag = ACCFG_WQ_ENABLE \<or> flag = ACCFG_WQ_DISABLE"
  shows "wp (accfg_wq_control os w flag force m) (\<lambda>(rc, m'). wf_state m' \<and>
     (0 \<le> rc \<longrightarrow> fst (snd (sysfs_read_attr os (wq_path wq @ ''/state'') m'))
        = Some (if flag = ACCFG_WQ_ENABLE then ''enabled'' else ''disabled'')))"
  by (rule accfg_wq_control_wp [OF assms])

theorem accfg_wq_control_verified_witness:
  "wp (accfg_wq_control fs_os 4 ACCFG_WQ_ENABLE False (ex_mach ex_fs)) (\<lambda>(rc, m'). wf_state m' \<and>
     (0 \<le> rc \<longrightarrow> fst (snd (sysfs_read_attr fs_os ''/d/dsa0/wq0.0/state'' m')) = Some ''enabled''))"
proof -
  have "devpath_to_devname ''/d/dsa0/wq0.0'' = Some ''wq0.0''" by code_simp
  then show ?thesis
    using accfg_wq_control_verified [OF fs_os_ok(1) ex_mach_wf, of ex_fs 4 ex_wq ex_dev "''wq0.0''" ACCFG_WQ_ENABLE False]
    by (simp add: ex_dev_def ex_wq_def)
qed

lemma wq_size_loop_exact:
  assumes "list_all (\<lambda>w. \<exists>wq. wqs m w = Some wq \<and> 0 \<le> wq_size wq) ws" "0 \<le> acc" "acc \<le> max_size"
    and "acc + sum_list (map (\<lambda>w. wq_size (the (wqs m w))) ws) \<le> INT_MAX"
  shows "wq_size_loop m max_size ws acc =
     Some (if acc + sum_list (map (\<lambda>w. wq_size (the (wqs m w))) ws) \<le> max_size then 0 else - ERANGE)"
  using assms
proof (induction ws arbitrary: acc)
  case (Cons w ws)
  then obtain wq where wq: "wqs m w = Some wq" "0 \<le> wq_size wq" by auto
  have "0 \<le> sum_list (map (\<lambda>w. wq_size (the (wqs m w))) ws)"
    using Cons.prems(1) by (intro sum_list_nonneg) (auto simp: list_all_iff)
  with Cons wq show ?case by (auto simp: INT_MAX_def Let_def)
qed simp

text \<open>
  C40: the size check answers 0 exactly when there are no more queues than the device allows and no more
  entries in all of them than the device has, and \<open>-ERANGE\<close> otherwise, for non-negative sizes whose sum
  does not overflow an \<open>int\<close>.
\<close>

theorem accfg_wq_size_boundary_exact:
  assumes "devices m d = Some dv" "d \<noteq> 0" "0 \<le> dev_max_work_queues_size dv"
    and "- 2147483648 \<le> dev_max_work_queues dv" "dev_max_work_queues dv \<le> 2147483647"
    and "list_all (\<lambda>w. \<exists>wq. wqs m w = Some wq \<and> 0 \<le> wq_size wq) (dev_wqs dv)"
    and "sum_list (map (\<lambda>w. wq_size (the (wqs m w))) (dev_wqs dv)) \<le> INT_MAX"
  shows "accfg_wq_size_boundary d wq_num m =
     Some (if wq_num \<le> dev_max_work_queues dv \<and>
              sum_list (map (\<lambda>w. wq_size (the (wqs m w))) (dev_wqs dv)) \<le> dev_max_work_queues_size dv
           then 0 else - ERANGE)"
  using assms(1,2,4,5) wq_size_loop_exact [OF assms(6) order_refl assms(3)] assms(7)
  by (simp add: accfg_wq_size_boundary_def accfg_device_get_max_work_queues_def s32_id)

theorem accfg_wq_size_boundary_exact_witness:
  "accfg_wq_size_boundary 2 1 (ex_mach ex_fs) = Some 0 \<and> accfg_wq_size_boundary 2 9 (ex_mach ex_fs) = Some (- ERANGE)"
  using accfg_wq_size_boundary_exact [of "ex_mach ex_fs" 2 ex_dev 1] accfg_wq_size_boundary_exact [of "ex_mach ex_fs" 2 ex_dev 9]
  by (simp add: ex_dev_def ex_wq_def INT_MAX_def)

end
