(* ===== verification/Accfg_Lifecycle.thy ===== *)
theory Accfg_Lifecycle
  imports Accfg_Example
begin

text \<open>
  What the life cycle of libaccfg's objects guarantees: the reference count, the discovery of children
  and devices, and the lookups by number.
\<close>

section \<open>Contexts\<close>

lemma accfg_unref_frees:
  assumes "wf_state m" "ctxs m c = Some cx" "c_refcount cx = 1"
  shows "\<exists>m'. accfg_unref c m = Some (0, m') \<and> wf_state m' \<and> ctxs m' = (ctxs m)(c := None) \<and> freed {d. owns m c d} m m'"
proof -
  let ?cx = "cx\<lparr>c_refcount := 0\<rparr>" and ?m1 = "m\<lparr>ctxs := (ctxs m)(c \<mapsto> cx\<lparr>c_refcount := 0\<rparr>)\<rparr>"
  have upd: "upd_ctx c (\<lambda>x. x\<lparr>c_refcount := s32 (c_refcount x - 1)\<rparr>) m = Some ?m1"
    using assms(2,3) by (simp add: upd_ctx_def s32_id)
  have wf1: "wf_state ?m1" using shape_upd_ctx [OF upd] wf_shape [of m ?m1] assms(1) by simp
  from free_devices [OF wf1, of c ?cx] obtain m2 where m2:
    "foreach_run (\<lambda>d. free_device d c) (c_devices cx) ?m1 = Some m2" "wf_state m2" "freed (set (c_devices cx)) ?m1 m2"
    "ctxs m2 = (ctxs m)(c \<mapsto> ?cx\<lparr>c_devices := []\<rparr>)" by auto
  have "set (c_devices cx) = {d. owns m c d}" using context_devices [OF assms(1,2)] by auto
  then have "freed {d. owns m c d} m (m2\<lparr>ctxs := (ctxs m2)(c := None)\<rparr>)"
    using m2(3) by (simp add: freed_def cong: option.case_cong if_cong)
  moreover have "wf_state (m2\<lparr>ctxs := (ctxs m2)(c := None)\<rparr>)"
    using wf_remove_ctx [OF m2(2), of c] m2(4) by simp
  moreover have "c \<noteq> 0" using wf_live(1) [OF assms(1,2)] by simp
  ultimately show ?thesis
    using upd m2 assms(2) by (simp add: accfg_unref_def free_context_def)
qed

text \<open>
  C1: dropping the last reference of a context is always defined on a well-formed state: it frees the
  context and exactly the devices, groups, work queues and engines that belong to it, touches
  nothing else, and leaves a well-formed state.
\<close>

theorem accfg_unref_last:
  assumes "wf_state m" "ctxs m c = Some cx" "c_refcount cx = 1"
  shows "\<exists>m'. accfg_unref c m = Some (0, m') \<and> wf_state m' \<and> ctxs m' = (ctxs m)(c := None) \<and> freed {d. owns m c d} m m'"
  using assms by (rule accfg_unref_frees)

theorem accfg_unref_last_witness:
  "\<exists>m'. accfg_unref 1 (ex_mach ex_fs) = Some (0, m') \<and> ctxs m' 1 = None \<and> devices m' 2 = None \<and> groups m' 3 = None
     \<and> wqs m' 4 = None \<and> engines m' 5 = None"
proof -
  have "c_refcount ex_ctx = 1" by (simp add: ex_ctx_def empty_ctx_def)
  from accfg_unref_last [OF ex_mach_wf [of ex_fs] _ this, of 1] obtain m' where m': "accfg_unref 1 (ex_mach ex_fs) = Some (0, m')"
    "ctxs m' = ([1 \<mapsto> ex_ctx])(1 := None)" "freed {d. owns (ex_mach ex_fs) 1 d} (ex_mach ex_fs) m'" by auto
  have "owns (ex_mach ex_fs) 1 2" by (simp add: owns_def ex_dev_def)
  with m' show ?thesis by (auto simp: freed_def ex_defs)
qed

text \<open>
  Taking a reference and dropping it again gives back the same state.
\<close>

lemma accfg_ref_unref:
  assumes "ctxs m c = Some cx" "c \<noteq> 0" "1 \<le> c_refcount cx" "c_refcount cx < INT_MAX"
  shows "\<exists>m1. accfg_ref c m = Some (c, m1) \<and> accfg_unref c m1 = Some (0, m)"
proof -
  let ?m1 = "m\<lparr>ctxs := (ctxs m)(c \<mapsto> cx\<lparr>c_refcount := c_refcount cx + 1\<rparr>)\<rparr>"
  have "accfg_ref c m = Some (c, ?m1)"
    using assms by (simp add: accfg_ref_def upd_ctx_def s32_id INT_MAX_def)
  moreover have "accfg_unref c ?m1 = Some (0, m)"
    using assms by (simp add: accfg_unref_def upd_ctx_def s32_id INT_MAX_def fun_upd_idem)
  ultimately show ?thesis by blast
qed


lemma wf_new_ctx:
  assumes "wf_state m" "0 < p" "p < next_ptr m" "ctxs m p = None" "c_devices cx = []"
  shows "wf_state (m\<lparr>ctxs := (ctxs m)(p \<mapsto> cx)\<rparr>)"
  using wfD [OF assms(1)] linked_new_owner [OF wfD(1) [OF assms(1)] assms(4), of cx] assms
  unfolding wf_state_def group_ref_def by auto

lemma log_init_keeps [simp]:
  "c_compat (log_init os e k c) = c_compat c" "c_refcount (log_init os e k c) = c_refcount c"
  "c_devices (log_init os e k c) = c_devices c"
  by (simp_all add: log_init_def Let_def split: option.split)

lemma accfg_new_ok:
  assumes "alloc_ok os" "wf_state m"
  shows "\<exists>m' cx. accfg_new os m = (0, next_ptr m, m') \<and> ctxs m' (next_ptr m) = Some cx \<and> wf_state m' \<and> kern m' = kern m
    \<and> c_refcount cx = 1 \<and> c_devices cx = [] \<and> c_timeout cx = 5000
    \<and> (c_compat cx \<longleftrightarrow> os_access os IDXD_DRIVER_BIND_PATH (kern m) \<noteq> None)"
proof -
  let ?n = "next_ptr m" and ?m1 = "m\<lparr>next_ptr := Suc (next_ptr m)\<rparr>"
  let ?c = "(log_init os ''ACCFG_LOG'' (kern m) (empty_ctx\<lparr>c_refcount := 1\<rparr>))\<lparr>c_timeout := 5000\<rparr>"
  have n: "0 < ?n" using wfD(10) [OF assms(2)] .
  have wf1: "wf_state ?m1" using wf_next_ptr [OF assms(2)] by simp
  have free: "ctxs m ?n = None" using wf_fresh(1) [OF assms(2), of ?n] by simp
  have wf2: "wf_state (m2\<lparr>ctxs := (ctxs m)(?n \<mapsto> cx)\<rparr>)"
    if "sys.more m2 = sys.more ?m1" "c_devices cx = []" for m2 :: "'a mach" and cx
  proof -
    have "wf_state m2" "next_ptr m2 = Suc ?n" "ctxs m2 = ctxs m"
      using wf_sys_only [OF wf1 that(1)] sys_only_fields [OF that(1)] by simp_all
    then show ?thesis using wf_new_ctx [of m2 ?n cx] n free that(2) by simp
  qed
  define cx where "cx = (if os_access os IDXD_DRIVER_BIND_PATH (kern m) = None then ?c else ?c\<lparr>c_compat := True\<rparr>)"
  have "accfg_new os m = (0, ?n, ?m1\<lparr>ctxs := (ctxs m)(?n \<mapsto> cx)\<rparr>)
      \<or> (\<exists>e. accfg_new os m = (0, ?n, ?m1\<lparr>errno := e, ctxs := (ctxs m)(?n \<mapsto> cx)\<rparr>))"
    using n assms(1)
    by (auto simp: accfg_new_def new_ptr_ok sys_access_def sys_status_def Let_def cx_def split: option.split prod.split)
  then show ?thesis using wf2 [of ?m1 cx] wf2 [of "?m1\<lparr>errno := _\<rparr>" cx]
    by (auto simp: cx_def empty_ctx_def split: if_splits)
qed

text \<open>
  a new context starts with one reference, no devices and a timeout of 5000 milliseconds whatever
  the environment variable ACCFG_TIMEOUT says: the value is only taken when \<open>strtoul\<close> stores a null
  end pointer, which it never does.  The state stays well-formed.
\<close>

lemma accfg_new_context:
  assumes "alloc_ok os" "wf_state m"
  shows "\<exists>m' cx. accfg_new os m = (0, next_ptr m, m') \<and> ctxs m' (next_ptr m) = Some cx \<and> wf_state m'
    \<and> c_refcount cx = 1 \<and> c_devices cx = [] \<and> c_timeout cx = 5000
    \<and> (c_compat cx \<longleftrightarrow> os_access os IDXD_DRIVER_BIND_PATH (kern m) \<noteq> None)"
  using accfg_new_ok [OF assms] by blast

lemma accfg_new_context_example:
  "\<exists>m' cx. accfg_new fs_os (ex_mach ex_fs) = (0, 6, m') \<and> ctxs m' 6 = Some cx \<and> c_timeout cx = 5000"
  using accfg_new_context [OF fs_os_ok(2) ex_mach_wf [of ex_fs]] by (auto simp: ex_mach_def)


section \<open>Discovery\<close>

text \<open>
  the first scan of a device for groups is defined, keeps the state well-formed, changes no file, and
  appends exactly the group directories of the device, in directory order.
\<close>

lemma groups_init_discovers:
  assumes "alloc_ok os" "wf_state m" "devices m d = Some dv" "os_scandir os (dev_path dv) (kern m) = Inr names"
    and "dev_group_init dv = 0"
  shows "\<exists>m'. groups_init os d m = Some m' \<and> wf_state m' \<and> kern m' = kern m
    \<and> group_paths d m' = group_paths d m @ children_found os (dev_path dv) ''group'' names (kern m)"
  using groups_init_walk [OF assms] by blast

lemma ex_bare_dev:
  "devices (ex_bare k) 2 = Some (ex_dev\<lparr>dev_group := 0, dev_groups := [], dev_wqs := [], dev_engines := [], dev_group_init := 0\<rparr>)"
  by (simp add: ex_bare_def)

lemma ex_scandir: "os_scandir fs_os ''/d/dsa0'' ex_fs = Inr [''engine0.0'', ''group0.0'', ''power'', ''wq0.0'', ''wq0.1'']"
  by (simp add: ex_fs_def)

lemma groups_init_discovers_example:
  "\<exists>m'. groups_init fs_os 2 (ex_bare ex_fs) = Some m' \<and> group_paths 2 m' = [''/d/dsa0/group0.0'']"
proof -
  have "children_found fs_os ''/d/dsa0'' ''group'' [''engine0.0'', ''group0.0'', ''power'', ''wq0.0'', ''wq0.1''] ex_fs
      = [''/d/dsa0/group0.0'']" by code_simp
  moreover have "group_paths 2 (ex_bare ex_fs) = []" by (simp add: group_paths_def ex_bare_def)
  ultimately show ?thesis
    using groups_init_discovers [OF fs_os_ok(2) ex_bare_wf ex_bare_dev, of ex_fs] ex_scandir
    by (auto simp: ex_bare_def ex_dev_def)
qed

text \<open>
  C22: the scan for work queues is defined when every entry named like a work queue has a readable type,
  keeps the state well-formed, and appends exactly the work-queue directories in directory order.
\<close>

theorem wqs_init_discovers:
  assumes "alloc_ok os" "wf_state m" "devices m d = Some dv" "os_scandir os (dev_path dv) (kern m) = Inr names"
    and "\<forall>n \<in> set names. strncmp_eq ''wq'' n (length ''wq'') \<longrightarrow> wq_type_readable os (dev_path dv @ ''/'' @ n) (kern m)"
    and "dev_group dv \<noteq> 0 \<longrightarrow> map_option grp_wqs_init (groups m (dev_group dv)) = Some 0"
  shows "\<exists>m'. wqs_init os d m = Some m' \<and> wf_state m' \<and> kern m' = kern m
    \<and> wq_paths d m' = wq_paths d m @ children_found os (dev_path dv) ''wq'' names (kern m)"
  using wqs_init_walk [OF assms(1-5)] assms(6) by blast

theorem wqs_init_discovers_witness:
  "\<exists>m'. wqs_init fs_os 2 (ex_bare (ex_fs\<lparr>fs_dirs := [(''/d/dsa0'', [''group0.0'', ''wq0.0'']), (''/d/dsa0/wq0.0'', [])]\<rparr>)) = Some m'
     \<and> wq_paths 2 m' = [''/d/dsa0/wq0.0'']"
proof -
  let ?fs = "ex_fs\<lparr>fs_dirs := [(''/d/dsa0'', [''group0.0'', ''wq0.0'']), (''/d/dsa0/wq0.0'', [])]\<rparr>"
  have "os_scandir fs_os ''/d/dsa0'' ?fs = Inr [''group0.0'', ''wq0.0'']" by simp
  moreover have "children_found fs_os ''/d/dsa0'' ''wq'' [''group0.0'', ''wq0.0''] ?fs = [''/d/dsa0/wq0.0'']" by code_simp
  moreover have "wq_paths 2 (ex_bare ?fs) = []" by (simp add: wq_paths_def ex_bare_def)
  moreover have "\<forall>n \<in> set [''group0.0'', ''wq0.0'']. strncmp_eq ''wq'' n (length ''wq'') \<longrightarrow>
      wq_type_readable fs_os (''/d/dsa0'' @ ''/'' @ n) ?fs" by code_simp
  ultimately show ?thesis
    using wqs_init_discovers [OF fs_os_ok(2) ex_bare_wf ex_bare_dev, of ?fs "[''group0.0'', ''wq0.0'']"]
    by (auto simp: ex_bare_def ex_dev_def)
qed

text \<open>
  the flag against a second scan is kept in the device's group.  A device without a group is scanned
  again at every call, and each scan appends the same engines once more.
\<close>

lemma engines_init_no_group_twice:
  assumes "alloc_ok os" "wf_state m" "devices m d = Some dv" "dev_group dv = 0"
    and "os_scandir os (dev_path dv) (kern m) = Inr names"
  shows "\<exists>m1 m2. engines_init os d m = Some m1 \<and> engines_init os d m1 = Some m2 \<and> wf_state m2
    \<and> (let new = children_found os (dev_path dv) ''engine'' names (kern m) in
       engine_paths d m1 = engine_paths d m @ new \<and> engine_paths d m2 = engine_paths d m @ new @ new)"
proof -
  from engines_init_walk [OF assms(1-3,5)] assms(4) obtain m1 where m1:
    "engines_init os d m = Some m1" "wf_state m1" "kern m1 = kern m"
    "engine_paths d m1 = engine_paths d m @ children_found os (dev_path dv) ''engine'' names (kern m)" by auto
  from engines_init_same_device [OF m1(1) assms(3,4)] obtain dv1 where
    dv1: "devices m1 d = Some dv1" "dev_path dv1 = dev_path dv" "dev_group dv1 = 0" by blast
  have "os_scandir os (dev_path dv1) (kern m1) = Inr names" using assms(5) m1(3) dv1(2) by simp
  from engines_init_walk [OF assms(1) m1(2) dv1(1) this] dv1(3) obtain m2 where
    "engines_init os d m1 = Some m2" "wf_state m2"
    "engine_paths d m2 = engine_paths d m1 @ children_found os (dev_path dv1) ''engine'' names (kern m1)" by auto
  with m1 dv1(2) show ?thesis by (auto simp: Let_def)
qed

lemma engines_init_no_group_twice_example:
  "\<exists>m1 m2. engines_init fs_os 2 (ex_bare ex_fs) = Some m1 \<and> engines_init fs_os 2 m1 = Some m2
     \<and> engine_paths 2 m2 = [''/d/dsa0/engine0.0'', ''/d/dsa0/engine0.0'']"
proof -
  have "children_found fs_os ''/d/dsa0'' ''engine'' [''engine0.0'', ''group0.0'', ''power'', ''wq0.0'', ''wq0.1''] ex_fs
      = [''/d/dsa0/engine0.0'']" by code_simp
  moreover have "engine_paths 2 (ex_bare ex_fs) = []" by (simp add: engine_paths_def ex_bare_def)
  ultimately show ?thesis
    using engines_init_no_group_twice [OF fs_os_ok(2) ex_bare_wf ex_bare_dev, of ex_fs] ex_scandir
    by (auto simp: ex_bare_def ex_dev_def Let_def)
qed

text \<open>
  C2: the discovery of all devices and their groups is defined from every well-formed state (no null or
  freed pointer is read) and leaves a well-formed state, as long as memory does not run out (\<open>alloc_ok\<close>), writing to a file does not
  change what directories are there (\<open>dirs_stable\<close>), a failed system call sets \<open>errno\<close> (\<open>os_ok\<close>), and the entries of the bus directories that are
  named like devices end in a number (\<open>device_names_ok\<close>).  Without memory it can leave a device whose group has been freed.
\<close>

theorem devices_init_wf:
  assumes "os_ok os" "alloc_ok os" "dirs_stable os" "wf_state m" "ctxs m c = Some cx"
    and "\<forall>n \<in> set (List.product accfg_bus_types (map snd accfg_basenames)). device_names_ok os (kern m) n"
  shows "\<exists>m'. devices_init os c m = Some m' \<and> wf_state m'"
  using devices_init_keeps [OF assms] by blast

theorem devices_init_wf_witness:
  "\<exists>m'. devices_init fs_os 1 ((ex_mach \<lparr>fs_files = [], fs_dirs = [(''/sys/bus/dsa/devices'', [''dsa0'', ''dsa1''])],
      fs_write_errors = []\<rparr>)\<lparr>ctxs := [1 \<mapsto> ex_ctx\<lparr>c_devices_init := 0\<rparr>]\<rparr>) = Some m' \<and> wf_state m'"
proof -
  let ?k = "\<lparr>fs_files = [], fs_dirs = [(''/sys/bus/dsa/devices'', [''dsa0'', ''dsa1''])], fs_write_errors = []\<rparr>"
  let ?m = "(ex_mach ?k)\<lparr>ctxs := [1 \<mapsto> ex_ctx\<lparr>c_devices_init := 0\<rparr>]\<rparr>"
  have "shape (ex_mach ?k) = shape ?m" by (simp add: shape_def fun_eq_iff)
  then have "wf_state ?m" by (rule wf_shape [OF _ ex_mach_wf])
  moreover have "scan_name ''dsa0'' = ScanId 0" "scan_name ''dsa1'' = ScanId 1" by code_simp+
  then have "\<forall>n \<in> set (List.product accfg_bus_types (map snd accfg_basenames)). device_names_ok fs_os ?k n"
    by (auto simp: accfg_bus_types_def accfg_basenames_def device_names_ok_def split: if_splits)
  ultimately show ?thesis
    using devices_init_wf [OF fs_os_ok fs_os_dirs_stable, of ?m 1 "ex_ctx\<lparr>c_devices_init := 0\<rparr>"] by simp
qed

text \<open>
  C28: \<open>add_group\<close> stores the new group in its device before its last two allocations.  When one of them
  fails, the group is freed but the device keeps pointing at it.
\<close>

theorem add_group_dangling:
  assumes "devices m d = Some dv" "d \<noteq> 0" "sys_open os base O_PATH m = (True, m)"
    and "new_ptr os m = (g, m1)" "g \<noteq> 0" "sys_alloc os m1 = (True, m2)"
    and "scan_child ''group'' (basename base) \<noteq> None"
    and "group_read_params os base (m2\<lparr>devices := (devices m)(d \<mapsto> dv\<lparr>dev_group := g\<rparr>)\<rparr>) = (gr, m3)"
    and "sys_alloc os m3 = (False, m4)"
  shows "add_group os d i base pfx bus m = Some (0, m4)
    \<and> map_option dev_group (devices m4 d) = Some g \<and> groups m4 = groups m"
proof -
  have "devices m1 = devices m" "groups m1 = groups m"
    using assms(4) by (auto simp: new_ptr_def case_prod_beta split: if_splits)
  moreover have "devices m2 = devices m1" "groups m2 = groups m1"
    using sys_only_fields [OF sys_calls_more(8), of os m1] assms(6) by simp_all
  moreover have "devices m3 = (devices m)(d \<mapsto> dv\<lparr>dev_group := g\<rparr>)" "groups m3 = groups m2"
    using sys_only_fields [OF group_read_params_more(1), of os base "m2\<lparr>devices := (devices m)(d \<mapsto> dv\<lparr>dev_group := g\<rparr>)\<rparr>"] assms(8) by simp_all
  moreover have "devices m4 = devices m3" "groups m4 = groups m3"
    using sys_only_fields [OF sys_calls_more(8), of os m3] assms(9) by simp_all
  ultimately show ?thesis
    using assms by (auto simp: add_group_def upd_device_def)
qed

text \<open>An operating system whose state is the number of allocations that will still succeed.\<close>

definition budget_os :: "nat os" where
  "budget_os = \<lparr>os_open = (\<lambda>p f k. None), os_read = (\<lambda>p n k. Inr (take n ''1'')), os_write = (\<lambda>p b k. (Inr (length b), k)),
     os_access = (\<lambda>p k. None), os_lstat = (\<lambda>p k. None), os_realpath = (\<lambda>p k. Inr p),
     os_scandir = (\<lambda>p k. Inr []), os_alloc = (\<lambda>k. (0 < k, k - 1)), os_getenv = (\<lambda>n k. None)\<rparr>"

lemma budget_os_sel:
  "os_open budget_os p f k = None" "os_alloc budget_os k = (0 < k, k - 1)" "os_read budget_os p n k = Inr (take n ''1'')"
  by (simp_all add: budget_os_def)

lemma budget_long: "snd (accfg_get_param_long budget_os dfd name m) = m"
proof -
  have "strtol 0 ''1'' = (1, [], False)" by code_simp
  then show ?thesis
    by (simp add: accfg_get_param_long_def read_number_def sys_call_defs budget_os_sel MAX_PARAM_LEN_def chomp_def cstring_def NL_def NUL_def)
qed

lemma budget_str: "0 < kern m \<Longrightarrow> snd (accfg_get_param_str budget_os dfd name m) = m\<lparr>kern := kern m - 1\<rparr>"
  by (simp add: accfg_get_param_str_def sys_call_defs budget_os_sel MAX_PARAM_LEN_def)

theorem add_group_dangling_witness:
  "\<exists>m'. add_group budget_os 2 None ''/d/dsa0/group0.7'' ''group'' ''dsa'' (ex_mach 4) = Some (0, m')
     \<and> map_option dev_group (devices m' 2) = Some 6 \<and> groups m' 6 = None"
proof -
  let ?m2 = "(ex_mach 4)\<lparr>kern := 2, next_ptr := 7\<rparr>"
  let ?m3 = "?m2\<lparr>devices := [2 \<mapsto> ex_dev\<lparr>dev_group := 6\<rparr>], kern := 0\<rparr>"
  have "scan_child ''group'' (basename ''/d/dsa0/group0.7'') \<noteq> None" by code_simp
  moreover have "snd (group_read_params budget_os ''/d/dsa0/group0.7'' (?m2\<lparr>devices := [2 \<mapsto> ex_dev\<lparr>dev_group := 6\<rparr>]\<rparr>)) = ?m3"
    by (simp add: group_read_params_def Let_def case_prod_beta budget_long budget_str)
  then obtain gr where "group_read_params budget_os ''/d/dsa0/group0.7'' (?m2\<lparr>devices := [2 \<mapsto> ex_dev\<lparr>dev_group := 6\<rparr>]\<rparr>) = (gr, ?m3)"
    by (metis prod.collapse)
  moreover have "sys_alloc budget_os ?m3 = (False, ?m3\<lparr>kern := 0, errno := ENOMEM\<rparr>)" by (simp add: sys_alloc_def budget_os_sel)
  moreover have "new_ptr budget_os (ex_mach 4) = (6, (ex_mach 4)\<lparr>kern := 3, next_ptr := 7\<rparr>)"
    "sys_alloc budget_os ((ex_mach 4)\<lparr>kern := 3, next_ptr := 7\<rparr>) = (True, ?m2)"
    "sys_open budget_os ''/d/dsa0/group0.7'' O_PATH (ex_mach 4) = (True, ex_mach 4)"
    by (simp_all add: new_ptr_def sys_call_defs budget_os_sel ex_mach_def)
  ultimately show ?thesis
    using add_group_dangling [of "ex_mach 4" 2 ex_dev budget_os "''/d/dsa0/group0.7''" 6] by fastforce
qed


section \<open>Lookup\<close>

lemma list_next_middle: "distinct (pre @ x # xs) \<Longrightarrow> list_next (pre @ x # xs) x = Some (list_top xs)"
  by (induction pre) auto

text \<open>Walking a list with \<open>next\<close> from its top finds its first element that passes the test, or null.\<close>

lemma find_from_list:
  assumes "distinct (pre @ xs)" "0 \<notin> set xs"
    and "\<forall>x \<in> set xs. test x = Some (P x) \<and> step x = list_next (pre @ xs) x"
  shows "find_from (length xs) test step (list_top xs) = Some (case List.find P xs of None \<Rightarrow> 0 | Some x \<Rightarrow> x)"
  using assms
proof (induction xs arbitrary: pre)
  case Nil
  then show ?case by (simp add: list_top_def)
next
  case (Cons x xs)
  have "find_from (length xs) test step (list_top xs) = Some (case List.find P xs of None \<Rightarrow> 0 | Some x \<Rightarrow> x)"
    using Cons.IH [of "pre @ [x]"] Cons.prems by simp
  moreover have "step x = Some (list_top xs)" using Cons.prems list_next_middle [OF Cons.prems(1)] by simp
  ultimately show ?case using Cons.prems by (simp add: list_top_def)
qed

text \<open>
  looking up a work queue by number scans the device if needed and then answers the first work queue of
  the device's list with that number, or the null pointer when there is none; the walk along the list
  always ends within the length of the list.
\<close>

lemma accfg_device_wq_get_by_id_first:
  assumes "wqs_init os d m = Some m'" "wf_state m'" "devices m' d = Some dv"
  shows "accfg_device_wq_get_by_id os d i m
    = Some (case List.find (\<lambda>w. map_option wq_id (wqs m' w) = Some i) (dev_wqs dv) of None \<Rightarrow> 0 | Some w \<Rightarrow> w, m')"
proof -
  note link = wfD(3) [OF assms(2)]
  have all: "\<forall>w \<in> set (dev_wqs dv). id_is i (accfg_wq_get_id w m') = Some (map_option wq_id (wqs m' w) = Some i)
      \<and> accfg_wq_get_next w m' = list_next ([] @ dev_wqs dv) w"
    using linked_part [OF link assms(3)] assms(3)
    by (fastforce simp: id_is_def accfg_wq_get_id_def accfg_wq_get_next_def)
  have "0 \<notin> set (dev_wqs dv)" using linked_part [OF link assms(3)] wf_null(4) [OF assms(2)] by fastforce
  moreover have "distinct ([] @ dev_wqs dv)" using linked_distinct [OF link assms(3)] by simp
  ultimately show ?thesis
    using find_from_list [OF _ _ all] assms(1,3)
    by (simp add: accfg_device_wq_get_by_id_def accfg_wq_get_first_def)
qed

lemma accfg_device_wq_get_by_id_first_example:
  "accfg_device_wq_get_by_id fs_os 2 0 (ex_mach ex_fs) = Some (4, ex_mach ex_fs)
     \<and> accfg_device_wq_get_by_id fs_os 2 7 (ex_mach ex_fs) = Some (0, ex_mach ex_fs)"
proof -
  have "wqs_init fs_os 2 (ex_mach ex_fs) = Some (ex_mach ex_fs)" by (simp add: wqs_init_def ex_dev_def ex_grp_def)
  from accfg_device_wq_get_by_id_first [OF this ex_mach_wf] show ?thesis by (simp add: ex_dev_def ex_wq_def)
qed

end
