(* ===== verification/Util_Filter.thy ===== *)
theory Util_Filter
  imports Accfg_Wq Accfg_Lifecycle
begin

text \<open>
  The name parsers and the object walk of \<open>src/util/filter.c\<close>, through which every command of the tool
  finds the objects it works on.  A name written by \<open>sscanf\<close> into one of the \<open>MAX_DEV_LEN\<close> byte arrays
  without a width overflows the array when it is too long, which is undefined behaviour.
\<close>

definition MAX_DEV_LEN :: nat where "MAX_DEV_LEN = 64"

text \<open>A conversion into an array of \<open>MAX_DEV_LEN\<close> bytes.\<close>

definition dev_buf :: "string \<Rightarrow> string option" where
  "dev_buf s = (if length s + 1 \<le> MAX_DEV_LEN then Some s else None)"

section \<open>Names\<close>

text \<open>\<open>"%[a-z]%u"\<close>: the letters are stored before the number is looked at.\<close>

definition scan_device_type_id :: "string \<Rightarrow> (int + string \<times> int) option" where
  "scan_device_type_id name = (case scan_lower name of
       None \<Rightarrow> Some (Inl (- EINVAL))
     | Some (t, r) \<Rightarrow> do {
         t \<leftarrow> dev_buf t;
         Some (case scan_u r of None \<Rightarrow> Inl (- EINVAL) | Some (v, _) \<Rightarrow> Inr (t, v))
       })"

text \<open>\<open>"%[^/]/%s"\<close>.\<close>

definition scan_parent_child_names :: "string \<Rightarrow> (int + string \<times> string) option" where
  "scan_parent_child_names name =
     (let p = takeWhile (\<lambda>c. c \<noteq> CHR ''/'') name; r = dropWhile (\<lambda>c. c \<noteq> CHR ''/'') name in
      if p = [] then Some (Inl (- EINVAL))
      else do {
        p_name \<leftarrow> dev_buf p;
        case scan_lit (CHR ''/'') r of
          None \<Rightarrow> Some (Inl (- EINVAL))
        | Some r \<Rightarrow>
            let c = takeWhile (\<lambda>x. \<not> isspace x) (skip_ws r) in
            if c = [] then Some (Inl (- EINVAL))
            else do { c_name \<leftarrow> dev_buf c; Some (Inr (p_name, c_name)) }
      })"

text \<open>\<open>"%*[a-z]%u.%u"\<close>.\<close>

definition scan_parent_child_ids :: "string \<Rightarrow> int + int \<times> int" where
  "scan_parent_child_ids name =
     (case (do {
        (t, r) \<leftarrow> scan_lower name;
        (p, r) \<leftarrow> scan_u r;
        r \<leftarrow> scan_lit (CHR ''.'') r;
        (c, r) \<leftarrow> scan_u r;
        Some (p, c)
      }) of None \<Rightarrow> Inl (- EINVAL) | Some pc \<Rightarrow> Inr pc)"


section \<open>Objects by name\<close>

text \<open>The code and the object found; on an error the caller's pointer is not assigned (0 here).\<close>

definition parse_device_name :: "'k os \<Rightarrow> ptr \<Rightarrow> string \<Rightarrow> 'k mach \<Rightarrow> ('k, int \<times> ptr) run" where
  "parse_device_name os ctx name m = do {
     r \<leftarrow> scan_device_type_id name;
     case r of
       Inl rc \<Rightarrow> Some ((- EINVAL, 0), m)
     | Inr (type_str, _) \<Rightarrow>
         if accfg_device_type_validate type_str = 0 then Some ((- EINVAL, 0), m)
         else do {
           (p, m) \<leftarrow> accfg_device_get_first os ctx m;
           cx \<leftarrow> ctxs m ctx;
           dev \<leftarrow> find_from (length (c_devices cx))
                  (\<lambda>p. do { n \<leftarrow> accfg_device_get_devname p m; Some (name = n) })
                  (\<lambda>p. accfg_device_get_next p m) p;
           Some (if dev = 0 then (- EINVAL, 0) else (0, dev), m)
         }
   }"

text \<open>
  The three parsers of child names are the same program over the lists of work queues, groups and
  engines: \<open>first\<close>, \<open>next\<close> and \<open>devname\<close> are the operations of the child, \<open>parts\<close> the device's list.
  The result is the code, the device and the child.
\<close>

definition parse_child_name ::
  "('k os \<Rightarrow> ptr \<Rightarrow> 'k mach \<Rightarrow> ('k, ptr) run) \<Rightarrow> (accfg_device \<Rightarrow> ptr list) \<Rightarrow> (ptr \<Rightarrow> 'k mach \<Rightarrow> string option) \<Rightarrow>
   (ptr \<Rightarrow> 'k mach \<Rightarrow> ptr option) \<Rightarrow> 'k os \<Rightarrow> ptr \<Rightarrow> string \<Rightarrow> 'k mach \<Rightarrow> ('k, int \<times> ptr \<times> ptr) run" where
  "parse_child_name first parts devname next os ctx name m = do {
     r \<leftarrow> scan_parent_child_names name;
     case r of
       Inl rc \<Rightarrow> Some ((rc, 0, 0), m)
     | Inr (dev_name, child_name) \<Rightarrow> do {
         ((rc, dev), m) \<leftarrow> parse_device_name os ctx dev_name m;
         if rc \<noteq> 0 then Some ((rc, 0, 0), m)
         else do {
           (p, m) \<leftarrow> first os dev m;
           dv \<leftarrow> devices m dev;
           q \<leftarrow> find_from (length (parts dv))
                (\<lambda>p. do { n \<leftarrow> devname p m; Some (child_name = n) }) (\<lambda>p. next p m) p;
           Some (if q = 0 then (- EINVAL, 0, 0) else (0, dev, q), m)
         }
       }
   }"

definition parse_wq_name :: "'k os \<Rightarrow> ptr \<Rightarrow> string \<Rightarrow> 'k mach \<Rightarrow> ('k, int \<times> ptr \<times> ptr) run" where
  "parse_wq_name = parse_child_name accfg_wq_get_first dev_wqs accfg_wq_get_devname accfg_wq_get_next"

definition parse_group_name :: "'k os \<Rightarrow> ptr \<Rightarrow> string \<Rightarrow> 'k mach \<Rightarrow> ('k, int \<times> ptr \<times> ptr) run" where
  "parse_group_name = parse_child_name accfg_group_get_first dev_groups accfg_group_get_devname accfg_group_get_next"

definition parse_engine_name :: "'k os \<Rightarrow> ptr \<Rightarrow> string \<Rightarrow> 'k mach \<Rightarrow> ('k, int \<times> ptr \<times> ptr) run" where
  "parse_engine_name = parse_child_name accfg_engine_get_first dev_engines accfg_engine_get_devname accfg_engine_get_next"


section \<open>The walk\<close>

text \<open>
  \<open>struct util_filter_ctx\<close>: the callbacks run on the library's state and on a state \<open>'a\<close> of their own,
  the member \<open>arg\<close>.
\<close>

type_synonym ('k, 'a) walk_state = "'k mach \<times> 'a"
type_synonym ('k, 'a) filter_fn = "ptr \<Rightarrow> ('k, 'a) walk_state \<Rightarrow> (bool \<times> ('k, 'a) walk_state) option"

record ('k, 'a) util_filter_ctx =
  filter_device :: "('k, 'a) filter_fn"
  filter_group :: "('k, 'a) filter_fn"
  filter_wq :: "('k, 'a) filter_fn"
  filter_engine :: "('k, 'a) filter_fn"

record util_filter_params =
  prm_device :: "string option"
  prm_group :: "string option"
  prm_wq :: "string option"
  prm_engine :: "string option"

text \<open>
  A \<open>foreach\<close> loop whose body may leave it: from \<open>p\<close>, run the body, stop when it says so, else step.
  The fuel is the length of the list.
\<close>

fun foreach_from :: "nat \<Rightarrow> (ptr \<Rightarrow> 's \<Rightarrow> (bool \<times> 's) option) \<Rightarrow> (ptr \<Rightarrow> 's \<Rightarrow> ptr option) \<Rightarrow> ptr \<Rightarrow> 's \<Rightarrow> 's option" where
  "foreach_from n body step p s =
     (if p = 0 then Some s
      else case n of
        0 \<Rightarrow> None
      | Suc n \<Rightarrow> do {
          (stop, s) \<leftarrow> body p s;
          if stop then Some s else do { q \<leftarrow> step p s; foreach_from n body step q s }
        })"

declare foreach_from.simps [simp del]

text \<open>The body of the three inner loops; \<open>sel\<close> is the child asked for, 0 for none.\<close>

definition child_body ::
  "('k, 'a) filter_fn \<Rightarrow> ptr \<Rightarrow> ptr \<Rightarrow> bool \<times> ('k, 'a) walk_state \<Rightarrow> (bool \<times> bool \<times> ('k, 'a) walk_state) option" where
  "child_body flt sel p = (\<lambda>(found, s).
     if sel \<noteq> 0 \<and> sel \<noteq> p then Some (False, found, s)
     else do {
       (b, s) \<leftarrow> flt p s;
       if sel \<noteq> 0 then Some (True, b, s) else Some (False, found, s)
     })"

definition child_loop ::
  "('k os \<Rightarrow> ptr \<Rightarrow> 'k mach \<Rightarrow> ('k, ptr) run) \<Rightarrow> (accfg_device \<Rightarrow> ptr list) \<Rightarrow> (ptr \<Rightarrow> 'k mach \<Rightarrow> ptr option) \<Rightarrow>
   ('k, 'a) filter_fn \<Rightarrow> ptr \<Rightarrow> 'k os \<Rightarrow> ptr \<Rightarrow> bool \<times> ('k, 'a) walk_state \<Rightarrow> (bool \<times> ('k, 'a) walk_state) option" where
  "child_loop first parts next flt sel os device = (\<lambda>(found, m, a). do {
     (p, m) \<leftarrow> first os device m;
     dv \<leftarrow> devices m device;
     foreach_from (length (parts dv)) (child_body flt sel) (\<lambda>p (_, m, _). next p m) p (found, m, a)
   })"

definition device_body ::
  "'k os \<Rightarrow> ('k, 'a) util_filter_ctx \<Rightarrow> util_filter_params \<Rightarrow> ptr \<Rightarrow> ptr \<Rightarrow> ptr \<Rightarrow> ptr \<Rightarrow>
   ptr \<Rightarrow> bool \<times> ('k, 'a) walk_state \<Rightarrow> (bool \<times> bool \<times> ('k, 'a) walk_state) option" where
  "device_body os fctx param dev g q e device = (\<lambda>(found, s).
     if dev \<noteq> 0 \<and> dev \<noteq> device then Some (False, found, s)
     else do {
       (keep, s) \<leftarrow> filter_device fctx device s;
       if \<not> keep then Some (False, found, s)
       else do {
         let found = (if prm_device param \<noteq> None then True else found);
         fs \<leftarrow> child_loop accfg_group_get_first dev_groups accfg_group_get_next (filter_group fctx) g os device (found, s);
         fs \<leftarrow> child_loop accfg_wq_get_first dev_wqs accfg_wq_get_next (filter_wq fctx) q os device fs;
         fs \<leftarrow> child_loop accfg_engine_get_first dev_engines accfg_engine_get_next (filter_engine fctx) e os device fs;
         Some (dev \<noteq> 0, fs)
       }
     })"

text \<open>The names given: a code, the device and the three children, and whether no name was given.\<close>

definition walk_names ::
  "'k os \<Rightarrow> ptr \<Rightarrow> util_filter_params \<Rightarrow> 'k mach \<Rightarrow> ('k, int \<times> ptr \<times> ptr \<times> ptr \<times> ptr \<times> bool) run" where
  "walk_names os ctx param m =
     (case (prm_device param, prm_group param, prm_wq param, prm_engine param) of
        (Some n, _, _, _) \<Rightarrow> do { ((rc, dev), m) \<leftarrow> parse_device_name os ctx n m; Some ((rc, dev, 0, 0, 0, False), m) }
      | (None, Some n, _, _) \<Rightarrow> do { ((rc, dev, g), m) \<leftarrow> parse_group_name os ctx n m; Some ((rc, dev, g, 0, 0, False), m) }
      | (None, None, Some n, _) \<Rightarrow> do { ((rc, dev, q), m) \<leftarrow> parse_wq_name os ctx n m; Some ((rc, dev, 0, q, 0, False), m) }
      | (None, None, None, Some n) \<Rightarrow> do { ((rc, dev, e), m) \<leftarrow> parse_engine_name os ctx n m; Some ((rc, dev, 0, 0, e, False), m) }
      | (None, None, None, None) \<Rightarrow> Some ((0, 0, 0, 0, 0, True), m))"

definition util_filter_walk ::
  "'k os \<Rightarrow> ptr \<Rightarrow> ('k, 'a) util_filter_ctx \<Rightarrow> util_filter_params \<Rightarrow> ('k, 'a) walk_state \<Rightarrow> (int \<times> ('k, 'a) walk_state) option" where
  "util_filter_walk os ctx fctx param = (\<lambda>(m, a). do {
     ((rc, dev, g, q, e, found), m) \<leftarrow> walk_names os ctx param m;
     if rc \<noteq> 0 then Some (rc, m, a)
     else do {
       (p, m) \<leftarrow> accfg_device_get_first os ctx m;
       cx \<leftarrow> ctxs m ctx;
       (found, s) \<leftarrow> foreach_from (length (c_devices cx)) (device_body os fctx param dev g q e)
                      (\<lambda>p (_, m, _). accfg_device_get_next p m) p (found, m, a);
       Some (if \<not> found then - EINVAL else 0, s)
     }
   })"



section \<open>Discovered contexts\<close>

text \<open>Every scan has been done: the flags that stop another one are set, and every device has a group.\<close>

definition device_done :: "'k mach \<Rightarrow> accfg_device \<Rightarrow> bool" where
  "device_done m dv \<longleftrightarrow> dev_group_init dv \<noteq> 0 \<and> dev_group dv \<noteq> 0 \<and>
     (\<exists>gr. groups m (dev_group dv) = Some gr \<and> grp_wqs_init gr \<noteq> 0 \<and> grp_engines_init gr \<noteq> 0)"

definition discovered :: "'k mach \<Rightarrow> ptr \<Rightarrow> accfg_ctx \<Rightarrow> bool" where
  "discovered m c cx \<longleftrightarrow> ctxs m c = Some cx \<and> c_devices_init cx \<noteq> 0 \<and>
     (\<forall>d \<in> set (c_devices cx). \<exists>dv. devices m d = Some dv \<and> device_done m dv)"

lemma discovered_first: "discovered m c cx \<Longrightarrow> accfg_device_get_first os c m = Some (list_top (c_devices cx), m)"
  by (simp add: discovered_def accfg_device_get_first_def devices_init_def)

lemma discovered_device: "discovered m c cx \<Longrightarrow> d \<in> set (c_devices cx) \<Longrightarrow> \<exists>dv. devices m d = Some dv \<and> device_done m dv"
  by (simp add: discovered_def)

lemma devices_listed:
  assumes "wf_state m" "ctxs m c = Some cx"
  shows "distinct (c_devices cx)" "0 \<notin> set (c_devices cx)"
    "d \<in> set (c_devices cx) \<Longrightarrow> accfg_device_get_next d m = list_next (c_devices cx) d"
    "d \<in> set (c_devices cx) \<Longrightarrow> \<exists>n. accfg_device_get_devname d m = Some n"
proof -
  note l = wfD(1) [OF assms(1)]
  show "distinct (c_devices cx)" by (rule linked_distinct [OF l assms(2)])
  show "0 \<notin> set (c_devices cx)" using linked_part [OF l assms(2)] wf_null(2) [OF assms(1)] by fastforce
  show "accfg_device_get_next d m = list_next (c_devices cx) d" if "d \<in> set (c_devices cx)"
    using linked_part [OF l assms(2) that] assms(2) by (auto simp: accfg_device_get_next_def)
  show "\<exists>n. accfg_device_get_devname d m = Some n" if "d \<in> set (c_devices cx)"
    using linked_part [OF l assms(2) that] devname_Some [OF assms(1)] by blast
qed

text \<open>The device with a name.\<close>

definition named :: "(ptr \<Rightarrow> 'k mach \<Rightarrow> string option) \<Rightarrow> string \<Rightarrow> ptr list \<Rightarrow> 'k mach \<Rightarrow> ptr option" where
  "named devname name ps m = List.find (\<lambda>p. devname p m = Some name) ps"

lemma find_named:
  assumes "distinct ps" "0 \<notin> set ps" "\<And>p. p \<in> set ps \<Longrightarrow> \<exists>n. devname p m = Some n"
    and "\<And>p. p \<in> set ps \<Longrightarrow> step p m = list_next ps p"
  shows "find_from (length ps) (\<lambda>p. do { n \<leftarrow> devname p m; Some (name = n) }) (\<lambda>p. step p m) (list_top ps)
     = Some (case named devname name ps m of None \<Rightarrow> 0 | Some p \<Rightarrow> p)"
proof -
  have "\<forall>p \<in> set ps. (do { n \<leftarrow> devname p m; Some (name = n) }) = Some (devname p m = Some name) \<and> step p m = list_next ([] @ ps) p"
    using assms(3,4) by force
  with find_from_list [of "[]" ps, OF _ assms(2)] assms(1) show ?thesis by (simp add: named_def)
qed

lemma named_SomeD: "named devname name ps m = Some p \<Longrightarrow> p \<in> set ps \<and> devname p m = Some name"
  by (auto simp: named_def find_Some_iff in_set_conv_nth)

lemma parse_device_name_exact:
  assumes "wf_state m" "discovered m c cx" "scan_device_type_id name = Some (Inr (t, i))"
    "accfg_device_type_validate t \<noteq> 0"
  shows "parse_device_name os c name m = Some (case named accfg_device_get_devname name (c_devices cx) m of
     None \<Rightarrow> (- EINVAL, 0) | Some d \<Rightarrow> (0, d), m)"
proof -
  have cx: "ctxs m c = Some cx" using assms(2) by (simp add: discovered_def)
  note ls = devices_listed [OF assms(1) cx]
  have "named accfg_device_get_devname name (c_devices cx) m \<noteq> Some 0" using ls(2) named_SomeD by metis
  then show ?thesis
    using assms(3,4) cx discovered_first [OF assms(2)]
      find_named [where step = accfg_device_get_next and devname = accfg_device_get_devname, OF ls(1,2) ls(4,3)]
    by (simp add: parse_device_name_def split: option.split)
qed


section \<open>Loops over lists\<close>

lemma foreach_from_0 [simp]: "foreach_from n body step 0 s = Some s"
  by (simp add: foreach_from.simps)

lemma foreach_from_fold:
  assumes "distinct (pre @ xs)" "0 \<notin> set xs" "I s"
    and "\<And>x s. x \<in> set xs \<Longrightarrow> I s \<Longrightarrow> body x s = Some (False, f x s) \<and> I (f x s) \<and> step x (f x s) = list_next (pre @ xs) x"
  shows "foreach_from (length xs) body step (list_top xs) s = Some (fold f xs s)"
  using assms
proof (induction xs arbitrary: pre s)
  case Nil
  then show ?case by (simp add: list_top_def)
next
  case (Cons x xs)
  have "foreach_from (length xs) body step (list_top xs) (f x s) = Some (fold f xs (f x s))"
    using Cons.IH [of "pre @ [x]" "f x s"] Cons.prems by simp
  moreover have "step x (f x s) = Some (list_top xs)"
    using Cons.prems(4) [of x s] Cons.prems(3) list_next_middle [OF Cons.prems(1)] by simp
  ultimately show ?case
    using Cons.prems(2,3) Cons.prems(4) [of x s] by (simp add: list_top_def foreach_from.simps [of "Suc (length xs)"])
qed


section \<open>The interface of the child lists\<close>

text \<open>
  What the parsers and the walk rely on of the operations of one kind of child: on a discovered device
  \<open>first\<close> answers the head of the device's list, \<open>next\<close> steps along it, and every child in it has a name.
\<close>

locale child_list =
  fixes first :: "'k os \<Rightarrow> ptr \<Rightarrow> 'k mach \<Rightarrow> ('k, ptr) run"
    and parts :: "accfg_device \<Rightarrow> ptr list"
    and devname :: "ptr \<Rightarrow> 'k mach \<Rightarrow> string option"
    and step :: "ptr \<Rightarrow> 'k mach \<Rightarrow> ptr option"
  assumes first_done: "devices m d = Some dv \<Longrightarrow> device_done m dv \<Longrightarrow> first os d m = Some (list_top (parts dv), m)"
    and parts_wf: "wf_state m \<Longrightarrow> devices m d = Some dv \<Longrightarrow> distinct (parts dv) \<and> 0 \<notin> set (parts dv)"
    and step_list: "wf_state m \<Longrightarrow> devices m d = Some dv \<Longrightarrow> p \<in> set (parts dv) \<Longrightarrow> step p m = list_next (parts dv) p"
    and devname_defined: "wf_state m \<Longrightarrow> devices m d = Some dv \<Longrightarrow> p \<in> set (parts dv) \<Longrightarrow> \<exists>n. devname p m = Some n"
begin

lemma parse_child_name_exact:
  assumes "wf_state m" "discovered m c cx" "scan_parent_child_names name = Some (Inr (dn, cn))"
    "scan_device_type_id dn = Some (Inr (t, i))" "accfg_device_type_validate t \<noteq> 0"
  shows "parse_child_name first parts devname step os c name m = Some (
     case named accfg_device_get_devname dn (c_devices cx) m of None \<Rightarrow> (- EINVAL, 0, 0)
     | Some d \<Rightarrow> (case named devname cn (parts (the (devices m d))) m of
         None \<Rightarrow> (- EINVAL, 0, 0) | Some p \<Rightarrow> (0, d, p)), m)"
proof (cases "named accfg_device_get_devname dn (c_devices cx) m")
  case None
  with parse_device_name_exact [OF assms(1,2,4,5)] assms(3) show ?thesis
    by (simp add: parse_child_name_def EINVAL_def)
next
  case (Some d)
  from named_SomeD [OF this] discovered_device [OF assms(2)] obtain dv where d: "devices m d = Some dv" "device_done m dv" by blast
  have ps: "distinct (parts dv)" "0 \<notin> set (parts dv)" using parts_wf [OF assms(1) d(1)] by auto
  have "named devname cn (parts dv) m \<noteq> Some 0" using ps(2) named_SomeD by metis
  with Some parse_device_name_exact [OF assms(1,2,4,5)] assms(3) d(1) first_done [OF d]
    find_named [where step = step and devname = devname and name = cn, OF ps devname_defined [OF assms(1) d(1)] step_list [OF assms(1) d(1)]]
  show ?thesis by (simp add: parse_child_name_def split: option.split)
qed

text \<open>With no child asked for, the loop runs the callback on every child in order.\<close>

lemma child_loop_all:
  assumes "wf_state m" "devices m d = Some dv" "device_done m dv"
    and flt: "\<And>p a. flt p (m, a) = Some (b p a, m, f p a)"
  shows "child_loop first parts step flt 0 os d (found, m, a) = Some (found, m, fold f (parts dv) a)"
proof -
  have ps: "distinct ([] @ parts dv)" "0 \<notin> set (parts dv)" using parts_wf [OF assms(1,2)] by auto
  have "foreach_from (length (parts dv)) (child_body flt 0) (\<lambda>p (_, m, _). step p m) (list_top (parts dv)) (found, m, a)
     = Some (fold (\<lambda>p (fd, m, a). (fd, m, f p a)) (parts dv) (found, m, a))"
    using step_list [OF assms(1,2)]
    by (intro foreach_from_fold [where I = "\<lambda>(fd, m', a). fd = found \<and> m' = m", OF ps])
      (auto simp: child_body_def flt)
  moreover have "fold (\<lambda>p (fd, m, a). (fd, m, f p a)) ps (found, m, a) = (found, m, fold f ps a)" for ps
    by (induction ps arbitrary: a) auto
  ultimately show ?thesis using first_done [OF assms(2,3)] assms(2) by (simp add: child_loop_def)
qed

end

interpretation wq_list: child_list accfg_wq_get_first dev_wqs accfg_wq_get_devname accfg_wq_get_next
proof
  fix m :: "'k mach" and d dv p os
  assume d: "devices m d = Some dv"
  show "device_done m dv \<Longrightarrow> accfg_wq_get_first os d m = Some (list_top (dev_wqs dv), m)"
    using d by (auto simp: accfg_wq_get_first_def wqs_init_def device_done_def)
  assume wf: "wf_state m"
  note l = wfD(3) [OF wf]
  show "distinct (dev_wqs dv) \<and> 0 \<notin> set (dev_wqs dv)"
    using linked_distinct [OF l d] linked_part [OF l d] wf_null(4) [OF wf] by fastforce
  assume p: "p \<in> set (dev_wqs dv)"
  show "accfg_wq_get_next p m = list_next (dev_wqs dv) p"
    using linked_part [OF l d p] d by (auto simp: accfg_wq_get_next_def)
  show "\<exists>n. accfg_wq_get_devname p m = Some n"
    using linked_part [OF l d p] wf_wq(1) [OF wf] path_ok_devname by (fastforce simp: accfg_wq_get_devname_def)
qed

interpretation group_list: child_list accfg_group_get_first dev_groups accfg_group_get_devname accfg_group_get_next
proof
  fix m :: "'k mach" and d dv p os
  assume d: "devices m d = Some dv"
  show "device_done m dv \<Longrightarrow> accfg_group_get_first os d m = Some (list_top (dev_groups dv), m)"
    using d by (auto simp: accfg_group_get_first_def groups_init_def device_done_def)
  assume wf: "wf_state m"
  note l = wfD(2) [OF wf]
  show "distinct (dev_groups dv) \<and> 0 \<notin> set (dev_groups dv)"
    using linked_distinct [OF l d] linked_part [OF l d] wf_null(3) [OF wf] by fastforce
  assume p: "p \<in> set (dev_groups dv)"
  show "accfg_group_get_next p m = list_next (dev_groups dv) p"
    using linked_part [OF l d p] d by (auto simp: accfg_group_get_next_def)
  show "\<exists>n. accfg_group_get_devname p m = Some n"
    using linked_part [OF l d p] wf_group(1) [OF wf] path_ok_devname by (fastforce simp: accfg_group_get_devname_def)
qed

interpretation engine_list: child_list accfg_engine_get_first dev_engines accfg_engine_get_devname accfg_engine_get_next
proof
  fix m :: "'k mach" and d dv p os
  assume d: "devices m d = Some dv"
  show "device_done m dv \<Longrightarrow> accfg_engine_get_first os d m = Some (list_top (dev_engines dv), m)"
    using d by (auto simp: accfg_engine_get_first_def engines_init_def device_done_def)
  assume wf: "wf_state m"
  note l = wfD(4) [OF wf]
  show "distinct (dev_engines dv) \<and> 0 \<notin> set (dev_engines dv)"
    using linked_distinct [OF l d] linked_part [OF l d] wf_null(5) [OF wf] by fastforce
  assume p: "p \<in> set (dev_engines dv)"
  show "accfg_engine_get_next p m = list_next (dev_engines dv) p"
    using linked_part [OF l d p] d by (auto simp: accfg_engine_get_next_def)
  show "\<exists>n. accfg_engine_get_devname p m = Some n"
    using linked_part [OF l d p] wf_engine(1) [OF wf] path_ok_devname by (fastforce simp: accfg_engine_get_devname_def)
qed



section \<open>Properties\<close>

text \<open>
  C27: on a discovered context the three parsers of a child's name implement one specification: the
  device is the first one with the name before the slash, the child the first of that device's list with
  the name after it, and \<open>-EINVAL\<close> is the answer when either is missing; nothing changes.
\<close>

theorem parse_child_names_spec:
  assumes "wf_state m" "discovered m c cx" "scan_parent_child_names name = Some (Inr (dn, cn))"
    and "scan_device_type_id dn = Some (Inr (t, i))" "accfg_device_type_validate t \<noteq> 0"
  defines "spec \<equiv> \<lambda>parts devname. case named accfg_device_get_devname dn (c_devices cx) m of
     None \<Rightarrow> (- EINVAL, 0, 0)
   | Some d \<Rightarrow> (case named devname cn (parts (the (devices m d))) m of
       None \<Rightarrow> (- EINVAL, 0, 0) | Some p \<Rightarrow> (0, d, p))"
  shows "parse_wq_name os c name m = Some (spec dev_wqs accfg_wq_get_devname, m)
     \<and> parse_group_name os c name m = Some (spec dev_groups accfg_group_get_devname, m)
     \<and> parse_engine_name os c name m = Some (spec dev_engines accfg_engine_get_devname, m)"
  using wq_list.parse_child_name_exact [OF assms(1-5)] group_list.parse_child_name_exact [OF assms(1-5)]
    engine_list.parse_child_name_exact [OF assms(1-5)]
  by (simp add: spec_def parse_wq_name_def parse_group_name_def parse_engine_name_def)

lemma ex_discovered: "discovered (ex_mach k) 1 ex_ctx"
  by (simp add: discovered_def device_done_def ex_ctx_def ex_dev_def ex_grp_def empty_ctx_def)

lemma ex_names [simp]:
  "accfg_device_get_devname 2 (ex_mach k) = Some ''dsa0''" "accfg_wq_get_devname 4 (ex_mach k) = Some ''wq0.0''"
  "accfg_group_get_devname 3 (ex_mach k) = Some ''group0.0''" "accfg_engine_get_devname 5 (ex_mach k) = Some ''engine0.0''"
proof -
  have "devpath_to_devname ''/d/dsa0'' = Some ''dsa0''" "devpath_to_devname ''/d/dsa0/wq0.0'' = Some ''wq0.0''"
    "devpath_to_devname ''/d/dsa0/group0.0'' = Some ''group0.0''" "devpath_to_devname ''/d/dsa0/engine0.0'' = Some ''engine0.0''"
    by code_simp+
  then show "accfg_device_get_devname 2 (ex_mach k) = Some ''dsa0''" "accfg_wq_get_devname 4 (ex_mach k) = Some ''wq0.0''"
    "accfg_group_get_devname 3 (ex_mach k) = Some ''group0.0''" "accfg_engine_get_devname 5 (ex_mach k) = Some ''engine0.0''"
    by (simp_all add: accfg_device_get_devname_def accfg_wq_get_devname_def accfg_group_get_devname_def
        accfg_engine_get_devname_def ex_dev_def ex_wq_def ex_grp_def ex_eng_def)
qed

theorem parse_child_names_spec_witness:
  "parse_wq_name fs_os 1 ''dsa0/wq0.0'' (ex_mach ex_fs) = Some ((0, 2, 4), ex_mach ex_fs)
   \<and> parse_group_name fs_os 1 ''dsa0/wq0.0'' (ex_mach ex_fs) = Some ((- EINVAL, 0, 0), ex_mach ex_fs)"
proof -
  have "scan_parent_child_names ''dsa0/wq0.0'' = Some (Inr (''dsa0'', ''wq0.0''))"
    "scan_device_type_id ''dsa0'' = Some (Inr (''dsa'', 0))" "accfg_device_type_validate ''dsa'' \<noteq> 0" by code_simp+
  from parse_child_names_spec [OF ex_mach_wf [of ex_fs] ex_discovered this, of fs_os] show ?thesis
    by (simp add: named_def ex_ctx_def ex_dev_def)
qed

text \<open>
  The word \<open>all\<close> is no device name: it has no number, so the parser answers \<open>-EINVAL\<close> without
  looking at any device.
\<close>

lemma parse_device_name_all: "parse_device_name os ctx ''all'' m = Some ((- EINVAL, 0), m)"
proof -
  have "scan_device_type_id ''all'' = Some (Inl (- EINVAL))" by code_simp
  then show ?thesis by (simp add: parse_device_name_def)
qed

text \<open>
  C30: splitting the name of a child undoes joining: for a device name without a slash and a child name
  without white space, both of up to 63 characters, the two parts are read back; with a device name of 64
  characters or more the scan overflows its buffer.
\<close>

theorem scan_parent_child_names_join:
  assumes "p \<noteq> []" "CHR ''/'' \<notin> set p" "c \<noteq> []" "\<forall>x \<in> set c. \<not> isspace x" "length c < 64"
  shows "scan_parent_child_names (p @ ''/'' @ c) = (if length p < 64 then Some (Inr (p, c)) else None)"
proof -
  have "takeWhile (\<lambda>c. c \<noteq> CHR ''/'') (p @ ''/'' @ c) = p" "dropWhile (\<lambda>c. c \<noteq> CHR ''/'') (p @ ''/'' @ c) = ''/'' @ c"
    using assms(2) by (induction p) auto
  moreover have "skip_ws c = c" "takeWhile (\<lambda>x. \<not> isspace x) c = c"
    using assms(3,4) by (cases c; auto simp: skip_ws_def takeWhile_eq_all_conv)+
  ultimately show ?thesis
    using assms(1,3,5)
    by (simp add: scan_parent_child_names_def Let_def scan_lit_def dev_buf_def MAX_DEV_LEN_def del: takeWhile_eq_all_conv)
qed

theorem scan_parent_child_names_join_witness:
  "scan_parent_child_names (''dsa0'' @ ''/'' @ ''wq0.0'') = Some (Inr (''dsa0'', ''wq0.0''))
   \<and> scan_parent_child_names (replicate 64 (CHR ''a'') @ ''/'' @ ''b'') = None"
  using scan_parent_child_names_join [of "''dsa0''" "''wq0.0''"] scan_parent_child_names_join [of "replicate 64 (CHR ''a'')" "''b''"]
  by (simp add: isspace_def)


text \<open>The visits of a walk, as callbacks that write them down; \<open>keep\<close> says which devices pass.\<close>

datatype visit = Device ptr | Group ptr | Wq ptr | Engine ptr

definition log_visits :: "(ptr \<Rightarrow> bool) \<Rightarrow> ('k, visit list) util_filter_ctx" where
  "log_visits keep = \<lparr>filter_device = (\<lambda>p (m, a). Some (keep p, m, a @ [Device p])),
     filter_group = (\<lambda>p (m, a). Some (True, m, a @ [Group p])),
     filter_wq = (\<lambda>p (m, a). Some (True, m, a @ [Wq p])),
     filter_engine = (\<lambda>p (m, a). Some (True, m, a @ [Engine p]))\<rparr>"

definition no_params :: util_filter_params where
  "no_params = \<lparr>prm_device = None, prm_group = None, prm_wq = None, prm_engine = None\<rparr>"

definition device_visits :: "(ptr \<Rightarrow> bool) \<Rightarrow> 'k mach \<Rightarrow> ptr \<Rightarrow> visit list" where
  "device_visits keep m d = (let dv = the (devices m d) in
     Device d # (if keep d then map Group (dev_groups dv) @ map Wq (dev_wqs dv) @ map Engine (dev_engines dv) else []))"

lemma fold_log: "fold (\<lambda>p a. a @ [g p]) ps a = a @ map g ps"
  by (induction ps arbitrary: a) auto

lemma device_body_log:
  assumes "wf_state m" "devices m d = Some dv" "device_done m dv"
  shows "device_body os (log_visits keep) no_params 0 0 0 0 d (found, m, a) = Some (False, found, m, a @ device_visits keep m d)"
proof -
  have loops: "child_loop accfg_group_get_first dev_groups accfg_group_get_next (filter_group (log_visits keep)) 0 os d (found, m, a)
       = Some (found, m, a @ map Group (dev_groups dv))"
    "child_loop accfg_wq_get_first dev_wqs accfg_wq_get_next (filter_wq (log_visits keep)) 0 os d (found, m, a)
       = Some (found, m, a @ map Wq (dev_wqs dv))"
    "child_loop accfg_engine_get_first dev_engines accfg_engine_get_next (filter_engine (log_visits keep)) 0 os d (found, m, a)
       = Some (found, m, a @ map Engine (dev_engines dv))" for a :: "visit list"
    by (subst group_list.child_loop_all [OF assms, where b = "\<lambda>_ _. True" and f = "\<lambda>p a. a @ [Group p]"]
        wq_list.child_loop_all [OF assms, where b = "\<lambda>_ _. True" and f = "\<lambda>p a. a @ [Wq p]"]
        engine_list.child_loop_all [OF assms, where b = "\<lambda>_ _. True" and f = "\<lambda>p a. a @ [Engine p]"];
        simp add: log_visits_def fold_log)+
  have "filter_device (log_visits keep) d (m, a) = Some (keep d, m, a @ [Device d])" for a
    by (simp add: log_visits_def)
  with assms(2) show ?thesis
    by (simp add: device_body_def no_params_def loops device_visits_def Let_def)
qed

text \<open>
  C26: a walk without a selection visits every device of a discovered context in the order of the list,
  and for each device that passes its groups, then its work queues, then its engines, each exactly once in
  list order; it answers 0 and leaves the library's state as it is.
\<close>

theorem util_filter_walk_visits:
  fixes m :: "'k mach"
  assumes "wf_state m" "discovered m c cx"
  shows "util_filter_walk os c (log_visits keep) no_params (m, []) =
     Some (0, m, concat (map (device_visits keep m) (c_devices cx)))"
proof -
  have cx: "ctxs m c = Some cx" using assms(2) by (simp add: discovered_def)
  note ls = devices_listed [OF assms(1) cx]
  let ?f = "\<lambda>d (fd :: bool, m' :: 'k mach, a). (fd, m', a @ device_visits keep m d)"
  have "foreach_from (length (c_devices cx)) (device_body os (log_visits keep) no_params 0 0 0 0)
      (\<lambda>p (_, m, _). accfg_device_get_next p m) (list_top (c_devices cx)) (True, m, [])
     = Some (fold ?f (c_devices cx) (True, m, []))"
  proof (intro foreach_from_fold [where pre = "[]" and I = "\<lambda>(fd, m', a). fd = True \<and> m' = m"])
    fix d and s :: "bool \<times> 'k mach \<times> visit list"
    assume "d \<in> set (c_devices cx)" "case s of (fd, m', a) \<Rightarrow> fd = True \<and> m' = m"
    moreover from this discovered_device [OF assms(2)] obtain dv where "devices m d = Some dv" "device_done m dv" by blast
    ultimately show "device_body os (log_visits keep) no_params 0 0 0 0 d s = Some (False, ?f d s) \<and>
        (case ?f d s of (fd, m', a) \<Rightarrow> fd = True \<and> m' = m) \<and>
        (case ?f d s of (_, m, _) \<Rightarrow> accfg_device_get_next d m) = list_next ([] @ c_devices cx) d"
      using device_body_log [OF assms(1)] ls(3) by (auto split: prod.splits)
  qed (use ls in auto)
  moreover have "fold ?f ds (True, m, a) = (True, m, a @ concat (map (device_visits keep m) ds))" for ds a
    by (induction ds arbitrary: a) auto
  ultimately show ?thesis
    using discovered_first [OF assms(2), of os] cx
    by (simp add: util_filter_walk_def walk_names_def no_params_def)
qed

theorem util_filter_walk_visits_witness:
  "util_filter_walk fs_os 1 (log_visits (\<lambda>d. d = 2)) no_params (ex_mach ex_fs, []) =
     Some (0, ex_mach ex_fs, [Device 2, Group 3, Wq 4, Engine 5])"
  using util_filter_walk_visits [OF ex_mach_wf ex_discovered, of fs_os "\<lambda>d. d = 2" ex_fs]
  by (simp add: device_visits_def ex_ctx_def ex_dev_def)

end
