(* ===== verification/Parse_Options.thy ===== *)
theory Parse_Options
  imports CString
begin

text \<open>
  The command-line parser \<open>src/util/parse-options.c\<close>, and \<open>src/util/abspath.c\<close>, which it applies to file
  names.  The \<open>value\<close> member of an option points at a variable of the program: here it is the name of the
  variable, and the variables are a map from names to values.  The text printed is in the theory \<open>Usage\<close>; an \<open>exit\<close> or
  \<open>die\<close> ends the run with its status.  \<open>ctx->out\<close> and \<open>ctx->argv\<close> are two indices into one array; the
  write index never passes the read index, so they are two lists here, the arguments kept so far and the
  arguments still to read.
\<close>

section \<open>Options and variables\<close>

datatype parse_opt_type =
  OPTION_END | OPTION_ARGUMENT | OPTION_GROUP | OPTION_BIT | OPTION_BOOLEAN | OPTION_INCR | OPTION_SET_UINT |
  OPTION_SET_PTR | OPTION_STRING | OPTION_INTEGER | OPTION_LONG | OPTION_CALLBACK | OPTION_U64 |
  OPTION_UINTEGER | OPTION_FILENAME

datatype val = VBool bool | VInt int | VStr "string option"

type_synonym vars = "string \<Rightarrow> val"

text \<open>The flags of an option, one field for each bit.\<close>

record opt_flags =
  OPTARG :: bool
  NOARG :: bool
  NONEG :: bool
  LASTARG_DEFAULT :: bool

definition no_flags :: opt_flags where
  "no_flags = \<lparr>OPTARG = False, NOARG = False, NONEG = False, LASTARG_DEFAULT = False\<rparr>"

text \<open>
  \<open>struct option\<close>.  The default is kept as the value it stands for; a callback takes the variables, the
  argument and whether the option is negated, and answers a code.
\<close>

record option_rec =
  o_type :: parse_opt_type
  o_short :: "char option"
  o_long :: "string option"
  o_value :: string
  o_flags :: opt_flags
  o_defval :: val
  o_callback :: "vars \<Rightarrow> string option \<Rightarrow> bool \<Rightarrow> int \<times> vars"
  o_set :: "string option"

definition OPT :: "parse_opt_type \<Rightarrow> char \<Rightarrow> string \<Rightarrow> string \<Rightarrow> option_rec" where
  "OPT t s l v = \<lparr>o_type = t, o_short = Some s, o_long = Some l, o_value = v, o_flags = no_flags,
     o_defval = VInt 0, o_callback = (\<lambda>vs _ _. (0, vs)), o_set = None\<rparr>"

definition OPT_END :: option_rec where
  "OPT_END = (OPT OPTION_END NUL [] [])\<lparr>o_short := None, o_long := None\<rparr>"

definition OPT_BOOLEAN :: "char \<Rightarrow> string \<Rightarrow> string \<Rightarrow> option_rec" where "OPT_BOOLEAN = OPT OPTION_BOOLEAN"
definition OPT_INTEGER :: "char \<Rightarrow> string \<Rightarrow> string \<Rightarrow> option_rec" where "OPT_INTEGER = OPT OPTION_INTEGER"
definition OPT_UINTEGER :: "char \<Rightarrow> string \<Rightarrow> string \<Rightarrow> option_rec" where "OPT_UINTEGER = OPT OPTION_UINTEGER"
definition OPT_U64 :: "char \<Rightarrow> string \<Rightarrow> string \<Rightarrow> option_rec" where "OPT_U64 = OPT OPTION_U64"
definition OPT_STRING :: "char \<Rightarrow> string \<Rightarrow> string \<Rightarrow> option_rec" where "OPT_STRING = OPT OPTION_STRING"
definition OPT_FILENAME :: "char \<Rightarrow> string \<Rightarrow> string \<Rightarrow> option_rec" where "OPT_FILENAME = OPT OPTION_FILENAME"

text \<open>Reading a variable of the type the option's macro checked for.\<close>

definition the_int :: "val \<Rightarrow> int" where
  "the_int v = (case v of VInt i \<Rightarrow> i | _ \<Rightarrow> 0)"

definition the_str :: "val \<Rightarrow> string option" where
  "the_str v = (case v of VStr s \<Rightarrow> s | _ \<Rightarrow> None)"

definition the_bool :: "val \<Rightarrow> bool" where
  "the_bool v = (case v of VBool b \<Rightarrow> b | _ \<Rightarrow> False)"

record parse_opt_ctx =
  p_argv :: "string list"
  p_out :: "string list"
  p_opt :: "string option"
  p_prefix :: "string option"
  p_keep_dashdash :: bool
  p_stop_at_non_option :: bool
  p_keep_unknown :: bool
  p_no_internal_help :: bool

text \<open>The two flags of the functions below.\<close>

record arg_flags =
  OPT_SHORT :: bool
  OPT_UNSET :: bool

definition long_flags :: "bool \<Rightarrow> arg_flags" where
  "long_flags unset = \<lparr>OPT_SHORT = False, OPT_UNSET = unset\<rparr>"

definition opterror :: int where "opterror = - 1"


section \<open>File names\<close>

definition is_absolute_path :: "string \<Rightarrow> bool" where
  "is_absolute_path path \<longleftrightarrow> take 1 path = ''/''"

definition prefix_filename :: "string option \<Rightarrow> string \<Rightarrow> string" where
  "prefix_filename pfx arg =
     (case pfx of Some p \<Rightarrow> if \<not> is_absolute_path arg then p @ arg else arg | None \<Rightarrow> arg)"

definition fix_filename :: "string option \<Rightarrow> string option \<Rightarrow> string option" where
  "fix_filename prefix f = (case (f, prefix) of
       (Some s, Some p) \<Rightarrow> if is_absolute_path s \<or> s = ''-'' then f else Some (prefix_filename prefix s)
     | _ \<Rightarrow> f)"


section \<open>Values\<close>

text \<open>\<open>get_arg\<close>: the argument, or \<open>None\<close> with the error code -1.\<close>

definition get_arg :: "parse_opt_ctx \<Rightarrow> option_rec \<Rightarrow> string option option \<times> parse_opt_ctx" where
  "get_arg p opt =
     (if p_opt p \<noteq> None then (Some (p_opt p), p\<lparr>p_opt := None\<rparr>)
      else if LASTARG_DEFAULT (o_flags opt) \<and>
              (length (p_argv p) = 1 \<or> (1 < length (p_argv p) \<and> take 1 (p_argv p ! 1) = ''-''))
      then (Some (the_str (o_defval opt)), p)
      else if 1 < length (p_argv p) then (Some (Some (p_argv p ! 1)), p\<lparr>p_argv := tl (p_argv p)\<rparr>)
      else (None, p))"

definition takes_no_value :: "option_rec \<Rightarrow> bool" where
  "takes_no_value opt = (case o_type opt of
       OPTION_CALLBACK \<Rightarrow> NOARG (o_flags opt)
     | OPTION_BOOLEAN \<Rightarrow> True | OPTION_INCR \<Rightarrow> True | OPTION_BIT \<Rightarrow> True | OPTION_SET_UINT \<Rightarrow> True | OPTION_SET_PTR \<Rightarrow> True
     | _ \<Rightarrow> False)"

text \<open>
  The numeric cases of \<open>get_value\<close>: negated, optional without an argument, or converted with \<open>conv\<close>, the
  value being stored before the unread rest is checked.  A null argument, the default of an option with
  \<open>LASTARG_DEFAULT\<close> that has no text, is undefined behaviour of \<open>strtol\<close>: the program has no further run, which
  is \<open>NULL_READ\<close> in the place of its exit status.
\<close>

definition NULL_READ :: int where "NULL_READ = - 1"

definition get_number ::
  "(string \<Rightarrow> int \<times> string) \<Rightarrow> parse_opt_ctx \<Rightarrow> option_rec \<Rightarrow> bool \<Rightarrow> vars \<Rightarrow> int + int \<times> parse_opt_ctx \<times> vars" where
  "get_number conv p opt unset vs =
     (if unset then Inr (0, p, vs(o_value opt := VInt 0))
      else if OPTARG (o_flags opt) \<and> p_opt p = None then Inr (0, p, vs(o_value opt := o_defval opt))
      else case get_arg p opt of
        (None, p) \<Rightarrow> Inr (- 1, p, vs)
      | (Some None, p) \<Rightarrow> Inl NULL_READ
      | (Some (Some arg), p) \<Rightarrow>
          (case conv arg of (v, s) \<Rightarrow> Inr (if s \<noteq> [] then opterror else 0, p, vs(o_value opt := VInt v))))"

definition conv_int :: "string \<Rightarrow> int \<times> string" where
  "conv_int arg = (case strtol 10 arg of (v, s, _) \<Rightarrow> (s32 v, s))"

definition conv_uint :: "string \<Rightarrow> int \<times> string" where
  "conv_uint arg = (case strtol 10 arg of (v, s, _) \<Rightarrow> (u32 v, s))"

definition conv_long :: "string \<Rightarrow> int \<times> string" where
  "conv_long arg = (case strtol 10 arg of (v, s, _) \<Rightarrow> (v, s))"

definition conv_u64 :: "string \<Rightarrow> int \<times> string" where
  "conv_u64 arg = (case strtoull 10 arg of (v, s, _) \<Rightarrow> (v, s))"

text \<open>The text cases; a file name is then made relative to the prefix.\<close>

definition get_string :: "parse_opt_ctx \<Rightarrow> option_rec \<Rightarrow> bool \<Rightarrow> vars \<Rightarrow> int \<times> parse_opt_ctx \<times> vars" where
  "get_string p opt unset vs =
     (if unset then (0, p, vs(o_value opt := VStr None))
      else if OPTARG (o_flags opt) \<and> p_opt p = None then (0, p, vs(o_value opt := o_defval opt))
      else case get_arg p opt of
        (None, p) \<Rightarrow> (- 1, p, vs)
      | (Some arg, p) \<Rightarrow> (0, p, vs(o_value opt := VStr arg)))"

definition get_filename :: "parse_opt_ctx \<Rightarrow> option_rec \<Rightarrow> bool \<Rightarrow> vars \<Rightarrow> int \<times> parse_opt_ctx \<times> vars" where
  "get_filename p opt unset vs =
     (case get_string p opt unset vs of (err, p, vs) \<Rightarrow>
      if err = 0 then (err, p, vs(o_value opt := VStr (fix_filename (p_prefix p) (the_str (vs (o_value opt))))))
      else (err, p, vs))"

definition get_callback :: "parse_opt_ctx \<Rightarrow> option_rec \<Rightarrow> bool \<Rightarrow> vars \<Rightarrow> int \<times> parse_opt_ctx \<times> vars" where
  "get_callback p opt unset vs =
     (let run = (\<lambda>p arg. case o_callback opt vs arg unset of (rc, vs) \<Rightarrow> (if rc \<noteq> 0 then - 1 else 0, p, vs)) in
      if unset then run p None
      else if NOARG (o_flags opt) then run p None
      else if OPTARG (o_flags opt) \<and> p_opt p = None then run p None
      else case get_arg p opt of (None, p) \<Rightarrow> (- 1, p, vs) | (Some arg, p) \<Rightarrow> run p arg)"

text \<open>\<open>get_value\<close>: \<open>Inl\<close> is the exit status of \<open>die\<close>, or \<open>NULL_READ\<close>.\<close>

definition get_value :: "parse_opt_ctx \<Rightarrow> option_rec \<Rightarrow> arg_flags \<Rightarrow> vars \<Rightarrow> int + int \<times> parse_opt_ctx \<times> vars" where
  "get_value p opt flags vs =
     (let unset = OPT_UNSET flags; v = o_value opt in
      if unset \<and> p_opt p \<noteq> None then Inr (opterror, p, vs)
      else if unset \<and> NONEG (o_flags opt) then Inr (opterror, p, vs)
      else if \<not> OPT_SHORT flags \<and> p_opt p \<noteq> None \<and> takes_no_value opt then Inr (opterror, p, vs)
      else case o_type opt of
        OPTION_BIT \<Rightarrow>
          Inr (0, p, vs(v := VInt (if unset then and (the_int (vs v)) (not (the_int (o_defval opt)))
                                   else or (the_int (vs v)) (the_int (o_defval opt)))))
      | OPTION_BOOLEAN \<Rightarrow>
          (let vs = vs(v := VBool (\<not> unset)) in
           Inr (0, p, case o_set opt of None \<Rightarrow> vs | Some s \<Rightarrow> vs(s := VBool True)))
      | OPTION_INCR \<Rightarrow> Inr (0, p, vs(v := VInt (if unset then 0 else s32 (the_int (vs v) + 1))))
      | OPTION_SET_UINT \<Rightarrow> Inr (0, p, vs(v := if unset then VInt 0 else o_defval opt))
      | OPTION_SET_PTR \<Rightarrow> Inr (0, p, vs(v := if unset then VStr None else o_defval opt))
      | OPTION_STRING \<Rightarrow> Inr (get_string p opt unset vs)
      | OPTION_FILENAME \<Rightarrow> Inr (get_filename p opt unset vs)
      | OPTION_CALLBACK \<Rightarrow> Inr (get_callback p opt unset vs)
      | OPTION_INTEGER \<Rightarrow> get_number conv_int p opt unset vs
      | OPTION_UINTEGER \<Rightarrow> get_number conv_uint p opt unset vs
      | OPTION_LONG \<Rightarrow> get_number conv_long p opt unset vs
      | OPTION_U64 \<Rightarrow> get_number conv_u64 p opt unset vs
      | OPTION_END \<Rightarrow> Inl 128 | OPTION_ARGUMENT \<Rightarrow> Inl 128 | OPTION_GROUP \<Rightarrow> Inl 128)"



section \<open>One option\<close>

text \<open>The options before the \<open>OPTION_END\<close> that closes the array.\<close>

definition opts_of :: "option_rec list \<Rightarrow> option_rec list" where
  "opts_of options = takeWhile (\<lambda>x. o_type x \<noteq> OPTION_END) options"

text \<open>\<open>p->opt\<close> is not empty when this is called; an empty text is answered as unknown.\<close>

definition parse_short_opt :: "parse_opt_ctx \<Rightarrow> option_rec list \<Rightarrow> vars \<Rightarrow> int + int \<times> parse_opt_ctx \<times> vars" where
  "parse_short_opt p options vs = (case p_opt p of
       Some (c # cs) \<Rightarrow>
         (case List.find (\<lambda>x. o_short x = Some c) (opts_of options) of
            None \<Rightarrow> Inr (- 2, p, vs)
          | Some x \<Rightarrow> get_value (p\<lparr>p_opt := (if cs \<noteq> [] then Some cs else None)\<rparr>) x
                      \<lparr>OPT_SHORT = True, OPT_UNSET = False\<rparr> vs)
     | _ \<Rightarrow> Inr (- 2, p, vs))"

text \<open>
  How a long option matches the argument, in the order of the tests: not at all; as an abbreviation, plain
  or negated; fully, plain or negated, with the unread rest.
\<close>

datatype long_match = NoMatch | Abbreviated bool | Matches bool string

definition match_long :: "string \<Rightarrow> string \<Rightarrow> long_match" where
  "match_long arg long_name =
     (let n = length (takeWhile (\<lambda>c. c \<noteq> CHR ''='') arg) in
      case skip_prefix arg long_name of
        Some rest \<Rightarrow> Matches False rest
      | None \<Rightarrow>
          let starts_no = prefixcmp long_name ''no-'' = 0; rest3 = skip_prefix arg (drop 3 long_name) in
          if starts_no \<and> rest3 \<noteq> None then Matches True (the rest3)
          else if starts_no \<and> prefixcmp (drop 3 long_name) arg = 0 then Abbreviated True
          else if strncmp_eq long_name arg n then Abbreviated False
          else if prefixcmp ''no-'' arg = 0 then Abbreviated True
          else if \<not> strncmp_eq arg ''no-'' 3 then NoMatch
          else case skip_prefix (drop 3 arg) long_name of
            Some rest \<Rightarrow> Matches True rest
          | None \<Rightarrow> if prefixcmp long_name (drop 3 arg) = 0 then Abbreviated True else NoMatch)"

text \<open>
  The loop over the options: the abbreviation seen last, with its negation, and whether an earlier one makes
  it ambiguous.  \<open>-2\<close> is an unknown option.
\<close>

fun parse_long_loop ::
  "parse_opt_ctx \<Rightarrow> string \<Rightarrow> option_rec list \<Rightarrow> (option_rec \<times> bool) option \<Rightarrow> bool \<Rightarrow> vars \<Rightarrow> int + int \<times> parse_opt_ctx \<times> vars" where
  "parse_long_loop p arg [] abbrev ambiguous vs =
     (if ambiguous then Inr (- 1, p, vs)
      else case abbrev of
        Some (x, unset) \<Rightarrow> get_value p x (long_flags unset) vs
      | None \<Rightarrow> Inr (- 2, p, vs))"
| "parse_long_loop p arg (x # xs) abbrev ambiguous vs =
     (case o_long x of
        None \<Rightarrow> parse_long_loop p arg xs abbrev ambiguous vs
      | Some long_name \<Rightarrow>
          if o_type x = OPTION_ARGUMENT then
            (case skip_prefix arg long_name of
               None \<Rightarrow> parse_long_loop p arg xs abbrev ambiguous vs
             | Some rest \<Rightarrow>
                 if take 1 rest = ''='' then Inr (opterror, p, vs)
                 else if rest \<noteq> [] then parse_long_loop p arg xs abbrev ambiguous vs
                 else Inr (0, p\<lparr>p_out := p_out p @ [''--'' @ arg]\<rparr>, vs))
          else
            (case match_long arg long_name of
               NoMatch \<Rightarrow> parse_long_loop p arg xs abbrev ambiguous vs
             | Abbreviated unset \<Rightarrow>
                 let rest = dropWhile (\<lambda>c. c \<noteq> CHR ''='') arg;
                     p = (if \<not> unset \<and> rest \<noteq> [] then p\<lparr>p_opt := Some (tl rest)\<rparr> else p)
                 in parse_long_loop p arg xs (Some (x, unset)) (ambiguous \<or> abbrev \<noteq> None) vs
             | Matches unset rest \<Rightarrow>
                 if rest = [] then get_value p x (long_flags unset) vs
                 else if take 1 rest \<noteq> ''='' then parse_long_loop p arg xs abbrev ambiguous vs
                 else get_value (p\<lparr>p_opt := Some (tl rest)\<rparr>) x (long_flags unset) vs))"

definition parse_long_opt :: "parse_opt_ctx \<Rightarrow> string \<Rightarrow> option_rec list \<Rightarrow> vars \<Rightarrow> int + int \<times> parse_opt_ctx \<times> vars" where
  "parse_long_opt p arg options vs = parse_long_loop p arg (opts_of options) None False vs"

text \<open>\<open>check_typos\<close>: whether it ends the program, with status 129.\<close>

definition check_typos :: "string \<Rightarrow> option_rec list \<Rightarrow> bool" where
  "check_typos arg options \<longleftrightarrow> 3 \<le> length arg \<and>
     (prefixcmp arg ''no-'' = 0 \<or>
      list_ex (\<lambda>x. case o_long x of None \<Rightarrow> False | Some l \<Rightarrow> prefixcmp l arg = 0) (opts_of options))"


section \<open>The command line\<close>

datatype parse_result = PARSE_OPT_HELP | PARSE_OPT_DONE | PARSE_OPT_LIST_OPTS | PARSE_OPT_LIST_SUBCMDS | PARSE_OPT_UNKNOWN

definition parse_options_start :: "string list \<Rightarrow> string option \<Rightarrow> parse_opt_ctx" where
  "parse_options_start argv prefix = \<lparr>p_argv = tl argv, p_out = [], p_opt = None, p_prefix = prefix,
     p_keep_dashdash = False, p_stop_at_non_option = False, p_keep_unknown = False, p_no_internal_help = False\<rparr>"

text \<open>
  The inner loop over the letters that follow the first of a cluster: \<open>Inl\<close> ends the program, else a
  result to return (\<open>None\<close>: go on with the next argument; unknown is \<open>PARSE_OPT_UNKNOWN\<close>).  The number of
  letters bounds the number of turns.
\<close>

fun short_cluster ::
  "nat \<Rightarrow> option_rec list \<Rightarrow> parse_opt_ctx \<Rightarrow> vars \<Rightarrow> (int + parse_result option \<times> parse_opt_ctx \<times> vars) option" where
  "short_cluster n options p vs = (case p_opt p of
       None \<Rightarrow> Some (Inr (None, p, vs))
     | Some opt \<Rightarrow> (case n of
         0 \<Rightarrow> None
       | Suc n \<Rightarrow>
           if \<not> p_no_internal_help p \<and> take 1 opt = ''h'' then Some (Inr (Some PARSE_OPT_HELP, p, vs))
           else (case parse_short_opt p options vs of
               Inl e \<Rightarrow> Some (Inl e)
             | Inr (rc, p', vs') \<Rightarrow>
                 if rc = - 1 then Some (Inr (Some PARSE_OPT_HELP, p', vs'))
                 else if rc = - 2 then
                   Some (Inr (Some PARSE_OPT_UNKNOWN, p'\<lparr>p_argv := (''-'' @ opt) # tl (p_argv p')\<rparr>, vs'))
                 else short_cluster n options p' vs')))"

declare short_cluster.simps [simp del]

text \<open>One argument that starts with a dash and a letter.\<close>

definition short_argument ::
  "option_rec list \<Rightarrow> string \<Rightarrow> parse_opt_ctx \<Rightarrow> vars \<Rightarrow> (int + parse_result option \<times> parse_opt_ctx \<times> vars) option" where
  "short_argument options arg p vs =
     (let p = p\<lparr>p_opt := Some (tl arg)\<rparr> in
      if \<not> p_no_internal_help p \<and> take 1 (tl arg) = ''h'' then Some (Inr (Some PARSE_OPT_HELP, p, vs))
      else case parse_short_opt p options vs of
        Inl e \<Rightarrow> Some (Inl e)
      | Inr (rc, p, vs) \<Rightarrow>
          if rc = - 1 then Some (Inr (Some PARSE_OPT_HELP, p, vs))
          else if rc = - 2 then Some (Inr (Some PARSE_OPT_UNKNOWN, p, vs))
          else if p_opt p \<noteq> None \<and> check_typos (tl arg) options then Some (Inl 129)
          else short_cluster (length arg) options p vs)"

text \<open>One argument that starts with two dashes and has a name.\<close>

definition long_argument ::
  "option_rec list \<Rightarrow> string \<Rightarrow> parse_opt_ctx \<Rightarrow> vars \<Rightarrow> int + parse_result option \<times> parse_opt_ctx \<times> vars" where
  "long_argument options name p vs =
     (let help = \<not> p_no_internal_help p in
      if help \<and> name = ''help-all'' then Inr (Some PARSE_OPT_HELP, p, vs)
      else if help \<and> name = ''help'' then Inr (Some PARSE_OPT_HELP, p, vs)
      else if name = ''list-opts'' then Inr (Some PARSE_OPT_LIST_OPTS, p, vs)
      else if name = ''list-cmds'' then Inr (Some PARSE_OPT_LIST_SUBCMDS, p, vs)
      else case parse_long_opt p name options vs of
        Inl e \<Rightarrow> Inl e
      | Inr (rc, p, vs) \<Rightarrow>
          if rc = - 1 then Inr (Some PARSE_OPT_HELP, p, vs)
          else if rc = - 2 then Inr (Some PARSE_OPT_UNKNOWN, p, vs)
          else Inr (None, p, vs))"

text \<open>
  The loop of \<open>parse_options_step\<close>.  \<open>after\<close> is the end of a turn that ran an option: return, keep an
  unknown option, or go on.  The number of arguments bounds the number of turns.
\<close>

fun parse_options_loop ::
  "nat \<Rightarrow> option_rec list \<Rightarrow> parse_opt_ctx \<Rightarrow> vars \<Rightarrow> (int + parse_result \<times> parse_opt_ctx \<times> vars) option" where
  "parse_options_loop n options p vs = (case p_argv p of
       [] \<Rightarrow> Some (Inr (PARSE_OPT_DONE, p, vs))
     | arg # _ \<Rightarrow> (case n of
         0 \<Rightarrow> None
       | Suc n \<Rightarrow>
           let advance = (\<lambda>p. p\<lparr>p_argv := tl (p_argv p)\<rparr>);
               keep = (\<lambda>p. p\<lparr>p_out := p_out p @ [hd (p_argv p)]\<rparr>);
               after = (\<lambda>r. case r of
                   Inl e \<Rightarrow> Some (Inl e)
                 | Inr (None, p, vs) \<Rightarrow> parse_options_loop n options (advance p) vs
                 | Inr (Some PARSE_OPT_UNKNOWN, p, vs) \<Rightarrow>
                     if \<not> p_keep_unknown p then Some (Inr (PARSE_OPT_UNKNOWN, p, vs))
                     else parse_options_loop n options (advance (keep (p\<lparr>p_opt := None\<rparr>))) vs
                 | Inr (Some res, p, vs) \<Rightarrow> Some (Inr (res, p, vs)))
           in
           if take 1 arg \<noteq> ''-'' \<or> length arg < 2 then
             (if p_stop_at_non_option p then Some (Inr (PARSE_OPT_DONE, p, vs))
              else parse_options_loop n options (advance (keep p)) vs)
           else if arg ! 1 \<noteq> CHR ''-'' then Option.bind (short_argument options arg p vs) after
           else if length arg = 2 then
             Some (Inr (PARSE_OPT_DONE, if p_keep_dashdash p then p else advance p, vs))
           else after (long_argument options (drop 2 arg) p vs)))"

declare parse_options_loop.simps [simp del]

definition parse_options_step ::
  "option_rec list \<Rightarrow> parse_opt_ctx \<Rightarrow> vars \<Rightarrow> (int + parse_result \<times> parse_opt_ctx \<times> vars) option" where
  "parse_options_step options p vs = parse_options_loop (length (p_argv p)) options (p\<lparr>p_opt := None\<rparr>) vs"

definition parse_options_end :: "parse_opt_ctx \<Rightarrow> string list" where
  "parse_options_end p = p_out p @ p_argv p"

text \<open>
  \<open>parse_options_prefix\<close> with no flags: the arguments left and the variables, or the exit status.  Help,
  also the help that follows an error in an option, exits with 0; an unknown option exits with 129.
\<close>

definition parse_options_prefix ::
  "string option \<Rightarrow> string list \<Rightarrow> option_rec list \<Rightarrow> vars \<Rightarrow> (int + string list \<times> vars) option" where
  "parse_options_prefix prefix argv options vs = (case parse_options_step options (parse_options_start argv prefix) vs of
       None \<Rightarrow> None
     | Some (Inl e) \<Rightarrow> Some (Inl e)
     | Some (Inr (res, p, vs)) \<Rightarrow> Some (case res of
           PARSE_OPT_DONE \<Rightarrow> Inr (parse_options_end p, vs)
         | PARSE_OPT_UNKNOWN \<Rightarrow> Inl 129
         | _ \<Rightarrow> Inl 0))"

definition parse_options :: "string list \<Rightarrow> option_rec list \<Rightarrow> vars \<Rightarrow> (int + string list \<times> vars) option" where
  "parse_options argv options vs = parse_options_prefix None argv options vs"



section \<open>Every command line is parsed to an end\<close>

text \<open>What running one option does to the context: it clears or keeps the rest of the current argument and
  takes at most one argument, never the current one.\<close>

definition shrinks :: "parse_opt_ctx \<Rightarrow> parse_opt_ctx \<Rightarrow> bool" where
  "shrinks p p' \<longleftrightarrow> length (p_argv p') \<le> length (p_argv p) \<and> (p_argv p \<noteq> [] \<longrightarrow> p_argv p' \<noteq> [])"

definition consumes :: "parse_opt_ctx \<Rightarrow> parse_opt_ctx \<Rightarrow> bool" where
  "consumes p p' \<longleftrightarrow> (p_opt p' = p_opt p \<or> p_opt p' = None) \<and> shrinks p p'"

lemma shrinks_refl [simp]: "shrinks p p" and consumes_refl [simp]: "consumes p p"
  by (simp_all add: shrinks_def consumes_def)

lemma shrinks_trans: "shrinks p p' \<Longrightarrow> shrinks p' p'' \<Longrightarrow> shrinks p p''"
  by (auto simp: shrinks_def)

lemma shrinks_upd [simp]: "shrinks (p\<lparr>p_opt := x\<rparr>) p' = shrinks p p'" "shrinks p (p'\<lparr>p_opt := x\<rparr>) = shrinks p p'"
  "shrinks p (p'\<lparr>p_out := y\<rparr>) = shrinks p p'"
  by (simp_all add: shrinks_def)

lemma get_arg_consumes: "consumes p (snd (get_arg p opt))"
  by (cases "p_argv p"; cases "tl (p_argv p)") (simp_all add: get_arg_def consumes_def shrinks_def)

lemma get_number_consumes: "get_number conv p opt unset vs = Inr (rc, p', vs') \<Longrightarrow> consumes p p'"
  using get_arg_consumes [of p opt] by (auto simp: get_number_def case_prod_beta split: option.splits if_splits prod.splits)

lemma get_string_consumes: "consumes p (fst (snd (get_string p opt unset vs)))"
  using get_arg_consumes [of p opt] by (simp add: get_string_def case_prod_beta split: option.split)

lemma get_filename_consumes: "consumes p (fst (snd (get_filename p opt unset vs)))"
  using get_string_consumes [of p opt unset vs] by (simp add: get_filename_def case_prod_beta)

lemma get_callback_consumes: "consumes p (fst (snd (get_callback p opt unset vs)))"
  using get_arg_consumes [of p opt] by (simp add: get_callback_def case_prod_beta Let_def split: option.split)

lemma get_value_consumes:
  assumes "get_value p opt flags vs = Inr (rc, p', vs')"
  shows "consumes p p'"
proof -
  have number: "get_number conv p opt u vs = Inr (rc, p', vs') \<Longrightarrow> consumes p p'" for conv u
    by (rule get_number_consumes)
  have rest: "get_string p opt u vs = (rc, p', vs') \<Longrightarrow> consumes p p'" "get_filename p opt u vs = (rc, p', vs') \<Longrightarrow> consumes p p'"
    "get_callback p opt u vs = (rc, p', vs') \<Longrightarrow> consumes p p'" for u
    using get_string_consumes [of p opt u vs] get_filename_consumes [of p opt u vs] get_callback_consumes [of p opt u vs] by simp_all
  show ?thesis
    using assms number rest unfolding get_value_def Let_def
    by (cases "o_type opt") (simp_all split: if_splits)
qed

lemma parse_short_opt_shorter:
  assumes "parse_short_opt p options vs = Inr (rc, p', vs')" "p_opt p = Some opt" "rc \<noteq> - 2" "p_opt p' = Some opt'"
  shows "length opt' < length opt"
  using assms by (cases opt) (auto simp: parse_short_opt_def consumes_def split: option.splits if_splits dest!: get_value_consumes)

lemma parse_short_opt_shrinks: "parse_short_opt p options vs = Inr (rc, p', vs') \<Longrightarrow> shrinks p p'"
  by (auto simp: parse_short_opt_def consumes_def split: option.splits list.splits dest!: get_value_consumes)

lemma parse_long_loop_shrinks: "parse_long_loop p arg xs abbrev amb vs = Inr (rc, p', vs') \<Longrightarrow> shrinks p p'"
proof (induction xs arbitrary: p abbrev amb)
  case Nil
  then show ?case by (auto split: if_splits option.splits prod.splits dest!: get_value_consumes simp: consumes_def)
next
  case (Cons x xs)
  then show ?case
    by (auto split: if_splits option.splits long_match.splits dest!: get_value_consumes Cons.IH simp: consumes_def Let_def)
qed

definition turn_ok :: "parse_opt_ctx \<Rightarrow> int + parse_result option \<times> parse_opt_ctx \<times> vars \<Rightarrow> bool" where
  "turn_ok p r \<longleftrightarrow> (\<forall>res p' vs'. r = Inr (res, p', vs') \<longrightarrow> shrinks p p')"

lemma turn_ok_trans: "shrinks p p' \<Longrightarrow> turn_ok p' r \<Longrightarrow> turn_ok p r"
  using shrinks_trans by (fastforce simp: turn_ok_def)

lemma short_cluster_defined:
  assumes "p_argv p \<noteq> []" "\<And>opt. p_opt p = Some opt \<Longrightarrow> length opt < n"
  shows "\<exists>r. short_cluster n options p vs = Some r \<and> turn_ok p r"
  using assms
proof (induction n arbitrary: p vs)
  case 0
  then show ?case by (cases "p_opt p") (auto simp: short_cluster.simps turn_ok_def)
next
  case (Suc n)
  show ?case
  proof (cases "p_opt p")
    case None
    then show ?thesis by (simp add: short_cluster.simps turn_ok_def)
  next
    case (Some opt)
    show ?thesis
    proof (cases "parse_short_opt p options vs")
      case (Inl e)
      with Some show ?thesis by (auto simp: short_cluster.simps [of "Suc n"] turn_ok_def)
    next
      case (Inr r)
      obtain rc p' vs' where r: "parse_short_opt p options vs = Inr (rc, p', vs')" using Inr by (cases r) auto
      have sh: "shrinks p p'" by (rule parse_short_opt_shrinks [OF r])
      show ?thesis
      proof (cases "rc = - 2")
        case True
        with Some r sh Suc.prems(1) show ?thesis
          by (cases "p_argv p'") (auto simp: short_cluster.simps [of "Suc n"] turn_ok_def shrinks_def)
      next
        case False
        have "length opt' < n" if "p_opt p' = Some opt'" for opt'
          using parse_short_opt_shorter [OF r Some False that] Suc.prems(2) [OF Some] by simp
        moreover have "p_argv p' \<noteq> []" using sh Suc.prems(1) by (simp add: shrinks_def)
        ultimately obtain r' where "short_cluster n options p' vs' = Some r'" "turn_ok p r'"
          using Suc.IH [of p' vs'] turn_ok_trans [OF sh] by blast
        with Some r False sh show ?thesis by (auto simp: short_cluster.simps [of "Suc n"] turn_ok_def)
      qed
    qed
  qed
qed

lemma short_argument_defined:
  assumes "p_argv p \<noteq> []"
  shows "\<exists>r. short_argument options arg p vs = Some r \<and> turn_ok p r"
proof (cases "parse_short_opt (p\<lparr>p_opt := Some (tl arg)\<rparr>) options vs")
  case (Inl e)
  then show ?thesis by (simp add: short_argument_def Let_def turn_ok_def)
next
  case (Inr r)
  obtain rc p' vs' where r: "parse_short_opt (p\<lparr>p_opt := Some (tl arg)\<rparr>) options vs = Inr (rc, p', vs')" using Inr by (cases r) auto
  have sh: "shrinks p p'" using parse_short_opt_shrinks [OF r] by simp
  have "length opt < length arg" if "rc \<noteq> - 2" "p_opt p' = Some opt" for opt
    using parse_short_opt_shorter [OF r _ that] by simp
  moreover have "p_argv p' \<noteq> []" using sh assms by (simp add: shrinks_def)
  ultimately have "rc \<noteq> - 2 \<Longrightarrow> \<exists>r. short_cluster (length arg) options p' vs' = Some r \<and> turn_ok p r"
    using short_cluster_defined [of p' "length arg" options vs'] turn_ok_trans [OF sh] by blast
  with r sh show ?thesis by (auto simp: short_argument_def Let_def turn_ok_def)
qed

lemma long_argument_ok: "turn_ok p (long_argument options name p vs)"
  by (auto simp: turn_ok_def long_argument_def Let_def parse_long_opt_def split: sum.splits if_splits dest: parse_long_loop_shrinks)

lemma parse_options_loop_defined: "length (p_argv p) \<le> n \<Longrightarrow> \<exists>r. parse_options_loop n options p vs = Some r"
proof (induction n arbitrary: p vs)
  case 0
  then show ?case by (simp add: parse_options_loop.simps)
next
  case (Suc n)
  show ?case
  proof (cases "p_argv p")
    case (Cons arg args)
    have next_turn: "\<exists>r. parse_options_loop n options q vs' = Some r" if "shrinks p p'" "p_argv q = tl (p_argv p')" for q p' vs'
      using that Suc.prems Cons by (intro Suc.IH) (auto simp: shrinks_def)
    have after: "\<exists>x. (case r of
                   Inl e \<Rightarrow> Some (Inl e)
                 | Inr (None, p, vs) \<Rightarrow> parse_options_loop n options (p\<lparr>p_argv := tl (p_argv p)\<rparr>) vs
                 | Inr (Some PARSE_OPT_UNKNOWN, p, vs) \<Rightarrow>
                     if \<not> p_keep_unknown p then Some (Inr (PARSE_OPT_UNKNOWN, p, vs))
                     else parse_options_loop n options ((\<lambda>p. p\<lparr>p_argv := tl (p_argv p)\<rparr>) ((\<lambda>p. p\<lparr>p_out := p_out p @ [hd (p_argv p)]\<rparr>) (p\<lparr>p_opt := None\<rparr>))) vs
                 | Inr (Some res, p, vs) \<Rightarrow> Some (Inr (res, p, vs))) = Some x" if ok: "turn_ok p r" for r
    proof (cases r)
      case (Inr q)
      obtain res p' vs' where q: "q = (res, p', vs')" by (cases q)
      have sh: "shrinks p p'" using ok Inr q by (simp add: turn_ok_def)
      then show ?thesis using Inr q next_turn [OF sh] by (auto split: option.split parse_result.split)
    qed simp
    obtain r where r: "short_argument options arg p vs = Some r" "turn_ok p r"
      using short_argument_defined [of p options arg vs] Cons by auto
    show ?thesis
      using after [OF r(2)] after [OF long_argument_ok, of options "drop 2 arg" vs] next_turn [OF shrinks_refl]
      unfolding parse_options_loop.simps [of "Suc n"] Cons by (simp add: Let_def r(1) Cons)
  qed (simp add: parse_options_loop.simps)
qed

text \<open>
  The null pointer is read only for a numeric option that is the last argument, has \<open>LASTARG_DEFAULT\<close> and no text as its
  default.
\<close>

definition default_read :: "option_rec \<Rightarrow> bool" where
  "default_read x \<longleftrightarrow> o_type x \<in> {OPTION_INTEGER, OPTION_UINTEGER, OPTION_LONG, OPTION_U64} \<and> LASTARG_DEFAULT (o_flags x) \<and>
     the_str (o_defval x) = None"

lemma get_value_reads: "\<not> default_read x \<Longrightarrow> get_value p x flags vs \<noteq> Inl NULL_READ"
  by (cases "o_type x") (auto simp: default_read_def get_value_def get_number_def get_arg_def NULL_READ_def Let_def
      split: option.splits prod.splits if_splits)

lemma parse_short_opt_reads:
  assumes "\<forall>x \<in> set (opts_of options). \<not> default_read x"
  shows "parse_short_opt p options vs \<noteq> Inl NULL_READ"
  using assms get_value_reads by (auto simp: parse_short_opt_def find_Some_iff split: option.split list.split dest!: nth_mem)

lemma parse_long_loop_reads:
  assumes "\<forall>x \<in> set xs. \<not> default_read x" "\<forall>(x, u) \<in> set_option abbrev. \<not> default_read x"
  shows "parse_long_loop p arg xs abbrev amb vs \<noteq> Inl NULL_READ"
  using assms
proof (induction xs arbitrary: p abbrev amb)
  case Nil
  then show ?case using get_value_reads by (auto split: option.split)
next
  case (Cons x xs)
  have x: "\<not> default_read x" "\<forall>x \<in> set xs. \<not> default_read x" using Cons.prems(1) by simp_all
  have "\<forall>(y, u) \<in> set_option (Some (x, unset)). \<not> default_read y" for unset using x(1) by simp
  with Cons.IH [OF x(2)] Cons.prems(2) get_value_reads [OF x(1)] show ?case
    by (auto simp: Let_def split: option.split long_match.split)
qed

lemma short_cluster_reads:
  assumes "\<forall>x \<in> set (opts_of options). \<not> default_read x"
  shows "short_cluster n options p vs \<noteq> Some (Inl NULL_READ)"
proof (induction n arbitrary: p vs)
  case 0
  then show ?case by (cases "p_opt p") (simp_all add: short_cluster.simps)
next
  case (Suc n)
  then show ?case
    using parse_short_opt_reads [OF assms, of p vs]
    by (cases "p_opt p") (auto simp: short_cluster.simps [of "Suc n"] split: sum.split prod.split)
qed

lemma argument_reads:
  assumes "\<forall>x \<in> set (opts_of options). \<not> default_read x"
  shows "short_argument options arg p vs \<noteq> Some (Inl NULL_READ)" "long_argument options name p vs \<noteq> Inl NULL_READ"
proof -
  show "short_argument options arg p vs \<noteq> Some (Inl NULL_READ)"
    using parse_short_opt_reads [OF assms] short_cluster_reads [OF assms]
    by (auto simp: short_argument_def Let_def NULL_READ_def [symmetric] split: sum.split prod.split) (simp_all add: NULL_READ_def)
  show "long_argument options name p vs \<noteq> Inl NULL_READ"
    using parse_long_loop_reads [OF assms, of None p name False vs]
    by (auto simp: long_argument_def parse_long_opt_def Let_def split: sum.split prod.split)
qed

lemma parse_options_loop_reads:
  assumes "\<forall>x \<in> set (opts_of options). \<not> default_read x"
  shows "parse_options_loop n options p vs \<noteq> Some (Inl NULL_READ)"
proof (induction n arbitrary: p vs)
  case 0
  then show ?case by (cases "p_argv p") (simp_all add: parse_options_loop.simps)
next
  case (Suc n)
  show ?case
  proof (cases "p_argv p")
    case (Cons arg args)
    have after: "(case r of
                   Inl e \<Rightarrow> Some (Inl e)
                 | Inr (None, p, vs) \<Rightarrow> parse_options_loop n options (p\<lparr>p_argv := tl (p_argv p)\<rparr>) vs
                 | Inr (Some PARSE_OPT_UNKNOWN, p, vs) \<Rightarrow>
                     if \<not> p_keep_unknown p then Some (Inr (PARSE_OPT_UNKNOWN, p, vs))
                     else parse_options_loop n options ((\<lambda>p. p\<lparr>p_argv := tl (p_argv p)\<rparr>) ((\<lambda>p. p\<lparr>p_out := p_out p @ [hd (p_argv p)]\<rparr>) (p\<lparr>p_opt := None\<rparr>))) vs
                 | Inr (Some res, p, vs) \<Rightarrow> Some (Inr (res, p, vs))) \<noteq> Some (Inl NULL_READ)" if "r \<noteq> Inl NULL_READ" for r
      using that Suc.IH by (auto split: sum.split option.split prod.split parse_result.split)
    have long: "long_argument options (drop 2 arg) p vs \<noteq> Inl NULL_READ" by (rule argument_reads(2) [OF assms])
    show ?thesis
    proof (cases "short_argument options arg p vs")
      case None
      then show ?thesis using after [OF long] Suc.IH unfolding parse_options_loop.simps [of "Suc n"] Cons by (simp add: Let_def Cons)
    next
      case (Some r)
      then have r: "r \<noteq> Inl NULL_READ" using argument_reads(1) [OF assms, of arg p vs] by auto
      show ?thesis
        using Some after [OF r] after [OF long] Suc.IH unfolding parse_options_loop.simps [of "Suc n"] Cons by (simp add: Let_def Cons)
    qed
  qed (simp add: parse_options_loop.simps)
qed

text \<open>
  C21: every command line is parsed to an end: for all arguments, options and variables the parser either
  ends the program with a status or answers the arguments left and the variables; and no null pointer is read when no
  numeric option has a default without a text.
\<close>

theorem parse_options_terminates:
  "\<exists>r. parse_options argv options vs = Some r \<and> (list_all (\<lambda>x. \<not> default_read x) (opts_of options) \<longrightarrow> r \<noteq> Inl NULL_READ)"
  using parse_options_loop_defined [of "(parse_options_start argv None)\<lparr>p_opt := None\<rparr>" "length (tl argv)" options vs]
    parse_options_loop_reads [of options "length (tl argv)" "(parse_options_start argv None)\<lparr>p_opt := None\<rparr>" vs]
  by (auto simp: parse_options_def parse_options_prefix_def parse_options_step_def parse_options_start_def NULL_READ_def list_all_iff
      split: sum.split parse_result.split)

theorem parse_options_terminates_witness:
  "\<exists>r. parse_options [''config-device'', ''--event-log-size''] [OPT_INTEGER (CHR ''e'') ''event-log-size'' ''evl'', OPT_END] (\<lambda>_. VInt 0) = Some r \<and>
     r \<noteq> Inl NULL_READ"
proof -
  have "list_all (\<lambda>x. \<not> default_read x) (opts_of [OPT_INTEGER (CHR ''e'') ''event-log-size'' ''evl'', OPT_END])"
    by (simp add: opts_of_def OPT_def OPT_END_def OPT_INTEGER_def default_read_def no_flags_def)
  with parse_options_terminates [of "[''config-device'', ''--event-log-size'']" "[OPT_INTEGER (CHR ''e'') ''event-log-size'' ''evl'', OPT_END]" "\<lambda>_. VInt 0"]
  show ?thesis by blast
qed


definition positional :: "string \<Rightarrow> bool" where
  "positional a \<longleftrightarrow> take 1 a \<noteq> ''-'' \<or> length a < 2"

lemma parse_options_loop_positional:
  assumes "p_argv p = pos @ rest" "\<forall>a \<in> set pos. positional a" "\<not> p_stop_at_non_option p"
  shows "parse_options_loop (length pos + n) options p vs =
     parse_options_loop n options (p\<lparr>p_argv := rest, p_out := p_out p @ pos\<rparr>) vs"
  using assms
proof (induction pos arbitrary: p)
  case Nil
  have "p = p\<lparr>p_argv := rest, p_out := p_out p @ []\<rparr>" using Nil.prems(1) by simp
  then show ?case by (metis add_0 list.size(3))
next
  case (Cons a pos)
  have "parse_options_loop (length pos + n) options (p\<lparr>p_out := p_out p @ [a], p_argv := pos @ rest\<rparr>) vs =
     parse_options_loop n options (p\<lparr>p_argv := rest, p_out := p_out p @ a # pos\<rparr>) vs"
    using Cons.IH [of "p\<lparr>p_out := p_out p @ [a], p_argv := pos @ rest\<rparr>"] Cons.prems by simp
  with Cons.prems show ?case
    by (simp add: parse_options_loop.simps [of "Suc (length pos + n)"] Let_def positional_def)
qed

lemma parse_options_args:
  assumes "\<forall>a \<in> set args. positional a"
  shows "parse_options (cmd # args) options vs = Some (Inr (args, vs))"
  using parse_options_loop_positional [of "parse_options_start (cmd # args) None" args "[]" 0] assms
  by (simp add: parse_options_def parse_options_prefix_def parse_options_step_def parse_options_start_def parse_options_end_def
      parse_options_loop.simps)

text \<open>
  arguments that do not start with a dash, and a single dash, are kept in their order, and no variable
  changes.
\<close>

lemma parse_options_positional:
  assumes "\<forall>a \<in> set args. positional a"
  shows "parse_options (cmd # args) options vs = Some (Inr (args, vs))"
  using assms by (rule parse_options_args)

lemma parse_options_positional_example:
  "parse_options [''enable-wq'', ''dsa0/wq0.0'', ''-''] [] (\<lambda>_. VInt 0) = Some (Inr ([''dsa0/wq0.0'', ''-''], \<lambda>_. VInt 0))"
  using parse_options_positional [of "[''dsa0/wq0.0'', ''-'']" "''enable-wq''" "[]" "\<lambda>_. VInt 0"] by (simp add: positional_def)

definition no_full_match :: "string \<Rightarrow> option_rec \<Rightarrow> bool" where
  "no_full_match arg x \<longleftrightarrow> o_type x \<noteq> OPTION_ARGUMENT \<and>
     (case o_long x of None \<Rightarrow> True | Some l \<Rightarrow>
        (case match_long arg l of Matches _ rest \<Rightarrow> rest \<noteq> [] \<and> take 1 rest \<noteq> ''='' | _ \<Rightarrow> True))"

lemma skip_prefix_append: "skip_prefix (l @ r) l = Some r"
  by (simp add: skip_prefix_def strncmp_eq_def)

lemma parse_long_loop_exact:
  assumes "o_long x = Some l" "o_type x \<noteq> OPTION_ARGUMENT" "list_all (no_full_match (l @ ''='' @ v)) pre"
  shows "parse_long_loop p (l @ ''='' @ v) (pre @ x # post) abbrev amb vs
     = get_value (p\<lparr>p_opt := Some v\<rparr>) x (long_flags False) vs"
  using assms(3)
proof (induction pre arbitrary: p abbrev amb)
  case Nil
  show ?case using assms(1,2) by (simp add: match_long_def skip_prefix_append Let_def)
next
  case (Cons y pre)
  then show ?case
    by (auto simp: no_full_match_def Let_def split: option.split long_match.split)
qed

text \<open>The conversion of a numeric option.\<close>

definition conv_of :: "parse_opt_type \<Rightarrow> (string \<Rightarrow> int \<times> string) option" where
  "conv_of t = (case t of OPTION_INTEGER \<Rightarrow> Some conv_int | OPTION_UINTEGER \<Rightarrow> Some conv_uint
     | OPTION_LONG \<Rightarrow> Some conv_long | OPTION_U64 \<Rightarrow> Some conv_u64 | _ \<Rightarrow> None)"

lemma get_value_number:
  assumes "conv_of (o_type x) = Some conv" "\<not> OPTARG (o_flags x)" "p_opt p = None"
  shows "get_value (p\<lparr>p_opt := Some v\<rparr>) x (long_flags False) vs =
     Inr (case conv v of (n, r) \<Rightarrow> (if r = [] then 0 else - 1, p, vs(o_value x := VInt n)))"
  using assms
  by (cases "o_type x")
    (auto simp: conv_of_def get_value_def Let_def long_flags_def get_number_def get_arg_def takes_no_value_def opterror_def case_prod_beta)

lemma parse_options_number:
  assumes "opts_of options = pre @ x # post" "o_long x = Some l" "conv_of (o_type x) = Some conv" "\<not> OPTARG (o_flags x)"
    and "list_all (no_full_match (l @ ''='' @ v)) pre" "l \<noteq> []" "\<forall>a \<in> set args. positional a"
  shows "parse_options (cmd # args @ [''--'' @ l @ ''='' @ v]) options vs = (case conv v of (n, r) \<Rightarrow>
     if r = [] then Some (Inr (args, vs(o_value x := VInt n))) else Some (Inl 0))"
proof -
  let ?a = "''--'' @ l @ ''='' @ v"
  let ?p = "(parse_options_start (cmd # args @ [?a]) None)\<lparr>p_opt := None\<rparr>"
  let ?q = "?p\<lparr>p_argv := [?a], p_out := args\<rparr>"
  have x: "o_type x \<noteq> OPTION_ARGUMENT" using assms(3) by (auto simp: conv_of_def)
  have "parse_long_opt ?q (l @ ''='' @ v) options vs = get_value (?q\<lparr>p_opt := Some v\<rparr>) x (long_flags False) vs"
    using parse_long_loop_exact [OF assms(2) x assms(5), of ?q post None False vs] assms(1)
    by (simp add: parse_long_opt_def)
  also have "\<dots> = Inr (case conv v of (n, r) \<Rightarrow> (if r = [] then 0 else - 1, ?q, vs(o_value x := VInt n)))"
    by (rule get_value_number [OF assms(3,4)]) simp
  finally have long: "parse_long_opt ?q (l @ ''='' @ v) options vs = \<dots>" .
  have "l @ ''='' @ v \<noteq> s" if "CHR ''='' \<notin> set s" for s using that by auto
  from this [of "''help-all''"] this [of "''help''"] this [of "''list-opts''"] this [of "''list-cmds''"]
  have "l @ ''='' @ v \<noteq> ''help-all''" "l @ ''='' @ v \<noteq> ''help''" "l @ ''='' @ v \<noteq> ''list-opts''" "l @ ''='' @ v \<noteq> ''list-cmds''"
    by simp_all
  with long assms(6) have loop: "parse_options_loop 1 options ?q vs = Some (case conv v of (n, r) \<Rightarrow>
      Inr (if r = [] then (PARSE_OPT_DONE, ?q\<lparr>p_argv := []\<rparr>, vs(o_value x := VInt n)) else (PARSE_OPT_HELP, ?q, vs(o_value x := VInt n))))"
    by (simp add: parse_options_loop.simps long_argument_def parse_options_start_def Let_def case_prod_beta numeral_2_eq_2)
  have "parse_options_loop (length args + 1) options ?p vs = parse_options_loop 1 options ?q vs"
    using parse_options_loop_positional [of ?p args "[?a]" 1 options vs] assms(7) by (simp add: parse_options_start_def)
  with loop show ?thesis
    by (simp add: parse_options_def parse_options_prefix_def parse_options_step_def parse_options_start_def parse_options_end_def case_prod_beta)
qed

text \<open>
  C29: a numeric option given by its long name after any positional arguments: with a text that is a number
  the variable gets its value and the other arguments are kept; with anything after the number the program
  ends, and the status is 0, success.
\<close>

theorem parse_options_numeric:
  assumes "opts_of options = pre @ x # post" "o_long x = Some l" "conv_of (o_type x) = Some conv" "\<not> OPTARG (o_flags x)"
    and "list_all (no_full_match (l @ ''='' @ v)) pre" "l \<noteq> []" "\<forall>a \<in> set args. positional a"
  shows "parse_options (cmd # args @ [''--'' @ l @ ''='' @ v]) options vs = (case conv v of (n, r) \<Rightarrow>
     if r = [] then Some (Inr (args, vs(o_value x := VInt n))) else Some (Inl 0))"
  using assms by (rule parse_options_number)

definition ex_opts :: "option_rec list" where
  "ex_opts = [OPT_UINTEGER (CHR ''l'') ''read-buffer-limit'' ''rbl'', OPT_INTEGER (CHR ''e'') ''event-log-size'' ''evl'', OPT_END]"

lemma ex_opts_split:
  "opts_of ex_opts = [OPT_UINTEGER (CHR ''l'') ''read-buffer-limit'' ''rbl''] @ OPT_INTEGER (CHR ''e'') ''event-log-size'' ''evl'' # []"
  by (simp add: ex_opts_def opts_of_def OPT_def OPT_END_def OPT_UINTEGER_def OPT_INTEGER_def)

lemma ex_opts_match: "list_all (no_full_match (''event-log-size'' @ ''='' @ v)) [OPT_UINTEGER (CHR ''l'') ''read-buffer-limit'' ''rbl'']"
  by (simp add: no_full_match_def OPT_def OPT_UINTEGER_def match_long_def skip_prefix_def prefixcmp.simps strncmp_eq_def Let_def)

lemma ex_conv: "conv_int ''1024'' = (1024, [])" "snd (conv_int ''64k'') \<noteq> []"
  by code_simp+

theorem parse_options_numeric_witness:
  "parse_options [''config-device'', ''dsa0'', ''--event-log-size=1024''] ex_opts (\<lambda>_. VInt 0)
     = Some (Inr ([''dsa0''], (\<lambda>_. VInt 0)(''evl'' := VInt 1024))) \<and>
   parse_options [''config-device'', ''dsa0'', ''--event-log-size=64k''] ex_opts (\<lambda>_. VInt 0) = Some (Inl 0)"
proof -
  let ?x = "OPT_INTEGER (CHR ''e'') ''event-log-size'' ''evl''"
  have "o_long ?x = Some ''event-log-size''" "conv_of (o_type ?x) = Some conv_int" "\<not> OPTARG (o_flags ?x)" "o_value ?x = ''evl''"
    by (simp_all add: OPT_INTEGER_def OPT_def no_flags_def conv_of_def)
  then show ?thesis
    using parse_options_numeric [OF ex_opts_split _ _ _ ex_opts_match, of conv_int "[''dsa0'']" "''config-device''" "''1024''" "\<lambda>_. VInt 0"]
      parse_options_numeric [OF ex_opts_split _ _ _ ex_opts_match, of conv_int "[''dsa0'']" "''config-device''" "''64k''" "\<lambda>_. VInt 0"] ex_conv
    by (simp add: positional_def case_prod_beta)
qed

end
