(* ===== verification/Enable.thy ===== *)
theory Enable
  imports Util_Filter Parse_Options
begin

text \<open>
  The commands that enable and disable devices and work queues, \<open>src/accfg/enable.c\<close>.  A command either
  ends the process in the option parser or by showing its usage (\<open>Inl\<close> with the status), or returns a
  code (\<open>Inr\<close>).  The static variables behind the options start as false; the messages are not modelled.
\<close>

datatype dev_action = DEV_ACTION_ENABLE | DEV_ACTION_DISABLE

datatype enum_wq_action = WQ_ACTION_ENABLE | WQ_ACTION_DISABLE

type_synonym 'k cmd_run = "('k, int + int) run"

definition EXIT_FAILURE :: int where "EXIT_FAILURE = 1"

text \<open>\<open>usage_with_options\<close> ends the process with this status.\<close>

definition USAGE_STATUS :: int where "USAGE_STATUS = 129"

definition param :: vars where
  "param = (\<lambda>_. VBool False)"

definition device_options :: "option_rec list" where
  "device_options = [OPT_BOOLEAN (CHR ''v'') ''verbose'' ''verbose'', OPT_END]"

definition device_disable_options :: "option_rec list" where
  "device_disable_options =
     [OPT_BOOLEAN (CHR ''v'') ''verbose'' ''verbose'', OPT_BOOLEAN (CHR ''f'') ''force'' ''force'', OPT_END]"


section \<open>Devices\<close>

definition action_disable_device :: "'k os \<Rightarrow> ptr \<Rightarrow> bool \<Rightarrow> 'k mach \<Rightarrow> ('k, int) run" where
  "action_disable_device os device force m = do {
     (active, m) \<leftarrow> accfg_device_is_active os device m;
     if active = 0 then Some (- EBUSY, m) else accfg_device_disable os device force m
   }"

definition action_enable_device :: "'k os \<Rightarrow> ptr \<Rightarrow> 'k mach \<Rightarrow> ('k, int) run" where
  "action_enable_device os device m = do {
     (active, m) \<leftarrow> accfg_device_is_active os device m;
     if active \<noteq> 0 then Some (- EBUSY, m) else accfg_device_enable os device m
   }"

definition dev_action_switch :: "'k os \<Rightarrow> ptr \<Rightarrow> dev_action \<Rightarrow> bool \<Rightarrow> 'k mach \<Rightarrow> ('k, int) run" where
  "dev_action_switch os device action force m = (case action of
       DEV_ACTION_ENABLE \<Rightarrow> action_enable_device os device m
     | DEV_ACTION_DISABLE \<Rightarrow> action_disable_device os device force m)"

text \<open>The second look at the state, which replaces the code by the positive \<open>ENXIO\<close>.\<close>

definition device_double_check :: "'k os \<Rightarrow> ptr \<Rightarrow> dev_action \<Rightarrow> int \<Rightarrow> 'k mach \<Rightarrow> ('k, int) run" where
  "device_double_check os device action rc m =
     (if rc = 0 then do {
        (state, m) \<leftarrow> accfg_device_get_state os device m;
        Some (if (state \<noteq> ACCFG_DEVICE_ENABLED \<and> action = DEV_ACTION_ENABLE) \<or>
                 (state \<noteq> ACCFG_DEVICE_DISABLED \<and> action = DEV_ACTION_DISABLE) then ENXIO else rc, m)
      }
      else Some (rc, m))"

text \<open>The loop over the names: the last code and the number of successes.\<close>

fun device_loop ::
  "'k os \<Rightarrow> ptr \<Rightarrow> dev_action \<Rightarrow> bool \<Rightarrow> string list \<Rightarrow> int \<Rightarrow> nat \<Rightarrow> 'k mach \<Rightarrow> ('k, int \<times> nat) run" where
  "device_loop os ctx action force [] rc success m = Some ((rc, success), m)"
| "device_loop os ctx action force (name # names) rc success m = do {
     ((err, device), m) \<leftarrow> parse_device_name os ctx name m;
     if err \<noteq> 0 then device_loop os ctx action force names rc success m
     else do {
       (rc, m) \<leftarrow> dev_action_switch os device action force m;
       (rc, m) \<leftarrow> device_double_check os device action rc m;
       device_loop os ctx action force names rc (if rc = 0 then success + 1 else success) m
     }
   }"

text \<open>The argument \<open>all\<close> replaces every other argument.\<close>

definition all_args :: "string list \<Rightarrow> string list" where
  "all_args argv = (if ''all'' \<in> set argv then [''all''] else argv)"

definition device_action :: "'k os \<Rightarrow> string list \<Rightarrow> option_rec list \<Rightarrow> dev_action \<Rightarrow> ptr \<Rightarrow> 'k mach \<Rightarrow> 'k cmd_run" where
  "device_action os argv options action ctx m = do {
     r \<leftarrow> parse_options argv options param;
     case r of
       Inl status \<Rightarrow> Some (Inl status, m)
     | Inr (args, vs) \<Rightarrow>
         if args = [] then Some (Inl USAGE_STATUS, m)
         else do {
           ((rc, success), m) \<leftarrow> device_loop os ctx action (the_bool (vs ''force'')) (all_args args) (- EINVAL) 0 m;
           Some (Inr (if success \<noteq> 0 then 0 else rc), m)
         }
   }"


section \<open>Work queues\<close>

definition action_disable_wq :: "'k os \<Rightarrow> ptr \<Rightarrow> bool \<Rightarrow> 'k mach \<Rightarrow> ('k, int) run" where
  "action_disable_wq os wq force m = do {
     (state, m) \<leftarrow> accfg_wq_get_state os wq m;
     if state = ACCFG_WQ_DISABLED then Some (- ENXIO, m)
     else if state = ACCFG_WQ_QUIESCING then Some (- EBUSY, m)
     else accfg_wq_disable os wq force m
   }"

definition action_enable_wq :: "'k os \<Rightarrow> ptr \<Rightarrow> 'k mach \<Rightarrow> ('k, int) run" where
  "action_enable_wq os wq m = do {
     (state, m) \<leftarrow> accfg_wq_get_state os wq m;
     if state = ACCFG_WQ_ENABLED \<or> state = ACCFG_WQ_LOCKED then Some (- ENXIO, m)
     else if state = ACCFG_WQ_QUIESCING then Some (- EBUSY, m)
     else accfg_wq_enable os wq m
   }"

definition wq_action_switch :: "'k os \<Rightarrow> ptr \<Rightarrow> enum_wq_action \<Rightarrow> bool \<Rightarrow> 'k mach \<Rightarrow> ('k, int) run" where
  "wq_action_switch os wq action force m = (case action of
       WQ_ACTION_ENABLE \<Rightarrow> action_enable_wq os wq m
     | WQ_ACTION_DISABLE \<Rightarrow> action_disable_wq os wq force m)"

fun wq_loop ::
  "'k os \<Rightarrow> ptr \<Rightarrow> enum_wq_action \<Rightarrow> bool \<Rightarrow> string list \<Rightarrow> int \<Rightarrow> nat \<Rightarrow> 'k mach \<Rightarrow> ('k, int \<times> nat) run" where
  "wq_loop os ctx action force [] rc success m = Some ((rc, success), m)"
| "wq_loop os ctx action force (name # names) rc success m = do {
     ((err, device, wq), m) \<leftarrow> parse_wq_name os ctx name m;
     if err \<noteq> 0 then wq_loop os ctx action force names rc success m
     else do {
       (rc, m) \<leftarrow> wq_action_switch os wq action force m;
       wq_loop os ctx action force names rc (if rc = 0 then success + 1 else success) m
     }
   }"

definition wq_action :: "'k os \<Rightarrow> string list \<Rightarrow> option_rec list \<Rightarrow> enum_wq_action \<Rightarrow> ptr \<Rightarrow> 'k mach \<Rightarrow> 'k cmd_run" where
  "wq_action os argv options action ctx m = do {
     r \<leftarrow> parse_options argv options param;
     case r of
       Inl status \<Rightarrow> Some (Inl status, m)
     | Inr (args, vs) \<Rightarrow>
         if args = [] then Some (Inl USAGE_STATUS, m)
         else do {
           ((rc, success), m) \<leftarrow> wq_loop os ctx action (the_bool (vs ''force'')) (all_args args) (- EINVAL) 0 m;
           Some (Inr (if success \<noteq> 0 then 0 else rc), m)
         }
   }"


section \<open>Commands\<close>

text \<open>The status of a command from the code of its action.\<close>

definition cmd_status :: "'k cmd_run \<Rightarrow> 'k cmd_run" where
  "cmd_status r = do {
     (count, m) \<leftarrow> r;
     Some (map_sum id (\<lambda>count. if 0 \<le> count then 0 else EXIT_FAILURE) count, m)
   }"

definition cmd_disable_device :: "'k os \<Rightarrow> string list \<Rightarrow> ptr \<Rightarrow> 'k mach \<Rightarrow> 'k cmd_run" where
  "cmd_disable_device os argv ctx m = cmd_status (device_action os argv device_disable_options DEV_ACTION_DISABLE ctx m)"

definition cmd_enable_device :: "'k os \<Rightarrow> string list \<Rightarrow> ptr \<Rightarrow> 'k mach \<Rightarrow> 'k cmd_run" where
  "cmd_enable_device os argv ctx m = cmd_status (device_action os argv device_options DEV_ACTION_ENABLE ctx m)"

definition cmd_disable_wq :: "'k os \<Rightarrow> string list \<Rightarrow> ptr \<Rightarrow> 'k mach \<Rightarrow> 'k cmd_run" where
  "cmd_disable_wq os argv ctx m = cmd_status (wq_action os argv device_disable_options WQ_ACTION_DISABLE ctx m)"

definition cmd_enable_wq :: "'k os \<Rightarrow> string list \<Rightarrow> ptr \<Rightarrow> 'k mach \<Rightarrow> 'k cmd_run" where
  "cmd_enable_wq os argv ctx m = cmd_status (wq_action os argv device_options WQ_ACTION_ENABLE ctx m)"

lemmas cmd_defs = cmd_disable_device_def cmd_enable_device_def cmd_disable_wq_def cmd_enable_wq_def cmd_status_def
  device_action_def wq_action_def all_args_def


section \<open>Properties\<close>

lemma no_force: "the_bool (param v) = False"
  by (simp add: param_def the_bool_def)

lemma parse_names_all:
  "parse_device_name os ctx ''all'' m = Some ((- EINVAL, 0), m)" "\<exists>e. parse_wq_name os ctx ''all'' m = Some ((e, 0, 0), m) \<and> e \<noteq> 0"
proof -
  have "scan_device_type_id ''all'' = Some (Inl (- EINVAL))" "scan_parent_child_names ''all'' = Some (Inl (- EINVAL))" by code_simp+
  then show "parse_device_name os ctx ''all'' m = Some ((- EINVAL, 0), m)" "\<exists>e. parse_wq_name os ctx ''all'' m = Some ((e, 0, 0), m) \<and> e \<noteq> 0"
    by (simp_all add: parse_device_name_def parse_wq_name_def parse_child_name_def EINVAL_def)
qed

text \<open>
  the argument \<open>all\<close>, alone or among others, makes each of the four commands do nothing and fail: the
  state is unchanged, the status 1.
\<close>

lemma cmd_all_does_nothing:
  assumes "''all'' \<in> set args" "\<forall>a \<in> set args. positional a"
  shows "cmd_disable_device os (cmd # args) ctx m = Some (Inr EXIT_FAILURE, m)
     \<and> cmd_enable_device os (cmd # args) ctx m = Some (Inr EXIT_FAILURE, m)
     \<and> cmd_disable_wq os (cmd # args) ctx m = Some (Inr EXIT_FAILURE, m)
     \<and> cmd_enable_wq os (cmd # args) ctx m = Some (Inr EXIT_FAILURE, m)"
proof -
  obtain e where "parse_wq_name os ctx ''all'' m = Some ((e, 0, 0), m)" "e \<noteq> 0" using parse_names_all(2) [of os ctx m] by blast
  moreover have "args \<noteq> []" using assms(1) by auto
  ultimately show ?thesis
    using assms(1) by (simp add: cmd_defs parse_options_args [OF assms(2)] parse_names_all(1) EINVAL_def)
qed

lemma cmd_all_does_nothing_example:
  "cmd_enable_wq fs_os [''enable-wq'', ''dsa0/wq0.0'', ''all''] 1 (ex_mach ex_fs) = Some (Inr EXIT_FAILURE, ex_mach ex_fs)"
  using cmd_all_does_nothing [of "[''dsa0/wq0.0'', ''all'']" fs_os "''enable-wq''" 1 "ex_mach ex_fs"] by (simp add: positional_def)

text \<open>
  when the driver took a device and the device is then not in the state asked for, the command prints
  a failure and its status is still 0, success: whatever the second look at the state answers, the status
  of \<open>enable-device\<close> and \<open>disable-device\<close> for one device is 0.
\<close>

lemma cmd_device_unverified:
  assumes "take 1 name \<noteq> ''-''" "name \<noteq> ''all''" "parse_device_name os ctx name m = Some ((0, d), m1)"
    and "dev_action_switch os d action False m1 = Some (0, m2)" "accfg_device_get_state os d m2 = Some (st, m3)"
  shows "(case action of DEV_ACTION_ENABLE \<Rightarrow> cmd_enable_device | DEV_ACTION_DISABLE \<Rightarrow> cmd_disable_device) os [cmd, name] ctx m
     = Some (Inr 0, m3)"
proof -
  have args: "parse_options [cmd, name] opts param = Some (Inr ([name], param))" for opts
    using parse_options_args [of "[name]", unfolded positional_def] assms(1) by simp
  from assms show ?thesis
    by (cases action) (auto simp: cmd_defs args device_double_check_def no_force ENXIO_def)
qed


definition ex_bind_fs :: fs where
  "ex_bind_fs = ex_fs\<lparr>fs_files := [(''/sys/bus/dsa/drivers/idxd/bind'', []), (''/d/dsa0/state'', ''disabled'' @ [NL])]\<rparr>"

lemma ex_device_name: "parse_device_name fs_os 1 ''dsa0'' (ex_mach k) = Some ((0, 2), ex_mach k)"
proof -
  have "scan_device_type_id ''dsa0'' = Some (Inr (''dsa'', 0))" "accfg_device_type_validate ''dsa'' \<noteq> 0" by code_simp+
  from parse_device_name_exact [OF ex_mach_wf ex_discovered this] show ?thesis by (simp add: named_def ex_ctx_def)
qed

lemma cmd_device_unverified_example:
  "\<exists>k. cmd_enable_device fs_os [''enable-device'', ''dsa0''] 1 (ex_mach ex_bind_fs) = Some (Inr 0, ex_mach k)
     \<and> map_of (fs_files k) ''/d/dsa0/state'' = Some (''disabled'' @ [NL])"
proof -
  let ?p = "''/sys/bus/dsa/drivers/idxd/bind''"
  let ?k = "ex_bind_fs\<lparr>fs_files := (?p, ''dsa0'') # fs_files ex_bind_fs\<rparr>"
  have reads: "attr_reads fs_os ''/d/dsa0/state'' ''disabled'' ex_bind_fs" "attr_reads fs_os ''/d/dsa0/state'' ''disabled'' ?k"
    by (simp_all add: attr_reads_def ex_bind_fs_def ex_fs_def SYSFS_ATTR_SIZE_def NL_def NUL_def)
  note wf = ex_mach_wf [of ex_bind_fs] ex_mach_wf [of ?k]
  have "devpath_to_devname ''/d/dsa0'' = Some ''dsa0''" by code_simp
  then have "accfg_device_enable fs_os 2 (ex_mach ex_bind_fs) = Some (0, (ex_mach ex_bind_fs)\<lparr>kern := ?k\<rparr>)"
    by (intro accfg_device_enable_writes [OF ex_mach_wf, of _ _ ex_dev "''dsa0''" ex_ctx fs_os ?p])
      (simp_all add: ex_dev_def ex_ctx_def empty_ctx_def ex_bind_fs_def ex_fs_def fs_os_ok)
  then have "dev_action_switch fs_os 2 DEV_ACTION_ENABLE False (ex_mach ex_bind_fs) = Some (0, ex_mach ?k)"
    using device_state_reads(2) [OF wf(1), of 2 ex_dev fs_os "''disabled''"] reads(1)
    by (simp add: dev_action_switch_def action_enable_device_def ex_dev_def ex_mach_def)
  moreover have "accfg_device_get_state fs_os 2 (ex_mach ?k) = Some (ACCFG_DEVICE_DISABLED, ex_mach ?k)"
    using device_state_reads(1) [OF wf(2), of 2 ex_dev fs_os "''disabled''"] reads(2) by (simp add: ex_dev_def)
  ultimately have "cmd_enable_device fs_os [''enable-device'', ''dsa0''] 1 (ex_mach ex_bind_fs) = Some (Inr 0, ex_mach ?k)"
    using cmd_device_unverified [of "''dsa0''" fs_os 1 "ex_mach ex_bind_fs" 2 "ex_mach ex_bind_fs" DEV_ACTION_ENABLE] ex_device_name
    by simp
  then show ?thesis by (intro exI [of _ ?k]) (simp add: ex_bind_fs_def)
qed

definition cmd_of :: "enum_wq_action \<Rightarrow> 'k os \<Rightarrow> string list \<Rightarrow> ptr \<Rightarrow> 'k mach \<Rightarrow> 'k cmd_run" where
  "cmd_of action = (case action of WQ_ACTION_ENABLE \<Rightarrow> cmd_enable_wq | WQ_ACTION_DISABLE \<Rightarrow> cmd_disable_wq)"

lemma wq_action_switch_wp:
  assumes "os_ok os" "wf_state m" "wqs m w = Some wq" "devices m (wq_device wq) = Some dv"
    and "devpath_to_devname (wq_path wq) = Some name"
    and "length (dev_bus_type_str dv) < 1000" "length name < 1000"
    and "\<forall>n. wq_driver_name wq = Some n \<longrightarrow> length n < 1000"
  shows "wp (wq_action_switch os w action force m) (\<lambda>(rc, m'). wf_state m' \<and>
     (0 \<le> rc \<longrightarrow> fst (snd (sysfs_read_attr os (wq_path wq @ ''/state'') m'))
        = Some (case action of WQ_ACTION_ENABLE \<Rightarrow> ''enabled'' | WQ_ACTION_DISABLE \<Rightarrow> ''disabled'')))"
proof -
  from accfg_wq_get_state_wp [OF assms(1-3)] obtain st m1
    where st: "accfg_wq_get_state os w m = Some (st, m1)" "error_frame m m1" by (auto simp: wp_iff)
  then have m1: "wf_state m1" "wqs m1 w = Some wq" "devices m1 (wq_device wq) = Some dv"
    using wf_error_frame assms(2-4) by (auto simp: error_frame_def)
  note run = accfg_wq_control_wp [OF assms(1) m1 assms(5-8)]
  show ?thesis
    using st m1(1) run [of ACCFG_WQ_ENABLE False] run [of ACCFG_WQ_DISABLE force]
    by (cases action) (auto simp: wq_action_switch_def action_enable_wq_def action_disable_wq_def
        accfg_wq_enable_def accfg_wq_disable_def errno_defs)
qed

text \<open>
  C4: \<open>enable-wq\<close> and \<open>disable-wq\<close> on one work queue tell the truth: when the queue is found and the state
  is then well-formed, the command is defined and leaves a well-formed state, and when its status is 0 the queue's \<open>state\<close>
  attribute reads as the state asked for in the resulting kernel.
\<close>

theorem cmd_wq_verified:
  assumes "os_ok os" "wf_state m" "take 1 name \<noteq> ''-''"
    and "parse_wq_name os c name m0 = Some ((0, d, w), m)" "wqs m w = Some wq" "devices m (wq_device wq) = Some dv"
    and "devpath_to_devname (wq_path wq) = Some wname" "length (dev_bus_type_str dv) < 1000" "length wname < 1000"
    and "\<forall>n. wq_driver_name wq = Some n \<longrightarrow> length n < 1000"
  shows "wp (cmd_of action os [cmd, name] c m0) (\<lambda>(r, m'). wf_state m' \<and> (r = Inr 0 \<or> r = Inr EXIT_FAILURE) \<and>
     (r = Inr 0 \<longrightarrow> fst (snd (sysfs_read_attr os (wq_path wq @ ''/state'') m'))
        = Some (case action of WQ_ACTION_ENABLE \<Rightarrow> ''enabled'' | WQ_ACTION_DISABLE \<Rightarrow> ''disabled'')))"
proof -
  have args: "parse_options [cmd, name] opts param = Some (Inr ([name], param))" for opts
    using parse_options_args [of "[name]", unfolded positional_def] assms(3) by simp
  have all: "name \<noteq> ''all''" using assms(4) parse_names_all(2) [of os c m0] by auto
  from wq_action_switch_wp [OF assms(1,2,5-10), of action False] obtain rc m'
    where "wq_action_switch os w action False m = Some (rc, m')" "wf_state m'"
      "0 \<le> rc \<longrightarrow> fst (snd (sysfs_read_attr os (wq_path wq @ ''/state'') m'))
        = Some (case action of WQ_ACTION_ENABLE \<Rightarrow> ''enabled'' | WQ_ACTION_DISABLE \<Rightarrow> ''disabled'')" by (auto simp: wp_iff)
  with assms(4) all show ?thesis
    by (cases action) (auto simp: cmd_of_def cmd_defs args no_force EXIT_FAILURE_def)
qed

lemma ex_wq_found: "parse_wq_name fs_os 1 ''dsa0/wq0.0'' (ex_mach k) = Some ((0, 2, 4), ex_mach k)"
proof -
  have names: "scan_parent_child_names ''dsa0/wq0.0'' = Some (Inr (''dsa0'', ''wq0.0''))"
    "scan_device_type_id ''dsa0'' = Some (Inr (''dsa'', 0))" "accfg_device_type_validate ''dsa'' \<noteq> 0" by code_simp+
  from wq_list.parse_child_name_exact [OF ex_mach_wf [of k] ex_discovered names, of fs_os] show ?thesis
    by (simp add: parse_wq_name_def named_def ex_ctx_def ex_dev_def)
qed

theorem cmd_wq_verified_witness:
  "wp (cmd_of WQ_ACTION_ENABLE fs_os [''enable-wq'', ''dsa0/wq0.0''] 1 (ex_mach ex_fs)) (\<lambda>(r, m'). wf_state m' \<and>
     (r = Inr 0 \<or> r = Inr EXIT_FAILURE) \<and>
     (r = Inr 0 \<longrightarrow> fst (snd (sysfs_read_attr fs_os ''/d/dsa0/wq0.0/state'' m')) = Some ''enabled''))"
proof -
  have "devpath_to_devname ''/d/dsa0/wq0.0'' = Some ''wq0.0''" by code_simp
  then show ?thesis
    using ex_wq_found [of ex_fs] cmd_wq_verified [OF fs_os_ok(1) ex_mach_wf, of "''dsa0/wq0.0''" 1 "ex_mach ex_fs" 2 4 ex_fs ex_wq ex_dev "''wq0.0''"
        WQ_ACTION_ENABLE "''enable-wq''"]
    by (simp add: ex_dev_def ex_wq_def)
qed

end
