(* ===== verification/Config_Attr.thy ===== *)
theory Config_Attr
  imports Enable
begin

text \<open>
  The commands that set attributes, \<open>src/accfg/config_attr.c\<close>.  The static parameter structures are the
  variables behind the options; a member that keeps its start value, \<open>UINT_MAX\<close> or \<open>INT_MAX\<close>, means that the
  option was not given.  All checks of an object's parameters come before its first setting.
\<close>

definition DEV_EVL_SIZE_MIN :: int where "DEV_EVL_SIZE_MIN = 64"
definition DEV_EVL_SIZE_MAX :: int where "DEV_EVL_SIZE_MAX = 65535"
definition ACCFG_DEVICE_VERSION_2 :: int where "ACCFG_DEVICE_VERSION_2 = 512"

section \<open>Parameters\<close>

record dev_parameters =
  dp_read_buffer_limit :: int
  dp_event_log_size :: int

record group_parameters =
  gp_read_buffers_reserved :: int
  gp_read_buffers_allowed :: int
  gp_use_read_buffer_limit :: int
  gp_traffic_class_a :: int
  gp_traffic_class_b :: int
  gp_desc_progress_limit :: int
  gp_batch_progress_limit :: int

record wq_parameters =
  wqp_group_id :: int
  wqp_wq_size :: int
  wqp_threshold :: int
  wqp_priority :: int
  wqp_block_on_fault :: int
  wqp_max_batch_size :: int
  wqp_max_transfer_size :: int
  wqp_ats_disable :: int
  wqp_prs_disable :: int
  wqp_mode :: "string option"
  wqp_type :: "string option"
  wqp_name :: "string option"
  wqp_driver_name :: "string option"
  wqp_op_config :: "string option"

record engine_parameters =
  ep_group_id :: int

text \<open>The start values of the four structures, as variables, and the structures the variables make up.\<close>

definition dev_param :: vars where
  "dev_param = (\<lambda>_. VInt 0)(''read_buffer_limit'' := VInt UINT_MAX, ''event_log_size'' := VInt INT_MAX)"

definition group_param :: vars where
  "group_param = (\<lambda>_. VInt 0)(''read_buffers_reserved'' := VInt UINT_MAX, ''read_buffers_allowed'' := VInt UINT_MAX,
     ''use_read_buffer_limit'' := VInt UINT_MAX, ''traffic_class_a'' := VInt INT_MAX, ''traffic_class_b'' := VInt INT_MAX,
     ''desc_progress_limit'' := VInt INT_MAX, ''batch_progress_limit'' := VInt INT_MAX)"

definition wq_param :: vars where
  "wq_param = (\<lambda>_. VStr None)(''group_id'' := VInt INT_MAX, ''wq_size'' := VInt INT_MAX, ''priority'' := VInt INT_MAX,
     ''block_on_fault'' := VInt INT_MAX, ''threshold'' := VInt INT_MAX, ''max_batch_size'' := VInt INT_MAX,
     ''max_transfer_size'' := VInt INT_MAX, ''ats_disable'' := VInt INT_MAX, ''prs_disable'' := VInt INT_MAX)"

definition engine_param :: vars where
  "engine_param = (\<lambda>_. VInt 0)"

definition dev_parameters_of :: "vars \<Rightarrow> dev_parameters" where
  "dev_parameters_of vs = \<lparr>dp_read_buffer_limit = the_int (vs ''read_buffer_limit''),
     dp_event_log_size = the_int (vs ''event_log_size'')\<rparr>"

definition group_parameters_of :: "vars \<Rightarrow> group_parameters" where
  "group_parameters_of vs = \<lparr>gp_read_buffers_reserved = the_int (vs ''read_buffers_reserved''),
     gp_read_buffers_allowed = the_int (vs ''read_buffers_allowed''),
     gp_use_read_buffer_limit = the_int (vs ''use_read_buffer_limit''),
     gp_traffic_class_a = the_int (vs ''traffic_class_a''), gp_traffic_class_b = the_int (vs ''traffic_class_b''),
     gp_desc_progress_limit = the_int (vs ''desc_progress_limit''),
     gp_batch_progress_limit = the_int (vs ''batch_progress_limit'')\<rparr>"

definition wq_parameters_of :: "vars \<Rightarrow> wq_parameters" where
  "wq_parameters_of vs = \<lparr>wqp_group_id = the_int (vs ''group_id''), wqp_wq_size = the_int (vs ''wq_size''),
     wqp_threshold = the_int (vs ''threshold''), wqp_priority = the_int (vs ''priority''),
     wqp_block_on_fault = the_int (vs ''block_on_fault''), wqp_max_batch_size = the_int (vs ''max_batch_size''),
     wqp_max_transfer_size = the_int (vs ''max_transfer_size''), wqp_ats_disable = the_int (vs ''ats_disable''),
     wqp_prs_disable = the_int (vs ''prs_disable''), wqp_mode = the_str (vs ''mode''), wqp_type = the_str (vs ''type''),
     wqp_name = the_str (vs ''name''), wqp_driver_name = the_str (vs ''driver_name''), wqp_op_config = the_str (vs ''op_config'')\<rparr>"

definition engine_parameters_of :: "vars \<Rightarrow> engine_parameters" where
  "engine_parameters_of vs = \<lparr>ep_group_id = the_int (vs ''group_id'')\<rparr>"


section \<open>Settings in order\<close>

text \<open>
  The setters that follow the checks run one after the other; the first negative code is returned.  A
  setting that is not given is left out.
\<close>

fun set_params :: "('k mach \<Rightarrow> ('k, int) run) list \<Rightarrow> 'k mach \<Rightarrow> ('k, int) run" where
  "set_params [] m = Some (0, m)"
| "set_params (f # fs) m = do {
     (rc, m) \<leftarrow> f m;
     if rc < 0 then Some (rc, m) else set_params fs m
   }"

definition given :: "int \<Rightarrow> int \<Rightarrow> (int \<Rightarrow> 'k mach \<Rightarrow> ('k, int) run) \<Rightarrow> ('k mach \<Rightarrow> ('k, int) run) list" where
  "given unset v f = (if v \<noteq> unset then [f v] else [])"

definition given_str :: "string option \<Rightarrow> (string \<Rightarrow> 'k mach \<Rightarrow> ('k, int) run) \<Rightarrow> ('k mach \<Rightarrow> ('k, int) run) list" where
  "given_str s f = (case s of None \<Rightarrow> [] | Some v \<Rightarrow> [f v])"

text \<open>An \<open>unsigned\<close> value goes to the \<open>int\<close> parameter of its setter converted.\<close>

definition accel_config_parse_device_attribs :: "'k os \<Rightarrow> ptr \<Rightarrow> dev_parameters \<Rightarrow> 'k mach \<Rightarrow> ('k, int) run" where
  "accel_config_parse_device_attribs os dev ps m =
     (if dp_event_log_size ps \<noteq> INT_MAX \<and>
         (dp_event_log_size ps < DEV_EVL_SIZE_MIN \<or> dp_event_log_size ps > DEV_EVL_SIZE_MAX) then Some (- EINVAL, m)
      else set_params
        (given UINT_MAX (dp_read_buffer_limit ps) (\<lambda>v. accfg_device_set_read_buffer_limit os dev (s32 v)) @
         given INT_MAX (dp_event_log_size ps) (\<lambda>v. accfg_device_set_event_log_size os dev v)) m)"

definition group_settings :: "'k os \<Rightarrow> ptr \<Rightarrow> group_parameters \<Rightarrow> ('k mach \<Rightarrow> ('k, int) run) list" where
  "group_settings os grp ps =
     given UINT_MAX (gp_use_read_buffer_limit ps) (\<lambda>v. accfg_group_set_use_read_buffer_limit os grp (s32 v)) @
     given UINT_MAX (gp_read_buffers_reserved ps) (\<lambda>v. accfg_group_set_read_buffers_reserved os grp (s32 v)) @
     given UINT_MAX (gp_read_buffers_allowed ps) (\<lambda>v. accfg_group_set_read_buffers_allowed os grp (s32 v)) @
     given INT_MAX (gp_traffic_class_a ps) (accfg_group_set_traffic_class_a os grp) @
     given INT_MAX (gp_traffic_class_b ps) (accfg_group_set_traffic_class_b os grp) @
     given INT_MAX (gp_desc_progress_limit ps) (accfg_group_set_desc_progress_limit os grp) @
     given INT_MAX (gp_batch_progress_limit ps) (accfg_group_set_batch_progress_limit os grp)"

definition accel_config_parse_group_attribs :: "'k os \<Rightarrow> ptr \<Rightarrow> group_parameters \<Rightarrow> 'k mach \<Rightarrow> ('k, int) run" where
  "accel_config_parse_group_attribs os grp ps m = do {
     device \<leftarrow> accfg_group_get_device grp m;
     version \<leftarrow> accfg_device_get_version device m;
     if version < ACCFG_DEVICE_VERSION_2 \<and> (gp_traffic_class_a ps \<noteq> INT_MAX \<or> gp_traffic_class_b ps \<noteq> INT_MAX)
     then Some (- EINVAL, m)
     else if gp_read_buffers_reserved ps \<noteq> UINT_MAX \<and> gp_read_buffers_reserved ps \<ge> UCHAR_MAX then Some (- EINVAL, m)
     else if gp_desc_progress_limit ps \<noteq> INT_MAX \<and> (gp_desc_progress_limit ps < 0 \<or> gp_desc_progress_limit ps > 3)
     then Some (- EINVAL, m)
     else if gp_batch_progress_limit ps \<noteq> INT_MAX \<and> (gp_batch_progress_limit ps < 0 \<or> gp_batch_progress_limit ps > 3)
     then Some (- EINVAL, m)
     else if gp_read_buffers_allowed ps \<noteq> UINT_MAX \<and> gp_read_buffers_allowed ps \<ge> UCHAR_MAX then Some (- EINVAL, m)
     else if gp_use_read_buffer_limit ps > 1 \<and> gp_use_read_buffer_limit ps \<noteq> UINT_MAX then Some (- EINVAL, m)
     else if gp_traffic_class_a ps < 0 \<or> (gp_traffic_class_a ps > 7 \<and> gp_traffic_class_a ps \<noteq> INT_MAX)
     then Some (- EINVAL, m)
     else if gp_traffic_class_b ps < 0 \<or> (gp_traffic_class_b ps > 7 \<and> gp_traffic_class_b ps \<noteq> INT_MAX)
     then Some (- EINVAL, m)
     else set_params (group_settings os grp ps) m
   }"

text \<open>The driver name is validated when its turn comes, after the earlier settings.\<close>

definition set_driver_name :: "'k os \<Rightarrow> ptr \<Rightarrow> string \<Rightarrow> 'k mach \<Rightarrow> ('k, int) run" where
  "set_driver_name os wq name m = do {
     (ok, m) \<leftarrow> accfg_wq_driver_name_validate os wq name m;
     if ok = 0 then Some (- ENOENT, m) else accfg_wq_set_str_driver_name os wq name m
   }"

definition wq_settings :: "'k os \<Rightarrow> ptr \<Rightarrow> wq_parameters \<Rightarrow> ('k mach \<Rightarrow> ('k, int) run) list" where
  "wq_settings os wq ps =
     given_str (wqp_mode ps) (accfg_wq_set_str_mode os wq) @
     given_str (wqp_type ps) (accfg_wq_set_str_type os wq) @
     given_str (wqp_name ps) (accfg_wq_set_str_name os wq) @
     given_str (wqp_driver_name ps) (set_driver_name os wq) @
     given_str (wqp_op_config ps) (\<lambda>v. accfg_wq_set_op_config_str os wq (Some v)) @
     given INT_MAX (wqp_wq_size ps) (\<lambda>v. accfg_wq_set_size os wq (s32 v)) @
     given INT_MAX (wqp_group_id ps) (accfg_wq_set_group_id os wq) @
     given INT_MAX (wqp_priority ps) (\<lambda>v. accfg_wq_set_priority os wq (s32 v)) @
     given INT_MAX (wqp_block_on_fault ps) (accfg_wq_set_block_on_fault os wq) @
     given INT_MAX (wqp_prs_disable ps) (accfg_wq_set_prs_disable os wq) @
     given INT_MAX (wqp_threshold ps) (\<lambda>v. accfg_wq_set_threshold os wq (s32 v)) @
     given INT_MAX (wqp_max_batch_size ps) (\<lambda>v. accfg_wq_set_max_batch_size os wq (s32 v)) @
     given INT_MAX (wqp_max_transfer_size ps) (accfg_wq_set_max_transfer_size os wq) @
     given INT_MAX (wqp_ats_disable ps) (accfg_wq_set_ats_disable os wq)"

definition accel_config_parse_wq_attribs :: "'k os \<Rightarrow> ptr \<Rightarrow> ptr \<Rightarrow> wq_parameters \<Rightarrow> 'k mach \<Rightarrow> ('k, int) run" where
  "accel_config_parse_wq_attribs os device wq ps m =
     (if (case wqp_mode ps of None \<Rightarrow> False | Some s \<Rightarrow> s \<noteq> ''shared'' \<and> s \<noteq> ''dedicated'') then Some (- EINVAL, m)
      else do {
        max_groups \<leftarrow> map_option s32 (accfg_device_get_max_groups device m);
        max_wq_size \<leftarrow> accfg_device_get_max_work_queues_size device m;
        max_batch_size \<leftarrow> accfg_device_get_max_batch_size device m;
        max_transfer_size \<leftarrow> accfg_device_get_max_transfer_size device m;
        if wqp_wq_size ps > max_wq_size \<and> wqp_wq_size ps \<noteq> INT_MAX then Some (- EINVAL, m)
        else if wqp_group_id ps \<ge> max_groups \<and> wqp_group_id ps \<noteq> INT_MAX then Some (- EINVAL, m)
        else if wqp_block_on_fault ps > 1 \<and> wqp_block_on_fault ps \<noteq> INT_MAX then Some (- EINVAL, m)
        else if wqp_prs_disable ps > 1 \<and> wqp_prs_disable ps \<noteq> INT_MAX then Some (- EINVAL, m)
        else if (wqp_max_batch_size ps < 1 \<or> wqp_max_batch_size ps > max_batch_size) \<and> wqp_max_batch_size ps \<noteq> INT_MAX
        then Some (- EINVAL, m)
        else if (wqp_max_transfer_size ps < 1 \<or> wqp_max_transfer_size ps > max_transfer_size) \<and> wqp_max_transfer_size ps \<noteq> INT_MAX
        then Some (- EINVAL, m)
        else if wqp_ats_disable ps > 1 \<and> wqp_ats_disable ps \<noteq> INT_MAX then Some (- EINVAL, m)
        else set_params (wq_settings os wq ps) m
      })"

definition accel_config_parse_engine_attribs :: "'k os \<Rightarrow> ptr \<Rightarrow> ptr \<Rightarrow> engine_parameters \<Rightarrow> 'k mach \<Rightarrow> ('k, int) run" where
  "accel_config_parse_engine_attribs os device engine ps m = do {
     max_groups \<leftarrow> map_option s32 (accfg_device_get_max_groups device m);
     if ep_group_id ps \<ge> max_groups then Some (- EINVAL, m)
     else set_params (given INT_MAX (ep_group_id ps) (accfg_engine_set_group_id os engine)) m
   }"


section \<open>Commands\<close>

definition config_device_options :: "option_rec list" where
  "config_device_options = [OPT_UINTEGER (CHR ''l'') ''read-buffer-limit'' ''read_buffer_limit'',
     OPT_INTEGER (CHR ''e'') ''event-log-size'' ''event_log_size'', OPT_END]"

definition config_group_options :: "option_rec list" where
  "config_group_options =
    [OPT_UINTEGER (CHR ''r'') ''read-buffers-reserved'' ''read_buffers_reserved'',
     OPT_UINTEGER (CHR ''t'') ''read-buffers-allowed'' ''read_buffers_allowed'',
     OPT_UINTEGER (CHR ''l'') ''use-read-buffer-limit'' ''use_read_buffer_limit'',
     OPT_INTEGER (CHR ''a'') ''traffic-class-a'' ''traffic_class_a'',
     OPT_INTEGER (CHR ''b'') ''traffic-class-b'' ''traffic_class_b'',
     OPT_INTEGER (CHR ''d'') ''desc-progress-limit'' ''desc_progress_limit'',
     OPT_INTEGER (CHR ''p'') ''batch-progress-limit'' ''batch_progress_limit'', OPT_END]"

definition config_wq_options :: "option_rec list" where
  "config_wq_options =
    [OPT_INTEGER (CHR ''g'') ''group-id'' ''group_id'', OPT_UINTEGER (CHR ''s'') ''wq-size'' ''wq_size'',
     OPT_UINTEGER (CHR ''p'') ''priority'' ''priority'', OPT_INTEGER (CHR ''b'') ''block-on-fault'' ''block_on_fault'',
     OPT_INTEGER (CHR ''r'') ''prs-disable'' ''prs_disable'', OPT_UINTEGER (CHR ''t'') ''threshold'' ''threshold'',
     OPT_STRING (CHR ''y'') ''type'' ''type'', OPT_STRING (CHR ''n'') ''name'' ''name'',
     OPT_STRING (CHR ''d'') ''driver-name'' ''driver_name'', OPT_STRING (CHR ''o'') ''op-config'' ''op_config'',
     OPT_STRING (CHR ''m'') ''mode'' ''mode'', OPT_UINTEGER (CHR ''c'') ''max-batch-size'' ''max_batch_size'',
     OPT_U64 (CHR ''x'') ''max-transfer-size'' ''max_transfer_size'',
     OPT_INTEGER (CHR ''a'') ''ats-disable'' ''ats_disable'', OPT_END]"

definition config_engine_options :: "option_rec list" where
  "config_engine_options = [OPT_INTEGER (CHR ''g'') ''group-id'' ''group_id'', OPT_END]"

text \<open>
  The loop over the names that the four commands share: a name that is not found is skipped, a code for
  which \<open>stop\<close> holds is returned.  \<open>look\<close> answers a code and the object.
\<close>

fun config_loop ::
  "(string \<Rightarrow> 'k mach \<Rightarrow> ('k, int \<times> 'p) run) \<Rightarrow> ('p \<Rightarrow> 'k mach \<Rightarrow> ('k, int) run) \<Rightarrow> (int \<Rightarrow> bool) \<Rightarrow> string list \<Rightarrow> 'k mach \<Rightarrow> ('k, int) run" where
  "config_loop look attribs stop [] m = Some (0, m)"
| "config_loop look attribs stop (name # names) m = do {
     ((err, obj), m) \<leftarrow> look name m;
     if err \<noteq> 0 then config_loop look attribs stop names m
     else do {
       (rc, m) \<leftarrow> attribs obj m;
       if stop rc then Some (rc, m) else config_loop look attribs stop names m
     }
   }"

text \<open>With no name an error is printed and the loop does nothing.\<close>

definition config_cmd ::
  "option_rec list \<Rightarrow> vars \<Rightarrow> string list \<Rightarrow> (vars \<Rightarrow> string list \<Rightarrow> 'k mach \<Rightarrow> ('k, int) run) \<Rightarrow> 'k mach \<Rightarrow> 'k cmd_run" where
  "config_cmd options vs argv run m = do {
     r \<leftarrow> parse_options argv options vs;
     case r of
       Inl status \<Rightarrow> Some (Inl status, m)
     | Inr (args, vs) \<Rightarrow> do { (rc, m) \<leftarrow> run vs (all_args args) m; Some (Inr rc, m) }
   }"

definition cmd_config_device :: "'k os \<Rightarrow> string list \<Rightarrow> ptr \<Rightarrow> 'k mach \<Rightarrow> 'k cmd_run" where
  "cmd_config_device os argv ctx = config_cmd config_device_options dev_param argv (\<lambda>vs.
     config_loop (parse_device_name os ctx)
       (\<lambda>d. accel_config_parse_device_attribs os d (dev_parameters_of vs)) (\<lambda>rc. rc \<noteq> 0))"

definition cmd_config_group :: "'k os \<Rightarrow> string list \<Rightarrow> ptr \<Rightarrow> 'k mach \<Rightarrow> 'k cmd_run" where
  "cmd_config_group os argv ctx = config_cmd config_group_options group_param argv (\<lambda>vs.
     config_loop (parse_group_name os ctx)
       (\<lambda>(_, g). accel_config_parse_group_attribs os g (group_parameters_of vs)) (\<lambda>rc. rc < 0))"

definition cmd_config_wq :: "'k os \<Rightarrow> string list \<Rightarrow> ptr \<Rightarrow> 'k mach \<Rightarrow> 'k cmd_run" where
  "cmd_config_wq os argv ctx = config_cmd config_wq_options wq_param argv (\<lambda>vs.
     config_loop (parse_wq_name os ctx)
       (\<lambda>(d, w). accel_config_parse_wq_attribs os d w (wq_parameters_of vs)) (\<lambda>rc. rc < 0))"

definition cmd_config_engine :: "'k os \<Rightarrow> string list \<Rightarrow> ptr \<Rightarrow> 'k mach \<Rightarrow> 'k cmd_run" where
  "cmd_config_engine os argv ctx = config_cmd config_engine_options engine_param argv (\<lambda>vs.
     config_loop (parse_engine_name os ctx)
       (\<lambda>(d, e). accel_config_parse_engine_attribs os d e (engine_parameters_of vs)) (\<lambda>rc. rc \<noteq> 0))"


section \<open>Lists of settings\<close>

lemma set_params_wp:
  assumes "os_ok os" "wf_state m" "obj m p = Some x" "list_all2 (setting os obj p) fs sts"
  shows "wp (set_params fs m) (\<lambda>(rc, m'). wf_state m' \<and> rc \<le> 0 \<and> (\<forall>q. q \<noteq> p \<longrightarrow> obj m' q = obj m q) \<and>
     (rc = 0 \<longrightarrow> obj m' p = Some (fold (\<lambda>st. st) sts x)))"
  using assms(4,2,3)
proof (induction arbitrary: m x rule: list_all2_induct)
  case (Cons f fs st sts)
  from Cons.hyps(1) Cons.prems assms(1) obtain rc m1 where m1: "f m = Some (rc, m1)" "wf_state m1" "rc \<le> 0"
    "obj m1 = (obj m)(p \<mapsto> if rc = 0 then st x else x)" by (fastforce simp: setting_def wp_iff)
  show ?case
  proof (cases "rc < 0")
    case False
    with m1 have "obj m1 p = Some (st x)" by simp
    from Cons.IH [OF m1(2) this] m1 False show ?thesis by (auto elim!: wp_mono)
  qed (use m1 in auto)
qed simp


text \<open>The change of a setting that may not be given.\<close>

definition changed :: "int \<Rightarrow> int \<Rightarrow> (int \<Rightarrow> 'o \<Rightarrow> 'o) \<Rightarrow> ('o \<Rightarrow> 'o) list" where
  "changed unset v st = (if v \<noteq> unset then [st v] else [])"

lemma given_settings:
  "(\<And>v. setting os obj p (f v) (st v)) \<Longrightarrow> list_all2 (setting os obj p) (given unset v f) (changed unset v st)"
  by (simp add: given_def changed_def)

lemma group_given:
  assumes "length field < 127" "\<And>v x. group_links (store v x) = group_links x"
  shows "list_all2 (setting os groups g) (given unset v (accfg_group_set_field os field store g)) (changed unset v store)"
    "list_all2 (setting os groups g) (given unset v (\<lambda>v. accfg_group_set_field os field store g (s32 v))) (changed unset v (\<lambda>v. store (s32 v)))"
  by (rule given_settings, rule attr_setter.setting [OF group_attr_setter [OF assms]])+

text \<open>The changes the settings of a group make, in order.\<close>

definition group_changes :: "group_parameters \<Rightarrow> (accfg_group \<Rightarrow> accfg_group) list" where
  "group_changes ps =
     changed UINT_MAX (gp_use_read_buffer_limit ps) (\<lambda>v g. g\<lparr>grp_use_read_buffer_limit := u32 (s32 v)\<rparr>) @
     changed UINT_MAX (gp_read_buffers_reserved ps) (\<lambda>v g. g\<lparr>grp_read_buffers_reserved := u32 (s32 v)\<rparr>) @
     changed UINT_MAX (gp_read_buffers_allowed ps) (\<lambda>v g. g\<lparr>grp_read_buffers_allowed := u32 (s32 v)\<rparr>) @
     changed INT_MAX (gp_traffic_class_a ps) (\<lambda>v g. g\<lparr>grp_traffic_class_a := v\<rparr>) @
     changed INT_MAX (gp_traffic_class_b ps) (\<lambda>v g. g\<lparr>grp_traffic_class_b := v\<rparr>) @
     changed INT_MAX (gp_desc_progress_limit ps) (\<lambda>v g. g\<lparr>grp_desc_progress_limit := u32 v\<rparr>) @
     changed INT_MAX (gp_batch_progress_limit ps) (\<lambda>v g. g\<lparr>grp_batch_progress_limit := u32 v\<rparr>)"

lemma group_settings_ok: "list_all2 (setting os groups g) (group_settings os g ps) (group_changes ps)"
  unfolding group_settings_def group_changes_def accfg_group_set_use_read_buffer_limit_def accfg_group_set_read_buffers_reserved_def
    accfg_group_set_read_buffers_allowed_def accfg_group_set_traffic_class_a_def accfg_group_set_traffic_class_b_def
    accfg_group_set_desc_progress_limit_def accfg_group_set_batch_progress_limit_def
  by (intro list_all2_appendI group_given; simp add: group_links_def)


section \<open>What a valid request is\<close>

text \<open>A value that is absent or between two bounds.\<close>

definition absent_or :: "int \<Rightarrow> int \<Rightarrow> int \<Rightarrow> int \<Rightarrow> bool" where
  "absent_or unset lo hi v \<longleftrightarrow> v = unset \<or> lo \<le> v \<and> v \<le> hi"

definition group_request_ok :: "int \<Rightarrow> group_parameters \<Rightarrow> bool" where
  "group_request_ok version ps \<longleftrightarrow>
     absent_or UINT_MAX 0 254 (gp_read_buffers_reserved ps) \<and> absent_or UINT_MAX 0 254 (gp_read_buffers_allowed ps) \<and>
     absent_or UINT_MAX 0 1 (gp_use_read_buffer_limit ps) \<and>
     absent_or INT_MAX 0 7 (gp_traffic_class_a ps) \<and> absent_or INT_MAX 0 7 (gp_traffic_class_b ps) \<and>
     absent_or INT_MAX 0 3 (gp_desc_progress_limit ps) \<and> absent_or INT_MAX 0 3 (gp_batch_progress_limit ps) \<and>
     (version < ACCFG_DEVICE_VERSION_2 \<longrightarrow> gp_traffic_class_a ps = INT_MAX \<and> gp_traffic_class_b ps = INT_MAX)"

text \<open>The group a successful request leaves: the values given replace the cached ones.\<close>

definition request :: "int \<Rightarrow> int \<Rightarrow> int \<Rightarrow> int" where
  "request unset v old = (if v = unset then old else v)"

definition group_with :: "group_parameters \<Rightarrow> accfg_group \<Rightarrow> accfg_group" where
  "group_with ps g = g\<lparr>
     grp_use_read_buffer_limit := request UINT_MAX (gp_use_read_buffer_limit ps) (grp_use_read_buffer_limit g),
     grp_read_buffers_reserved := request UINT_MAX (gp_read_buffers_reserved ps) (grp_read_buffers_reserved g),
     grp_read_buffers_allowed := request UINT_MAX (gp_read_buffers_allowed ps) (grp_read_buffers_allowed g),
     grp_traffic_class_a := request INT_MAX (gp_traffic_class_a ps) (grp_traffic_class_a g),
     grp_traffic_class_b := request INT_MAX (gp_traffic_class_b ps) (grp_traffic_class_b g),
     grp_desc_progress_limit := request INT_MAX (gp_desc_progress_limit ps) (grp_desc_progress_limit g),
     grp_batch_progress_limit := request INT_MAX (gp_batch_progress_limit ps) (grp_batch_progress_limit g)\<rparr>"

lemma fold_changed: "fold (\<lambda>st. st) (changed unset v st) g = (if v = unset then g else st v g)"
  by (simp add: changed_def)

lemma request_stored:
  "absent_or UINT_MAX 0 hi v \<Longrightarrow> hi \<le> 254 \<Longrightarrow> v \<noteq> UINT_MAX \<Longrightarrow> u32 v = v"
  "absent_or INT_MAX 0 hi v \<Longrightarrow> hi \<le> 254 \<Longrightarrow> v \<noteq> INT_MAX \<Longrightarrow> u32 v = v"
  by (auto simp: absent_or_def u32_id)

lemma request_fields:
  "absent_or UINT_MAX 0 1 v \<Longrightarrow> (if v = UINT_MAX then g else g\<lparr>grp_use_read_buffer_limit := u32 v\<rparr>)
     = g\<lparr>grp_use_read_buffer_limit := request UINT_MAX v (grp_use_read_buffer_limit g)\<rparr>"
  "absent_or UINT_MAX 0 254 v \<Longrightarrow> (if v = UINT_MAX then g else g\<lparr>grp_read_buffers_reserved := u32 v\<rparr>)
     = g\<lparr>grp_read_buffers_reserved := request UINT_MAX v (grp_read_buffers_reserved g)\<rparr>"
  "absent_or UINT_MAX 0 254 v \<Longrightarrow> (if v = UINT_MAX then g else g\<lparr>grp_read_buffers_allowed := u32 v\<rparr>)
     = g\<lparr>grp_read_buffers_allowed := request UINT_MAX v (grp_read_buffers_allowed g)\<rparr>"
  "(if v = INT_MAX then g else g\<lparr>grp_traffic_class_a := v\<rparr>) = g\<lparr>grp_traffic_class_a := request INT_MAX v (grp_traffic_class_a g)\<rparr>"
  "(if v = INT_MAX then g else g\<lparr>grp_traffic_class_b := v\<rparr>) = g\<lparr>grp_traffic_class_b := request INT_MAX v (grp_traffic_class_b g)\<rparr>"
  "absent_or INT_MAX 0 3 v \<Longrightarrow> (if v = INT_MAX then g else g\<lparr>grp_desc_progress_limit := u32 v\<rparr>)
     = g\<lparr>grp_desc_progress_limit := request INT_MAX v (grp_desc_progress_limit g)\<rparr>"
  "absent_or INT_MAX 0 3 v \<Longrightarrow> (if v = INT_MAX then g else g\<lparr>grp_batch_progress_limit := u32 v\<rparr>)
     = g\<lparr>grp_batch_progress_limit := request INT_MAX v (grp_batch_progress_limit g)\<rparr>"
  by (simp_all add: request_def request_stored)

lemma fold_group_changes:
  assumes "group_request_ok version ps"
  shows "fold (\<lambda>st. st) (group_changes ps) g = group_with ps g"
  using assms
  by (simp only: group_request_ok_def group_changes_def group_with_def fold_append comp_apply fold_changed u32_s32 request_fields simp_thms) simp

text \<open>The checks of the code, as the ranges of a request.\<close>

lemma range_checks:
  "0 \<le> v \<Longrightarrow> v \<noteq> UINT_MAX \<and> v \<ge> UCHAR_MAX \<longleftrightarrow> \<not> absent_or UINT_MAX 0 254 v"
  "0 \<le> v \<Longrightarrow> v > 1 \<and> v \<noteq> UINT_MAX \<longleftrightarrow> \<not> absent_or UINT_MAX 0 1 v"
  "v \<noteq> INT_MAX \<and> (v < 0 \<or> v > 3) \<longleftrightarrow> \<not> absent_or INT_MAX 0 3 v"
  "v < 0 \<or> (v > 7 \<and> v \<noteq> INT_MAX) \<longleftrightarrow> \<not> absent_or INT_MAX 0 7 v"
  by (auto simp: absent_or_def c_limits)

lemma if_chain: "(if a then x else if b then x else y) = (if a \<or> b then x else y)"
  by simp

lemma accel_config_parse_group_attribs_checked:
  assumes "groups m g = Some gr" "devices m (grp_device gr) = Some dv"
    and "0 \<le> gp_read_buffers_reserved ps" "0 \<le> gp_read_buffers_allowed ps" "0 \<le> gp_use_read_buffer_limit ps"
  shows "accel_config_parse_group_attribs os g ps m =
     (if group_request_ok (dev_version dv) ps then set_params (group_settings os g ps) m else Some (- EINVAL, m))"
proof -
  have dev: "accfg_group_get_device g m = Some (grp_device gr)" "accfg_device_get_version (grp_device gr) m = Some (dev_version dv)"
    using assms(1,2) by (simp_all add: accfg_group_get_device_def accfg_device_get_version_def)
  show ?thesis
    unfolding accel_config_parse_group_attribs_def dev bind.bind_lunit if_chain group_request_ok_def
      range_checks(1) [OF assms(3)] range_checks(1) [OF assms(4)] range_checks(2) [OF assms(5)] range_checks(3,4)
    by auto
qed

section \<open>Properties\<close>

text \<open>
  C5: configuring a group is checked as a whole before it is started: a request with a value out of range,
  or with a traffic class on a device of version 1, answers \<open>-EINVAL\<close> and changes nothing, the kernel
  included; any other request is defined, keeps the graph well-formed and every other group unchanged, and
  when it answers 0 the group caches exactly the values given, in place of the old ones.
\<close>

theorem config_group_effect:
  assumes "os_ok os" "wf_state m" "groups m g = Some gr" "devices m (grp_device gr) = Some dv"
    and "0 \<le> gp_read_buffers_reserved ps" "0 \<le> gp_read_buffers_allowed ps" "0 \<le> gp_use_read_buffer_limit ps"
  shows "wp (accel_config_parse_group_attribs os g ps m) (\<lambda>(rc, m').
     if group_request_ok (dev_version dv) ps
     then wf_state m' \<and> rc \<le> 0 \<and> (\<forall>q. q \<noteq> g \<longrightarrow> groups m' q = groups m q) \<and>
        (rc = 0 \<longrightarrow> groups m' g = Some (group_with ps gr))
     else rc = - EINVAL \<and> m' = m)"
  using set_params_wp [OF assms(1-3) group_settings_ok, of ps]
  by (cases "group_request_ok (dev_version dv) ps")
    (simp_all add: accel_config_parse_group_attribs_checked [OF assms(3-7)] fold_group_changes [where version = "dev_version dv"])

definition ex_request :: group_parameters where
  "ex_request = (group_parameters_of group_param)\<lparr>gp_read_buffers_allowed := 8\<rparr>"

theorem config_group_effect_witness:
  "wp (accel_config_parse_group_attribs fs_os 3 ex_request (ex_mach ex_fs)) (\<lambda>(rc, m').
     wf_state m' \<and> rc \<le> 0 \<and> (\<forall>q. q \<noteq> 3 \<longrightarrow> groups m' q = groups (ex_mach ex_fs) q) \<and>
     (rc = 0 \<longrightarrow> groups m' 3 = Some (ex_grp\<lparr>grp_read_buffers_allowed := 8\<rparr>)))
   \<and> accel_config_parse_group_attribs fs_os 3 (ex_request\<lparr>gp_traffic_class_a := 2\<rparr>) (ex_mach ex_fs) = Some (- EINVAL, ex_mach ex_fs)"
proof -
  have "group_request_ok 256 ex_request" "\<not> group_request_ok 256 (ex_request\<lparr>gp_traffic_class_a := 2\<rparr>)"
    "group_with ex_request ex_grp = ex_grp\<lparr>grp_read_buffers_allowed := 8\<rparr>"
    by (simp_all add: group_request_ok_def ex_request_def group_parameters_of_def group_param_def the_int_def absent_or_def
        ACCFG_DEVICE_VERSION_2_def c_limits group_with_def request_def)
  moreover have "0 \<le> gp_read_buffers_reserved ex_request" "0 \<le> gp_read_buffers_allowed ex_request" "0 \<le> gp_use_read_buffer_limit ex_request"
    by (simp_all add: ex_request_def group_parameters_of_def group_param_def the_int_def c_limits)
  ultimately show ?thesis
    using config_group_effect [OF fs_os_ok(1) ex_mach_wf, of ex_fs 3 ex_grp ex_dev ex_request]
      config_group_effect [OF fs_os_ok(1) ex_mach_wf, of ex_fs 3 ex_grp ex_dev "ex_request\<lparr>gp_traffic_class_a := 2\<rparr>"]
    by (simp add: ex_grp_def ex_dev_def wp_iff)
qed

lemma config_wq_default:
  "devices m d = Some dv \<Longrightarrow> accel_config_parse_wq_attribs os d w (wq_parameters_of wq_param) m = Some (0, m)"
  by (simp add: accel_config_parse_wq_attribs_def accfg_device_get_max_groups_def accfg_device_get_max_work_queues_size_def
      accfg_device_get_max_batch_size_def accfg_device_get_max_transfer_size_def wq_settings_def wq_parameters_of_def
      wq_param_def given_def given_str_def the_int_def the_str_def c_limits)

lemma config_without_options_each:
  assumes "take 1 name \<noteq> ''-''" "name \<noteq> ''all''" "wf_state m"
  shows "parse_device_name os ctx name m = Some ((0, d), m) \<Longrightarrow> cmd_config_device os [cmd, name] ctx m = Some (Inr 0, m)"
    and "parse_group_name os ctx name m = Some ((0, d, g), m) \<Longrightarrow> groups m g = Some gr \<Longrightarrow> cmd_config_group os [cmd, name] ctx m = Some (Inr 0, m)"
    and "parse_wq_name os ctx name m = Some ((0, d, w), m) \<Longrightarrow> devices m d = Some dv \<Longrightarrow> cmd_config_wq os [cmd, name] ctx m = Some (Inr 0, m)"
    and "parse_engine_name os ctx name m = Some ((0, d, e), m) \<Longrightarrow> devices m d = Some dv \<Longrightarrow> 0 < s32 (dev_max_groups dv) \<Longrightarrow>
      cmd_config_engine os [cmd, name] ctx m = map_option (\<lambda>(rc, m'). (Inr (if rc < 0 then rc else 0), m')) (accfg_engine_set_group_id os e 0 m)"
proof -
  have args: "parse_options [cmd, name] opts vs = Some (Inr ([name], vs))" for opts vs
    using parse_options_args [of "[name]", unfolded positional_def] assms(1) by simp
  have names: "all_args [name] = [name]" using assms(2) by (simp add: all_args_def)
  note defs = config_cmd_def args names given_def given_str_def the_int_def the_str_def c_limits
  show "cmd_config_device os [cmd, name] ctx m = Some (Inr 0, m)" if "parse_device_name os ctx name m = Some ((0, d), m)"
    using that by (simp add: cmd_config_device_def accel_config_parse_device_attribs_def dev_parameters_of_def dev_param_def defs)
  show "cmd_config_group os [cmd, name] ctx m = Some (Inr 0, m)"
    if p: "parse_group_name os ctx name m = Some ((0, d, g), m)" "groups m g = Some gr"
  proof -
    obtain dv where d: "devices m (grp_device gr) = Some dv" using wf_group(2) [OF assms(3) p(2)] by blast
    have "accel_config_parse_group_attribs os g (group_parameters_of group_param) m = Some (0, m)"
      using p(2) d by (simp add: accel_config_parse_group_attribs_def accfg_group_get_device_def accfg_device_get_version_def
          group_settings_def group_parameters_of_def group_param_def defs)
    with p(1) show ?thesis by (simp add: cmd_config_group_def config_cmd_def args names)
  qed
  show "cmd_config_wq os [cmd, name] ctx m = Some (Inr 0, m)"
    if p: "parse_wq_name os ctx name m = Some ((0, d, w), m)" "devices m d = Some dv"
  proof -
    have "accel_config_parse_wq_attribs os d w (wq_parameters_of wq_param) m = Some (0, m)" by (rule config_wq_default [OF p(2)])
    with p(1) show ?thesis by (simp add: cmd_config_wq_def config_cmd_def args names)
  qed
  show "cmd_config_engine os [cmd, name] ctx m = map_option (\<lambda>(rc, m'). (Inr (if rc < 0 then rc else 0), m')) (accfg_engine_set_group_id os e 0 m)"
    if p: "parse_engine_name os ctx name m = Some ((0, d, e), m)" "devices m d = Some dv" "0 < s32 (dev_max_groups dv)"
    using p by (cases "accfg_engine_set_group_id os e 0 m")
      (auto simp: cmd_config_engine_def accel_config_parse_engine_attribs_def accfg_device_get_max_groups_def
        engine_parameters_of_def engine_param_def defs)
qed

text \<open>
  what the commands do with a name and no option.  \<open>config-device\<close>, \<open>config-group\<close> and \<open>config-wq\<close>
  leave everything as it is and answer 0; \<open>config-engine\<close> moves the engine to group 0, because the start
  value of its only parameter is 0 and not the value that stands for an option that was not given.
\<close>

lemma config_without_options:
  assumes "take 1 name \<noteq> ''-''" "name \<noteq> ''all''" "wf_state m"
  shows "(parse_device_name os ctx name m = Some ((0, d), m) \<longrightarrow> cmd_config_device os [cmd, name] ctx m = Some (Inr 0, m)) \<and>
    (parse_group_name os ctx name m = Some ((0, d, g), m) \<and> groups m g = Some gr
       \<longrightarrow> cmd_config_group os [cmd, name] ctx m = Some (Inr 0, m)) \<and>
    (parse_wq_name os ctx name m = Some ((0, d, w), m) \<and> devices m d = Some dv
       \<longrightarrow> cmd_config_wq os [cmd, name] ctx m = Some (Inr 0, m)) \<and>
    (parse_engine_name os ctx name m = Some ((0, d, e), m) \<and> devices m d = Some dv \<and> 0 < s32 (dev_max_groups dv)
       \<longrightarrow> cmd_config_engine os [cmd, name] ctx m
          = map_option (\<lambda>(rc, m'). (Inr (if rc < 0 then rc else 0), m')) (accfg_engine_set_group_id os e 0 m))"
  using config_without_options_each [OF assms, of os ctx] by blast

lemma config_without_options_example:
  "cmd_config_device fs_os [''config-device'', ''dsa0''] 1 (ex_mach ex_fs) = Some (Inr 0, ex_mach ex_fs)
   \<and> cmd_config_engine fs_os [''config-engine'', ''dsa0/engine0.0''] 1 (ex_mach ex_fs)
      = map_option (\<lambda>(rc, m'). (Inr (if rc < 0 then rc else 0), m')) (accfg_engine_set_group_id fs_os 5 0 (ex_mach ex_fs))"
proof -
  have names: "scan_parent_child_names ''dsa0/engine0.0'' = Some (Inr (''dsa0'', ''engine0.0''))"
    "scan_device_type_id ''dsa0'' = Some (Inr (''dsa'', 0))" "accfg_device_type_validate ''dsa'' \<noteq> 0" by code_simp+
  have "parse_engine_name fs_os 1 ''dsa0/engine0.0'' (ex_mach ex_fs) = Some ((0, 2, 5), ex_mach ex_fs)"
    using engine_list.parse_child_name_exact [OF ex_mach_wf [of ex_fs] ex_discovered names, of fs_os]
    by (simp add: parse_engine_name_def named_def ex_ctx_def ex_dev_def)
  then show ?thesis
    using config_without_options [of "''dsa0''" "ex_mach ex_fs" fs_os 1 2 "''config-device''" 0 ex_grp 0 ex_dev 0] ex_device_name [of ex_fs]
      config_without_options [of "''dsa0/engine0.0''" "ex_mach ex_fs" fs_os 1 2 "''config-engine''" 0 ex_grp 0 ex_dev 5]
    by (simp add: ex_mach_wf ex_dev_def s32_id)
qed

lemma config_wq_options_split:
  obtains pre post x where "opts_of config_wq_options = pre @ x # post" "o_long x = Some ''max-transfer-size''"
    "conv_of (o_type x) = Some conv_u64" "\<not> OPTARG (o_flags x)" "o_value x = ''max_transfer_size''"
    "list_all (no_full_match (''max-transfer-size'' @ ''='' @ v)) pre"
proof
  show "opts_of config_wq_options = take 12 config_wq_options @ (config_wq_options ! 12) # [config_wq_options ! 13]"
    "o_long (config_wq_options ! 12) = Some ''max-transfer-size''" "conv_of (o_type (config_wq_options ! 12)) = Some conv_u64"
    "\<not> OPTARG (o_flags (config_wq_options ! 12))" "o_value (config_wq_options ! 12) = ''max_transfer_size''"
    by (simp_all add: config_wq_options_def opts_of_def OPT_def OPT_END_def OPT_INTEGER_def OPT_UINTEGER_def OPT_STRING_def OPT_U64_def
        conv_of_def no_flags_def)
  show "list_all (no_full_match (''max-transfer-size'' @ ''='' @ v)) (take 12 config_wq_options)"
    by (simp add: config_wq_options_def OPT_def OPT_INTEGER_def OPT_UINTEGER_def OPT_STRING_def
        no_full_match_def match_long_def skip_prefix_def prefixcmp.simps strncmp_eq_def Let_def)
qed

text \<open>
  a maximum transfer size of 2147483647 bytes, which the device may support, cannot be configured: the
  value stands for an option that was not given, so \<open>config-wq\<close> sets nothing and answers 0.
\<close>

lemma config_wq_transfer_size_ignored:
  assumes "take 1 name \<noteq> ''-''" "name \<noteq> ''all''"
    and "parse_wq_name os ctx name m = Some ((0, d, w), m')" "devices m' d = Some dv"
  shows "cmd_config_wq os [cmd, name, ''--max-transfer-size=2147483647''] ctx m = Some (Inr 0, m')"
proof -
  have "conv_u64 ''2147483647'' = (2147483647, [])"
    by (simp add: conv_u64_def strtoull_def scan_number_def scan_sign_def skip_ws_def isspace_def scan_base_def has_digit_def digit_val_def
        Let_def c_limits u64_id)
  moreover have "wq_param(''max_transfer_size'' := VInt 2147483647) = wq_param" by (rule fun_upd_idem) (simp add: wq_param_def INT_MAX_def)
  moreover have "positional name" using assms(1) by (simp add: positional_def)
  moreover obtain pre post x where x: "opts_of config_wq_options = pre @ x # post" "o_long x = Some ''max-transfer-size''"
    "conv_of (o_type x) = Some conv_u64" "\<not> OPTARG (o_flags x)" "o_value x = ''max_transfer_size''"
    "list_all (no_full_match (''max-transfer-size'' @ ''='' @ ''2147483647'')) pre" by (rule config_wq_options_split)
  ultimately have "parse_options [cmd, name, ''--max-transfer-size=2147483647''] config_wq_options wq_param = Some (Inr ([name], wq_param))"
    using parse_options_number [OF x(1-4,6), of "[name]" cmd wq_param] by simp
  with assms(2,3) config_wq_default [OF assms(4)] show ?thesis
    by (simp add: cmd_config_wq_def config_cmd_def all_args_def)
qed

lemma config_wq_transfer_size_ignored_example:
  "cmd_config_wq fs_os [''config-wq'', ''dsa0/wq0.0'', ''--max-transfer-size=2147483647''] 1 (ex_mach ex_fs) = Some (Inr 0, ex_mach ex_fs)
   \<and> accfg_device_get_max_transfer_size 2 (ex_mach ex_fs) = Some 2147483648"
  using config_wq_transfer_size_ignored [OF _ _ ex_wq_found, of ex_fs ex_dev "''config-wq''"]
  by (simp add: accfg_device_get_max_transfer_size_def ex_dev_def)

end
