(* ===== verification/Json_Set.thy ===== *)
theory Json_Set
  imports Config_Attr
begin

text \<open>
  How \<open>src/accfg/config.c\<close> sets an attribute to a value of a configuration file: the tables of attributes and
  setters, the checks whether an attribute can be written, and the four functions that look an attribute up
  and set it.  The values are those of the json-c library, a parameter: a type \<open>'v\<close> with the functions of the
  library that the program calls on what the parser built.
\<close>

section \<open>The interface of the JSON library\<close>

datatype json_type =
    json_type_null | json_type_boolean | json_type_double | json_type_int
  | json_type_object | json_type_array | json_type_string

text \<open>
  A null pointer is a value of type \<open>json_type_null\<close>.  The readers of numbers pair the value with the error
  number they set, if any.  The parser gets a C string, the characters up to the first NUL, and answers the null
  pointer when they are no JSON.  \<open>js_behind\<close> is what the memory holds behind the buffer of the text that is parsed,
  which is filled to its end without a NUL.
\<close>

record 'v json_ops =
  js_type :: "'v \<Rightarrow> json_type"
  js_members :: "'v \<Rightarrow> (string \<times> 'v) list"
  js_elements :: "'v \<Rightarrow> 'v list"
  js_int :: "'v \<Rightarrow> int \<times> int option"
  js_int64 :: "'v \<Rightarrow> int \<times> int option"
  js_string :: "'v \<Rightarrow> string option"
  js_parse :: "string \<Rightarrow> 'v option"
  js_behind :: string

definition json_null :: "'v json_ops \<Rightarrow> 'v \<Rightarrow> bool" where
  "json_null js v \<longleftrightarrow> js_type js v = json_type_null"

text \<open>\<open>errno = 0\<close> and the read of a number.\<close>

definition get_number_errno :: "(int \<times> int option) \<Rightarrow> 'k mach \<Rightarrow> int \<times> 'k mach" where
  "get_number_errno r m = (fst r, m\<lparr>errno := (case snd r of None \<Rightarrow> 0 | Some e \<Rightarrow> e)\<rparr>)"


section \<open>Which attributes can be written\<close>

definition is_group_read_buffer_limit_writable :: "ptr \<Rightarrow> int \<Rightarrow> 'k mach \<Rightarrow> ('k, bool) run" where
  "is_group_read_buffer_limit_writable grp val m = do {
     dev \<leftarrow> accfg_group_get_device grp m;
     read_buffer_limit \<leftarrow> accfg_device_get_read_buffer_limit dev m;
     Some (u32 read_buffer_limit \<noteq> 0, m)
   }"

definition is_group_read_buffer_attribs_writable :: "ptr \<Rightarrow> int \<Rightarrow> 'k mach \<Rightarrow> ('k, bool) run" where
  "is_group_read_buffer_attribs_writable grp val m = Some (val \<noteq> -1, m)"

definition is_group_desc_progress_limit_writable :: "ptr \<Rightarrow> int \<Rightarrow> 'k mach \<Rightarrow> ('k, bool) run" where
  "is_group_desc_progress_limit_writable grp val m =
     (if val < 0 \<or> val > 3 then Some (False, m)
      else do { v \<leftarrow> accfg_group_get_desc_progress_limit grp m; Some (\<not> v < 0, m) })"

definition is_group_batch_progress_limit_writable :: "ptr \<Rightarrow> int \<Rightarrow> 'k mach \<Rightarrow> ('k, bool) run" where
  "is_group_batch_progress_limit_writable grp val m =
     (if val < 0 \<or> val > 3 then Some (False, m)
      else do { v \<leftarrow> accfg_group_get_batch_progress_limit grp m; Some (\<not> v < 0, m) })"

definition is_group_traffic_class_writable :: "ptr \<Rightarrow> int \<Rightarrow> 'k mach \<Rightarrow> ('k, bool) run" where
  "is_group_traffic_class_writable grp val m = do {
     device \<leftarrow> accfg_group_get_device grp m;
     version \<leftarrow> accfg_device_get_version device m;
     Some (if version < ACCFG_DEVICE_VERSION_2 then False else val \<noteq> -1, m)
   }"

definition is_wq_threshold_writable :: "'k os \<Rightarrow> ptr \<Rightarrow> int \<Rightarrow> 'k mach \<Rightarrow> ('k, bool) run" where
  "is_wq_threshold_writable os wq val m = do {
     (mode, m) \<leftarrow> accfg_wq_get_mode os wq m;
     Some (mode \<noteq> ACCFG_WQ_DEDICATED, m)
   }"

definition is_wq_prs_disable_writable :: "ptr \<Rightarrow> int \<Rightarrow> 'k mach \<Rightarrow> ('k, bool) run" where
  "is_wq_prs_disable_writable wq val m =
     (if val < 0 \<or> val > 1 then Some (False, m)
      else do { v \<leftarrow> accfg_wq_get_prs_disable wq m; Some (\<not> v < 0, m) })"

definition is_wq_ats_disable_writable :: "ptr \<Rightarrow> int \<Rightarrow> 'k mach \<Rightarrow> ('k, bool) run" where
  "is_wq_ats_disable_writable wq val m =
     (if val < 0 \<or> val > 1 then Some (False, m)
      else do { v \<leftarrow> accfg_wq_get_ats_disable wq m; Some (\<not> v < 0, m) })"


section \<open>The tables\<close>

type_synonym 'k int_setter = "ptr \<Rightarrow> int \<Rightarrow> 'k mach \<Rightarrow> ('k, int) run"
type_synonym 'k str_setter = "ptr \<Rightarrow> string \<Rightarrow> 'k mach \<Rightarrow> ('k, int) run"
type_synonym 'k writable = "ptr \<Rightarrow> int \<Rightarrow> 'k mach \<Rightarrow> ('k, bool) run"

record 'k device_set_table =
  dst_name :: string
  dst_set_int_func :: "'k int_setter option"
  dst_set_str_func :: "'k str_setter option"

record 'k wq_set_table =
  wst_name :: string
  wst_set_int_func :: "'k int_setter option"
  wst_set_long_func :: "'k int_setter option"
  wst_set_str_func :: "'k str_setter option"
  wst_is_writable :: "'k writable option"

record 'k group_set_table =
  gst_name :: string
  gst_set_int_func :: "'k int_setter option"
  gst_set_str_func :: "'k str_setter option"
  gst_is_writable :: "'k writable option"

record 'k engine_set_table =
  est_name :: string
  est_set_int_func :: "'k int_setter option"
  est_set_str_func :: "'k str_setter option"

definition device_table :: "'k os \<Rightarrow> 'k device_set_table list" where
  "device_table os =
    [\<lparr>dst_name = ''token_limit'', dst_set_int_func = Some (accfg_device_set_read_buffer_limit os), dst_set_str_func = None\<rparr>,
     \<lparr>dst_name = ''read_buffer_limit'', dst_set_int_func = Some (accfg_device_set_read_buffer_limit os), dst_set_str_func = None\<rparr>,
     \<lparr>dst_name = ''event_log_size'', dst_set_int_func = Some (accfg_device_set_event_log_size os), dst_set_str_func = None\<rparr>]"

definition group_entry :: "string \<Rightarrow> 'k int_setter \<Rightarrow> 'k writable \<Rightarrow> 'k group_set_table" where
  "group_entry name f w = \<lparr>gst_name = name, gst_set_int_func = Some f, gst_set_str_func = None, gst_is_writable = Some w\<rparr>"

definition group_table :: "'k os \<Rightarrow> 'k group_set_table list" where
  "group_table os =
    [group_entry ''tokens_reserved'' (accfg_group_set_read_buffers_reserved os) is_group_read_buffer_attribs_writable,
     group_entry ''read_buffers_reserved'' (accfg_group_set_read_buffers_reserved os) is_group_read_buffer_attribs_writable,
     group_entry ''use_token_limit'' (accfg_group_set_use_read_buffer_limit os) is_group_read_buffer_limit_writable,
     group_entry ''use_read_buffer_limit'' (accfg_group_set_use_read_buffer_limit os) is_group_read_buffer_limit_writable,
     group_entry ''tokens_allowed'' (accfg_group_set_read_buffers_allowed os) is_group_read_buffer_attribs_writable,
     group_entry ''read_buffers_allowed'' (accfg_group_set_read_buffers_allowed os) is_group_read_buffer_attribs_writable,
     group_entry ''traffic_class_a'' (accfg_group_set_traffic_class_a os) is_group_traffic_class_writable,
     group_entry ''traffic_class_b'' (accfg_group_set_traffic_class_b os) is_group_traffic_class_writable,
     group_entry ''desc_progress_limit'' (accfg_group_set_desc_progress_limit os) is_group_desc_progress_limit_writable,
     group_entry ''batch_progress_limit'' (accfg_group_set_batch_progress_limit os) is_group_batch_progress_limit_writable]"

definition wq_int :: "string \<Rightarrow> 'k int_setter \<Rightarrow> 'k writable option \<Rightarrow> 'k wq_set_table" where
  "wq_int name f w = \<lparr>wst_name = name, wst_set_int_func = Some f, wst_set_long_func = None, wst_set_str_func = None, wst_is_writable = w\<rparr>"

definition wq_str :: "string \<Rightarrow> 'k str_setter \<Rightarrow> 'k wq_set_table" where
  "wq_str name f = \<lparr>wst_name = name, wst_set_int_func = None, wst_set_long_func = None, wst_set_str_func = Some f, wst_is_writable = None\<rparr>"

definition wq_table :: "'k os \<Rightarrow> 'k wq_set_table list" where
  "wq_table os =
    [wq_int ''size'' (accfg_wq_set_size os) None,
     wq_int ''priority'' (accfg_wq_set_priority os) None,
     wq_int ''group_id'' (accfg_wq_set_group_id os) None,
     wq_int ''block_on_fault'' (accfg_wq_set_block_on_fault os) None,
     wq_str ''type'' (accfg_wq_set_str_type os),
     wq_str ''name'' (accfg_wq_set_str_name os),
     wq_str ''driver_name'' (accfg_wq_set_str_driver_name os),
     wq_str ''op_config'' (\<lambda>wq val. accfg_wq_set_op_config_str os wq (Some val)),
     wq_str ''mode'' (accfg_wq_set_str_mode os),
     wq_int ''max_batch_size'' (accfg_wq_set_max_batch_size os) None,
     \<lparr>wst_name = ''max_transfer_size'', wst_set_int_func = None, wst_set_long_func = Some (accfg_wq_set_max_transfer_size os),
      wst_set_str_func = None, wst_is_writable = None\<rparr>,
     wq_int ''threshold'' (accfg_wq_set_threshold os) (Some (is_wq_threshold_writable os)),
     wq_int ''ats_disable'' (accfg_wq_set_ats_disable os) (Some is_wq_ats_disable_writable),
     wq_int ''prs_disable'' (accfg_wq_set_prs_disable os) (Some is_wq_prs_disable_writable)]"

definition engine_table :: "'k os \<Rightarrow> 'k engine_set_table list" where
  "engine_table os =
    [\<lparr>est_name = ''group_id'', est_set_int_func = Some (accfg_engine_set_group_id os), est_set_str_func = None\<rparr>]"

definition device_attribute_filter :: "'k os \<Rightarrow> string \<Rightarrow> bool" where
  "device_attribute_filter os key \<longleftrightarrow> list_ex (\<lambda>e. key = dst_name e) (device_table os)"

definition group_attribute_filter :: "'k os \<Rightarrow> string \<Rightarrow> bool" where
  "group_attribute_filter os key \<longleftrightarrow> list_ex (\<lambda>e. key = gst_name e) (group_table os)"

definition wq_attribute_filter :: "'k os \<Rightarrow> string \<Rightarrow> bool" where
  "wq_attribute_filter os key \<longleftrightarrow> list_ex (\<lambda>e. key = wst_name e) (wq_table os)"

definition engine_attribute_filter :: "'k os \<Rightarrow> string \<Rightarrow> bool" where
  "engine_attribute_filter os key \<longleftrightarrow> list_ex (\<lambda>e. key = est_name e) (engine_table os)"


section \<open>Setting a value\<close>

text \<open>The check that follows every lookup, and the two ends of a setting.\<close>

definition if_writable :: "'k writable option \<Rightarrow> ptr \<Rightarrow> int \<Rightarrow> ('k mach \<Rightarrow> ('k, int) run) \<Rightarrow> 'k mach \<Rightarrow> ('k, int) run" where
  "if_writable w p val f m = (case w of
       None \<Rightarrow> f m
     | Some w \<Rightarrow> do { (ok, m) \<leftarrow> w p val m; if \<not> ok then Some (0, m) else f m })"

definition set_str_val :: "'v json_ops \<Rightarrow> 'v \<Rightarrow> 'k str_setter \<Rightarrow> ptr \<Rightarrow> 'k mach \<Rightarrow> ('k, int) run" where
  "set_str_val js v f p m = (case js_string js v of None \<Rightarrow> Some (- EINVAL, m) | Some s \<Rightarrow> f p s m)"

fun device_set_loop :: "'v json_ops \<Rightarrow> ptr \<Rightarrow> 'v \<Rightarrow> string \<Rightarrow> 'k device_set_table list \<Rightarrow> 'k mach \<Rightarrow> ('k, int) run" where
  "device_set_loop js dev jobj key [] m = Some (- ENOENT, m)"
| "device_set_loop js dev jobj key (e # es) m =
     (if key = dst_name e then
        (case dst_set_int_func e of
           Some f \<Rightarrow>
             (case get_number_errno (js_int js jobj) m of (val, m) \<Rightarrow>
              if val = 0 \<and> errno m = EINVAL then Some (- EINVAL, m) else f dev val m)
         | None \<Rightarrow>
             (case dst_set_str_func e of
                Some f \<Rightarrow> set_str_val js jobj f dev m
              | None \<Rightarrow> device_set_loop js dev jobj key es m))
      else device_set_loop js dev jobj key es m)"

definition device_json_set_val :: "'k os \<Rightarrow> 'v json_ops \<Rightarrow> ptr \<Rightarrow> 'v \<Rightarrow> string \<Rightarrow> 'k mach \<Rightarrow> ('k, int) run" where
  "device_json_set_val os js dev jobj key m =
     (if dev = 0 \<or> json_null js jobj then Some (- EINVAL, m)
      else if \<not> device_attribute_filter os key then Some (0, m)
      else device_set_loop js dev jobj key (device_table os) m)"

fun wq_set_loop :: "'v json_ops \<Rightarrow> ptr \<Rightarrow> 'v \<Rightarrow> string \<Rightarrow> 'k wq_set_table list \<Rightarrow> 'k mach \<Rightarrow> ('k, int) run" where
  "wq_set_loop js wq jobj key [] m = Some (- ENOENT, m)"
| "wq_set_loop js wq jobj key (e # es) m =
     (if key = wst_name e then
        (case wst_set_int_func e of
           Some f \<Rightarrow>
             (case get_number_errno (js_int js jobj) m of (val, m) \<Rightarrow>
              if val = 0 \<and> errno m = EINVAL then Some (- errno m, m)
              else if_writable (wst_is_writable e) wq val (f wq val) m)
         | None \<Rightarrow>
             (case wst_set_long_func e of
                Some f \<Rightarrow>
                  (case get_number_errno (js_int64 js jobj) m of (val, m) \<Rightarrow>
                   if val = 0 \<and> errno m = EINVAL then Some (- errno m, m)
                   else if_writable (wst_is_writable e) wq (s32 val) (f wq (u64 val)) m)
              | None \<Rightarrow>
                  (case wst_set_str_func e of
                     Some f \<Rightarrow> set_str_val js jobj f wq m
                   | None \<Rightarrow> wq_set_loop js wq jobj key es m)))
      else wq_set_loop js wq jobj key es m)"

definition wq_json_set_val :: "'k os \<Rightarrow> 'v json_ops \<Rightarrow> ptr \<Rightarrow> 'v \<Rightarrow> string \<Rightarrow> 'k mach \<Rightarrow> ('k, int) run" where
  "wq_json_set_val os js wq jobj key m =
     (if wq = 0 \<or> json_null js jobj then Some (- EINVAL, m)
      else if \<not> wq_attribute_filter os key then Some (0, m)
      else wq_set_loop js wq jobj key (wq_table os) m)"

text \<open>The attributes of a group that an IAX device does not have.\<close>

definition iax_lacks :: "string \<Rightarrow> bool" where
  "iax_lacks name \<longleftrightarrow> name \<in> {''tokens_reserved'', ''use_token_limit'', ''tokens_allowed'',
     ''read_buffers_reserved'', ''use_read_buffer_limit'', ''read_buffers_allowed''}"

fun group_set_loop :: "'v json_ops \<Rightarrow> ptr \<Rightarrow> ptr \<Rightarrow> 'v \<Rightarrow> string \<Rightarrow> 'k group_set_table list \<Rightarrow> 'k mach \<Rightarrow> ('k, int) run" where
  "group_set_loop js dev grp jobj key [] m = Some (- ENOENT, m)"
| "group_set_loop js dev grp jobj key (e # es) m =
     (if key = gst_name e then
        (case gst_set_int_func e of
           Some f \<Rightarrow>
             (case get_number_errno (js_int js jobj) m of (val, m) \<Rightarrow>
              if val = 0 \<and> errno m = EINVAL \<or> val < 0 then Some (- EINVAL, m)
              else do {
                type \<leftarrow> accfg_device_get_type dev m;
                if type = ACCFG_DEVICE_IAX \<and> iax_lacks (gst_name e) then Some (0, m)
                else if_writable (gst_is_writable e) grp val (f grp val) m
              })
         | None \<Rightarrow>
             (case gst_set_str_func e of
                Some f \<Rightarrow> set_str_val js jobj f grp m
              | None \<Rightarrow> group_set_loop js dev grp jobj key es m))
      else group_set_loop js dev grp jobj key es m)"

definition group_json_set_val :: "'k os \<Rightarrow> 'v json_ops \<Rightarrow> ptr \<Rightarrow> 'v \<Rightarrow> string \<Rightarrow> 'k mach \<Rightarrow> ('k, int) run" where
  "group_json_set_val os js grp jobj key m = do {
     dev \<leftarrow> (if grp \<noteq> 0 then accfg_group_get_device grp m else Some 0);
     if grp = 0 \<or> json_null js jobj then Some (- EINVAL, m)
     else if \<not> group_attribute_filter os key then Some (0, m)
     else group_set_loop js dev grp jobj key (group_table os) m
   }"

fun engine_set_loop :: "'v json_ops \<Rightarrow> ptr \<Rightarrow> 'v \<Rightarrow> string \<Rightarrow> 'k engine_set_table list \<Rightarrow> 'k mach \<Rightarrow> ('k, int) run" where
  "engine_set_loop js engine jobj key [] m = Some (- ENOENT, m)"
| "engine_set_loop js engine jobj key (e # es) m =
     (if key = est_name e then
        (case est_set_int_func e of
           Some f \<Rightarrow>
             (case get_number_errno (js_int js jobj) m of (val, m) \<Rightarrow>
              if val = 0 \<and> errno m = EINVAL then Some (- EINVAL, m) else f engine val m)
         | None \<Rightarrow>
             (case est_set_str_func e of
                Some f \<Rightarrow> set_str_val js jobj f engine m
              | None \<Rightarrow> engine_set_loop js engine jobj key es m))
      else engine_set_loop js engine jobj key es m)"

definition engine_json_set_val :: "'k os \<Rightarrow> 'v json_ops \<Rightarrow> ptr \<Rightarrow> 'v \<Rightarrow> string \<Rightarrow> 'k mach \<Rightarrow> ('k, int) run" where
  "engine_json_set_val os js engine jobj key m =
     (if engine = 0 \<or> json_null js jobj then Some (- EINVAL, m)
      else if \<not> engine_attribute_filter os key then Some (0, m)
      else engine_set_loop js engine jobj key (engine_table os) m)"

end
