(* ===== verification/Util_Json.thy ===== *)
theory Util_Json
  imports Json_Set
begin

unbundle bit_operations_syntax

text \<open>
  \<open>src/util/json.c\<close>: the JSON objects that describe a device, a work queue and an engine, and how they are
  printed.  The values live in the json-c library, a parameter: a state \<open>'j\<close> of the library, and functions
  that make values of a type \<open>'v\<close> in it; a function that makes a value answers \<open>None\<close> for a null pointer.
\<close>

section \<open>Building values\<close>

record ('v, 'j) json_build =
  jb_new_object :: "'j \<Rightarrow> 'v option \<times> 'j"
  jb_new_array :: "'j \<Rightarrow> 'v option \<times> 'j"
  jb_new_int :: "int \<Rightarrow> 'j \<Rightarrow> 'v option \<times> 'j"
  jb_new_int64 :: "int \<Rightarrow> 'j \<Rightarrow> 'v option \<times> 'j"
  jb_new_string :: "string \<Rightarrow> 'j \<Rightarrow> 'v option \<times> 'j"
  jb_set_serializer :: "'v \<Rightarrow> (int \<Rightarrow> string) \<Rightarrow> 'j \<Rightarrow> 'j"
  jb_object_add :: "'v \<Rightarrow> string \<Rightarrow> 'v \<Rightarrow> 'j \<Rightarrow> 'j"
  jb_array_add :: "'v \<Rightarrow> 'v option \<Rightarrow> 'j \<Rightarrow> 'j"
  jb_array_length :: "'v \<Rightarrow> 'j \<Rightarrow> nat"
  jb_array_get_idx :: "'v \<Rightarrow> nat \<Rightarrow> 'j \<Rightarrow> 'v option"
  jb_to_string :: "'v option \<Rightarrow> 'j \<Rightarrow> string"
  jb_put :: "'v \<Rightarrow> 'j \<Rightarrow> 'j"

definition UTIL_JSON_IDLE :: int where "UTIL_JSON_IDLE = 1"
definition UTIL_JSON_HUMAN :: int where "UTIL_JSON_HUMAN = 2"
definition UTIL_JSON_VERBOSE :: int where "UTIL_JSON_VERBOSE = 4"
definition UTIL_JSON_SAVE :: int where "UTIL_JSON_SAVE = 8"

definition has_flag :: "int \<Rightarrow> int \<Rightarrow> bool" where
  "has_flag flags f \<longleftrightarrow> flags AND f \<noteq> 0"

definition wq_type_str :: "accfg_wq_type \<Rightarrow> string" where
  "wq_type_str t = (case t of ACCFG_WQT_NONE \<Rightarrow> ''none'' | ACCFG_WQT_KERNEL \<Rightarrow> ''kernel'' | ACCFG_WQT_USER \<Rightarrow> ''user'')"


section \<open>How numbers are printed\<close>

text \<open>\<open>"%02ld"\<close> and \<open>"%08x"\<close> of a number that is not negative.\<close>

definition pad0 :: "nat \<Rightarrow> string \<Rightarrow> string" where
  "pad0 w s = replicate (w - length s) (CHR ''0'') @ s"

text \<open>
  The text \<open>display_size\<close> appends for the number of the value: hundredths of a unit, rounded; the product by
  200 is taken modulo 2^64.
\<close>

definition hundredths :: "int \<Rightarrow> string \<Rightarrow> string" where
  "hundredths c unit = show_int (c div 100) @ ''.'' @ pad0 2 (show_int (c mod 100)) @ '' '' @ unit"

definition iec_units :: "int \<Rightarrow> int \<Rightarrow> int" where
  "iec_units bytes unit = (u64 (bytes * 200) div unit + 1) div 2"

definition jedec_units :: "int \<Rightarrow> int \<Rightarrow> int" where
  "jedec_units bytes unit = (bytes div (unit div 200) + 1) div 2"

definition display_size :: "int \<Rightarrow> string" where
  "display_size val =
     (let bytes = u64 val in
      if bytes < 5000 * 1024 then show_int bytes
      else if bytes < 2 * 1024 * 1024 * 1024 then
        CHR 0x22 # hundredths (iec_units bytes 1048576) ''MiB'' @ '' ('' @ hundredths (jedec_units bytes 1000000) ''MB'' @ '')'' @ [CHR 0x22]
      else
        CHR 0x22 # hundredths (iec_units bytes 1073741824) ''GiB'' @ '' ('' @ hundredths (jedec_units bytes 1000000000) ''GB'' @ '')'' @ [CHR 0x22])"

text \<open>\<open>"%#lx"\<close> has no prefix for zero.\<close>

definition display_hex :: "int \<Rightarrow> string" where
  "display_hex val = (let v = u64 val in CHR 0x22 # (if v = 0 then ''0'' else ''0x'' @ show_hex v) @ [CHR 0x22])"

definition util_json_object_size :: "('v, 'j) json_build \<Rightarrow> int \<Rightarrow> int \<Rightarrow> 'j \<Rightarrow> 'v option \<times> 'j" where
  "util_json_object_size jb sz flags j =
     (case jb_new_int64 jb (s64 sz) j of
        (None, j) \<Rightarrow> (None, j)
      | (Some jobj, j) \<Rightarrow>
          (Some jobj, if has_flag flags UTIL_JSON_HUMAN then jb_set_serializer jb jobj display_size j else j))"

definition util_json_object_hex :: "('v, 'j) json_build \<Rightarrow> int \<Rightarrow> int \<Rightarrow> 'j \<Rightarrow> 'v option \<times> 'j" where
  "util_json_object_hex jb val flags j =
     (case jb_new_int64 jb (s64 val) j of
        (None, j) \<Rightarrow> (None, j)
      | (Some jobj, j) \<Rightarrow> (Some jobj, jb_set_serializer jb jobj display_hex j))"

text \<open>The text printed for an array, which is released.\<close>

definition util_display_json_array :: "('v, 'j) json_build \<Rightarrow> 'v \<Rightarrow> int \<Rightarrow> 'j \<Rightarrow> string \<times> 'j" where
  "util_display_json_array jb jarray flags j =
     (let len = jb_array_length jb jarray j in
      (if len > 1 \<or> \<not> has_flag flags UTIL_JSON_HUMAN then jb_to_string jb (Some jarray) j @ [NL]
       else if len \<noteq> 0 then jb_to_string jb (jb_array_get_idx jb jarray 0 j) j @ [NL]
       else [],
       jb_put jb jarray j))"

fun bitmask_text :: "int list \<Rightarrow> string" where
  "bitmask_text [] = []"
| "bitmask_text [v] = pad0 8 (show_hex v)"
| "bitmask_text (v # w # vs) = pad0 8 (show_hex v) @ CHR '','' # bitmask_text (w # vs)"

definition util_bitmask_to_string :: "int list \<Rightarrow> string" where
  "util_bitmask_to_string bit_array = bitmask_text bit_array"


section \<open>Members of an object\<close>

text \<open>
  What one statement of the builders makes: nothing, a value that is dropped, or a member.  The arguments are
  those of the calls: an \<open>int\<close>, a 64-bit integer, a text, a size and a number printed in hexadecimal.
\<close>

datatype jnew = New_int int | New_int64 int | New_string string | New_size int | New_hex int

datatype jfield = Nothing | Dropped jnew | Member string jnew

type_synonym 'k field = "'k mach \<Rightarrow> ('k, jfield) run"

definition create :: "('v, 'j) json_build \<Rightarrow> int \<Rightarrow> jnew \<Rightarrow> 'j \<Rightarrow> 'v option \<times> 'j" where
  "create jb flags x j = (case x of
       New_int i \<Rightarrow> jb_new_int jb (s32 i) j
     | New_int64 i \<Rightarrow> jb_new_int64 jb (s64 i) j
     | New_string s \<Rightarrow> jb_new_string jb s j
     | New_size i \<Rightarrow> util_json_object_size jb i flags j
     | New_hex i \<Rightarrow> util_json_object_hex jb i flags j)"

text \<open>
  The statements in order, on the object \<open>obj\<close>.  A null pointer ends the builder when the statement is
  \<open>must\<close> (\<open>goto err\<close>); the answer tells whether the end was reached.
\<close>

fun add_fields ::
  "('v, 'j) json_build \<Rightarrow> int \<Rightarrow> 'v \<Rightarrow> (bool \<times> 'k field) list \<Rightarrow> 'k mach \<times> 'j \<Rightarrow> (bool \<times> 'k mach \<times> 'j) option" where
  "add_fields jb flags obj [] s = Some (True, s)"
| "add_fields jb flags obj ((must, f) # fs) (m, j) = do {
     (r, m) \<leftarrow> f m;
     case r of
       Nothing \<Rightarrow> add_fields jb flags obj fs (m, j)
     | Dropped x \<Rightarrow>
         (case create jb flags x j of
            (None, j) \<Rightarrow> if must then Some (False, m, j) else add_fields jb flags obj fs (m, j)
          | (Some _, j) \<Rightarrow> add_fields jb flags obj fs (m, j))
     | Member key x \<Rightarrow>
         (case create jb flags x j of
            (None, j) \<Rightarrow> if must then Some (False, m, j) else add_fields jb flags obj fs (m, j)
          | (Some jobj, j) \<Rightarrow> add_fields jb flags obj fs (m, jb_object_add jb obj key jobj j))
   }"

text \<open>The end of a builder: the object, or nothing with the object released.\<close>

definition build_end :: "('v, 'j) json_build \<Rightarrow> 'v \<Rightarrow> bool \<Rightarrow> 'j \<Rightarrow> 'v option \<times> 'j" where
  "build_end jb obj ok j = (if ok then (Some obj, j) else (None, jb_put jb obj j))"

text \<open>The usual statements: a name, a number, and a number that is shown unless it is negative.\<close>

definition name_field :: "(ptr \<Rightarrow> 'k mach \<Rightarrow> string option) \<Rightarrow> ptr \<Rightarrow> 'k field" where
  "name_field get p m = do { n \<leftarrow> get p m; Some (Member ''dev'' (New_string n), m) }"

definition int_field :: "string \<Rightarrow> (ptr \<Rightarrow> 'k mach \<Rightarrow> int option) \<Rightarrow> ptr \<Rightarrow> 'k field" where
  "int_field key get p m = do { v \<leftarrow> get p m; Some (Member key (New_int v), m) }"

definition nonneg_field :: "string \<Rightarrow> (ptr \<Rightarrow> 'k mach \<Rightarrow> int option) \<Rightarrow> ptr \<Rightarrow> 'k field" where
  "nonneg_field key get p m = do { v \<leftarrow> get p m; Some (if s32 v \<ge> 0 then Member key (New_int v) else Nothing, m) }"

definition hex_field :: "string \<Rightarrow> (ptr \<Rightarrow> 'k mach \<Rightarrow> int option) \<Rightarrow> ptr \<Rightarrow> 'k field" where
  "hex_field key get p m = do { v \<leftarrow> get p m; Some (Member key (New_hex v), m) }"


section \<open>Devices\<close>

text \<open>A value that an IAX device does not show is made and dropped.\<close>

definition not_iax_field :: "string \<Rightarrow> (ptr \<Rightarrow> 'k mach \<Rightarrow> int option) \<Rightarrow> ptr \<Rightarrow> 'k field" where
  "not_iax_field key get device m = do {
     v \<leftarrow> get device m;
     type \<leftarrow> accfg_device_get_type device m;
     Some (if type \<noteq> ACCFG_DEVICE_IAX then Member key (New_int v) else Dropped (New_int v), m)
   }"

definition errors_field :: "'k os \<Rightarrow> ptr \<Rightarrow> 'k field" where
  "errors_field os device m = do {
     ((rc, val), m) \<leftarrow> accfg_device_get_errors os device m;
     Some (if rc = 0 \<and> list_ex (\<lambda>v. v \<noteq> 0) val then Member ''errors'' (New_string (util_bitmask_to_string val)) else Nothing, m)
   }"

definition op_cap_field :: "'k os \<Rightarrow> ptr \<Rightarrow> 'k field" where
  "op_cap_field os device m = do {
     ((rc, bits), m) \<leftarrow> accfg_device_get_op_cap os device m;
     Some (if rc = 0 then Member ''op_cap'' (New_string (util_bitmask_to_string bits)) else Nothing, m)
   }"

definition iaa_cap_field :: "'k os \<Rightarrow> ptr \<Rightarrow> 'k field" where
  "iaa_cap_field os device m = do {
     ((rc, iaa_cap), m) \<leftarrow> accfg_device_get_iaa_cap os device m;
     if rc = 0 then do { v \<leftarrow> iaa_cap; Some (Member ''iaa_cap'' (New_hex v), m) } else Some (Nothing, m)
   }"

definition device_state_field :: "'k os \<Rightarrow> ptr \<Rightarrow> 'k field" where
  "device_state_field os device m = do {
     (dev_state, m) \<leftarrow> accfg_device_get_state os device m;
     Some (Member ''state'' (New_string (case dev_state of
        ACCFG_DEVICE_DISABLED \<Rightarrow> ''disabled'' | ACCFG_DEVICE_ENABLED \<Rightarrow> ''enabled'' | ACCFG_DEVICE_UNKNOWN \<Rightarrow> ''enabled'')), m)
   }"

definition positive_field :: "string \<Rightarrow> (int \<Rightarrow> jnew) \<Rightarrow> (ptr \<Rightarrow> 'k mach \<Rightarrow> int option) \<Rightarrow> ptr \<Rightarrow> 'k field" where
  "positive_field key mk get p m = do { v \<leftarrow> get p m; Some (if u64 v > 0 then Member key (mk v) else Nothing, m) }"

definition pasid_field :: "ptr \<Rightarrow> 'k field" where
  "pasid_field device m = do {
     b \<leftarrow> accfg_device_get_pasid_enabled device m;
     Some (Member ''pasid_enabled'' (New_int (of_bool b)), m)
   }"

definition run_int_field :: "string \<Rightarrow> ('k mach \<Rightarrow> ('k, int) run) \<Rightarrow> 'k field" where
  "run_int_field key get m = do { (v, m) \<leftarrow> get m; Some (Member key (New_int v), m) }"

definition device_save_fields :: "ptr \<Rightarrow> 'k field list" where
  "device_save_fields device =
    [name_field accfg_device_get_devname device,
     not_iax_field ''read_buffer_limit'' accfg_device_get_read_buffer_limit device,
     nonneg_field ''event_log_size'' accfg_device_get_event_log_size device]"

definition device_more_fields :: "'k os \<Rightarrow> ptr \<Rightarrow> 'k field list" where
  "device_more_fields os device =
    [nonneg_field ''max_groups'' accfg_device_get_max_groups device,
     nonneg_field ''max_work_queues'' accfg_device_get_max_work_queues device,
     nonneg_field ''max_engines'' accfg_device_get_max_engines device,
     nonneg_field ''work_queue_size'' accfg_device_get_max_work_queues_size device,
     int_field ''numa_node'' accfg_device_get_numa_node device,
     errors_field os device, op_cap_field os device, iaa_cap_field os device,
     hex_field ''gen_cap'' accfg_device_get_gen_cap device,
     hex_field ''version'' accfg_device_get_version device,
     device_state_field os device,
     not_iax_field ''max_read_buffers'' accfg_device_get_max_read_buffers device,
     positive_field ''max_batch_size'' New_int accfg_device_get_max_batch_size device,
     nonneg_field ''ims_size'' accfg_device_get_ims_size device,
     nonneg_field ''max_batch_size'' accfg_device_get_max_batch_size device,
     positive_field ''max_transfer_size'' New_int64 accfg_device_get_max_transfer_size device,
     nonneg_field ''configurable'' accfg_device_get_configurable device,
     pasid_field device,
     int_field ''cdev_major'' accfg_device_get_cdev_major device,
     run_int_field ''clients'' (accfg_device_get_clients os device)]"

definition device_fields :: "'k os \<Rightarrow> ptr \<Rightarrow> int \<Rightarrow> 'k field list" where
  "device_fields os device flags =
     device_save_fields device @ (if has_flag flags UTIL_JSON_SAVE then [] else device_more_fields os device)"

text \<open>A value of the library or none, and the two states.\<close>

type_synonym ('k, 'v, 'j) json_run = "('v option \<times> 'k mach \<times> 'j) option"

definition util_device_to_json ::
  "'k os \<Rightarrow> ('v, 'j) json_build \<Rightarrow> ptr \<Rightarrow> int \<Rightarrow> 'k mach \<times> 'j \<Rightarrow> ('k, 'v, 'j) json_run" where
  "util_device_to_json os jb device flags = (\<lambda>(m, j).
     case jb_new_object jb j of
       (None, j) \<Rightarrow> Some (None, m, j)
     | (Some jdevice, j) \<Rightarrow> do {
         (dev_state, m) \<leftarrow> accfg_device_get_state os device m;
         if dev_state \<noteq> ACCFG_DEVICE_ENABLED \<and> \<not> has_flag flags UTIL_JSON_IDLE then Some (None, m, jb_put jb jdevice j)
         else case sys_alloc os m of (ok, m) \<Rightarrow>
         if \<not> ok then Some (None, m, jb_put jb jdevice j)
         else do {
           (ok, m, j) \<leftarrow> add_fields jb flags jdevice (map (Pair True) (device_fields os device flags)) (m, j);
           Some (case build_end jb jdevice ok j of (r, j) \<Rightarrow> (r, m, j))
         }
       })"


text \<open>An object all of whose statements must succeed.\<close>

definition build_object ::
  "('v, 'j) json_build \<Rightarrow> int \<Rightarrow> 'k field list \<Rightarrow> 'k mach \<times> 'j \<Rightarrow> ('k, 'v, 'j) json_run" where
  "build_object jb flags fs = (\<lambda>(m, j).
     case jb_new_object jb j of
       (None, j) \<Rightarrow> Some (None, m, j)
     | (Some obj, j) \<Rightarrow> do {
         (ok, m, j) \<leftarrow> add_fields jb flags obj (map (Pair True) fs) (m, j);
         Some (case build_end jb obj ok j of (r, j) \<Rightarrow> (r, m, j))
       })"


section \<open>Work queues\<close>

definition size_field :: "ptr \<Rightarrow> 'k field" where
  "size_field wq m = do {
     v \<leftarrow> accfg_wq_get_size wq m;
     Some (if v < ULONG_MAX then Member ''size'' (New_size v) else Nothing, m)
   }"

definition int64_field :: "string \<Rightarrow> (ptr \<Rightarrow> 'k mach \<Rightarrow> int option) \<Rightarrow> ptr \<Rightarrow> 'k field" where
  "int64_field key get p m = do { v \<leftarrow> get p m; Some (Member key (New_int64 v), m) }"

definition wq_type_field :: "ptr \<Rightarrow> 'k field" where
  "wq_type_field wq m = do { t \<leftarrow> accfg_wq_get_type wq m; Some (Member ''type'' (New_string (wq_type_str t)), m) }"

text \<open>A null name goes to the library.\<close>

definition wq_name_field :: "ptr \<Rightarrow> 'k field" where
  "wq_name_field wq m = do { n \<leftarrow> accfg_wq_get_type_name wq m; s \<leftarrow> n; Some (Member ''name'' (New_string s), m) }"

definition driver_name_field :: "ptr \<Rightarrow> 'k field" where
  "driver_name_field wq m = do {
     n \<leftarrow> accfg_wq_get_driver_name wq m;
     Some (case n of None \<Rightarrow> Nothing | Some s \<Rightarrow> Member ''driver_name'' (New_string s), m)
   }"

definition op_config_field :: "'k os \<Rightarrow> ptr \<Rightarrow> 'k field" where
  "op_config_field os wq m = do {
     ((rc, bits), m) \<leftarrow> accfg_wq_get_op_config os wq m;
     Some (if rc = 0 then Member ''op_config'' (New_string (util_bitmask_to_string bits)) else Nothing, m)
   }"

definition wq_state_text :: "accfg_wq_state \<Rightarrow> string" where
  "wq_state_text st = (case st of
       ACCFG_WQ_DISABLED \<Rightarrow> ''disabled'' | ACCFG_WQ_ENABLED \<Rightarrow> ''enabled'' | ACCFG_WQ_QUIESCING \<Rightarrow> ''quiescing''
     | ACCFG_WQ_LOCKED \<Rightarrow> ''locked'' | ACCFG_WQ_UNKNOWN \<Rightarrow> ''unknown'')"

text \<open>The statements behind the mode; of these only the operation configuration must succeed.\<close>

definition wq_fields :: "'k os \<Rightarrow> ptr \<Rightarrow> accfg_wq_state \<Rightarrow> int \<Rightarrow> (bool \<times> 'k field) list" where
  "wq_fields os wq st flags =
     (let save = has_flag flags UTIL_JSON_SAVE; may = Pair False in
      map may
       ([size_field wq,
         nonneg_field ''group_id'' accfg_wq_get_group_id wq,
         nonneg_field ''priority'' accfg_wq_get_priority wq,
         int_field ''block_on_fault'' accfg_wq_get_block_on_fault wq,
         int_field ''max_batch_size'' accfg_wq_get_max_batch_size wq,
         int64_field ''max_transfer_size'' accfg_wq_get_max_transfer_size wq] @
        (if save then [] else [nonneg_field ''cdev_minor'' accfg_wq_get_cdev_minor wq]) @
        [wq_type_field wq, wq_name_field wq, driver_name_field wq,
         int_field ''threshold'' accfg_wq_get_threshold wq,
         nonneg_field ''prs_disable'' accfg_wq_get_prs_disable wq,
         int_field ''ats_disable'' accfg_wq_get_ats_disable wq]) @
      [(True, op_config_field os wq)] @
      (if save then []
       else [may (\<lambda>m. Some (Member ''state'' (New_string (wq_state_text st)), m)),
             may (run_int_field ''clients'' (accfg_wq_get_clients os wq))]))"

text \<open>
  The mode: when it is neither shared nor dedicated the variable still holds the text of the name, which is
  added a second time.
\<close>

definition mode_value :: "('v, 'j) json_build \<Rightarrow> int \<Rightarrow> 'v \<Rightarrow> 'j \<Rightarrow> 'v option \<times> 'j" where
  "mode_value jb mode jobj j =
     (if mode = ACCFG_WQ_SHARED then jb_new_string jb ''shared'' j
      else if mode = ACCFG_WQ_DEDICATED then jb_new_string jb ''dedicated'' j
      else (Some jobj, j))"

definition util_wq_to_json ::
  "'k os \<Rightarrow> ('v, 'j) json_build \<Rightarrow> ptr \<Rightarrow> int \<Rightarrow> 'k mach \<times> 'j \<Rightarrow> ('k, 'v, 'j) json_run" where
  "util_wq_to_json os jb wq flags = (\<lambda>(m, j).
     case jb_new_object jb j of
       (None, j) \<Rightarrow> Some (None, m, j)
     | (Some jaccfg, j) \<Rightarrow> do {
         (st, m) \<leftarrow> accfg_wq_get_state os wq m;
         if st \<noteq> ACCFG_WQ_ENABLED \<and> st \<noteq> ACCFG_WQ_LOCKED \<and> \<not> has_flag flags UTIL_JSON_IDLE
         then Some (None, m, jb_put jb jaccfg j)
         else do {
           name \<leftarrow> accfg_wq_get_devname wq m;
           case jb_new_string jb name j of
             (None, j) \<Rightarrow> Some (None, m, jb_put jb jaccfg j)
           | (Some jobj, j) \<Rightarrow> do {
               let j = jb_object_add jb jaccfg ''dev'' jobj j;
               (mode, m) \<leftarrow> accfg_wq_get_mode os wq m;
               case mode_value jb mode jobj j of
                 (None, j) \<Rightarrow> Some (None, m, jb_put jb jaccfg j)
               | (Some jobj, j) \<Rightarrow> do {
                   (ok, m, j) \<leftarrow> add_fields jb flags jaccfg (wq_fields os wq st flags) (m, jb_object_add jb jaccfg ''mode'' jobj j);
                   Some (case build_end jb jaccfg ok j of (r, j) \<Rightarrow> (r, m, j))
                 }
             }
         }
       })"


section \<open>Engines\<close>

definition engine_fields :: "ptr \<Rightarrow> 'k field list" where
  "engine_fields engine =
    [name_field accfg_engine_get_devname engine, nonneg_field ''group_id'' accfg_engine_get_group_id engine]"

definition util_engine_to_json ::
  "('v, 'j) json_build \<Rightarrow> ptr \<Rightarrow> int \<Rightarrow> 'k mach \<times> 'j \<Rightarrow> ('k, 'v, 'j) json_run" where
  "util_engine_to_json jb engine flags = build_object jb flags (engine_fields engine)"

end
