(* ===== verification/Json_Walk.thy ===== *)
theory Json_Walk
  imports Util_Json Util_Filter
begin

text \<open>
  What the walks of \<open>src/accfg/list.c\<close> and \<open>src/accfg/config.c\<close> share: the containers of
  \<open>src/util/filter.h\<close>, one for each device that is shown, the search for the container of a device, and the
  loop that puts a work queue or an engine into the array of its group.
\<close>

section \<open>State of a walk\<close>

text \<open>
  A container; its arrays have one slot for each group the device can have.  The member \<open>jgroup\<close> is written
  and never read, and left out.
\<close>

record 'v accfg_json_container =
  jc_jgroups :: "'v option"
  jc_jgroup_assigned :: "'v option list"
  jc_jwq_group :: "'v option list"
  jc_jwq_ungroup :: "'v option"
  jc_jengine_group :: "'v option list"
  jc_jengine_ungroup :: "'v option"
  jc_jgroup_id :: "int list"
  jc_device_id :: int
  jc_device_name :: string

text \<open>
  \<open>struct list_filter_arg\<close>, with the state of the JSON library, the text printed so far and the static
  variable \<open>did_fail\<close>.  The list starts with the container added last; a container is named by its index.
\<close>

record ('v, 'j) list_filter_arg =
  lfa_jdevices :: 'v
  lfa_jdevice :: "'v option"
  lfa_jdev_list :: "'v accfg_json_container list"
  lfa_flags :: int
  lfa_dev_num :: int
  lfa_group_num :: int
  lfa_lib :: 'j
  lfa_out :: string
  lfa_did_fail :: bool

text \<open>An array read at an index: outside the array it is undefined.\<close>

definition nth_opt :: "'x list \<Rightarrow> nat \<Rightarrow> 'x option" where
  "nth_opt xs i = (if i < length xs then Some (xs ! i) else None)"

text \<open>\<open>++\<close> on an \<open>int\<close>.\<close>

definition int_incr :: "int \<Rightarrow> int option" where
  "int_incr n = (if n < INT_MAX then Some (n + 1) else None)"

definition set_lib :: "'j \<Rightarrow> ('v, 'j) list_filter_arg \<Rightarrow> ('v, 'j) list_filter_arg" where
  "set_lib j s = s\<lparr>lfa_lib := j\<rparr>"

definition print :: "string \<Rightarrow> ('v, 'j) list_filter_arg \<Rightarrow> ('v, 'j) list_filter_arg" where
  "print t s = s\<lparr>lfa_out := lfa_out s @ t\<rparr>"

definition set_container ::
  "nat \<Rightarrow> ('v accfg_json_container \<Rightarrow> 'v accfg_json_container) \<Rightarrow> ('v, 'j) list_filter_arg \<Rightarrow> ('v, 'j) list_filter_arg" where
  "set_container c f s = s\<lparr>lfa_jdev_list := (lfa_jdev_list s)[c := f (lfa_jdev_list s ! c)]\<rparr>"

type_synonym ('k, 'v, 'j) list_walk = "'k mach \<times> ('v, 'j) list_filter_arg"
type_synonym ('k, 'v, 'j, 'a) list_run = "('a \<times> ('k, 'v, 'j) list_walk) option"


section \<open>The container of a device\<close>

definition match_device :: "ptr \<Rightarrow> 'v accfg_json_container \<Rightarrow> 'k mach \<Rightarrow> bool option" where
  "match_device dev jc m = do { n \<leftarrow> accfg_device_get_devname dev m; Some (n = jc_device_name jc) }"

text \<open>The walk looks at every container and keeps the last one that matches.\<close>

fun match_loop :: "ptr \<Rightarrow> nat \<Rightarrow> 'v accfg_json_container list \<Rightarrow> nat option \<Rightarrow> 'k mach \<Rightarrow> nat option option" where
  "match_loop dev i [] jc m = Some jc"
| "match_loop dev i (c # cs) jc m = do {
     b \<leftarrow> match_device dev c m;
     match_loop dev (Suc i) cs (if b then Some i else jc) m
   }"

text \<open>A new container: none of its values is set.  The four arrays may fail to be allocated.\<close>

definition new_container :: "nat \<Rightarrow> int \<Rightarrow> string \<Rightarrow> 'v accfg_json_container" where
  "new_container max_groups id_num name =
     \<lparr>jc_jgroups = None, jc_jgroup_assigned = replicate max_groups None, jc_jwq_group = replicate max_groups None,
      jc_jwq_ungroup = None, jc_jengine_group = replicate max_groups None, jc_jengine_ungroup = None,
      jc_jgroup_id = replicate max_groups 0, jc_device_id = id_num, jc_device_name = name\<rparr>"

fun sys_allocs :: "nat \<Rightarrow> 'k os \<Rightarrow> 'k mach \<Rightarrow> bool \<times> 'k mach" where
  "sys_allocs 0 os m = (True, m)"
| "sys_allocs (Suc n) os m = (case sys_alloc os m of (ok, m) \<Rightarrow> if ok then sys_allocs n os m else (False, m))"

text \<open>The end of the callback for a device: its container and its object are added.\<close>

definition add_container ::
  "'k os \<Rightarrow> ('v, 'j) json_build \<Rightarrow> ptr \<Rightarrow> nat \<Rightarrow> ('k, 'v, 'j) list_walk \<Rightarrow> ('k, 'v, 'j, bool) list_run" where
  "add_container os jb device max_groups = (\<lambda>(m, s).
     case sys_allocs 5 os m of (ok, m) \<Rightarrow>
     if \<not> ok then Some (False, m, s)
     else do {
       device_id \<leftarrow> accfg_device_get_id device m;
       name \<leftarrow> accfg_device_get_devname device m;
       Some (True, m, s\<lparr>lfa_jdev_list := new_container max_groups device_id name # lfa_jdev_list s,
                        lfa_lib := jb_array_add jb (lfa_jdevices s) (lfa_jdevice s) (lfa_lib s)\<rparr>)
     })"

text \<open>The containers are released; nothing reads the list afterwards.\<close>

definition free_containers :: "('v, 'j) list_filter_arg \<Rightarrow> ('v, 'j) list_filter_arg" where
  "free_containers s = s\<lparr>lfa_jdev_list := []\<rparr>"


section \<open>The array of a group\<close>

text \<open>
  The loop over the slots, from slot \<open>i\<close>, \<open>n\<close> slots to go: into every slot with the number of the group goes
  the object \<open>jobj\<close>.  A slot without an array gets one, which becomes a member of the group's object; a slot
  that has no object leaves the array alone, or, when \<open>checked\<close> is false, passes a null pointer to the library.  The answer
  is whether no array failed, whether a slot was found, and the arrays.
\<close>

fun place_loop ::
  "('v, 'j) json_build \<Rightarrow> bool \<Rightarrow> string \<Rightarrow> int \<Rightarrow> 'v \<Rightarrow> int list \<Rightarrow> 'v option list \<Rightarrow> nat \<Rightarrow> nat \<Rightarrow>
   bool \<times> 'v option list \<times> 'j \<Rightarrow> (bool \<times> bool \<times> 'v option list \<times> 'j) option" where
  "place_loop jb checked key gid jobj ids objs i 0 s = Some (True, s)"
| "place_loop jb checked key gid jobj ids objs i (Suc n) (found, arrs, j) = do {
     slot_id \<leftarrow> nth_opt ids i;
     if gid \<noteq> slot_id then place_loop jb checked key gid jobj ids objs (Suc i) n (found, arrs, j)
     else do {
       container \<leftarrow> nth_opt objs i;
       arr \<leftarrow> nth_opt arrs i;
       case arr of
         Some a \<Rightarrow> place_loop jb checked key gid jobj ids objs (Suc i) n (True, arrs, jb_array_add jb a (Some jobj) j)
       | None \<Rightarrow>
           (case jb_new_array jb j of
              (None, j) \<Rightarrow> Some (False, True, arrs, j)
            | (Some a, j) \<Rightarrow> do {
                j \<leftarrow> (case container of
                        Some obj \<Rightarrow> Some (jb_object_add jb obj key a j)
                      | None \<Rightarrow> if checked then Some j else None);
                place_loop jb checked key gid jobj ids objs (Suc i) n (True, arrs[i := Some a], jb_array_add jb a (Some jobj) j)
              })
     }
   }"

text \<open>A group that is shown: its slot is chosen by the number of groups shown so far, and its object recorded.\<close>

definition record_group ::
  "('v, 'j) json_build \<Rightarrow> nat \<Rightarrow> nat \<Rightarrow> int \<Rightarrow> 'v \<Rightarrow> 'v \<Rightarrow> ('v, 'j) list_filter_arg \<Rightarrow> ('v, 'j) list_filter_arg option" where
  "record_group jb c idx gid jgroups jgroup s = do {
     jc \<leftarrow> nth_opt (lfa_jdev_list s) c;
     _ \<leftarrow> nth_opt (jc_jgroup_id jc) idx;
     n \<leftarrow> int_incr (lfa_group_num s);
     Some ((set_container c (\<lambda>jc. jc\<lparr>jc_jgroup_id := (jc_jgroup_id jc)[idx := gid],
                                     jc_jgroup_assigned := (jc_jgroup_assigned jc)[idx := Some jgroup]\<rparr>) s)
           \<lparr>lfa_group_num := n, lfa_lib := jb_array_add jb jgroups (Some jgroup) (lfa_lib s)\<rparr>)
   }"

text \<open>The array of the groups of a device, made for the first group.\<close>

definition device_groups ::
  "('v, 'j) json_build \<Rightarrow> nat \<Rightarrow> ('v, 'j) list_filter_arg \<Rightarrow> ('v option \<times> ('v, 'j) list_filter_arg) option" where
  "device_groups jb c s = do {
     jc \<leftarrow> nth_opt (lfa_jdev_list s) c;
     case jc_jgroups jc of
       Some a \<Rightarrow> Some (Some a, s)
     | None \<Rightarrow>
         (case jb_new_array jb (lfa_lib s) of
            (None, j) \<Rightarrow> Some (None, set_lib j s)
          | (Some a, j) \<Rightarrow>
              let j = (case lfa_jdevice s of Some obj \<Rightarrow> jb_object_add jb obj ''groups'' a j | None \<Rightarrow> j) in
              Some (Some a, set_lib j (set_container c (\<lambda>jc. jc\<lparr>jc_jgroups := Some a\<rparr>) s)))
   }"

text \<open>Members of the object of a group that both builders have.\<close>

definition progress_fields :: "ptr \<Rightarrow> 'k field list" where
  "progress_fields grp =
    [nonneg_field ''desc_progress_limit'' accfg_group_get_desc_progress_limit grp,
     nonneg_field ''batch_progress_limit'' accfg_group_get_batch_progress_limit grp]"

definition read_buffer_fields :: "ptr \<Rightarrow> 'k field list" where
  "read_buffer_fields grp =
    [int_field ''read_buffers_reserved'' accfg_group_get_read_buffers_reserved grp,
     int_field ''use_read_buffer_limit'' accfg_group_get_use_read_buffer_limit grp,
     int_field ''read_buffers_allowed'' accfg_group_get_read_buffers_allowed grp]"

end
