(* ===== verification/Load_Config.thy ===== *)
theory Load_Config
  imports Json_Set
begin

text \<open>
  Loading a configuration, \<open>src/accfg/config.c\<close>: the state the static variables make up, the value of one
  key, the walk over the parsed text, reading the file, and enabling what was configured.
\<close>

section \<open>State\<close>

record conf_def_wq_param =
  cd_param :: wq_parameters
  cd_configured :: bool

text \<open>
  The static variables, those of \<open>configure_json_value\<close> included; the lists of devices and queues to enable
  start with the last one added.  \<open>verbose\<close> and \<open>warn_once\<close> decide about messages only.
\<close>

record conf_state =
  cf_enable :: bool
  cf_forced :: bool
  cf_activate_dev_list :: "ptr list"
  cf_activate_wq_list :: "ptr list"
  cf_dsa :: conf_def_wq_param
  cf_iax :: conf_def_wq_param
  cf_default_file :: bool
  cf_buf :: "string option"
  cf_dev :: ptr
  cf_parent :: ptr
  cf_wq :: ptr
  cf_engine :: ptr
  cf_group :: ptr

type_synonym ('k, 'a) conf_run = "('a \<times> 'k mach \<times> conf_state) option"

definition get_conf_def_wq_param :: "accfg_device_type \<Rightarrow> conf_state \<Rightarrow> wq_parameters option" where
  "get_conf_def_wq_param type c =
     (if type = ACCFG_DEVICE_DSA then Some (cd_param (cf_dsa c))
      else if type = ACCFG_DEVICE_IAX then Some (cd_param (cf_iax c))
      else None)"

text \<open>A store through the pointer \<open>get_conf_def_wq_param\<close> returned.\<close>

definition upd_conf_def_wq_param :: "accfg_device_type \<Rightarrow> (wq_parameters \<Rightarrow> wq_parameters) \<Rightarrow> conf_state \<Rightarrow> conf_state" where
  "upd_conf_def_wq_param type f c =
     (if type = ACCFG_DEVICE_DSA then c\<lparr>cf_dsa := (cf_dsa c)\<lparr>cd_param := f (cd_param (cf_dsa c))\<rparr>\<rparr>
      else if type = ACCFG_DEVICE_IAX then c\<lparr>cf_iax := (cf_iax c)\<lparr>cd_param := f (cd_param (cf_iax c))\<rparr>\<rparr>
      else c)"


section \<open>Devices and queues to enable\<close>

definition add_to_activation_list :: "'k os \<Rightarrow> ptr list \<Rightarrow> ptr \<Rightarrow> 'k mach \<Rightarrow> (int \<times> ptr list) \<times> 'k mach" where
  "add_to_activation_list os activate_list dev m =
     (case sys_alloc os m of (ok, m) \<Rightarrow>
      if \<not> ok then ((- ENOMEM, activate_list), m) else ((0, dev # activate_list), m))"

fun enable_all :: "(ptr \<Rightarrow> 'k mach \<Rightarrow> ('k, int) run) \<Rightarrow> ptr list \<Rightarrow> 'k mach \<Rightarrow> ('k, int) run" where
  "enable_all enable [] m = Some (0, m)"
| "enable_all enable (p # ps) m = do {
     (rc, m) \<leftarrow> enable p m;
     if rc \<noteq> 0 then Some (rc, m) else enable_all enable ps m
   }"

definition activate_devices :: "'k os \<Rightarrow> 'k mach \<times> conf_state \<Rightarrow> ('k, int) conf_run" where
  "activate_devices os = (\<lambda>(m, c). do {
     (rc, m) \<leftarrow> enable_all (accfg_device_enable os) (cf_activate_dev_list c) m;
     if rc \<noteq> 0 then Some (rc, m, c)
     else do {
       (rc, m) \<leftarrow> enable_all (accfg_wq_enable os) (cf_activate_wq_list c) m;
       Some (rc, m, c)
     }
   })"


section \<open>One key and its value\<close>

text \<open>Copying the text of a value: a null pointer goes to \<open>strdup\<close>; the copy is null when memory runs out.\<close>

definition strdup :: "'k os \<Rightarrow> string option \<Rightarrow> 'k mach \<Rightarrow> (string option \<times> 'k mach) option" where
  "strdup os s m = do {
     t \<leftarrow> s;
     case sys_alloc os m of (ok, m) \<Rightarrow> Some (if ok then Some t else None, m)
   }"

definition config_default_json :: "'k os \<Rightarrow> 'v json_ops \<Rightarrow> ptr \<Rightarrow> 'v \<Rightarrow> string \<Rightarrow> 'k mach \<times> conf_state \<Rightarrow> ('k mach \<times> conf_state) option" where
  "config_default_json os js wq jobj key = (\<lambda>(m, c). do {
     dev \<leftarrow> accfg_wq_get_device wq m;
     dev_type \<leftarrow> accfg_device_get_type dev m;
     let upd = (\<lambda>f. upd_conf_def_wq_param dev_type f c);
     if get_conf_def_wq_param dev_type c = None then Some (m, c)
     else if key = ''name'' then do {
       (s, m) \<leftarrow> strdup os (js_string js jobj) m;
       Some (m, upd (\<lambda>p. p\<lparr>wqp_name := s\<rparr>))
     }
     else Some (m,
       if key = ''priority'' then upd (\<lambda>p. p\<lparr>wqp_priority := u32 (fst (js_int js jobj))\<rparr>)
       else if key = ''group_id'' then upd (\<lambda>p. p\<lparr>wqp_group_id := fst (js_int js jobj)\<rparr>)
       else if key = ''block_on_fault'' then upd (\<lambda>p. p\<lparr>wqp_block_on_fault := fst (js_int js jobj)\<rparr>)
       else if key = ''ats_disable'' then upd (\<lambda>p. p\<lparr>wqp_ats_disable := fst (js_int js jobj)\<rparr>)
       else if key = ''prs_disable'' then upd (\<lambda>p. p\<lparr>wqp_prs_disable := fst (js_int js jobj)\<rparr>)
       else c)
   })"

text \<open>
  The search for a type of accelerator in the name.  The result is a code to return, or \<open>None\<close> to go on; the
  first type of the table is tried twice, as the counter of the loop starts at 0.
\<close>

definition accel_types :: "string list" where
  "accel_types = hd (map snd accfg_basenames) # map snd accfg_basenames"

fun parse_dev_loop :: "'k os \<Rightarrow> ptr \<Rightarrow> string \<Rightarrow> string list \<Rightarrow> 'k mach \<times> conf_state \<Rightarrow> ('k, int option) conf_run" where
  "parse_dev_loop os ctx parsed [] (m, c) = Some (None, m, c)"
| "parse_dev_loop os ctx parsed (accel_type # types) (m, c) =
     (if strstr parsed accel_type then
        (if length accel_type > MAX_DEV_LEN then Some (Some (- EINVAL), m, c)
         else if scan_d (drop (length accel_type) parsed) = None then Some (Some (- EINVAL), m, c)
         else do {
           (dev, m) \<leftarrow> accfg_ctx_device_get_by_name os ctx parsed m;
           let c = c\<lparr>cf_parent := 0, cf_dev := dev\<rparr>;
           if dev = 0 then Some (Some (- ENOENT), m, c)
           else do {
             (dev_state, m) \<leftarrow> accfg_device_get_state os dev m;
             if dev_state = ACCFG_DEVICE_ENABLED \<and> \<not> cf_forced c then Some (Some 0, m, c\<lparr>cf_dev := 0\<rparr>)
             else do {
               (rc, m) \<leftarrow> (if dev_state = ACCFG_DEVICE_ENABLED then accfg_device_disable os dev True m else Some (0, m));
               if rc \<noteq> 0 then Some (Some rc, m, c)
               else
                 (case (if cf_enable c then add_to_activation_list os (cf_activate_dev_list c) dev m
                        else ((0, cf_activate_dev_list c), m)) of ((rc, ds), m) \<Rightarrow>
                  let c = c\<lparr>cf_activate_dev_list := ds\<rparr> in
                  if rc \<noteq> 0 then Some (Some rc, m, c)
                  else Some (None, m, c\<lparr>cf_parent := dev\<rparr>))
             }
           }
         })
      else parse_dev_loop os ctx parsed types (m, c))"

text \<open>\<open>sscanf(..., "%d.%d", &dev_id, &id)\<close> behind as many characters as the kind has; the device is not used.\<close>

definition scan_child_id :: "string \<Rightarrow> string \<Rightarrow> int option" where
  "scan_child_id kind parsed = do {
     (dev_id, r) \<leftarrow> scan_d (drop (length kind) parsed);
     r \<leftarrow> scan_lit (CHR ''.'') r;
     (i, _) \<leftarrow> scan_d r;
     Some i
   }"

text \<open>The three searches for a child by the kind in the name, one after the other.\<close>

definition parse_wq_key :: "'k os \<Rightarrow> string \<Rightarrow> 'k mach \<times> conf_state \<Rightarrow> ('k, int option) conf_run" where
  "parse_wq_key os parsed = (\<lambda>(m, c).
     if \<not> strstr parsed ''wq'' then Some (None, m, c)
     else case scan_child_id ''wq'' parsed of
       None \<Rightarrow> Some (Some (- EINVAL), m, c)
     | Some i \<Rightarrow> do {
         (wq, m) \<leftarrow> accfg_device_wq_get_by_id os (cf_parent c) i m;
         let c = c\<lparr>cf_wq := wq\<rparr>;
         if wq = 0 then Some (Some (- ENOENT), m, c)
         else do {
           (wq_state, m) \<leftarrow> accfg_wq_get_state os wq m;
           if wq_state = ACCFG_WQ_ENABLED \<or> wq_state = ACCFG_WQ_LOCKED then Some (Some 0, m, c\<lparr>cf_wq := 0\<rparr>)
           else
             (case (if cf_enable c then add_to_activation_list os (cf_activate_wq_list c) wq m
                    else ((0, cf_activate_wq_list c), m)) of ((rc, ws), m) \<Rightarrow>
              let c = c\<lparr>cf_activate_wq_list := ws\<rparr> in
              Some (if rc \<noteq> 0 then Some rc else None, m, c))
         }
       })"

definition parse_engine_key :: "'k os \<Rightarrow> string \<Rightarrow> 'k mach \<times> conf_state \<Rightarrow> ('k, int option) conf_run" where
  "parse_engine_key os parsed = (\<lambda>(m, c).
     if \<not> strstr parsed ''engine'' then Some (None, m, c)
     else case scan_child_id ''engine'' parsed of
       None \<Rightarrow> Some (Some (- EINVAL), m, c)
     | Some i \<Rightarrow> do {
         (engine, m) \<leftarrow> accfg_device_engine_get_by_id os (cf_parent c) i m;
         Some (if engine = 0 then Some (- ENOENT) else None, m, c\<lparr>cf_engine := engine\<rparr>)
       })"

definition parse_group_key :: "'k os \<Rightarrow> string \<Rightarrow> 'k mach \<times> conf_state \<Rightarrow> ('k, int option) conf_run" where
  "parse_group_key os parsed = (\<lambda>(m, c).
     if \<not> strstr parsed ''group'' then Some (None, m, c)
     else case scan_child_id ''group'' parsed of
       None \<Rightarrow> Some (Some (- EINVAL), m, c)
     | Some i \<Rightarrow> do {
         (grp, m) \<leftarrow> accfg_device_group_get_by_id os (cf_parent c) i m;
         Some (if grp = 0 then Some (- ENOENT) else None, m, c\<lparr>cf_group := grp\<rparr>)
       })"

text \<open>Steps that may return a code; 0 when all go through.\<close>

fun until_code :: "(('k mach \<times> conf_state) \<Rightarrow> ('k, int option) conf_run) list \<Rightarrow> 'k mach \<times> conf_state \<Rightarrow> ('k, int) conf_run" where
  "until_code [] s = Some (0, s)"
| "until_code (f # fs) s = do {
     (r, s) \<leftarrow> f s;
     case r of Some rc \<Rightarrow> Some (rc, s) | None \<Rightarrow> until_code fs s
   }"

definition configure_dev :: "'k os \<Rightarrow> ptr \<Rightarrow> string \<Rightarrow> 'k mach \<times> conf_state \<Rightarrow> ('k, int) conf_run" where
  "configure_dev os ctx parsed = (\<lambda>(m, c).
     until_code
       [parse_dev_loop os ctx parsed accel_types,
        (\<lambda>(m, c). Some (if cf_parent c = 0 then Some 0 else None, m, c)),
        parse_wq_key os parsed, parse_engine_key os parsed, parse_group_key os parsed]
       (m, c\<lparr>cf_dev := 0, cf_group := 0, cf_wq := 0, cf_engine := 0\<rparr>))"

text \<open>A value for the object named last; the states kept on the stack are those before any read.\<close>

definition configure_attr :: "'k os \<Rightarrow> 'v json_ops \<Rightarrow> 'v \<Rightarrow> string \<Rightarrow> 'k mach \<times> conf_state \<Rightarrow> ('k, int) conf_run" where
  "configure_attr os js jobj key = (\<lambda>(m, c).
     if cf_parent c = 0 then Some (0, m, c)
     else if cf_wq c \<noteq> 0 \<and> cf_default_file c then do {
       (m, c) \<leftarrow> config_default_json os js (cf_wq c) jobj key (m, c);
       Some (0, m, c)
     }
     else do {
       (rc, m) \<leftarrow>
         (if cf_dev c \<noteq> 0 then device_json_set_val os js (cf_dev c) jobj key m
          else if cf_group c \<noteq> 0 then group_json_set_val os js (cf_group c) jobj key m
          else if cf_wq c \<noteq> 0 then wq_json_set_val os js (cf_wq c) jobj key m
          else if cf_engine c \<noteq> 0 then engine_json_set_val os js (cf_engine c) jobj key m
          else Some (- EINVAL, m));
       Some (if rc < 0 then rc else 0, m, c)
     })"

definition configure_json_value ::
  "'k os \<Rightarrow> 'v json_ops \<Rightarrow> ptr \<Rightarrow> 'v \<Rightarrow> string option \<Rightarrow> 'k mach \<times> conf_state \<Rightarrow> ('k, int) conf_run" where
  "configure_json_value os js ctx jobj key = (\<lambda>(m, c).
     case key of
       None \<Rightarrow> Some (- EINVAL, m, c)
     | Some key \<Rightarrow>
         if ctx = 0 \<or> json_null js jobj then Some (- EINVAL, m, c)
         else if key = ''dev'' then
           (case js_string js jobj of
              None \<Rightarrow> Some (- EINVAL, m, c)
            | Some parsed \<Rightarrow> configure_dev os ctx parsed (m, c))
         else configure_attr os js jobj key (m, c))"


section \<open>The walk over the parsed text\<close>

text \<open>A loop whose body answers \<open>False\<close> to end it with -1.\<close>

fun json_loop :: "('x \<Rightarrow> 's \<Rightarrow> (bool \<times> 's) option) \<Rightarrow> 'x list \<Rightarrow> 's \<Rightarrow> (int \<times> 's) option" where
  "json_loop body [] s = Some (0, s)"
| "json_loop body (x # xs) s = do {
     (go_on, s) \<leftarrow> body x s;
     if go_on then json_loop body xs s else Some (-1, s)
   }"

text \<open>
  \<open>json_parse\<close> and \<open>json_parse_array\<close>; fuel bounds the depth of the value.  The variable \<open>jobj\<close> is part of the
  state of the first loop: a member that is an object takes its place, and arrays are looked up in it.  The
  length of a value that is not an array is undefined in the library, and so are the members of one that is not an
  object (its table is the null pointer).
\<close>

fun json_parse :: "nat \<Rightarrow> 'k os \<Rightarrow> 'v json_ops \<Rightarrow> ptr \<Rightarrow> 'v \<Rightarrow> 'k mach \<times> conf_state \<Rightarrow> ('k, int) conf_run"
  and json_parse_array :: "nat \<Rightarrow> 'k os \<Rightarrow> 'v json_ops \<Rightarrow> ptr \<Rightarrow> 'v \<Rightarrow> string option \<Rightarrow> 'k mach \<times> conf_state \<Rightarrow> ('k, int) conf_run" where
  "json_parse 0 os js ctx jobj s = None"
| "json_parse (Suc n) os js ctx jobj s = (if js_type js jobj \<noteq> json_type_object then None else do {
     (rc, _, s) \<leftarrow> json_loop (\<lambda>(key, val) (jobj, s).
       case js_type js val of
         json_type_null \<Rightarrow> Some (True, jobj, s)
       | json_type_object \<Rightarrow>
           (case map_of (js_members js jobj) key of
              None \<Rightarrow> Some (False, jobj, s)
            | Some jobj \<Rightarrow> do { (_, s) \<leftarrow> json_parse n os js ctx jobj s; Some (True, jobj, s) })
       | json_type_array \<Rightarrow> do {
           (rc, s) \<leftarrow> json_parse_array n os js ctx jobj (Some key) s;
           Some (rc = 0, jobj, s)
         }
       | _ \<Rightarrow> do {
           (rc, s) \<leftarrow> configure_json_value os js ctx val (Some key) s;
           Some (rc = 0, jobj, s)
         }) (js_members js jobj) (jobj, s);
     Some (rc, s)
   })"
| "json_parse_array 0 os js ctx jobj key s = None"
| "json_parse_array (Suc n) os js ctx jobj key s =
     (case (case key of None \<Rightarrow> Some jobj | Some k \<Rightarrow> map_of (js_members js jobj) k) of
        None \<Rightarrow> Some (-1, s)
      | Some jarray \<Rightarrow>
          if js_type js jarray \<noteq> json_type_array then None
          else if js_elements js jarray = [] then Some (-1, s)
          else json_loop (\<lambda>jvalue s.
            case js_type js jvalue of
              json_type_null \<Rightarrow> Some (False, s)
            | json_type_array \<Rightarrow> do { (rc, s) \<leftarrow> json_parse_array n os js ctx jvalue None s; Some (rc = 0, s) }
            | json_type_object \<Rightarrow> do { (rc, s) \<leftarrow> json_parse n os js ctx jvalue s; Some (rc = 0, s) }
            | _ \<Rightarrow> do { (rc, s) \<leftarrow> configure_json_value os js ctx jvalue None s; Some (rc = 0, s) })
            (js_elements js jarray) s)"

declare json_parse.simps [simp del] json_parse_array.simps [simp del]

text \<open>
  The parser is given the address of the buffer, which has no NUL at its end: it reads the C string that starts there, and
  with it what the memory behind the buffer holds.
\<close>

definition buffer_text :: "'v json_ops \<Rightarrow> string \<Rightarrow> string" where
  "buffer_text js buf = cstring (buf @ js_behind js)"

definition parse_config :: "nat \<Rightarrow> 'k os \<Rightarrow> 'v json_ops \<Rightarrow> ptr \<Rightarrow> 'k mach \<times> conf_state \<Rightarrow> ('k, int) conf_run" where
  "parse_config fuel os js ctx = (\<lambda>(m, c).
     case cf_buf c of
       None \<Rightarrow> Some (- EINVAL, m, c)
     | Some buf \<Rightarrow>
         (case js_parse js (buffer_text js buf) of
            None \<Rightarrow> Some (- ENOMEM, m, c)
          | Some jobj \<Rightarrow> do {
              (rc, s) \<leftarrow> json_parse_array fuel os js ctx jobj None (m, c);
              Some (if rc < 0 then rc else 0, s)
            }))"

text \<open>
  \<open>read_config_file\<close>: the calls on a stream are parameters; a short read leaves the code of \<open>fstat\<close>, and the
  rest of the buffer unwritten.
\<close>

record 'k file_ops =
  fo_open :: "string \<Rightarrow> 'k \<Rightarrow> int option"
  fo_stat_size :: "string \<Rightarrow> 'k \<Rightarrow> int + int"
  fo_read :: "string \<Rightarrow> nat \<Rightarrow> 'k \<Rightarrow> string"

definition read_config_file ::
  "'k os \<Rightarrow> 'k file_ops \<Rightarrow> string \<Rightarrow> string option \<Rightarrow> 'k mach \<times> conf_state \<Rightarrow> ('k, int) conf_run" where
  "read_config_file os fo ACCFG_CONF_FILE config_file = (\<lambda>(m, c).
     let file = (case config_file of Some f \<Rightarrow> f | None \<Rightarrow> ACCFG_CONF_FILE) in
     case sys_alloc os m of (ok, m) \<Rightarrow>
     if \<not> ok then Some (- ENOMEM, m, c)
     else (case fo_open fo file (kern m) of
       Some e \<Rightarrow> Some (- e, m\<lparr>errno := e\<rparr>, c)
     | None \<Rightarrow>
         (case fo_stat_size fo file (kern m) of
            Inl e \<Rightarrow> Some (- e, m\<lparr>errno := e\<rparr>, c)
          | Inr st_size \<Rightarrow>
              (case sys_alloc os m of (ok, m) \<Rightarrow>
               if \<not> ok \<or> s32 st_size < 0 then Some (- ENOMEM, m, c\<lparr>cf_buf := None\<rparr>)
               else Some (0, m, c\<lparr>cf_buf := Some (fo_read fo file (nat (s32 st_size)) (kern m))\<rparr>)))))"


section \<open>The pairs of a configuration\<close>

text \<open>The keys and values one after the other, until a code is not 0: what loading comes down to.\<close>

definition configure_pairs ::
  "'k os \<Rightarrow> 'v json_ops \<Rightarrow> ptr \<Rightarrow> (string \<times> 'v) list \<Rightarrow> 'k mach \<times> conf_state \<Rightarrow> ('k, int) conf_run" where
  "configure_pairs os js ctx =
     json_loop (\<lambda>(key, val) s. do { (rc, s) \<leftarrow> configure_json_value os js ctx val (Some key) s; Some (rc = 0, s) })"

text \<open>
  The pairs in the order of the text, for a configuration as the tool writes it: arrays of objects and of
  arrays, objects with scalars and arrays, no empty array, up to a depth.
\<close>

definition concat_all :: "('x \<Rightarrow> 'y list option) \<Rightarrow> 'x list \<Rightarrow> 'y list option" where
  "concat_all f xs = map_option concat (those (map f xs))"

fun flat_object :: "nat \<Rightarrow> 'v json_ops \<Rightarrow> 'v \<Rightarrow> (string \<times> 'v) list option"
  and flat_array :: "nat \<Rightarrow> 'v json_ops \<Rightarrow> 'v \<Rightarrow> (string \<times> 'v) list option" where
  "flat_object 0 js v = None"
| "flat_object (Suc n) js v = concat_all (\<lambda>(key, x). case js_type js x of
     json_type_null \<Rightarrow> Some [] | json_type_object \<Rightarrow> None | json_type_array \<Rightarrow> flat_array n js x
   | _ \<Rightarrow> Some [(key, x)]) (js_members js v)"
| "flat_array 0 js v = None"
| "flat_array (Suc n) js v =
     (if js_type js v \<noteq> json_type_array \<or> js_elements js v = [] then None
      else concat_all (\<lambda>x. case js_type js x of
        json_type_object \<Rightarrow> flat_object n js x | json_type_array \<Rightarrow> flat_array n js x | _ \<Rightarrow> None) (js_elements js v))"

declare flat_object.simps [simp del] flat_array.simps [simp del]

lemma json_loop_append:
  "json_loop body (xs @ ys) s = do { (rc, s) \<leftarrow> json_loop body xs s; if rc = 0 then json_loop body ys s else Some (rc, s) }"
proof (induction xs arbitrary: s)
  case (Cons x xs)
  then show ?case by (cases "body x s") auto
qed simp

lemma json_loop_code: "json_loop body xs s = Some (rc, s') \<Longrightarrow> rc = 0 \<or> rc = -1"
  by (induction xs arbitrary: s) (auto simp: bind_pair_Some_iff split: if_splits)

lemma concat_all_Cons: "concat_all f (x # xs) = (case f x of None \<Rightarrow> None | Some y \<Rightarrow> map_option ((@) y) (concat_all f xs))"
  by (simp add: concat_all_def option.map_comp o_def split: option.split)

lemma concat_all_Nil [simp]: "concat_all f [] = Some []"
  by (simp add: concat_all_def)

lemma concat_all_Some: "concat_all f xs = Some ps \<Longrightarrow> x \<in> set xs \<Longrightarrow> \<exists>qs. f x = Some qs"
  by (induction xs arbitrary: ps) (auto simp: concat_all_Cons split: option.splits)

text \<open>A loop whose body runs the pairs of each element runs the pairs of all of them.\<close>

lemma json_loop_flat:
  assumes "concat_all f xs = Some ps"
    and "\<And>x qs s. x \<in> set xs \<Longrightarrow> f x = Some qs \<Longrightarrow> body x s = map_option (\<lambda>(rc, s). (rc = 0, s)) (configure_pairs os js ctx qs s)"
  shows "json_loop body xs s = configure_pairs os js ctx ps s"
  using assms
proof (induction xs arbitrary: ps s)
  case Nil
  then show ?case by (simp add: configure_pairs_def)
next
  case (Cons x xs)
  from Cons.prems(1) obtain qs rs where f: "f x = Some qs" "concat_all f xs = Some rs" "ps = qs @ rs"
    by (auto simp: concat_all_Cons split: option.splits)
  from Cons.IH [OF f(2)] Cons.prems(2) have "json_loop body xs s = configure_pairs os js ctx rs s" for s by simp
  moreover have "body x s = map_option (\<lambda>(rc, s). (rc = 0, s)) (configure_pairs os js ctx qs s)"
    using Cons.prems(2) f(1) by simp
  moreover have "rc = 0 \<or> rc = -1" if "configure_pairs os js ctx qs s = Some (rc, s')" for rc s'
    by (rule json_loop_code [OF that [unfolded configure_pairs_def]])
  ultimately show ?case
    unfolding f(3) by (cases "configure_pairs os js ctx qs s") (auto simp: configure_pairs_def json_loop_append)
qed

lemma json_loop_keep:
  assumes "\<And>x s. x \<in> set xs \<Longrightarrow> body' x (v, s) = map_option (\<lambda>(b, s). (b, v, s)) (body x s)"
  shows "json_loop body' xs (v, s) = map_option (\<lambda>(rc, s). (rc, v, s)) (json_loop body xs s)"
  using assms
proof (induction xs arbitrary: s)
  case (Cons x xs)
  then show ?case by (cases "body x s") auto
qed simp

lemma json_parse_array_key:
  "map_of (js_members js v) k = Some x \<Longrightarrow> json_parse_array n os js ctx v (Some k) s = json_parse_array n os js ctx x None s"
  by (cases n) (simp_all add: json_parse_array.simps)

lemma bind_keep:
  "r \<bind> (\<lambda>(rc, s). Some (rc = 0, v, s)) = map_option (\<lambda>(b, s). (b, v, s)) (r \<bind> (\<lambda>(rc, s). Some (rc = 0, s)))"
  for r :: "(int \<times> 's) option"
  by (cases r) auto

text \<open>The members of an object have different names.\<close>

definition json_ok :: "'v json_ops \<Rightarrow> bool" where
  "json_ok js \<longleftrightarrow> (\<forall>v. distinct (map fst (js_members js v)))"

lemma configure_pairs_one:
  "map_option (\<lambda>(rc, s). (rc = 0, s)) (configure_pairs os js ctx [(k, v)] s) =
   do { (rc, s) \<leftarrow> configure_json_value os js ctx v (Some k) s; Some (rc = 0, s) }"
  by (cases "configure_json_value os js ctx v (Some k) s") (auto simp: configure_pairs_def)

lemma json_parse_flat:
  assumes "json_ok js"
  shows "js_type js v = json_type_object \<Longrightarrow> flat_object n js v = Some ps \<Longrightarrow> json_parse n os js ctx v s = configure_pairs os js ctx ps s"
    and "flat_array n js v = Some ps \<Longrightarrow> json_parse_array n os js ctx v None s = configure_pairs os js ctx ps s"
proof (induction n arbitrary: v ps s)
  case 0
  { case 1 from 1(2) show ?case by (simp add: flat_object.simps) }
  { case 2 then show ?case by (simp add: flat_array.simps) }
next
  case (Suc n)
  {
    case 1
    let ?b = "\<lambda>(key, x) s. case js_type js x of
        json_type_null \<Rightarrow> Some (True, s)
      | json_type_array \<Rightarrow> do { (rc, s) \<leftarrow> json_parse_array n os js ctx x None s; Some (rc = 0, s) }
      | _ \<Rightarrow> do { (rc, s) \<leftarrow> configure_json_value os js ctx x (Some key) s; Some (rc = 0, s) }"
    let ?f = "\<lambda>(key, x). case js_type js x of
        json_type_null \<Rightarrow> Some [] | json_type_object \<Rightarrow> None | json_type_array \<Rightarrow> flat_array n js x | _ \<Rightarrow> Some [(key, x)]"
    have flat: "concat_all ?f (js_members js v) = Some ps" using 1(2) by (simp add: flat_object.simps)
    have look: "map_of (js_members js v) k = Some x" if "(k, x) \<in> set (js_members js v)" for k x
      using assms that by (simp add: json_ok_def)
    have some: "\<exists>qs. ?f y = Some qs" if "y \<in> set (js_members js v)" for y
      by (rule concat_all_Some [OF flat that])
    have "json_loop ?b (js_members js v) s = configure_pairs os js ctx ps s"
    proof (rule json_loop_flat [OF flat])
      fix y qs s
      assume "?f y = Some qs"
      then show "?b y s = map_option (\<lambda>(rc, s). (rc = 0, s)) (configure_pairs os js ctx qs s)"
        using Suc.IH(2) configure_pairs_one [of os js ctx "fst y" "snd y" s]
        by (cases y; cases "js_type js (snd y)")
          (auto simp: configure_pairs_def map_option_case split: option.split prod.split)
    qed
    moreover have "json_parse (Suc n) os js ctx v s = map_option (\<lambda>(rc, _, s). (rc, s))
        (map_option (\<lambda>(rc, s). (rc, v, s)) (json_loop ?b (js_members js v) s))"
    proof (subst json_loop_keep [symmetric])
      show "(case y of (key, val) \<Rightarrow> \<lambda>(jobj, s). case js_type js val of
         json_type_null \<Rightarrow> Some (True, jobj, s)
       | json_type_object \<Rightarrow>
           (case map_of (js_members js jobj) key of
              None \<Rightarrow> Some (False, jobj, s)
            | Some jobj \<Rightarrow> do { (_, s) \<leftarrow> json_parse n os js ctx jobj s; Some (True, jobj, s) })
       | json_type_array \<Rightarrow> do {
           (rc, s) \<leftarrow> json_parse_array n os js ctx jobj (Some key) s;
           Some (rc = 0, jobj, s)
         }
       | _ \<Rightarrow> do {
           (rc, s) \<leftarrow> configure_json_value os js ctx val (Some key) s;
           Some (rc = 0, jobj, s)
         }) (v, s) = map_option (\<lambda>(b, s). (b, v, s)) (?b y s)" if y: "y \<in> set (js_members js v)" for y s
        using some [OF y] look [of "fst y" "snd y"] y json_parse_array_key [of js v "fst y" "snd y" n os ctx s]
        by (cases y; cases "js_type js (snd y)") (auto simp: bind_keep)
    qed (use 1(1) in \<open>auto simp: json_parse.simps map_option_case split: option.split\<close>)
    ultimately show ?case by (simp add: option.map_comp comp_def case_prod_unfold option.map_ident)
  }
  {
    case 2
    then have arr: "js_type js v = json_type_array" "js_elements js v \<noteq> []"
      and flat: "concat_all (\<lambda>x. case js_type js x of
        json_type_object \<Rightarrow> flat_object n js x | json_type_array \<Rightarrow> flat_array n js x | _ \<Rightarrow> None) (js_elements js v) = Some ps"
      by (auto simp: flat_array.simps split: if_splits)
    have "json_loop (\<lambda>jvalue s.
            case js_type js jvalue of
              json_type_null \<Rightarrow> Some (False, s)
            | json_type_array \<Rightarrow> do { (rc, s) \<leftarrow> json_parse_array n os js ctx jvalue None s; Some (rc = 0, s) }
            | json_type_object \<Rightarrow> do { (rc, s) \<leftarrow> json_parse n os js ctx jvalue s; Some (rc = 0, s) }
            | _ \<Rightarrow> do { (rc, s) \<leftarrow> configure_json_value os js ctx jvalue None s; Some (rc = 0, s) })
            (js_elements js v) s = configure_pairs os js ctx ps s"
    proof (rule json_loop_flat [OF flat])
      fix x qs s
      assume "(case js_type js x of json_type_object \<Rightarrow> flat_object n js x | json_type_array \<Rightarrow> flat_array n js x | _ \<Rightarrow> None) = Some qs"
      then show "(case js_type js x of
              json_type_null \<Rightarrow> Some (False, s)
            | json_type_array \<Rightarrow> do { (rc, s) \<leftarrow> json_parse_array n os js ctx x None s; Some (rc = 0, s) }
            | json_type_object \<Rightarrow> do { (rc, s) \<leftarrow> json_parse n os js ctx x s; Some (rc = 0, s) }
            | _ \<Rightarrow> do { (rc, s) \<leftarrow> configure_json_value os js ctx x None s; Some (rc = 0, s) })
          = map_option (\<lambda>(rc, s). (rc = 0, s)) (configure_pairs os js ctx qs s)"
        using Suc.IH by (cases "js_type js x") (auto simp: map_option_case split: option.split)
    qed
    with arr show ?case by (simp add: json_parse_array.simps)
  }
qed

section \<open>Names in a configuration\<close>

lemma strstr_prefix: "take (length needle) s = needle \<Longrightarrow> strstr s needle"
  by (cases s) auto

lemma strstr_append [simp]: "strstr (needle @ r) needle"
  by (rule strstr_prefix) simp

lemma show_int_not_lower: "c \<in> set (show_int x) \<Longrightarrow> \<not> is_lower c"
  using set_show_int [of c x] by (auto simp: is_lower_def digit_char_def)

lemma scan_d_show_int_end: "scan_d (show_int x) = Some (s32 (long_sat x), [])"
  using scan_d_show_int [of "[]" x] by simp

lemma strstr_needs: "c \<in> set needle \<Longrightarrow> c \<notin> set s \<Longrightarrow> \<not> strstr s needle"
  using strstr_set by blast

text \<open>The name of a device, \<open>dsa0\<close> or \<open>iax1\<close>: no type but its own is found in it.\<close>

lemma device_name_strstr:
  assumes "t = ''dsa'' \<or> t = ''iax''" "t' = ''dsa'' \<or> t' = ''iax''"
  shows "strstr (t @ show_int i) t' \<longleftrightarrow> t' = t"
proof -
  have "CHR ''d'' \<notin> set (show_int i)" "CHR ''x'' \<notin> set (show_int i)"
    using show_int_not_lower by (force simp: is_lower_def)+
  then have "\<not> strstr (''dsa'' @ show_int i) ''iax''" "\<not> strstr (''iax'' @ show_int i) ''dsa''"
    using strstr_needs [of "CHR ''x''" "''iax''"] strstr_needs [of "CHR ''d''" "''dsa''"] by auto
  then show ?thesis using assms strstr_append [of t "show_int i"] by auto
qed

lemma parse_dev_loop_named:
  assumes "t = ''dsa'' \<or> t = ''iax''"
  shows "parse_dev_loop os ctx (t @ show_int i) accel_types s = parse_dev_loop os ctx (t @ show_int i) [t] s"
  using assms device_name_strstr [OF assms, of "''dsa''" i] device_name_strstr [OF assms, of "''iax''" i]
  by (cases s) (auto simp: accel_types_def accfg_basenames_def)

lemma parse_dev_loop_none:
  "\<not> strstr parsed ''dsa'' \<Longrightarrow> \<not> strstr parsed ''iax'' \<Longrightarrow> parse_dev_loop os ctx parsed accel_types s = Some (None, s)"
  by (cases s) (simp add: accel_types_def accfg_basenames_def)

lemma by_name_exact:
  assumes "wf_state m" "discovered m c cx"
  shows "accfg_ctx_device_get_by_name os c name m =
     Some (case named accfg_device_get_devname name (c_devices cx) m of None \<Rightarrow> 0 | Some d \<Rightarrow> d, m)"
proof -
  have cx: "ctxs m c = Some cx" using assms(2) by (simp add: discovered_def)
  note ls = devices_listed [OF assms(1) cx]
  have "(\<lambda>p. do { n \<leftarrow> accfg_device_get_devname p m; Some (n = name) }) = (\<lambda>p. do { n \<leftarrow> accfg_device_get_devname p m; Some (name = n) })"
    by (simp add: eq_commute)
  then show ?thesis
    using cx discovered_first [OF assms(2)]
      find_named [where step = accfg_device_get_next and devname = accfg_device_get_devname and name = name, OF ls(1,2) ls(4,3)]
    by (simp add: accfg_ctx_device_get_by_name_def)
qed


text \<open>The name of a work queue: no other kind is found in it, and its two numbers are read back.\<close>

definition wq_name_of :: "int \<Rightarrow> int \<Rightarrow> string" where
  "wq_name_of a i = ''wq'' @ show_int a @ ''.'' @ show_int i"

lemma wq_name_strstr:
  "strstr (wq_name_of a i) ''wq''" "\<not> strstr (wq_name_of a i) ''dsa''" "\<not> strstr (wq_name_of a i) ''iax''"
  "\<not> strstr (wq_name_of a i) ''engine''" "\<not> strstr (wq_name_of a i) ''group''"
proof -
  show "strstr (wq_name_of a i) ''wq''" unfolding wq_name_of_def by (rule strstr_append)
  have no: "c \<notin> set (wq_name_of a i)" if "is_lower c" "c \<noteq> CHR ''w''" "c \<noteq> CHR ''q''" for c
    using that show_int_not_lower by (auto simp: wq_name_of_def is_lower_def)
  show "\<not> strstr (wq_name_of a i) ''dsa''" "\<not> strstr (wq_name_of a i) ''iax''"
    "\<not> strstr (wq_name_of a i) ''engine''" "\<not> strstr (wq_name_of a i) ''group''"
    using strstr_needs [OF _ no, of "CHR ''a''"] strstr_needs [OF _ no, of "CHR ''e''"] strstr_needs [OF _ no, of "CHR ''r''"]
    by (auto simp: is_lower_def)
qed

lemma scan_child_id_wq: "scan_child_id ''wq'' (wq_name_of a i) = Some (s32 (long_sat i))"
  using scan_d_show_int [of "''.'' @ show_int i" a]
  by (simp add: scan_child_id_def wq_name_of_def scan_lit_def num_stop_def scan_d_show_int_end digit_val_def)

lemma configure_dev_wq:
  assumes "cf_parent c \<noteq> 0"
  shows "configure_dev os ctx (wq_name_of a i) (m, c) =
    do { (r, s) \<leftarrow> parse_wq_key os (wq_name_of a i) (m, c\<lparr>cf_dev := 0, cf_group := 0, cf_wq := 0, cf_engine := 0\<rparr>);
         Some (case r of Some rc \<Rightarrow> (rc, s) | None \<Rightarrow> (0, s)) }"
  using assms wq_name_strstr
  by (auto simp: configure_dev_def parse_dev_loop_none parse_engine_key_def parse_group_key_def split: option.split intro!: bind_option_cong)

text \<open>A queue by its number on a discovered device, and its state.\<close>

lemma wq_by_id:
  assumes "wf_state m" "devices m d = Some dv" "device_done m dv"
    and "List.find (\<lambda>w. map_option wq_id (wqs m w) = Some i) (dev_wqs dv) = Some w"
  shows "accfg_device_wq_get_by_id os d i m = Some (w, m)"
proof -
  have "wqs_init os d m = Some m" using assms(2,3) by (auto simp: wqs_init_def device_done_def)
  from accfg_device_wq_get_by_id_first [OF this assms(1,2), of i] assms(4) show ?thesis by simp
qed

definition wq_state_of :: "string \<Rightarrow> accfg_wq_state" where
  "wq_state_of s = (if s = ''disabled'' then ACCFG_WQ_DISABLED else if s = ''enabled'' then ACCFG_WQ_ENABLED
     else if s = ''quiescing'' then ACCFG_WQ_QUIESCING else if s = ''locked'' then ACCFG_WQ_LOCKED else ACCFG_WQ_UNKNOWN)"

lemma wq_state_reads:
  assumes "wf_state m" "wqs m w = Some wq" "attr_reads os (wq_path wq @ ''/state'') s (kern m)"
  shows "accfg_wq_get_state os w m = Some (wq_state_of s, m)"
proof -
  obtain dv where "devices m (wq_device wq) = Some dv" using wf_wq(2) [OF assms(1,2)] by blast
  then show ?thesis
    using assms(2) snprintf_path_fits [OF wf_wq(1) [OF assms(1,2)], of "''state''"] read_or_record_text [OF assms(3)]
    by (simp add: accfg_wq_get_state_def accfg_wq_get_ctx_def wq_state_of_def)
qed


section \<open>Properties\<close>

text \<open>
  C11: loading a configuration sets its pairs of keys and values one after the other, in the order of the
  text, and stops with -1 at the first one that fails: the recursion over the value that the JSON parser makes of the text in
  memory, on arrays and objects as the tool writes them, does exactly what the flat list of pairs does, and ends.
\<close>

theorem parse_config_pairs:
  assumes "json_ok js" "cf_buf c = Some buf" "js_parse js (buffer_text js buf) = Some v" "flat_array n js v = Some ps"
  shows "parse_config n os js ctx (m, c) = configure_pairs os js ctx ps (m, c)"
  using assms json_parse_flat(2) [OF assms(1,4), of os ctx "(m, c)"] json_loop_code
  by (cases "configure_pairs os js ctx ps (m, c)")
    (fastforce simp: parse_config_def configure_pairs_def)+

text \<open>
  C19: without \<open>--forced\<close> an enabled device is left alone: after its name every pair up to the name of another
  device, the names of its children and their attributes, is skipped with the code 0, and neither the
  objects nor the kernel change.
\<close>

theorem load_skips_enabled:
  assumes "wf_state m" "discovered m ctx cx" "ctx \<noteq> 0" "\<not> cf_forced c"
    and "t = ''dsa'' \<or> t = ''iax''" "js_string js v0 = Some (t @ show_int i)" "\<not> json_null js v0"
    and "named accfg_device_get_devname (t @ show_int i) (c_devices cx) m = Some d" "devices m d = Some dv"
    and "attr_reads os (dev_path dv @ ''/state'') ''enabled'' (kern m)"
    and "\<forall>(k, v) \<in> set ps. \<not> json_null js v \<and> (k = ''dev'' \<longrightarrow>
          (\<exists>name. js_string js v = Some name \<and> \<not> strstr name ''dsa'' \<and> \<not> strstr name ''iax''))"
  shows "configure_pairs os js ctx ((''dev'', v0) # ps) (m, c) =
     Some (0, m, c\<lparr>cf_parent := 0, cf_dev := 0, cf_group := 0, cf_wq := 0, cf_engine := 0\<rparr>)"
proof -
  let ?c = "c\<lparr>cf_parent := 0, cf_dev := 0, cf_group := 0, cf_wq := 0, cf_engine := 0\<rparr>"
  have skip: "configure_pairs os js ctx ps (m, ?c) = Some (0, m, ?c)"
    using assms(11)
  proof (induction ps)
    case (Cons p ps)
    obtain k v where p: "p = (k, v)" by (cases p)
    have "configure_json_value os js ctx v (Some k) (m, ?c) = Some (0, m, ?c)"
      using Cons.prems assms(3) p
      by (auto simp: configure_json_value_def configure_dev_def configure_attr_def parse_dev_loop_none)
    with Cons p show ?case by (simp add: configure_pairs_def)
  qed (simp add: configure_pairs_def)
  have "d \<noteq> 0" using assms(9) wf_null(2) [OF assms(1)] by (cases "d = 0") auto
  then have "parse_dev_loop os ctx (t @ show_int i) [t] (m, c\<lparr>cf_dev := 0, cf_group := 0, cf_wq := 0, cf_engine := 0\<rparr>) = Some (Some 0, m, ?c)"
    using assms(4,5,8) by_name_exact [OF assms(1,2), of os "t @ show_int i"] device_state_reads(1) [OF assms(1,9,10)]
    by (auto simp: scan_d_show_int_end MAX_DEV_LEN_def)
  with skip assms(3,6,7) show ?thesis
    by (simp add: configure_pairs_def configure_json_value_def configure_dev_def parse_dev_loop_named [OF assms(5)])
qed

text \<open>
  the device number in the name of a work queue is read and never compared: whatever it is, the
  attributes that follow go to the queue with the second number of the device named last, so that
  \<open>wq1.0\<close> under \<open>dsa0\<close> configures \<open>wq0.0\<close>.
\<close>

lemma load_wq_any_device:
  assumes "wf_state m" "devices m (cf_parent c) = Some dv" "device_done m dv"
    and "List.find (\<lambda>w. map_option wq_id (wqs m w) = Some (s32 (long_sat i))) (dev_wqs dv) = Some w" "wqs m w = Some wq"
    and "attr_reads os (wq_path wq @ ''/state'') ''disabled'' (kern m)" "\<not> cf_enable c"
  shows "configure_dev os ctx (wq_name_of a i) (m, c) =
     Some (0, m, c\<lparr>cf_dev := 0, cf_group := 0, cf_wq := w, cf_engine := 0\<rparr>)"
proof -
  have "cf_parent c \<noteq> 0" by (rule wf_device(3) [OF assms(1,2)])
  moreover have "w \<noteq> 0" by (rule wf_wq(3) [OF assms(1,5)])
  ultimately show ?thesis
    using wq_by_id [OF assms(1-4), of os] wq_state_reads [OF assms(1,5,6)] assms(7)
    by (simp add: configure_dev_wq parse_wq_key_def wq_name_strstr scan_child_id_wq wq_state_of_def)
qed

text \<open>
  C20: a work queue that is active is said to be skipped, but its first attribute then has no object to go
  to: the load fails with -1, with nothing set.
\<close>

theorem load_active_wq_fails:
  assumes "wf_state m" "devices m (cf_parent c) = Some dv" "device_done m dv" "ctx \<noteq> 0"
    and "js_string js v0 = Some (wq_name_of a i)" "\<not> json_null js v0"
    and "List.find (\<lambda>w. map_option wq_id (wqs m w) = Some (s32 (long_sat i))) (dev_wqs dv) = Some w" "wqs m w = Some wq"
    and "attr_reads os (wq_path wq @ ''/state'') s (kern m)" "s = ''enabled'' \<or> s = ''locked''"
    and "k \<noteq> ''dev''" "\<not> json_null js v"
  shows "configure_pairs os js ctx ((''dev'', v0) # (k, v) # ps) (m, c) =
     Some (-1, m, c\<lparr>cf_dev := 0, cf_group := 0, cf_wq := 0, cf_engine := 0\<rparr>)"
proof -
  have p: "cf_parent c \<noteq> 0" by (rule wf_device(3) [OF assms(1,2)])
  moreover have "w \<noteq> 0" by (rule wf_wq(3) [OF assms(1,8)])
  ultimately have "configure_dev os ctx (wq_name_of a i) (m, c) = Some (0, m, c\<lparr>cf_dev := 0, cf_group := 0, cf_wq := 0, cf_engine := 0\<rparr>)"
    using wq_by_id [OF assms(1-3,7), of os] wq_state_reads [OF assms(1,8,9)] assms(10)
    by (auto simp: configure_dev_wq parse_wq_key_def wq_name_strstr scan_child_id_wq wq_state_of_def)
  then show ?thesis
    using p assms(4-6,11,12)
    by (simp add: configure_pairs_def configure_json_value_def configure_attr_def EINVAL_def)
qed

text \<open>
  A member that is an object takes the place of the object whose members the loop goes through: an array
  after it is looked up in the wrong object, and the load fails.
\<close>

lemma json_parse_nested_object:
  assumes "js_type js v = json_type_object" "js_members js v = [(k, x), (k', y)]" "js_type js x = json_type_object" "js_type js y = json_type_array"
    and "json_parse (Suc n) os js ctx x s = Some (rc, s')" "map_of (js_members js x) k' = None"
  shows "json_parse (Suc (Suc n)) os js ctx v s = Some (-1, s')"
proof -
  have "json_parse_array (Suc n) os js ctx x (Some k') s' = Some (-1, s')"
    using assms(6) by (simp add: json_parse_array.simps)
  then show ?thesis
    using assms(1-5) by (simp add: json_parse.simps(2) [of "Suc n" os js ctx v s])
qed


section \<open>Examples\<close>

text \<open>Values as trees, with the functions of the library on them.\<close>

datatype ex_json = JNull | JInt int | JStr string | JArr "ex_json list" | JObj "(string \<times> ex_json) list"

definition ex_js :: "ex_json \<Rightarrow> ex_json json_ops" where
  "ex_js v = \<lparr>js_type = (\<lambda>j. case j of JNull \<Rightarrow> json_type_null | JInt _ \<Rightarrow> json_type_int | JStr _ \<Rightarrow> json_type_string
       | JArr _ \<Rightarrow> json_type_array | JObj _ \<Rightarrow> json_type_object),
     js_members = (\<lambda>j. case j of JObj ms \<Rightarrow> if distinct (map fst ms) then ms else [] | _ \<Rightarrow> []),
     js_elements = (\<lambda>j. case j of JArr xs \<Rightarrow> xs | _ \<Rightarrow> []),
     js_int = (\<lambda>j. case j of JInt i \<Rightarrow> (s32 i, None) | _ \<Rightarrow> (0, Some EINVAL)),
     js_int64 = (\<lambda>j. case j of JInt i \<Rightarrow> (s64 i, None) | _ \<Rightarrow> (0, Some EINVAL)),
     js_string = (\<lambda>j. case j of JStr s \<Rightarrow> Some s | _ \<Rightarrow> Some []),
     js_parse = (\<lambda>_. Some v), js_behind = ''.''\<rparr>"

lemma ex_js_ok: "json_ok (ex_js v)"
  by (simp add: json_ok_def ex_js_def split: ex_json.split)

definition ex_config :: ex_json where
  "ex_config = JArr [JObj [(''dev'', JStr ''dsa0''), (''read_buffer_limit'', JInt 0),
     (''groups'', JArr [JObj [(''dev'', JStr ''group0.0''), (''read_buffers_allowed'', JInt 8)]])]]"

definition ex_conf :: "ptr \<Rightarrow> conf_state" where
  "ex_conf parent = \<lparr>cf_enable = False, cf_forced = False, cf_activate_dev_list = [], cf_activate_wq_list = [],
     cf_dsa = \<lparr>cd_param = wq_parameters_of wq_param, cd_configured = False\<rparr>,
     cf_iax = \<lparr>cd_param = wq_parameters_of wq_param, cd_configured = False\<rparr>,
     cf_default_file = False, cf_buf = Some ''...'', cf_dev = 0, cf_parent = parent, cf_wq = 0, cf_engine = 0, cf_group = 0\<rparr>"

lemma ex_flat: "flat_array 5 (ex_js v) ex_config = Some
  [(''dev'', JStr ''dsa0''), (''read_buffer_limit'', JInt 0), (''dev'', JStr ''group0.0''), (''read_buffers_allowed'', JInt 8)]"
  by (simp add: numeral_eq_Suc flat_array.simps flat_object.simps ex_js_def ex_config_def concat_all_def)

theorem parse_config_pairs_witness:
  "parse_config 5 fs_os (ex_js ex_config) 1 (ex_mach ex_fs, ex_conf 0) = configure_pairs fs_os (ex_js ex_config) 1
     [(''dev'', JStr ''dsa0''), (''read_buffer_limit'', JInt 0), (''dev'', JStr ''group0.0''), (''read_buffers_allowed'', JInt 8)]
     (ex_mach ex_fs, ex_conf 0)"
  by (rule parse_config_pairs [OF ex_js_ok _ _ ex_flat, where buf = "''...''"]) (simp_all add: ex_conf_def ex_js_def)

theorem load_skips_enabled_witness:
  "configure_pairs fs_os (ex_js JNull) 1
     [(''dev'', JStr ''dsa0''), (''read_buffer_limit'', JInt 0), (''dev'', JStr ''group0.0''), (''read_buffers_allowed'', JInt 8)]
     (ex_mach ex_fs, ex_conf 0) = Some (0, ex_mach ex_fs, ex_conf 0)"
proof -
  have n: "show_int 0 = ''0''" by code_simp
  have "attr_reads fs_os (dev_path ex_dev @ ''/state'') ''enabled'' (kern (ex_mach ex_fs))"
    by (simp add: attr_reads_def ex_dev_def ex_fs_def fs_os_def SYSFS_ATTR_SIZE_def NL_def NUL_def)
  then have "configure_pairs fs_os (ex_js JNull) 1 ((''dev'', JStr ''dsa0'') #
      [(''read_buffer_limit'', JInt 0), (''dev'', JStr ''group0.0''), (''read_buffers_allowed'', JInt 8)]) (ex_mach ex_fs, ex_conf 0) =
      Some (0, ex_mach ex_fs, (ex_conf 0)\<lparr>cf_parent := 0, cf_dev := 0, cf_group := 0, cf_wq := 0, cf_engine := 0\<rparr>)"
    by (intro load_skips_enabled [OF ex_mach_wf ex_discovered, where t = "''dsa''" and i = 0 and d = 2])
      (simp_all add: n ex_conf_def ex_js_def json_null_def named_def ex_ctx_def)
  then show ?thesis by (simp add: ex_conf_def)
qed

lemma ex_wq_find: "List.find (\<lambda>w. map_option wq_id (wqs (ex_mach k) w) = Some (s32 (long_sat 0))) (dev_wqs ex_dev) = Some 4"
  by (simp add: ex_dev_def ex_wq_def s32_id long_sat_id c_limits)

lemma ex_dev_done: "device_done (ex_mach k) ex_dev"
  by (simp add: device_done_def ex_dev_def ex_grp_def)

lemma load_wq_any_device_example:
  "configure_dev fs_os 1 (wq_name_of 7 0) (ex_mach ex_fs, ex_conf 2) = Some (0, ex_mach ex_fs, (ex_conf 2)\<lparr>cf_wq := 4\<rparr>)"
proof -
  have "attr_reads fs_os (wq_path ex_wq @ ''/state'') ''disabled'' (kern (ex_mach ex_fs))"
    by (simp add: attr_reads_def ex_wq_def ex_fs_def fs_os_def SYSFS_ATTR_SIZE_def NL_def NUL_def)
  from load_wq_any_device [OF ex_mach_wf _ ex_dev_done ex_wq_find _ this, of "ex_conf 2" 1 7] show ?thesis
    by (simp add: ex_conf_def)
qed

theorem load_active_wq_fails_witness:
  "\<exists>c'. configure_pairs fs_os (ex_js JNull) 1 [(''dev'', JStr (wq_name_of 0 0)), (''size'', JInt 8)]
     (ex_mach (ex_fs\<lparr>fs_files := [(''/d/dsa0/wq0.0/state'', ''enabled'' @ [NL])]\<rparr>), ex_conf 2) =
     Some (-1, ex_mach (ex_fs\<lparr>fs_files := [(''/d/dsa0/wq0.0/state'', ''enabled'' @ [NL])]\<rparr>), c')"
proof -
  let ?k = "ex_fs\<lparr>fs_files := [(''/d/dsa0/wq0.0/state'', ''enabled'' @ [NL])]\<rparr>"
  have "attr_reads fs_os (wq_path ex_wq @ ''/state'') ''enabled'' (kern (ex_mach ?k))"
    by (simp add: attr_reads_def ex_wq_def fs_os_def SYSFS_ATTR_SIZE_def NL_def NUL_def)
  from load_active_wq_fails [OF ex_mach_wf _ ex_dev_done _ _ _ ex_wq_find _ this, of "ex_conf 2" 1 "ex_js JNull" "JStr (wq_name_of 0 0)" 0 "''size''" "JInt 8" "[]"]
  show ?thesis by (simp add: ex_conf_def ex_js_def json_null_def)
qed

end
