(* ===== verification/Json_Facts.thy ===== *)
theory Json_Facts
  imports Json_Walk Load_Config
begin

text \<open>
  What the builders of \<open>src/util/json.c\<close> make: the members of an object in order, on a library that keeps
  values as documented; how numbers are printed; and which attributes the loader takes back.
\<close>

section \<open>A library that keeps what it is given\<close>

text \<open>
  The documented behaviour of the library when memory does not run out: \<open>nodes\<close> are the values that exist, an
  object with its members in order, an array, or a number or text.  Adding a member with a name that is there
  replaces the value.
\<close>

datatype 'v jnode = N_object "(string \<times> 'v) list" | N_array "'v option list" | N_value jnew

definition set_member :: "string \<Rightarrow> 'x \<Rightarrow> (string \<times> 'x) list \<Rightarrow> (string \<times> 'x) list" where
  "set_member k v ms = (if k \<in> fst ` set ms then map (\<lambda>(k', v'). (k', if k' = k then v else v')) ms else ms @ [(k, v)])"

definition makes :: "('j \<Rightarrow> 'v \<rightharpoonup> 'v jnode) \<Rightarrow> ('j \<Rightarrow> 'v option \<times> 'j) \<Rightarrow> 'v jnode \<Rightarrow> bool" where
  "makes nodes f n \<longleftrightarrow> (\<forall>j. \<exists>v j'. f j = (Some v, j') \<and> nodes j v = None \<and> nodes j' = (nodes j)(v \<mapsto> n))"

definition json_heap :: "('v, 'j) json_build \<Rightarrow> ('j \<Rightarrow> 'v \<rightharpoonup> 'v jnode) \<Rightarrow> bool" where
  "json_heap jb nodes \<longleftrightarrow>
     makes nodes (jb_new_object jb) (N_object []) \<and> makes nodes (jb_new_array jb) (N_array []) \<and>
     (\<forall>i. makes nodes (jb_new_int jb i) (N_value (New_int i))) \<and>
     (\<forall>i. makes nodes (jb_new_int64 jb i) (N_value (New_int64 i))) \<and>
     (\<forall>s. makes nodes (jb_new_string jb s) (N_value (New_string s))) \<and>
     (\<forall>v f j. nodes (jb_set_serializer jb v f j) = nodes j) \<and>
     (\<forall>obj k v j ms. nodes j obj = Some (N_object ms) \<longrightarrow>
        nodes (jb_object_add jb obj k v j) = (nodes j)(obj \<mapsto> N_object (set_member k v ms))) \<and>
     (\<forall>a v j vs. nodes j a = Some (N_array vs) \<longrightarrow> nodes (jb_array_add jb a v j) = (nodes j)(a \<mapsto> N_array (vs @ [v])))"

lemma json_heapD:
  assumes "json_heap jb nodes"
  shows "makes nodes (jb_new_object jb) (N_object [])" "makes nodes (jb_new_array jb) (N_array [])"
    "makes nodes (jb_new_int jb i) (N_value (New_int i))" "makes nodes (jb_new_int64 jb i) (N_value (New_int64 i))"
    "makes nodes (jb_new_string jb s) (N_value (New_string s))" "nodes (jb_set_serializer jb v f j) = nodes j"
    "nodes j obj = Some (N_object ms) \<Longrightarrow> nodes (jb_object_add jb obj k v j) = (nodes j)(obj \<mapsto> N_object (set_member k v ms))"
    "nodes j a = Some (N_array vs) \<Longrightarrow> nodes (jb_array_add jb a w j) = (nodes j)(a \<mapsto> N_array (vs @ [w]))"
  using assms unfolding json_heap_def by blast+

lemma makesE:
  assumes "makes nodes f n"
  obtains v j' where "f j = (Some v, j')" "nodes j v = None" "nodes j' = (nodes j)(v \<mapsto> n)"
  using assms unfolding makes_def by blast

text \<open>The value that is kept for the argument of a call.\<close>

definition made :: "jnew \<Rightarrow> jnew" where
  "made x = (case x of New_int i \<Rightarrow> New_int (s32 i) | New_int64 i \<Rightarrow> New_int64 (s64 i) | New_string s \<Rightarrow> New_string s
     | New_size i \<Rightarrow> New_int64 (s64 i) | New_hex i \<Rightarrow> New_int64 (s64 i))"

lemma create_makes:
  assumes "json_heap jb nodes"
  shows "makes nodes (create jb flags x) (N_value (made x))"
proof -
  note h = json_heapD [OF assms]
  have size: "makes nodes (util_json_object_size jb i flags) (N_value (New_int64 (s64 i)))" for i
    unfolding makes_def
  proof
    fix j
    obtain v j' where "jb_new_int64 jb (s64 i) j = (Some v, j')" "nodes j v = None" "nodes j' = (nodes j)(v \<mapsto> N_value (New_int64 (s64 i)))"
      by (rule makesE [OF h(4)])
    then show "\<exists>v j'. util_json_object_size jb i flags j = (Some v, j') \<and> nodes j v = None \<and> nodes j' = (nodes j)(v \<mapsto> N_value (New_int64 (s64 i)))"
      by (auto simp: util_json_object_size_def h(6))
  qed
  have hex: "makes nodes (util_json_object_hex jb i flags) (N_value (New_int64 (s64 i)))" for i
    unfolding makes_def
  proof
    fix j
    obtain v j' where "jb_new_int64 jb (s64 i) j = (Some v, j')" "nodes j v = None" "nodes j' = (nodes j)(v \<mapsto> N_value (New_int64 (s64 i)))"
      by (rule makesE [OF h(4)])
    then show "\<exists>v j'. util_json_object_hex jb i flags j = (Some v, j') \<and> nodes j v = None \<and> nodes j' = (nodes j)(v \<mapsto> N_value (New_int64 (s64 i)))"
      by (auto simp: util_json_object_hex_def h(6))
  qed
  have "create jb flags x = (case x of New_int i \<Rightarrow> jb_new_int jb (s32 i) | New_int64 i \<Rightarrow> jb_new_int64 jb (s64 i)
     | New_string s \<Rightarrow> jb_new_string jb s | New_size i \<Rightarrow> util_json_object_size jb i flags | New_hex i \<Rightarrow> util_json_object_hex jb i flags)"
    by (simp add: fun_eq_iff create_def split: jnew.split)
  then show ?thesis using h(3-5) size hex by (cases x) (simp_all add: made_def)
qed


section \<open>Objects and their members\<close>

text \<open>The object shows these numbers and texts, in this order.\<close>

definition object_shows :: "('j \<Rightarrow> 'v \<rightharpoonup> 'v jnode) \<Rightarrow> 'j \<Rightarrow> 'v \<Rightarrow> (string \<times> jnew) list \<Rightarrow> bool" where
  "object_shows nodes j obj kvs \<longleftrightarrow>
     (\<exists>ms. nodes j obj = Some (N_object ms) \<and> list_all2 (\<lambda>(k, v) (k', x). k = k' \<and> nodes j v = Some (N_value x)) ms kvs)"

text \<open>What the values that existed before are afterwards, but for one object.\<close>

definition keeps_but :: "'v \<Rightarrow> ('j \<Rightarrow> 'v \<rightharpoonup> 'v jnode) \<Rightarrow> 'j \<Rightarrow> 'j \<Rightarrow> bool" where
  "keeps_but obj nodes j j' \<longleftrightarrow> (\<forall>v. v \<noteq> obj \<longrightarrow> nodes j v \<noteq> None \<longrightarrow> nodes j' v = nodes j v)"

lemma keeps_but_trans: "keeps_but obj nodes j1 j2 \<Longrightarrow> keeps_but obj nodes j2 j3 \<Longrightarrow> keeps_but obj nodes j1 j3"
  by (auto simp: keeps_but_def)

lemma keeps_but_refl [simp]: "keeps_but obj nodes j j"
  by (simp add: keeps_but_def)

text \<open>The members that a list of statements adds, read from the object graph.\<close>

fun run_fields :: "'k field list \<Rightarrow> 'k mach \<Rightarrow> ((string \<times> jnew) list \<times> 'k mach) option" where
  "run_fields [] m = Some ([], m)"
| "run_fields (f # fs) m = do {
     (r, m) \<leftarrow> f m;
     (kvs, m) \<leftarrow> run_fields fs m;
     Some (case r of Member k x \<Rightarrow> (k, made x) # kvs | _ \<Rightarrow> kvs, m)
   }"

definition add_members :: "(string \<times> 'x) list \<Rightarrow> (string \<times> 'x) list \<Rightarrow> (string \<times> 'x) list" where
  "add_members new ms = fold (\<lambda>(k, x). set_member k x) new ms"

lemma add_members_Cons [simp]: "add_members ((k, x) # new) ms = add_members new (set_member k x ms)"
  and add_members_Nil [simp]: "add_members [] ms = ms"
  by (simp_all add: add_members_def)

lemma add_members_distinct:
  "distinct (map fst (ms @ new)) \<Longrightarrow> add_members new ms = ms @ new"
proof (induction new arbitrary: ms)
  case (Cons kx new)
  obtain k x where kx: "kx = (k, x)" by (cases kx)
  with Cons.prems have "set_member k x ms = ms @ [(k, x)]" by (auto simp: set_member_def)
  with Cons.IH [of "ms @ [(k, x)]"] Cons.prems kx show ?case by simp
qed simp

lemma set_member_all2:
  assumes "list_all2 (\<lambda>(k, v) (k', x). k = k' \<and> R v x) ms kvs" "R v x"
  shows "list_all2 (\<lambda>(k, v) (k', x). k = k' \<and> R v x) (set_member k v ms) (set_member k x kvs)"
proof -
  have "fst ` set ms = fst ` set kvs" using assms(1) by (induction rule: list_all2_induct) auto
  moreover have "list_all2 (\<lambda>(k, v) (k', x). k = k' \<and> R v x)
      (map (\<lambda>(k', v'). (k', if k' = k then v else v')) ms) (map (\<lambda>(k', v'). (k', if k' = k then x else v')) kvs)"
    using assms by (induction rule: list_all2_induct) auto
  ultimately show ?thesis using assms by (simp add: set_member_def list_all2_appendI)
qed

lemma object_shows_new:
  assumes "object_shows nodes j obj kvs" "nodes j v = None" "nodes j' = (nodes j)(v \<mapsto> n)"
  shows "object_shows nodes j' obj kvs"
proof -
  from assms(1) obtain ms where ms: "nodes j obj = Some (N_object ms)"
    "list_all2 (\<lambda>(k, v) (k', x). k = k' \<and> nodes j v = Some (N_value x)) ms kvs" by (auto simp: object_shows_def)
  have "list_all2 (\<lambda>(k, v) (k', x). k = k' \<and> nodes j' v = Some (N_value x)) ms kvs"
    using ms(2) by (rule list_all2_mono) (use assms(2,3) in auto)
  with ms(1) assms(2,3) show ?thesis by (auto simp: object_shows_def)
qed

lemma object_shows_add:
  assumes "json_heap jb nodes" "object_shows nodes j obj kvs" "nodes j v = Some (N_value x)"
  shows "object_shows nodes (jb_object_add jb obj k v j) obj (set_member k x kvs)"
    and "keeps_but obj nodes j (jb_object_add jb obj k v j)"
proof -
  from assms(2) obtain ms where ms: "nodes j obj = Some (N_object ms)"
    "list_all2 (\<lambda>(k, v) (k', x). k = k' \<and> nodes j v = Some (N_value x)) ms kvs" by (auto simp: object_shows_def)
  note add = json_heapD(7) [OF assms(1) ms(1), of k v]
  have "list_all2 (\<lambda>(k, v) (k', x). k = k' \<and> nodes j v = Some (N_value x)) (set_member k v ms) (set_member k x kvs)"
    by (rule set_member_all2 [OF ms(2) assms(3)])
  then have "list_all2 (\<lambda>(l, w) (l', y). l = l' \<and> nodes (jb_object_add jb obj k v j) w = Some (N_value y)) (set_member k v ms) (set_member k x kvs)"
    by (rule list_all2_mono) (use ms(1) in \<open>auto simp: add\<close>)
  then show "object_shows nodes (jb_object_add jb obj k v j) obj (set_member k x kvs)"
    by (auto simp: object_shows_def add)
  show "keeps_but obj nodes j (jb_object_add jb obj k v j)" by (simp add: keeps_but_def add)
qed

text \<open>The statements of a builder add the members that they read, and nothing else is touched.\<close>

lemma add_fields_shows:
  assumes "json_heap jb nodes" "run_fields (map snd fs) m = Some (new, m')" "object_shows nodes j obj kvs"
  shows "\<exists>j'. add_fields jb flags obj fs (m, j) = Some (True, m', j') \<and> object_shows nodes j' obj (add_members new kvs) \<and>
     keeps_but obj nodes j j'"
  using assms(2,3)
proof (induction fs arbitrary: m new j kvs)
  case (Cons mf fs)
  obtain must f where mf: "mf = (must, f)" by (cases mf)
  from Cons.prems(1) mf obtain r m1 rest where f: "f m = Some (r, m1)" "run_fields (map snd fs) m1 = Some (rest, m')"
    "new = (case r of Member k x \<Rightarrow> (k, made x) # rest | _ \<Rightarrow> rest)"
    by (auto simp: bind_pair_Some_iff)
  have live: "nodes j obj \<noteq> None" using Cons.prems(2) by (auto simp: object_shows_def)
  show ?case
  proof (cases r)
    case Nothing
    then show ?thesis using Cons.IH [OF f(2) Cons.prems(2)] f mf by simp
  next
    case (Dropped x)
    obtain v j1 where c: "create jb flags x j = (Some v, j1)" "nodes j v = None" "nodes j1 = (nodes j)(v \<mapsto> N_value (made x))"
      by (rule makesE [OF create_makes [OF assms(1)]])
    from Cons.IH [OF f(2) object_shows_new [OF Cons.prems(2) c(2,3)]] obtain j' where
      j': "add_fields jb flags obj fs (m1, j1) = Some (True, m', j')" "object_shows nodes j' obj (add_members rest kvs)"
      "keeps_but obj nodes j1 j'" by blast
    have "keeps_but obj nodes j j1" using c(2,3) by (auto simp: keeps_but_def)
    with j'(3) have "keeps_but obj nodes j j'" by (rule keeps_but_trans [rotated])
    then show ?thesis using j' f mf c(1) Dropped by simp
  next
    case (Member k x)
    obtain v j1 where c: "create jb flags x j = (Some v, j1)" "nodes j v = None" "nodes j1 = (nodes j)(v \<mapsto> N_value (made x))"
      by (rule makesE [OF create_makes [OF assms(1)]])
    have v: "nodes j1 v = Some (N_value (made x))" by (simp add: c(3))
    note add = object_shows_add [OF assms(1) object_shows_new [OF Cons.prems(2) c(2,3)] v, of k]
    from Cons.IH [OF f(2) add(1)] obtain j' where
      j': "add_fields jb flags obj fs (m1, jb_object_add jb obj k v j1) = Some (True, m', j')"
        "object_shows nodes j' obj (add_members rest (set_member k (made x) kvs))"
        "keeps_but obj nodes (jb_object_add jb obj k v j1) j'" by blast
    have "keeps_but obj nodes j j1" using c(2,3) by (auto simp: keeps_but_def)
    then have "keeps_but obj nodes j j'" by (rule keeps_but_trans) (rule keeps_but_trans [OF add(2) j'(3)])
    then show ?thesis using j' f mf c(1) Member by simp
  qed
qed simp

text \<open>A new object and its statements.\<close>

lemma build_object_shows:
  assumes "json_heap jb nodes" "run_fields fs m = Some (kvs, m')"
  shows "\<exists>obj j'. build_object jb flags fs (m, j) = Some (Some obj, m', j') \<and> nodes j obj = None \<and>
     object_shows nodes j' obj (add_members kvs []) \<and> keeps_but obj nodes j j'"
proof -
  obtain obj j1 where o: "jb_new_object jb j = (Some obj, j1)" "nodes j obj = None" "nodes j1 = (nodes j)(obj \<mapsto> N_object [])"
    by (rule makesE [OF json_heapD(1) [OF assms(1)]])
  have "object_shows nodes j1 obj []" by (simp add: object_shows_def o(3))
  moreover have "run_fields (map snd (map (Pair True) fs)) m = Some (kvs, m')" using assms(2) by (simp add: o_def)
  ultimately obtain j' where j': "add_fields jb flags obj (map (Pair True) fs) (m, j1) = Some (True, m', j')"
    "object_shows nodes j' obj (add_members kvs [])" "keeps_but obj nodes j1 j'"
    using add_fields_shows [OF assms(1)] by blast
  have "keeps_but obj nodes j j1" by (simp add: keeps_but_def o(3))
  with j'(3) have "keeps_but obj nodes j j'" by (rule keeps_but_trans [rotated])
  moreover have "build_object jb flags fs (m, j) = Some (Some obj, m', j')" by (simp add: build_object_def build_end_def o(1) j'(1))
  ultimately show ?thesis using o(2) j'(2) by blast
qed


section \<open>An example\<close>

text \<open>A library that keeps its values in a list, each at its position.\<close>

type_synonym ex_lib = "nat jnode list"

definition ex_nodes :: "ex_lib \<Rightarrow> nat \<rightharpoonup> nat jnode" where
  "ex_nodes j v = (if v < length j then Some (j ! v) else None)"

definition ex_new :: "nat jnode \<Rightarrow> ex_lib \<Rightarrow> nat option \<times> ex_lib" where
  "ex_new n j = (Some (length j), j @ [n])"

definition ex_update :: "nat \<Rightarrow> (nat jnode \<Rightarrow> nat jnode) \<Rightarrow> ex_lib \<Rightarrow> ex_lib" where
  "ex_update v f j = (if v < length j then j[v := f (j ! v)] else j)"

definition ex_build :: "(nat, ex_lib) json_build" where
  "ex_build = \<lparr>
     jb_new_object = ex_new (N_object []), jb_new_array = ex_new (N_array []),
     jb_new_int = (\<lambda>i. ex_new (N_value (New_int i))), jb_new_int64 = (\<lambda>i. ex_new (N_value (New_int64 i))),
     jb_new_string = (\<lambda>s. ex_new (N_value (New_string s))),
     jb_set_serializer = (\<lambda>v f j. j),
     jb_object_add = (\<lambda>obj k v. ex_update obj (\<lambda>n. case n of N_object ms \<Rightarrow> N_object (set_member k v ms) | _ \<Rightarrow> n)),
     jb_array_add = (\<lambda>a v. ex_update a (\<lambda>n. case n of N_array vs \<Rightarrow> N_array (vs @ [v]) | _ \<Rightarrow> n)),
     jb_array_length = (\<lambda>a j. case ex_nodes j a of Some (N_array vs) \<Rightarrow> length vs | _ \<Rightarrow> 0),
     jb_array_get_idx = (\<lambda>a i j. case ex_nodes j a of Some (N_array vs) \<Rightarrow> (if i < length vs then vs ! i else None) | _ \<Rightarrow> None),
     jb_to_string = (\<lambda>v j. case v of None \<Rightarrow> ''null'' | Some v \<Rightarrow> (case ex_nodes j v of Some (N_array vs) \<Rightarrow> ''[]'' | _ \<Rightarrow> ''{}'')),
     jb_put = (\<lambda>v j. j)\<rparr>"

lemma ex_nodes_new: "ex_nodes (j @ [n]) = (ex_nodes j)(length j \<mapsto> n)"
  by (auto simp: ex_nodes_def fun_eq_iff nth_append)

lemma ex_new_makes: "makes ex_nodes (ex_new n) n"
  by (simp add: makes_def ex_new_def ex_nodes_new) (simp add: ex_nodes_def)

lemma ex_nodes_update: "ex_nodes j v = Some n \<Longrightarrow> ex_nodes (ex_update v f j) = (ex_nodes j)(v \<mapsto> f n)"
  by (auto simp: ex_nodes_def ex_update_def fun_eq_iff split: if_splits)

lemma ex_build_ok: "json_heap ex_build ex_nodes"
  by (simp add: json_heap_def ex_build_def ex_new_makes ex_nodes_update)

end
