(* ===== verification/Config_Default.thy ===== *)
theory Config_Default
  imports Load_Config "HOL-Library.Signed_Division"
begin

text \<open>
  The command \<open>config-user-default\<close> of \<open>src/accfg/config.c\<close>, but for its options: the parameters of the
  default work queues, from the built-in values or from a file, their use on every device, and disabling what
  was configured.
\<close>

section \<open>Loops\<close>

text \<open>\<open>accfg_device_foreach\<close>, and the loops over the children of a device, with a body that does not leave.\<close>

definition foreach_device ::
  "'k os \<Rightarrow> ptr \<Rightarrow> (ptr \<Rightarrow> 'k mach \<times> 's \<Rightarrow> ('k mach \<times> 's) option) \<Rightarrow> 'k mach \<times> 's \<Rightarrow> ('k mach \<times> 's) option" where
  "foreach_device os ctx body = (\<lambda>(m, s). do {
     (p, m) \<leftarrow> accfg_device_get_first os ctx m;
     cx \<leftarrow> ctxs m ctx;
     foreach_from (length (c_devices cx)) (\<lambda>p s. do { s \<leftarrow> body p s; Some (False, s) })
       (\<lambda>p (m, _). accfg_device_get_next p m) p (m, s)
   })"

definition foreach_child ::
  "('k os \<Rightarrow> ptr \<Rightarrow> 'k mach \<Rightarrow> ('k, ptr) run) \<Rightarrow> (accfg_device \<Rightarrow> ptr list) \<Rightarrow> (ptr \<Rightarrow> 'k mach \<Rightarrow> ptr option) \<Rightarrow>
   'k os \<Rightarrow> ptr \<Rightarrow> (ptr \<Rightarrow> 'k mach \<times> 's \<Rightarrow> ('k mach \<times> 's) option) \<Rightarrow> 'k mach \<times> 's \<Rightarrow> ('k mach \<times> 's) option" where
  "foreach_child first parts next os device body = (\<lambda>(m, s). do {
     (p, m) \<leftarrow> first os device m;
     dv \<leftarrow> devices m device;
     foreach_from (length (parts dv)) (\<lambda>p s. do { s \<leftarrow> body p s; Some (False, s) })
       (\<lambda>p (m, _). next p m) p (m, s)
   })"

definition foreach_wq :: "'k os \<Rightarrow> ptr \<Rightarrow> (ptr \<Rightarrow> 'k mach \<times> 's \<Rightarrow> ('k mach \<times> 's) option) \<Rightarrow> 'k mach \<times> 's \<Rightarrow> ('k mach \<times> 's) option" where
  "foreach_wq = foreach_child accfg_wq_get_first dev_wqs accfg_wq_get_next"

definition foreach_engine :: "'k os \<Rightarrow> ptr \<Rightarrow> (ptr \<Rightarrow> 'k mach \<times> 's \<Rightarrow> ('k mach \<times> 's) option) \<Rightarrow> 'k mach \<times> 's \<Rightarrow> ('k mach \<times> 's) option" where
  "foreach_engine = foreach_child accfg_engine_get_first dev_engines accfg_engine_get_next"

text \<open>A call whose code is not looked at.\<close>

definition ignore :: "('k, int) run \<Rightarrow> 'k mach option" where
  "ignore r = map_option snd r"


section \<open>Parameters for a device\<close>

definition get_wq_size :: "ptr \<Rightarrow> 'k mach \<Rightarrow> int option" where
  "get_wq_size dev m = do {
     max_wq_size \<leftarrow> accfg_device_get_max_work_queues_size dev m;
     max_wqs \<leftarrow> accfg_device_get_max_work_queues dev m;
     if s32 max_wqs = 0 \<or> (s32 max_wq_size = - 2147483648 \<and> s32 max_wqs = - 1) then None
     else Some (s32 max_wq_size sdiv s32 max_wqs)
   }"

text \<open>The three setters that look first whether the attribute can be written.\<close>

definition set_if_writable :: "'k writable \<Rightarrow> 'k int_setter \<Rightarrow> ptr \<Rightarrow> int \<Rightarrow> 'k mach \<Rightarrow> ('k, int) run" where
  "set_if_writable writable setter wq val m = do {
     (ok, m) \<leftarrow> writable wq val m;
     if \<not> ok then Some (- EPERM, m) else setter wq val m
   }"

definition config_default_wq_set_prs_disable :: "'k os \<Rightarrow> ptr \<Rightarrow> int \<Rightarrow> 'k mach \<Rightarrow> ('k, int) run" where
  "config_default_wq_set_prs_disable os = set_if_writable is_wq_prs_disable_writable (accfg_wq_set_prs_disable os)"

definition config_default_wq_set_ats_disable :: "'k os \<Rightarrow> ptr \<Rightarrow> int \<Rightarrow> 'k mach \<Rightarrow> ('k, int) run" where
  "config_default_wq_set_ats_disable os = set_if_writable is_wq_ats_disable_writable (accfg_wq_set_ats_disable os)"

definition config_default_wq_set_threshold :: "'k os \<Rightarrow> ptr \<Rightarrow> int \<Rightarrow> 'k mach \<Rightarrow> ('k, int) run" where
  "config_default_wq_set_threshold os = set_if_writable (is_wq_threshold_writable os) (accfg_wq_set_threshold os)"

definition conf_def_dev_configured :: "ptr \<Rightarrow> 'k mach \<Rightarrow> conf_state \<Rightarrow> bool option" where
  "conf_def_dev_configured dev m c = do {
     type \<leftarrow> accfg_device_get_type dev m;
     Some (if type = ACCFG_DEVICE_DSA then cd_configured (cf_dsa c)
           else if type = ACCFG_DEVICE_IAX then cd_configured (cf_iax c) else False)
   }"

definition config_default_wq_set_on_dev :: "ptr \<Rightarrow> 'k mach \<Rightarrow> conf_state \<Rightarrow> (int \<times> conf_state) option" where
  "config_default_wq_set_on_dev dev m c = do {
     dev_type \<leftarrow> accfg_device_get_type dev m;
     if get_conf_def_wq_param dev_type c = None then Some (- EINVAL, c)
     else do {
       n \<leftarrow> get_wq_size dev m;
       let c = upd_conf_def_wq_param dev_type (\<lambda>p. p\<lparr>wqp_wq_size := u32 n\<rparr>) c;
       if u32 n = 0 then Some (- ENOSPC, c)
       else Some (0, upd_conf_def_wq_param dev_type (\<lambda>p. p\<lparr>wqp_threshold := u32 n\<rparr>) c)
     }
   }"

text \<open>The settings in order, whatever each of them answers.\<close>

fun do_all :: "('k mach \<Rightarrow> ('k, int) run) list \<Rightarrow> 'k mach \<Rightarrow> 'k mach option" where
  "do_all [] m = Some m"
| "do_all (f # fs) m = do { m \<leftarrow> ignore (f m); do_all fs m }"

text \<open>A text that may be null is printed and copied by its setter.\<close>

definition set_text :: "'k str_setter \<Rightarrow> ptr \<Rightarrow> string option \<Rightarrow> 'k mach \<Rightarrow> ('k, int) run" where
  "set_text setter wq s m = do { s \<leftarrow> s; setter wq s m }"

definition config_default_wq :: "'k os \<Rightarrow> ptr \<Rightarrow> conf_state \<Rightarrow> 'k mach \<Rightarrow> ('k, int) run" where
  "config_default_wq os wq c m = do {
     dev \<leftarrow> accfg_wq_get_device wq m;
     configured \<leftarrow> conf_def_dev_configured dev m c;
     if \<not> configured then Some (0, m)
     else do {
       dev_type \<leftarrow> accfg_device_get_type dev m;
       case get_conf_def_wq_param dev_type c of
         None \<Rightarrow> Some (- EINVAL, m)
       | Some p \<Rightarrow> do {
           m \<leftarrow> do_all
             [accfg_wq_set_priority os wq (s32 (wqp_priority p)),
              accfg_wq_set_group_id os wq (wqp_group_id p),
              accfg_wq_set_block_on_fault os wq (wqp_block_on_fault p),
              set_text (accfg_wq_set_str_mode os) wq (wqp_mode p),
              set_text (accfg_wq_set_str_type os) wq (wqp_type p),
              set_text (accfg_wq_set_str_name os) wq (wqp_name p),
              set_text (accfg_wq_set_str_driver_name os) wq (wqp_driver_name p),
              accfg_wq_set_size os wq (s32 (wqp_wq_size p)),
              config_default_wq_set_threshold os wq (s32 (wqp_threshold p)),
              config_default_wq_set_prs_disable os wq (wqp_prs_disable p),
              config_default_wq_set_ats_disable os wq (wqp_ats_disable p)] m;
           Some (0, m)
         }
     }
   }"

definition config_default_engine :: "'k os \<Rightarrow> ptr \<Rightarrow> ptr \<Rightarrow> conf_state \<Rightarrow> 'k mach \<Rightarrow> ('k, int) run" where
  "config_default_engine os engine dev c m = do {
     dev_type \<leftarrow> accfg_device_get_type dev m;
     case get_conf_def_wq_param dev_type c of
       None \<Rightarrow> Some (- EINVAL, m)
     | Some p \<Rightarrow> accfg_engine_set_group_id os engine (wqp_group_id p) m
   }"


section \<open>Configuring and enabling every device\<close>

text \<open>A body that works on the object graph only.\<close>

definition on_mach :: "(ptr \<Rightarrow> 'k mach \<Rightarrow> ('k, int) run) \<Rightarrow> ptr \<Rightarrow> 'k mach \<times> 's \<Rightarrow> ('k mach \<times> 's) option" where
  "on_mach f p = (\<lambda>(m, s). do { m \<leftarrow> ignore (f p m); Some (m, s) })"

definition default_activate :: "'k os \<Rightarrow> ptr \<Rightarrow> 'k mach \<times> conf_state \<Rightarrow> ('k mach \<times> conf_state) option" where
  "default_activate os dev = (\<lambda>(m, c). do {
     configured \<leftarrow> conf_def_dev_configured dev m c;
     if \<not> configured then Some (m, c)
     else do {
       (dev_state, m) \<leftarrow> accfg_device_get_state os dev m;
       if dev_state = ACCFG_DEVICE_ENABLED then Some (m, c)
       else do {
         (_, c) \<leftarrow> config_default_wq_set_on_dev dev m c;
         (m, c) \<leftarrow> foreach_wq os dev (on_mach (\<lambda>wq. config_default_wq os wq c)) (m, c);
         (m, c) \<leftarrow> foreach_engine os dev (on_mach (\<lambda>engine. config_default_engine os engine dev c)) (m, c);
         (rc, m) \<leftarrow> accfg_device_enable os dev m;
         if rc \<noteq> 0 then Some (m, c)
         else foreach_wq os dev (on_mach (accfg_wq_enable os)) (m, c)
       }
     }
   })"

definition config_default_activate_devices :: "'k os \<Rightarrow> ptr \<Rightarrow> 'k mach \<times> conf_state \<Rightarrow> ('k mach \<times> conf_state) option" where
  "config_default_activate_devices os ctx = foreach_device os ctx (default_activate os)"


section \<open>The parameters of the default work queues\<close>

definition CONFIG_DEFAULT_WQ_PRIORITY :: int where "CONFIG_DEFAULT_WQ_PRIORITY = 10"
definition CONFIG_DEFAULT_WQ_GROUP_ID :: int where "CONFIG_DEFAULT_WQ_GROUP_ID = 0"
definition CONFIG_DEFAULT_WQ_BLOCK_ON_FAULT :: int where "CONFIG_DEFAULT_WQ_BLOCK_ON_FAULT = 1"
definition CONFIG_DEFAULT_WQ_PRS_DISABLE :: int where "CONFIG_DEFAULT_WQ_PRS_DISABLE = 1"
definition CONFIG_DEFAULT_WQ_ATS_DISABLE :: int where "CONFIG_DEFAULT_WQ_ATS_DISABLE = 0"
definition CONFIG_DEFAULT_WQ_NAME :: string where "CONFIG_DEFAULT_WQ_NAME = ''user_default_wq''"
definition CONFIG_DEFAULT_WQ_TYPE :: string where "CONFIG_DEFAULT_WQ_TYPE = ''user''"
definition CONFIG_DEFAULT_WQ_MODE :: string where "CONFIG_DEFAULT_WQ_MODE = ''shared''"
definition CONFIG_DEFAULT_WQ_DRV_NAME :: string where "CONFIG_DEFAULT_WQ_DRV_NAME = ''user''"

lemmas config_default_values = CONFIG_DEFAULT_WQ_PRIORITY_def CONFIG_DEFAULT_WQ_GROUP_ID_def CONFIG_DEFAULT_WQ_BLOCK_ON_FAULT_def
  CONFIG_DEFAULT_WQ_PRS_DISABLE_def CONFIG_DEFAULT_WQ_ATS_DISABLE_def CONFIG_DEFAULT_WQ_NAME_def CONFIG_DEFAULT_WQ_TYPE_def
  CONFIG_DEFAULT_WQ_MODE_def CONFIG_DEFAULT_WQ_DRV_NAME_def

text \<open>The two types in the order of the array, and a copy of a text that is null when memory runs out.\<close>

definition conf_types :: "accfg_device_type list" where
  "conf_types = [ACCFG_DEVICE_DSA, ACCFG_DEVICE_IAX]"

definition copy_text :: "'k os \<Rightarrow> string \<Rightarrow> 'k mach \<Rightarrow> string option \<times> 'k mach" where
  "copy_text os s m = (case sys_alloc os m of (ok, m) \<Rightarrow> (if ok then Some s else None, m))"

fun config_default_wq_set_fixed_loop :: "'k os \<Rightarrow> accfg_device_type list \<Rightarrow> 'k mach \<times> conf_state \<Rightarrow> int \<times> 'k mach \<times> conf_state" where
  "config_default_wq_set_fixed_loop os [] s = (0, s)"
| "config_default_wq_set_fixed_loop os (t # ts) (m, c) =
     (case copy_text os CONFIG_DEFAULT_WQ_MODE m of (mode, m) \<Rightarrow>
      let c = upd_conf_def_wq_param t (\<lambda>p. p\<lparr>wqp_mode := mode\<rparr>) c in
      if mode = None then (- ENOMEM, m, c)
      else case copy_text os CONFIG_DEFAULT_WQ_TYPE m of (ty, m) \<Rightarrow>
      let c = upd_conf_def_wq_param t (\<lambda>p. p\<lparr>wqp_type := ty\<rparr>) c in
      if ty = None then (- ENOMEM, m, c)
      else case copy_text os CONFIG_DEFAULT_WQ_DRV_NAME m of (drv, m) \<Rightarrow>
      let c = upd_conf_def_wq_param t (\<lambda>p. p\<lparr>wqp_driver_name := drv\<rparr>) c in
      if drv = None then (- ENOMEM, m, c) else config_default_wq_set_fixed_loop os ts (m, c))"

definition config_default_wq_set_fixed :: "'k os \<Rightarrow> 'k mach \<times> conf_state \<Rightarrow> int \<times> 'k mach \<times> conf_state" where
  "config_default_wq_set_fixed os = config_default_wq_set_fixed_loop os conf_types"

text \<open>The flag of a type.\<close>

definition set_configured :: "accfg_device_type \<Rightarrow> conf_state \<Rightarrow> conf_state" where
  "set_configured t c =
     (if t = ACCFG_DEVICE_DSA then c\<lparr>cf_dsa := (cf_dsa c)\<lparr>cd_configured := True\<rparr>\<rparr>
      else if t = ACCFG_DEVICE_IAX then c\<lparr>cf_iax := (cf_iax c)\<lparr>cd_configured := True\<rparr>\<rparr> else c)"

fun config_default_loop :: "'k os \<Rightarrow> accfg_device_type list \<Rightarrow> 'k mach \<times> conf_state \<Rightarrow> 'k mach \<times> conf_state" where
  "config_default_loop os [] s = s"
| "config_default_loop os (t # ts) (m, c) =
     (case copy_text os CONFIG_DEFAULT_WQ_MODE m of (mode, m) \<Rightarrow>
      case copy_text os CONFIG_DEFAULT_WQ_TYPE m of (ty, m) \<Rightarrow>
      case copy_text os CONFIG_DEFAULT_WQ_NAME m of (name, m) \<Rightarrow>
      case copy_text os CONFIG_DEFAULT_WQ_DRV_NAME m of (drv, m) \<Rightarrow>
      config_default_loop os ts (m, set_configured t (upd_conf_def_wq_param t (\<lambda>p. p
        \<lparr>wqp_priority := CONFIG_DEFAULT_WQ_PRIORITY, wqp_group_id := CONFIG_DEFAULT_WQ_GROUP_ID,
         wqp_block_on_fault := CONFIG_DEFAULT_WQ_BLOCK_ON_FAULT, wqp_mode := mode, wqp_type := ty, wqp_name := name,
         wqp_driver_name := drv, wqp_prs_disable := CONFIG_DEFAULT_WQ_PRS_DISABLE,
         wqp_ats_disable := CONFIG_DEFAULT_WQ_ATS_DISABLE\<rparr>) c)))"

definition config_default :: "'k os \<Rightarrow> 'k mach \<times> conf_state \<Rightarrow> 'k mach \<times> conf_state" where
  "config_default os = config_default_loop os conf_types"

text \<open>The texts of the configured types are released; the process ends afterwards.\<close>

definition config_default_param_free :: "conf_state \<Rightarrow> conf_state" where
  "config_default_param_free c =
     fold (\<lambda>(t, q) c. if cd_configured q
             then upd_conf_def_wq_param t (\<lambda>p. p\<lparr>wqp_name := None, wqp_type := None, wqp_mode := None, wqp_driver_name := None\<rparr>) c else c)
       [(ACCFG_DEVICE_DSA, cf_dsa c), (ACCFG_DEVICE_IAX, cf_iax c)] c"

definition config_default_from_file ::
  "nat \<Rightarrow> 'k os \<Rightarrow> 'k file_ops \<Rightarrow> string \<Rightarrow> 'v json_ops \<Rightarrow> string option \<Rightarrow> ptr \<Rightarrow> 'k mach \<times> conf_state \<Rightarrow> ('k, int) conf_run" where
  "config_default_from_file fuel os fo ACCFG_CONF_FILE js config_file ctx s = do {
     (rc, m, c) \<leftarrow> read_config_file os fo ACCFG_CONF_FILE config_file s;
     if rc < 0 then Some (rc, m, c)
     else do {
       (rc, m, c) \<leftarrow> parse_config fuel os js ctx (m, c\<lparr>cf_default_file := True\<rparr>);
       if rc < 0 then Some (rc, m, c)
       else case config_default_wq_set_fixed os (m, c) of (_, m, c) \<Rightarrow>
         let c = (if wqp_name (cd_param (cf_dsa c)) \<noteq> None then set_configured ACCFG_DEVICE_DSA c else c) in
         let c = (if wqp_name (cd_param (cf_iax c)) \<noteq> None then set_configured ACCFG_DEVICE_IAX c else c) in
         Some (0, m, c)
     }
   }"


section \<open>Disabling\<close>

text \<open>One work queue: a queue with the name is disabled, by force, and any other one that is not disabled is noted.\<close>

definition default_disable_wq :: "'k os \<Rightarrow> string \<Rightarrow> ptr \<Rightarrow> 'k mach \<times> bool \<Rightarrow> ('k mach \<times> bool) option" where
  "default_disable_wq os name wq = (\<lambda>(m, non_default_wq_enabled). do {
     wq_name \<leftarrow> accfg_wq_get_type_name wq m;
     (wq_state, m) \<leftarrow> accfg_wq_get_state os wq m;
     if wq_state = ACCFG_WQ_DISABLED then Some (m, non_default_wq_enabled)
     else do {
       wq_name \<leftarrow> wq_name;
       if wq_name = name then do {
         m \<leftarrow> ignore (accfg_wq_disable os wq True m);
         Some (m, non_default_wq_enabled)
       }
       else Some (m, True)
     }
   })"

definition default_disable_device :: "'k os \<Rightarrow> string \<Rightarrow> ptr \<Rightarrow> 'k mach \<times> unit \<Rightarrow> ('k mach \<times> unit) option" where
  "default_disable_device os name dev = (\<lambda>(m, u). do {
     (m, non_default_wq_enabled) \<leftarrow> foreach_wq os dev (default_disable_wq os name) (m, False);
     (dev_state, m) \<leftarrow> accfg_device_get_state os dev m;
     if dev_state = ACCFG_DEVICE_ENABLED \<and> \<not> non_default_wq_enabled then do {
       m \<leftarrow> ignore (accfg_device_disable os dev True m);
       Some (m, u)
     }
     else Some (m, u)
   })"

definition config_default_disable :: "'k os \<Rightarrow> string option \<Rightarrow> ptr \<Rightarrow> 'k mach \<Rightarrow> 'k mach option" where
  "config_default_disable os user_default_wq_name ctx m =
     (case copy_text os (case user_default_wq_name of Some n \<Rightarrow> n | None \<Rightarrow> CONFIG_DEFAULT_WQ_NAME) m of
        (None, m) \<Rightarrow> Some m
      | (Some name, m) \<Rightarrow> map_option fst (foreach_device os ctx (default_disable_device os name) (m, ())))"

end
