(* ===== verification/List_Cmd.thy ===== *)
theory List_Cmd
  imports Json_Walk Enable
begin

text \<open>
  The commands \<open>list\<close> and \<open>save-config\<close>, \<open>src/accfg/list.c\<close>: the callbacks of the walk that build the JSON
  objects, and what is printed of them.
\<close>

section \<open>Options\<close>

record list_opts =
  lo_devices :: bool
  lo_groups :: bool
  lo_engines :: bool
  lo_wqs :: bool
  lo_idle :: bool
  lo_save_conf :: bool

definition listopts_to_flags :: "list_opts \<Rightarrow> int" where
  "listopts_to_flags lo =
     (if lo_idle lo then UTIL_JSON_IDLE else 0) OR (if lo_save_conf lo then UTIL_JSON_SAVE else 0)"

definition num_list_flags :: "list_opts \<Rightarrow> int" where
  "num_list_flags lo = of_bool (lo_devices lo) + of_bool (lo_groups lo) + of_bool (lo_wqs lo) + of_bool (lo_engines lo)"


section \<open>Callbacks\<close>

text \<open>The object of a group; a failure is remembered in \<open>did_fail\<close> by its caller.\<close>

definition group_to_json ::
  "('v, 'j) json_build \<Rightarrow> ptr \<Rightarrow> int \<Rightarrow> 'k mach \<times> 'j \<Rightarrow> ('k, 'v, 'j) json_run" where
  "group_to_json jb grp flags = (\<lambda>(m, j). do {
     dev \<leftarrow> accfg_group_get_device grp m;
     type \<leftarrow> accfg_device_get_type dev m;
     build_object jb flags
       (name_field accfg_group_get_devname grp #
        (if type \<noteq> ACCFG_DEVICE_IAX then read_buffer_fields grp else []) @ progress_fields grp) (m, j)
   })"

definition list_filter_device :: "'k os \<Rightarrow> ('v, 'j) json_build \<Rightarrow> ptr \<Rightarrow> ('k, 'v, 'j) list_walk \<Rightarrow> ('k, 'v, 'j, bool) list_run" where
  "list_filter_device os jb device = (\<lambda>(m, s). do {
     max_groups \<leftarrow> accfg_device_get_max_groups device m;
     (jdevice, m, j) \<leftarrow> util_device_to_json os jb device (lfa_flags s) (m, lfa_lib s);
     let s = s\<lparr>lfa_lib := j, lfa_jdevice := jdevice\<rparr>;
     if jdevice = None then Some (False, m, s)
     else do {
       (ok, m, s) \<leftarrow> add_container os jb device (nat max_groups) (m, s);
       if \<not> ok then Some (False, m, s)
       else do { n \<leftarrow> int_incr (lfa_dev_num s); Some (True, m, s\<lparr>lfa_dev_num := n\<rparr>) }
     }
   })"

definition list_filter_group :: "'k os \<Rightarrow> ('v, 'j) json_build \<Rightarrow> ptr \<Rightarrow> ('k, 'v, 'j) list_walk \<Rightarrow> ('k, 'v, 'j, bool) list_run" where
  "list_filter_group os jb grp = (\<lambda>(m, s). do {
     dev \<leftarrow> accfg_group_get_device grp m;
     max_groups \<leftarrow> accfg_device_get_max_groups dev m;
     jc \<leftarrow> match_loop dev 0 (lfa_jdev_list s) None m;
     case jc of
       None \<Rightarrow> Some (False, m, s)
     | Some c \<Rightarrow> do {
         (jgroups, s) \<leftarrow> device_groups jb c s;
         case jgroups of
           None \<Rightarrow> Some (False, m, s)
         | Some jgroups \<Rightarrow> do {
             (jgroup, m, j) \<leftarrow> group_to_json jb grp (lfa_flags s) (m, lfa_lib s);
             let s = set_lib j s;
             case jgroup of
               None \<Rightarrow> Some (False, m, s\<lparr>lfa_did_fail := True\<rparr>)
             | Some jgroup \<Rightarrow> do {
                 group_id \<leftarrow> accfg_group_get_id grp m;
                 if max_groups = 0 then None
                 else do {
                   s \<leftarrow> record_group jb c (nat (u32 (lfa_group_num s) mod max_groups)) (s32 group_id) jgroups jgroup s;
                   Some (True, m, s)
                 }
               }
           }
       }
   })"

text \<open>The object of a work queue or an engine that is in no group goes to an array of the device.\<close>

definition add_ungrouped ::
  "('v, 'j) json_build \<Rightarrow> string \<Rightarrow> 'v \<Rightarrow> 'v option \<Rightarrow> 'v option \<Rightarrow> 'j \<Rightarrow> (('v option) \<times> 'j) option" where
  "add_ungrouped jb key jobj container ungroup j = (case ungroup of
       Some a \<Rightarrow> Some (Some a, jb_array_add jb a (Some jobj) j)
     | None \<Rightarrow>
         (case jb_new_array jb j of
            (None, j) \<Rightarrow> Some (None, j)
          | (Some a, j) \<Rightarrow> do {
              obj \<leftarrow> container;
              Some (Some a, jb_array_add jb a (Some jobj) (jb_object_add jb obj key a j))
            }))"

definition list_filter_wq ::
  "'k os \<Rightarrow> ('v, 'j) json_build \<Rightarrow> bool \<Rightarrow> ptr \<Rightarrow> ('k, 'v, 'j) list_walk \<Rightarrow> ('k, 'v, 'j, bool) list_run" where
  "list_filter_wq os jb idle wq = (\<lambda>(m, s). do {
     dev \<leftarrow> accfg_wq_get_device wq m;
     max_groups \<leftarrow> accfg_device_get_max_groups dev m;
     jc \<leftarrow> match_loop dev 0 (lfa_jdev_list s) None m;
     case jc of
       None \<Rightarrow> Some (False, m, s)
     | Some c \<Rightarrow> do {
         (enabled, m) \<leftarrow> (if idle then Some (1, m) else accfg_wq_is_enabled os wq m);
         if enabled = 0 then Some (True, m, s)
         else do {
           (jwq, m, j) \<leftarrow> util_wq_to_json os jb wq (lfa_flags s) (m, lfa_lib s);
           case jwq of
             None \<Rightarrow> Some (False, m, set_lib j s)
           | Some jwq \<Rightarrow> do {
               jc \<leftarrow> nth_opt (lfa_jdev_list s) c;
               gid \<leftarrow> accfg_wq_get_group_id wq m;
               (ok, in_group, arrs, j) \<leftarrow> place_loop jb True ''grouped_workqueues'' gid jwq
                  (jc_jgroup_id jc) (jc_jgroup_assigned jc) 0 (nat max_groups) (False, jc_jwq_group jc, j);
               let s = set_lib j (set_container c (\<lambda>jc. jc\<lparr>jc_jwq_group := arrs\<rparr>) s);
               if \<not> ok then Some (False, m, s)
               else if in_group \<or> \<not> has_flag (lfa_flags s) UTIL_JSON_IDLE then Some (True, m, s)
               else do {
                 (a, j) \<leftarrow> add_ungrouped jb ''ungrouped workqueues'' jwq (lfa_jdevice s) (jc_jwq_ungroup jc) j;
                 Some (a \<noteq> None, m, set_lib j (set_container c (\<lambda>jc. jc\<lparr>jc_jwq_ungroup := a\<rparr>) s))
               }
             }
         }
       }
   })"

definition list_filter_engine ::
  "'k os \<Rightarrow> ('v, 'j) json_build \<Rightarrow> ptr \<Rightarrow> ('k, 'v, 'j) list_walk \<Rightarrow> ('k, 'v, 'j, bool) list_run" where
  "list_filter_engine os jb engine = (\<lambda>(m, s). do {
     dev \<leftarrow> accfg_engine_get_device engine m;
     max_groups \<leftarrow> accfg_device_get_max_groups dev m;
     (st, m) \<leftarrow> accfg_device_get_state os dev m;
     if st \<noteq> ACCFG_DEVICE_ENABLED \<and> \<not> has_flag (lfa_flags s) UTIL_JSON_IDLE then Some (False, m, s)
     else do {
       jc \<leftarrow> match_loop dev 0 (lfa_jdev_list s) None m;
       case jc of
         None \<Rightarrow> Some (False, m, s)
       | Some c \<Rightarrow> do {
           (jengine, m, j) \<leftarrow> util_engine_to_json jb engine (lfa_flags s) (m, lfa_lib s);
           case jengine of
             None \<Rightarrow> Some (False, m, set_lib j s)
           | Some jengine \<Rightarrow> do {
               jc \<leftarrow> nth_opt (lfa_jdev_list s) c;
               gid \<leftarrow> accfg_engine_get_group_id engine m;
               (ok, in_group, arrs, j) \<leftarrow> place_loop jb True ''grouped_engines'' gid jengine
                  (jc_jgroup_id jc) (jc_jgroup_assigned jc) 0 (nat max_groups) (False, jc_jengine_group jc, j);
               let s = set_lib j (set_container c (\<lambda>jc. jc\<lparr>jc_jengine_group := arrs\<rparr>) s);
               if \<not> ok then Some (False, m, s)
               else if in_group then Some (True, m, s)
               else do {
                 (a, j) \<leftarrow> add_ungrouped jb ''ungrouped_engines'' jengine (lfa_jdevice s) (jc_jengine_ungroup jc) j;
                 Some (a \<noteq> None, m, set_lib j (set_container c (\<lambda>jc. jc\<lparr>jc_jengine_ungroup := a\<rparr>) s))
               }
             }
         }
     }
   })"

definition list_fctx :: "'k os \<Rightarrow> ('v, 'j) json_build \<Rightarrow> bool \<Rightarrow> ('k, ('v, 'j) list_filter_arg) util_filter_ctx" where
  "list_fctx os jb idle =
     \<lparr>filter_device = list_filter_device os jb, filter_group = list_filter_group os jb,
      filter_wq = list_filter_wq os jb idle, filter_engine = list_filter_engine os jb\<rparr>"


section \<open>What is printed\<close>

text \<open>An array; a null pointer goes to the library when there is none.\<close>

definition show_array :: "('v, 'j) json_build \<Rightarrow> 'v option \<Rightarrow> ('v, 'j) list_filter_arg \<Rightarrow> ('v, 'j) list_filter_arg option" where
  "show_array jb arr s = do {
     a \<leftarrow> arr;
     Some (case util_display_json_array jb a (lfa_flags s) (lfa_lib s) of (t, j) \<Rightarrow> print t (set_lib j s))
   }"

definition line_of :: "string \<Rightarrow> string" where
  "line_of t = t @ [NL]"

text \<open>Every container in order, or the first one of a device.\<close>

fun each_container ::
  "('v accfg_json_container \<Rightarrow> 's \<Rightarrow> 's option) \<Rightarrow> 'v accfg_json_container list \<Rightarrow> 's \<Rightarrow> 's option" where
  "each_container f [] s = Some s"
| "each_container f (c # cs) s = do { s \<leftarrow> f c s; each_container f cs s }"

fun first_match :: "ptr \<Rightarrow> 'v accfg_json_container list \<Rightarrow> 'k mach \<Rightarrow> 'v accfg_json_container option option" where
  "first_match dev [] m = Some None"
| "first_match dev (c # cs) m = do { b \<leftarrow> match_device dev c m; if b then Some (Some c) else first_match dev cs m }"

definition display_device :: "('v, 'j) json_build \<Rightarrow> string option \<Rightarrow> ('k, 'v, 'j) list_walk \<Rightarrow> ('k, 'v, 'j, int) list_run" where
  "display_device jb device = (\<lambda>(m, s). do {
     let s = print (line_of ''devices:'') s;
     if device = None then do { s \<leftarrow> show_array jb (Some (lfa_jdevices s)) s; Some (0, m, s) }
     else (case jb_array_get_idx jb (lfa_jdevices s) 0 (lfa_lib s) of
         None \<Rightarrow> Some (- EINVAL, m, s)
       | Some jdevice \<Rightarrow> Some (0, m, print (line_of (jb_to_string jb (Some jdevice) (lfa_lib s))) s))
   })"

definition device_line :: "'v accfg_json_container \<Rightarrow> string" where
  "device_line jc = line_of (''device '' @ jc_device_name jc @ '':'')"

definition display_group :: "'k os \<Rightarrow> ('v, 'j) json_build \<Rightarrow> string option \<Rightarrow> ptr \<Rightarrow> ('k, 'v, 'j) list_walk \<Rightarrow> ('k, 'v, 'j, int) list_run" where
  "display_group os jb name ctx = (\<lambda>(m, s). do {
     let s = print (line_of ''groups:'') s;
     case name of
       None \<Rightarrow> do {
         s \<leftarrow> each_container (\<lambda>jc s. show_array jb (jc_jgroups jc) (print (device_line jc) s)) (lfa_jdev_list s) s;
         Some (0, m, s)
       }
     | Some name \<Rightarrow> do {
         ((rc, dev, _), m) \<leftarrow> parse_group_name os ctx name m;
         if rc \<noteq> 0 then Some (rc, m, s)
         else do {
           jc \<leftarrow> first_match dev (lfa_jdev_list s) m;
           case jc of
             None \<Rightarrow> Some (- EINVAL, m, s)
           | Some jc \<Rightarrow> do {
               let s = print (device_line jc) s;
               s \<leftarrow> (if jc_jgroups jc \<noteq> None then show_array jb (jc_jgroups jc) s else Some s);
               Some (0, m, s)
             }
         }
       }
   })"

text \<open>The arrays of the groups, with a heading and the number of each group, or without.\<close>

fun show_grouped ::
  "('v, 'j) json_build \<Rightarrow> string \<Rightarrow> bool \<Rightarrow> int list \<Rightarrow> 'v option list \<Rightarrow> nat \<Rightarrow> nat \<Rightarrow> ('v, 'j) list_filter_arg \<Rightarrow> ('v, 'j) list_filter_arg option" where
  "show_grouped jb heading once ids arrs i 0 s = Some s"
| "show_grouped jb heading once ids arrs i (Suc n) s = do {
     arr \<leftarrow> nth_opt arrs i;
     if arr = None then show_grouped jb heading once ids arrs (Suc i) n s
     else do {
       gid \<leftarrow> nth_opt ids i;
       s \<leftarrow> show_array jb arr (print (line_of (''group id '' @ show_int (u32 gid) @ '':''))
                               (if once then print (line_of heading) s else s));
       show_grouped jb heading False ids arrs (Suc i) n s
     }
   }"

fun show_arrays :: "('v, 'j) json_build \<Rightarrow> 'v option list \<Rightarrow> nat \<Rightarrow> nat \<Rightarrow> ('v, 'j) list_filter_arg \<Rightarrow> ('v, 'j) list_filter_arg option" where
  "show_arrays jb arrs i 0 s = Some s"
| "show_arrays jb arrs i (Suc n) s = do {
     arr \<leftarrow> nth_opt arrs i;
     s \<leftarrow> (if arr \<noteq> None then show_array jb arr s else Some s);
     show_arrays jb arrs (Suc i) n s
   }"

text \<open>
  \<open>display_wq\<close> and \<open>display_engine\<close> are the same program over the arrays of work queues and of engines:
  \<open>grouped\<close> and \<open>ungrouped\<close> are the members of the container, \<open>kind\<close> the word in the headings and \<open>parse\<close>
  the parser of the name.
\<close>

definition display_all_children ::
  "'k os \<Rightarrow> ('v, 'j) json_build \<Rightarrow> string \<Rightarrow> ('v accfg_json_container \<Rightarrow> 'v option list) \<Rightarrow> ('v accfg_json_container \<Rightarrow> 'v option) \<Rightarrow>
   ptr \<Rightarrow> 'v accfg_json_container \<Rightarrow> ('k, 'v, 'j) list_walk \<Rightarrow> ('k, 'v, 'j) list_walk option" where
  "display_all_children os jb kind grouped ungrouped ctx jc = (\<lambda>(m, s). do {
     (dev, m) \<leftarrow> accfg_ctx_device_get_by_name os ctx (jc_device_name jc) m;
     max_groups \<leftarrow> accfg_device_get_max_groups dev m;
     s \<leftarrow> show_grouped jb (''grouped '' @ kind @ '':'') True (jc_jgroup_id jc) (grouped jc) 0 (nat max_groups) (print (device_line jc) s);
     s \<leftarrow> (if ungrouped jc \<noteq> None then show_array jb (ungrouped jc) (print (line_of (''ungrouped '' @ kind @ '':'')) s) else Some s);
     Some (m, s)
   })"

definition display_children ::
  "'k os \<Rightarrow> ('v, 'j) json_build \<Rightarrow> string \<Rightarrow> ('v accfg_json_container \<Rightarrow> 'v option list) \<Rightarrow> ('v accfg_json_container \<Rightarrow> 'v option) \<Rightarrow>
   (string \<Rightarrow> 'k mach \<Rightarrow> ('k, int \<times> ptr \<times> ptr) run) \<Rightarrow> string option \<Rightarrow> ptr \<Rightarrow> ('k, 'v, 'j) list_walk \<Rightarrow> ('k, 'v, 'j, int) list_run" where
  "display_children os jb kind grouped ungrouped parse name ctx = (\<lambda>(m, s). do {
     let s = print (line_of (kind @ '':'')) s;
     case name of
       None \<Rightarrow> do {
         ms \<leftarrow> each_container (display_all_children os jb kind grouped ungrouped ctx) (lfa_jdev_list s) (m, s);
         Some (0, ms)
       }
     | Some name \<Rightarrow> do {
         ((rc, dev, _), m) \<leftarrow> parse name m;
         if rc \<noteq> 0 then Some (rc, m, s)
         else do {
           max_groups \<leftarrow> accfg_device_get_max_groups dev m;
           jc \<leftarrow> first_match dev (lfa_jdev_list s) m;
           case jc of
             None \<Rightarrow> Some (- EINVAL, m, s)
           | Some jc \<Rightarrow> do {
               s \<leftarrow> show_arrays jb (grouped jc) 0 (nat max_groups) (print (device_line jc) s);
               s \<leftarrow> (if ungrouped jc \<noteq> None then show_array jb (ungrouped jc) s else Some s);
               Some (0, m, s)
             }
         }
       }
   })"

definition display_wq :: "'k os \<Rightarrow> ('v, 'j) json_build \<Rightarrow> string option \<Rightarrow> ptr \<Rightarrow> ('k, 'v, 'j) list_walk \<Rightarrow> ('k, 'v, 'j, int) list_run" where
  "display_wq os jb name ctx = display_children os jb ''workqueues'' jc_jwq_group jc_jwq_ungroup (parse_wq_name os ctx) name ctx"

definition display_engine :: "'k os \<Rightarrow> ('v, 'j) json_build \<Rightarrow> string option \<Rightarrow> ptr \<Rightarrow> ('k, 'v, 'j) list_walk \<Rightarrow> ('k, 'v, 'j, int) list_run" where
  "display_engine os jb name ctx = display_children os jb ''engines'' jc_jengine_group jc_jengine_ungroup (parse_engine_name os ctx) name ctx"

definition list_display ::
  "'k os \<Rightarrow> ('v, 'j) json_build \<Rightarrow> list_opts \<Rightarrow> util_filter_params \<Rightarrow> ptr \<Rightarrow> ('k, 'v, 'j) list_walk \<Rightarrow> ('k, 'v, 'j, int) list_run" where
  "list_display os jb lo prm ctx = (\<lambda>(m, s).
     if \<not> lo_devices lo \<and> \<not> lo_groups lo \<and> \<not> lo_wqs lo \<and> \<not> lo_engines lo then do {
       s \<leftarrow> show_array jb (Some (lfa_jdevices s)) s;
       Some (0, m, free_containers s)
     }
     else if lo_devices lo then display_device jb (prm_device prm) (m, s)
     else if lo_groups lo then display_group os jb (prm_group prm) ctx (m, s)
     else if lo_wqs lo then display_wq os jb (prm_wq prm) ctx (m, s)
     else display_engine os jb (prm_engine prm) ctx (m, s))"


section \<open>Commands\<close>

definition list_param :: vars where
  "list_param = (\<lambda>v. if v \<in> {''device'', ''group'', ''wq'', ''engine'', ''saved_file''} then VStr None else VBool False)"

definition list_options :: "option_rec list" where
  "list_options =
    [OPT_STRING (CHR ''d'') ''device'' ''device'', OPT_STRING (CHR ''g'') ''group'' ''group'',
     OPT_STRING (CHR ''q'') ''workqueue'' ''wq'', OPT_STRING (CHR ''e'') ''engine'' ''engine'',
     OPT_BOOLEAN (CHR ''G'') ''groups'' ''groups'', OPT_BOOLEAN (CHR ''D'') ''devices'' ''devices'',
     OPT_BOOLEAN (CHR ''E'') ''engines'' ''engines'', OPT_BOOLEAN (CHR ''Q'') ''workqueues'' ''wqs'',
     OPT_BOOLEAN (CHR ''i'') ''idle'' ''idle'', OPT_END]"

text \<open>The static variables behind the options; without an option for a kind, the names given choose the kinds.\<close>

definition list_opts_of :: "vars \<Rightarrow> list_opts" where
  "list_opts_of vs =
     (let lo = \<lparr>lo_devices = the_bool (vs ''devices''), lo_groups = the_bool (vs ''groups''), lo_engines = the_bool (vs ''engines''),
                lo_wqs = the_bool (vs ''wqs''), lo_idle = the_bool (vs ''idle''), lo_save_conf = False\<rparr> in
      if num_list_flags lo = 0 then
        lo\<lparr>lo_devices := the_str (vs ''device'') \<noteq> None, lo_groups := the_str (vs ''group'') \<noteq> None,
           lo_wqs := the_str (vs ''wq'') \<noteq> None, lo_engines := the_str (vs ''engine'') \<noteq> None\<rparr>
      else lo)"

definition filter_params_of :: "vars \<Rightarrow> util_filter_params" where
  "filter_params_of vs =
     \<lparr>prm_device = the_str (vs ''device''), prm_group = the_str (vs ''group''), prm_wq = the_str (vs ''wq''), prm_engine = the_str (vs ''engine'')\<rparr>"

text \<open>The argument of a walk before it starts.\<close>

definition new_list_arg :: "'v \<Rightarrow> int \<Rightarrow> 'j \<Rightarrow> ('v, 'j) list_filter_arg" where
  "new_list_arg jdevices flags j =
     \<lparr>lfa_jdevices = jdevices, lfa_jdevice = None, lfa_jdev_list = [], lfa_flags = flags, lfa_dev_num = 0, lfa_group_num = 0,
      lfa_lib = j, lfa_out = [], lfa_did_fail = False\<rparr>"

text \<open>
  Options, arguments that are left over, and the array of devices; \<open>main\<close> is the rest of the command.  The
  answer is the code or exit status and the text on the standard output.
\<close>

definition json_cmd ::
  "('v, 'j) json_build \<Rightarrow> string option \<Rightarrow> option_rec list \<Rightarrow> vars \<Rightarrow> (vars \<Rightarrow> 'v \<Rightarrow> 'j \<Rightarrow> 'k mach \<Rightarrow> ((int \<times> string) \<times> 'k mach) option) \<Rightarrow>
   'j \<Rightarrow> string list \<Rightarrow> 'k mach \<Rightarrow> (((int + int) \<times> string) \<times> 'k mach) option" where
  "json_cmd jb prefix options start main j argv m = do {
     r \<leftarrow> parse_options_prefix prefix argv options start;
     case r of
       Inl status \<Rightarrow> Some ((Inl status, []), m)
     | Inr (args, vs) \<Rightarrow>
         if args \<noteq> [] then Some ((Inl USAGE_STATUS, []), m)
         else (case jb_new_array jb j of
             (None, j) \<Rightarrow> Some ((Inr (- ENOMEM), []), m)
           | (Some jdevices, j) \<Rightarrow> do {
               ((rc, out), m) \<leftarrow> main vs jdevices j m;
               Some ((Inr rc, out), m)
             })
   }"

definition list_main ::
  "'k os \<Rightarrow> ('v, 'j) json_build \<Rightarrow> ptr \<Rightarrow> vars \<Rightarrow> 'v \<Rightarrow> 'j \<Rightarrow> 'k mach \<Rightarrow> ((int \<times> string) \<times> 'k mach) option" where
  "list_main os jb ctx vs jdevices j m = do {
     let lo = list_opts_of vs;
     let prm = filter_params_of vs;
     (rc, m, s) \<leftarrow> util_filter_walk os ctx (list_fctx os jb (lo_idle lo)) prm (m, new_list_arg jdevices (listopts_to_flags lo) j);
     if rc \<noteq> 0 then Some ((rc, lfa_out s), m)
     else do {
       (rc, m, s) \<leftarrow> list_display os jb lo prm ctx (m, s);
       Some ((if rc \<noteq> 0 then rc else if lfa_did_fail s then - EINVAL else 0, lfa_out s), m)
     }
   }"

definition cmd_list :: "'k os \<Rightarrow> ('v, 'j) json_build \<Rightarrow> 'j \<Rightarrow> string list \<Rightarrow> ptr \<Rightarrow> 'k mach \<Rightarrow> (((int + int) \<times> string) \<times> 'k mach) option" where
  "cmd_list os jb j argv ctx m = json_cmd jb None list_options list_param (list_main os jb ctx) j argv m"

text \<open>Writing a file: \<open>fopen (.., "w")\<close> and what is printed to the stream when it is closed.\<close>

record 'k save_ops =
  so_create :: "string \<Rightarrow> 'k \<Rightarrow> int option \<times> 'k"
  so_contents :: "string \<Rightarrow> string \<Rightarrow> 'k \<Rightarrow> 'k"

definition save_config ::
  "'k save_ops \<Rightarrow> ('v, 'j) json_build \<Rightarrow> string \<Rightarrow> ('k, 'v, 'j) list_walk \<Rightarrow> int \<times> ('k, 'v, 'j) list_walk" where
  "save_config so jb saved_file = (\<lambda>(m, s).
     case so_create so saved_file (kern m) of
       (Some e, k) \<Rightarrow> (- EIO, m\<lparr>kern := k, errno := e\<rparr>, s)
     | (None, k) \<Rightarrow>
         (case util_display_json_array jb (lfa_jdevices s) (lfa_flags s) (lfa_lib s) of (t, j) \<Rightarrow>
          (0, m\<lparr>kern := so_contents so saved_file t k\<rparr>, free_containers (set_lib j s))))"

definition save_options :: "option_rec list" where
  "save_options = [OPT_STRING (CHR ''s'') ''saved-file'' ''saved_file'', OPT_END]"

definition save_opts :: list_opts where
  "save_opts = \<lparr>lo_devices = False, lo_groups = False, lo_engines = False, lo_wqs = False, lo_idle = False, lo_save_conf = True\<rparr>"

definition save_main ::
  "'k os \<Rightarrow> 'k save_ops \<Rightarrow> string \<Rightarrow> ('v, 'j) json_build \<Rightarrow> ptr \<Rightarrow> vars \<Rightarrow> 'v \<Rightarrow> 'j \<Rightarrow> 'k mach \<Rightarrow> ((int \<times> string) \<times> 'k mach) option" where
  "save_main os so ACCFG_CONF_FILE jb ctx vs jdevices j m = do {
     (rc, m, s) \<leftarrow> util_filter_walk os ctx (list_fctx os jb False) (filter_params_of list_param)
                     (m, new_list_arg jdevices (listopts_to_flags save_opts) j);
     if rc \<noteq> 0 then Some ((rc, lfa_out s), m)
     else case sys_alloc os m of (ok, m) \<Rightarrow>
       if \<not> ok then Some ((- ENOMEM, lfa_out s), m)
       else (case save_config so jb (case the_str (vs ''saved_file'') of Some f \<Rightarrow> f | None \<Rightarrow> ACCFG_CONF_FILE) (m, s) of (rc, m, s) \<Rightarrow>
         Some ((if rc < 0 then rc else 0, lfa_out s), m))
   }"

definition cmd_save ::
  "'k os \<Rightarrow> 'k save_ops \<Rightarrow> string \<Rightarrow> ('v, 'j) json_build \<Rightarrow> 'j \<Rightarrow> string list \<Rightarrow> ptr \<Rightarrow> 'k mach \<Rightarrow> (((int + int) \<times> string) \<times> 'k mach) option" where
  "cmd_save os so ACCFG_CONF_FILE jb j argv ctx m =
     json_cmd jb None save_options list_param (save_main os so ACCFG_CONF_FILE jb ctx) j argv m"

end
