(* ===== verification/Config_Cmd.thy ===== *)
theory Config_Cmd
  imports Config_Default List_Cmd
begin

text \<open>
  The commands \<open>load-config\<close> and \<open>config-user-default\<close> of \<open>src/accfg/config.c\<close>: the walk that goes before
  the work and builds objects nobody prints, and the commands.
\<close>

section \<open>Callbacks\<close>

definition config_opts_to_flags :: int where
  "config_opts_to_flags = 0"

definition config_group_to_json :: "('v, 'j) json_build \<Rightarrow> ptr \<Rightarrow> int \<Rightarrow> 'k mach \<times> 'j \<Rightarrow> ('k, 'v, 'j) json_run" where
  "config_group_to_json jb grp flags = build_object jb flags
     (name_field accfg_group_get_devname grp # read_buffer_fields grp @
      [int_field ''traffic_class_a'' accfg_group_get_traffic_class_a grp,
       int_field ''traffic_class_b'' accfg_group_get_traffic_class_b grp] @ progress_fields grp)"

text \<open>The array of devices is tested where the object of the device is meant: a null pointer is added to it.\<close>

definition config_filter_device :: "'k os \<Rightarrow> ('v, 'j) json_build \<Rightarrow> ptr \<Rightarrow> ('k, 'v, 'j) list_walk \<Rightarrow> ('k, 'v, 'j, bool) list_run" where
  "config_filter_device os jb device = (\<lambda>(m, s). do {
     max_groups \<leftarrow> accfg_device_get_max_groups device m;
     (jdevice, m, j) \<leftarrow> util_device_to_json os jb device (lfa_flags s) (m, lfa_lib s);
     let s = s\<lparr>lfa_lib := j, lfa_jdevice := jdevice\<rparr>;
     if s32 max_groups < 0 then (case sys_alloc os m of (_, m) \<Rightarrow> Some (False, m, s))
     else add_container os jb device (nat (s32 max_groups)) (m, s)
   })"

definition config_filter_group :: "'k os \<Rightarrow> ('v, 'j) json_build \<Rightarrow> ptr \<Rightarrow> ('k, 'v, 'j) list_walk \<Rightarrow> ('k, 'v, 'j, bool) list_run" where
  "config_filter_group os jb grp = (\<lambda>(m, s). do {
     dev \<leftarrow> accfg_group_get_device grp m;
     max_groups \<leftarrow> accfg_device_get_max_groups dev m;
     jc \<leftarrow> match_loop dev 0 (lfa_jdev_list s) None m;
     case jc of
       None \<Rightarrow> Some (False, m, s)
     | Some c \<Rightarrow> do {
         (jgroups, s) \<leftarrow> device_groups jb c s;
         case jgroups of
           None \<Rightarrow> Some (False, m, s)
         | Some jgroups \<Rightarrow> do {
             (jgroup, m, j) \<leftarrow> config_group_to_json jb grp (lfa_flags s) (m, lfa_lib s);
             let s = set_lib j s;
             case jgroup of
               None \<Rightarrow> Some (False, m, s)
             | Some jgroup \<Rightarrow> do {
                 group_id \<leftarrow> accfg_group_get_id grp m;
                 if s32 max_groups = 0 then None
                 else do {
                   s \<leftarrow> record_group jb c (nat (lfa_group_num s mod \<bar>s32 max_groups\<bar>)) (s32 group_id) jgroups jgroup s;
                   Some (True, m, s)
                 }
               }
           }
       }
   })"

definition config_filter_wq :: "'k os \<Rightarrow> ('v, 'j) json_build \<Rightarrow> ptr \<Rightarrow> ('k, 'v, 'j) list_walk \<Rightarrow> ('k, 'v, 'j, bool) list_run" where
  "config_filter_wq os jb wq = (\<lambda>(m, s). do {
     dev \<leftarrow> accfg_wq_get_device wq m;
     max_groups \<leftarrow> accfg_device_get_max_groups dev m;
     jc \<leftarrow> match_loop dev 0 (lfa_jdev_list s) None m;
     case jc of
       None \<Rightarrow> Some (False, m, s)
     | Some c \<Rightarrow> do {
         (enabled, m) \<leftarrow> accfg_wq_is_enabled os wq m;
         if enabled = 0 then Some (True, m, s)
         else do {
           (jwq, m, j) \<leftarrow> util_wq_to_json os jb wq (lfa_flags s) (m, lfa_lib s);
           case jwq of
             None \<Rightarrow> Some (False, m, set_lib j s)
           | Some jwq \<Rightarrow> do {
               jc \<leftarrow> nth_opt (lfa_jdev_list s) c;
               gid \<leftarrow> accfg_wq_get_group_id wq m;
               (ok, _, arrs, j) \<leftarrow> place_loop jb False ''grouped_workqueues'' gid jwq
                  (jc_jgroup_id jc) (jc_jgroup_assigned jc) 0 (nat (s32 max_groups)) (False, jc_jwq_group jc, j);
               Some (ok, m, set_lib j (set_container c (\<lambda>jc. jc\<lparr>jc_jwq_group := arrs\<rparr>) s))
             }
         }
       }
   })"

definition config_filter_engine :: "('v, 'j) json_build \<Rightarrow> ptr \<Rightarrow> ('k, 'v, 'j) list_walk \<Rightarrow> ('k, 'v, 'j, bool) list_run" where
  "config_filter_engine jb engine = (\<lambda>(m, s). do {
     dev \<leftarrow> accfg_engine_get_device engine m;
     max_groups \<leftarrow> accfg_device_get_max_groups dev m;
     jc \<leftarrow> match_loop dev 0 (lfa_jdev_list s) None m;
     case jc of
       None \<Rightarrow> Some (False, m, s)
     | Some c \<Rightarrow> do {
         (jengine, m, j) \<leftarrow> util_engine_to_json jb engine (lfa_flags s) (m, lfa_lib s);
         case jengine of
           None \<Rightarrow> Some (False, m, set_lib j s)
         | Some jengine \<Rightarrow> do {
             jc \<leftarrow> nth_opt (lfa_jdev_list s) c;
             gid \<leftarrow> accfg_engine_get_group_id engine m;
             (ok, _, arrs, j) \<leftarrow> place_loop jb False ''grouped_engines'' gid jengine
                (jc_jgroup_id jc) (jc_jgroup_assigned jc) 0 (nat (s32 max_groups)) (False, jc_jengine_group jc, j);
             Some (ok, m, set_lib j (set_container c (\<lambda>jc. jc\<lparr>jc_jengine_group := arrs\<rparr>) s))
           }
       }
   })"

definition config_fctx :: "'k os \<Rightarrow> ('v, 'j) json_build \<Rightarrow> ('k, ('v, 'j) list_filter_arg) util_filter_ctx" where
  "config_fctx os jb =
     \<lparr>filter_device = config_filter_device os jb, filter_group = config_filter_group os jb,
      filter_wq = config_filter_wq os jb, filter_engine = config_filter_engine jb\<rparr>"

text \<open>The walk that both commands start with.\<close>

definition config_walk ::
  "'k os \<Rightarrow> ('v, 'j) json_build \<Rightarrow> ptr \<Rightarrow> 'v \<Rightarrow> 'j \<Rightarrow> 'k mach \<Rightarrow> ('k, 'v, 'j, int) list_run" where
  "config_walk os jb ctx jdevices j m =
     util_filter_walk os ctx (config_fctx os jb) (filter_params_of list_param) (m, new_list_arg jdevices config_opts_to_flags j)"


section \<open>load-config\<close>

text \<open>The static variables of the program before a command: no list, no parameter, no buffer.\<close>

definition no_wq_parameters :: wq_parameters where
  "no_wq_parameters = \<lparr>wqp_group_id = 0, wqp_wq_size = 0, wqp_threshold = 0, wqp_priority = 0, wqp_block_on_fault = 0,
     wqp_max_batch_size = 0, wqp_max_transfer_size = 0, wqp_ats_disable = 0, wqp_prs_disable = 0, wqp_mode = None,
     wqp_type = None, wqp_name = None, wqp_driver_name = None, wqp_op_config = None\<rparr>"

definition conf_start :: "bool \<Rightarrow> bool \<Rightarrow> conf_state" where
  "conf_start enable forced =
     \<lparr>cf_enable = enable, cf_forced = forced, cf_activate_dev_list = [], cf_activate_wq_list = [],
      cf_dsa = \<lparr>cd_param = no_wq_parameters, cd_configured = False\<rparr>,
      cf_iax = \<lparr>cd_param = no_wq_parameters, cd_configured = False\<rparr>,
      cf_default_file = False, cf_buf = None, cf_dev = 0, cf_parent = 0, cf_wq = 0, cf_engine = 0, cf_group = 0\<rparr>"

definition config_options :: "option_rec list" where
  "config_options =
    [OPT_FILENAME (CHR ''c'') ''config-file'' ''config_file'', OPT_BOOLEAN (CHR ''v'') ''verbose'' ''verbose'',
     OPT_BOOLEAN (CHR ''e'') ''enable'' ''enable'', OPT_BOOLEAN (CHR ''f'') ''forced'' ''forced'', OPT_END]"

definition config_vars :: vars where
  "config_vars = (\<lambda>v. if v \<in> {''config_file'', ''user_default_wq_name''} then VStr None else VBool False)"

text \<open>
  The file is parsed even when it cannot be read: the buffer is then null, or still holds what a short read
  left in it.
\<close>

definition config_load ::
  "nat \<Rightarrow> 'k os \<Rightarrow> 'k file_ops \<Rightarrow> string \<Rightarrow> 'w json_ops \<Rightarrow> string option \<Rightarrow> ptr \<Rightarrow> 'k mach \<times> conf_state \<Rightarrow> ('k, int) conf_run" where
  "config_load fuel os fo ACCFG_CONF_FILE js config_file ctx s = do {
     (_, s) \<leftarrow> read_config_file os fo ACCFG_CONF_FILE config_file s;
     (rc, m, c) \<leftarrow> parse_config fuel os js ctx s;
     if cf_enable c \<and> rc = 0 then activate_devices os (m, c) else Some (rc, m, c)
   }"

definition config_main ::
  "nat \<Rightarrow> 'k os \<Rightarrow> 'k file_ops \<Rightarrow> string \<Rightarrow> 'w json_ops \<Rightarrow> ('v, 'j) json_build \<Rightarrow> ptr \<Rightarrow> vars \<Rightarrow> 'v \<Rightarrow> 'j \<Rightarrow> 'k mach \<Rightarrow>
   ((int \<times> string) \<times> 'k mach) option" where
  "config_main fuel os fo ACCFG_CONF_FILE js jb ctx vs jdevices j m = do {
     (rc, m, s) \<leftarrow> config_walk os jb ctx jdevices j m;
     if rc \<noteq> 0 then Some ((rc, []), m)
     else do {
       (rc, m, _) \<leftarrow> config_load fuel os fo ACCFG_CONF_FILE js (the_str (vs ''config_file'')) ctx
                      (m, conf_start (the_bool (vs ''enable'')) (the_bool (vs ''forced'')));
       Some ((rc, []), m)
     }
   }"

definition cmd_config ::
  "nat \<Rightarrow> 'k os \<Rightarrow> 'k file_ops \<Rightarrow> string \<Rightarrow> 'w json_ops \<Rightarrow> ('v, 'j) json_build \<Rightarrow> 'j \<Rightarrow> string list \<Rightarrow> ptr \<Rightarrow> 'k mach \<Rightarrow>
   (((int + int) \<times> string) \<times> 'k mach) option" where
  "cmd_config fuel os fo ACCFG_CONF_FILE js jb j argv ctx m =
     json_cmd jb (Some ''./'') config_options config_vars (config_main fuel os fo ACCFG_CONF_FILE js jb ctx) j argv m"


section \<open>config-user-default\<close>

definition config_default_options :: "option_rec list" where
  "config_default_options =
    [OPT_FILENAME (CHR ''c'') ''config-file'' ''config_file'', OPT_BOOLEAN (CHR ''d'') ''disable'' ''disable'',
     OPT_STRING (CHR ''n'') ''name'' ''user_default_wq_name'', OPT_BOOLEAN (CHR ''v'') ''verbose'' ''verbose'', OPT_END]"

definition config_default_main ::
  "nat \<Rightarrow> 'k os \<Rightarrow> 'k file_ops \<Rightarrow> string \<Rightarrow> 'w json_ops \<Rightarrow> ('v, 'j) json_build \<Rightarrow> ptr \<Rightarrow> vars \<Rightarrow> 'v \<Rightarrow> 'j \<Rightarrow> 'k mach \<Rightarrow>
   ((int \<times> string) \<times> 'k mach) option" where
  "config_default_main fuel os fo ACCFG_CONF_FILE js jb ctx vs jdevices j m = do {
     (rc, m, s) \<leftarrow> config_walk os jb ctx jdevices j m;
     if rc \<noteq> 0 then Some ((rc, []), m)
     else if the_bool (vs ''disable'') then do {
       m \<leftarrow> config_default_disable os (the_str (vs ''user_default_wq_name'')) ctx m;
       Some ((0, []), m)
     }
     else do {
       (rc, m, c) \<leftarrow> (case the_str (vs ''config_file'') of
                        Some f \<Rightarrow> config_default_from_file fuel os fo ACCFG_CONF_FILE js (Some f) ctx (m, conf_start False False)
                      | None \<Rightarrow> Some (0, config_default os (m, conf_start False False)));
       (m, c) \<leftarrow> (if rc = 0 then config_default_activate_devices os ctx (m, c) else Some (m, c));
       let c = config_default_param_free c;
       Some ((0, []), m)
     }
   }"

definition cmd_config_default ::
  "nat \<Rightarrow> 'k os \<Rightarrow> 'k file_ops \<Rightarrow> string \<Rightarrow> 'w json_ops \<Rightarrow> ('v, 'j) json_build \<Rightarrow> 'j \<Rightarrow> string list \<Rightarrow> ptr \<Rightarrow> 'k mach \<Rightarrow>
   (((int + int) \<times> string) \<times> 'k mach) option" where
  "cmd_config_default fuel os fo ACCFG_CONF_FILE js jb j argv ctx m =
     json_cmd jb (Some ''./'') config_default_options config_vars (config_default_main fuel os fo ACCFG_CONF_FILE js jb ctx) j argv m"

end
