(* ===== verification/Idxd_Sysfs.thy ===== *)
theory Idxd_Sysfs
  imports Util_Json
begin

text \<open>
  The idxd driver, which is outside the repository, as far as properties rely on it: its files in sysfs as the kernel
  documents them (\<open>Documentation/ABI/stable/sysfs-driver-dma-idxd\<close> and the driver model's \<open>bind\<close> and \<open>unbind\<close>), each
  behaviour as a named hypothesis on the operating system; a small kernel that has all of them; and the first property
  that rests on one, the operation configuration of a work queue.
\<close>

section \<open>Attributes of a configuration\<close>

text \<open>The writable attributes of devices, groups, work queues and engines, old names included; \<open>state\<close> is not one of them.\<close>

definition config_attrs :: "string list" where
  "config_attrs =
     [''read_buffer_limit'', ''token_limit'', ''event_log_size'',
      ''read_buffers_reserved'', ''tokens_reserved'', ''use_read_buffer_limit'', ''use_token_limit'', ''read_buffers_allowed'',
      ''tokens_allowed'', ''traffic_class_a'', ''traffic_class_b'', ''desc_progress_limit'', ''batch_progress_limit'',
      ''group_id'', ''size'', ''mode'', ''type'', ''name'', ''driver_name'', ''priority'', ''block_on_fault'', ''threshold'',
      ''max_batch_size'', ''max_transfer_size'', ''ats_disable'', ''prs_disable'', ''op_config'']"

definition config_file :: "string \<Rightarrow> bool" where
  "config_file q = (case after_last_slash q of None \<Rightarrow> False | Some f \<Rightarrow> f \<in> set config_attrs)"

lemma after_last_slash_append:
  assumes "CHR ''/'' \<notin> set f"
  shows "after_last_slash (p @ CHR ''/'' # f) = Some f"
  using assms by (simp add: after_last_slash_def takeWhile_append)

lemma config_file_attr [simp]: "CHR ''/'' \<notin> set f \<Longrightarrow> config_file (p @ CHR ''/'' # f) \<longleftrightarrow> f \<in> set config_attrs"
  by (simp add: config_file_def after_last_slash_append)

lemma config_attr_mem [simp]:
  "f \<in> set config_attrs \<longleftrightarrow>
     f \<in> {''read_buffer_limit'', ''token_limit'', ''event_log_size'',
      ''read_buffers_reserved'', ''tokens_reserved'', ''use_read_buffer_limit'', ''use_token_limit'', ''read_buffers_allowed'',
      ''tokens_allowed'', ''traffic_class_a'', ''traffic_class_b'', ''desc_progress_limit'', ''batch_progress_limit'',
      ''group_id'', ''size'', ''mode'', ''type'', ''name'', ''driver_name'', ''priority'', ''block_on_fault'', ''threshold'',
      ''max_batch_size'', ''max_transfer_size'', ''ats_disable'', ''prs_disable'', ''op_config''}"
  by (simp only: config_attrs_def list.set)

lemma config_file_not_state: "config_file q \<Longrightarrow> q \<noteq> dir @ ''/state''"
  using config_file_attr [of "''state''" dir] by auto

text \<open>
  A kernel that takes a configuration: directories open, the configuration attributes are there and open, and what is written
  to an attribute is accepted as a whole.
\<close>

definition takes_all :: "'k os \<Rightarrow> bool" where
  "takes_all os \<longleftrightarrow> (\<forall>p f k. f = O_PATH \<or> config_file p \<longrightarrow> os_open os p f k = None) \<and>
     (\<forall>p k. config_file p \<longrightarrow> os_access os p k = None) \<and>
     (\<forall>p b k. config_file p \<longrightarrow> (\<exists>n k'. os_write os p b k = (Inr n, k') \<and> length b \<le> n))"

lemma takes_all_writes:
  assumes "takes_all os" "config_file p"
  obtains n k' where "os_write os p b k = (Inr n, k')" "length b \<le> n"
  using assms unfolding takes_all_def by metis

lemma takes_all_opens:
  assumes "takes_all os"
  shows "sys_open os p O_PATH m = (True, m)" "config_file p \<Longrightarrow> sys_open os p f m = (True, m)"
  using assms by (simp_all add: takes_all_def sys_call_defs)

lemma takes_all_write:
  "takes_all os \<Longrightarrow> config_file p \<Longrightarrow> sysfs_write_attr os p b m = (0, m\<lparr>kern := snd (os_write os p b (kern m))\<rparr>)"
  by (rule takes_all_writes [of os p b "kern m"]) (auto simp: takes_all_def sysfs_write_attr_def write_attr_def sys_call_defs)

text \<open>What writing configuration attributes keeps of the kernel, as it keeps whether devices and queues are enabled.\<close>

definition config_kept :: "'k os \<Rightarrow> ('k \<Rightarrow> bool) \<Rightarrow> bool" where
  "config_kept os D \<longleftrightarrow> (\<forall>q b k. config_file q \<longrightarrow> D k \<longrightarrow> D (snd (os_write os q b k)))"


section \<open>Binding\<close>

text \<open>
  A device or work queue is enabled by writing its name to the file \<open>bind\<close> of a driver on its bus: a device to that of the
  driver \<open>idxd\<close>, a queue to that of the driver it names, else of the portal for its type.  In the compatibility mode of old
  kernels the one driver of the bus serves both.
\<close>

definition bind_path :: "string \<Rightarrow> string \<Rightarrow> string" where
  "bind_path bus drv = ''/sys/bus/'' @ bus @ ''/drivers/'' @ drv @ ''/bind''"

definition compat_mode :: "'k mach \<Rightarrow> accfg_device \<Rightarrow> bool" where
  "compat_mode m dv \<longleftrightarrow> (\<exists>cx. ctxs m (dev_ctx dv) = Some cx \<and> c_compat cx)"

definition device_driver :: "'k mach \<Rightarrow> accfg_device \<Rightarrow> string" where
  "device_driver m dv = (if compat_mode m dv then dev_bus_type_str dv else ''idxd'')"

definition queue_driver :: "'k mach \<Rightarrow> accfg_device \<Rightarrow> accfg_wq \<Rightarrow> string option" where
  "queue_driver m dv q =
     (if wq_driver_name q \<noteq> None \<and> wq_driver_name q \<noteq> Some [] then wq_driver_name q
      else if compat_mode m dv then Some (dev_bus_type_str dv)
      else (case wq_type q of ACCFG_WQT_KERNEL \<Rightarrow> Some ''dmaengine'' | ACCFG_WQT_USER \<Rightarrow> Some ''user'' | ACCFG_WQT_NONE \<Rightarrow> None))"

definition state_reads :: "'k os \<Rightarrow> string \<Rightarrow> string \<Rightarrow> 'k \<Rightarrow> bool" where
  "state_reads os path s k = attr_reads os (path @ ''/state'') s k"

text \<open>
  \<open>binds os C path name file k\<close>: the file of the driver is there and takes the name, the object at \<open>path\<close> is then enabled, the
  state of every object at another path is what it was, and so is the configuration, of which \<open>C\<close> tells that it is complete.
\<close>

definition binds :: "'k os \<Rightarrow> ('k \<Rightarrow> bool) \<Rightarrow> string \<Rightarrow> string \<Rightarrow> string \<Rightarrow> 'k \<Rightarrow> bool" where
  "binds os C path name file k \<longleftrightarrow> os_access os file k = None \<and> os_open os file O_WRONLY k = None \<and>
     (\<exists>n k'. os_write os file name k = (Inr n, k') \<and> length name \<le> n \<and> C k' \<and> state_reads os path ''enabled'' k' \<and>
        (\<forall>q s. q \<noteq> path \<longrightarrow> state_reads os q s k \<longrightarrow> state_reads os q s k'))"

text \<open>Where the configuration is complete, a disabled device can be enabled, and a disabled queue on an enabled device.\<close>

definition driver_binds :: "'k os \<Rightarrow> ('k \<Rightarrow> bool) \<Rightarrow> 'k mach \<Rightarrow> bool" where
  "driver_binds os C m \<longleftrightarrow>
     (\<forall>d dv n k. devices m d = Some dv \<longrightarrow> devpath_to_devname (dev_path dv) = Some n \<longrightarrow> C k \<longrightarrow> state_reads os (dev_path dv) ''disabled'' k \<longrightarrow>
        binds os C (dev_path dv) n (bind_path (dev_bus_type_str dv) (device_driver m dv)) k) \<and>
     (\<forall>w q dv drv n k. wqs m w = Some q \<longrightarrow> devices m (wq_device q) = Some dv \<longrightarrow> queue_driver m dv q = Some drv \<longrightarrow>
        devpath_to_devname (wq_path q) = Some n \<longrightarrow> C k \<longrightarrow> state_reads os (dev_path dv) ''enabled'' k \<longrightarrow> state_reads os (wq_path q) ''disabled'' k \<longrightarrow>
        binds os C (wq_path q) n (bind_path (dev_bus_type_str dv) drv) k)"

lemma driver_bindsD:
  assumes "driver_binds os C m"
  shows "devices m d = Some dv \<Longrightarrow> devpath_to_devname (dev_path dv) = Some n \<Longrightarrow> C k \<Longrightarrow> state_reads os (dev_path dv) ''disabled'' k \<Longrightarrow>
      binds os C (dev_path dv) n (bind_path (dev_bus_type_str dv) (device_driver m dv)) k"
    and "wqs m w = Some q \<Longrightarrow> devices m (wq_device q) = Some dv \<Longrightarrow> queue_driver m dv q = Some drv \<Longrightarrow>
      devpath_to_devname (wq_path q) = Some wn \<Longrightarrow> C k \<Longrightarrow> state_reads os (dev_path dv) ''enabled'' k \<Longrightarrow> state_reads os (wq_path q) ''disabled'' k \<Longrightarrow>
      binds os C (wq_path q) wn (bind_path (dev_bus_type_str dv) drv) k"
  using assms unfolding driver_binds_def by blast+


section \<open>The operation configuration\<close>

text \<open>
  A bit mask of eight words is written in hexadecimal, words separated by commas, leading zeros or not, and shown with all
  its digits (\<open>%*pb\<close>) and a newline.
\<close>

definition shows_mask :: "'k os \<Rightarrow> string \<Rightarrow> 'k \<Rightarrow> bool" where
  "shows_mask os file k \<longleftrightarrow>
     (\<forall>bits s. length bits = 8 \<longrightarrow> (\<forall>v \<in> set bits. 0 \<le> v \<and> v \<le> UINT_MAX) \<longrightarrow> s = show_x32s bits \<or> s = bitmask_text bits \<longrightarrow>
        (\<exists>n k'. os_write os file s k = (Inr n, k') \<and> length s \<le> n \<and>
           (\<forall>n. os_read os file n k' = Inr (take n (bitmask_text bits @ [NL])))))"

lemma pad0_digits:
  assumes "2 \<le> b"
  obtains ds where "ds \<noteq> []" "pad0 w (show_nat b n) = map digit_char ds" "\<forall>d \<in> set ds. d < b" "foldl (\<lambda>a d. a * b + d) 0 ds = n"
proof -
  obtain ds where ds: "ds \<noteq> []" "show_nat b n = map digit_char ds" "\<forall>d \<in> set ds. d < b" "foldl (\<lambda>a d. a * b + d) 0 ds = n"
    using show_nat_digitsE [OF assms, of n] by metis
  have "CHR ''0'' = digit_char 0" by code_simp
  then have "pad0 w (show_nat b n) = map digit_char (replicate (w - length ds) 0 @ ds)"
    by (simp add: pad0_def ds(2) map_replicate_const)
  moreover have "foldl (\<lambda>a d. a * b + d) (0 :: nat) (replicate k 0) = 0" for k by (induction k) auto
  ultimately show ?thesis using ds assms by (intro that [of "replicate (w - length ds) 0 @ ds"]) auto
qed

lemma scan_x32_pad0:
  assumes "0 \<le> x" "x \<le> UINT_MAX" "num_stop r"
  shows "scan_x32 (pad0 w (show_hex x) @ r) = Some (x, r)"
proof -
  have "(2::nat) \<le> 16" by simp
  from pad0_digits [OF this, of w "nat x"] obtain ds where ds: "ds \<noteq> []" "pad0 w (show_nat 16 (nat x)) = map digit_char ds"
    "\<forall>d \<in> set ds. d < 16" "foldl (\<lambda>a d. a * 16 + d) 0 ds = nat x" by metis
  have "\<forall>d \<in> set ds. d < 17" using ds(3) by auto
  then have "scan_base 16 (map digit_char ds @ r) = (16, map digit_char ds @ r)"
    using no_hex_prefix [OF ds(1) _ assms(3)] by (simp add: scan_base_def)
  from scan_number_digits(1) [OF ds(1,3) _ not_has_digit_mono [OF assms(3)] this] ds(2,4) assms(1,2)
  show ?thesis by (simp add: scan_x32_def show_hex_def ulong_sat_small u32_id c_limits)
qed

text \<open>
  the text of a bit mask, eight words of eight hexadecimal digits, is read back by the scanner of the library as the same
  words: the operation configuration that is saved is the one that is loaded.
\<close>

lemma bitmask_roundtrip:
  assumes "\<forall>v \<in> set vs. 0 \<le> v \<and> v \<le> UINT_MAX"
  shows "scan_x32s (length vs) (util_bitmask_to_string vs) = vs"
proof -
  have "scan_x32s (length vs) (bitmask_text vs) = vs"
    using assms
  proof (induction vs rule: bitmask_text.induct)
    case (2 v)
    then show ?case using scan_x32_pad0 [of v "[]" 8] by (simp add: scan_lit_def)
  next
    case (3 v w vs)
    have "num_stop (CHR '','' # bitmask_text (w # vs))" by (simp add: num_stop_def digit_val_def)
    with 3 show ?case using scan_x32_pad0 [of v "CHR '','' # bitmask_text (w # vs)" 8] by (simp add: scan_lit_def)
  qed simp
  then show ?thesis by (simp add: util_bitmask_to_string_def)
qed

lemma bitmask_roundtrip_example:
  "scan_x32s 8 (util_bitmask_to_string [1, 0, 0xff, 0, 0, 0x1400000, 0, UINT_MAX]) = [1, 0, 0xff, 0, 0, 0x1400000, 0, UINT_MAX]"
proof -
  let ?vs = "[1, 0, 0xff, 0, 0, 0x1400000, 0, UINT_MAX] :: int list"
  have "\<forall>v \<in> set ?vs. 0 \<le> v \<and> v \<le> UINT_MAX" by (simp add: UINT_MAX_def)
  moreover have "length ?vs = 8" by simp
  ultimately show ?thesis using bitmask_roundtrip [of ?vs] by (simp only:)
qed

lemma bitmask_text_chars: "c \<in> set (bitmask_text vs) \<Longrightarrow> c \<noteq> NUL \<and> c \<noteq> NL"
proof (induction vs rule: bitmask_text.induct)
  case (2 v)
  then show ?case using show_hex_printable [of c v] by (auto simp: pad0_def NUL_def NL_def)
next
  case (3 v w vs)
  then show ?case using show_hex_printable [of c v] by (auto simp: pad0_def NUL_def NL_def)
qed simp

lemma bitmask_text_length: "\<forall>v \<in> set vs. 0 \<le> v \<and> v \<le> UINT_MAX \<Longrightarrow> length (bitmask_text vs) \<le> 9 * length vs"
  using show_hex_length by (induction vs rule: bitmask_text.induct) (fastforce simp: pad0_def)+

lemma bitmask_text_nonempty: "vs \<noteq> [] \<Longrightarrow> bitmask_text vs \<noteq> []"
  by (induction vs rule: bitmask_text.induct) (simp_all add: pad0_def show_hex_def)

lemma accfg_get_param_str_line:
  assumes "alloc_ok os" "os_open os (dfd @ ''/'' @ name) O_RDONLY (kern m) = None"
    and "os_read os (dfd @ ''/'' @ name) (MAX_PARAM_LEN - 1) (kern m) = Inr (s @ [NL])"
    and "length s + 1 < MAX_PARAM_LEN" "\<forall>c \<in> set s. c \<noteq> NUL \<and> c \<noteq> NL"
  shows "accfg_get_param_str os dfd name m = (Some s, m)"
proof -
  have "cstring (s @ [NL]) = s @ [NL]" using assms(5) by (auto simp: cstring_def takeWhile_eq_all_conv NUL_def NL_def)
  moreover have "takeWhile (\<lambda>c. c \<noteq> NL) (s @ [NL]) = s" using assms(5) by (simp add: takeWhile_append)
  ultimately show ?thesis using assms by (simp add: accfg_get_param_str_def sys_call_defs alloc_ok_def)
qed

text \<open>
  C39: setting the operation configuration of a work queue and reading it back gives the same eight words, on a kernel whose
  attribute \<open>op_config\<close> takes a bit mask in hexadecimal and shows the mask written last with all its digits and a newline.
\<close>

theorem accfg_wq_op_config_roundtrip:
  assumes "wf_state m" "wqs m w = Some wq" "alloc_ok os" "length bits = 8" "\<forall>v \<in> set bits. 0 \<le> v \<and> v \<le> UINT_MAX"
    and "\<forall>k. os_open os (wq_path wq) O_PATH k = None" "\<forall>f k. os_open os (wq_path wq @ ''/op_config'') f k = None"
    and "shows_mask os (wq_path wq @ ''/op_config'') (kern m)"
  shows "\<exists>m'. accfg_wq_set_op_config os w (Some bits) m = Some (0, m') \<and>
     accfg_wq_get_op_config os w m' = Some ((0, bits), m')"
proof -
  let ?s = "show_x32s bits"
  have len: "length ?s < MAX_PARAM_LEN - 1" using show_x32s_length [OF assms(5)] assms(4) by (simp add: MAX_PARAM_LEN_def)
  obtain n k' where k': "os_write os (wq_path wq @ ''/op_config'') ?s (kern m) = (Inr n, k')" "length ?s \<le> n"
    "\<And>n. os_read os (wq_path wq @ ''/op_config'') n k' = Inr (take n (bitmask_text bits @ [NL]))"
    using assms(4,5,8) unfolding shows_mask_def by blast
  let ?m = "m\<lparr>kern := k'\<rparr>"
  obtain dv where d: "devices m (wq_device wq) = Some dv" "accfg_wq_get_ctx w m = Some (dev_ctx dv)"
    using wq_ctx_Some [OF assms(1,2)] by metis
  have "length (bitmask_text bits) \<le> 72" using bitmask_text_length [OF assms(5)] assms(4) by simp
  then have "accfg_get_param_str os (wq_path wq) ''op_config'' ?m = (Some (bitmask_text bits), ?m)"
    using assms(7) k'(3) bitmask_text_chars
    by (intro accfg_get_param_str_line [OF assms(3)]) (auto simp: MAX_PARAM_LEN_def)
  moreover have "accfg_wq_set_op_config os w (Some bits) m = Some (0, ?m)"
    using len assms(2,6,7) d(2) k'(1,2) wf_wq(3) [OF assms(1,2)]
    by (simp add: accfg_wq_set_op_config_def accfg_wq_set_op_config_str_def accfg_set_param_def sys_call_defs)
  moreover have "accfg_wq_get_ctx w ?m = Some (dev_ctx dv)" using assms(2) d(1) by (simp add: accfg_wq_get_ctx_def)
  moreover have "scan_x32s 8 (bitmask_text bits) = bits" using bitmask_roundtrip [OF assms(5)] assms(4) by (simp add: util_bitmask_to_string_def)
  ultimately show ?thesis
    using assms(2,4,6) wf_wq(3) [OF assms(1,2)]
    by (simp add: accfg_wq_get_op_config_def read_dir_str_def sys_open_def sys_status_def)
qed


section \<open>A kernel that behaves like this\<close>

text \<open>
  One device \<open>dsa0\<close> with one queue \<open>wq0.0\<close> for users over the files of \<open>fs\<close>: attributes keep the text written to them and show it
  with a newline, a mask with all its digits; \<open>bind\<close> and \<open>unbind\<close> change the two states in the order the hardware allows, a queue only when it
  has its type; every other file is not writable.
\<close>

definition put_file :: "string \<Rightarrow> string \<Rightarrow> fs \<Rightarrow> fs" where
  "put_file p b k = k\<lparr>fs_files := (p, b) # fs_files k\<rparr>"

definition has_text :: "string \<Rightarrow> string \<Rightarrow> fs \<Rightarrow> bool" where
  "has_text p s k \<longleftrightarrow> map_of (fs_files k) p = Some (s @ [NL])"

definition wq_complete :: "fs \<Rightarrow> bool" where
  "wq_complete k \<longleftrightarrow> has_text ''/d/dsa0/wq0.0/type'' ''user'' k"

definition idxd_write :: "string \<Rightarrow> string \<Rightarrow> fs \<Rightarrow> (int + nat) \<times> fs" where
  "idxd_write p b k =
     (let dev = ''/d/dsa0/state''; wq = ''/d/dsa0/wq0.0/state''; on = ''enabled'' @ [NL]; off = ''disabled'' @ [NL] in
      if p = ''/sys/bus/dsa/drivers/idxd/bind'' \<and> b = ''dsa0'' \<and> has_text dev ''disabled'' k then (Inr (length b), put_file dev on k)
      else if p = ''/sys/bus/dsa/drivers/user/bind'' \<and> b = ''wq0.0'' \<and> has_text dev ''enabled'' k \<and> has_text wq ''disabled'' k \<and> wq_complete k
      then (Inr (length b), put_file wq on k)
      else if p = ''/sys/bus/dsa/drivers/idxd/unbind'' \<and> b = ''dsa0'' \<and> has_text dev ''enabled'' k
      then (Inr (length b), put_file dev off (put_file wq off k))
      else if p = ''/sys/bus/dsa/drivers/user/unbind'' \<and> b = ''wq0.0'' \<and> has_text wq ''enabled'' k then (Inr (length b), put_file wq off k)
      else if \<not> config_file p then (Inl ENODEV, k)
      else (Inr (length b), put_file p ((if after_last_slash p = Some ''op_config'' then bitmask_text (scan_x32s 8 b) else b) @ [NL]) k))"

definition idxd_os :: "fs os" where
  "idxd_os = fs_os\<lparr>os_open := \<lambda>p f k. None, os_access := \<lambda>p k. None, os_write := idxd_write,
     os_read := \<lambda>p n k. Inr (take n (case map_of (fs_files k) p of None \<Rightarrow> ''0'' @ [NL] | Some s \<Rightarrow> if s = [] then ''0'' @ [NL] else s))\<rparr>"

lemma idxd_os_sel [simp]:
  "os_open idxd_os p f k = None" "os_access idxd_os p k = None" "os_write idxd_os = idxd_write" "os_alloc idxd_os k = (True, k)"
  "os_read idxd_os p n k = Inr (take n (case map_of (fs_files k) p of None \<Rightarrow> ''0'' @ [NL] | Some s \<Rightarrow> if s = [] then ''0'' @ [NL] else s))"
  "os_realpath idxd_os = os_realpath fs_os"
  by (simp_all add: idxd_os_def fs_os_def)

lemma idxd_os_ok: "os_ok idxd_os" "alloc_ok idxd_os"
proof -
  have "errno_value ENODEV" by (simp add: errno_value_def ENODEV_def INT_MAX_def)
  then have writes: "\<forall>p b k e. fst (idxd_write p b k) = Inl e \<longrightarrow> errno_value e"
    by (simp add: idxd_write_def Let_def split: if_splits)
  show "os_ok idxd_os" using fs_os_ok(1) unfolding os_ok_def idxd_os_sel
    by (elim conjE, intro conjI) (rule writes | simp_all only: option.distinct sum.distinct simp_thms)+
  show "alloc_ok idxd_os" by (simp add: alloc_ok_def)
qed

text \<open>The files of the driver are no configuration attributes.\<close>

lemma idxd_config_write:
  assumes "config_file p"
  shows "idxd_write p b k = (Inr (length b), put_file p ((if after_last_slash p = Some ''op_config'' then bitmask_text (scan_x32s 8 b) else b) @ [NL]) k)"
proof -
  have "\<not> config_file ''/sys/bus/dsa/drivers/idxd/bind''" "\<not> config_file ''/sys/bus/dsa/drivers/user/bind''"
    "\<not> config_file ''/sys/bus/dsa/drivers/idxd/unbind''" "\<not> config_file ''/sys/bus/dsa/drivers/user/unbind''" by code_simp+
  with assms have "p \<noteq> ''/sys/bus/dsa/drivers/idxd/bind''" "p \<noteq> ''/sys/bus/dsa/drivers/user/bind''"
    "p \<noteq> ''/sys/bus/dsa/drivers/idxd/unbind''" "p \<noteq> ''/sys/bus/dsa/drivers/user/unbind''" by metis+
  with assms show ?thesis unfolding idxd_write_def Let_def by (simp only: simp_thms if_False if_True)
qed

lemma idxd_takes_all: "takes_all idxd_os"
  by (simp add: takes_all_def idxd_config_write)

lemma idxd_shows_mask: "config_file p \<Longrightarrow> after_last_slash p = Some ''op_config'' \<Longrightarrow> shows_mask idxd_os p k"
  using bitmask_roundtrip scan_x32s_show
  by (fastforce simp: shows_mask_def idxd_config_write put_file_def util_bitmask_to_string_def)

text \<open>The two states, and what holds as long as both files say so.\<close>

lemma short_take: "length (take n xs) < n \<Longrightarrow> take n xs = xs"
  by (cases "length xs \<le> n") simp_all

lemma idxd_state_reads:
  assumes "state_reads idxd_os p s k" "s = ''disabled'' \<or> s = ''enabled''"
  shows "has_text (p @ ''/state'') s k"
proof -
  let ?r = "case map_of (fs_files k) (p @ ''/state'') of None \<Rightarrow> ''0'' @ [NL] | Some t \<Rightarrow> if t = [] then ''0'' @ [NL] else t"
  have "take SYSFS_ATTR_SIZE ?r = s @ [NL]" "length s + 1 < SYSFS_ATTR_SIZE" using assms(1) by (simp_all add: state_reads_def attr_reads_def)
  then have "?r = s @ [NL]" using short_take [of SYSFS_ATTR_SIZE ?r] by simp
  with assms(2) show ?thesis by (auto simp: has_text_def split: option.splits if_splits)
qed

lemma has_text_reads: "has_text (p @ ''/state'') s k \<Longrightarrow> length s + 1 < SYSFS_ATTR_SIZE \<Longrightarrow> NUL \<notin> set s \<Longrightarrow> state_reads idxd_os p s k"
  by (simp add: state_reads_def attr_reads_def has_text_def)

lemma put_state:
  "length s + 1 < SYSFS_ATTR_SIZE \<Longrightarrow> NUL \<notin> set s \<Longrightarrow> state_reads idxd_os p s (put_file (p @ ''/state'') (s @ [NL]) k)"
  "q \<noteq> p \<Longrightarrow> state_reads idxd_os q s (put_file (p @ ''/state'') t k) = state_reads idxd_os q s k"
  by (simp_all add: state_reads_def attr_reads_def put_file_def)

lemma ex_devnames: "devpath_to_devname (grp_path ex_grp) = Some ''group0.0''" "devpath_to_devname (dev_path ex_dev) = Some ''dsa0''"
  "devpath_to_devname (eng_path ex_eng) = Some ''engine0.0''"
  by (simp_all add: ex_defs) code_simp+

lemma wq_complete_state [simp]: "wq_complete (put_file (p @ ''/state'') t k) = wq_complete k"
proof -
  have "config_file ''/d/dsa0/wq0.0/type''" by code_simp
  from config_file_not_state [OF this, of p] show ?thesis by (simp add: wq_complete_def has_text_def put_file_def)
qed

lemma idxd_binds: "driver_binds idxd_os wq_complete (ex_mach k)"
  unfolding driver_binds_def
proof (intro conjI allI impI)
  have on: "length ''enabled'' + 1 < SYSFS_ATTR_SIZE" "NUL \<notin> set ''enabled''" by (simp_all add: SYSFS_ATTR_SIZE_def NUL_def)
  {
    fix d dv n k'
    assume a: "devices (ex_mach k) d = Some dv" "devpath_to_devname (dev_path dv) = Some n" "wq_complete k'" "state_reads idxd_os (dev_path dv) ''disabled'' k'"
    then have dv: "dv = ex_dev" by (simp split: if_splits)
    have n: "n = ''dsa0''" and path: "dev_path ex_dev = ''/d/dsa0''" and bus: "dev_bus_type_str ex_dev = ''dsa''" and
      drv: "device_driver (ex_mach k) ex_dev = ''idxd''"
      using a(2) dv ex_devnames(2) by (simp_all add: device_driver_def compat_mode_def) (simp_all add: ex_dev_def ex_ctx_def empty_ctx_def)
    have "has_text (''/d/dsa0'' @ ''/state'') ''disabled'' k'" using idxd_state_reads [OF a(4)] by (simp add: dv path)
    then have w: "idxd_write (bind_path ''dsa'' ''idxd'') ''dsa0'' k' = (Inr 4, put_file (''/d/dsa0'' @ ''/state'') (''enabled'' @ [NL]) k')"
      by (simp add: idxd_write_def Let_def bind_path_def)
    show "binds idxd_os wq_complete (dev_path dv) n (bind_path (dev_bus_type_str dv) (device_driver (ex_mach k) dv)) k'"
      unfolding binds_def dv n path bus drv idxd_os_sel w using put_state(1) [OF on, of "''/d/dsa0''" k'] put_state(2) [where p = "''/d/dsa0''"] wq_complete_state [of "''/d/dsa0''"] a(3) by simp
  next
    fix w q dv drv n k'
    assume a: "wqs (ex_mach k) w = Some q" "devices (ex_mach k) (wq_device q) = Some dv" "queue_driver (ex_mach k) dv q = Some drv"
      "devpath_to_devname (wq_path q) = Some n" "wq_complete k'" "state_reads idxd_os (dev_path dv) ''enabled'' k'" "state_reads idxd_os (wq_path q) ''disabled'' k'"
    then have q: "q = ex_wq" and dv: "dv = ex_dev" by (simp_all split: if_splits)
    have "devpath_to_devname ''/d/dsa0/wq0.0'' = Some ''wq0.0''" by code_simp
    then have n: "n = ''wq0.0''" and path: "dev_path ex_dev = ''/d/dsa0''" "wq_path ex_wq = ''/d/dsa0/wq0.0''" and bus: "dev_bus_type_str ex_dev = ''dsa''" and
      drv: "drv = ''user''"
      using a(3,4) q dv by (simp_all add: queue_driver_def) (simp_all add: ex_dev_def ex_wq_def)
    have "has_text (''/d/dsa0'' @ ''/state'') ''enabled'' k'" "has_text (''/d/dsa0/wq0.0'' @ ''/state'') ''disabled'' k'"
      using idxd_state_reads [OF a(6)] idxd_state_reads [OF a(7)] by (simp_all add: dv q path)
    then have w: "idxd_write (bind_path ''dsa'' ''user'') ''wq0.0'' k' = (Inr 5, put_file (''/d/dsa0/wq0.0'' @ ''/state'') (''enabled'' @ [NL]) k')"
      using a(5) by (simp add: idxd_write_def Let_def bind_path_def)
    show "binds idxd_os wq_complete (wq_path q) n (bind_path (dev_bus_type_str dv) drv) k'"
      unfolding binds_def q dv n path bus drv idxd_os_sel w using put_state(1) [OF on, of "''/d/dsa0/wq0.0''" k'] put_state(2) [where p = "''/d/dsa0/wq0.0''"] wq_complete_state [of "''/d/dsa0/wq0.0''"] a(5) by simp
  }
qed

theorem accfg_wq_op_config_roundtrip_witness:
  "\<exists>m'. accfg_wq_set_op_config idxd_os 4 (Some [1, 2, 3, 4, 5, 6, 7, 0xffffffff]) (ex_mach ex_fs) = Some (0, m') \<and>
     accfg_wq_get_op_config idxd_os 4 m' = Some ((0, [1, 2, 3, 4, 5, 6, 7, 0xffffffff]), m')"
proof -
  have "config_file (wq_path ex_wq @ ''/op_config'')" "after_last_slash (wq_path ex_wq @ ''/op_config'') = Some ''op_config''"
    using after_last_slash_append [of "''op_config''" "wq_path ex_wq"] by simp_all
  then have mask: "shows_mask idxd_os (wq_path ex_wq @ ''/op_config'') (kern (ex_mach ex_fs))" by (rule idxd_shows_mask)
  have "wqs (ex_mach ex_fs) 4 = Some ex_wq" by simp
  from accfg_wq_op_config_roundtrip [OF ex_mach_wf this idxd_os_ok(2) _ _ _ _ mask, of "[1, 2, 3, 4, 5, 6, 7, 0xffffffff]"]
  show ?thesis by (simp add: UINT_MAX_def)
qed

end
