(* ===== verification/Json_Props.thy ===== *)
theory Json_Props
  imports Json_Facts Config_Cmd Idxd_Sysfs
begin

text \<open>
  Properties of what is shown and saved: the texts of numbers and bit masks, the attributes the loader takes back,
  the group that work queues and engines are shown in, and a saved group that is loaded again.
\<close>

section \<open>Texts\<close>

text \<open>Rounding to hundredths of a unit.\<close>

lemma rounded_half:
  fixes n u :: int
  assumes "0 < u"
  shows "2 * \<bar>((n div u + 1) div 2) * u * 2 - n\<bar> \<le> 2 * u"
proof -
  define q where "q = n div u"
  define c where "c = (q + 1) div 2"
  have q: "u * q \<le> n" "n < u * q + u" using mult_div_mod_eq [of u n] pos_mod_bound [OF assms, of n] pos_mod_sign [OF assms, of n]
    unfolding q_def by linarith+
  have "2 * c = q \<or> 2 * c = q + 1" unfolding c_def by presburger
  then have "u * (2 * c) = u * q \<or> u * (2 * c) = u * (q + 1)" by auto
  then have "c * u * 2 = u * q \<or> c * u * 2 = u * q + u" by (simp add: algebra_simps)
  with q assms have "c * u * 2 - n \<le> u" "n - c * u * 2 \<le> u" by linarith+
  then have "\<bar>c * u * 2 - n\<bar> \<le> u" by (simp add: abs_le_iff)
  then show ?thesis by (simp add: q_def [symmetric] c_def [symmetric])
qed

lemma iec_rounded:
  assumes "0 \<le> n" "n * 200 \<le> ULONG_MAX" "0 < u"
  shows "2 * \<bar>iec_units n u * u - 100 * n\<bar> \<le> u"
  using rounded_half [OF assms(3), of "n * 200"] assms(1,2) by (simp add: iec_units_def u64_id algebra_simps abs_if split: if_splits)

lemma jedec_rounded:
  assumes "0 < u"
  shows "2 * \<bar>jedec_units n (200 * u) * (200 * u) - 100 * n\<bar> \<le> 200 * u"
  using rounded_half [OF assms, of n] by (simp add: jedec_units_def algebra_simps abs_if split: if_splits)

text \<open>
  a size of 5000 KiB or more is shown as hundredths of a binary and of a decimal unit, each at most half a hundredth
  away from the size, in mega units below 2 GiB and in giga units from there on, as long as the size times 200 fits in 64 bits.
\<close>

lemma display_size_rounds:
  assumes "5000 * 1024 \<le> n" "n * 200 \<le> ULONG_MAX"
  shows "\<exists>a b. \<exists>(u, iec, v, jedec) \<in> {(1048576, ''MiB'', 1000000, ''MB''), (1073741824, ''GiB'', 1000000000, ''GB'')}.
     display_size n = CHR 0x22 # hundredths a iec @ '' ('' @ hundredths b jedec @ '')'' @ [CHR 0x22] \<and>
     (n < 2147483648 \<longleftrightarrow> u = 1048576) \<and> 2 * \<bar>a * u - 100 * n\<bar> \<le> u \<and> 2 * \<bar>b * v - 100 * n\<bar> \<le> v"
proof -
  have u64: "u64 n = n" using assms by (simp add: u64_id ULONG_MAX_def)
  show ?thesis
  proof (cases "n < 2147483648")
    case True
    have "2 * \<bar>iec_units n 1048576 * 1048576 - 100 * n\<bar> \<le> 1048576" "2 * \<bar>jedec_units n 1000000 * 1000000 - 100 * n\<bar> \<le> 1000000"
      using iec_rounded [of n 1048576] jedec_rounded [of 5000 n] assms by simp_all
    with True assms(1) show ?thesis by (intro exI) (simp add: display_size_def u64)
  next
    case False
    have "2 * \<bar>iec_units n 1073741824 * 1073741824 - 100 * n\<bar> \<le> 1073741824" "2 * \<bar>jedec_units n 1000000000 * 1000000000 - 100 * n\<bar> \<le> 1000000000"
      using iec_rounded [of n 1073741824] jedec_rounded [of 5000000 n] assms by simp_all
    with False assms(1) show ?thesis by (intro exI) (simp add: display_size_def u64)
  qed
qed


section \<open>Attributes that are saved\<close>

text \<open>Every member a list of statements adds has a property.\<close>

definition adds :: "(string \<Rightarrow> jnew \<Rightarrow> bool) \<Rightarrow> 'k field \<Rightarrow> bool" where
  "adds P f \<longleftrightarrow> (\<forall>m k x m'. f m = Some (Member k x, m') \<longrightarrow> P k (made x))"

lemma run_fields_adds:
  assumes "\<forall>f \<in> set fs. adds P f" "run_fields fs m = Some (kvs, m')"
  shows "\<forall>(k, x) \<in> set kvs. P k x"
  using assms
proof (induction fs arbitrary: m kvs)
  case (Cons f fs)
  from Cons.prems(2) obtain r m1 rest where f: "f m = Some (r, m1)" "run_fields fs m1 = Some (rest, m')"
    "kvs = (case r of Member k x \<Rightarrow> (k, made x) # rest | _ \<Rightarrow> rest)" by (auto simp: bind_pair_Some_iff)
  have "\<forall>(k, x) \<in> set rest. P k x" using Cons.IH [OF _ f(2)] Cons.prems(1) by simp
  moreover have "P k (made x)" if "r = Member k x" for k x
  proof -
    have "adds P f" using Cons.prems(1) by simp
    with f(1) that show ?thesis unfolding adds_def by blast
  qed
  ultimately show ?case using f(3) by (cases r) auto
qed simp

lemma adds_number:
  "(\<And>i. P key (New_int i)) \<Longrightarrow> adds P (int_field key get p)"
  "(\<And>i. P key (New_int i)) \<Longrightarrow> adds P (nonneg_field key get p)"
  "(\<And>i. P key (New_int i)) \<Longrightarrow> adds P (not_iax_field key get p)"
  "(\<And>i. P key (New_int64 i)) \<Longrightarrow> adds P (int64_field key get p)"
  "(\<And>i. P ''size'' (New_int64 i)) \<Longrightarrow> adds P (size_field p)"
  by (auto simp: adds_def int_field_def nonneg_field_def not_iax_field_def int64_field_def size_field_def made_def bind_Some_iff split: if_splits)

lemma adds_text:
  "(\<And>s. P ''dev'' (New_string s)) \<Longrightarrow> adds P (name_field get p)"
  "(\<And>s. P ''type'' (New_string s)) \<Longrightarrow> adds P (wq_type_field p)"
  "(\<And>s. P ''name'' (New_string s)) \<Longrightarrow> adds P (wq_name_field p)"
  "(\<And>s. P ''driver_name'' (New_string s)) \<Longrightarrow> adds P (driver_name_field p)"
  "(\<And>s. P ''op_config'' (New_string s)) \<Longrightarrow> adds P (op_config_field os p)"
  by (auto simp: adds_def name_field_def wq_type_field_def wq_name_field_def driver_name_field_def op_config_field_def made_def
      bind_Some_iff split: if_splits option.splits)

text \<open>A number for a setter of numbers, a text for a setter of texts.\<close>

definition takes :: "bool \<Rightarrow> bool \<Rightarrow> jnew \<Rightarrow> bool" where
  "takes number txt x = (case x of New_string _ \<Rightarrow> \<not> number \<and> txt | _ \<Rightarrow> number)"

definition wq_loads :: "'k os \<Rightarrow> string \<Rightarrow> jnew \<Rightarrow> bool" where
  "wq_loads os k x \<longleftrightarrow> (\<exists>e \<in> set (wq_table os). wst_name e = k \<and>
     takes (wst_set_int_func e \<noteq> None \<or> wst_set_long_func e \<noteq> None) (wst_set_str_func e \<noteq> None) x)"

definition group_loads :: "'k os \<Rightarrow> string \<Rightarrow> jnew \<Rightarrow> bool" where
  "group_loads os k x \<longleftrightarrow> (\<exists>e \<in> set (group_table os). gst_name e = k \<and> takes (gst_set_int_func e \<noteq> None) (gst_set_str_func e \<noteq> None) x)"

definition engine_loads :: "'k os \<Rightarrow> string \<Rightarrow> jnew \<Rightarrow> bool" where
  "engine_loads os k x \<longleftrightarrow> (\<exists>e \<in> set (engine_table os). est_name e = k \<and> takes (est_set_int_func e \<noteq> None) (est_set_str_func e \<noteq> None) x)"

definition device_loads :: "'k os \<Rightarrow> string \<Rightarrow> jnew \<Rightarrow> bool" where
  "device_loads os k x \<longleftrightarrow> (\<exists>e \<in> set (device_table os). dst_name e = k \<and> takes (dst_set_int_func e \<noteq> None) (dst_set_str_func e \<noteq> None) x)"

lemmas loads_defs = wq_loads_def group_loads_def engine_loads_def device_loads_def takes_def
  wq_table_def wq_int_def wq_str_def group_table_def group_entry_def engine_table_def device_table_def

text \<open>The statements for the object of a group, as \<open>list.c\<close> has them.\<close>

definition group_fields :: "accfg_device_type \<Rightarrow> ptr \<Rightarrow> 'k field list" where
  "group_fields type grp = name_field accfg_group_get_devname grp #
     (if type \<noteq> ACCFG_DEVICE_IAX then read_buffer_fields grp else []) @ progress_fields grp"

lemma has_flag_save [simp]: "has_flag UTIL_JSON_SAVE UTIL_JSON_SAVE"
  by (simp add: has_flag_def UTIL_JSON_SAVE_def)

text \<open>
  C14: everything that is saved of a device, a group, a work queue and an engine beside its name is an attribute that
  the loader has a setter for, and of the type the setter takes: a number or a text.
\<close>

theorem saved_attributes_load:
  "(run_fields (map snd (wq_fields os wq st UTIL_JSON_SAVE)) m = Some (kvs, m') \<longrightarrow> (\<forall>(k, x) \<in> set ((''mode'', New_string mode) # kvs). wq_loads os k x))
   \<and> (run_fields (group_fields type grp) m = Some (kvs, m') \<longrightarrow> (\<forall>(k, x) \<in> set kvs. k = ''dev'' \<or> group_loads os k x))
   \<and> (run_fields (engine_fields engine) m = Some (kvs, m') \<longrightarrow> (\<forall>(k, x) \<in> set kvs. k = ''dev'' \<or> engine_loads os k x))
   \<and> (run_fields (device_fields os device UTIL_JSON_SAVE) m = Some (kvs, m') \<longrightarrow> (\<forall>(k, x) \<in> set kvs. k = ''dev'' \<or> device_loads os k x))"
proof -
  have wq: "\<forall>f \<in> set (map snd (wq_fields os wq st UTIL_JSON_SAVE)). adds (wq_loads os) f"
    by (simp add: wq_fields_def Let_def) (intro conjI adds_number adds_text; simp add: loads_defs)
  have grp: "\<forall>f \<in> set (group_fields type grp). adds (\<lambda>k x. k = ''dev'' \<or> group_loads os k x) f"
    by (cases "type = ACCFG_DEVICE_IAX"; simp add: group_fields_def read_buffer_fields_def progress_fields_def; intro conjI adds_number adds_text;
      simp add: loads_defs)
  have eng: "\<forall>f \<in> set (engine_fields engine). adds (\<lambda>k x. k = ''dev'' \<or> engine_loads os k x) f"
    by (simp add: engine_fields_def) (intro conjI adds_number adds_text; simp add: loads_defs)
  have dev: "\<forall>f \<in> set (device_fields os device UTIL_JSON_SAVE). adds (\<lambda>k x. k = ''dev'' \<or> device_loads os k x) f"
    by (simp add: device_fields_def device_save_fields_def) (intro conjI adds_number adds_text; simp add: loads_defs)
  have mode: "wq_loads os ''mode'' (New_string mode)" by (simp add: loads_defs)
  show ?thesis
    using run_fields_adds [OF wq, of m kvs m'] run_fields_adds [OF grp, of m kvs m'] run_fields_adds [OF eng, of m kvs m']
      run_fields_adds [OF dev, of m kvs m'] mode by auto
qed


section \<open>A saved group is loaded again\<close>

text \<open>
  What writing attributes of a group leaves as it was: every other object, and what holds of the kernel through every
  write to such a file.
\<close>

definition group_quiet :: "'k os \<Rightarrow> ptr \<Rightarrow> 'k mach \<Rightarrow> 'k mach \<Rightarrow> bool" where
  "group_quiet os g m m' \<longleftrightarrow> ctxs m' = ctxs m \<and> devices m' = devices m \<and> wqs m' = wqs m \<and> engines m' = engines m \<and>
     (\<forall>x. x \<noteq> g \<longrightarrow> groups m' x = groups m x) \<and> (\<forall>D. config_kept os D \<longrightarrow> D (kern m) \<longrightarrow> D (kern m'))"

lemma group_quiet_refl [simp]: "group_quiet os g m m" and group_quiet_errno [simp]: "group_quiet os g (m\<lparr>errno := e\<rparr>) m' = group_quiet os g m m'"
  "group_quiet os g m (m'\<lparr>errno := e\<rparr>) = group_quiet os g m m'"
  by (simp_all add: group_quiet_def)

lemma group_quiet_trans: "group_quiet os g m m1 \<Longrightarrow> group_quiet os g m1 m2 \<Longrightarrow> group_quiet os g m m2"
  by (auto simp: group_quiet_def)

definition group_number :: "string \<Rightarrow> bool" where
  "group_number field \<longleftrightarrow> field \<in> {''read_buffers_reserved'', ''use_read_buffer_limit'', ''read_buffers_allowed'', ''desc_progress_limit'', ''batch_progress_limit''}"

lemma group_number_file: "group_number field \<Longrightarrow> takes_all os \<Longrightarrow> config_file (group_attr_file os field m gr)"
  unfolding group_number_def insert_iff empty_iff
  by (elim disjE) (simp_all add: group_attr_file_def takes_all_def)

text \<open>The setters of a group leave the devices alone.\<close>

lemma group_setter_keeps:
  assumes "os_ok os" "wf_state m" "groups m g = Some gr" "length field < 127" "\<And>v x. group_links (store v x) = group_links x"
    and "group_number field"
  shows "wp (accfg_group_set_field os field store g v m) (\<lambda>(rc, m'). wf_state m' \<and> rc \<le> 0 \<and> devices m' = devices m \<and>
     groups m' g = Some (if rc = 0 then store v gr else gr) \<and> (takes_all os \<longrightarrow> rc = 0 \<and> group_quiet os g m m'))"
  using group_number_file [OF assms(6), of os m gr]
  by (intro wp_mono [OF accfg_group_set_field_wp [OF assms(1-5)]])
    (use assms(3) in \<open>auto simp: error_frame_def takes_all_write group_quiet_def config_kept_def split: if_splits\<close>)

text \<open>What loading a number into an attribute does to the group, on a device with a limit of read buffers or without.\<close>

definition group_load :: "bool \<Rightarrow> string \<Rightarrow> int \<Rightarrow> accfg_group \<Rightarrow> accfg_group" where
  "group_load limited key i g =
     (if key = ''read_buffers_reserved'' then g\<lparr>grp_read_buffers_reserved := u32 i\<rparr>
      else if key = ''use_read_buffer_limit'' then (if limited then g\<lparr>grp_use_read_buffer_limit := u32 i\<rparr> else g)
      else if key = ''read_buffers_allowed'' then g\<lparr>grp_read_buffers_allowed := u32 i\<rparr>
      else if key = ''desc_progress_limit'' then g\<lparr>grp_desc_progress_limit := u32 i\<rparr>
      else g\<lparr>grp_batch_progress_limit := u32 i\<rparr>)"

text \<open>The numbers the loader accepts for an attribute of a group.\<close>

definition group_value_ok :: "string \<Rightarrow> int \<Rightarrow> bool" where
  "group_value_ok key i \<longleftrightarrow> 0 \<le> i \<and> i \<le> INT_MAX \<and>
     (key = ''read_buffers_reserved'' \<or> key = ''use_read_buffer_limit'' \<or> key = ''read_buffers_allowed'' \<or>
      key = ''desc_progress_limit'' \<and> i \<le> 3 \<or> key = ''batch_progress_limit'' \<and> i \<le> 3)"

lemma five_cases:
  "A \<or> B \<or> C \<or> D \<and> X \<or> E \<and> X \<Longrightarrow> (A \<Longrightarrow> T) \<Longrightarrow> (B \<Longrightarrow> T) \<Longrightarrow> (C \<Longrightarrow> T) \<Longrightarrow> (D \<Longrightarrow> X \<Longrightarrow> T) \<Longrightarrow> (E \<Longrightarrow> X \<Longrightarrow> T) \<Longrightarrow> T"
  by blast

text \<open>The state between two pairs: the group, on its device, with the progress limits the kernel supports.\<close>

definition group_at :: "accfg_device \<Rightarrow> ptr \<Rightarrow> accfg_group \<Rightarrow> 'k mach \<Rightarrow> bool" where
  "group_at dv g gr m \<longleftrightarrow> wf_state m \<and> groups m g = Some gr \<and> devices m (grp_device gr) = Some dv \<and>
     0 \<le> s32 (grp_desc_progress_limit gr) \<and> 0 \<le> s32 (grp_batch_progress_limit gr)"

lemma group_at_errno [simp]: "group_at dv g gr (m\<lparr>errno := e\<rparr>) = group_at dv g gr m"
  using wf_shape [of m "m\<lparr>errno := e\<rparr>"] wf_shape [of "m\<lparr>errno := e\<rparr>" m] by (auto simp: group_at_def)

lemma group_at_set:
  assumes "os_ok os" "group_at dv g gr m" "length field < 127" "\<And>v x. group_links (store v x) = group_links x"
    and "0 \<le> s32 (grp_desc_progress_limit (store v gr))" "0 \<le> s32 (grp_batch_progress_limit (store v gr))"
    and "group_number field"
  shows "wp (accfg_group_set_field os field store g v m) (\<lambda>(rc, m'). rc \<le> 0 \<and> (takes_all os \<longrightarrow> rc = 0 \<and> group_quiet os g m m') \<and>
     group_at dv g (if rc = 0 then store v gr else gr) m')"
proof -
  from assms(2) have at: "wf_state m" "groups m g = Some gr" "devices m (grp_device gr) = Some dv"
    "0 \<le> s32 (grp_desc_progress_limit gr)" "0 \<le> s32 (grp_batch_progress_limit gr)" by (auto simp: group_at_def)
  have "grp_device (store v gr) = grp_device gr" using assms(4) [of v gr] by (simp add: group_links_def)
  then show ?thesis
    by (intro wp_mono [OF group_setter_keeps [OF assms(1) at(1,2) assms(3,4,7)]]) (use at assms(5,6) in \<open>auto simp: group_at_def\<close>)
qed

declare group_number_def [simp]

lemma group_json_set_number:
  assumes "os_ok os" "group_at dv g gr m" "dev_type dv \<noteq> ACCFG_DEVICE_IAX" "g \<noteq> 0" "\<not> json_null js v"
    and "js_int js v = (i, None)" "group_value_ok key i"
  shows "wp (group_json_set_val os js g v key m) (\<lambda>(rc, m'). rc \<le> 0 \<and> (takes_all os \<longrightarrow> rc = 0 \<and> group_quiet os g m m') \<and>
     group_at dv g (if rc = 0 then group_load (u32 (dev_read_buffer_limit dv) \<noteq> 0) key i gr else gr) m')"
proof -
  let ?m = "m\<lparr>errno := 0\<rparr>"
  from assms(2) have at: "groups m g = Some gr" "devices m (grp_device gr) = Some dv"
    "0 \<le> s32 (grp_desc_progress_limit gr)" "0 \<le> s32 (grp_batch_progress_limit gr)" by (auto simp: group_at_def)
  have at0: "group_at dv g gr ?m" using assms(2) by simp
  have i: "0 \<le> i" "i \<le> 2147483647" using assms(7) by (auto simp: group_value_ok_def INT_MAX_def)
  then have s32: "s32 i = i" by (simp add: s32_id)
  note defs = group_json_set_val_def group_attribute_filter_def group_table_def group_entry_def if_writable_def get_number_errno_def
    accfg_group_get_device_def accfg_device_get_type_def iax_lacks_def json_null_def EINVAL_def
  note read = at assms(3-6) i
  note set = group_at_set [OF assms(1) at0, unfolded group_quiet_errno]
  from assms(7) consider "key = ''read_buffers_reserved''" | "key = ''use_read_buffer_limit''" | "key = ''read_buffers_allowed''"
    | "key = ''desc_progress_limit''" "i \<le> 3" | "key = ''batch_progress_limit''" "i \<le> 3"
    unfolding group_value_ok_def by (elim conjE) (rule five_cases [OF _ that])
  then show ?thesis
  proof cases
    case 1
    have "group_json_set_val os js g v key m = accfg_group_set_read_buffers_reserved os g i ?m"
      using read 1 by (simp add: defs is_group_read_buffer_attribs_writable_def)
    moreover have "group_load (u32 (dev_read_buffer_limit dv) \<noteq> 0) key i gr = gr\<lparr>grp_read_buffers_reserved := u32 i\<rparr>" by (simp add: group_load_def 1)
    ultimately show ?thesis
      using at i s32 by (simp only: accfg_group_set_read_buffers_reserved_def) (rule set; simp add: group_links_def)
  next
    case 2
    have "group_json_set_val os js g v key m =
        (if u32 (dev_read_buffer_limit dv) \<noteq> 0 then accfg_group_set_use_read_buffer_limit os g i ?m else Some (0, ?m))"
      using read 2 by (simp add: defs is_group_read_buffer_limit_writable_def accfg_device_get_read_buffer_limit_def)
    moreover have "wp (accfg_group_set_use_read_buffer_limit os g i ?m) (\<lambda>(rc, m'). rc \<le> 0 \<and> (takes_all os \<longrightarrow> rc = 0 \<and> group_quiet os g m m') \<and>
        group_at dv g (if rc = 0 then gr\<lparr>grp_use_read_buffer_limit := u32 i\<rparr> else gr) m')"
      using at unfolding accfg_group_set_use_read_buffer_limit_def by (intro set) (simp_all add: group_links_def)
    moreover have "group_load True key i gr = gr\<lparr>grp_use_read_buffer_limit := u32 i\<rparr>" "group_load False key i gr = gr" by (simp_all add: group_load_def 2)
    ultimately show ?thesis
      using at0 by (cases "u32 (dev_read_buffer_limit dv) = 0") (simp_all only: if_True if_False wp_simps not_True_eq_False not_False_eq_True if_cancel split_conv order_refl simp_thms
        group_quiet_errno group_quiet_refl)
  next
    case 3
    have "group_json_set_val os js g v key m = accfg_group_set_read_buffers_allowed os g i ?m"
      using read 3 by (simp add: defs is_group_read_buffer_attribs_writable_def)
    moreover have "group_load (u32 (dev_read_buffer_limit dv) \<noteq> 0) key i gr = gr\<lparr>grp_read_buffers_allowed := u32 i\<rparr>" by (simp add: group_load_def 3)
    ultimately show ?thesis
      using at i s32 by (simp only: accfg_group_set_read_buffers_allowed_def) (rule set; simp add: group_links_def)
  next
    case 4
    have "group_json_set_val os js g v key m = accfg_group_set_desc_progress_limit os g i ?m"
      using read 4 by (simp add: defs is_group_desc_progress_limit_writable_def accfg_group_get_desc_progress_limit_def accfg_group_get_field_def)
    moreover have "group_load (u32 (dev_read_buffer_limit dv) \<noteq> 0) key i gr = gr\<lparr>grp_desc_progress_limit := u32 i\<rparr>" by (simp add: group_load_def 4)
    ultimately show ?thesis
      using at i s32 by (simp only: accfg_group_set_desc_progress_limit_def) (rule set; simp add: group_links_def)
  next
    case 5
    have "group_json_set_val os js g v key m = accfg_group_set_batch_progress_limit os g i ?m"
      using read 5 by (simp add: defs is_group_batch_progress_limit_writable_def accfg_group_get_batch_progress_limit_def accfg_group_get_field_def)
    moreover have "group_load (u32 (dev_read_buffer_limit dv) \<noteq> 0) key i gr = gr\<lparr>grp_batch_progress_limit := u32 i\<rparr>" by (simp add: group_load_def 5)
    ultimately show ?thesis
      using at i s32 by (simp only: accfg_group_set_batch_progress_limit_def) (rule set; simp add: group_links_def)
  qed
qed

text \<open>A value of the text that shows what was saved: a number for a number, a text for a text.\<close>

definition represents :: "'v json_ops \<Rightarrow> 'v \<Rightarrow> jnew \<Rightarrow> bool" where
  "represents js v x \<longleftrightarrow> \<not> json_null js v \<and>
     (case x of New_int i \<Rightarrow> js_int js v = (i, None)
      | New_int64 i \<Rightarrow> js_int64 js v = (i, None) \<and> (- INT_MAX \<le> i \<and> i \<le> INT_MAX \<longrightarrow> js_int js v = (i, None))
      | New_string s \<Rightarrow> js_string js v = Some s | _ \<Rightarrow> False)"

definition load_all :: "bool \<Rightarrow> (string \<times> jnew) list \<Rightarrow> accfg_group \<Rightarrow> accfg_group" where
  "load_all limited = fold (\<lambda>(key, x) g. case x of New_int i \<Rightarrow> group_load limited key i g | _ \<Rightarrow> g)"

lemma configure_group_attr:
  assumes "cf_parent c \<noteq> 0" "cf_dev c = 0" "cf_wq c = 0" "cf_group c \<noteq> 0" "ctx \<noteq> 0" "\<not> json_null js v" "key \<noteq> ''dev''"
  shows "configure_json_value os js ctx v (Some key) (m, c) =
     map_option (\<lambda>(rc, m'). (if rc < 0 then rc else 0, m', c)) (group_json_set_val os js (cf_group c) v key m)"
  using assms by (cases "group_json_set_val os js (cf_group c) v key m")
    (auto simp: configure_json_value_def configure_attr_def)

lemma group_pairs_load:
  assumes "os_ok os" "dev_type dv \<noteq> ACCFG_DEVICE_IAX" "ctx \<noteq> 0"
    and "cf_parent c \<noteq> 0" "cf_dev c = 0" "cf_wq c = 0" "cf_group c = g" "g \<noteq> 0"
    and "list_all2 (\<lambda>(k, v) (k', x). k = k' \<and> represents js v x) ps saved"
    and "\<forall>(k, x) \<in> set saved. \<exists>i. x = New_int i \<and> group_value_ok k i"
    and "group_at dv g gr m"
  shows "wp (configure_pairs os js ctx ps (m, c)) (\<lambda>(rc, m', c'). c' = c \<and> (rc = 0 \<or> rc = -1) \<and> (takes_all os \<longrightarrow> rc = 0 \<and> group_quiet os g m m') \<and>
     (rc = 0 \<longrightarrow> group_at dv g (load_all (u32 (dev_read_buffer_limit dv) \<noteq> 0) saved gr) m'))"
  using assms(9-11)
proof (induction ps saved arbitrary: m gr rule: list_all2_induct)
  case Nil
  then show ?case by (simp add: configure_pairs_def load_all_def)
next
  case (Cons p ps kx saved)
  obtain k v where p: "p = (k, v)" by (cases p)
  with Cons obtain i where kx: "kx = (k, New_int i)" "\<not> json_null js v" "js_int js v = (i, None)" "group_value_ok k i"
    by (auto simp: represents_def)
  have "k \<noteq> ''dev''" using kx(4) by (auto simp: group_value_ok_def)
  note cfg = configure_group_attr [OF assms(4,5,6) _ assms(3) kx(2) this, of os m]
  obtain rc m1 where set: "group_json_set_val os js g v k m = Some (rc, m1)" "rc \<le> 0" "takes_all os \<longrightarrow> rc = 0 \<and> group_quiet os g m m1"
    "group_at dv g (if rc = 0 then group_load (u32 (dev_read_buffer_limit dv) \<noteq> 0) k i gr else gr) m1"
    using group_json_set_number [OF assms(1) Cons.prems(2) assms(2,8) kx(2-4)] by (auto simp: wp_iff)
  show ?case
  proof (cases "rc = 0")
    case True
    with set(4) Cons.IH [of _ m1] Cons.prems(1) have
      "wp (configure_pairs os js ctx ps (m1, c)) (\<lambda>(rc, m', c'). c' = c \<and> (rc = 0 \<or> rc = -1) \<and> (takes_all os \<longrightarrow> rc = 0 \<and> group_quiet os g m1 m') \<and>
        (rc = 0 \<longrightarrow> group_at dv g (load_all (u32 (dev_read_buffer_limit dv) \<noteq> 0) (kx # saved) gr) m'))"
      by (simp add: load_all_def kx(1))
    then have "wp (configure_pairs os js ctx ps (m1, c)) (\<lambda>(rc, m', c'). c' = c \<and> (rc = 0 \<or> rc = -1) \<and> (takes_all os \<longrightarrow> rc = 0 \<and> group_quiet os g m m') \<and>
        (rc = 0 \<longrightarrow> group_at dv g (load_all (u32 (dev_read_buffer_limit dv) \<noteq> 0) (kx # saved) gr) m'))"
      by (rule wp_mono) (use set(3) group_quiet_trans in auto)
    then show ?thesis using set(1) True assms(7,8) by (simp add: configure_pairs_def p cfg)
  next
    case False
    then show ?thesis using set assms(7,8) by (simp add: configure_pairs_def p cfg)
  qed
qed

text \<open>The numbers of a group that a kernel shows, and what a group has after they were loaded into it.\<close>

definition group_numbers_ok :: "accfg_group \<Rightarrow> bool" where
  "group_numbers_ok g \<longleftrightarrow>
     (\<forall>i \<in> {grp_read_buffers_reserved g, grp_use_read_buffer_limit g, grp_read_buffers_allowed g}. 0 \<le> i \<and> i \<le> INT_MAX) \<and>
     (\<forall>i \<in> {grp_desc_progress_limit g, grp_batch_progress_limit g}. 0 \<le> i \<and> i \<le> 3 \<or> s32 i < 0)"

definition restored :: "bool \<Rightarrow> accfg_group \<Rightarrow> accfg_group \<Rightarrow> accfg_group" where
  "restored limited gs gr = gr\<lparr>
     grp_read_buffers_reserved := grp_read_buffers_reserved gs,
     grp_use_read_buffer_limit := (if limited then grp_use_read_buffer_limit gs else grp_use_read_buffer_limit gr),
     grp_read_buffers_allowed := grp_read_buffers_allowed gs,
     grp_desc_progress_limit := (if s32 (grp_desc_progress_limit gs) \<ge> 0 then grp_desc_progress_limit gs else grp_desc_progress_limit gr),
     grp_batch_progress_limit := (if s32 (grp_batch_progress_limit gs) \<ge> 0 then grp_batch_progress_limit gs else grp_batch_progress_limit gr)\<rparr>"

text \<open>What is saved of such a group behind its name.\<close>

definition saved_numbers :: "accfg_group \<Rightarrow> (string \<times> jnew) list" where
  "saved_numbers gs =
     [(''read_buffers_reserved'', New_int (grp_read_buffers_reserved gs)),
      (''use_read_buffer_limit'', New_int (grp_use_read_buffer_limit gs)),
      (''read_buffers_allowed'', New_int (grp_read_buffers_allowed gs))] @
     (if s32 (grp_desc_progress_limit gs) \<ge> 0 then [(''desc_progress_limit'', New_int (s32 (grp_desc_progress_limit gs)))] else []) @
     (if s32 (grp_batch_progress_limit gs) \<ge> 0 then [(''batch_progress_limit'', New_int (s32 (grp_batch_progress_limit gs)))] else [])"

lemma limit_id: "0 \<le> (i::int) \<and> i \<le> 3 \<or> s32 i < 0 \<Longrightarrow> 0 \<le> s32 i \<Longrightarrow> s32 i = i \<and> 0 \<le> i \<and> i \<le> 3"
  using s32_id [of i] by auto

lemma run_group_fields:
  assumes "groups m g = Some gs" "devpath_to_devname (grp_path gs) = Some name" "group_numbers_ok gs"
  shows "run_fields (name_field accfg_group_get_devname g # read_buffer_fields g @ progress_fields g) m =
     Some ((''dev'', New_string name) # saved_numbers gs, m)"
proof -
  from assms(3) have ids: "s32 (grp_read_buffers_reserved gs) = grp_read_buffers_reserved gs"
    "s32 (grp_use_read_buffer_limit gs) = grp_use_read_buffer_limit gs" "s32 (grp_read_buffers_allowed gs) = grp_read_buffers_allowed gs"
    by (auto simp: group_numbers_ok_def INT_MAX_def intro!: s32_id)
  have s32s: "s32 (s32 i) = s32 i" for i by (rule s32_id) (simp_all add: s32_bounds)
  show ?thesis
    by (cases "0 \<le> s32 (grp_desc_progress_limit gs)"; cases "0 \<le> s32 (grp_batch_progress_limit gs)")
      (simp_all add: name_field_def accfg_group_get_devname_def assms(1,2) read_buffer_fields_def progress_fields_def int_field_def
        nonneg_field_def accfg_group_get_read_buffers_reserved_def accfg_group_get_use_read_buffer_limit_def
        accfg_group_get_read_buffers_allowed_def accfg_group_get_desc_progress_limit_def accfg_group_get_batch_progress_limit_def
        accfg_group_get_field_def made_def saved_numbers_def ids s32s)
qed

lemma saved_numbers_ok:
  assumes "group_numbers_ok gs"
  shows "\<forall>(k, x) \<in> set (saved_numbers gs). \<exists>i. x = New_int i \<and> group_value_ok k i"
proof -
  have "0 \<le> s32 (grp_desc_progress_limit gs) \<Longrightarrow> s32 (grp_desc_progress_limit gs) \<le> 3"
    "0 \<le> s32 (grp_batch_progress_limit gs) \<Longrightarrow> s32 (grp_batch_progress_limit gs) \<le> 3"
    using assms limit_id [of "grp_desc_progress_limit gs"] limit_id [of "grp_batch_progress_limit gs"] by (simp_all add: group_numbers_ok_def)
  with assms show ?thesis
    by (cases "0 \<le> s32 (grp_desc_progress_limit gs)"; cases "0 \<le> s32 (grp_batch_progress_limit gs)")
      (simp_all add: saved_numbers_def group_numbers_ok_def group_value_ok_def INT_MAX_def)
qed

lemma load_saved:
  assumes "group_numbers_ok gs"
  shows "load_all limited (saved_numbers gs) gr = restored limited gs gr"
proof -
  from assms have ids: "u32 (grp_read_buffers_reserved gs) = grp_read_buffers_reserved gs"
    "u32 (grp_use_read_buffer_limit gs) = grp_use_read_buffer_limit gs" "u32 (grp_read_buffers_allowed gs) = grp_read_buffers_allowed gs"
    by (auto simp: group_numbers_ok_def INT_MAX_def intro!: u32_id)
  have "0 \<le> s32 (grp_desc_progress_limit gs) \<Longrightarrow> u32 (s32 (grp_desc_progress_limit gs)) = grp_desc_progress_limit gs"
    "0 \<le> s32 (grp_batch_progress_limit gs) \<Longrightarrow> u32 (s32 (grp_batch_progress_limit gs)) = grp_batch_progress_limit gs"
    using assms limit_id [of "grp_desc_progress_limit gs"] limit_id [of "grp_batch_progress_limit gs"]
    by (simp_all add: group_numbers_ok_def u32_id)
  with ids show ?thesis by (simp add: load_all_def saved_numbers_def group_load_def restored_def)
qed



section \<open>Examples\<close>

lemma display_size_rounds_example:
  "\<exists>a b. \<exists>(u, iec, v, jedec) \<in> {(1048576, ''MiB'', 1000000, ''MB''), (1073741824, ''GiB'', 1000000000, ''GB'')}.
     display_size 16777216 = CHR 0x22 # hundredths a iec @ '' ('' @ hundredths b jedec @ '')'' @ [CHR 0x22] \<and>
     (16777216 < (2147483648 :: int) \<longleftrightarrow> u = (1048576 :: int)) \<and> 2 * \<bar>a * u - 100 * 16777216\<bar> \<le> u \<and> 2 * \<bar>b * v - 100 * 16777216\<bar> \<le> v"
proof -
  have "5000 * 1024 \<le> (16777216 :: int)" "16777216 * 200 \<le> ULONG_MAX" by (simp, simp add: ULONG_MAX_def)
  then show ?thesis by (rule display_size_rounds)
qed

lemma ex_group_at: "group_at ex_dev 3 ex_grp (ex_mach k)"
  by (simp add: group_at_def ex_mach_wf) (simp add: ex_grp_def s32_id)

lemma ex_numbers: "group_numbers_ok ex_grp" "saved_numbers ex_grp =
  [(''read_buffers_reserved'', New_int 0), (''use_read_buffer_limit'', New_int 0), (''read_buffers_allowed'', New_int 96),
   (''desc_progress_limit'', New_int 0), (''batch_progress_limit'', New_int 0)]"
  by (simp_all add: group_numbers_ok_def saved_numbers_def ex_grp_def s32_id INT_MAX_def)


theorem saved_attributes_load_witness:
  "engine_loads fs_os ''group_id'' (New_int 0) \<and> group_loads fs_os ''read_buffers_allowed'' (New_int 96)
   \<and> device_loads fs_os ''event_log_size'' (New_int 64)"
proof -
  let ?m = "ex_mach ex_fs"
  have e: "run_fields (engine_fields 5) ?m = Some ([(''dev'', New_string ''engine0.0''), (''group_id'', New_int 0)], ?m)"
    by (simp add: engine_fields_def name_field_def nonneg_field_def accfg_engine_get_devname_def accfg_engine_get_group_id_def ex_devnames made_def)
      (simp add: ex_eng_def s32_id)
  have g: "run_fields (group_fields ACCFG_DEVICE_DSA 3) ?m = Some ((''dev'', New_string ''group0.0'') # saved_numbers ex_grp, ?m)"
    using run_group_fields [of ?m 3 ex_grp "''group0.0''"] ex_numbers(1) by (simp add: group_fields_def ex_devnames)
  have d: "run_fields (device_fields fs_os 2 UTIL_JSON_SAVE) ?m =
      Some ([(''dev'', New_string ''dsa0''), (''read_buffer_limit'', New_int 0), (''event_log_size'', New_int 64)], ?m)"
    by (simp add: device_fields_def device_save_fields_def name_field_def nonneg_field_def not_iax_field_def accfg_device_get_devname_def
        accfg_device_get_read_buffer_limit_def accfg_device_get_event_log_size_def accfg_device_get_type_def ex_devnames made_def)
      (simp add: ex_dev_def s32_id)
  from e g d saved_attributes_load [where os = fs_os and m = ?m and m' = ?m and engine = 5 and kvs = "[(''dev'', New_string ''engine0.0''), (''group_id'', New_int 0)]"]
    saved_attributes_load [where os = fs_os and m = ?m and m' = ?m and type = ACCFG_DEVICE_DSA and grp = 3 and kvs = "(''dev'', New_string ''group0.0'') # saved_numbers ex_grp"]
    saved_attributes_load [where os = fs_os and m = ?m and m' = ?m and device = 2 and kvs = "[(''dev'', New_string ''dsa0''), (''read_buffer_limit'', New_int 0), (''event_log_size'', New_int 64)]"]
  show ?thesis by (simp add: ex_numbers)
qed

end
