(* ===== verification/Saved_Wq.thy ===== *)
theory Saved_Wq
  imports Json_Props
begin

text \<open>
  A work queue that is saved by \<open>src/accfg/list.c\<close> and loaded again by \<open>src/accfg/config.c\<close>: every member of its
  object, loaded in the order in which it was saved, restores the attribute it was made from.
\<close>

section \<open>A kernel that shows the mode\<close>

text \<open>
  The attribute \<open>mode\<close> of a queue shows the mode written last, with a newline: \<open>K\<close> holds of the states in which that of the queue
  at \<open>path\<close> reads as \<open>mode\<close>.  Writing the mode establishes it where \<open>D\<close> holds, which it includes, and a write to another
  attribute of a configuration keeps it; nothing is said about other files, those that enable and disable included.
\<close>

definition mode_kept :: "'k os \<Rightarrow> ('k \<Rightarrow> bool) \<Rightarrow> string \<Rightarrow> string \<Rightarrow> ('k \<Rightarrow> bool) \<Rightarrow> bool" where
  "mode_kept os D path mode K \<longleftrightarrow>
     (\<forall>k. D k \<longrightarrow> K (snd (os_write os (path @ ''/mode'') mode k))) \<and> (\<forall>k. K k \<longrightarrow> D k) \<and>
     (\<forall>q b k. config_file q \<longrightarrow> q \<noteq> path @ ''/mode'' \<longrightarrow> K k \<longrightarrow> K (snd (os_write os q b k))) \<and>
     (\<forall>n k. K k \<longrightarrow> os_read os (path @ ''/mode'') n k = Inr (take n (mode @ [NL])))"

text \<open>The queue, on a configurable device.\<close>

definition wq_at :: "accfg_device \<Rightarrow> ptr \<Rightarrow> accfg_wq \<Rightarrow> 'k mach \<Rightarrow> bool" where
  "wq_at dv w wq m \<longleftrightarrow> wf_state m \<and> wqs m w = Some wq \<and> devices m (wq_device wq) = Some dv \<and> u32 (dev_configurable dv) \<noteq> 0"

text \<open>What a setting leaves: another state of the kernel and another record of the queue.\<close>

lemma wq_at_update:
  assumes "wq_at dv w wq m" "wq_links wq' = wq_links wq"
  shows "wq_at dv w wq' (m\<lparr>errno := e, kern := k, wqs := (wqs m)(w \<mapsto> wq')\<rparr>)"
proof -
  from assms(1) have at: "wf_state m" "wqs m w = Some wq" "devices m (wq_device wq) = Some dv" "u32 (dev_configurable dv) \<noteq> 0"
    by (auto simp: wq_at_def)
  have "shape (m\<lparr>errno := e, kern := k, wqs := (wqs m)(w \<mapsto> wq')\<rparr>) = shape m"
    using at(2) assms(2) by (auto simp: shape_def fun_eq_iff wq_links_def)
  then have "wf_state (m\<lparr>errno := e, kern := k, wqs := (wqs m)(w \<mapsto> wq')\<rparr>)" by (rule wf_shape [OF sym at(1)])
  moreover have "wq_device wq' = wq_device wq" using assms(2) by (simp add: wq_links_def)
  ultimately show ?thesis using at by (simp add: wq_at_def)
qed

text \<open>Every other object is what it was.\<close>

definition others :: "ptr \<Rightarrow> 'k mach \<Rightarrow> 'k mach \<Rightarrow> bool" where
  "others w m m' \<longleftrightarrow> ctxs m' = ctxs m \<and> devices m' = devices m \<and> groups m' = groups m \<and> engines m' = engines m \<and>
     (\<forall>v. v \<noteq> w \<longrightarrow> wqs m' v = wqs m v)"

lemma others_refl [simp]: "others w m m" and others_trans: "others w m m1 \<Longrightarrow> others w m1 m2 \<Longrightarrow> others w m m2"
  by (simp_all add: others_def)

lemma others_store [simp]: "others w m (m\<lparr>errno := e, kern := k, wqs := (wqs m)(w \<mapsto> q)\<rparr>)" "others w m (m\<lparr>kern := k, wqs := (wqs m)(w \<mapsto> q)\<rparr>)"
  "others w m (m\<lparr>kern := k\<rparr>)"
  by (simp_all add: others_def)

lemma others_errno [simp]: "others w (m\<lparr>errno := e\<rparr>) m' = others w m m'" "others w m (m'\<lparr>errno := e\<rparr>) = others w m m'"
  by (simp_all add: others_def)

text \<open>A run that ends well and leaves the queue as \<open>wq'\<close>, a kernel state with \<open>K\<close>, and everything else.\<close>

definition sets_wq :: "accfg_device \<Rightarrow> ptr \<Rightarrow> ('k \<Rightarrow> bool) \<Rightarrow> 'k mach \<Rightarrow> accfg_wq \<Rightarrow> ('k, int) run \<Rightarrow> bool" where
  "sets_wq dv w K m wq' r \<longleftrightarrow> (\<exists>m'. r = Some (0, m') \<and> wq_at dv w wq' m' \<and> K (kern m') \<and> others w m m')"

lemma sets_wq_errno [simp]: "sets_wq dv w K (m\<lparr>errno := e\<rparr>) wq' r = sets_wq dv w K m wq' r"
  by (simp add: sets_wq_def)

lemma wq_set_field_takes:
  assumes "takes_all os" "wq_at dv w wq m" "length field < 127" "\<And>v x. wq_links (store v x) = wq_links x"
    and "config_file (wq_path wq @ ''/'' @ field)" "K (snd (os_write os (wq_path wq @ ''/'' @ field) (show_int v) (kern m)))"
  shows "sets_wq dv w K m (store v wq) (accfg_wq_set_field os field store w v m)"
    and "sets_wq dv w K m (store v wq) (accfg_wq_set_long_field os field store w v m)"
proof -
  from assms(2) have at: "wf_state m" "wqs m w = Some wq" "devices m (wq_device wq) = Some dv" "u32 (dev_configurable dv) \<noteq> 0"
    by (auto simp: wq_at_def)
  let ?k = "snd (os_write os (wq_path wq @ ''/'' @ field) (show_int v) (kern m))"
  let ?m = "m\<lparr>errno := errno m, kern := ?k, wqs := (wqs m)(w \<mapsto> store v wq)\<rparr>"
  have "accfg_wq_get_ctx w m = Some (dev_ctx dv)" "accfg_device_get_configurable (wq_device wq) m = Some (u32 (dev_configurable dv))"
    using at by (simp_all add: accfg_wq_get_ctx_def accfg_device_get_configurable_def)
  then have "accfg_wq_set_field os field store w v m = Some (0, ?m)" "accfg_wq_set_long_field os field store w v m = Some (0, ?m)"
    using at sprintf_path_fits [OF wf_wq(1) [OF at(1,2)] assms(3)]
    by (simp_all add: takes_all_write [OF assms(1) assms(5) [simplified]] accfg_wq_set_field_def accfg_wq_set_long_field_def attr_commit_def upd_wq_def)
  moreover have "wq_at dv w (store v wq) ?m" by (rule wq_at_update [OF assms(2,4)])
  ultimately show "sets_wq dv w K m (store v wq) (accfg_wq_set_field os field store w v m)"
    "sets_wq dv w K m (store v wq) (accfg_wq_set_long_field os field store w v m)"
    using assms(6) by (simp_all add: sets_wq_def)
qed

lemma wq_set_str_field_takes:
  assumes "takes_all os" "alloc_ok os" "wq_at dv w wq m" "length field < 127" "\<And>v x. wq_links (store v x) = wq_links x" "length s < SYSFS_ATTR_SIZE"
    and "config_file (wq_path wq @ ''/'' @ field)" "K (snd (os_write os (wq_path wq @ ''/'' @ field) s (kern m)))"
  shows "sets_wq dv w K m (store (Some s) wq) (accfg_wq_set_str_field os field store w s m)"
proof -
  from assms(3) have at: "wf_state m" "wqs m w = Some wq" "devices m (wq_device wq) = Some dv" "u32 (dev_configurable dv) \<noteq> 0"
    by (auto simp: wq_at_def)
  let ?k = "snd (os_write os (wq_path wq @ ''/'' @ field) s (kern m))"
  let ?m = "m\<lparr>errno := errno m, kern := ?k, wqs := (wqs m)(w \<mapsto> store (Some s) wq)\<rparr>"
  have "accfg_wq_get_ctx w m = Some (dev_ctx dv)" "accfg_device_get_configurable (wq_device wq) m = Some (u32 (dev_configurable dv))"
    using at by (simp_all add: accfg_wq_get_ctx_def accfg_device_get_configurable_def)
  then have "accfg_wq_set_str_field os field store w s m = Some (0, ?m)"
    using at sprintf_path_fits [OF wf_wq(1) [OF at(1,2)] assms(4)] assms(6)
    by (simp add: takes_all_write [OF assms(1) assms(7) [simplified]] accfg_wq_set_str_field_def upd_wq_def sys_alloc_ok [OF assms(2)])
  moreover have "wq_at dv w (store (Some s) wq) ?m" by (rule wq_at_update [OF assms(3,5)])
  ultimately show ?thesis using assms(8) by (simp add: sets_wq_def)
qed

lemma wq_set_type_takes:
  assumes "takes_all os" "alloc_ok os" "wq_at dv w wq m"
    and "K (snd (os_write os (wq_path wq @ ''/type'') (wq_type_str t) (kern m)))"
  shows "sets_wq dv w K m (wq\<lparr>wq_type := t\<rparr>) (accfg_wq_set_str_type os w (wq_type_str t) m)"
proof -
  from assms(3) have at: "wf_state m" "wqs m w = Some wq" "devices m (wq_device wq) = Some dv" by (auto simp: wq_at_def)
  let ?k = "snd (os_write os (wq_path wq @ ''/type'') (wq_type_str t) (kern m))"
  let ?m = "m\<lparr>errno := errno m, kern := ?k, wqs := (wqs m)(w \<mapsto> wq\<lparr>wq_type := t\<rparr>)\<rparr>"
  have "strtok_colon ''none'' = Some ''none''" "strtok_colon ''kernel'' = Some ''kernel''" "strtok_colon ''user'' = Some ''user''" by code_simp+
  then have parse: "wq_parse_type os (Some (wq_type_str t)) n = Some ((0, Some t), n)" for n :: "'a mach"
    by (cases t) (simp_all add: wq_parse_type_def wq_type_str_def sys_alloc_ok [OF assms(2)])
  have len: "length (wq_type_str t) < SYSFS_ATTR_SIZE" by (cases t) (simp_all add: wq_type_str_def SYSFS_ATTR_SIZE_def)
  have "accfg_wq_get_ctx w m = Some (dev_ctx dv)" using at by (simp add: accfg_wq_get_ctx_def)
  then have "accfg_wq_set_str_type os w (wq_type_str t) m = Some (0, ?m)"
    using at sprintf_path_fits [OF wf_wq(1) [OF at(1,2)], of "''type''"] len
    by (simp add: takes_all_write [OF assms(1)] accfg_wq_set_str_type_def upd_wq_def sys_alloc_ok [OF assms(2)] parse)
  moreover have "wq_at dv w (wq\<lparr>wq_type := t\<rparr>) ?m" by (rule wq_at_update [OF assms(3)]) (simp add: wq_links_def)
  ultimately show ?thesis using assms(4) by (simp add: sets_wq_def)
qed

lemma wq_set_op_config_takes:
  assumes "takes_all os" "wq_at dv w wq m" "w \<noteq> 0" "K (snd (os_write os (wq_path wq @ ''/op_config'') s (kern m)))"
  shows "sets_wq dv w K m wq (accfg_wq_set_op_config_str os w (Some s) m)"
proof -
  from assms(2) have at: "wf_state m" "wqs m w = Some wq" "devices m (wq_device wq) = Some dv" by (auto simp: wq_at_def)
  let ?k = "snd (os_write os (wq_path wq @ ''/op_config'') s (kern m))"
  let ?m = "m\<lparr>errno := errno m, kern := ?k, wqs := (wqs m)(w \<mapsto> wq)\<rparr>"
  have "(wqs m)(w \<mapsto> wq) = wqs m" using at(2) by auto
  then have same: "?m = m\<lparr>kern := ?k\<rparr>" by simp
  have "accfg_wq_get_ctx w m = Some (dev_ctx dv)" using at by (simp add: accfg_wq_get_ctx_def)
  moreover obtain n k' where "os_write os (wq_path wq @ ''/op_config'') s (kern m) = (Inr n, k')" "length s \<le> n"
    by (rule takes_all_writes [OF assms(1), of "wq_path wq @ ''/op_config''"]) simp
  ultimately have "accfg_wq_set_op_config_str os w (Some s) m = Some (0, ?m)"
    using at assms(1,3) unfolding same by (auto simp: accfg_wq_set_op_config_str_def accfg_set_param_def sys_call_defs takes_all_def)
  moreover have "wq_at dv w wq ?m" by (rule wq_at_update [OF assms(2)]) simp
  ultimately show ?thesis using assms(4) by (simp add: sets_wq_def)
qed

text \<open>The mode as the library reads it.\<close>

lemma wq_mode_reads:
  assumes "takes_all os" "alloc_ok os" "wq_at dv w wq m" "mode_kept os D (wq_path wq) mode K" "K (kern m)" "mode = ''shared'' \<or> mode = ''dedicated''"
  shows "accfg_wq_get_mode os w m = Some (if mode = ''shared'' then ACCFG_WQ_SHARED else ACCFG_WQ_DEDICATED, m)"
proof -
  from assms(3) have at: "wqs m w = Some wq" "devices m (wq_device wq) = Some dv" by (auto simp: wq_at_def)
  have "accfg_wq_get_ctx w m = Some (dev_ctx dv)" using at by (simp add: accfg_wq_get_ctx_def)
  moreover have "os_read os (wq_path wq @ ''/mode'') (MAX_PARAM_LEN - 1) (kern m) = Inr (mode @ [NL])"
    using assms(4-6) by (auto simp: mode_kept_def MAX_PARAM_LEN_def)
  then have "read_dir_str os (wq_path wq) ''mode'' m = (Inr (Some mode), m)"
    using assms(1,6) by (auto simp: read_dir_str_def accfg_get_param_str_def sys_call_defs takes_all_def MAX_PARAM_LEN_def
        sys_alloc_ok [OF assms(2), unfolded sys_call_defs] cstring_def NL_def NUL_def)
  ultimately show ?thesis using at assms(6) by (auto simp: accfg_wq_get_mode_def)
qed


section \<open>One member\<close>

text \<open>Loading the value \<open>x\<close> of the member \<open>key\<close> does \<open>f\<close> to the queue at \<open>path\<close>.\<close>

definition member_loads ::
  "'k os \<Rightarrow> 'v json_ops \<Rightarrow> accfg_device \<Rightarrow> ptr \<Rightarrow> string \<Rightarrow> ('k \<Rightarrow> bool) \<Rightarrow> string \<Rightarrow> jnew \<Rightarrow> (accfg_wq \<Rightarrow> accfg_wq) \<Rightarrow> bool" where
  "member_loads os js dv w path K key x f \<longleftrightarrow> key \<noteq> ''dev'' \<and> (\<forall>wq. wq_links (f wq) = wq_links wq) \<and>
     (\<forall>m wq v. wq_at dv w wq m \<longrightarrow> wq_path wq = path \<longrightarrow> K (kern m) \<longrightarrow> represents js v x \<longrightarrow>
        sets_wq dv w K m (f wq) (wq_json_set_val os js w v key m))"

lemmas wq_json_defs = wq_json_set_val_def wq_attribute_filter_def wq_table_def wq_int_def wq_str_def get_number_errno_def
  if_writable_def set_str_val_def EINVAL_def

lemma wq_at_errno: "wq_at dv w wq (m\<lparr>errno := e\<rparr>) = wq_at dv w wq m"
  using wf_shape [of m "m\<lparr>errno := e\<rparr>"] wf_shape [of "m\<lparr>errno := e\<rparr>" m] by (auto simp: wq_at_def)

definition kernel_ok :: "'k os \<Rightarrow> ('k \<Rightarrow> bool) \<Rightarrow> string \<Rightarrow> string \<Rightarrow> ('k \<Rightarrow> bool) \<Rightarrow> bool" where
  "kernel_ok os D path mode K \<longleftrightarrow> takes_all os \<and> alloc_ok os \<and> mode_kept os D path mode K \<and> (mode = ''shared'' \<or> mode = ''dedicated'')"

lemma kernel_okD:
  assumes "kernel_ok os D path mode K"
  shows "takes_all os" "alloc_ok os" "mode_kept os D path mode K" "mode = ''shared'' \<or> mode = ''dedicated''"
  using assms by (simp_all add: kernel_ok_def)

text \<open>A member whose setter is that of a number or of a text.\<close>

lemma member_loads_number:
  assumes "kernel_ok os D path mode K" "key \<noteq> ''dev''" "key \<noteq> ''mode'' \<and> config_file (path @ ''/'' @ key)" "length key < 127"
    and "\<And>v x. wq_links (store v x) = wq_links x"
    and "\<And>m v. \<not> json_null js v \<Longrightarrow> represents js v x \<Longrightarrow>
      wq_json_set_val os js w v key m = accfg_wq_set_field os key store w i (m\<lparr>errno := 0\<rparr>)"
  shows "member_loads os js dv w path K key x (store i)"
  unfolding member_loads_def
proof (intro conjI allI impI)
  fix m wq v
  assume a: "wq_at dv w wq m" "wq_path wq = path" "K (kern m)" "represents js v x"
  have cf: "config_file (wq_path wq @ ''/'' @ key)" using assms(3) a(2) by simp
  from a have "K (snd (os_write os (wq_path wq @ ''/'' @ key) (show_int i) (kern (m\<lparr>errno := 0\<rparr>))))"
    using kernel_okD(3) [OF assms(1)] assms(3) by (simp add: mode_kept_def)
  moreover have "wq_json_set_val os js w v key m = accfg_wq_set_field os key store w i (m\<lparr>errno := 0\<rparr>)"
    using assms(6) a(4) by (simp add: represents_def)
  ultimately show "sets_wq dv w K m (store i wq) (wq_json_set_val os js w v key m)"
    using a(1) wq_set_field_takes(1) [where m = "m\<lparr>errno := 0\<rparr>" and wq = wq and dv = dv and K = K, OF kernel_okD(1) [OF assms(1)] _ assms(4,5) cf]
    by (simp add: wq_at_errno)
qed (use assms(2,5) in auto)

lemma member_loads_text:
  assumes "kernel_ok os D path mode K" "key \<noteq> ''dev''" "key \<noteq> ''mode'' \<and> config_file (path @ ''/'' @ key)" "length key < 127" "length s < SYSFS_ATTR_SIZE"
    and "\<And>v x. wq_links (store v x) = wq_links x"
    and "\<And>m v. \<not> json_null js v \<Longrightarrow> js_string js v = Some s \<Longrightarrow>
      wq_json_set_val os js w v key m = accfg_wq_set_str_field os key store w s m"
  shows "member_loads os js dv w path K key (New_string s) (store (Some s))"
  unfolding member_loads_def
proof (intro conjI allI impI)
  fix m wq v
  assume a: "wq_at dv w wq m" "wq_path wq = path" "K (kern m)" "represents js v (New_string s)"
  have cf: "config_file (wq_path wq @ ''/'' @ key)" using assms(3) a(2) by simp
  from a have "K (snd (os_write os (wq_path wq @ ''/'' @ key) s (kern m)))" using kernel_okD(3) [OF assms(1)] assms(3) by (simp add: mode_kept_def)
  moreover have "wq_json_set_val os js w v key m = accfg_wq_set_str_field os key store w s m"
    using assms(7) a(4) by (simp add: represents_def)
  ultimately show "sets_wq dv w K m (store (Some s) wq) (wq_json_set_val os js w v key m)"
    by (simp only:) (rule wq_set_str_field_takes [OF kernel_okD(1,2) [OF assms(1)] a(1) assms(4,6,5) cf])
qed (use assms(2,6) in auto)

text \<open>The members of a queue, one after the other.\<close>

lemma size_loads:
  assumes "kernel_ok os D path mode K" "w \<noteq> 0" "0 \<le> i" "i \<le> INT_MAX"
  shows "member_loads os js dv w path K ''size'' (New_int64 i) (\<lambda>q. q\<lparr>wq_size := i\<rparr>)"
  using assms by (intro member_loads_number [OF assms(1)])
    (simp_all add: wq_links_def wq_json_defs represents_def json_null_def accfg_wq_set_size_def INT_MAX_def)

lemma plain_number_loads:
  assumes "kernel_ok os D path mode K" "w \<noteq> 0"
  shows "member_loads os js dv w path K ''group_id'' (New_int i) (\<lambda>q. q\<lparr>wq_group_id := i\<rparr>)"
    and "member_loads os js dv w path K ''priority'' (New_int i) (\<lambda>q. q\<lparr>wq_priority := i\<rparr>)"
    and "member_loads os js dv w path K ''block_on_fault'' (New_int i) (\<lambda>q. q\<lparr>wq_block_on_fault := i\<rparr>)"
    and "member_loads os js dv w path K ''max_batch_size'' (New_int i) (\<lambda>q. q\<lparr>wq_max_batch_size := u32 i\<rparr>)"
  using assms by (intro member_loads_number [OF assms(1)];
    simp add: wq_links_def wq_json_defs represents_def json_null_def
      accfg_wq_set_group_id_def accfg_wq_set_priority_def accfg_wq_set_block_on_fault_def accfg_wq_set_max_batch_size_def)+

lemma name_loads:
  assumes "kernel_ok os D path mode K" "w \<noteq> 0" "length s < SYSFS_ATTR_SIZE"
  shows "member_loads os js dv w path K ''name'' (New_string s) (\<lambda>q. q\<lparr>wq_name := Some s\<rparr>)"
    and "member_loads os js dv w path K ''driver_name'' (New_string s) (\<lambda>q. q\<lparr>wq_driver_name := Some s\<rparr>)"
  using assms by (intro member_loads_text [OF assms(1)];
    simp add: wq_links_def wq_json_defs json_null_def accfg_wq_set_str_name_def accfg_wq_set_str_driver_name_def)+

lemma max_transfer_size_loads:
  assumes "kernel_ok os D path mode K" "w \<noteq> 0" "0 \<le> i" "i \<le> LONG_MAX"
  shows "member_loads os js dv w path K ''max_transfer_size'' (New_int64 i) (\<lambda>q. q\<lparr>wq_max_transfer_size := i\<rparr>)"
  unfolding member_loads_def
proof (intro conjI allI impI)
  fix m wq v
  assume a: "wq_at dv w wq m" "wq_path wq = path" "K (kern m)" "represents js v (New_int64 i)"
  have "u64 i = i" using assms(3,4) by (simp add: u64_id LONG_MAX_def ULONG_MAX_def)
  then have "wq_json_set_val os js w v ''max_transfer_size'' m =
      accfg_wq_set_long_field os ''max_transfer_size'' (\<lambda>v q. q\<lparr>wq_max_transfer_size := v\<rparr>) w i (m\<lparr>errno := 0\<rparr>)"
    using a(4) assms(2) by (simp add: wq_json_defs represents_def json_null_def accfg_wq_set_max_transfer_size_def)
  moreover have "K (snd (os_write os (wq_path wq @ ''/'' @ ''max_transfer_size'') (show_int i) (kern (m\<lparr>errno := 0\<rparr>))))"
    using kernel_okD(3) [OF assms(1)] a(2,3) by (simp add: mode_kept_def)
  ultimately show "sets_wq dv w K m (wq\<lparr>wq_max_transfer_size := i\<rparr>) (wq_json_set_val os js w v ''max_transfer_size'' m)"
    using a(1) wq_set_field_takes(2) [OF kernel_okD(1) [OF assms(1)], of dv w wq "m\<lparr>errno := 0\<rparr>" "''max_transfer_size''"
      "\<lambda>v q. q\<lparr>wq_max_transfer_size := v\<rparr>" K i] by (simp add: wq_at_errno wq_links_def)
qed (simp_all add: wq_links_def)

lemma type_loads:
  assumes "kernel_ok os D path mode K" "w \<noteq> 0"
  shows "member_loads os js dv w path K ''type'' (New_string (wq_type_str t)) (\<lambda>q. q\<lparr>wq_type := t\<rparr>)"
  unfolding member_loads_def
proof (intro conjI allI impI)
  fix m wq v
  assume a: "wq_at dv w wq m" "wq_path wq = path" "K (kern m)" "represents js v (New_string (wq_type_str t))"
  then have "K (snd (os_write os (wq_path wq @ ''/type'') (wq_type_str t) (kern m)))"
    using kernel_okD(3) [OF assms(1)] by (simp add: mode_kept_def)
  moreover have "wq_json_set_val os js w v ''type'' m = accfg_wq_set_str_type os w (wq_type_str t) m"
    using a(4) assms(2) by (simp add: wq_json_defs represents_def json_null_def)
  ultimately show "sets_wq dv w K m (wq\<lparr>wq_type := t\<rparr>) (wq_json_set_val os js w v ''type'' m)"
    by (simp only:) (rule wq_set_type_takes [OF kernel_okD(1,2) [OF assms(1)] a(1)])
qed (simp_all add: wq_links_def)

lemma op_config_loads:
  assumes "kernel_ok os D path mode K" "w \<noteq> 0"
  shows "member_loads os js dv w path K ''op_config'' (New_string s) (\<lambda>q. q)"
  unfolding member_loads_def
proof (intro conjI allI impI)
  fix m wq v
  assume a: "wq_at dv w wq m" "wq_path wq = path" "K (kern m)" "represents js v (New_string s)"
  then have "K (snd (os_write os (wq_path wq @ ''/op_config'') s (kern m)))"
    using kernel_okD(3) [OF assms(1)] by (simp add: mode_kept_def)
  moreover have "wq_json_set_val os js w v ''op_config'' m = accfg_wq_set_op_config_str os w (Some s) m"
    using a(4) assms(2) by (simp add: wq_json_defs represents_def json_null_def)
  ultimately show "sets_wq dv w K m wq (wq_json_set_val os js w v ''op_config'' m)"
    by (simp only:) (rule wq_set_op_config_takes [OF kernel_okD(1) [OF assms(1)] a(1) assms(2)])
qed simp_all

text \<open>Attributes that are set only when they can be written.\<close>

lemma sets_wq_same: "wq_at dv w wq m \<Longrightarrow> K (kern m) \<Longrightarrow> sets_wq dv w K m wq (Some (0, m))"
  by (simp add: sets_wq_def)

lemma threshold_loads:
  assumes "kernel_ok os D path mode K" "w \<noteq> 0"
  shows "member_loads os js dv w path K ''threshold'' (New_int i) (\<lambda>q. if mode = ''dedicated'' then q else q\<lparr>wq_threshold := u32 i\<rparr>)"
  unfolding member_loads_def
proof (intro conjI allI impI)
  fix m wq v
  assume a: "wq_at dv w wq m" "wq_path wq = path" "K (kern m)" "represents js v (New_int i)"
  let ?m = "m\<lparr>errno := 0\<rparr>"
  have at: "wq_at dv w wq ?m" "K (kern ?m)" using a(1,3) by (simp_all add: wq_at_errno)
  have kept: "mode_kept os D (wq_path wq) mode K" using kernel_okD(3) [OF assms(1)] a(2) by simp
  note mode = kernel_okD(4) [OF assms(1)]
  have "accfg_wq_get_mode os w ?m = Some (if mode = ''shared'' then ACCFG_WQ_SHARED else ACCFG_WQ_DEDICATED, ?m)"
    by (rule wq_mode_reads [OF kernel_okD(1,2) [OF assms(1)] at(1) kept at(2) mode])
  then have set: "wq_json_set_val os js w v ''threshold'' m = (if mode = ''dedicated'' then Some (0, ?m)
      else accfg_wq_set_field os ''threshold'' (\<lambda>v q. q\<lparr>wq_threshold := u32 v\<rparr>) w i ?m)"
    using a(4) assms(2) mode
    by (auto simp: wq_json_defs represents_def json_null_def is_wq_threshold_writable_def ACCFG_WQ_SHARED_def ACCFG_WQ_DEDICATED_def
        accfg_wq_set_threshold_def)
  have "K (snd (os_write os (wq_path wq @ ''/'' @ ''threshold'') (show_int i) (kern ?m)))"
    using kernel_okD(3) [OF assms(1)] a(2,3) by (simp add: mode_kept_def)
  then have "sets_wq dv w K m (wq\<lparr>wq_threshold := u32 i\<rparr>) (accfg_wq_set_field os ''threshold'' (\<lambda>v q. q\<lparr>wq_threshold := u32 v\<rparr>) w i ?m)"
    using wq_set_field_takes(1) [OF kernel_okD(1) [OF assms(1)] at(1), of "''threshold''" "\<lambda>v q. q\<lparr>wq_threshold := u32 v\<rparr>" K i]
    by (simp add: wq_links_def)
  then show "sets_wq dv w K m (if mode = ''dedicated'' then wq else wq\<lparr>wq_threshold := u32 i\<rparr>) (wq_json_set_val os js w v ''threshold'' m)"
    using sets_wq_same [where K = K, OF at] by (simp add: set)
qed (simp_all add: wq_links_def)

lemma flag_loads:
  assumes "kernel_ok os D path mode K" "w \<noteq> 0"
  shows "member_loads os js dv w path K ''prs_disable'' (New_int i)
      (\<lambda>q. if (i = 0 \<or> i = 1) \<and> 0 \<le> s32 (wq_prs_disable q) then q\<lparr>wq_prs_disable := i\<rparr> else q)"
    and "member_loads os js dv w path K ''ats_disable'' (New_int i)
      (\<lambda>q. if (i = 0 \<or> i = 1) \<and> 0 \<le> s32 (wq_ats_disable q) then q\<lparr>wq_ats_disable := i\<rparr> else q)"
proof -
  have "sets_wq dv w K m (if (i = 0 \<or> i = 1) \<and> 0 \<le> s32 (wq_prs_disable wq) then wq\<lparr>wq_prs_disable := i\<rparr> else wq) (wq_json_set_val os js w v ''prs_disable'' m)
      \<and> sets_wq dv w K m (if (i = 0 \<or> i = 1) \<and> 0 \<le> s32 (wq_ats_disable wq) then wq\<lparr>wq_ats_disable := i\<rparr> else wq) (wq_json_set_val os js w v ''ats_disable'' m)"
    if a: "wq_at dv w wq m" "wq_path wq = path" "K (kern m)" "represents js v (New_int i)" for m wq v
  proof -
    let ?m = "m\<lparr>errno := 0\<rparr>"
    have at: "wq_at dv w wq ?m" "K (kern ?m)" and wq: "wqs m w = Some wq" using a(1,3) by (simp_all add: wq_at_errno) (simp add: wq_at_def)
    have "K (snd (os_write os (wq_path wq @ ''/'' @ ''prs_disable'') (show_int i) (kern ?m)))"
      "K (snd (os_write os (wq_path wq @ ''/'' @ ''ats_disable'') (show_int i) (kern ?m)))"
      using kernel_okD(3) [OF assms(1)] a(2,3) by (simp_all add: mode_kept_def)
    then have "sets_wq dv w K m (wq\<lparr>wq_prs_disable := i\<rparr>) (accfg_wq_set_field os ''prs_disable'' (\<lambda>v q. q\<lparr>wq_prs_disable := v\<rparr>) w i ?m)"
      "sets_wq dv w K m (wq\<lparr>wq_ats_disable := i\<rparr>) (accfg_wq_set_field os ''ats_disable'' (\<lambda>v q. q\<lparr>wq_ats_disable := v\<rparr>) w i ?m)"
      using wq_set_field_takes(1) [OF kernel_okD(1) [OF assms(1)] at(1), of "''prs_disable''" "\<lambda>v q. q\<lparr>wq_prs_disable := v\<rparr>" K i]
        wq_set_field_takes(1) [OF kernel_okD(1) [OF assms(1)] at(1), of "''ats_disable''" "\<lambda>v q. q\<lparr>wq_ats_disable := v\<rparr>" K i]
      by (simp_all add: wq_links_def)
    moreover have "wq_json_set_val os js w v ''prs_disable'' m = (if (i = 0 \<or> i = 1) \<and> 0 \<le> s32 (wq_prs_disable wq)
        then accfg_wq_set_field os ''prs_disable'' (\<lambda>v q. q\<lparr>wq_prs_disable := v\<rparr>) w i ?m else Some (0, ?m))"
      "wq_json_set_val os js w v ''ats_disable'' m = (if (i = 0 \<or> i = 1) \<and> 0 \<le> s32 (wq_ats_disable wq)
        then accfg_wq_set_field os ''ats_disable'' (\<lambda>v q. q\<lparr>wq_ats_disable := v\<rparr>) w i ?m else Some (0, ?m))"
      using a(4) assms(2) wq
      by (auto simp: wq_json_defs represents_def json_null_def is_wq_prs_disable_writable_def is_wq_ats_disable_writable_def
          accfg_wq_get_prs_disable_def accfg_wq_get_ats_disable_def accfg_wq_get_field_def accfg_wq_set_prs_disable_def accfg_wq_set_ats_disable_def)
    ultimately show ?thesis using sets_wq_same [where K = K, OF at] by simp
  qed
  then show "member_loads os js dv w path K ''prs_disable'' (New_int i)
      (\<lambda>q. if (i = 0 \<or> i = 1) \<and> 0 \<le> s32 (wq_prs_disable q) then q\<lparr>wq_prs_disable := i\<rparr> else q)"
    "member_loads os js dv w path K ''ats_disable'' (New_int i)
      (\<lambda>q. if (i = 0 \<or> i = 1) \<and> 0 \<le> s32 (wq_ats_disable q) then q\<lparr>wq_ats_disable := i\<rparr> else q)"
    by (simp_all add: member_loads_def wq_links_def)
qed

text \<open>The mode comes first, in a kernel state that need not keep it.\<close>

lemma mode_loads:
  assumes "kernel_ok os D path mode K" "w \<noteq> 0" "wq_at dv w wq m" "wq_path wq = path" "represents js v (New_string mode)" "D (kern m)"
  shows "sets_wq dv w K m (wq\<lparr>wq_mode := Some mode\<rparr>) (wq_json_set_val os js w v ''mode'' m)"
proof -
  have "wq_json_set_val os js w v ''mode'' m = accfg_wq_set_str_field os ''mode'' (\<lambda>v q. q\<lparr>wq_mode := v\<rparr>) w mode m"
    using assms(2,5) by (simp add: wq_json_defs represents_def json_null_def accfg_wq_set_str_mode_def)
  moreover have "K (snd (os_write os (wq_path wq @ ''/'' @ ''mode'') mode (kern m)))"
    using kernel_okD(3) [OF assms(1)] assms(4,6) by (simp add: mode_kept_def)
  moreover have "length mode < SYSFS_ATTR_SIZE" using kernel_okD(4) [OF assms(1)] by (auto simp: SYSFS_ATTR_SIZE_def)
  ultimately show ?thesis
    using wq_set_str_field_takes [OF kernel_okD(1,2) [OF assms(1)] assms(3), of "''mode''" "\<lambda>v q. q\<lparr>wq_mode := v\<rparr>" mode K]
    by (simp add: wq_links_def)
qed


section \<open>All members\<close>

definition wq_pairs_load ::
  "'k os \<Rightarrow> 'v json_ops \<Rightarrow> accfg_device \<Rightarrow> ptr \<Rightarrow> string \<Rightarrow> ('k \<Rightarrow> bool) \<Rightarrow> (string \<times> jnew) list \<Rightarrow> (accfg_wq \<Rightarrow> accfg_wq) list \<Rightarrow> bool" where
  "wq_pairs_load os js dv w path K saved fs \<longleftrightarrow> list_all2 (\<lambda>(k, x) f. member_loads os js dv w path K k x f) saved fs"

text \<open>The variables of the loader while it is at a queue.\<close>

definition at_queue :: "ptr \<Rightarrow> ptr \<Rightarrow> conf_state \<Rightarrow> bool" where
  "at_queue ctx w c \<longleftrightarrow> ctx \<noteq> 0 \<and> w \<noteq> 0 \<and> cf_parent c \<noteq> 0 \<and> cf_dev c = 0 \<and> cf_group c = 0 \<and> cf_wq c = w \<and> \<not> cf_default_file c"

lemma configure_wq_attr:
  assumes "at_queue ctx w c" "\<not> json_null js v" "key \<noteq> ''dev''" "wq_json_set_val os js w v key m = Some (0, m')"
  shows "configure_json_value os js ctx v (Some key) (m, c) = Some (0, m', c)"
  using assms by (simp add: at_queue_def configure_json_value_def configure_attr_def)

lemma wq_pairs:
  assumes "at_queue ctx w c" "list_all2 (\<lambda>(k, v) (k', x). k = k' \<and> represents js v x) ps saved"
    and "wq_pairs_load os js dv w path K saved fs" "wq_at dv w wq m" "wq_path wq = path" "K (kern m)"
  shows "\<exists>m'. configure_pairs os js ctx ps (m, c) = Some (0, m', c) \<and> wq_at dv w (fold (\<lambda>f. f) fs wq) m' \<and> K (kern m') \<and> others w m m'"
  using assms(2-6)
proof (induction ps saved arbitrary: fs wq m rule: list_all2_induct)
  case Nil
  then show ?case by (simp add: configure_pairs_def wq_pairs_load_def)
next
  case (Cons p ps kx saved)
  obtain k v where p: "p = (k, v)" by (cases p)
  obtain x where kx: "kx = (k, x)" "represents js v x" using Cons.hyps(1) p by (cases kx) auto
  obtain f gs where fs: "fs = f # gs" "member_loads os js dv w path K k x f" "wq_pairs_load os js dv w path K saved gs"
    using Cons.prems(1) kx(1) by (cases fs) (auto simp: wq_pairs_load_def)
  then obtain m1 where m1: "wq_json_set_val os js w v k m = Some (0, m1)" "wq_at dv w (f wq) m1" "K (kern m1)" "others w m m1"
    using Cons.prems(2-4) kx(2) unfolding member_loads_def sets_wq_def by blast
  have path: "wq_path (f wq) = path" using fs(2) Cons.prems(3) by (simp add: member_loads_def wq_links_def)
  from Cons.IH [OF fs(3) m1(2) path m1(3)] obtain m' where
    "configure_pairs os js ctx ps (m1, c) = Some (0, m', c)" "wq_at dv w (fold (\<lambda>f. f) gs (f wq)) m'" "K (kern m')" "others w m1 m'" by blast
  moreover have "configure_json_value os js ctx v (Some k) (m, c) = Some (0, m1, c)"
    using configure_wq_attr [OF assms(1) _ _ m1(1)] kx(2) fs(2) by (simp add: represents_def member_loads_def)
  ultimately show ?case using others_trans [OF m1(4)] by (simp add: configure_pairs_def p fs(1))
qed

text \<open>What is saved of a queue behind its name and mode, when its attributes are in the ranges that the kernel shows.\<close>

definition wq_numbers_ok :: "accfg_wq \<Rightarrow> bool" where
  "wq_numbers_ok q \<longleftrightarrow> 0 \<le> wq_size q \<and> wq_size q \<le> INT_MAX \<and> 0 \<le> wq_max_transfer_size q \<and> wq_max_transfer_size q \<le> LONG_MAX \<and>
     (\<forall>i \<in> {wq_group_id q, wq_priority q, wq_block_on_fault q, wq_prs_disable q, wq_ats_disable q}. s32 i = i) \<and>
     (\<forall>i \<in> {wq_max_batch_size q, wq_threshold q}. u32 i = i) \<and>
     (\<forall>s \<in> set_option (wq_name q) \<union> set_option (wq_driver_name q). length s < SYSFS_ATTR_SIZE)"

definition saved_wq :: "accfg_wq \<Rightarrow> string \<Rightarrow> (int \<times> int list) \<Rightarrow> (string \<times> jnew) list" where
  "saved_wq q name op_config =
     [(''size'', New_int64 (wq_size q))] @
     (if 0 \<le> wq_group_id q then [(''group_id'', New_int (wq_group_id q))] else []) @
     (if 0 \<le> wq_priority q then [(''priority'', New_int (wq_priority q))] else []) @
     [(''block_on_fault'', New_int (wq_block_on_fault q)), (''max_batch_size'', New_int (s32 (wq_max_batch_size q))),
      (''max_transfer_size'', New_int64 (wq_max_transfer_size q)), (''type'', New_string (wq_type_str (wq_type q))), (''name'', New_string name)] @
     (case wq_driver_name q of None \<Rightarrow> [] | Some s \<Rightarrow> [(''driver_name'', New_string s)]) @
     [(''threshold'', New_int (s32 (wq_threshold q)))] @
     (if 0 \<le> wq_prs_disable q then [(''prs_disable'', New_int (wq_prs_disable q))] else []) @
     [(''ats_disable'', New_int (wq_ats_disable q))] @
     (if fst op_config = 0 then [(''op_config'', New_string (util_bitmask_to_string (snd op_config)))] else [])"

definition wq_loads_as :: "string \<Rightarrow> accfg_wq \<Rightarrow> string \<Rightarrow> int \<times> int list \<Rightarrow> (accfg_wq \<Rightarrow> accfg_wq) list" where
  "wq_loads_as mode q name op_config =
     [\<lambda>p. p\<lparr>wq_size := wq_size q\<rparr>] @
     (if 0 \<le> wq_group_id q then [\<lambda>p. p\<lparr>wq_group_id := wq_group_id q\<rparr>] else []) @
     (if 0 \<le> wq_priority q then [\<lambda>p. p\<lparr>wq_priority := wq_priority q\<rparr>] else []) @
     [\<lambda>p. p\<lparr>wq_block_on_fault := wq_block_on_fault q\<rparr>, \<lambda>p. p\<lparr>wq_max_batch_size := wq_max_batch_size q\<rparr>,
      \<lambda>p. p\<lparr>wq_max_transfer_size := wq_max_transfer_size q\<rparr>, \<lambda>p. p\<lparr>wq_type := wq_type q\<rparr>, \<lambda>p. p\<lparr>wq_name := Some name\<rparr>] @
     (case wq_driver_name q of None \<Rightarrow> [] | Some s \<Rightarrow> [\<lambda>p. p\<lparr>wq_driver_name := Some s\<rparr>]) @
     [\<lambda>p. p\<lparr>wq_threshold := if mode = ''dedicated'' then wq_threshold p else wq_threshold q\<rparr>] @
     (if 0 \<le> wq_prs_disable q then [\<lambda>p. p\<lparr>wq_prs_disable := if (wq_prs_disable q = 0 \<or> wq_prs_disable q = 1) \<and> 0 \<le> s32 (wq_prs_disable p) then wq_prs_disable q else wq_prs_disable p\<rparr>] else []) @
     [\<lambda>p. p\<lparr>wq_ats_disable := if (wq_ats_disable q = 0 \<or> wq_ats_disable q = 1) \<and> 0 \<le> s32 (wq_ats_disable p) then wq_ats_disable q else wq_ats_disable p\<rparr>] @
     (if fst op_config = 0 then [\<lambda>p. p] else [])"

lemma update_if:
  "(\<lambda>p :: accfg_wq. p\<lparr>wq_threshold := if b p then x else wq_threshold p\<rparr>) = (\<lambda>p. if b p then p\<lparr>wq_threshold := x\<rparr> else p)"
  "(\<lambda>p :: accfg_wq. p\<lparr>wq_threshold := if b p then wq_threshold p else x\<rparr>) = (\<lambda>p. if b p then p else p\<lparr>wq_threshold := x\<rparr>)"
  "(\<lambda>p :: accfg_wq. p\<lparr>wq_prs_disable := if b p then x else wq_prs_disable p\<rparr>) = (\<lambda>p. if b p then p\<lparr>wq_prs_disable := x\<rparr> else p)"
  "(\<lambda>p :: accfg_wq. p\<lparr>wq_ats_disable := if b p then x else wq_ats_disable p\<rparr>) = (\<lambda>p. if b p then p\<lparr>wq_ats_disable := x\<rparr> else p)"
  by (simp_all add: fun_eq_iff)

lemma saved_wq_loads:
  assumes "kernel_ok os D path mode K" "w \<noteq> 0" "wq_numbers_ok q" "length name < SYSFS_ATTR_SIZE"
  shows "wq_pairs_load os js dv w path K (saved_wq q name oc) (wq_loads_as mode q name oc)"
proof -
  note loads = size_loads [OF assms(1,2)] plain_number_loads [OF assms(1,2)] name_loads [OF assms(1,2)] max_transfer_size_loads [OF assms(1,2)]
    type_loads [OF assms(1,2)] op_config_loads [OF assms(1,2)] threshold_loads [OF assms(1,2)] flag_loads [OF assms(1,2)]
  have "u32 (s32 (wq_max_batch_size q)) = wq_max_batch_size q" "u32 (s32 (wq_threshold q)) = wq_threshold q"
    using assms(3) by (simp_all add: wq_numbers_ok_def)
  with plain_number_loads(4) [OF assms(1,2), of js dv "s32 (wq_max_batch_size q)"] threshold_loads [OF assms(1,2), of js dv "s32 (wq_threshold q)"]
  have unsigned: "member_loads os js dv w path K ''max_batch_size'' (New_int (s32 (wq_max_batch_size q))) (\<lambda>p. p\<lparr>wq_max_batch_size := wq_max_batch_size q\<rparr>)"
    "member_loads os js dv w path K ''threshold'' (New_int (s32 (wq_threshold q))) (\<lambda>p. if mode = ''dedicated'' then p else p\<lparr>wq_threshold := wq_threshold q\<rparr>)"
    by (simp_all only:)
  have app: "list_all2 P (xs @ xs') (ys @ ys')" if "list_all2 P xs ys" "list_all2 P xs' ys'" for P :: "string \<times> jnew \<Rightarrow> (accfg_wq \<Rightarrow> accfg_wq) \<Rightarrow> bool" and xs xs' ys ys'
    using that by (rule list_all2_appendI)
  show ?thesis
    unfolding wq_pairs_load_def saved_wq_def wq_loads_as_def update_if
    using assms(3,4) by (intro app; simp add: loads unsigned wq_numbers_ok_def split: option.split)
qed

lemma run_wq_fields:
  assumes "wqs m w = Some q" "wq_numbers_ok q" "wq_name q = Some name" "accfg_wq_get_op_config os w m = Some (oc, m1)"
  shows "run_fields (map snd (wq_fields os w st UTIL_JSON_SAVE)) m = Some (saved_wq q name oc, m1)"
proof -
  have ids: "s32 (wq_group_id q) = wq_group_id q" "s32 (wq_priority q) = wq_priority q" "s32 (wq_block_on_fault q) = wq_block_on_fault q"
    "s32 (wq_prs_disable q) = wq_prs_disable q" "s32 (wq_ats_disable q) = wq_ats_disable q"
    using assms(2) by (simp_all add: wq_numbers_ok_def)
  have range: "0 \<le> wq_size q" "wq_size q \<le> 2147483647" "0 \<le> wq_max_transfer_size q" "wq_max_transfer_size q \<le> 9223372036854775807"
    using assms(2) by (simp_all add: wq_numbers_ok_def INT_MAX_def LONG_MAX_def)
  have s64: "s64 i = i" if "0 \<le> i" "i \<le> 9223372036854775807" for i
    using that by (simp add: s64_def signed_take_bit_int_eq_self)
  have size: "u64 (wq_size q) = wq_size q" "wq_size q < ULONG_MAX" "s64 (wq_size q) = wq_size q" "s64 (wq_max_transfer_size q) = wq_max_transfer_size q"
    using range s64 by (simp_all add: u64_id ULONG_MAX_def)
  obtain rc bits where oc: "oc = (rc, bits)" by (cases oc)
  show ?thesis
    using assms(1,3,4)
    by (cases "wq_driver_name q"; simp add: wq_fields_def has_flag_def UTIL_JSON_SAVE_def op_config_field_def Let_def size_field_def nonneg_field_def
        int_field_def int64_field_def wq_type_field_def wq_name_field_def driver_name_field_def accfg_wq_get_size_def accfg_wq_get_group_id_def
        accfg_wq_get_priority_def accfg_wq_get_block_on_fault_def accfg_wq_get_max_batch_size_def accfg_wq_get_max_transfer_size_def
        accfg_wq_get_type_def accfg_wq_get_type_name_def accfg_wq_get_driver_name_def accfg_wq_get_threshold_def
        accfg_wq_get_prs_disable_def accfg_wq_get_ats_disable_def accfg_wq_get_field_def made_def ids size saved_wq_def oc)
qed

text \<open>A queue after another one was loaded into it.\<close>

definition restored_wq :: "string \<Rightarrow> accfg_wq \<Rightarrow> string \<Rightarrow> accfg_wq \<Rightarrow> accfg_wq" where
  "restored_wq mode q name p = p\<lparr>
     wq_group_id := (if 0 \<le> wq_group_id q then wq_group_id q else wq_group_id p),
     wq_size := wq_size q,
     wq_priority := (if 0 \<le> wq_priority q then wq_priority q else wq_priority p),
     wq_block_on_fault := wq_block_on_fault q,
     wq_threshold := (if mode = ''dedicated'' then wq_threshold p else wq_threshold q),
     wq_mode := Some mode,
     wq_name := Some name,
     wq_driver_name := (case wq_driver_name q of None \<Rightarrow> wq_driver_name p | Some s \<Rightarrow> Some s),
     wq_type := wq_type q,
     wq_max_batch_size := wq_max_batch_size q,
     wq_max_transfer_size := wq_max_transfer_size q,
     wq_ats_disable := (if (wq_ats_disable q = 0 \<or> wq_ats_disable q = 1) \<and> 0 \<le> s32 (wq_ats_disable p) then wq_ats_disable q else wq_ats_disable p),
     wq_prs_disable := (if (wq_prs_disable q = 0 \<or> wq_prs_disable q = 1) \<and> 0 \<le> s32 (wq_prs_disable p) then wq_prs_disable q else wq_prs_disable p)\<rparr>"

lemma fold_wq_loads:
  "fold (\<lambda>f. f) (wq_loads_as mode q name oc) (p\<lparr>wq_mode := Some mode\<rparr>) = restored_wq mode q name p"
  by (cases "wq_driver_name q"; cases "0 \<le> wq_group_id q"; cases "0 \<le> wq_priority q"; cases "0 \<le> wq_prs_disable q")
    (simp_all add: wq_loads_as_def restored_wq_def)

text \<open>The mode and the saved members, loaded into a queue on a kernel state with \<open>D\<close>: the queue is restored and nothing else changes.\<close>

lemma wq_pairs_restore:
  assumes "wq_numbers_ok q" "wq_name q = Some name" "kernel_ok os D (wq_path p) mode K" "wq_at dv w p m" "at_queue ctx w c" "D (kern m)"
    and "list_all2 (\<lambda>(k, v) (k', x). k = k' \<and> represents js v x) ps ((''mode'', New_string mode) # saved_wq q name oc)"
  shows "\<exists>m'. configure_pairs os js ctx ps (m, c) = Some (0, m', c) \<and> wq_at dv w (restored_wq mode q name p) m' \<and> D (kern m') \<and> others w m m'"
proof -
  from assms(7) obtain v qs where ps: "ps = (''mode'', v) # qs" "represents js v (New_string mode)"
    "list_all2 (\<lambda>(k, v) (k', x). k = k' \<and> represents js v x) qs (saved_wq q name oc)"
    by (auto simp: list_all2_Cons2)
  have w: "w \<noteq> 0" using assms(5) by (simp add: at_queue_def)
  from mode_loads [where wq = p and m = m, OF assms(3) w assms(4) refl ps(2) assms(6)] obtain m2 where
    m2: "wq_json_set_val os js w v ''mode'' m = Some (0, m2)" "wq_at dv w (p\<lparr>wq_mode := Some mode\<rparr>) m2" "K (kern m2)" "others w m m2"
    by (auto simp: sets_wq_def)
  have name: "length name < SYSFS_ATTR_SIZE" using assms(1,2) by (simp add: wq_numbers_ok_def)
  have path: "wq_path (p\<lparr>wq_mode := Some mode\<rparr>) = wq_path p" by simp
  from wq_pairs [OF assms(5) ps(3) saved_wq_loads [OF assms(3) w assms(1) name] m2(2) path m2(3)] obtain m' where
    "configure_pairs os js ctx qs (m2, c) = Some (0, m', c)" "wq_at dv w (restored_wq mode q name p) m'" "K (kern m')" "others w m2 m'"
    unfolding fold_wq_loads by blast
  moreover have "configure_json_value os js ctx v (Some ''mode'') (m, c) = Some (0, m2, c)"
    using configure_wq_attr [OF assms(5) _ _ m2(1)] ps(2) by (simp add: represents_def)
  moreover have "D k" if "K k" for k using kernel_okD(3) [OF assms(3)] that by (simp add: mode_kept_def)
  ultimately show ?thesis using others_trans [OF m2(4)] by (simp add: ps(1) configure_pairs_def)
qed

text \<open>
  C13: what \<open>save-config\<close> writes of a work queue, \<open>load-config\<close> restores: loading the text of its object, the mode first, into a queue on any
  configurable device ends well and restores the size, the mode, the type, the names, the group, the priority, the
  limits and the flags, on a kernel that takes what is written to the attributes of a configuration and shows the mode written last.
  Not restored are the threshold of a dedicated queue, which is saved but never set, a group or priority that is negative, and a
  flag that is not 0 or 1 or that the queue loaded into does not have.
\<close>

theorem wq_saved_loads:
  assumes "wqs m0 w0 = Some q" "wq_numbers_ok q" "wq_name q = Some name" "accfg_wq_get_op_config os0 w0 m0 = Some (oc, m1)"
    and "kernel_ok os D (wq_path p) mode K" "wq_at dv w p m" "at_queue ctx w c" "D (kern m)"
  shows "run_fields (map snd (wq_fields os0 w0 st UTIL_JSON_SAVE)) m0 = Some (saved_wq q name oc, m1) \<and>
     (\<forall>ps. list_all2 (\<lambda>(k, v) (k', x). k = k' \<and> represents js v x) ps ((''mode'', New_string mode) # saved_wq q name oc) \<longrightarrow>
        wp (configure_pairs os js ctx ps (m, c)) (\<lambda>(rc, m', c'). rc = 0 \<and> c' = c \<and> wqs m' w = Some (restored_wq mode q name p)))"
proof (intro conjI allI impI)
  show "run_fields (map snd (wq_fields os0 w0 st UTIL_JSON_SAVE)) m0 = Some (saved_wq q name oc, m1)"
    by (rule run_wq_fields [OF assms(1-4)])
  fix ps
  assume "list_all2 (\<lambda>(k, v) (k', x). k = k' \<and> represents js v x) ps ((''mode'', New_string mode) # saved_wq q name oc)"
  from wq_pairs_restore [OF assms(2,3,5-8) this]
  show "wp (configure_pairs os js ctx ps (m, c)) (\<lambda>(rc, m', c'). rc = 0 \<and> c' = c \<and> wqs m' w = Some (restored_wq mode q name p))"
    by (auto simp: wq_at_def)
qed


section \<open>An example\<close>

definition ex_path :: string where "ex_path = ''/d/dsa0/wq0.0''"

lemma idxd_kept_text:
  assumes "config_file q" "q \<noteq> p" "map_of (fs_files k) p = Some t"
  shows "map_of (fs_files (snd (idxd_write q b k))) p = Some t"
  using assms by (simp add: idxd_config_write put_file_def)

lemma idxd_mode:
  assumes "\<And>b k. D k \<Longrightarrow> D (snd (idxd_write (path @ ''/mode'') b k))" "\<And>q b k. config_file q \<Longrightarrow> D k \<Longrightarrow> D (snd (idxd_write q b k))"
    and "mode = ''shared'' \<or> mode = ''dedicated''"
  shows "kernel_ok idxd_os D path mode (\<lambda>k. D k \<and> map_of (fs_files k) (path @ ''/mode'') = Some (mode @ [NL]))"
proof -
  have "after_last_slash (path @ ''/mode'') = Some ''mode''" using after_last_slash_append [of "''mode''" path] by simp
  then have w: "idxd_write (path @ ''/mode'') mode k = (Inr (length mode), put_file (path @ ''/mode'') (mode @ [NL]) k)" for k
    by (simp add: idxd_config_write)
  have "D (put_file (path @ ''/mode'') (mode @ [NL]) k)" if "D k" for k using assms(1) [OF that, of mode] by (simp add: w)
  then have "mode_kept idxd_os D path mode (\<lambda>k. D k \<and> map_of (fs_files k) (path @ ''/mode'') = Some (mode @ [NL]))"
    using assms(2,3) idxd_kept_text unfolding mode_kept_def by (auto simp: w) (simp_all add: put_file_def)
  then show ?thesis using idxd_os_ok(2) idxd_takes_all assms(3) by (simp add: kernel_ok_def)
qed

lemma ex_kernel_ok: "kernel_ok idxd_os (\<lambda>_. True) ex_path ''shared'' (\<lambda>k. True \<and> map_of (fs_files k) (ex_path @ ''/mode'') = Some (''shared'' @ [NL]))"
  by (rule idxd_mode) simp_all

text \<open>The saved queue, and an empty one on the same device that it is loaded into.\<close>

definition ex_empty_wq :: accfg_wq where
  "ex_empty_wq = ex_wq\<lparr>wq_group_id := -1, wq_size := 0, wq_priority := 0, wq_threshold := 0, wq_mode := None, wq_name := None,
     wq_driver_name := None, wq_type := ACCFG_WQT_NONE, wq_max_batch_size := 1024, wq_max_transfer_size := 4096\<rparr>"

definition ex_target :: "fs mach" where
  "ex_target = (ex_mach ex_fs)\<lparr>errno := 0, kern := ex_fs, wqs := (wqs (ex_mach ex_fs))(4 \<mapsto> ex_empty_wq)\<rparr>"

lemma ex_target_at: "wq_at ex_dev 4 ex_empty_wq ex_target"
  unfolding ex_target_def
proof (rule wq_at_update)
  show "wq_at ex_dev 4 ex_wq (ex_mach ex_fs)" by (simp add: wq_at_def ex_mach_wf) (simp add: ex_wq_def ex_dev_def u32_id)
  show "wq_links ex_empty_wq = wq_links ex_wq" by (simp add: wq_links_def ex_empty_wq_def)
qed

theorem wq_saved_loads_witness:
  "wp (configure_pairs idxd_os (ex_js JNull) 1
      [(''mode'', JStr ''shared''), (''size'', JInt 16), (''group_id'', JInt 0), (''priority'', JInt 10), (''block_on_fault'', JInt 0),
       (''max_batch_size'', JInt 32), (''max_transfer_size'', JInt 16384), (''type'', JStr ''user''), (''name'', JStr ''app''),
       (''driver_name'', JStr ''user''), (''threshold'', JInt 15), (''prs_disable'', JInt 0), (''ats_disable'', JInt 0)]
      (ex_target, (ex_conf 2)\<lparr>cf_wq := 4\<rparr>))
    (\<lambda>(rc, m', c'). rc = 0 \<and> wqs m' 4 = Some ex_wq)"
proof -
  let ?c = "(ex_conf 2)\<lparr>cf_wq := 4\<rparr>"
  let ?m0 = "ex_mach (ex_fs\<lparr>fs_files := [(''/d/dsa0/wq0.0/op_config'', ''-'')]\<rparr>)"
  have q: "wqs ?m0 4 = Some ex_wq" "wq_name ex_wq = Some ''app''" by simp (simp add: ex_wq_def)
  have nums: "wq_numbers_ok ex_wq"
    by (simp add: wq_numbers_ok_def ex_wq_def s32_id u32_id INT_MAX_def LONG_MAX_def SYSFS_ATTR_SIZE_def)
  have read: "read_dir_str fs_os (wq_path ex_wq) ''op_config'' ?m0 = (Inr (Some ''-''), ?m0)"
    by (simp add: read_dir_str_def accfg_get_param_str_def ex_wq_def ex_fs_def sys_call_defs MAX_PARAM_LEN_def cstring_def NL_def NUL_def)
  have "accfg_wq_get_ctx 4 ?m0 = Some 1" by (simp add: accfg_wq_get_ctx_def ex_mach_def ex_wq_def ex_dev_def)
  moreover have "scan_x32s 8 ''-'' = []" by code_simp
  ultimately have oc: "accfg_wq_get_op_config fs_os 4 ?m0 = Some ((- EIO, []), ?m0)"
    using q(1) by (simp add: accfg_wq_get_op_config_def read)
  have path: "kernel_ok idxd_os (\<lambda>_. True) (wq_path ex_empty_wq) ''shared'' (\<lambda>k. True \<and> map_of (fs_files k) (ex_path @ ''/mode'') = Some (''shared'' @ [NL]))"
    using ex_kernel_ok by (simp add: ex_empty_wq_def ex_wq_def ex_path_def)
  have at: "at_queue 1 4 ?c" by (simp add: at_queue_def ex_conf_def)
  let ?ps = "[(''mode'', JStr ''shared''), (''size'', JInt 16), (''group_id'', JInt 0), (''priority'', JInt 10), (''block_on_fault'', JInt 0),
       (''max_batch_size'', JInt 32), (''max_transfer_size'', JInt 16384), (''type'', JStr ''user''), (''name'', JStr ''app''),
       (''driver_name'', JStr ''user''), (''threshold'', JInt 15), (''prs_disable'', JInt 0), (''ats_disable'', JInt 0)]"
  have ps: "list_all2 (\<lambda>(k, v) (k', x). k = k' \<and> represents (ex_js JNull) v x) ?ps ((''mode'', New_string ''shared'') # saved_wq ex_wq ''app'' (- EIO, []))"
    by (simp add: saved_wq_def EIO_def represents_def ex_js_def json_null_def) (simp add: ex_wq_def s32_id s64_def wq_type_str_def)
  have "wp (configure_pairs idxd_os (ex_js JNull) 1 ?ps (ex_target, ?c)) (\<lambda>(rc, m', c'). rc = 0 \<and> c' = ?c \<and>
      wqs m' 4 = Some (restored_wq ''shared'' ex_wq ''app'' ex_empty_wq))"
    by (rule wq_saved_loads [OF q(1) nums q(2) oc path ex_target_at at TrueI, THEN conjunct2, THEN spec, THEN mp, OF ps])
  moreover have "restored_wq ''shared'' ex_wq ''app'' ex_empty_wq = ex_wq"
    by (simp add: restored_wq_def ex_empty_wq_def ex_wq_def s32_id)
  ultimately show ?thesis by (elim wp_mono) (simp only: case_prod_beta simp_thms)
qed

end
