(* ===== verification/Load_Safe.thy ===== *)
theory Load_Safe
  imports Config_Cmd
begin

text \<open>
  Loading any configuration whose texts are short is defined, ends, and keeps the object graph of libaccfg, for the
  loader of \<open>src/accfg/config.c\<close>: no null or freed pointer is read, no buffer overrun, whatever devices, queues and attributes
  the configuration names and whatever the kernel answers to the writes.
\<close>

section \<open>States the loader works on\<close>

text \<open>A queue's directory that can be opened has an attribute \<open>mode\<close> with a text.\<close>

definition mode_reads :: "'k os \<Rightarrow> string \<Rightarrow> bool" where
  "mode_reads os path \<longleftrightarrow> (\<forall>k. os_open os path O_PATH k = None \<longrightarrow> os_open os (path @ ''/mode'') O_RDONLY k = None \<and>
     (\<exists>s. s \<noteq> [] \<and> os_read os (path @ ''/mode'') (MAX_PARAM_LEN - 1) k = Inr s))"

text \<open>A context whose scans have been done, with paths and names of the length that sysfs has them.\<close>

definition ready :: "'k os \<Rightarrow> ptr \<Rightarrow> 'k mach \<Rightarrow> bool" where
  "ready os ctx m \<longleftrightarrow> wf_state m \<and> (\<exists>cx. discovered m ctx cx) \<and>
     (\<forall>d dv. devices m d = Some dv \<longrightarrow> length (dev_path dv) < 1000 \<and> length (dev_bus_type_str dv) < 1000) \<and>
     (\<forall>w q. wqs m w = Some q \<longrightarrow> length (wq_path q) < 1000 \<and> short_driver q \<and> mode_reads os (wq_path q))"

lemma readyD:
  assumes "ready os ctx m"
  shows "wf_state m" "\<exists>cx. discovered m ctx cx"
    "devices m d = Some dv \<Longrightarrow> length (dev_path dv) < 1000 \<and> length (dev_bus_type_str dv) < 1000"
    "wqs m w = Some q \<Longrightarrow> length (wq_path q) < 1000 \<and> short_driver q \<and> mode_reads os (wq_path q)"
  using assms unfolding ready_def by blast+

lemma steadyD:
  assumes "steady m m'"
  shows "shape m' = shape m"
    "map_option c_devices_init (ctxs m' c) = map_option c_devices_init (ctxs m c)"
    "map_option (\<lambda>d. (dev_group_init d, dev_bus_type_str d)) (devices m' d) = map_option (\<lambda>d. (dev_group_init d, dev_bus_type_str d)) (devices m d)"
    "map_option (\<lambda>g. (grp_wqs_init g, grp_engines_init g)) (groups m' g) = map_option (\<lambda>g. (grp_wqs_init g, grp_engines_init g)) (groups m g)"
  using assms unfolding steady_def by blast+

lemma steady_live:
  assumes "steady m m'"
  shows "devices m' p = None \<longleftrightarrow> devices m p = None" "groups m' p = None \<longleftrightarrow> groups m p = None"
    "wqs m' p = None \<longleftrightarrow> wqs m p = None" "engines m' p = None \<longleftrightarrow> engines m p = None"
  by (rule map_option_None_part [OF shapeD(3) [OF steadyD(1) [OF assms]]] map_option_None_part [OF shapeD(4) [OF steadyD(1) [OF assms]]]
      map_option_None_part [OF shapeD(5) [OF steadyD(1) [OF assms]]] map_option_None_part [OF shapeD(6) [OF steadyD(1) [OF assms]]])+

lemma steady_device:
  assumes "steady m m'" "devices m' d = Some dv'"
  shows "\<exists>dv. devices m d = Some dv \<and> dev_path dv' = dev_path dv \<and> dev_bus_type_str dv' = dev_bus_type_str dv \<and>
    dev_group dv' = dev_group dv \<and> dev_group_init dv' = dev_group_init dv"
proof -
  obtain dv where dv: "devices m d = Some dv" using steady_live(1) [OF assms(1), of d] assms(2) by (cases "devices m d") auto
  show ?thesis
    using shapeD(3) [OF steadyD(1) [OF assms(1)], of d] steadyD(3) [OF assms(1), of d] assms(2) dv by simp
qed

lemma device_done_steady:
  assumes "steady m m'" "devices m d = Some dv" "device_done m dv"
  shows "\<exists>dv'. devices m' d = Some dv' \<and> device_done m' dv'"
proof -
  obtain dv' where dv': "devices m' d = Some dv'" using steady_live(1) [OF assms(1), of d] assms(2) by (cases "devices m' d") auto
  obtain gr where gr: "groups m (dev_group dv) = Some gr" "grp_wqs_init gr \<noteq> 0" "grp_engines_init gr \<noteq> 0"
    using assms(3) by (auto simp: device_done_def)
  then obtain gr' where gr': "groups m' (dev_group dv) = Some gr'" using steady_live(2) [OF assms(1), of "dev_group dv"] by (cases "groups m' (dev_group dv)") auto
  have "grp_wqs_init gr' \<noteq> 0" "grp_engines_init gr' \<noteq> 0"
    using steadyD(4) [OF assms(1), of "dev_group dv"] gr gr' by simp_all
  then show ?thesis
    using steady_device [OF assms(1) dv'] dv' gr' assms(2,3) by (auto simp: device_done_def)
qed

lemma ready_steady:
  assumes "ready os ctx m" "steady m m'"
  shows "ready os ctx m'"
proof -
  obtain cx where cx: "ctxs m ctx = Some cx" "c_devices_init cx \<noteq> 0"
    "\<forall>d \<in> set (c_devices cx). \<exists>dv. devices m d = Some dv \<and> device_done m dv"
    using readyD(2) [OF assms(1)] by (auto simp: discovered_def)
  obtain cx' where cx': "ctxs m' ctx = Some cx'" "c_devices_init cx' = c_devices_init cx"
    using steadyD(2) [OF assms(2), of ctx] cx(1) by auto
  have "c_devices cx' = c_devices cx" using shapeD(2) [OF steadyD(1) [OF assms(2)], of ctx] cx(1) cx'(1) by simp
  then have "discovered m' ctx cx'"
    using cx cx' device_done_steady [OF assms(2)] by (auto simp: discovered_def)
  moreover have "length (dev_path dv) < 1000 \<and> length (dev_bus_type_str dv) < 1000" if "devices m' d = Some dv" for d dv
    using steady_device [OF assms(2) that] readyD(3) [OF assms(1)] by fastforce
  moreover have "length (wq_path q) < 1000 \<and> short_driver q \<and> mode_reads os (wq_path q)" if q: "wqs m' w = Some q" for w q
  proof -
    obtain p where p: "wqs m w = Some p" "wq_driver_name q = wq_driver_name p \<or> short_driver q"
      using steady_driver [OF assms(2) q] by blast
    moreover have "wq_path q = wq_path p"
      using shapeD(5) [OF steadyD(1) [OF assms(2)], of w] p(1) q by simp
    ultimately show ?thesis using readyD(4) [OF assms(1) p(1)] by (auto simp: short_driver_def)
  qed
  ultimately show ?thesis using wf_steady [OF assms(2) readyD(1) [OF assms(1)]] unfolding ready_def by blast
qed

lemma steady_sys [simp]: "sys_only m m' \<Longrightarrow> steady m m'"
  by (simp add: steady_error_frame error_frame_sys)

lemma steady_sys_calls [simp]:
  "steady m (m\<lparr>errno := e\<rparr>)" "steady m (m\<lparr>kern := k\<rparr>)"
  "steady m (snd (sys_open os p f m))" "steady m (snd (sys_alloc os m))" "steady m (snd (sys_access os p m))"
  by (simp_all add: sys_only_def)

text \<open>Assignments to the members that are not part of the graph.\<close>

lemma steady_store:
  assumes "sys_only m m1"
  shows "wqs m w = Some q \<Longrightarrow> wq_links q' = wq_links q \<Longrightarrow> wq_driver_name q' = wq_driver_name q \<or> short_driver q' \<Longrightarrow>
      steady m (m1\<lparr>wqs := (wqs m)(w \<mapsto> q')\<rparr>)"
    and "groups m g = Some gr \<Longrightarrow> group_links gr' = group_links gr \<Longrightarrow>
      grp_wqs_init gr' = grp_wqs_init gr \<Longrightarrow> grp_engines_init gr' = grp_engines_init gr \<Longrightarrow> steady m (m1\<lparr>groups := (groups m)(g \<mapsto> gr')\<rparr>)"
    and "engines m e = Some en \<Longrightarrow> engine_links en' = engine_links en \<Longrightarrow> steady m (m1\<lparr>engines := (engines m)(e \<mapsto> en')\<rparr>)"
  using sys_onlyD [OF assms]
  by (auto simp: steady_def shape_def fun_eq_iff wq_links_def group_links_def engine_links_def)


section \<open>Setters\<close>

text \<open>A run that is defined on every state the loader works on where the object lives, and keeps the state.\<close>

definition calm :: "'k os \<Rightarrow> ptr \<Rightarrow> ('k mach \<Rightarrow> ptr \<rightharpoonup> 'o) \<Rightarrow> ptr \<Rightarrow> ('k mach \<Rightarrow> ('k, 'a) run) \<Rightarrow> bool" where
  "calm os ctx obj p f \<longleftrightarrow> (\<forall>m. ready os ctx m \<longrightarrow> obj m p \<noteq> None \<longrightarrow> wp (f m) (\<lambda>(_, m'). steady m m'))"

lemma calmD: "calm os ctx obj p f \<Longrightarrow> ready os ctx m \<Longrightarrow> obj m p = Some x \<Longrightarrow> wp (f m) (\<lambda>(_, m'). steady m m')"
  by (simp add: calm_def)

lemma calmI: "(\<And>m x. ready os ctx m \<Longrightarrow> obj m p = Some x \<Longrightarrow> wp (f m) (\<lambda>(_, m'). steady m m')) \<Longrightarrow> calm os ctx obj p f"
  by (auto simp: calm_def)

lemma attr_commit_steady:
  fixes m :: "'k mach"
  assumes "os_ok os" "wf_state m" "devices m d = Some dv"
    and "assign (snd (sysfs_write_attr os path buf m)) = Some m1" "steady m m1"
  shows "wp (attr_commit os path buf d w g e assign m) (\<lambda>(_, m'). steady m m')"
  by (rule wp_mono [OF attr_commit_wp [where assign = assign, OF assms(1-4)]]) (auto simp: assms(5) steady_error_frame split: if_splits)

lemma sys_only_write [simp]: "sys_only m (snd (sysfs_write_attr os path buf m))"
  by (simp add: sys_only_def)

definition wq_store_ok :: "(accfg_wq \<Rightarrow> accfg_wq) \<Rightarrow> bool" where
  "wq_store_ok f \<longleftrightarrow> (\<forall>q. wq_links (f q) = wq_links q \<and> (wq_driver_name (f q) = wq_driver_name q \<or> short_driver (f q)))"

lemma upd_wq_steady:
  assumes "wqs m w = Some q" "wq_store_ok f" "sys_only m m1"
  shows "\<exists>m2. upd_wq w f m1 = Some m2 \<and> steady m m2"
  using steady_store(1) [OF assms(3,1), of "f q"] assms sys_onlyD [OF assms(3)] by (auto simp: upd_wq_def wq_store_ok_def)

lemma wq_set_field_calm:
  assumes "os_ok os" "length field < 127" "\<And>v. wq_store_ok (store v)"
  shows "calm os ctx wqs w (accfg_wq_set_field os field store w v)"
    and "calm os ctx wqs w (accfg_wq_set_long_field os field store w v)"
proof -
  have "wp (accfg_wq_set_field os field store w v m) (\<lambda>(_, m'). steady m m') \<and>
     wp (accfg_wq_set_long_field os field store w v m) (\<lambda>(_, m'). steady m m')" if m: "ready os ctx m" "wqs m w = Some q" for m q
  proof -
    have wf: "wf_state m" by (rule readyD(1) [OF m(1)])
    obtain dv where d: "devices m (wq_device q) = Some dv" "accfg_wq_get_ctx w m = Some (dev_ctx dv)"
      "accfg_device_get_configurable (wq_device q) m = Some (u32 (dev_configurable dv))" using wq_ctx_Some [OF wf m(2)] .
    obtain m1 where m1: "upd_wq w (store v) (snd (sysfs_write_attr os (wq_path q @ ''/'' @ field) (show_int v) m)) = Some m1" "steady m m1"
      using upd_wq_steady [OF m(2) assms(3) sys_only_write] by blast
    have "wp (attr_commit os (wq_path q @ ''/'' @ field) (show_int v) (wq_device q) w 0 0 (upd_wq w (store v)) m) (\<lambda>(_, m'). steady m m')"
      by (rule attr_commit_steady [where assign = "upd_wq w (store v)", OF assms(1) wf d(1) m1])
    then show ?thesis
      using sprintf_path_fits [OF wf_wq(1) [OF wf m(2)] assms(2)] m(2) d
      by (simp add: accfg_wq_set_field_def accfg_wq_set_long_field_def)
  qed
  then show "calm os ctx wqs w (accfg_wq_set_field os field store w v)" "calm os ctx wqs w (accfg_wq_set_long_field os field store w v)"
    by (auto intro: calmI)
qed

lemma save_last_error_steady:
  assumes "os_ok os" "wf_state m" "devices m d = Some dv" "sys_only m m1"
  shows "wp (save_last_error os d w g e m1) (\<lambda>m'. steady m m')"
proof -
  have "error_frame m m1" by (rule error_frame_sys [OF assms(4)])
  moreover from this assms(2) have "wf_state m1" by (rule wf_error_frame)
  moreover have "devices m1 d = Some dv" using assms(3) sys_onlyD [OF assms(4)] by simp
  ultimately show ?thesis
    by (intro wp_mono [OF save_last_error_wp [OF assms(1)]]) (auto intro: steady_error_frame error_frame_trans)
qed

lemma sys_only_alloc_write: "sys_only m (snd (sys_alloc os (snd (sysfs_write_attr os path buf m))))"
  by (simp add: sys_only_def)

lemma wq_set_str_field_calm:
  assumes "os_ok os" "length field < 127" "length s < 1000" "wq_store_ok (store (Some s))" "wq_store_ok (store None)"
  shows "calm os ctx wqs w (accfg_wq_set_str_field os field store w s)"
proof (rule calmI)
  fix m q
  assume m: "ready os ctx m" "wqs m w = Some q"
  have wf: "wf_state m" by (rule readyD(1) [OF m(1)])
  obtain dv where d: "devices m (wq_device q) = Some dv" "accfg_wq_get_ctx w m = Some (dev_ctx dv)"
    "accfg_device_get_configurable (wq_device q) m = Some (u32 (dev_configurable dv))" using wq_ctx_Some [OF wf m(2)] .
  let ?p = "wq_path q @ ''/'' @ field"
  have fail: "wp (save_last_error os (wq_device q) w 0 0 (snd (sysfs_write_attr os ?p s m))) (\<lambda>m'. steady m m')"
    by (rule save_last_error_steady [OF assms(1) wf d(1) sys_only_write])
  obtain m1 where m1: "upd_wq w (store (Some s)) (snd (sys_alloc os (snd (sysfs_write_attr os ?p s m)))) = Some m1" "steady m m1"
    using upd_wq_steady [OF m(2) assms(4) sys_only_alloc_write] by blast
  obtain m2 where m2: "upd_wq w (store None) (snd (sys_alloc os (snd (sysfs_write_attr os ?p s m)))) = Some m2" "steady m m2"
    using upd_wq_steady [OF m(2) assms(5) sys_only_alloc_write] by blast
  show "wp (accfg_wq_set_str_field os field store w s m) (\<lambda>(_, m'). steady m m')"
    using sprintf_path_fits [OF wf_wq(1) [OF wf m(2)] assms(2)] m(2) d fail m1 m2 assms(3)
    by (cases "fst (sysfs_write_attr os ?p s m) < 0") (simp_all add: accfg_wq_set_str_field_def case_prod_beta SYSFS_ATTR_SIZE_def)
qed

lemma wq_set_str_type_calm:
  assumes "os_ok os" "length s < 1000"
  shows "calm os ctx wqs w (accfg_wq_set_str_type os w s)"
proof (rule calmI)
  fix m q
  assume m: "ready os ctx m" "wqs m w = Some q"
  have wf: "wf_state m" by (rule readyD(1) [OF m(1)])
  obtain dv where d: "devices m (wq_device q) = Some dv" "accfg_wq_get_ctx w m = Some (dev_ctx dv)" using wq_ctx_Some [OF wf m(2)] .
  let ?m = "snd (sys_alloc os (snd (sysfs_write_attr os (wq_path q @ ''/type'') s m)))"
  have fail: "wp (save_last_error os (wq_device q) w 0 0 (snd (sysfs_write_attr os (wq_path q @ ''/type'') s m))) (\<lambda>m'. steady m m')"
    by (rule save_last_error_steady [OF assms(1) wf d(1) sys_only_write])
  have "sys_only m (snd (sys_alloc os ?m))" by (simp add: sys_only_def)
  from upd_wq_steady [OF m(2) _ this]
  have up: "wp (upd_wq w (\<lambda>w. w\<lparr>wq_type := t\<rparr>) (snd (sys_alloc os ?m))) (steady m)" for t
    by (simp add: wq_store_ok_def wq_links_def wp_iff)
  have "sys_only m (snd (sys_alloc os ?m))" by (simp add: sys_only_def)
  with up have "wp (do { ((rc, t), m) \<leftarrow> wq_parse_type os (Some s) ?m;
      m \<leftarrow> (case t of None \<Rightarrow> Some m | Some t \<Rightarrow> upd_wq w (\<lambda>w. w\<lparr>wq_type := t\<rparr>) m);
      Some (if rc < 0 then rc else 0, m) }) (\<lambda>(_, m'). steady m m')"
    by (auto simp: wq_parse_type_def case_prod_beta split: option.split)
  then show "wp (accfg_wq_set_str_type os w s m) (\<lambda>(_, m'). steady m m')"
    using sprintf_path_fits [OF wf_wq(1) [OF wf m(2)], of "''type''"] m(2) d fail assms(2)
    by (simp add: accfg_wq_set_str_type_def case_prod_beta SYSFS_ATTR_SIZE_def sys_only_alloc_write)
qed

lemma wq_set_op_config_calm: "calm os ctx wqs w (accfg_wq_set_op_config_str os w s)"
proof (rule calmI)
  fix m q
  assume m: "ready os ctx m" "wqs m w = Some q"
  obtain dv where d: "devices m (wq_device q) = Some dv" "accfg_wq_get_ctx w m = Some (dev_ctx dv)"
    using wq_ctx_Some [OF readyD(1) [OF m(1)] m(2)] .
  show "wp (accfg_wq_set_op_config_str os w s m) (\<lambda>(_, m'). steady m m')"
    using m(2) d by (cases s) (simp_all add: accfg_wq_set_op_config_str_def case_prod_beta sys_only_def)
qed

lemma group_set_field_calm:
  assumes "os_ok os" "length field < 127"
    and "\<And>v x. group_links (store v x) = group_links x \<and> grp_wqs_init (store v x) = grp_wqs_init x \<and> grp_engines_init (store v x) = grp_engines_init x"
  shows "calm os ctx groups g (accfg_group_set_field os field store g v)"
proof (rule calmI)
  fix m gr
  assume m: "ready os ctx m" "groups m g = Some gr"
  have links: "\<And>v x. group_links (store v x) = group_links x" using assms(3) by blast
  let ?r = "sysfs_write_attr os (group_attr_file os field m gr) (show_int v) (snd (sys_access os (grp_path gr @ ''/'' @ field) m))"
  have "sys_only m (snd ?r)" by (simp add: sys_only_def)
  from steady_store(2) [OF this m(2), of "store v gr"] assms(3) have "steady m ((snd ?r)\<lparr>groups := (groups m)(g \<mapsto> store v gr)\<rparr>)" by simp
  then show "wp (accfg_group_set_field os field store g v m) (\<lambda>(_, m'). steady m m')"
    by (intro wp_mono [OF accfg_group_set_field_wp [OF assms(1) readyD(1) [OF m(1)] m(2) assms(2) links]])
      (auto intro: steady_error_frame split: if_splits)
qed

lemma engine_set_field_calm:
  assumes "os_ok os" "length field < 127" "\<And>v x. engine_links (store v x) = engine_links x"
  shows "calm os ctx engines e (accfg_engine_set_field os field store e v)"
proof (rule calmI)
  fix m en
  assume m: "ready os ctx m" "engines m e = Some en"
  let ?r = "sysfs_write_attr os (eng_path en @ ''/'' @ field) (show_int v) m"
  from steady_store(3) [OF sys_only_write m(2) assms(3)] have "steady m ((snd ?r)\<lparr>engines := (engines m)(e \<mapsto> store v en)\<rparr>)" .
  then show "wp (accfg_engine_set_field os field store e v m) (\<lambda>(_, m'). steady m m')"
    by (intro wp_mono [OF accfg_engine_set_field_wp [OF assms(1) readyD(1) [OF m(1)] m(2) assms(2,3)]])
      (auto intro: steady_error_frame split: if_splits)
qed

text \<open>The two setters of a device, which look for the attribute first.\<close>

lemma upd_device_steady:
  assumes "devices m d = Some dv" "sys_only m m1"
    and "\<And>x. (dev_ctx (f x), dev_group (f x), dev_groups (f x), dev_wqs (f x), dev_engines (f x), dev_path (f x), dev_buf_len (f x))
        = (dev_ctx x, dev_group x, dev_groups x, dev_wqs x, dev_engines x, dev_path x, dev_buf_len x)"
    and "\<And>x. dev_group_init (f x) = dev_group_init x" "\<And>x. dev_bus_type_str (f x) = dev_bus_type_str x"
  shows "\<exists>m2. upd_device d f m1 = Some m2 \<and> steady m m2"
  using assms(1,3-5) sys_onlyD [OF assms(2)]
  by (auto simp: upd_device_def steady_def shape_def fun_eq_iff)

lemma device_set_calm:
  assumes "os_ok os"
  shows "calm os ctx devices d (accfg_device_set_read_buffer_limit os d v)"
    and "calm os ctx devices d (accfg_device_set_event_log_size os d v)"
proof -
  have "wp (accfg_device_set_read_buffer_limit os d v m) (\<lambda>(_, m'). steady m m') \<and>
      wp (accfg_device_set_event_log_size os d v m) (\<lambda>(_, m'). steady m m')" if m: "ready os ctx m" "devices m d = Some dv" for m dv
  proof -
    have wf: "wf_state m" by (rule readyD(1) [OF m(1)])
    note path = wf_device(1) [OF wf m(2)]
    have commit: "wp (attr_commit os p b d 0 0 0 (upd_device d f) (snd (sys_access os q m))) (\<lambda>(_, m'). steady m m')"
      if f: "\<And>x. (dev_ctx (f x), dev_group (f x), dev_groups (f x), dev_wqs (f x), dev_engines (f x), dev_path (f x), dev_buf_len (f x))
          = (dev_ctx x, dev_group x, dev_groups x, dev_wqs x, dev_engines x, dev_path x, dev_buf_len x)"
        "\<And>x. dev_group_init (f x) = dev_group_init x" "\<And>x. dev_bus_type_str (f x) = dev_bus_type_str x" for p b q f
    proof -
      let ?m = "snd (sys_access os q m)"
      have acc: "sys_only m ?m" by (simp add: sys_only_def)
      have d: "devices ?m d = Some dv" using m(2) by simp
      obtain m1 where m1: "upd_device d f (snd (sysfs_write_attr os p b ?m)) = Some m1" "steady ?m m1"
        using upd_device_steady [OF d sys_only_write, of f] f by metis
      have "wf_state ?m" using wf_error_frame [OF error_frame_sys [OF acc] wf] .
      from attr_commit_steady [where assign = "upd_device d f", OF assms this d m1] show ?thesis
        by (rule wp_mono) (auto intro: steady_trans [OF steady_sys [OF acc]])
    qed
    have dep: "deprecated_attr ''read_buffer_limit'' = Some ''token_limit''" by (simp add: deprecated_attr_def attr_dict_def)
    show ?thesis
      using m(2) sprintf_path_fits [OF path, of "''read_buffer_limit''"] sprintf_path_fits [OF path, of "''token_limit''"]
        sprintf_path_fits [OF path, of "''event_log_size''"] commit
      by (auto simp: accfg_device_set_read_buffer_limit_def accfg_device_set_event_log_size_def dep case_prod_beta Let_def sys_only_def)
  qed
  then show "calm os ctx devices d (accfg_device_set_read_buffer_limit os d v)" "calm os ctx devices d (accfg_device_set_event_log_size os d v)"
    by (auto intro: calmI)
qed


section \<open>Setting a value of a configuration\<close>

text \<open>An object that lives on as long as the graph is kept.\<close>

definition tracked :: "('k mach \<Rightarrow> ptr \<rightharpoonup> 'o) \<Rightarrow> bool" where
  "tracked obj \<longleftrightarrow> (\<forall>m m' p. steady m m' \<longrightarrow> (obj m' p = None) = (obj m p = None))"

lemma tracked_heaps [simp]: "tracked devices" "tracked groups" "tracked wqs" "tracked engines"
  by (unfold tracked_def, (intro allI impI, erule steady_live)+)

lemma tracked_None: "tracked obj \<Longrightarrow> steady m m' \<Longrightarrow> obj m' p = None \<longleftrightarrow> obj m p = None"
  by (simp add: tracked_def)

lemma calm_ret [simp]: "calm os ctx obj p (\<lambda>m. Some (c, m))"
  by (simp add: calm_def)

lemma calm_if [simp]: "calm os ctx obj p (\<lambda>m. if b then f m else g m) \<longleftrightarrow> (if b then calm os ctx obj p f else calm os ctx obj p g)"
  by (cases b) simp_all

lemma calm_after:
  assumes "tracked obj" "\<And>m. steady m (h m)" "calm os ctx obj p f"
  shows "calm os ctx obj p (\<lambda>m. f (h m))"
  unfolding calm_def
proof (intro allI impI)
  fix m
  assume m: "ready os ctx m" "obj m p \<noteq> None"
  have "ready os ctx (h m)" "obj (h m) p \<noteq> None"
    using ready_steady [OF m(1) assms(2)] m(2) tracked_None [OF assms(1,2), of m p] by metis+
  with assms(3) have "wp (f (h m)) (\<lambda>(_, m'). steady (h m) m')" by (simp add: calm_def)
  then show "wp (f (h m)) (\<lambda>(_, m'). steady m m')" by (rule wp_mono) (auto intro: steady_trans [OF assms(2)])
qed

lemma calm_then:
  assumes "tracked obj" "calm os ctx obj p f" "\<And>r. calm os ctx obj p (g r)"
  shows "calm os ctx obj p (\<lambda>m. f m \<bind> (\<lambda>(r, m). g r m))"
  unfolding calm_def
proof (intro allI impI)
  fix m
  assume m: "ready os ctx m" "obj m p \<noteq> None"
  then obtain r m1 where m1: "f m = Some (r, m1)" "steady m m1" using assms(2) by (auto simp: calm_def wp_iff)
  have "obj m1 p \<noteq> None" using m(2) tracked_None [OF assms(1) m1(2), of p] by metis
  with assms(3) [of r] ready_steady [OF m(1) m1(2)] have "wp (g r m1) (\<lambda>(_, m'). steady m1 m')" by (simp add: calm_def)
  then have "wp (g r m1) (\<lambda>(_, m'). steady m m')" by (rule wp_mono) (auto intro: steady_trans [OF m1(2)])
  then show "wp (f m \<bind> (\<lambda>(r, m). g r m)) (\<lambda>(_, m'). steady m m')" by (simp add: m1(1))
qed

lemma if_writable_calm:
  assumes "tracked obj" "\<And>g. w = Some g \<Longrightarrow> calm os ctx obj p (g p v)" "calm os ctx obj p f"
  shows "calm os ctx obj p (if_writable w p v f)"
proof (cases w)
  case (Some g)
  have "calm os ctx obj p (\<lambda>m. if \<not> r then Some (0, m) else f m)" for r using assms(3) by (cases r) simp_all
  from calm_then [where g = "\<lambda>r m. if \<not> r then Some (0, m) else f m", OF assms(1) assms(2) [OF Some] this] Some
  show ?thesis by (simp add: if_writable_def [abs_def])
qed (simp add: if_writable_def [abs_def] assms(3))

text \<open>The read of a number and what follows it.\<close>

lemma number_calm:
  assumes "tracked obj" "\<And>v. calm os ctx obj p (f v)" "\<And>m e. ready os ctx m \<Longrightarrow> obj m p \<noteq> None \<Longrightarrow> wp (g (m\<lparr>errno := e\<rparr>)) (\<lambda>(_, m'). steady m m')"
  shows "calm os ctx obj p (\<lambda>m. case get_number_errno r m of (val, m) \<Rightarrow> if P val m then g m else f val m)"
proof -
  let ?e = "case snd r of None \<Rightarrow> 0 | Some e \<Rightarrow> e"
  have "calm os ctx obj p (\<lambda>m. f (fst r) (m\<lparr>errno := ?e\<rparr>))" by (rule calm_after [OF assms(1) steady_sys_calls(1) assms(2)])
  with assms(3) show ?thesis by (simp add: calm_def get_number_errno_def)
qed

definition texts_short :: "'v json_ops \<Rightarrow> 'v \<Rightarrow> bool" where
  "texts_short js v \<longleftrightarrow> (\<exists>s. js_string js v = Some s \<and> length s < 1000)"

lemma set_str_val_calm:
  assumes "texts_short js v" "\<And>s. length s < 1000 \<Longrightarrow> calm os ctx obj p (f p s)"
  shows "calm os ctx obj p (set_str_val js v f p)"
  using assms by (auto simp: set_str_val_def [abs_def] texts_short_def)

lemma wq_set_loop_calm:
  assumes "texts_short js v"
    and "\<forall>e \<in> set es. (\<forall>f x. wst_set_int_func e = Some f \<or> wst_set_long_func e = Some f \<longrightarrow> calm os ctx wqs w (f w x)) \<and>
      (\<forall>f s. wst_set_str_func e = Some f \<longrightarrow> length s < 1000 \<longrightarrow> calm os ctx wqs w (f w s)) \<and>
      (\<forall>f x. wst_is_writable e = Some f \<longrightarrow> calm os ctx wqs w (f w x))"
  shows "calm os ctx wqs w (wq_set_loop js w v key es)"
  using assms(2)
proof (induction es)
  case Nil
  then show ?case by (simp add: wq_set_loop.simps(1) [abs_def])
next
  case (Cons e es)
  then have e: "\<And>f x. wst_set_int_func e = Some f \<Longrightarrow> calm os ctx wqs w (f w x)"
    "\<And>f x. wst_set_long_func e = Some f \<Longrightarrow> calm os ctx wqs w (f w x)"
    "\<And>f s. wst_set_str_func e = Some f \<Longrightarrow> length s < 1000 \<Longrightarrow> calm os ctx wqs w (f w s)"
    "\<And>f x. wst_is_writable e = Some f \<Longrightarrow> calm os ctx wqs w (f w x)" by auto
  have wr: "calm os ctx wqs w (if_writable (wst_is_writable e) w x f)" if "calm os ctx wqs w f" for x f
    using that e(4) by (intro if_writable_calm) simp_all
  have int: "calm os ctx wqs w (\<lambda>m. case get_number_errno r m of (val, m) \<Rightarrow> if val = 0 \<and> errno m = EINVAL then Some (- errno m, m)
      else if_writable (wst_is_writable e) w val (f w val) m)" if "wst_set_int_func e = Some f" for f r
    by (rule number_calm [where g = "\<lambda>m. Some (- errno m, m)"]) (simp_all add: wr e(1) [OF that])
  have long: "calm os ctx wqs w (\<lambda>m. case get_number_errno r m of (val, m) \<Rightarrow> if val = 0 \<and> errno m = EINVAL then Some (- errno m, m)
      else if_writable (wst_is_writable e) w (s32 val) (f w (u64 val)) m)" if "wst_set_long_func e = Some f" for f r
    by (rule number_calm [where g = "\<lambda>m. Some (- errno m, m)"]) (simp_all add: wr e(2) [OF that])
  have str: "calm os ctx wqs w (set_str_val js v f w)" if "wst_set_str_func e = Some f" for f
    by (rule set_str_val_calm [OF assms(1)]) (rule e(3) [OF that])
  have rest: "calm os ctx wqs w (wq_set_loop js w v key es)" using Cons by simp
  show ?case
  proof (cases "key = wst_name e")
    case True
    then show ?thesis
      using int long str rest
      by (cases "wst_set_int_func e"; cases "wst_set_long_func e"; cases "wst_set_str_func e")
        (simp_all add: wq_set_loop.simps(2) [abs_def])
  qed (simp add: wq_set_loop.simps(2) [abs_def] rest)
qed

lemma device_set_loop_calm:
  assumes "texts_short js v"
    and "\<forall>e \<in> set es. (\<forall>f x. dst_set_int_func e = Some f \<longrightarrow> calm os ctx devices d (f d x)) \<and>
      (\<forall>f s. dst_set_str_func e = Some f \<longrightarrow> length s < 1000 \<longrightarrow> calm os ctx devices d (f d s))"
  shows "calm os ctx devices d (device_set_loop js d v key es)"
  using assms(2)
proof (induction es)
  case (Cons e es)
  then have e: "\<And>f x. dst_set_int_func e = Some f \<Longrightarrow> calm os ctx devices d (f d x)"
    "\<And>f s. dst_set_str_func e = Some f \<Longrightarrow> length s < 1000 \<Longrightarrow> calm os ctx devices d (f d s)" by auto
  have int: "calm os ctx devices d (\<lambda>m. case get_number_errno r m of (val, m) \<Rightarrow> if val = 0 \<and> errno m = EINVAL then Some (- EINVAL, m)
      else f d val m)" if "dst_set_int_func e = Some f" for f r
    by (rule number_calm [where g = "\<lambda>m. Some (- EINVAL, m)"]) (simp_all add: e(1) [OF that])
  have str: "calm os ctx devices d (set_str_val js v f d)" if "dst_set_str_func e = Some f" for f
    by (rule set_str_val_calm [OF assms(1)]) (rule e(2) [OF that])
  have rest: "calm os ctx devices d (device_set_loop js d v key es)" using Cons by simp
  show ?case
  proof (cases "key = dst_name e")
    case True
    then show ?thesis
      using int str rest by (cases "dst_set_int_func e"; cases "dst_set_str_func e") (simp_all add: device_set_loop.simps(2) [abs_def])
  qed (simp add: device_set_loop.simps(2) [abs_def] rest)
qed (simp add: device_set_loop.simps(1) [abs_def])

lemma engine_set_loop_calm:
  assumes "texts_short js v"
    and "\<forall>n \<in> set es. (\<forall>f x. est_set_int_func n = Some f \<longrightarrow> calm os ctx engines e (f e x)) \<and>
      (\<forall>f s. est_set_str_func n = Some f \<longrightarrow> length s < 1000 \<longrightarrow> calm os ctx engines e (f e s))"
  shows "calm os ctx engines e (engine_set_loop js e v key es)"
  using assms(2)
proof (induction es)
  case (Cons n es)
  then have n: "\<And>f x. est_set_int_func n = Some f \<Longrightarrow> calm os ctx engines e (f e x)"
    "\<And>f s. est_set_str_func n = Some f \<Longrightarrow> length s < 1000 \<Longrightarrow> calm os ctx engines e (f e s)" by auto
  have int: "calm os ctx engines e (\<lambda>m. case get_number_errno r m of (val, m) \<Rightarrow> if val = 0 \<and> errno m = EINVAL then Some (- EINVAL, m)
      else f e val m)" if "est_set_int_func n = Some f" for f r
    by (rule number_calm [where g = "\<lambda>m. Some (- EINVAL, m)"]) (simp_all add: n(1) [OF that])
  have str: "calm os ctx engines e (set_str_val js v f e)" if "est_set_str_func n = Some f" for f
    by (rule set_str_val_calm [OF assms(1)]) (rule n(2) [OF that])
  have rest: "calm os ctx engines e (engine_set_loop js e v key es)" using Cons by simp
  show ?case
  proof (cases "key = est_name n")
    case True
    then show ?thesis
      using int str rest by (cases "est_set_int_func n"; cases "est_set_str_func n") (simp_all add: engine_set_loop.simps(2) [abs_def])
  qed (simp add: engine_set_loop.simps(2) [abs_def] rest)
qed (simp add: engine_set_loop.simps(1) [abs_def])

text \<open>A group and the device it is on.\<close>

definition group_on :: "ptr \<Rightarrow> 'k mach \<Rightarrow> ptr \<rightharpoonup> accfg_group" where
  "group_on d m g = (if devices m d = None then None else groups m g)"

lemma tracked_group_on [simp]: "tracked (group_on d)"
  using steady_live(1,2) unfolding tracked_def group_on_def by metis

lemma calm_weaken: "calm os ctx obj p f \<Longrightarrow> (\<And>m. obj' m p \<noteq> None \<Longrightarrow> obj m p \<noteq> None) \<Longrightarrow> calm os ctx obj' p f"
  unfolding calm_def by blast

lemma group_set_loop_calm:
  assumes "texts_short js v"
    and "\<forall>e \<in> set es. (\<forall>f x. gst_set_int_func e = Some f \<longrightarrow> calm os ctx (group_on d) g (f g x)) \<and>
      (\<forall>f s. gst_set_str_func e = Some f \<longrightarrow> length s < 1000 \<longrightarrow> calm os ctx (group_on d) g (f g s)) \<and>
      (\<forall>f x. gst_is_writable e = Some f \<longrightarrow> calm os ctx (group_on d) g (f g x))"
  shows "calm os ctx (group_on d) g (group_set_loop js d g v key es)"
  using assms(2)
proof (induction es)
  case (Cons e es)
  then have e: "\<And>f x. gst_set_int_func e = Some f \<Longrightarrow> calm os ctx (group_on d) g (f g x)"
    "\<And>f s. gst_set_str_func e = Some f \<Longrightarrow> length s < 1000 \<Longrightarrow> calm os ctx (group_on d) g (f g s)"
    "\<And>f x. gst_is_writable e = Some f \<Longrightarrow> calm os ctx (group_on d) g (f g x)" by auto
  have wr: "calm os ctx (group_on d) g (\<lambda>m. do { type \<leftarrow> accfg_device_get_type d m;
        if type = ACCFG_DEVICE_IAX \<and> iax_lacks (gst_name e) then Some (0, m) else if_writable (gst_is_writable e) g val (f g val) m })"
    if "gst_set_int_func e = Some f" for f val
  proof -
    have "calm os ctx (group_on d) g (if_writable (gst_is_writable e) g val (f g val))"
      using e(1) [OF that] e(3) by (intro if_writable_calm) simp_all
    then show ?thesis by (auto simp: calm_def accfg_device_get_type_def group_on_def)
  qed
  have int: "calm os ctx (group_on d) g (\<lambda>m. case get_number_errno r m of (val, m) \<Rightarrow>
      if val = 0 \<and> errno m = EINVAL \<or> val < 0 then Some (- EINVAL, m) else do { type \<leftarrow> accfg_device_get_type d m;
        if type = ACCFG_DEVICE_IAX \<and> iax_lacks (gst_name e) then Some (0, m) else if_writable (gst_is_writable e) g val (f g val) m })"
    if "gst_set_int_func e = Some f" for f r
    by (rule number_calm [where g = "\<lambda>m. Some (- EINVAL, m)"]) (simp_all add: wr [OF that])
  have str: "calm os ctx (group_on d) g (set_str_val js v f g)" if "gst_set_str_func e = Some f" for f
    by (rule set_str_val_calm [OF assms(1)]) (rule e(2) [OF that])
  have rest: "calm os ctx (group_on d) g (group_set_loop js d g v key es)" using Cons by simp
  show ?case
  proof (cases "key = gst_name e")
    case True
    then show ?thesis
      using int str rest by (cases "gst_set_int_func e"; cases "gst_set_str_func e") (simp_all add: group_set_loop.simps(2) [abs_def])
  qed (simp add: group_set_loop.simps(2) [abs_def] rest)
qed (simp add: group_set_loop.simps(1) [abs_def])


section \<open>The tables\<close>

lemma wq_get_mode_calm:
  assumes "alloc_ok os"
  shows "calm os ctx wqs w (accfg_wq_get_mode os w)"
proof (rule calmI)
  fix m q
  assume m: "ready os ctx m" "wqs m w = Some q"
  obtain dv where "devices m (wq_device q) = Some dv" and d: "accfg_wq_get_ctx w m = Some (dev_ctx dv)"
    using wq_ctx_Some [OF readyD(1) [OF m(1)] m(2)] .
  have reads: "mode_reads os (wq_path q)" using readyD(4) [OF m] by simp
  have reads_mode: "\<exists>s. accfg_get_param_str os (wq_path q) ''mode'' m' = (Some s, m')" if op: "os_open os (wq_path q) O_PATH (kern m') = None" for m' :: "'a mach"
  proof -
    obtain s where "os_open os (wq_path q @ ''/mode'') O_RDONLY (kern m') = None" "s \<noteq> []"
      "os_read os (wq_path q @ ''/mode'') (MAX_PARAM_LEN - 1) (kern m') = Inr s"
      using reads op unfolding mode_reads_def by blast
    then show ?thesis
      by (simp add: accfg_get_param_str_def sys_call_defs alloc_ok_def [THEN iffD1, OF assms] MAX_PARAM_LEN_def)
  qed
  have "\<exists>s. read_dir_str os (wq_path q) ''mode'' m = (Inr (Some s), m)" if "os_open os (wq_path q) O_PATH (kern m) = None"
    using reads_mode [OF that] that by (auto simp: read_dir_str_def sys_open_def sys_status_def)
  moreover have "\<exists>rc m'. read_dir_str os (wq_path q) ''mode'' m = (Inl rc, m') \<and> sys_only m m'" if "os_open os (wq_path q) O_PATH (kern m) = Some e" for e
    using that by (simp add: read_dir_str_def sys_call_defs sys_only_def)
  ultimately show "wp (accfg_wq_get_mode os w m) (\<lambda>(_, m'). steady m m')"
    using m(2) d by (cases "os_open os (wq_path q) O_PATH (kern m)") (auto simp: accfg_wq_get_mode_def)
qed

lemma wq_writable_calm:
  assumes "alloc_ok os"
  shows "calm os ctx wqs w (is_wq_threshold_writable os w v)" "calm os ctx wqs w (is_wq_ats_disable_writable w v)"
    "calm os ctx wqs w (is_wq_prs_disable_writable w v)"
proof -
  show "calm os ctx wqs w (is_wq_threshold_writable os w v)"
    unfolding is_wq_threshold_writable_def [abs_def]
    by (rule calm_then [OF _ wq_get_mode_calm [OF assms]]) simp_all
  show "calm os ctx wqs w (is_wq_ats_disable_writable w v)" "calm os ctx wqs w (is_wq_prs_disable_writable w v)"
    by (auto simp: calm_def is_wq_ats_disable_writable_def is_wq_prs_disable_writable_def accfg_wq_get_ats_disable_def
        accfg_wq_get_prs_disable_def accfg_wq_get_field_def)
qed

lemma group_writable_calm:
  "calm os ctx groups g (is_group_read_buffer_limit_writable g v)" "calm os ctx groups g (is_group_traffic_class_writable g v)"
  "calm os ctx groups g (is_group_read_buffer_attribs_writable g v)" "calm os ctx groups g (is_group_desc_progress_limit_writable g v)"
  "calm os ctx groups g (is_group_batch_progress_limit_writable g v)"
proof -
  have "wp (is_group_read_buffer_limit_writable g v m) (\<lambda>(_, m'). steady m m')" "wp (is_group_traffic_class_writable g v m) (\<lambda>(_, m'). steady m m')"
    if m: "ready os ctx m" "groups m g = Some gr" for m gr
  proof -
    obtain dv where "devices m (grp_device gr) = Some dv" using wf_group(2) [OF readyD(1) [OF m(1)] m(2)] by blast
    with m(2) show "wp (is_group_read_buffer_limit_writable g v m) (\<lambda>(_, m'). steady m m')"
      "wp (is_group_traffic_class_writable g v m) (\<lambda>(_, m'). steady m m')"
      by (simp_all add: is_group_read_buffer_limit_writable_def is_group_traffic_class_writable_def accfg_group_get_device_def
          accfg_device_get_read_buffer_limit_def accfg_device_get_version_def)
  qed
  then show "calm os ctx groups g (is_group_read_buffer_limit_writable g v)" "calm os ctx groups g (is_group_traffic_class_writable g v)"
    by (auto intro: calmI)
  show "calm os ctx groups g (is_group_read_buffer_attribs_writable g v)" "calm os ctx groups g (is_group_desc_progress_limit_writable g v)"
    "calm os ctx groups g (is_group_batch_progress_limit_writable g v)"
    by (auto simp: calm_def is_group_read_buffer_attribs_writable_def is_group_desc_progress_limit_writable_def
        is_group_batch_progress_limit_writable_def accfg_group_get_desc_progress_limit_def accfg_group_get_batch_progress_limit_def
        accfg_group_get_field_def)
qed

lemma wq_json_set_val_calm:
  assumes "os_ok os" "alloc_ok os" "texts_short js v"
  shows "calm os ctx wqs w (wq_json_set_val os js w v key)"
proof -
  have fields: "calm os ctx wqs w (accfg_wq_set_size os w x)" "calm os ctx wqs w (accfg_wq_set_priority os w x)"
    "calm os ctx wqs w (accfg_wq_set_group_id os w x)" "calm os ctx wqs w (accfg_wq_set_block_on_fault os w x)"
    "calm os ctx wqs w (accfg_wq_set_max_batch_size os w x)" "calm os ctx wqs w (accfg_wq_set_max_transfer_size os w x)"
    "calm os ctx wqs w (accfg_wq_set_threshold os w x)" "calm os ctx wqs w (accfg_wq_set_ats_disable os w x)"
    "calm os ctx wqs w (accfg_wq_set_prs_disable os w x)" for x
    unfolding accfg_wq_set_size_def accfg_wq_set_priority_def accfg_wq_set_group_id_def accfg_wq_set_block_on_fault_def
      accfg_wq_set_max_batch_size_def accfg_wq_set_max_transfer_size_def accfg_wq_set_threshold_def accfg_wq_set_ats_disable_def
      accfg_wq_set_prs_disable_def
    by (intro wq_set_field_calm [OF assms(1)]; simp add: wq_store_ok_def wq_links_def)+
  have strs: "calm os ctx wqs w (accfg_wq_set_str_mode os w s)" "calm os ctx wqs w (accfg_wq_set_str_name os w s)"
    "calm os ctx wqs w (accfg_wq_set_str_driver_name os w s)" if "length s < 1000" for s
    unfolding accfg_wq_set_str_mode_def accfg_wq_set_str_name_def accfg_wq_set_str_driver_name_def
    using that by (intro wq_set_str_field_calm [OF assms(1)]; simp add: wq_store_ok_def wq_links_def short_driver_def)+
  have "calm os ctx wqs w (wq_set_loop js w v key (wq_table os))"
    by (rule wq_set_loop_calm [OF assms(3)])
      (auto simp: wq_table_def wq_int_def wq_str_def fields strs wq_set_str_type_calm [OF assms(1)] wq_set_op_config_calm wq_writable_calm [OF assms(2)])
  then show ?thesis by (simp add: wq_json_set_val_def [abs_def])
qed

lemma engine_json_set_val_calm:
  assumes "os_ok os" "texts_short js v"
  shows "calm os ctx engines e (engine_json_set_val os js e v key)"
proof -
  have "calm os ctx engines e (accfg_engine_set_group_id os e x)" for x
    unfolding accfg_engine_set_group_id_def by (rule engine_set_field_calm [OF assms(1)]) (simp_all add: engine_links_def)
  then have "calm os ctx engines e (engine_set_loop js e v key (engine_table os))"
    by (intro engine_set_loop_calm [OF assms(2)]) (auto simp: engine_table_def)
  then show ?thesis by (simp add: engine_json_set_val_def [abs_def])
qed

lemma device_json_set_val_calm:
  assumes "os_ok os" "texts_short js v"
  shows "calm os ctx devices d (device_json_set_val os js d v key)"
proof -
  have "calm os ctx devices d (device_set_loop js d v key (device_table os))"
    by (rule device_set_loop_calm [OF assms(2)]) (auto simp: device_table_def device_set_calm [OF assms(1)])
  then show ?thesis by (simp add: device_json_set_val_def [abs_def])
qed

lemma group_json_set_val_calm:
  assumes "os_ok os" "texts_short js v"
  shows "calm os ctx groups g (group_json_set_val os js g v key)"
proof -
  have on: "calm os ctx (group_on d) g f" if "calm os ctx groups g f" for d and f :: "'a mach \<Rightarrow> ('a, 'c) run"
    by (rule calm_weaken [OF that]) (simp add: group_on_def split: if_splits)
  have fields: "calm os ctx groups g (accfg_group_set_read_buffers_reserved os g x)" "calm os ctx groups g (accfg_group_set_read_buffers_allowed os g x)"
    "calm os ctx groups g (accfg_group_set_use_read_buffer_limit os g x)" "calm os ctx groups g (accfg_group_set_traffic_class_a os g x)"
    "calm os ctx groups g (accfg_group_set_traffic_class_b os g x)" "calm os ctx groups g (accfg_group_set_desc_progress_limit os g x)"
    "calm os ctx groups g (accfg_group_set_batch_progress_limit os g x)" for x
    unfolding accfg_group_set_read_buffers_reserved_def accfg_group_set_read_buffers_allowed_def accfg_group_set_use_read_buffer_limit_def
      accfg_group_set_traffic_class_a_def accfg_group_set_traffic_class_b_def accfg_group_set_desc_progress_limit_def
      accfg_group_set_batch_progress_limit_def
    by (intro group_set_field_calm [OF assms(1)]; simp add: group_links_def)+
  have loop: "calm os ctx (group_on d) g (group_set_loop js d g v key (group_table os))" for d
    by (rule group_set_loop_calm [OF assms(2)])
      (auto simp: group_table_def group_entry_def intro!: on fields group_writable_calm)
  show ?thesis
  proof (rule calmI)
    fix m gr
    assume m: "ready os ctx m" "groups m g = Some gr"
    obtain dv where "devices m (grp_device gr) = Some dv" using wf_group(2) [OF readyD(1) [OF m(1)] m(2)] by blast
    then have "group_on (grp_device gr) m g = Some gr" using m(2) by (simp add: group_on_def)
    from calmD [OF loop m(1) this] m(2) show "wp (group_json_set_val os js g v key m) (\<lambda>(_, m'). steady m m')"
      by (simp add: group_json_set_val_def accfg_group_get_device_def)
  qed
qed


section \<open>Lookups\<close>

context child_list
begin

text \<open>The search for a child by its number ends at null or at a child of the device.\<close>

lemma child_by_id:
  assumes "wf_state m" "devices m d = Some dv" "device_done m dv"
    and number: "\<And>p. p \<in> set (parts dv) \<Longrightarrow> \<exists>x. number p m = Some x"
  shows "\<exists>r. do { (p, m) \<leftarrow> first os d m; dv \<leftarrow> devices m d;
       r \<leftarrow> find_from (length (parts dv)) (\<lambda>p. id_is i (number p m)) (\<lambda>p. step p m) p; Some (r, m) } = Some (r, m) \<and>
     (r = 0 \<or> r \<in> set (parts dv))"
proof -
  have ps: "distinct ([] @ parts dv)" "0 \<notin> set (parts dv)" using parts_wf [OF assms(1,2)] by auto
  have "\<forall>p \<in> set (parts dv). id_is i (number p m) = Some (number p m = Some i) \<and> step p m = list_next ([] @ parts dv) p"
    using number step_list [OF assms(1,2)] by (fastforce simp: id_is_def)
  from find_from_list [OF ps this] first_done [OF assms(2,3)] assms(2) show ?thesis
    by (auto simp: find_Some_iff split: option.split)
qed

end

lemma children_by_id:
  assumes "ready os ctx m" "devices m d = Some dv" "device_done m dv"
  shows "\<exists>r. accfg_device_wq_get_by_id os d i m = Some (r, m) \<and> (r \<noteq> 0 \<longrightarrow> wqs m r \<noteq> None)"
    and "\<exists>r. accfg_device_engine_get_by_id os d i m = Some (r, m) \<and> (r \<noteq> 0 \<longrightarrow> engines m r \<noteq> None)"
    and "\<exists>r. accfg_device_group_get_by_id os d i m = Some (r, m) \<and> (r \<noteq> 0 \<longrightarrow> groups m r \<noteq> None)"
proof -
  have wf: "wf_state m" by (rule readyD(1) [OF assms(1)])
  have w: "wqs m p \<noteq> None" if "p \<in> set (dev_wqs dv)" for p using linked_part [OF wfD(3) [OF wf] assms(2) that] by auto
  have g: "groups m p \<noteq> None" if "p \<in> set (dev_groups dv)" for p using linked_part [OF wfD(2) [OF wf] assms(2) that] by auto
  have e: "engines m p \<noteq> None" if "p \<in> set (dev_engines dv)" for p using linked_part [OF wfD(4) [OF wf] assms(2) that] by auto
  show "\<exists>r. accfg_device_wq_get_by_id os d i m = Some (r, m) \<and> (r \<noteq> 0 \<longrightarrow> wqs m r \<noteq> None)"
    using wq_list.child_by_id [where number = accfg_wq_get_id and os = os and i = i, OF wf assms(2,3)] w
    by (fastforce simp: accfg_device_wq_get_by_id_def accfg_wq_get_id_def)
  show "\<exists>r. accfg_device_engine_get_by_id os d i m = Some (r, m) \<and> (r \<noteq> 0 \<longrightarrow> engines m r \<noteq> None)"
    using engine_list.child_by_id [where number = accfg_engine_get_id and os = os and i = i, OF wf assms(2,3)] e
    by (fastforce simp: accfg_device_engine_get_by_id_def accfg_engine_get_id_def)
  show "\<exists>r. accfg_device_group_get_by_id os d i m = Some (r, m) \<and> (r \<noteq> 0 \<longrightarrow> groups m r \<noteq> None)"
    using group_list.child_by_id [where number = accfg_group_get_id and os = os and i = i, OF wf assms(2,3)] g
    by (fastforce simp: accfg_device_group_get_by_id_def accfg_group_get_id_def)
qed

lemma device_by_name:
  assumes "ready os ctx m"
  shows "\<exists>d. accfg_ctx_device_get_by_name os ctx name m = Some (d, m) \<and> (d \<noteq> 0 \<longrightarrow> (\<exists>dv. devices m d = Some dv \<and> device_done m dv))"
proof -
  obtain cx where cx: "discovered m ctx cx" using readyD(2) [OF assms] by blast
  show ?thesis
    using by_name_exact [OF readyD(1) [OF assms] cx, of os name] discovered_device [OF cx] named_SomeD
    by (cases "named accfg_device_get_devname name (c_devices cx) m") (auto dest!: named_SomeD)
qed


section \<open>States and control\<close>

lemma device_get_state_calm:
  assumes "os_ok os"
  shows "calm os ctx devices d (accfg_device_get_state os d)"
proof (rule calmI)
  fix m dv
  assume m: "ready os ctx m" "devices m d = Some dv"
  have wf: "wf_state m" by (rule readyD(1) [OF m(1)])
  show "wp (accfg_device_get_state os d m) (\<lambda>(_, m'). steady m m')"
    using m(2) snprintf_path_fits [OF wf_device(1) [OF wf m(2)], of "''state''"]
      read_or_record_wp [OF assms wf m(2), of "dev_path dv @ ''/state''" 0 0 0]
    by (auto simp: accfg_device_get_state_def elim!: wp_mono intro: steady_error_frame)
qed

lemma wq_get_state_calm:
  assumes "os_ok os"
  shows "calm os ctx wqs w (accfg_wq_get_state os w)"
  by (rule calmI, rule wp_mono [OF accfg_wq_get_state_wp [OF assms readyD(1)]]) (auto intro: steady_error_frame)

lemma after_last_slash_length: "after_last_slash path = Some n \<Longrightarrow> length n \<le> length path"
  using length_takeWhile_le [of "\<lambda>c. c \<noteq> CHR ''/''" "rev path"] by (auto simp: after_last_slash_def split: if_splits)

lemma devname_length: "devpath_to_devname path = Some n \<Longrightarrow> length n \<le> length path"
  by (simp add: devpath_to_devname_def after_last_slash_length)

lemma device_control_write_calm:
  assumes "os_ok os"
  shows "calm os ctx devices d (device_control_write os d path)"
proof (rule calmI)
  fix m dv
  assume m: "ready os ctx m" "devices m d = Some dv"
  have wf: "wf_state m" by (rule readyD(1) [OF m(1)])
  obtain n where n: "accfg_device_get_devname d m = Some n" using devname_Some [OF wf m(2)] by blast
  have "wp (save_last_error os d 0 0 0 (snd (sysfs_write_attr os path n m))) (\<lambda>m'. steady m m')"
    by (rule save_last_error_steady [OF assms wf m(2) sys_only_write])
  with n show "wp (device_control_write os d path m) (\<lambda>(_, m'). steady m m')"
    by (simp add: device_control_write_def case_prod_beta)
qed

lemma device_get_clients_wp:
  assumes "os_ok os" "wf_state m" "devices m d = Some dv"
  shows "wp (accfg_device_get_clients os d m) (\<lambda>(_, m'). error_frame m m')"
  using assms(3) snprintf_path_fits [OF wf_device(1) [OF assms(2,3)], of "''clients''"]
    read_or_record_wp [OF assms, of "dev_path dv @ ''/clients''" 0 0 0]
  by (auto simp: accfg_device_get_clients_def elim!: wp_mono)

lemma device_control_calm:
  assumes "os_ok os"
  shows "calm os ctx devices d (accfg_device_control os d flag force)"
proof (rule calmI)
  fix m dv
  assume m: "ready os ctx m" "devices m d = Some dv"
  have wf: "wf_state m" by (rule readyD(1) [OF m(1)])
  obtain cx where cx: "ctxs m (dev_ctx dv) = Some cx" using wf_device(2) [OF wf m(2)] by blast
  obtain n where n: "accfg_device_get_devname d m = Some n" "devpath_to_devname (dev_path dv) = Some n" using devname_Some [OF wf m(2)] by blast
  have len: "length (dev_bus_type_str dv) < 1000" "length n < 1000"
    using readyD(3) [OF m] devname_length [OF n(2)] by auto
  have after: "ready os ctx m'" "devices m' d = Some dv" "wf_state m'" if "error_frame m m'" for m'
    using ready_steady [OF m(1) steady_error_frame [OF that]] m(2) that by (auto simp: error_frame_def dest: readyD(1))
  have written: "wp (device_control_write os d path m') (\<lambda>(_, m'). steady m m')" if fr: "error_frame m m'" for m' path
    by (rule wp_mono [OF calmD [where obj = devices, OF device_control_write_calm [OF assms] after(1,2) [OF fr]]]) (auto intro: steady_then(1) [OF fr])
  have "length (dev_bus_type_str dv) + (case IDXD_DRIVER d m of None \<Rightarrow> 6 | Some d \<Rightarrow> length d) < 4000"
    using m(2) cx len by (simp add: IDXD_DRIVER_def)
  from get_driver_bind_path_wp [OF this, of os m] obtain rc path m1
    where bind: "get_driver_bind_path os (dev_bus_type_str dv) (IDXD_DRIVER d m) m = Some ((rc, path), m1)" "error_frame m m1" by (auto simp: wp_iff)
  from get_driver_unbind_path_wp [of "dev_bus_type_str dv" n os m] len obtain rc' path' m2
    where unbind: "get_driver_unbind_path os (dev_bus_type_str dv) n m = Some ((rc', path'), m2)" "error_frame m m2" by (auto simp: wp_iff)
  from device_get_clients_wp [OF assms after(3,2) [OF unbind(2)]] obtain c m3
    where cl: "accfg_device_get_clients os d m2 = Some (c, m3)" "error_frame m2 m3" by (auto simp: wp_iff)
  have m3: "error_frame m m3" by (rule error_frame_trans [OF unbind(2) cl(2)])
  have "\<exists>drv. IDXD_DRIVER d m = Some drv" using m(2) cx by (simp add: IDXD_DRIVER_def)
  then show "wp (accfg_device_control os d flag force m) (\<lambda>(_, m'). steady m m')"
    using m(2) n(1) bind unbind cl(1) m3 written
    by (auto simp: accfg_device_control_def steady_error_frame)
qed

lemma wq_control_calm:
  assumes "os_ok os" "flag = ACCFG_WQ_ENABLE \<or> flag = ACCFG_WQ_DISABLE"
  shows "calm os ctx wqs w (accfg_wq_control os w flag force)"
proof (rule calmI)
  fix m q
  assume m: "ready os ctx m" "wqs m w = Some q"
  have wf: "wf_state m" by (rule readyD(1) [OF m(1)])
  obtain dv where d: "devices m (wq_device q) = Some dv" using wf_wq(2) [OF wf m(2)] by blast
  obtain n where n: "devpath_to_devname (wq_path q) = Some n" using path_ok_devname [OF wf_wq(1) [OF wf m(2)]] by blast
  have len: "length (dev_bus_type_str dv) < 1000" "length n < 1000" "\<forall>n. wq_driver_name q = Some n \<longrightarrow> length n < 1000"
    using readyD(3) [OF m(1) d] readyD(4) [OF m] devname_length [OF n] by (auto simp: short_driver_def)
  show "wp (accfg_wq_control os w flag force m) (\<lambda>(_, m'). steady m m')"
    by (rule wp_mono [OF accfg_wq_control_steady [OF assms(1) wf m(2) d n len assms(2)]]) auto
qed

lemma enable_all_calm:
  assumes "\<And>p. calm os ctx obj p (enable p)" "tracked obj" "ready os ctx m" "\<forall>p \<in> set ps. obj m p \<noteq> None"
  shows "wp (enable_all enable ps m) (\<lambda>(_, m'). steady m m')"
  using assms(3,4)
proof (induction ps arbitrary: m)
  case (Cons p ps)
  then obtain rc m1 where m1: "enable p m = Some (rc, m1)" "steady m m1"
    using assms(1) [of p] by (auto simp: calm_def wp_iff)
  have "\<forall>p \<in> set ps. obj m1 p \<noteq> None" using Cons.prems(2) tracked_None [OF assms(2) m1(2)] by auto
  from Cons.IH [OF ready_steady [OF Cons.prems(1) m1(2)] this]
  have "wp (enable_all enable ps m1) (\<lambda>(_, m'). steady m m')" by (rule wp_mono) (auto intro: steady_trans [OF m1(2)])
  with m1 show ?case by simp
qed simp


section \<open>The loader\<close>

text \<open>Every pointer the loader keeps is null or lives, and the device is a scanned one.\<close>

definition conf_ok :: "'k mach \<Rightarrow> conf_state \<Rightarrow> bool" where
  "conf_ok m c \<longleftrightarrow> (cf_dev c \<noteq> 0 \<longrightarrow> devices m (cf_dev c) \<noteq> None) \<and>
     (cf_parent c \<noteq> 0 \<longrightarrow> (\<exists>dv. devices m (cf_parent c) = Some dv \<and> device_done m dv)) \<and>
     (cf_wq c \<noteq> 0 \<longrightarrow> wqs m (cf_wq c) \<noteq> None) \<and> (cf_engine c \<noteq> 0 \<longrightarrow> engines m (cf_engine c) \<noteq> None) \<and>
     (cf_group c \<noteq> 0 \<longrightarrow> groups m (cf_group c) \<noteq> None) \<and>
     (\<forall>d \<in> set (cf_activate_dev_list c). devices m d \<noteq> None) \<and> (\<forall>w \<in> set (cf_activate_wq_list c). wqs m w \<noteq> None)"

lemma conf_ok_steady:
  assumes "conf_ok m c" "steady m m'"
  shows "conf_ok m' c"
proof -
  have "\<exists>dv. devices m' (cf_parent c) = Some dv \<and> device_done m' dv" if "cf_parent c \<noteq> 0"
    using assms(1) that device_done_steady [OF assms(2)] by (auto simp: conf_ok_def)
  then show ?thesis using assms(1) unfolding conf_ok_def steady_live [OF assms(2)] by blast
qed

text \<open>A step of the loader: it is defined, and keeps the state and the pointers.\<close>

definition step_ok :: "'k mach \<Rightarrow> ('k, 'a) conf_run \<Rightarrow> bool" where
  "step_ok m r \<longleftrightarrow> wp r (\<lambda>(_, m', c'). steady m m' \<and> conf_ok m' c')"

lemma step_ok_after: "steady m m1 \<Longrightarrow> step_ok m1 r \<Longrightarrow> step_ok m r"
  unfolding step_ok_def by (erule wp_mono) (auto intro: steady_trans)

lemma step_ok_bind:
  assumes "step_ok m r" "\<And>x m1 c1. steady m m1 \<Longrightarrow> conf_ok m1 c1 \<Longrightarrow> step_ok m1 (f (x, m1, c1))"
  shows "step_ok m (r \<bind> f)"
proof -
  obtain x m1 c1 where "r = Some (x, m1, c1)" "steady m m1" "conf_ok m1 c1" using assms(1) by (auto simp: step_ok_def wp_iff)
  with assms(2) [of m1 c1 x] show ?thesis by (simp add: step_ok_after)
qed

lemma step_ok_ret [simp]: "step_ok m (Some (x, m, c)) \<longleftrightarrow> conf_ok m c"
  by (simp add: step_ok_def)

text \<open>A run on the machine alone, whose code and state are then used.\<close>

lemma step_ok_run:
  assumes "wp r (\<lambda>(_, m'). steady m m')" "\<And>x m1. steady m m1 \<Longrightarrow> step_ok m1 (f (x, m1))"
  shows "step_ok m (r \<bind> f)"
proof -
  obtain x m1 where "r = Some (x, m1)" "steady m m1" using assms(1) by (auto simp: wp_iff)
  with assms(2) [of m1 x] show ?thesis by (simp add: step_ok_after)
qed

lemma activation_list:
  "\<exists>rc qs. add_to_activation_list os ps p m = ((rc, qs), snd (sys_alloc os m)) \<and> set qs \<subseteq> insert p (set ps)"
  by (auto simp: add_to_activation_list_def case_prod_beta)

text \<open>The device found by name: its place among those to enable, after it has been disabled if need be.\<close>

lemma activate_device_ok:
  assumes "devices m d = Some dv" "device_done m dv" "conf_ok m c"
  shows "step_ok m (case (if cf_enable c then add_to_activation_list os (cf_activate_dev_list c) d m else ((0, cf_activate_dev_list c), m)) of
      ((rc, ds), m) \<Rightarrow> let c = c\<lparr>cf_activate_dev_list := ds\<rparr> in
        if rc \<noteq> 0 then Some (Some rc, m, c) else Some (None, m, c\<lparr>cf_parent := d\<rparr>))"
proof -
  obtain rc qs where qs: "add_to_activation_list os (cf_activate_dev_list c) d m = ((rc, qs), snd (sys_alloc os m))"
    "set qs \<subseteq> insert d (set (cf_activate_dev_list c))" using activation_list by blast
  let ?m = "snd (sys_alloc os m)"
  have al: "steady m ?m" by simp
  obtain dv' where "devices ?m d = Some dv'" "device_done ?m dv'" using device_done_steady [OF al assms(1,2)] by blast
  moreover have "conf_ok ?m c" by (rule conf_ok_steady [OF assms(3) al])
  ultimately have "conf_ok ?m (c\<lparr>cf_activate_dev_list := qs\<rparr>)" "conf_ok ?m (c\<lparr>cf_activate_dev_list := qs, cf_parent := d\<rparr>)"
    using qs(2) unfolding conf_ok_def by auto
  then have "step_ok ?m (if rc \<noteq> 0 then Some (Some rc, ?m, c\<lparr>cf_activate_dev_list := qs\<rparr>)
      else Some (None, ?m, c\<lparr>cf_activate_dev_list := qs, cf_parent := d\<rparr>))" by simp
  from step_ok_after [OF al this] have "step_ok m (if rc \<noteq> 0 then Some (Some rc, ?m, c\<lparr>cf_activate_dev_list := qs\<rparr>)
      else Some (None, ?m, c\<lparr>cf_activate_dev_list := qs, cf_parent := d\<rparr>))" .
  moreover have "conf_ok m (c\<lparr>cf_parent := d\<rparr>)" using assms by (simp add: conf_ok_def)
  ultimately show ?thesis using qs(1) by (cases "rc = 0") (simp_all add: Let_def)
qed

lemma parse_dev_loop_ok:
  assumes "os_ok os" "ready os ctx m" "conf_ok m c"
  shows "step_ok m (parse_dev_loop os ctx parsed types (m, c))"
  using assms(3)
proof (induction types)
  case (Cons t types)
  obtain d where d: "accfg_ctx_device_get_by_name os ctx parsed m = Some (d, m)"
    and live: "d \<noteq> 0 \<longrightarrow> (\<exists>dv. devices m d = Some dv \<and> device_done m dv)" using device_by_name [OF assms(2)] by blast
  let ?c = "c\<lparr>cf_parent := 0, cf_dev := d\<rparr>"
  let ?fin = "\<lambda>(rc, m). if rc \<noteq> 0 then Some (Some rc, m, ?c)
     else (case (if cf_enable ?c then add_to_activation_list os (cf_activate_dev_list ?c) d m else ((0, cf_activate_dev_list ?c), m)) of
       ((rc, ds), m) \<Rightarrow> let c = ?c\<lparr>cf_activate_dev_list := ds\<rparr> in
         if rc \<noteq> 0 then Some (Some rc, m, c) else Some (None, m, c\<lparr>cf_parent := d\<rparr>))"
  let ?body = "\<lambda>(dev_state, m). if dev_state = ACCFG_DEVICE_ENABLED \<and> \<not> cf_forced ?c then Some (Some 0, m, ?c\<lparr>cf_dev := 0\<rparr>)
     else (if dev_state = ACCFG_DEVICE_ENABLED then accfg_device_disable os d True m else Some (0, m)) \<bind> ?fin"
  have c: "conf_ok m ?c" using Cons.prems live by (auto simp: conf_ok_def)
  have found: "step_ok m (accfg_device_get_state os d m \<bind> ?body)" if nz: "d \<noteq> 0"
  proof (rule step_ok_run)
    obtain dv where dv: "devices m d = Some dv" "device_done m dv" using live nz by blast
    show "wp (accfg_device_get_state os d m) (\<lambda>(_, m'). steady m m')"
      by (rule calmD [where obj = devices, OF device_get_state_calm [OF assms(1)] assms(2) dv(1)])
    fix x m1
    assume m1: "steady m m1"
    obtain dv1 where dv1: "devices m1 d = Some dv1" "device_done m1 dv1" using device_done_steady [OF m1 dv] by blast
    have c1: "conf_ok m1 ?c" by (rule conf_ok_steady [OF c m1])
    have "step_ok m1 ((if x = ACCFG_DEVICE_ENABLED then accfg_device_disable os d True m1 else Some (0, m1)) \<bind> ?fin)"
    proof (rule step_ok_run)
      show "wp (if x = ACCFG_DEVICE_ENABLED then accfg_device_disable os d True m1 else Some (0, m1)) (\<lambda>(_, m'). steady m1 m')"
        using calmD [where obj = devices, OF device_control_calm [OF assms(1)] ready_steady [OF assms(2) m1] dv1(1)]
        by (simp add: accfg_device_disable_def)
      fix rc m2
      assume m2: "steady m1 m2"
      obtain dv2 where "devices m2 d = Some dv2" "device_done m2 dv2" using device_done_steady [OF m2 dv1] by blast
      from activate_device_ok [OF this conf_ok_steady [OF c1 m2]] conf_ok_steady [OF c1 m2]
      show "step_ok m2 (?fin (rc, m2))" by simp
    qed
    moreover have "conf_ok m1 (?c\<lparr>cf_dev := 0\<rparr>)" using c1 by (simp add: conf_ok_def)
    ultimately show "step_ok m1 (?body (x, m1))" by simp
  qed
  from Cons found c d show ?case by (cases "d = 0") (simp_all add: Let_def)
qed simp

text \<open>The children of the device named last; the device stays.\<close>

definition keeps_parent :: "conf_state \<Rightarrow> ('k, 'a) conf_run \<Rightarrow> bool" where
  "keeps_parent c r \<longleftrightarrow> (\<forall>x m' c'. r = Some (x, m', c') \<longrightarrow> cf_parent c' = cf_parent c)"

lemma parent_done: "conf_ok m c \<Longrightarrow> cf_parent c \<noteq> 0 \<Longrightarrow> \<exists>dv. devices m (cf_parent c) = Some dv \<and> device_done m dv"
  by (simp add: conf_ok_def)

lemma parse_wq_key_ok:
  assumes "os_ok os" "ready os ctx m" "conf_ok m c" "cf_parent c \<noteq> 0"
  shows "step_ok m (parse_wq_key os parsed (m, c)) \<and> keeps_parent c (parse_wq_key os parsed (m, c))"
proof (cases "strstr parsed ''wq'' \<and> scan_child_id ''wq'' parsed \<noteq> None")
  case True
  then obtain i where i: "scan_child_id ''wq'' parsed = Some i" by blast
  obtain dv where dv: "devices m (cf_parent c) = Some dv" "device_done m dv" using parent_done [OF assms(3,4)] by blast
  obtain w where w: "accfg_device_wq_get_by_id os (cf_parent c) i m = Some (w, m)" and live: "w \<noteq> 0 \<longrightarrow> wqs m w \<noteq> None"
    using children_by_id(1) [OF assms(2) dv] by blast
  have c: "conf_ok m (c\<lparr>cf_wq := w\<rparr>)" using assms(3) live by (simp add: conf_ok_def)
  show ?thesis
  proof (cases "w = 0")
    case False
    then obtain q where q: "wqs m w = Some q" using live by blast
    from calmD [where obj = wqs, OF wq_get_state_calm [OF assms(1)] assms(2) q] obtain st m1
      where m1: "accfg_wq_get_state os w m = Some (st, m1)" "steady m m1" by (auto simp: wp_iff)
    have c1: "conf_ok m1 (c\<lparr>cf_wq := w\<rparr>)" by (rule conf_ok_steady [OF c m1(2)])
    then have zero: "conf_ok m1 (c\<lparr>cf_wq := 0\<rparr>)" by (simp add: conf_ok_def)
    obtain rc qs where qs: "add_to_activation_list os (cf_activate_wq_list c) w m1 = ((rc, qs), snd (sys_alloc os m1))"
      "set qs \<subseteq> insert w (set (cf_activate_wq_list c))" using activation_list by blast
    let ?m = "snd (sys_alloc os m1)"
    have al: "steady m1 ?m" by simp
    have "wqs ?m w \<noteq> None" using q m1(2) steady_live(3) [OF steady_trans [OF m1(2) al], of w] by simp
    with qs(2) conf_ok_steady [OF c1 al] have "conf_ok ?m (c\<lparr>cf_wq := w, cf_activate_wq_list := qs\<rparr>)"
      unfolding conf_ok_def by auto
    then have "steady m ?m" "conf_ok ?m (c\<lparr>cf_wq := w, cf_activate_wq_list := qs\<rparr>)" using steady_trans [OF m1(2) al] by auto
    then show ?thesis
      using True False i w m1 qs(1) c1 zero by (auto simp: parse_wq_key_def step_ok_def keeps_parent_def Let_def)
  qed (use True i w c in \<open>simp add: parse_wq_key_def keeps_parent_def\<close>)
qed (auto simp: parse_wq_key_def keeps_parent_def assms(3) split: option.split)

lemma parse_engine_group_key_ok:
  assumes "ready os ctx m" "conf_ok m c" "cf_parent c \<noteq> 0"
  shows "step_ok m (parse_engine_key os parsed (m, c)) \<and> keeps_parent c (parse_engine_key os parsed (m, c))"
    and "step_ok m (parse_group_key os parsed (m, c)) \<and> keeps_parent c (parse_group_key os parsed (m, c))"
proof -
  obtain dv where dv: "devices m (cf_parent c) = Some dv" "device_done m dv" using parent_done [OF assms(2,3)] by blast
  show "step_ok m (parse_engine_key os parsed (m, c)) \<and> keeps_parent c (parse_engine_key os parsed (m, c))"
  proof (cases "scan_child_id ''engine'' parsed")
    case (Some i)
    obtain e where e: "accfg_device_engine_get_by_id os (cf_parent c) i m = Some (e, m)" "e \<noteq> 0 \<longrightarrow> engines m e \<noteq> None"
      using children_by_id(2) [OF assms(1) dv] by blast
    then have "conf_ok m (c\<lparr>cf_engine := e\<rparr>)" using assms(2) by (simp add: conf_ok_def)
    with Some e assms(2) show ?thesis by (simp add: parse_engine_key_def keeps_parent_def)
  qed (simp add: parse_engine_key_def keeps_parent_def assms(2))
  show "step_ok m (parse_group_key os parsed (m, c)) \<and> keeps_parent c (parse_group_key os parsed (m, c))"
  proof (cases "scan_child_id ''group'' parsed")
    case (Some i)
    obtain g where g: "accfg_device_group_get_by_id os (cf_parent c) i m = Some (g, m)" "g \<noteq> 0 \<longrightarrow> groups m g \<noteq> None"
      using children_by_id(3) [OF assms(1) dv] by blast
    then have "conf_ok m (c\<lparr>cf_group := g\<rparr>)" using assms(2) by (simp add: conf_ok_def)
    with Some g assms(2) show ?thesis by (simp add: parse_group_key_def keeps_parent_def)
  qed (simp add: parse_group_key_def keeps_parent_def assms(2))
qed

text \<open>Steps that each keep the state and the pointers, one after the other.\<close>

lemma until_code_ok:
  assumes "\<forall>f \<in> set fs. \<forall>m c. ready os ctx m \<longrightarrow> conf_ok m c \<longrightarrow> cf_parent c \<noteq> 0 \<longrightarrow> step_ok m (f (m, c)) \<and> keeps_parent c (f (m, c))"
    and "ready os ctx m" "conf_ok m c" "cf_parent c \<noteq> 0"
  shows "step_ok m (until_code fs (m, c))"
  using assms
proof (induction fs arbitrary: m c)
  case (Cons f fs)
  then have f: "step_ok m (f (m, c))" "keeps_parent c (f (m, c))" by auto
  then obtain r m1 c1 where r: "f (m, c) = Some (r, m1, c1)" "steady m m1" "conf_ok m1 c1" by (auto simp: step_ok_def wp_iff)
  have "cf_parent c1 \<noteq> 0" using f(2) r(1) Cons.prems(4) by (simp add: keeps_parent_def)
  with Cons.IH [OF _ ready_steady [OF Cons.prems(2) r(2)] r(3)] Cons.prems(1) have "step_ok m1 (until_code fs (m1, c1))" by simp
  then have "step_ok m (until_code fs (m1, c1))" by (rule step_ok_after [OF r(2)])
  moreover have "step_ok m (Some (x, m1, c1))" for x :: int using r by (simp add: step_ok_def)
  ultimately show ?case using r(1) by (cases r) simp_all
qed simp

lemma configure_dev_ok:
  assumes "os_ok os" "ready os ctx m" "conf_ok m c"
  shows "step_ok m (configure_dev os ctx parsed (m, c))"
proof -
  let ?c = "c\<lparr>cf_dev := 0, cf_group := 0, cf_wq := 0, cf_engine := 0\<rparr>"
  have "conf_ok m ?c" using assms(3) by (simp add: conf_ok_def)
  from parse_dev_loop_ok [OF assms(1,2) this, of parsed accel_types] obtain r m1 c1
    where r: "parse_dev_loop os ctx parsed accel_types (m, ?c) = Some (r, m1, c1)" "steady m m1" "conf_ok m1 c1"
    by (auto simp: step_ok_def wp_iff)
  have "step_ok m1 (until_code [parse_wq_key os parsed, parse_engine_key os parsed, parse_group_key os parsed] (m1, c1))" if "cf_parent c1 \<noteq> 0"
    by (rule until_code_ok [where os = os and ctx = ctx, OF _ ready_steady [OF assms(2) r(2)] r(3) that])
      (use parse_wq_key_ok [where ctx = ctx, OF assms(1)] parse_engine_group_key_ok [where os = os and ctx = ctx] in auto)
  then have "step_ok m (until_code [parse_wq_key os parsed, parse_engine_key os parsed, parse_group_key os parsed] (m1, c1))" if "cf_parent c1 \<noteq> 0"
    using step_ok_after [OF r(2)] that by blast
  moreover have "step_ok m (Some (x, m1, c1))" for x :: int using r by (simp add: step_ok_def)
  moreover have "configure_dev os ctx parsed (m, c) = (case r of Some rc \<Rightarrow> Some (rc, m1, c1)
      | None \<Rightarrow> if cf_parent c1 = 0 then Some (0, m1, c1)
          else until_code [parse_wq_key os parsed, parse_engine_key os parsed, parse_group_key os parsed] (m1, c1))"
    by (simp add: configure_dev_def r(1) split: option.split)
  ultimately show ?thesis by (simp split: option.split)
qed

lemma conf_ok_default [simp]: "conf_ok m (upd_conf_def_wq_param type f c) = conf_ok m c"
  by (simp add: upd_conf_def_wq_param_def conf_ok_def)

lemma config_default_json_ok:
  assumes "ready os ctx m" "conf_ok m c" "wqs m w = Some q" "texts_short js v"
  shows "wp (config_default_json os js w v key (m, c)) (\<lambda>(m', c'). steady m m' \<and> conf_ok m' c')"
proof -
  obtain dv where d: "devices m (wq_device q) = Some dv" using wf_wq(2) [OF readyD(1) [OF assms(1)] assms(3)] by blast
  obtain s where s: "js_string js v = Some s" using assms(4) by (auto simp: texts_short_def)
  have "conf_ok (snd (sys_alloc os m)) c" by (rule conf_ok_steady [OF assms(2)]) simp
  then show ?thesis
    using assms(2,3) d s
    by (simp add: config_default_json_def accfg_wq_get_device_def accfg_device_get_type_def strdup_def Let_def case_prod_beta)
qed

lemma configure_attr_ok:
  assumes "os_ok os" "alloc_ok os" "ready os ctx m" "conf_ok m c" "texts_short js v"
  shows "step_ok m (configure_attr os js v key (m, c))"
proof -
  have ret: "step_ok m (do { (rc, m) \<leftarrow> r; Some (if rc < 0 then rc else 0, m, c) })"
    if "wp r (\<lambda>(_, m'). steady m m')" for r :: "('a, int) run"
    using that by (rule step_ok_run) (simp add: conf_ok_steady [OF assms(4)])
  consider "cf_parent c = 0" | (w) q where "cf_parent c \<noteq> 0" "cf_wq c \<noteq> 0" "cf_default_file c" "wqs m (cf_wq c) = Some q"
    | (set) "cf_parent c \<noteq> 0" "\<not> (cf_wq c \<noteq> 0 \<and> cf_default_file c)"
    using assms(4) unfolding conf_ok_def by blast
  then show ?thesis
  proof cases
    case w
    from config_default_json_ok [OF assms(3,4) w(4) assms(5), of key] w show ?thesis
      by (auto simp: configure_attr_def step_ok_def wp_iff)
  next
    case set
    have "wp (device_json_set_val os js (cf_dev c) v key m) (\<lambda>(_, m'). steady m m')" if "cf_dev c \<noteq> 0"
      using device_json_set_val_calm [OF assms(1,5)] assms(3,4) that unfolding calm_def conf_ok_def by blast
    moreover have "wp (group_json_set_val os js (cf_group c) v key m) (\<lambda>(_, m'). steady m m')" if "cf_group c \<noteq> 0"
      using group_json_set_val_calm [OF assms(1,5)] assms(3,4) that unfolding calm_def conf_ok_def by blast
    moreover have "wp (wq_json_set_val os js (cf_wq c) v key m) (\<lambda>(_, m'). steady m m')" if "cf_wq c \<noteq> 0"
      using wq_json_set_val_calm [OF assms(1,2,5)] assms(3,4) that unfolding calm_def conf_ok_def by blast
    moreover have "wp (engine_json_set_val os js (cf_engine c) v key m) (\<lambda>(_, m'). steady m m')" if "cf_engine c \<noteq> 0"
      using engine_json_set_val_calm [OF assms(1,5)] assms(3,4) that unfolding calm_def conf_ok_def by blast
    ultimately have "wp (if cf_dev c \<noteq> 0 then device_json_set_val os js (cf_dev c) v key m
          else if cf_group c \<noteq> 0 then group_json_set_val os js (cf_group c) v key m
          else if cf_wq c \<noteq> 0 then wq_json_set_val os js (cf_wq c) v key m
          else if cf_engine c \<noteq> 0 then engine_json_set_val os js (cf_engine c) v key m
          else Some (- EINVAL, m)) (\<lambda>(_, m'). steady m m')" by simp
    from ret [OF this] set show ?thesis by (auto simp: configure_attr_def)
  qed (simp add: configure_attr_def assms(4))
qed

lemma configure_json_value_ok:
  assumes "os_ok os" "alloc_ok os" "ready os ctx m" "conf_ok m c" "texts_short js v"
  shows "step_ok m (configure_json_value os js ctx v key (m, c))"
  using configure_attr_ok [OF assms] configure_dev_ok [OF assms(1,3,4)] assms(4)
  by (simp add: configure_json_value_def split: option.split)

lemma activate_devices_ok:
  assumes "os_ok os" "ready os ctx m" "conf_ok m c"
  shows "step_ok m (activate_devices os (m, c))"
  unfolding activate_devices_def prod.case
proof (rule step_ok_run)
  show "wp (enable_all (accfg_device_enable os) (cf_activate_dev_list c) m) (\<lambda>(_, m'). steady m m')"
    by (rule enable_all_calm [where obj = devices and ctx = ctx and os = os, OF _ _ assms(2)])
      (use assms(3) device_control_calm [OF assms(1)] in \<open>auto simp: conf_ok_def accfg_device_enable_def [abs_def]\<close>)
  fix rc m1
  assume m1: "steady m m1"
  have c1: "conf_ok m1 c" by (rule conf_ok_steady [OF assms(3) m1])
  have "wp (enable_all (accfg_wq_enable os) (cf_activate_wq_list c) m1) (\<lambda>(_, m'). steady m1 m')"
    by (rule enable_all_calm [where obj = wqs and ctx = ctx and os = os, OF _ _ ready_steady [OF assms(2) m1]])
      (use c1 wq_control_calm [OF assms(1)] in \<open>auto simp: conf_ok_def accfg_wq_enable_def [abs_def]\<close>)
  then have "step_ok m1 (do { (rc, m) \<leftarrow> enable_all (accfg_wq_enable os) (cf_activate_wq_list c) m1; Some (rc, m, c) })"
    by (rule step_ok_run) (simp add: conf_ok_steady [OF c1])
  with c1 show "step_ok m1 (case (rc, m1) of (rc, m) \<Rightarrow> if rc \<noteq> 0 then Some (rc, m, c) else do {
      (rc, m) \<leftarrow> enable_all (accfg_wq_enable os) (cf_activate_wq_list c) m; Some (rc, m, c) })" by simp
qed


section \<open>Properties\<close>

text \<open>
  A value the loader can walk through: arrays and objects of any shape and depth up to the fuel, empty ones included, whose texts
  are short enough for every buffer.  An object inside an object takes its place for the members that follow (\<open>cur\<close>): where the
  walk looks up an array or an object it must find one, or nothing.
\<close>

fun members_walk :: "('v \<Rightarrow> bool) \<Rightarrow> ('v \<Rightarrow> bool) \<Rightarrow> 'v json_ops \<Rightarrow> (string \<times> 'v) list \<Rightarrow> 'v \<Rightarrow> bool" where
  "members_walk obj arr js [] cur = True"
| "members_walk obj arr js ((key, x) # ms) cur =
     (case js_type js x of
        json_type_null \<Rightarrow> members_walk obj arr js ms cur
      | json_type_object \<Rightarrow>
          (case map_of (js_members js cur) key of None \<Rightarrow> True | Some y \<Rightarrow> obj y \<and> members_walk obj arr js ms y)
      | json_type_array \<Rightarrow>
          (case map_of (js_members js cur) key of None \<Rightarrow> True | Some y \<Rightarrow> arr y \<and> members_walk obj arr js ms cur)
      | _ \<Rightarrow> texts_short js x \<and> members_walk obj arr js ms cur)"

fun object_walk :: "nat \<Rightarrow> 'v json_ops \<Rightarrow> 'v \<Rightarrow> bool" and array_walk :: "nat \<Rightarrow> 'v json_ops \<Rightarrow> 'v \<Rightarrow> bool" where
  "object_walk 0 js v = False"
| "object_walk (Suc n) js v \<longleftrightarrow> n \<noteq> 0 \<and> js_type js v = json_type_object \<and>
     members_walk (object_walk n js) (array_walk n js) js (js_members js v) v"
| "array_walk 0 js v = False"
| "array_walk (Suc n) js v \<longleftrightarrow> js_type js v = json_type_array \<and>
     (\<forall>x \<in> set (js_elements js v). case js_type js x of
        json_type_object \<Rightarrow> object_walk n js x | json_type_array \<Rightarrow> array_walk n js x | _ \<Rightarrow> True)"

text \<open>A text that is no JSON, or that of such an array.\<close>

definition text_loadable :: "nat \<Rightarrow> 'v json_ops \<Rightarrow> string \<Rightarrow> bool" where
  "text_loadable fuel js s \<longleftrightarrow> (case js_parse js s of None \<Rightarrow> True | Some v \<Rightarrow> array_walk fuel js v)"

lemma json_loop_ok:
  assumes "\<And>x m c. x \<in> set xs \<Longrightarrow> ready os ctx m \<Longrightarrow> conf_ok m c \<Longrightarrow> step_ok m (body x (m, c))"
    and "ready os ctx m" "conf_ok m c"
  shows "step_ok m (json_loop body xs (m, c))"
  using assms
proof (induction xs arbitrary: m c)
  case (Cons x xs)
  then have "step_ok m (body x (m, c))" by simp
  then obtain go m1 c1 where m1: "body x (m, c) = Some (go, m1, c1)" "steady m m1" "conf_ok m1 c1" by (auto simp: step_ok_def wp_iff)
  have "step_ok m1 (json_loop body xs (m1, c1))"
    using Cons.IH [OF Cons.prems(1) ready_steady [OF Cons.prems(2) m1(2)] m1(3)] by simp
  then have "step_ok m (json_loop body xs (m1, c1))" by (rule step_ok_after [OF m1(2)])
  moreover have "step_ok m (Some (-1 :: int, m1, c1))" using m1 by (simp add: step_ok_def)
  ultimately show ?case using m1(1) by simp
qed simp

lemma step_ok_code: "step_ok m r \<Longrightarrow> step_ok m (do { (rc, s) \<leftarrow> r; Some (f rc, s) })"
  by (auto simp: step_ok_def wp_iff)

text \<open>The members of an object, with the object in which the next array or object is looked up.\<close>

definition keeps_ok :: "'k mach \<Rightarrow> ('x \<times> 'v \<times> 'k mach \<times> conf_state) option \<Rightarrow> bool" where
  "keeps_ok m r \<longleftrightarrow> wp r (\<lambda>(_, _, m', c'). steady m m' \<and> conf_ok m' c')"

lemma members_ok:
  assumes "os_ok os" "alloc_ok os" "n \<noteq> 0"
    and obj: "\<And>y m c. obj y \<Longrightarrow> ready os ctx m \<Longrightarrow> conf_ok m c \<Longrightarrow> step_ok m (json_parse n os js ctx y (m, c))"
    and arr: "\<And>y m c. arr y \<Longrightarrow> ready os ctx m \<Longrightarrow> conf_ok m c \<Longrightarrow> step_ok m (json_parse_array n os js ctx y None (m, c))"
    and "members_walk obj arr js ms cur" "ready os ctx m" "conf_ok m c"
  shows "keeps_ok m (json_loop (\<lambda>(key, val) (jobj, s).
       case js_type js val of
         json_type_null \<Rightarrow> Some (True, jobj, s)
       | json_type_object \<Rightarrow>
           (case map_of (js_members js jobj) key of
              None \<Rightarrow> Some (False, jobj, s)
            | Some jobj \<Rightarrow> do { (_, s) \<leftarrow> json_parse n os js ctx jobj s; Some (True, jobj, s) })
       | json_type_array \<Rightarrow> do {
           (rc, s) \<leftarrow> json_parse_array n os js ctx jobj (Some key) s;
           Some (rc = 0, jobj, s)
         }
       | _ \<Rightarrow> do {
           (rc, s) \<leftarrow> configure_json_value os js ctx val (Some key) s;
           Some (rc = 0, jobj, s)
         }) ms (cur, m, c))" (is "keeps_ok m (json_loop ?body ms (cur, m, c))")
  using assms(6-8)
proof (induction ms arbitrary: cur m c)
  case (Cons p ms)
  obtain key x where p: "p = (key, x)" by (cases p)
  obtain n' where n: "n = Suc n'" using assms(3) by (cases n) auto
  have step: "keeps_ok m (json_loop ?body (p # ms) (cur, m, c))"
    if r: "?body p (cur, m, c) = Some (go, cur', m1, c1)" "steady m m1" "conf_ok m1 c1" "go \<Longrightarrow> members_walk obj arr js ms cur'" for go cur' m1 c1
  proof (cases go)
    case True
    have "keeps_ok m1 (json_loop ?body ms (cur', m1, c1))"
      by (rule Cons.IH [OF r(4) [OF True] ready_steady [OF Cons.prems(2) r(2)] r(3)])
    then show ?thesis using r(1,2) True steady_trans [OF r(2)] by (auto simp: keeps_ok_def p elim!: wp_mono)
  qed (use r in \<open>simp add: keeps_ok_def p\<close>)
  have val: "\<exists>go m1 c1. (do { (rc, s) \<leftarrow> configure_json_value os js ctx x (Some key) (m, c); Some (rc = 0, cur, s) }) = Some (go, cur, m1, c1) \<and>
      steady m m1 \<and> conf_ok m1 c1" if "texts_short js x"
    using configure_json_value_ok [OF assms(1,2) Cons.prems(2,3) that, of "Some key"] by (auto simp: step_ok_def wp_iff)
  show ?case
  proof (cases "js_type js x")
    case json_type_object
    show ?thesis
    proof (cases "map_of (js_members js cur) key")
      case None
      with json_type_object Cons.prems(3) show ?thesis by (intro step [of False cur m c]) (simp_all add: p)
    next
      case (Some y)
      then have y: "obj y" "members_walk obj arr js ms y" using Cons.prems(1) json_type_object p by simp_all
      obtain rc m1 c1 where "json_parse n os js ctx y (m, c) = Some (rc, m1, c1)" "steady m m1" "conf_ok m1 c1"
        using obj [OF y(1) Cons.prems(2,3)] by (auto simp: step_ok_def wp_iff)
      with json_type_object Some y(2) show ?thesis by (intro step [of True y m1 c1]) (simp_all add: p)
    qed
  next
    case json_type_array
    show ?thesis
    proof (cases "map_of (js_members js cur) key")
      case None
      then have "json_parse_array n os js ctx cur (Some key) (m, c) = Some (-1, m, c)" by (simp add: n json_parse_array.simps)
      with json_type_array Cons.prems(3) show ?thesis by (intro step [of False cur m c]) (simp_all add: p)
    next
      case (Some y)
      then have y: "arr y" "members_walk obj arr js ms cur" using Cons.prems(1) json_type_array p by simp_all
      obtain rc m1 c1 where "json_parse_array n os js ctx cur (Some key) (m, c) = Some (rc, m1, c1)" "steady m m1" "conf_ok m1 c1"
        using arr [OF y(1) Cons.prems(2,3)] unfolding json_parse_array_key [OF Some] by (auto simp: step_ok_def wp_iff)
      with json_type_array y(2) show ?thesis by (intro step [of "rc = 0" cur m1 c1]) (simp_all add: p)
    qed
  next
    case json_type_null
    with Cons.prems show ?thesis by (intro step [of True cur m c]) (simp_all add: p)
  qed (use Cons.prems(1) val p step in \<open>fastforce+\<close>)
qed (simp add: keeps_ok_def)

lemma walk_ok:
  assumes "os_ok os" "alloc_ok os"
  shows "object_walk n js v \<Longrightarrow> ready os ctx m \<Longrightarrow> conf_ok m c \<Longrightarrow> step_ok m (json_parse n os js ctx v (m, c))"
    and "array_walk n js v \<Longrightarrow> ready os ctx m \<Longrightarrow> conf_ok m c \<Longrightarrow> step_ok m (json_parse_array n os js ctx v None (m, c))"
proof (induction n arbitrary: v m c)
  case (Suc n)
  {
    case 1
    then have n: "n \<noteq> 0" "js_type js v = json_type_object" "members_walk (object_walk n js) (array_walk n js) js (js_members js v) v" by simp_all
    from members_ok [OF assms n(1) Suc.IH(1) Suc.IH(2) n(3) 1(2,3)] show ?case
      using n(2) by (auto simp: json_parse.simps step_ok_def keeps_ok_def wp_iff)
  next
    case 2
    have val: "step_ok m (configure_json_value os js ctx x None (m, c))" if "conf_ok m c" for x m c
      using that by (simp add: configure_json_value_def)
    have elem: "object_walk n js x" if "x \<in> set (js_elements js v)" "js_type js x = json_type_object" for x
      using 2(1) that by (auto dest: bspec)
    have elem': "array_walk n js x" if "x \<in> set (js_elements js v)" "js_type js x = json_type_array" for x
      using 2(1) that by (auto dest: bspec)
    have "js_type js v = json_type_array" using 2(1) by simp
    with 2(2,3) show ?case
      by (auto simp: json_parse_array.simps intro!: json_loop_ok [where os = os and ctx = ctx] step_ok_code Suc.IH val
          split: json_type.split dest: elem elem')
  }
qed simp_all

lemma parse_config_ok:
  assumes "os_ok os" "alloc_ok os" "ready os ctx m" "conf_ok m c" "\<forall>buf. cf_buf c = Some buf \<longrightarrow> text_loadable fuel js (buffer_text js buf)"
  shows "step_ok m (parse_config fuel os js ctx (m, c))"
proof (cases "cf_buf c")
  case (Some buf)
  then have l: "text_loadable fuel js (buffer_text js buf)" using assms(5) by simp
  show ?thesis
  proof (cases "js_parse js (buffer_text js buf)")
    case (Some v)
    then have "step_ok m (json_parse_array fuel os js ctx v None (m, c))"
      using l by (intro walk_ok(2) [OF assms(1,2) _ assms(3,4)]) (simp add: text_loadable_def)
    from step_ok_code [OF this, of "\<lambda>rc. if rc < 0 then rc else 0"] show ?thesis
      using \<open>cf_buf c = Some buf\<close> Some by (simp add: parse_config_def)
  qed (use Some assms(4) in \<open>simp_all add: parse_config_def\<close>)
qed (simp add: parse_config_def assms(4))

lemma read_config_file_ok:
  assumes "conf_ok m c" "cf_buf c = None"
  shows "wp (read_config_file os fo F config_file (m, c)) (\<lambda>(_, m', c'). steady m m' \<and> conf_ok m' c' \<and>
    (\<forall>buf. cf_buf c' = Some buf \<longrightarrow> (\<exists>n k. buf = fo_read fo (case config_file of Some f \<Rightarrow> f | None \<Rightarrow> F) n k)))"
proof -
  let ?m1 = "snd (sys_alloc os m)"
  let ?m2 = "snd (sys_alloc os ?m1)"
  have frames: "steady m ?m1" "steady m ?m2" "steady m (?m1\<lparr>errno := e\<rparr>)" for e by (simp_all add: sys_only_def)
  have ok: "conf_ok ?m1 c" "conf_ok ?m2 c" "conf_ok (?m1\<lparr>errno := e\<rparr>) c" for e by (rule conf_ok_steady [OF assms(1) frames(1)] conf_ok_steady [OF assms(1) frames(2)] conf_ok_steady [OF assms(1) frames(3)])+
  have buf: "conf_ok m' (c\<lparr>cf_buf := b\<rparr>) = conf_ok m' c" for m' :: "'a mach" and b by (simp add: conf_ok_def)
  show ?thesis
    using frames ok assms(2)
    by (auto simp: read_config_file_def case_prod_beta Let_def buf split: option.split sum.split)
qed

text \<open>
  C7: loading a configuration is defined, ends and keeps the object graph well-formed: on a scanned context whose queues show a
  mode and whose names and paths have fewer than 1000 characters, for whatever file, whatever devices, queues and attributes it names and
  whatever the kernel answers, with or without \<open>--enable\<close> and \<open>--forced\<close>, as long as memory does not run out and the text in memory
  (the file with what follows the buffer) is no JSON, or a JSON array of arrays and objects of any shape in which no member that is an array or
  object is found as anything else and no text has 1000 characters.  The devices, groups, queues and engines and their places
  stay what they were.
\<close>

theorem config_load_safe:
  assumes "os_ok os" "alloc_ok os" "ready os ctx m"
    and "\<forall>n k. text_loadable fuel js (buffer_text js (fo_read fo (case config_file of Some f \<Rightarrow> f | None \<Rightarrow> F) n k))"
  shows "wp (config_load fuel os fo F js config_file ctx (m, conf_start enable forced))
     (\<lambda>(_, m', _). wf_state m' \<and> ready os ctx m' \<and> shape m' = shape m)"
proof -
  have "conf_ok m (conf_start enable forced)" "cf_buf (conf_start enable forced) = None" by (simp_all add: conf_ok_def conf_start_def)
  from read_config_file_ok [OF this, of os fo F config_file] obtain rc m1 c1
    where r: "read_config_file os fo F config_file (m, conf_start enable forced) = Some (rc, m1, c1)" "steady m m1" "conf_ok m1 c1"
      "\<forall>buf. cf_buf c1 = Some buf \<longrightarrow> text_loadable fuel js (buffer_text js buf)"
    using assms(4) by (fastforce simp: wp_iff)
  have m1: "ready os ctx m1" by (rule ready_steady [OF assms(3) r(2)])
  from parse_config_ok [OF assms(1,2) m1 r(3,4)] obtain rc' m2 c2
    where p: "parse_config fuel os js ctx (m1, c1) = Some (rc', m2, c2)" "steady m1 m2" "conf_ok m2 c2" by (auto simp: step_ok_def wp_iff)
  have m2: "ready os ctx m2" "steady m m2" by (rule ready_steady [OF m1 p(2)], rule steady_trans [OF r(2) p(2)])
  have "step_ok m2 (if cf_enable c2 \<and> rc' = 0 then activate_devices os (m2, c2) else Some (rc', m2, c2))"
    using activate_devices_ok [OF assms(1) m2(1) p(3)] p(3) by simp
  then have "wp (config_load fuel os fo F js config_file ctx (m, conf_start enable forced)) (\<lambda>(_, m', _). steady m2 m')"
    using r(1) p(1) by (auto simp: config_load_def step_ok_def elim!: wp_mono)
  then show ?thesis
    by (rule wp_mono) (use m2 ready_steady readyD(1) steadyD(1) in \<open>fastforce dest: steady_trans\<close>)
qed

text \<open>A kernel whose attributes all open and read, on the example.\<close>

definition load_os :: "fs os" where
  "load_os = fs_os\<lparr>os_open := \<lambda>p f k. None, os_read := \<lambda>p n k. Inr (case map_of (fs_files k) p of None \<Rightarrow> ''0'' | Some [] \<Rightarrow> ''0'' | Some s \<Rightarrow> take n s)\<rparr>"

lemma load_os_ok: "os_ok load_os" "alloc_ok load_os"
proof -
  have same: "os_write load_os = os_write fs_os" "os_access load_os = os_access fs_os" "os_realpath load_os = os_realpath fs_os" "os_alloc load_os = os_alloc fs_os"
    by (simp_all add: load_os_def fs_os_def)
  have op: "(os_open load_os p f k = Some e) = False" and rd: "(os_read load_os p n k = Inl e) = False" for p f k n e
    by (simp_all add: load_os_def)
  show "os_ok load_os" using fs_os_ok(1) unfolding os_ok_def same op rd by (intro conjI; blast)
  show "alloc_ok load_os" using fs_os_ok(2) by (simp add: alloc_ok_def same)
qed

lemma ex_ready: "ready load_os 1 (ex_mach k)"
proof -
  have "mode_reads load_os ''/d/dsa0/wq0.0''"
    by (auto simp: mode_reads_def load_os_def MAX_PARAM_LEN_def split: option.split list.split)
  moreover have "\<exists>cx. discovered (ex_mach k) 1 cx" using ex_discovered by (rule exI)
  ultimately show ?thesis
    using ex_mach_wf unfolding ready_def by (simp add: short_driver_def) (simp add: ex_wq_def ex_dev_def)
qed

definition ex_file :: "fs file_ops" where
  "ex_file = \<lparr>fo_open = \<lambda>_ _. None, fo_stat_size = \<lambda>_ _. Inr 3, fo_read = \<lambda>_ n _. replicate n (CHR ''.'')\<rparr>"

theorem config_load_safe_witness:
  "wp (config_load 5 load_os ex_file ''/etc/accel.conf'' (ex_js ex_config) None 1 (ex_mach ex_fs, conf_start True True))
     (\<lambda>(_, m', _). wf_state m' \<and> ready load_os 1 m' \<and> shape m' = shape (ex_mach ex_fs))"
proof -
  have "texts_short (ex_js ex_config) (JStr s)" if "length s < 1000" for s using that by (simp add: texts_short_def ex_js_def)
  moreover have "texts_short (ex_js ex_config) (JInt i)" for i by (simp add: texts_short_def ex_js_def)
  moreover have "js_type (ex_js ex_config) (JArr xs) = json_type_array" "js_type (ex_js ex_config) (JObj ms) = json_type_object"
    "js_type (ex_js ex_config) (JStr s) = json_type_string" "js_type (ex_js ex_config) (JInt i) = json_type_int"
    "js_elements (ex_js ex_config) (JArr xs) = xs" "distinct (map fst ms) \<Longrightarrow> js_members (ex_js ex_config) (JObj ms) = ms" for xs ms s i
    by (simp_all add: ex_js_def)
  ultimately have "array_walk 5 (ex_js ex_config) ex_config" by (simp add: ex_config_def numeral_eq_Suc)
  then have "text_loadable 5 (ex_js ex_config) s" for s by (simp add: text_loadable_def) (simp add: ex_js_def)
  then show ?thesis by (intro config_load_safe [OF load_os_ok ex_ready]) simp
qed

end
