(* ===== verification/Saved_Config.thy ===== *)
theory Saved_Config
  imports Saved_Wq Load_Safe
begin

text \<open>
  A whole saved configuration, loaded again by \<open>src/accfg/config.c\<close>: the objects of the groups, work queues and engines of
  a device, one after the other in any order, each restoring the object it names and nothing else.
\<close>

section \<open>Names\<close>

definition child_name :: "string \<Rightarrow> int \<Rightarrow> int \<Rightarrow> string" where
  "child_name kind a i = kind @ show_int a @ ''.'' @ show_int i"

lemma child_name_wq: "child_name ''wq'' a i = wq_name_of a i"
  by (simp add: child_name_def wq_name_of_def)

lemma child_name_strstr:
  assumes "kind = ''engine'' \<or> kind = ''group''"
  shows "strstr (child_name kind a i) kind" "\<not> strstr (child_name kind a i) ''dsa''" "\<not> strstr (child_name kind a i) ''iax''"
    "\<not> strstr (child_name kind a i) ''wq''" "kind = ''group'' \<Longrightarrow> \<not> strstr (child_name kind a i) ''engine''"
    "kind = ''engine'' \<Longrightarrow> \<not> strstr (child_name kind a i) ''group''"
proof -
  show "strstr (child_name kind a i) kind" unfolding child_name_def by (rule strstr_append)
  have no: "c \<notin> set (child_name kind a i)" if "is_lower c" "c \<notin> set kind" for c
    using that show_int_not_lower by (auto simp: child_name_def is_lower_def)
  show "\<not> strstr (child_name kind a i) ''dsa''" "\<not> strstr (child_name kind a i) ''iax''" "\<not> strstr (child_name kind a i) ''wq''"
    "kind = ''group'' \<Longrightarrow> \<not> strstr (child_name kind a i) ''engine''" "kind = ''engine'' \<Longrightarrow> \<not> strstr (child_name kind a i) ''group''"
    using assms strstr_needs [OF _ no, of "CHR ''d''"] strstr_needs [OF _ no, of "CHR ''x''"] strstr_needs [OF _ no, of "CHR ''w''"]
      strstr_needs [OF _ no, of "CHR ''e''"] strstr_needs [OF _ no, of "CHR ''r''"]
    by (auto simp: is_lower_def)
qed

lemma scan_child_id_name: "scan_child_id kind (child_name kind a i) = Some (s32 (long_sat i))"
  using scan_d_show_int [of "''.'' @ show_int i" a]
  by (simp add: scan_child_id_def child_name_def scan_lit_def num_stop_def scan_d_show_int_end digit_val_def)


section \<open>Lookups\<close>

context child_list
begin

lemma child_by_id_exact:
  assumes "wf_state m" "devices m d = Some dv" "device_done m dv"
    and number: "\<And>p. p \<in> set (parts dv) \<Longrightarrow> \<exists>x. number p m = Some x"
  shows "do { (p, m) \<leftarrow> first os d m; dv \<leftarrow> devices m d;
       r \<leftarrow> find_from (length (parts dv)) (\<lambda>p. id_is i (number p m)) (\<lambda>p. step p m) p; Some (r, m) } =
     Some (case List.find (\<lambda>p. number p m = Some i) (parts dv) of None \<Rightarrow> 0 | Some p \<Rightarrow> p, m)"
proof -
  have ps: "distinct ([] @ parts dv)" "0 \<notin> set (parts dv)" using parts_wf [OF assms(1,2)] by auto
  have "\<forall>p \<in> set (parts dv). id_is i (number p m) = Some (number p m = Some i) \<and> step p m = list_next ([] @ parts dv) p"
    using number step_list [OF assms(1,2)] by (fastforce simp: id_is_def)
  from find_from_list [OF ps this] first_done [OF assms(2,3)] assms(2) show ?thesis by simp
qed

end

lemma find_only:
  assumes "p \<in> set ps" "inj_on f (set ps)"
  shows "List.find (\<lambda>q. f q = f p) ps = Some p"
proof (cases "List.find (\<lambda>q. f q = f p) ps")
  case None
  then show ?thesis using assms(1) by (auto simp: find_None_iff)
next
  case (Some q)
  then have "q \<in> set ps" "f q = f p" by (auto simp: find_Some_iff)
  then show ?thesis using Some inj_onD [OF assms(2)] assms(1) by blast
qed

text \<open>The children of a device have different numbers, each an \<open>int\<close>.\<close>

definition numbered :: "'k mach \<Rightarrow> accfg_device \<Rightarrow> bool" where
  "numbered m dv \<longleftrightarrow>
     inj_on (\<lambda>g. map_option grp_id (groups m g)) (set (dev_groups dv)) \<and>
     inj_on (\<lambda>w. map_option wq_id (wqs m w)) (set (dev_wqs dv)) \<and>
     inj_on (\<lambda>e. map_option eng_id (engines m e)) (set (dev_engines dv)) \<and>
     (\<forall>g i. map_option grp_id (groups m g) = Some i \<longrightarrow> s32 i = i) \<and>
     (\<forall>w i. map_option wq_id (wqs m w) = Some i \<longrightarrow> s32 i = i) \<and>
     (\<forall>e i. map_option eng_id (engines m e) = Some i \<longrightarrow> s32 i = i)"

lemma s32_long_sat: "s32 i = i \<Longrightarrow> s32 (long_sat i) = i"
  using s32_bounds [of i] by (simp add: long_sat_def c_limits)

lemma numberedD:
  assumes "numbered m dv"
  shows "groups m g = Some gr \<Longrightarrow> s32 (long_sat (grp_id gr)) = grp_id gr" "wqs m w = Some wq \<Longrightarrow> s32 (long_sat (wq_id wq)) = wq_id wq"
    "engines m e = Some en \<Longrightarrow> s32 (long_sat (eng_id en)) = eng_id en"
    "inj_on (\<lambda>g. map_option grp_id (groups m g)) (set (dev_groups dv))" "inj_on (\<lambda>w. map_option wq_id (wqs m w)) (set (dev_wqs dv))"
    "inj_on (\<lambda>e. map_option eng_id (engines m e)) (set (dev_engines dv))"
proof -
  note ids = assms [unfolded numbered_def]
  show "s32 (long_sat (grp_id gr)) = grp_id gr" if "groups m g = Some gr" using ids that by (intro s32_long_sat) (metis option.simps(9))
  show "s32 (long_sat (wq_id wq)) = wq_id wq" if "wqs m w = Some wq" using ids that by (intro s32_long_sat) (metis option.simps(9))
  show "s32 (long_sat (eng_id en)) = eng_id en" if "engines m e = Some en" using ids that by (intro s32_long_sat) (metis option.simps(9))
  show "inj_on (\<lambda>g. map_option grp_id (groups m g)) (set (dev_groups dv))" "inj_on (\<lambda>w. map_option wq_id (wqs m w)) (set (dev_wqs dv))"
    "inj_on (\<lambda>e. map_option eng_id (engines m e)) (set (dev_engines dv))" using ids by blast+
qed

lemma child_of_number:
  assumes "wf_state m" "devices m d = Some dv" "device_done m dv" "numbered m dv"
  shows "w \<in> set (dev_wqs dv) \<Longrightarrow> wqs m w = Some wq \<Longrightarrow>
      List.find (\<lambda>w. map_option wq_id (wqs m w) = Some (s32 (long_sat (wq_id wq)))) (dev_wqs dv) = Some w"
    and "g \<in> set (dev_groups dv) \<Longrightarrow> groups m g = Some gr \<Longrightarrow> accfg_device_group_get_by_id os d (s32 (long_sat (grp_id gr))) m = Some (g, m)"
    and "e \<in> set (dev_engines dv) \<Longrightarrow> engines m e = Some en \<Longrightarrow> accfg_device_engine_get_by_id os d (s32 (long_sat (eng_id en))) m = Some (e, m)"
proof -
  show "List.find (\<lambda>w. map_option wq_id (wqs m w) = Some (s32 (long_sat (wq_id wq)))) (dev_wqs dv) = Some w" if "w \<in> set (dev_wqs dv)" "wqs m w = Some wq"
    using find_only [OF that(1) numberedD(5) [OF assms(4)]] numberedD(2) [OF assms(4)] that(2) by simp
  have number: "accfg_group_get_id p m = map_option grp_id (groups m p)" "accfg_engine_get_id p m = map_option eng_id (engines m p)" for p
    by (simp_all add: accfg_group_get_id_def accfg_engine_get_id_def map_option_case split: option.split)
  have g: "\<exists>x. accfg_group_get_id p m = Some x" if "p \<in> set (dev_groups dv)" for p
    using linked_part [OF wfD(2) [OF assms(1)] assms(2) that] by (auto simp: number)
  have e: "\<exists>x. accfg_engine_get_id p m = Some x" if "p \<in> set (dev_engines dv)" for p
    using linked_part [OF wfD(4) [OF assms(1)] assms(2) that] by (auto simp: number)
  show "accfg_device_group_get_by_id os d (s32 (long_sat (grp_id gr))) m = Some (g, m)" if "g \<in> set (dev_groups dv)" "groups m g = Some gr"
    using find_only [OF that(1) numberedD(4) [OF assms(4)]] numberedD(1) [OF assms(4)] that(2)
      group_list.child_by_id_exact [where number = accfg_group_get_id and os = os, OF assms(1-3) g]
    by (simp add: accfg_device_group_get_by_id_def number)
  show "accfg_device_engine_get_by_id os d (s32 (long_sat (eng_id en))) m = Some (e, m)" if "e \<in> set (dev_engines dv)" "engines m e = Some en"
    using find_only [OF that(1) numberedD(6) [OF assms(4)]] numberedD(3) [OF assms(4)] that(2)
      engine_list.child_by_id_exact [where number = accfg_engine_get_id and os = os, OF assms(1-3) e]
    by (simp add: accfg_device_engine_get_by_id_def number)
qed

lemma load_child_name:
  assumes "wf_state m" "devices m (cf_parent c) = Some dv" "device_done m dv" "numbered m dv"
  shows "g \<in> set (dev_groups dv) \<Longrightarrow> groups m g = Some gr \<Longrightarrow> configure_dev os ctx (child_name ''group'' a (grp_id gr)) (m, c) =
      Some (0, m, c\<lparr>cf_dev := 0, cf_group := g, cf_wq := 0, cf_engine := 0\<rparr>)"
    and "e \<in> set (dev_engines dv) \<Longrightarrow> engines m e = Some en \<Longrightarrow> configure_dev os ctx (child_name ''engine'' a (eng_id en)) (m, c) =
      Some (0, m, c\<lparr>cf_dev := 0, cf_group := 0, cf_wq := 0, cf_engine := e\<rparr>)"
    and "w \<in> set (dev_wqs dv) \<Longrightarrow> wqs m w = Some wq \<Longrightarrow> attr_reads os (wq_path wq @ ''/state'') ''disabled'' (kern m) \<Longrightarrow> \<not> cf_enable c \<Longrightarrow>
      configure_dev os ctx (child_name ''wq'' a (wq_id wq)) (m, c) = Some (0, m, c\<lparr>cf_dev := 0, cf_group := 0, cf_wq := w, cf_engine := 0\<rparr>)"
proof -
  have p: "cf_parent c \<noteq> 0" by (rule wf_device(3) [OF assms(1,2)])
  show "configure_dev os ctx (child_name ''group'' a (grp_id gr)) (m, c) = Some (0, m, c\<lparr>cf_dev := 0, cf_group := g, cf_wq := 0, cf_engine := 0\<rparr>)"
    if "g \<in> set (dev_groups dv)" "groups m g = Some gr"
    using child_of_number(2) [OF assms that, of os] wf_group(3) [OF assms(1) that(2)] p child_name_strstr [of "''group''" a "grp_id gr"]
    by (simp add: configure_dev_def parse_dev_loop_none parse_wq_key_def parse_engine_key_def parse_group_key_def scan_child_id_name)
  show "configure_dev os ctx (child_name ''engine'' a (eng_id en)) (m, c) = Some (0, m, c\<lparr>cf_dev := 0, cf_group := 0, cf_wq := 0, cf_engine := e\<rparr>)"
    if "e \<in> set (dev_engines dv)" "engines m e = Some en"
    using child_of_number(3) [OF assms that, of os] wf_engine(3) [OF assms(1) that(2)] p child_name_strstr [of "''engine''" a "eng_id en"]
    by (simp add: configure_dev_def parse_dev_loop_none parse_wq_key_def parse_engine_key_def parse_group_key_def scan_child_id_name)
  show "configure_dev os ctx (child_name ''wq'' a (wq_id wq)) (m, c) = Some (0, m, c\<lparr>cf_dev := 0, cf_group := 0, cf_wq := w, cf_engine := 0\<rparr>)"
    if "w \<in> set (dev_wqs dv)" "wqs m w = Some wq" "attr_reads os (wq_path wq @ ''/state'') ''disabled'' (kern m)" "\<not> cf_enable c"
    unfolding child_name_wq by (rule load_wq_any_device [OF assms(1-3) child_of_number(1) [OF assms that(1,2)] that(2-4)])
qed


section \<open>What a configuration holds and what loading it does\<close>

text \<open>
  A saved object, with the object that its name finds when it is loaded: the attributes of a device, of a group, of a
  queue with its mode, name and operations, and the group of an engine.
\<close>

datatype saved_part =
    Device_section ptr accfg_device
  | Group_section ptr accfg_group
  | Queue_section ptr string accfg_wq string "int \<times> int list"
  | Engine_section ptr int

definition saved_device :: "accfg_device \<Rightarrow> (string \<times> jnew) list" where
  "saved_device x = (if dev_type x = ACCFG_DEVICE_IAX then [] else [(''read_buffer_limit'', New_int (dev_read_buffer_limit x))]) @
     (if 0 \<le> dev_event_log_size x then [(''event_log_size'', New_int (dev_event_log_size x))] else [])"

definition saved_engine :: "int \<Rightarrow> (string \<times> jnew) list" where
  "saved_engine gid = (if 0 \<le> gid then [(''group_id'', New_int gid)] else [])"

definition restored_device :: "accfg_device \<Rightarrow> accfg_device \<Rightarrow> accfg_device" where
  "restored_device x dv = dv\<lparr>
     dev_read_buffer_limit := (if dev_type x = ACCFG_DEVICE_IAX then dev_read_buffer_limit dv else dev_read_buffer_limit x),
     dev_event_log_size := (if 0 \<le> dev_event_log_size x then dev_event_log_size x else dev_event_log_size dv)\<rparr>"

fun section_pairs :: "'k mach \<Rightarrow> saved_part \<Rightarrow> (string \<times> jnew) list" where
  "section_pairs m (Device_section d x) = (''dev'', New_string (the (accfg_device_get_devname d m))) # saved_device x"
| "section_pairs m (Group_section g x) = (''dev'', New_string (the (accfg_group_get_devname g m))) # saved_numbers x"
| "section_pairs m (Queue_section w mode q name oc) =
     (''dev'', New_string (the (accfg_wq_get_devname w m))) # (''mode'', New_string mode) # saved_wq q name oc"
| "section_pairs m (Engine_section e gid) = (''dev'', New_string (the (accfg_engine_get_devname e m))) # saved_engine gid"

text \<open>The objects of the library, and what loading a section does to them.\<close>

type_synonym objects = "(ptr \<Rightarrow> accfg_device option) \<times> (ptr \<Rightarrow> accfg_group option) \<times> (ptr \<Rightarrow> accfg_wq option) \<times> (ptr \<Rightarrow> accfg_engine option)"

definition objects :: "'k mach \<Rightarrow> objects" where
  "objects m = (devices m, groups m, wqs m, engines m)"

fun load_section :: "saved_part \<Rightarrow> objects \<Rightarrow> objects" where
  "load_section (Device_section d x) (ds, gs, ws, es) = (ds(d := map_option (restored_device x) (ds d)), gs, ws, es)"
| "load_section (Group_section g x) (ds, gs, ws, es) =
     (ds, gs(g := map_option (\<lambda>gr. restored (u32 (dev_read_buffer_limit (the (ds (grp_device gr)))) \<noteq> 0) x gr) (gs g)), ws, es)"
| "load_section (Queue_section w mode q name oc) (ds, gs, ws, es) = (ds, gs, ws(w := map_option (restored_wq mode q name) (ws w)), es)"
| "load_section (Engine_section e gid) (ds, gs, ws, es) =
     (ds, gs, ws, es(e := map_option (\<lambda>en. if 0 \<le> gid then en\<lparr>eng_group_id := gid\<rparr> else en) (es e)))"

text \<open>The device that the children named next belong to.\<close>

fun parent_after :: "saved_part \<Rightarrow> ptr \<Rightarrow> ptr" where
  "parent_after (Device_section d x) p = d"
| "parent_after _ p = p"


section \<open>The states a configuration is loaded in\<close>

text \<open>
  The scans have been done, the children of every device are numbered, and where \<open>D\<close> holds of the kernel, which writing attributes
  keeps, the devices and the queues read as disabled.
\<close>

definition loadable :: "'k os \<Rightarrow> ptr \<Rightarrow> ('k \<Rightarrow> bool) \<Rightarrow> 'k mach \<Rightarrow> bool" where
  "loadable os ctx D m \<longleftrightarrow> wf_state m \<and> (\<exists>cx. discovered m ctx cx) \<and> D (kern m) \<and>
     (\<forall>d dv. devices m d = Some dv \<longrightarrow> device_done m dv \<and> numbered m dv \<and> (\<forall>k. D k \<longrightarrow> attr_reads os (dev_path dv @ ''/state'') ''disabled'' k)) \<and>
     (\<forall>w wq. wqs m w = Some wq \<longrightarrow> (\<forall>k. D k \<longrightarrow> attr_reads os (wq_path wq @ ''/state'') ''disabled'' k))"

lemma loadableD:
  assumes "loadable os ctx D m"
  shows "wf_state m" "\<exists>cx. discovered m ctx cx" "D (kern m)" "devices m d = Some dv \<Longrightarrow> numbered m dv"
    "devices m d = Some dv \<Longrightarrow> D k \<Longrightarrow> attr_reads os (dev_path dv @ ''/state'') ''disabled'' k"
    "wqs m w = Some wq \<Longrightarrow> D k \<Longrightarrow> attr_reads os (wq_path wq @ ''/state'') ''disabled'' k" "devices m d = Some dv \<Longrightarrow> device_done m dv"
  using assms unfolding loadable_def by blast+

text \<open>A section whose name is that of its object, a child of the device named before, with attributes as the kernel shows them.\<close>

definition device_numbers_ok :: "accfg_device \<Rightarrow> bool" where
  "device_numbers_ok x \<longleftrightarrow> 0 \<le> dev_read_buffer_limit x \<and> dev_read_buffer_limit x \<le> INT_MAX \<and> s32 (dev_event_log_size x) = dev_event_log_size x"

fun section_ok :: "'k os \<Rightarrow> ptr \<Rightarrow> ('k \<Rightarrow> bool) \<Rightarrow> 'k mach \<Rightarrow> ptr \<Rightarrow> saved_part \<Rightarrow> bool" where
  "section_ok os ctx D m p (Device_section d x) \<longleftrightarrow> device_numbers_ok x \<and>
     (\<exists>dv t i. devices m d = Some dv \<and> devpath_to_devname (dev_path dv) = Some (t @ show_int i) \<and> (t = ''dsa'' \<or> t = ''iax'') \<and>
        named accfg_device_get_devname (t @ show_int i) (c_devices (the (ctxs m ctx))) m = Some d \<and>
        (\<forall>k. D k \<longrightarrow> os_access os (dev_path dv @ ''/event_log_size'') k = None))"
| "section_ok os ctx D m p (Group_section g x) \<longleftrightarrow> group_numbers_ok x \<and>
     (\<exists>dv gr a. devices m p = Some dv \<and> dev_type dv \<noteq> ACCFG_DEVICE_IAX \<and> g \<in> set (dev_groups dv) \<and> groups m g = Some gr \<and>
        devpath_to_devname (grp_path gr) = Some (child_name ''group'' a (grp_id gr)) \<and>
        0 \<le> s32 (grp_desc_progress_limit gr) \<and> 0 \<le> s32 (grp_batch_progress_limit gr))"
| "section_ok os ctx D m p (Queue_section w mode q name oc) \<longleftrightarrow> wq_numbers_ok q \<and> wq_name q = Some name \<and>
     (\<exists>dv wq a K. devices m p = Some dv \<and> u32 (dev_configurable dv) \<noteq> 0 \<and> w \<in> set (dev_wqs dv) \<and> wqs m w = Some wq \<and>
        devpath_to_devname (wq_path wq) = Some (child_name ''wq'' a (wq_id wq)) \<and> kernel_ok os D (wq_path wq) mode K)"
| "section_ok os ctx D m p (Engine_section e gid) \<longleftrightarrow>
     (\<exists>dv en a. devices m p = Some dv \<and> e \<in> set (dev_engines dv) \<and> engines m e = Some en \<and>
        devpath_to_devname (eng_path en) = Some (child_name ''engine'' a (eng_id en)))"

fun sections_ok :: "'k os \<Rightarrow> ptr \<Rightarrow> ('k \<Rightarrow> bool) \<Rightarrow> 'k mach \<Rightarrow> ptr \<Rightarrow> saved_part list \<Rightarrow> bool" where
  "sections_ok os ctx D m p [] \<longleftrightarrow> True"
| "sections_ok os ctx D m p (s # ss) \<longleftrightarrow> section_ok os ctx D m p s \<and> sections_ok os ctx D m (parent_after s p) ss"

text \<open>What loading a section leaves as it was.\<close>

definition dev_frame :: "accfg_device \<Rightarrow> accfg_device" where
  "dev_frame dv = dv\<lparr>dev_read_buffer_limit := 0, dev_event_log_size := 0\<rparr>"

definition same_frame :: "'k mach \<Rightarrow> 'k mach \<Rightarrow> bool" where
  "same_frame m m' \<longleftrightarrow> ctxs m' = ctxs m \<and>
     (\<forall>d. map_option dev_frame (devices m' d) = map_option dev_frame (devices m d)) \<and>
     (\<forall>g. map_option (\<lambda>x. (grp_id x, grp_path x, grp_wqs_init x, grp_engines_init x,
          0 \<le> s32 (grp_desc_progress_limit x), 0 \<le> s32 (grp_batch_progress_limit x))) (groups m' g) =
        map_option (\<lambda>x. (grp_id x, grp_path x, grp_wqs_init x, grp_engines_init x,
          0 \<le> s32 (grp_desc_progress_limit x), 0 \<le> s32 (grp_batch_progress_limit x))) (groups m g)) \<and>
     (\<forall>w. map_option (\<lambda>x. (wq_id x, wq_path x)) (wqs m' w) = map_option (\<lambda>x. (wq_id x, wq_path x)) (wqs m w)) \<and>
     (\<forall>e. map_option (\<lambda>x. (eng_id x, eng_path x)) (engines m' e) = map_option (\<lambda>x. (eng_id x, eng_path x)) (engines m e))"

lemma dev_frameD:
  assumes "dev_frame dv' = dev_frame dv"
  shows "dev_path dv' = dev_path dv" "dev_groups dv' = dev_groups dv" "dev_wqs dv' = dev_wqs dv" "dev_engines dv' = dev_engines dv"
    "dev_group_init dv' = dev_group_init dv" "dev_group dv' = dev_group dv" "dev_type dv' = dev_type dv" "dev_configurable dv' = dev_configurable dv"
  using assms by (cases dv; cases dv'; simp add: dev_frame_def)+

lemma map_option_both: "map_option f x = map_option f y \<Longrightarrow> x = None \<and> y = None \<or> (\<exists>a b. x = Some a \<and> y = Some b \<and> f a = f b)"
  by (cases x; cases y) auto

lemma same_frameD:
  assumes "same_frame m m'"
  shows "ctxs m' = ctxs m"
    "devices m d = Some dv \<Longrightarrow> \<exists>dv'. devices m' d = Some dv' \<and> dev_frame dv' = dev_frame dv"
    "devices m' d = Some dv' \<Longrightarrow> \<exists>dv. devices m d = Some dv \<and> dev_frame dv' = dev_frame dv"
    "groups m g = Some gr \<Longrightarrow> \<exists>gr'. groups m' g = Some gr' \<and> grp_id gr' = grp_id gr \<and> grp_path gr' = grp_path gr \<and>
       grp_wqs_init gr' = grp_wqs_init gr \<and> grp_engines_init gr' = grp_engines_init gr \<and>
       (0 \<le> s32 (grp_desc_progress_limit gr')) = (0 \<le> s32 (grp_desc_progress_limit gr)) \<and>
       (0 \<le> s32 (grp_batch_progress_limit gr')) = (0 \<le> s32 (grp_batch_progress_limit gr))"
    "wqs m w = Some wq \<Longrightarrow> \<exists>wq'. wqs m' w = Some wq' \<and> wq_id wq' = wq_id wq \<and> wq_path wq' = wq_path wq"
    "wqs m' w = Some wq' \<Longrightarrow> \<exists>wq. wqs m w = Some wq \<and> wq_id wq' = wq_id wq \<and> wq_path wq' = wq_path wq"
    "engines m e = Some en \<Longrightarrow> \<exists>en'. engines m' e = Some en' \<and> eng_id en' = eng_id en \<and> eng_path en' = eng_path en"
    "map_option grp_id (groups m' g) = map_option grp_id (groups m g)"
    "map_option wq_id (wqs m' w) = map_option wq_id (wqs m w)"
    "map_option eng_id (engines m' e) = map_option eng_id (engines m e)"
proof -
  note both = assms [unfolded same_frame_def] map_option_both
  show "ctxs m' = ctxs m" using both(1) by blast
  have d: "map_option dev_frame (devices m' d) = map_option dev_frame (devices m d)" using both(1) by blast
  show "devices m d = Some dv \<Longrightarrow> \<exists>dv'. devices m' d = Some dv' \<and> dev_frame dv' = dev_frame dv"
    "devices m' d = Some dv' \<Longrightarrow> \<exists>dv. devices m d = Some dv \<and> dev_frame dv' = dev_frame dv"
    using map_option_both [OF d] by auto
  from both(1) have "map_option (\<lambda>x. (grp_id x, grp_path x, grp_wqs_init x, grp_engines_init x,
          0 \<le> s32 (grp_desc_progress_limit x), 0 \<le> s32 (grp_batch_progress_limit x))) (groups m' g) =
        map_option (\<lambda>x. (grp_id x, grp_path x, grp_wqs_init x, grp_engines_init x,
          0 \<le> s32 (grp_desc_progress_limit x), 0 \<le> s32 (grp_batch_progress_limit x))) (groups m g)" by blast
  from map_option_both [OF this] show "groups m g = Some gr \<Longrightarrow> \<exists>gr'. groups m' g = Some gr' \<and> grp_id gr' = grp_id gr \<and> grp_path gr' = grp_path gr \<and>
       grp_wqs_init gr' = grp_wqs_init gr \<and> grp_engines_init gr' = grp_engines_init gr \<and>
       (0 \<le> s32 (grp_desc_progress_limit gr')) = (0 \<le> s32 (grp_desc_progress_limit gr)) \<and>
       (0 \<le> s32 (grp_batch_progress_limit gr')) = (0 \<le> s32 (grp_batch_progress_limit gr))"
    "map_option grp_id (groups m' g) = map_option grp_id (groups m g)" by auto
  from both(1) have "map_option (\<lambda>x. (wq_id x, wq_path x)) (wqs m' w) = map_option (\<lambda>x. (wq_id x, wq_path x)) (wqs m w)" by blast
  from map_option_both [OF this] show "wqs m w = Some wq \<Longrightarrow> \<exists>wq'. wqs m' w = Some wq' \<and> wq_id wq' = wq_id wq \<and> wq_path wq' = wq_path wq"
    "wqs m' w = Some wq' \<Longrightarrow> \<exists>wq. wqs m w = Some wq \<and> wq_id wq' = wq_id wq \<and> wq_path wq' = wq_path wq"
    "map_option wq_id (wqs m' w) = map_option wq_id (wqs m w)" by auto
  from both(1) have "map_option (\<lambda>x. (eng_id x, eng_path x)) (engines m' e) = map_option (\<lambda>x. (eng_id x, eng_path x)) (engines m e)" by blast
  from map_option_both [OF this] show "engines m e = Some en \<Longrightarrow> \<exists>en'. engines m' e = Some en' \<and> eng_id en' = eng_id en \<and> eng_path en' = eng_path en"
    "map_option eng_id (engines m' e) = map_option eng_id (engines m e)" by auto
qed

text \<open>The frame carries the state and the sections along.\<close>

lemma same_frame_refl [simp]: "same_frame m m" and same_frame_trans: "same_frame m m1 \<Longrightarrow> same_frame m1 m2 \<Longrightarrow> same_frame m m2"
  by (simp_all add: same_frame_def)

lemma loadable_frame:
  assumes "loadable os ctx D m" "same_frame m m'" "wf_state m'" "D (kern m')"
  shows "loadable os ctx D m'"
proof -
  note F = same_frameD [OF assms(2)]
  obtain cx where cx: "discovered m ctx cx" using loadableD(2) [OF assms(1)] by blast
  have scanned: "device_done m' dv'" if "device_done m dv" "dev_frame dv' = dev_frame dv" for dv dv'
  proof -
    from that(1) obtain gr where "groups m (dev_group dv) = Some gr" "grp_wqs_init gr \<noteq> 0" "grp_engines_init gr \<noteq> 0"
      "dev_group_init dv \<noteq> 0" "dev_group dv \<noteq> 0" by (auto simp: device_done_def)
    then show ?thesis using F(4) [of "dev_group dv" gr] dev_frameD [OF that(2)] by (auto simp: device_done_def)
  qed
  have "discovered m' ctx cx"
    unfolding discovered_def
  proof (intro conjI ballI)
    show "ctxs m' ctx = Some cx" "c_devices_init cx \<noteq> 0" using cx F(1) by (simp_all add: discovered_def)
    fix d
    assume "d \<in> set (c_devices cx)"
    then obtain dv where "devices m d = Some dv" "device_done m dv" using discovered_device [OF cx] by blast
    then show "\<exists>dv. devices m' d = Some dv \<and> device_done m' dv" using F(2) [of d dv] scanned by blast
  qed
  moreover have "device_done m' dv'" if "devices m' d = Some dv'" for d dv'
    using F(3) [OF that] scanned loadableD(7) [OF assms(1)] by blast
  moreover have "numbered m' dv'" if "devices m' d = Some dv'" for d dv'
  proof -
    from F(3) [OF that] obtain dv where dv: "devices m d = Some dv" "dev_frame dv' = dev_frame dv" by blast
    have "numbered m dv" by (rule loadableD(4) [OF assms(1) dv(1)])
    then show ?thesis by (simp only: numbered_def F(8-10) dev_frameD [OF dv(2)]) blast
  qed
  moreover have "attr_reads os (dev_path dv' @ ''/state'') ''disabled'' k" if "devices m' d = Some dv'" "D k" for d dv' k
  proof -
    from F(3) [OF that(1)] obtain dv where dv: "devices m d = Some dv" "dev_frame dv' = dev_frame dv" by blast
    then show ?thesis using loadableD(5) [OF assms(1) dv(1) that(2)] dev_frameD(1) [OF dv(2)] by simp
  qed
  moreover have "attr_reads os (wq_path wq @ ''/state'') ''disabled'' k" if "wqs m' w = Some wq" "D k" for w wq k
  proof -
    from F(6) [OF that(1)] obtain q where q: "wqs m w = Some q" "wq_path wq = wq_path q" by blast
    then show ?thesis using loadableD(6) [OF assms(1) q(1) that(2)] by simp
  qed
  ultimately show ?thesis using assms(3,4) unfolding loadable_def by blast
qed

lemma section_pairs_frame:
  assumes "same_frame m m'"
  shows "section_ok os ctx D m p s \<Longrightarrow> section_pairs m' s = section_pairs m s"
proof -
  note F = same_frameD [OF assms]
  show "section_ok os ctx D m p s \<Longrightarrow> section_pairs m' s = section_pairs m s"
  proof (cases s)
    case (Device_section d x)
    assume "section_ok os ctx D m p s"
    then obtain dv where "devices m d = Some dv" using Device_section by auto
    moreover from this obtain dv' where "devices m' d = Some dv'" "dev_frame dv' = dev_frame dv" using F(2) by blast
    ultimately show ?thesis using dev_frameD(1) [of dv' dv] by (simp add: Device_section accfg_device_get_devname_def)
  next
    case (Group_section g x)
    assume "section_ok os ctx D m p s"
    then obtain gr where "groups m g = Some gr" using Group_section by auto
    then show ?thesis using F(4) [of g gr] by (auto simp: Group_section accfg_group_get_devname_def)
  next
    case (Queue_section w mode q name oc)
    assume "section_ok os ctx D m p s"
    then obtain wq where "wqs m w = Some wq" using Queue_section by auto
    then show ?thesis using F(5) [of w wq] by (auto simp: Queue_section accfg_wq_get_devname_def)
  next
    case (Engine_section e gid)
    assume "section_ok os ctx D m p s"
    then obtain en where "engines m e = Some en" using Engine_section by auto
    then show ?thesis using F(7) [of e en] by (auto simp: Engine_section accfg_engine_get_devname_def)
  qed
qed

lemma device_names_frame: "same_frame m m' \<Longrightarrow> accfg_device_get_devname d m' = accfg_device_get_devname d m"
  using same_frameD(2) [of m m' d] same_frameD(3) [of m m' d]
  by (cases "devices m d"; cases "devices m' d") (auto simp: accfg_device_get_devname_def dest: dev_frameD(1))

lemma section_ok_frame:
  assumes "same_frame m m'" "section_ok os ctx D m p s"
  shows "section_ok os ctx D m' p s"
proof (cases s)
  case (Device_section d x)
  then obtain dv t i where "devices m d = Some dv" "devpath_to_devname (dev_path dv) = Some (t @ show_int i)" "t = ''dsa'' \<or> t = ''iax''"
    "named accfg_device_get_devname (t @ show_int i) (c_devices (the (ctxs m ctx))) m = Some d" "device_numbers_ok x"
    "\<forall>k. D k \<longrightarrow> os_access os (dev_path dv @ ''/event_log_size'') k = None"
    using assms(2) by auto
  moreover from this(1) obtain dv' where "devices m' d = Some dv'" "dev_frame dv' = dev_frame dv" using same_frameD(2) [OF assms(1)] by blast
  ultimately show ?thesis
    using Device_section dev_frameD(1) [of dv' dv] same_frameD(1) [OF assms(1)] device_names_frame [OF assms(1)]
    by (auto simp: named_def)
next
  case (Group_section g x)
  then obtain dv gr a where "devices m p = Some dv" "dev_type dv \<noteq> ACCFG_DEVICE_IAX" "g \<in> set (dev_groups dv)" "groups m g = Some gr"
    "devpath_to_devname (grp_path gr) = Some (child_name ''group'' a (grp_id gr))" "group_numbers_ok x"
    "0 \<le> s32 (grp_desc_progress_limit gr)" "0 \<le> s32 (grp_batch_progress_limit gr)"
    using assms(2) by auto
  moreover from this(1) obtain dv' where "devices m' p = Some dv'" "dev_frame dv' = dev_frame dv" using same_frameD(2) [OF assms(1)] by blast
  ultimately show ?thesis
    using Group_section dev_frameD(2,7) [of dv' dv] same_frameD(4) [OF assms(1), of g gr] by auto
next
  case (Queue_section w mode q name oc)
  then obtain dv wq a K where "devices m p = Some dv" "u32 (dev_configurable dv) \<noteq> 0" "w \<in> set (dev_wqs dv)" "wqs m w = Some wq"
    "devpath_to_devname (wq_path wq) = Some (child_name ''wq'' a (wq_id wq))" "kernel_ok os D (wq_path wq) mode K"
    "wq_numbers_ok q" "wq_name q = Some name"
    using assms(2) by auto
  moreover from this(1) obtain dv' where "devices m' p = Some dv'" "dev_frame dv' = dev_frame dv" using same_frameD(2) [OF assms(1)] by blast
  ultimately show ?thesis
    using Queue_section dev_frameD(3,8) [of dv' dv] same_frameD(5) [OF assms(1), of w wq] by auto
next
  case (Engine_section e gid)
  then obtain dv en a where "devices m p = Some dv" "e \<in> set (dev_engines dv)" "engines m e = Some en"
    "devpath_to_devname (eng_path en) = Some (child_name ''engine'' a (eng_id en))"
    using assms(2) by auto
  moreover from this(1) obtain dv' where "devices m' p = Some dv'" "dev_frame dv' = dev_frame dv" using same_frameD(2) [OF assms(1)] by blast
  ultimately show ?thesis
    using Engine_section dev_frameD(4) [of dv' dv] same_frameD(7) [OF assms(1), of e en] by auto
qed

lemma sections_ok_frame: "same_frame m m' \<Longrightarrow> sections_ok os ctx D m p ss \<Longrightarrow> sections_ok os ctx D m' p ss"
  by (induction ss arbitrary: p) (simp_all add: section_ok_frame)

text \<open>Loading a section stays in the frame.\<close>

lemma load_section_frame:
  assumes "ctxs m' = ctxs m" "objects m' = load_section s (objects m)" "section_ok os ctx D m p s"
  shows "same_frame m m'"
proof (cases s)
  case (Device_section d x)
  then show ?thesis using assms by (auto simp: objects_def same_frame_def dev_frame_def [abs_def] restored_device_def option.map_comp comp_def)
next
  case (Group_section g x)
  then show ?thesis using assms by (auto simp: objects_def same_frame_def restored_def)
next
  case (Queue_section w mode q name oc)
  then show ?thesis using assms by (auto simp: objects_def same_frame_def restored_wq_def option.map_comp comp_def)
next
  case (Engine_section e gid)
  then show ?thesis using assms by (auto simp: objects_def same_frame_def option.map_comp comp_def intro!: arg_cong [of _ _ "\<lambda>f. map_option f _"])
qed


section \<open>Loading one section\<close>

abbreviation shows_pairs :: "'v json_ops \<Rightarrow> (string \<times> 'v) list \<Rightarrow> (string \<times> jnew) list \<Rightarrow> bool" where
  "shows_pairs js ps saved \<equiv> list_all2 (\<lambda>(k, v) (k', x). k = k' \<and> represents js v x) ps saved"

definition conf_ready :: "conf_state \<Rightarrow> bool" where
  "conf_ready c \<longleftrightarrow> \<not> cf_enable c \<and> \<not> cf_default_file c"

definition section_loads ::
  "'k os \<Rightarrow> 'v json_ops \<Rightarrow> ptr \<Rightarrow> ('k \<Rightarrow> bool) \<Rightarrow> saved_part \<Rightarrow> (string \<times> 'v) list \<Rightarrow> 'k mach \<Rightarrow> conf_state \<Rightarrow> bool" where
  "section_loads os js ctx D s ps m c \<longleftrightarrow> (\<exists>m' c'. configure_pairs os js ctx ps (m, c) = Some (0, m', c') \<and> wf_state m' \<and> D (kern m') \<and>
     ctxs m' = ctxs m \<and> objects m' = load_section s (objects m) \<and> cf_parent c' = parent_after s (cf_parent c) \<and> conf_ready c')"

text \<open>The kernel the text is loaded on.\<close>

definition willing :: "'k os \<Rightarrow> ('k \<Rightarrow> bool) \<Rightarrow> bool" where
  "willing os D \<longleftrightarrow> os_ok os \<and> takes_all os \<and> alloc_ok os \<and> config_kept os D"

lemma willingD:
  assumes "willing os D"
  shows "os_ok os" "takes_all os" "alloc_ok os" "config_kept os D"
  using assms by (simp_all add: willing_def)

lemma named_pairs:
  assumes "shows_pairs js ps ((''dev'', New_string name) # saved)" "ctx \<noteq> 0"
    and "configure_dev os ctx name (m, c) = Some (0, m1, c1)"
  obtains qs where "shows_pairs js qs saved" "configure_pairs os js ctx ps (m, c) = configure_pairs os js ctx qs (m1, c1)"
proof -
  from assms(1) obtain v qs where ps: "ps = (''dev'', v) # qs" "represents js v (New_string name)" "shows_pairs js qs saved"
    by (auto simp: list_all2_Cons2)
  moreover have "configure_json_value os js ctx v (Some ''dev'') (m, c) = Some (0, m1, c1)"
    using ps(2) assms(2,3) by (simp add: represents_def configure_json_value_def)
  ultimately show ?thesis using that by (simp add: configure_pairs_def)
qed

lemma queue_loads:
  assumes "willing os D" "loadable os ctx D m" "ctx \<noteq> 0" "conf_ready c" "section_ok os ctx D m (cf_parent c) (Queue_section w mode q name oc)"
    and "shows_pairs js ps (section_pairs m (Queue_section w mode q name oc))"
  shows "section_loads os js ctx D (Queue_section w mode q name oc) ps m c"
proof -
  from assms(5) obtain dv p a K where dv: "devices m (cf_parent c) = Some dv" "u32 (dev_configurable dv) \<noteq> 0" "w \<in> set (dev_wqs dv)"
    and p: "wqs m w = Some p" "devpath_to_devname (wq_path p) = Some (child_name ''wq'' a (wq_id p))" "kernel_ok os D (wq_path p) mode K"
    and q: "wq_numbers_ok q" "wq_name q = Some name" by auto
  note m = loadableD [OF assms(2)]
  let ?c = "c\<lparr>cf_dev := 0, cf_group := 0, cf_wq := w, cf_engine := 0\<rparr>"
  have scanned: "device_done m dv" by (rule m(7) [OF dv(1)])
  have "configure_dev os ctx (child_name ''wq'' a (wq_id p)) (m, c) = Some (0, m, ?c)"
    by (rule load_child_name(3) [OF m(1) dv(1) scanned m(4) [OF dv(1)] dv(3) p(1) m(6) [OF p(1) m(3)]]) (use assms(4) in \<open>simp add: conf_ready_def\<close>)
  moreover have "shows_pairs js ps ((''dev'', New_string (child_name ''wq'' a (wq_id p))) # (''mode'', New_string mode) # saved_wq q name oc)"
    using assms(6) p(1,2) by (simp add: accfg_wq_get_devname_def)
  ultimately obtain qs where qs: "shows_pairs js qs ((''mode'', New_string mode) # saved_wq q name oc)"
    "configure_pairs os js ctx ps (m, c) = configure_pairs os js ctx qs (m, ?c)"
    using named_pairs assms(3) by metis
  have "wq_device p = cf_parent c" using linked_part [OF wfD(3) [OF m(1)] dv(1,3)] p(1) by auto
  then have at: "wq_at dv w p m" using m(1) dv p(1) by (simp add: wq_at_def)
  have "at_queue ctx w ?c"
    using assms(3,4) wf_wq(3) [OF m(1) p(1)] wf_device(3) [OF m(1) dv(1)] by (simp add: at_queue_def conf_ready_def)
  from wq_pairs_restore [OF q p(3) at this m(3) qs(1)] obtain m' where
    m': "configure_pairs os js ctx qs (m, ?c) = Some (0, m', ?c)" "wq_at dv w (restored_wq mode q name p) m'" "D (kern m')" "others w m m'" by blast
  have "wqs m' = (wqs m)(w \<mapsto> restored_wq mode q name p)" using m'(2,4) by (auto simp: others_def wq_at_def)
  then have "objects m' = load_section (Queue_section w mode q name oc) (objects m)"
    using m'(4) p(1) by (simp add: objects_def others_def)
  then show ?thesis using m' qs(2) assms(4) by (auto simp: section_loads_def wq_at_def others_def conf_ready_def)
qed

lemma group_loads:
  assumes "willing os D" "loadable os ctx D m" "ctx \<noteq> 0" "conf_ready c" "section_ok os ctx D m (cf_parent c) (Group_section g x)"
    and "shows_pairs js ps (section_pairs m (Group_section g x))"
  shows "section_loads os js ctx D (Group_section g x) ps m c"
proof -
  from assms(5) obtain dv gr a where dv: "devices m (cf_parent c) = Some dv" "dev_type dv \<noteq> ACCFG_DEVICE_IAX" "g \<in> set (dev_groups dv)"
    and gr: "groups m g = Some gr" "devpath_to_devname (grp_path gr) = Some (child_name ''group'' a (grp_id gr))"
      "0 \<le> s32 (grp_desc_progress_limit gr)" "0 \<le> s32 (grp_batch_progress_limit gr)"
    and x: "group_numbers_ok x" by auto
  note m = loadableD [OF assms(2)]
  let ?c = "c\<lparr>cf_dev := 0, cf_group := g, cf_wq := 0, cf_engine := 0\<rparr>"
  have scanned: "device_done m dv" by (rule m(7) [OF dv(1)])
  have "configure_dev os ctx (child_name ''group'' a (grp_id gr)) (m, c) = Some (0, m, ?c)"
    by (rule load_child_name(1) [OF m(1) dv(1) scanned m(4) [OF dv(1)] dv(3) gr(1)])
  moreover have "shows_pairs js ps ((''dev'', New_string (child_name ''group'' a (grp_id gr))) # saved_numbers x)"
    using assms(6) gr(1,2) by (simp add: accfg_group_get_devname_def)
  ultimately obtain qs where qs: "shows_pairs js qs (saved_numbers x)" "configure_pairs os js ctx ps (m, c) = configure_pairs os js ctx qs (m, ?c)"
    using named_pairs assms(3) by metis
  have owner: "grp_device gr = cf_parent c" using linked_part [OF wfD(2) [OF m(1)] dv(1,3)] gr(1) by auto
  then have at: "group_at dv g gr m" using m(1) dv(1) gr by (simp add: group_at_def)
  have c: "cf_parent ?c \<noteq> 0" "cf_dev ?c = 0" "cf_wq ?c = 0" "cf_group ?c = g" "g \<noteq> 0"
    using wf_device(3) [OF m(1) dv(1)] wf_group(3) [OF m(1) gr(1)] by simp_all
  from group_pairs_load [OF willingD(1) [OF assms(1)] dv(2) assms(3) c qs(1) saved_numbers_ok [OF x] at] willingD(2) [OF assms(1)]
  obtain m' where m': "configure_pairs os js ctx qs (m, ?c) = Some (0, m', ?c)" "group_quiet os g m m'"
    "group_at dv g (restored (u32 (dev_read_buffer_limit dv) \<noteq> 0) x gr) m'"
    unfolding load_saved [OF x] by (auto simp: wp_iff)
  have "groups m' = (groups m)(g \<mapsto> restored (u32 (dev_read_buffer_limit dv) \<noteq> 0) x gr)" using m'(2,3) by (auto simp: group_quiet_def group_at_def)
  then have "objects m' = load_section (Group_section g x) (objects m)"
    using m'(2) gr(1) dv(1) owner by (simp add: objects_def group_quiet_def)
  moreover have "D (kern m')" using m'(2) willingD(4) [OF assms(1)] m(3) unfolding group_quiet_def by blast
  ultimately show ?thesis
    using m' qs(2) assms(4) unfolding section_loads_def by (intro exI [of _ m'] exI [of _ ?c]) (simp add: group_at_def group_quiet_def conf_ready_def)
qed

lemma engine_loads:
  assumes "willing os D" "loadable os ctx D m" "ctx \<noteq> 0" "conf_ready c" "section_ok os ctx D m (cf_parent c) (Engine_section e gid)"
    and "shows_pairs js ps (section_pairs m (Engine_section e gid))"
  shows "section_loads os js ctx D (Engine_section e gid) ps m c"
proof -
  from assms(5) obtain dv en a where dv: "devices m (cf_parent c) = Some dv" "e \<in> set (dev_engines dv)"
    and en: "engines m e = Some en" "devpath_to_devname (eng_path en) = Some (child_name ''engine'' a (eng_id en))" by auto
  note m = loadableD [OF assms(2)]
  let ?c = "c\<lparr>cf_dev := 0, cf_group := 0, cf_wq := 0, cf_engine := e\<rparr>"
  have "configure_dev os ctx (child_name ''engine'' a (eng_id en)) (m, c) = Some (0, m, ?c)"
    by (rule load_child_name(2) [OF m(1) dv(1) m(7) [OF dv(1)] m(4) [OF dv(1)] dv(2) en(1)])
  moreover have "shows_pairs js ps ((''dev'', New_string (child_name ''engine'' a (eng_id en))) # saved_engine gid)"
    using assms(6) en by (simp add: accfg_engine_get_devname_def)
  ultimately obtain qs where qs: "shows_pairs js qs (saved_engine gid)" "configure_pairs os js ctx ps (m, c) = configure_pairs os js ctx qs (m, ?c)"
    using named_pairs assms(3) by metis
  show ?thesis
  proof (cases "0 \<le> gid")
    case False
    then have "qs = []" using qs(1) by (simp add: saved_engine_def)
    moreover have "(engines m)(e \<mapsto> en) = engines m" using en(1) by auto
    ultimately show ?thesis
      using qs(2) m(1,3) assms(4) False en(1) by (simp add: section_loads_def configure_pairs_def objects_def conf_ready_def)
  next
    case True
    then obtain v where v: "qs = [(''group_id'', v)]" "\<not> json_null js v" "js_int js v = (gid, None)"
      using qs(1) by (auto simp: saved_engine_def list_all2_Cons2 represents_def)
    let ?w = "sysfs_write_attr os (eng_path en @ ''/'' @ ''group_id'') (show_int gid) (m\<lparr>errno := 0\<rparr>)"
    let ?en = "en\<lparr>eng_group_id := gid\<rparr>"
    have wf: "wf_state (m\<lparr>errno := 0\<rparr>)" by (rule wf_shape [OF _ m(1)]) simp
    have w: "?w = (0, m\<lparr>errno := 0, kern := snd (os_write os (eng_path en @ ''/'' @ ''group_id'') (show_int gid) (kern m))\<rparr>)"
      by (subst takes_all_write [OF willingD(2) [OF assms(1)]]) simp_all
    from accfg_engine_set_field_wp [where os = os and m = "m\<lparr>errno := 0\<rparr>" and e = e and en = en and field = "''group_id''" and v = gid
        and store = "\<lambda>val e. e\<lparr>eng_group_id := val\<rparr>", OF willingD(1) [OF assms(1)] wf]
    obtain m' where m': "accfg_engine_set_group_id os e gid (m\<lparr>errno := 0\<rparr>) = Some (0, m')" "wf_state m'"
      "m' = (snd ?w)\<lparr>engines := (engines m)(e \<mapsto> ?en)\<rparr>"
      using en(1) w by (auto simp: wp_iff accfg_engine_set_group_id_def engine_links_def)
    have "e \<noteq> 0" "cf_parent c \<noteq> 0" using wf_engine(3) [OF m(1) en(1)] wf_device(3) [OF m(1) dv(1)] by simp_all
    then have "configure_json_value os js ctx v (Some ''group_id'') (m, ?c) = Some (0, m', ?c)"
      using v assms(3,4) m'(1)
      by (simp add: configure_json_value_def configure_attr_def engine_json_set_val_def engine_attribute_filter_def engine_table_def
          get_number_errno_def conf_ready_def json_null_def EINVAL_def)
    then have "configure_pairs os js ctx qs (m, ?c) = Some (0, m', ?c)" by (simp add: v(1) configure_pairs_def)
    moreover have "config_file (eng_path en @ ''/'' @ ''group_id'')" by simp
    then have "D (kern m')" using willingD(4) [OF assms(1)] m(3) m'(3) w by (simp add: config_kept_def)
    moreover have "objects m' = load_section (Engine_section e gid) (objects m)" using m'(3) w en(1) True by (simp add: objects_def)
    ultimately show ?thesis
      using qs(2) m'(2,3) w assms(4) unfolding section_loads_def by (intro exI [of _ m'] exI [of _ ?c]) (simp add: conf_ready_def)
  qed
qed

text \<open>Setting an attribute of a device.\<close>

definition device_set :: "('k \<Rightarrow> bool) \<Rightarrow> ptr \<Rightarrow> accfg_device \<Rightarrow> 'k mach \<Rightarrow> ('k, int) run \<Rightarrow> bool" where
  "device_set D d dv m r \<longleftrightarrow> (\<exists>m'. r = Some (0, m') \<and> wf_state m' \<and> D (kern m') \<and> ctxs m' = ctxs m \<and>
     groups m' = groups m \<and> wqs m' = wqs m \<and> engines m' = engines m \<and> devices m' = (devices m)(d \<mapsto> dv))"

lemma device_commit_sets:
  assumes "willing os D" "wf_state m" "D (kern m)" "devices m d = Some dv" "config_file path"
    and "\<And>x. dev_ctx (f x) = dev_ctx x \<and> dev_groups (f x) = dev_groups x \<and> dev_wqs (f x) = dev_wqs x \<and> dev_engines (f x) = dev_engines x \<and>
      dev_group (f x) = dev_group x \<and> dev_path (f x) = dev_path x \<and> dev_buf_len (f x) = dev_buf_len x"
  shows "device_set D d (f dv) m (attr_commit os path buf d 0 0 0 (upd_device d f) m)"
proof -
  let ?m = "m\<lparr>kern := snd (os_write os path buf (kern m))\<rparr>"
  have up: "upd_device d f ?m = Some (?m\<lparr>devices := (devices m)(d \<mapsto> f dv)\<rparr>)" using assms(4) by (simp add: upd_device_def)
  have "shape (?m\<lparr>devices := (devices m)(d \<mapsto> f dv)\<rparr>) = shape ?m" by (rule shape_upd_device [OF up]) (use assms(6) in simp)
  then have "wf_state (?m\<lparr>devices := (devices m)(d \<mapsto> f dv)\<rparr>)" by (intro wf_shape [OF sym assms(2)]) simp
  moreover have "D (kern ?m)" using willingD(4) [OF assms(1)] assms(3,5) by (simp add: config_kept_def)
  ultimately show ?thesis using up by (simp add: attr_commit_def takes_all_write [OF willingD(2) [OF assms(1)] assms(5)] device_set_def)
qed

lemma device_attr_sets:
  assumes "willing os D" "wf_state m" "D (kern m)" "devices m d = Some dv"
  shows "device_set D d (dv\<lparr>dev_read_buffer_limit := u32 v\<rparr>) m (accfg_device_set_read_buffer_limit os d v m)"
    and "os_access os (dev_path dv @ ''/event_log_size'') (kern m) = None \<Longrightarrow>
      device_set D d (dv\<lparr>dev_event_log_size := v\<rparr>) m (accfg_device_set_event_log_size os d v m)"
proof -
  note path = wf_device(1) [OF assms(2,4)]
  have d: "d \<noteq> 0" by (rule wf_device(3) [OF assms(2,4)])
  have same: "device_set D d x m r" if "device_set D d x (snd (sys_access os q m)) r" for x q r
    using that by (simp add: device_set_def)
  have wf: "wf_state (snd (sys_access os q m))" for q by (rule wf_shape [OF _ assms(2)]) simp
  have commit: "device_set D d (f dv) m (attr_commit os p buf d 0 0 0 (upd_device d f) (snd (sys_access os q m)))"
    if "config_file p" "\<And>x. dev_ctx (f x) = dev_ctx x \<and> dev_groups (f x) = dev_groups x \<and> dev_wqs (f x) = dev_wqs x \<and> dev_engines (f x) = dev_engines x \<and>
      dev_group (f x) = dev_group x \<and> dev_path (f x) = dev_path x \<and> dev_buf_len (f x) = dev_buf_len x" for f p buf q
    by (rule same, rule device_commit_sets [where f = f, OF assms(1) wf _ _ that]) (use assms(3,4) in simp_all)
  show "device_set D d (dv\<lparr>dev_read_buffer_limit := u32 v\<rparr>) m (accfg_device_set_read_buffer_limit os d v m)"
    using assms(4) d sprintf_path_fits [OF path, of "''read_buffer_limit''"] sprintf_path_fits [OF path, of "''token_limit''"]
    by (cases "fst (sys_access os (dev_path dv @ ''/read_buffer_limit'') m)")
      (simp_all add: accfg_device_set_read_buffer_limit_def case_prod_beta deprecated_attr_def attr_dict_def commit)
  assume "os_access os (dev_path dv @ ''/event_log_size'') (kern m) = None"
  then have "fst (sys_access os (dev_path dv @ ''/event_log_size'') m)" by (simp add: sys_call_defs)
  then show "device_set D d (dv\<lparr>dev_event_log_size := v\<rparr>) m (accfg_device_set_event_log_size os d v m)"
    using assms(4) d sprintf_path_fits [OF path, of "''event_log_size''"]
    by (simp add: accfg_device_set_event_log_size_def case_prod_beta commit)
qed

text \<open>A value for the device named last.\<close>

lemma device_pair_sets:
  assumes "willing os D" "wf_state m" "D (kern m)" "devices m d = Some dv" "ctx \<noteq> 0" "cf_parent c = d" "cf_dev c = d" "conf_ready c"
    and "\<not> json_null js v" "js_int js v = (i, None)"
  shows "device_set D d (dv\<lparr>dev_read_buffer_limit := u32 i\<rparr>) m
      (map_option (\<lambda>(rc, m', c'). (rc, m')) (configure_json_value os js ctx v (Some ''read_buffer_limit'') (m, c)))"
    and "os_access os (dev_path dv @ ''/event_log_size'') (kern m) = None \<Longrightarrow> device_set D d (dv\<lparr>dev_event_log_size := i\<rparr>) m
      (map_option (\<lambda>(rc, m', c'). (rc, m')) (configure_json_value os js ctx v (Some ''event_log_size'') (m, c)))"
    and "key = ''read_buffer_limit'' \<or> key = ''event_log_size'' \<Longrightarrow> configure_json_value os js ctx v (Some key) (m, c) = Some (rc, m', c') \<Longrightarrow> c' = c"
proof -
  have d: "d \<noteq> 0" by (rule wf_device(3) [OF assms(2,4)])
  have wf: "wf_state (m\<lparr>errno := 0\<rparr>)" by (rule wf_shape [OF _ assms(2)]) simp
  have eqs: "configure_json_value os js ctx v (Some ''read_buffer_limit'') (m, c) =
      map_option (\<lambda>(rc, m'). (if rc < 0 then rc else 0, m', c)) (accfg_device_set_read_buffer_limit os d i (m\<lparr>errno := 0\<rparr>))"
    "configure_json_value os js ctx v (Some ''event_log_size'') (m, c) =
      map_option (\<lambda>(rc, m'). (if rc < 0 then rc else 0, m', c)) (accfg_device_set_event_log_size os d i (m\<lparr>errno := 0\<rparr>))"
    using assms(5-10) d
    by (simp_all add: configure_json_value_def configure_attr_def device_json_set_val_def device_attribute_filter_def device_table_def
        get_number_errno_def conf_ready_def json_null_def EINVAL_def map_option_case split: option.split)
  have same: "device_set D d x m (map_option (\<lambda>(rc, m', c'). (rc, m')) (map_option (\<lambda>(rc, m'). (if rc < 0 then rc else 0, m', c)) r))"
    if "device_set D d x (m\<lparr>errno := 0\<rparr>) r" for x r
    using that by (auto simp: device_set_def)
  note sets = device_attr_sets [OF assms(1) wf, simplified, OF assms(3,4)]
  show "device_set D d (dv\<lparr>dev_read_buffer_limit := u32 i\<rparr>) m
      (map_option (\<lambda>(rc, m', c'). (rc, m')) (configure_json_value os js ctx v (Some ''read_buffer_limit'') (m, c)))"
    unfolding eqs by (rule same, rule sets(1))
  show "device_set D d (dv\<lparr>dev_event_log_size := i\<rparr>) m
      (map_option (\<lambda>(rc, m', c'). (rc, m')) (configure_json_value os js ctx v (Some ''event_log_size'') (m, c)))"
    if "os_access os (dev_path dv @ ''/event_log_size'') (kern m) = None"
    unfolding eqs by (rule same, rule sets(2)) (rule that)
  show "c' = c" if "key = ''read_buffer_limit'' \<or> key = ''event_log_size''" "configure_json_value os js ctx v (Some key) (m, c) = Some (rc, m', c')"
    using that by (auto simp: eqs)
qed

lemma device_setE:
  assumes "device_set D d dv m (map_option (\<lambda>(rc, m', c'). (rc, m')) r)"
  obtains m' c' where "r = Some (0, m', c')" "wf_state m'" "D (kern m')" "ctxs m' = ctxs m" "groups m' = groups m" "wqs m' = wqs m"
    "engines m' = engines m" "devices m' = (devices m)(d \<mapsto> dv)"
  using assms by (auto simp: device_set_def)

lemma device_pairs_load:
  assumes "willing os D" "wf_state m" "D (kern m)" "devices m d = Some dv" "ctx \<noteq> 0" "cf_parent c = d" "cf_dev c = d" "conf_ready c"
    and "device_numbers_ok x" "\<And>k. D k \<Longrightarrow> os_access os (dev_path dv @ ''/event_log_size'') k = None" "shows_pairs js ps (saved_device x)"
  shows "\<exists>m'. configure_pairs os js ctx ps (m, c) = Some (0, m', c) \<and> wf_state m' \<and> D (kern m') \<and> ctxs m' = ctxs m \<and> groups m' = groups m \<and>
     wqs m' = wqs m \<and> engines m' = engines m \<and> devices m' = (devices m)(d \<mapsto> restored_device x dv)"
proof -
  have limit: "u32 (dev_read_buffer_limit x) = dev_read_buffer_limit x" using assms(9) by (simp add: device_numbers_ok_def u32_id INT_MAX_def)
  let ?dv1 = "if dev_type x = ACCFG_DEVICE_IAX then dv else dv\<lparr>dev_read_buffer_limit := dev_read_buffer_limit x\<rparr>"
  let ?log = "if 0 \<le> dev_event_log_size x then [(''event_log_size'', New_int (dev_event_log_size x))] else []"
  have same: "(devices m)(d \<mapsto> dv) = devices m" using assms(4) by auto
  obtain m1 qs where m1: "configure_pairs os js ctx ps (m, c) = configure_pairs os js ctx qs (m1, c)" "shows_pairs js qs ?log"
    "wf_state m1" "D (kern m1)" "ctxs m1 = ctxs m" "groups m1 = groups m" "wqs m1 = wqs m" "engines m1 = engines m" "devices m1 = (devices m)(d \<mapsto> ?dv1)"
  proof (cases "dev_type x = ACCFG_DEVICE_IAX")
    case True
    then show ?thesis using that [of ps m] assms(2,3,11) same by (simp add: saved_device_def)
  next
    case False
    with assms(11) obtain v qs where ps: "ps = (''read_buffer_limit'', v) # qs" "\<not> json_null js v" "js_int js v = (dev_read_buffer_limit x, None)"
      "shows_pairs js qs ?log"
      by (auto simp: saved_device_def list_all2_Cons2 represents_def)
    from device_pair_sets(1) [OF assms(1-8) ps(2,3)] obtain m1 c1 where
      m1: "configure_json_value os js ctx v (Some ''read_buffer_limit'') (m, c) = Some (0, m1, c1)" "wf_state m1" "D (kern m1)" "ctxs m1 = ctxs m"
        "groups m1 = groups m" "wqs m1 = wqs m" "engines m1 = engines m" "devices m1 = (devices m)(d \<mapsto> dv\<lparr>dev_read_buffer_limit := dev_read_buffer_limit x\<rparr>)"
      unfolding limit by (rule device_setE)
    moreover have "c1 = c" using device_pair_sets(3) [OF assms(1-8) ps(2,3) _ m1(1)] by simp
    ultimately show ?thesis using that [of qs m1] ps(4) False by (simp add: ps(1) configure_pairs_def)
  qed
  show ?thesis
  proof (cases "0 \<le> dev_event_log_size x")
    case False
    then show ?thesis using m1 by (auto simp: configure_pairs_def restored_device_def)
  next
    case True
    with m1(2) obtain v where qs: "qs = [(''event_log_size'', v)]" "\<not> json_null js v" "js_int js v = (dev_event_log_size x, None)"
      by (auto simp: list_all2_Cons2 represents_def)
    have dv1: "devices m1 d = Some ?dv1" "dev_path ?dv1 = dev_path dv" using m1(9) by simp_all
    have log: "os_access os (dev_path ?dv1 @ ''/event_log_size'') (kern m1) = None" using assms(10) [OF m1(4)] dv1(2) by simp
    from device_pair_sets(2) [OF assms(1) m1(3,4) dv1(1) assms(5-8) qs(2,3) log] obtain m2 c2 where
      m2: "configure_json_value os js ctx v (Some ''event_log_size'') (m1, c) = Some (0, m2, c2)" "wf_state m2" "D (kern m2)" "ctxs m2 = ctxs m1"
        "groups m2 = groups m1" "wqs m2 = wqs m1" "engines m2 = engines m1" "devices m2 = (devices m1)(d \<mapsto> ?dv1\<lparr>dev_event_log_size := dev_event_log_size x\<rparr>)"
      by (rule device_setE)
    moreover have "c2 = c" using device_pair_sets(3) [OF assms(1) m1(3,4) dv1(1) assms(5-8) qs(2,3) _ m2(1)] by simp
    moreover have "?dv1\<lparr>dev_event_log_size := dev_event_log_size x\<rparr> = restored_device x dv" using True by (simp add: restored_device_def)
    ultimately show ?thesis using m1 by (simp add: qs(1) configure_pairs_def)
  qed
qed

lemma device_name_needs:
  assumes "t = ''dsa'' \<or> t = ''iax''"
  shows "\<not> strstr (t @ show_int i) ''wq''" "\<not> strstr (t @ show_int i) ''engine''" "\<not> strstr (t @ show_int i) ''group''"
proof -
  have no: "c \<notin> set (t @ show_int i)" if "is_lower c" "c \<notin> set ''dsaix''" for c
    using that show_int_not_lower assms by (auto simp: is_lower_def)
  show "\<not> strstr (t @ show_int i) ''wq''" "\<not> strstr (t @ show_int i) ''engine''" "\<not> strstr (t @ show_int i) ''group''"
    using strstr_needs [OF _ no, of "CHR ''w''"] strstr_needs [OF _ no, of "CHR ''e''"] strstr_needs [OF _ no, of "CHR ''r''"]
    by (auto simp: is_lower_def)
qed

lemma device_loads:
  assumes "willing os D" "loadable os ctx D m" "ctx \<noteq> 0" "conf_ready c" "section_ok os ctx D m (cf_parent c) (Device_section d x)"
    and "shows_pairs js ps (section_pairs m (Device_section d x))"
  shows "section_loads os js ctx D (Device_section d x) ps m c"
proof -
  from assms(5) obtain dv t i where dv: "devices m d = Some dv" "devpath_to_devname (dev_path dv) = Some (t @ show_int i)" "t = ''dsa'' \<or> t = ''iax''"
    "named accfg_device_get_devname (t @ show_int i) (c_devices (the (ctxs m ctx))) m = Some d"
    "\<And>k. D k \<Longrightarrow> os_access os (dev_path dv @ ''/event_log_size'') k = None" and x: "device_numbers_ok x" by auto
  note m = loadableD [OF assms(2)]
  let ?c = "c\<lparr>cf_dev := d, cf_parent := d, cf_group := 0, cf_wq := 0, cf_engine := 0\<rparr>"
  obtain cx where cx: "discovered m ctx cx" using m(2) by blast
  have d: "d \<noteq> 0" by (rule wf_device(3) [OF m(1) dv(1)])
  have "accfg_ctx_device_get_by_name os ctx (t @ show_int i) m = Some (d, m)"
    using by_name_exact [OF m(1) cx] dv(4) cx by (simp add: discovered_def)
  moreover have "accfg_device_get_state os d m = Some (ACCFG_DEVICE_DISABLED, m)"
    using device_state_reads(1) [OF m(1) dv(1) m(5) [OF dv(1) m(3)]] by simp
  ultimately have "parse_dev_loop os ctx (t @ show_int i) [t] (m, c\<lparr>cf_dev := 0, cf_group := 0, cf_wq := 0, cf_engine := 0\<rparr>) =
      Some (None, m, c\<lparr>cf_parent := 0, cf_dev := d, cf_group := 0, cf_wq := 0, cf_engine := 0, cf_activate_dev_list := cf_activate_dev_list c, cf_parent := d\<rparr>)"
    using dv(3) d assms(4) by (auto simp: scan_d_show_int_end MAX_DEV_LEN_def conf_ready_def)
  then have "configure_dev os ctx (t @ show_int i) (m, c) = Some (0, m, ?c)"
    using d device_name_needs [OF dv(3)]
    by (simp add: configure_dev_def parse_dev_loop_named [OF dv(3)] parse_wq_key_def parse_engine_key_def parse_group_key_def)
  moreover have "shows_pairs js ps ((''dev'', New_string (t @ show_int i)) # saved_device x)"
    using assms(6) dv(1,2) by (simp add: accfg_device_get_devname_def)
  ultimately obtain qs where qs: "shows_pairs js qs (saved_device x)" "configure_pairs os js ctx ps (m, c) = configure_pairs os js ctx qs (m, ?c)"
    using named_pairs assms(3) by metis
  have ready: "conf_ready ?c" using assms(4) by (simp add: conf_ready_def)
  have at: "cf_parent ?c = d" "cf_dev ?c = d" by simp_all
  from device_pairs_load [OF assms(1) m(1,3) dv(1) assms(3) at ready x dv(5) qs(1)] obtain m' where
    m': "configure_pairs os js ctx qs (m, ?c) = Some (0, m', ?c)" "wf_state m'" "D (kern m')" "ctxs m' = ctxs m" "groups m' = groups m"
      "wqs m' = wqs m" "engines m' = engines m" "devices m' = (devices m)(d \<mapsto> restored_device x dv)" by blast
  have "objects m' = load_section (Device_section d x) (objects m)" using m'(5-8) dv(1) by (simp add: objects_def)
  then show ?thesis using m'(1-4) qs(2) ready unfolding section_loads_def by (intro exI [of _ m'] exI [of _ ?c]) simp
qed

section \<open>The whole configuration\<close>

lemma section_step:
  assumes "willing os D" "loadable os ctx D m" "ctx \<noteq> 0" "conf_ready c" "section_ok os ctx D m (cf_parent c) s"
    and "shows_pairs js ps (section_pairs m s)"
  shows "section_loads os js ctx D s ps m c"
  using device_loads [OF assms(1-4)] group_loads [OF assms(1-4)] queue_loads [OF assms(1-4)] engine_loads [OF assms(1-4)] assms(5,6)
  by (cases s) blast+

lemma configure_pairs_append:
  "configure_pairs os js ctx (ps @ qs) s = do { (rc, s) \<leftarrow> configure_pairs os js ctx ps s; if rc = 0 then configure_pairs os js ctx qs s else Some (rc, s) }"
  unfolding configure_pairs_def by (rule json_loop_append)

lemma sections_pairs_frame:
  assumes "same_frame m m'"
  shows "sections_ok os ctx D m p ss \<Longrightarrow> map (section_pairs m') ss = map (section_pairs m) ss"
proof (induction ss arbitrary: p)
  case (Cons s ss)
  have "section_ok os ctx D m p s" "sections_ok os ctx D m (parent_after s p) ss" using Cons.prems by simp_all
  then show ?case using section_pairs_frame [OF assms] Cons.IH by simp
qed simp

lemma sections_load:
  assumes "willing os D" "ctx \<noteq> 0"
  shows "loadable os ctx D m \<Longrightarrow> conf_ready c \<Longrightarrow> sections_ok os ctx D m (cf_parent c) ss \<Longrightarrow>
     shows_pairs js ps (concat (map (section_pairs m) ss)) \<Longrightarrow>
     \<exists>m' c'. configure_pairs os js ctx ps (m, c) = Some (0, m', c') \<and> wf_state m' \<and> ctxs m' = ctxs m \<and> objects m' = fold load_section ss (objects m)"
proof (induction ss arbitrary: m c ps)
  case Nil
  then show ?case using loadableD(1) by (auto simp: configure_pairs_def)
next
  case (Cons s ss)
  from Cons.prems(4) obtain ps1 ps2 where ps: "ps = ps1 @ ps2" "shows_pairs js ps1 (section_pairs m s)"
    "shows_pairs js ps2 (concat (map (section_pairs m) ss))"
    by (auto simp: list_all2_append2)
  have ok: "section_ok os ctx D m (cf_parent c) s" "sections_ok os ctx D m (parent_after s (cf_parent c)) ss" using Cons.prems(3) by simp_all
  from section_step [OF assms(1) Cons.prems(1) assms(2) Cons.prems(2) ok(1) ps(2)] obtain m1 c1 where
    m1: "configure_pairs os js ctx ps1 (m, c) = Some (0, m1, c1)" "wf_state m1" "D (kern m1)" "ctxs m1 = ctxs m"
      "objects m1 = load_section s (objects m)" "cf_parent c1 = parent_after s (cf_parent c)" "conf_ready c1"
    unfolding section_loads_def by blast
  have frame: "same_frame m m1" by (rule load_section_frame [OF m1(4,5) ok(1)])
  have "map (section_pairs m1) ss = map (section_pairs m) ss" by (rule sections_pairs_frame [OF frame ok(2)])
  then have "shows_pairs js ps2 (concat (map (section_pairs m1) ss))" using ps(3) by (simp only:)
  from Cons.IH [OF loadable_frame [OF Cons.prems(1) frame m1(2,3)] m1(7) _ this] sections_ok_frame [OF frame ok(2)] m1(6)
  obtain m' c' where "configure_pairs os js ctx ps2 (m1, c1) = Some (0, m', c')" "wf_state m'" "ctxs m' = ctxs m1"
    "objects m' = fold load_section ss (objects m1)" by auto
  then show ?case using m1(1,4,5) by (simp add: ps(1) configure_pairs_append)
qed

text \<open>The sections are what \<open>save-config\<close> writes: the members of the objects of a device and of an engine.\<close>

lemma device_saved:
  assumes "devices m d = Some x" "devpath_to_devname (dev_path x) = Some name" "device_numbers_ok x" "dev_type x \<noteq> ACCFG_DEVICE_IAX"
  shows "run_fields (device_fields os d UTIL_JSON_SAVE) m = Some ((''dev'', New_string name) # saved_device x, m)"
proof -
  have "s32 (dev_read_buffer_limit x) = dev_read_buffer_limit x" "s32 (dev_event_log_size x) = dev_event_log_size x"
    using assms(3) by (simp_all add: device_numbers_ok_def s32_id INT_MAX_def)
  then show ?thesis
    using assms(1,2,4)
    by (simp add: device_fields_def device_save_fields_def has_flag_def UTIL_JSON_SAVE_def name_field_def not_iax_field_def nonneg_field_def
        accfg_device_get_devname_def accfg_device_get_read_buffer_limit_def accfg_device_get_event_log_size_def accfg_device_get_type_def
        saved_device_def made_def)
qed

lemma engine_saved:
  assumes "engines m e = Some en" "devpath_to_devname (eng_path en) = Some name" "s32 (eng_group_id en) = eng_group_id en"
  shows "run_fields (engine_fields e) m = Some ((''dev'', New_string name) # saved_engine (eng_group_id en), m)"
  using assms
  by (simp add: engine_fields_def name_field_def nonneg_field_def accfg_engine_get_devname_def accfg_engine_get_group_id_def saved_engine_def made_def)



section \<open>An example\<close>

text \<open>The device is disabled, and so is its queue, as long as these two files say so.\<close>

definition ex_idle :: "fs \<Rightarrow> bool" where
  "ex_idle k \<longleftrightarrow> map_of (fs_files k) ''/d/dsa0/state'' = Some (''disabled'' @ [NL]) \<and>
     map_of (fs_files k) ''/d/dsa0/wq0.0/state'' = Some (''disabled'' @ [NL])"

definition ex_idle_fs :: fs where
  "ex_idle_fs = ex_fs\<lparr>fs_files := [(''/d/dsa0/state'', ''disabled'' @ [NL]), (''/d/dsa0/wq0.0/state'', ''disabled'' @ [NL])]\<rparr>"

lemma ex_idle_kept:
  assumes "config_file q" "ex_idle k"
  shows "ex_idle (snd (idxd_write q b k))"
proof -
  have "q \<noteq> ''/d/dsa0'' @ ''/state''" "q \<noteq> ''/d/dsa0/wq0.0'' @ ''/state''" by (rule config_file_not_state [OF assms(1)])+
  then show ?thesis using idxd_kept_text [OF assms(1)] assms(2) by (simp add: ex_idle_def)
qed

lemma ex_willing: "willing idxd_os ex_idle"
  using idxd_os_ok idxd_takes_all ex_idle_kept by (simp add: willing_def config_kept_def)

lemma ex_idle_mode: "kernel_ok idxd_os ex_idle ex_path ''shared'' (\<lambda>k. ex_idle k \<and> map_of (fs_files k) (ex_path @ ''/mode'') = Some (''shared'' @ [NL]))"
proof -
  have "config_file (ex_path @ ''/mode'')" by simp
  then show ?thesis by (intro idxd_mode ex_idle_kept) simp_all
qed

definition ex_blank :: "fs mach" where
  "ex_blank = (ex_mach ex_idle_fs)\<lparr>errno := 0, kern := ex_idle_fs, wqs := (wqs (ex_mach ex_idle_fs))(4 \<mapsto> ex_empty_wq)\<rparr>"

lemma ex_blank_sel: "ctxs ex_blank = [1 \<mapsto> ex_ctx]" "devices ex_blank = [2 \<mapsto> ex_dev]" "groups ex_blank = [3 \<mapsto> ex_grp]"
  "wqs ex_blank = [4 \<mapsto> ex_empty_wq]" "engines ex_blank = [5 \<mapsto> ex_eng]" "kern ex_blank = ex_idle_fs"
  by (simp_all add: ex_blank_def)

lemma ex_blank_loadable: "loadable idxd_os 1 ex_idle ex_blank"
proof -
  have "wq_at ex_dev 4 ex_empty_wq ex_blank"
    unfolding ex_blank_def
  proof (rule wq_at_update)
    show "wq_at ex_dev 4 ex_wq (ex_mach ex_idle_fs)" by (simp add: wq_at_def ex_mach_wf) (simp add: ex_wq_def ex_dev_def u32_id)
    show "wq_links ex_empty_wq = wq_links ex_wq" by (simp add: wq_links_def ex_empty_wq_def)
  qed
  then have "wf_state ex_blank" by (simp add: wq_at_def)
  moreover have "device_done ex_blank ex_dev" by (simp add: device_done_def ex_blank_sel) (simp add: ex_dev_def ex_grp_def)
  moreover from this have "discovered ex_blank 1 ex_ctx" by (simp add: discovered_def ex_blank_sel) (simp add: ex_ctx_def empty_ctx_def)
  moreover have "ex_idle (kern ex_blank)" by (simp add: ex_blank_sel ex_idle_def ex_idle_fs_def)
  moreover have "numbered ex_blank ex_dev"
    by (simp add: numbered_def ex_blank_sel) (simp add: ex_dev_def ex_grp_def ex_wq_def ex_empty_wq_def ex_eng_def s32_id)
  moreover have "attr_reads idxd_os ''/d/dsa0/state'' ''disabled'' k" "attr_reads idxd_os ''/d/dsa0/wq0.0/state'' ''disabled'' k" if "ex_idle k" for k
    using that by (simp_all add: attr_reads_def ex_idle_def idxd_os_sel SYSFS_ATTR_SIZE_def NL_def NUL_def)
  ultimately show ?thesis
    unfolding loadable_def by (auto simp: ex_blank_sel) (auto simp: ex_dev_def ex_empty_wq_def ex_wq_def)
qed

text \<open>A text of one device with its group, its queue and its engine, and what they are after it was loaded.\<close>

definition ex_saved_dev :: accfg_device where
  "ex_saved_dev = ex_dev\<lparr>dev_read_buffer_limit := 8, dev_event_log_size := 128\<rparr>"

definition ex_saved_grp :: accfg_group where
  "ex_saved_grp = ex_grp\<lparr>grp_read_buffers_allowed := 48, grp_use_read_buffer_limit := 1\<rparr>"

definition ex_sections :: "saved_part list" where
  "ex_sections = [Device_section 2 ex_saved_dev, Group_section 3 ex_saved_grp, Queue_section 4 ''shared'' ex_wq ''app'' (- EIO, []), Engine_section 5 1]"

definition ex_saved_text :: ex_json where
  "ex_saved_text = JArr [JObj [(''dev'', JStr ''dsa0''), (''read_buffer_limit'', JInt 8), (''event_log_size'', JInt 128),
     (''groups'', JArr [JObj [(''dev'', JStr ''group0.0''), (''read_buffers_reserved'', JInt 0), (''use_read_buffer_limit'', JInt 1),
        (''read_buffers_allowed'', JInt 48), (''desc_progress_limit'', JInt 0), (''batch_progress_limit'', JInt 0),
        (''grouped_workqueues'', JArr [JObj [(''dev'', JStr ''wq0.0''), (''mode'', JStr ''shared''), (''size'', JInt 16), (''group_id'', JInt 0),
           (''priority'', JInt 10), (''block_on_fault'', JInt 0), (''max_batch_size'', JInt 32), (''max_transfer_size'', JInt 16384),
           (''type'', JStr ''user''), (''name'', JStr ''app''), (''driver_name'', JStr ''user''), (''threshold'', JInt 15),
           (''prs_disable'', JInt 0), (''ats_disable'', JInt 0)]]),
        (''grouped_engines'', JArr [JObj [(''dev'', JStr ''engine0.0''), (''group_id'', JInt 1)]])]])]]"

definition ex_saved_pairs :: "(string \<times> ex_json) list" where
  "ex_saved_pairs = [(''dev'', JStr ''dsa0''), (''read_buffer_limit'', JInt 8), (''event_log_size'', JInt 128), (''dev'', JStr ''group0.0''),
     (''read_buffers_reserved'', JInt 0), (''use_read_buffer_limit'', JInt 1), (''read_buffers_allowed'', JInt 48), (''desc_progress_limit'', JInt 0),
     (''batch_progress_limit'', JInt 0), (''dev'', JStr ''wq0.0''), (''mode'', JStr ''shared''), (''size'', JInt 16), (''group_id'', JInt 0),
     (''priority'', JInt 10), (''block_on_fault'', JInt 0), (''max_batch_size'', JInt 32), (''max_transfer_size'', JInt 16384), (''type'', JStr ''user''),
     (''name'', JStr ''app''), (''driver_name'', JStr ''user''), (''threshold'', JInt 15), (''prs_disable'', JInt 0), (''ats_disable'', JInt 0),
     (''dev'', JStr ''engine0.0''), (''group_id'', JInt 1)]"

lemma ex_saved_flat: "flat_array 8 (ex_js v) ex_saved_text = Some ex_saved_pairs"
  by (simp add: numeral_eq_Suc flat_array.simps flat_object.simps ex_js_def ex_saved_text_def concat_all_def ex_saved_pairs_def)

lemma ex_blank_names:
  "accfg_device_get_devname 2 ex_blank = Some ''dsa0''" "accfg_group_get_devname 3 ex_blank = Some ''group0.0''"
  "accfg_wq_get_devname 4 ex_blank = Some ''wq0.0''" "accfg_engine_get_devname 5 ex_blank = Some ''engine0.0''"
proof -
  have "devpath_to_devname ''/d/dsa0/wq0.0'' = Some ''wq0.0''" by code_simp
  then show "accfg_device_get_devname 2 ex_blank = Some ''dsa0''" "accfg_group_get_devname 3 ex_blank = Some ''group0.0''"
    "accfg_wq_get_devname 4 ex_blank = Some ''wq0.0''" "accfg_engine_get_devname 5 ex_blank = Some ''engine0.0''"
    by (simp_all add: accfg_device_get_devname_def accfg_group_get_devname_def accfg_wq_get_devname_def accfg_engine_get_devname_def
        ex_blank_sel ex_devnames) (simp add: ex_empty_wq_def ex_wq_def)
qed

lemma ex_saved_shows:
  "list_all2 (\<lambda>(k, v) (k', x). k = k' \<and> represents (ex_js w) v x) ex_saved_pairs (concat (map (section_pairs ex_blank) ex_sections))"
proof -
  have dev: "saved_device ex_saved_dev = [(''read_buffer_limit'', New_int 8), (''event_log_size'', New_int 128)]"
    by (simp add: saved_device_def ex_saved_dev_def ex_dev_def)
  have grp: "saved_numbers ex_saved_grp = [(''read_buffers_reserved'', New_int 0), (''use_read_buffer_limit'', New_int 1), (''read_buffers_allowed'', New_int 48),
      (''desc_progress_limit'', New_int 0), (''batch_progress_limit'', New_int 0)]"
    by (simp add: saved_numbers_def ex_saved_grp_def ex_grp_def s32_id)
  have queue: "saved_wq ex_wq ''app'' (- EIO, []) = [(''size'', New_int64 16), (''group_id'', New_int 0), (''priority'', New_int 10),
      (''block_on_fault'', New_int 0), (''max_batch_size'', New_int 32), (''max_transfer_size'', New_int64 16384), (''type'', New_string ''user''),
      (''name'', New_string ''app''), (''driver_name'', New_string ''user''), (''threshold'', New_int 15), (''prs_disable'', New_int 0), (''ats_disable'', New_int 0)]"
    by (simp add: saved_wq_def EIO_def ex_wq_def s32_id wq_type_str_def)
  show ?thesis
    by (simp add: ex_sections_def ex_saved_pairs_def ex_blank_names dev grp queue saved_engine_def represents_def ex_js_def json_null_def s32_id s64_def INT_MAX_def)
qed

lemma ex_sections_ok: "sections_ok idxd_os 1 ex_idle ex_blank 0 ex_sections"
proof -
  have ints: "''0'' = show_int 0" by code_simp
  have names: "''dsa0'' = ''dsa'' @ show_int 0" "''group0.0'' = child_name ''group'' 0 0" "''wq0.0'' = child_name ''wq'' 0 0"
    "''engine0.0'' = child_name ''engine'' 0 0"
    by (simp_all add: child_name_def ints [symmetric])
  have paths: "devpath_to_devname (dev_path ex_dev) = Some ''dsa0''" "devpath_to_devname (grp_path ex_grp) = Some ''group0.0''"
    "devpath_to_devname (wq_path ex_empty_wq) = Some ''wq0.0''" "devpath_to_devname (eng_path ex_eng) = Some ''engine0.0''"
    using ex_blank_names by (simp_all add: accfg_device_get_devname_def accfg_group_get_devname_def accfg_wq_get_devname_def
        accfg_engine_get_devname_def ex_blank_sel)
  have "section_ok idxd_os 1 ex_idle ex_blank 0 (Device_section 2 ex_saved_dev)"
  proof -
    have "named accfg_device_get_devname ''dsa0'' (c_devices (the (ctxs ex_blank 1))) ex_blank = Some 2"
      by (simp add: named_def ex_blank_sel ex_blank_names) (simp add: ex_ctx_def ex_blank_names)
    moreover have "os_access idxd_os (dev_path ex_dev @ ''/event_log_size'') k = None" for k by simp
    moreover have "device_numbers_ok ex_saved_dev" by (simp add: device_numbers_ok_def ex_saved_dev_def INT_MAX_def s32_id)
    ultimately show ?thesis
      using paths(1) unfolding section_ok.simps names
      by (intro conjI exI [of _ ex_dev] exI [of _ "''dsa''"] exI [of _ "0 :: int"]) (simp_all add: ex_blank_sel)
  qed
  moreover have "section_ok idxd_os 1 ex_idle ex_blank 2 (Group_section 3 ex_saved_grp)"
  proof -
    have "group_numbers_ok ex_saved_grp" by (simp add: group_numbers_ok_def ex_saved_grp_def ex_grp_def INT_MAX_def)
    moreover have "0 \<le> s32 (grp_desc_progress_limit ex_grp)" "0 \<le> s32 (grp_batch_progress_limit ex_grp)" "dev_type ex_dev \<noteq> ACCFG_DEVICE_IAX"
      "3 \<in> set (dev_groups ex_dev)" "grp_id ex_grp = 0" by (simp_all add: ex_grp_def ex_dev_def s32_id)
    ultimately show ?thesis
      using paths(2) unfolding section_ok.simps names
      by (intro conjI exI [of _ ex_dev] exI [of _ ex_grp] exI [of _ "0 :: int"]) (simp_all add: ex_blank_sel)
  qed
  moreover have "section_ok idxd_os 1 ex_idle ex_blank 2 (Queue_section 4 ''shared'' ex_wq ''app'' (- EIO, []))"
  proof -
    have "wq_numbers_ok ex_wq"
      by (simp add: wq_numbers_ok_def ex_wq_def s32_id u32_id INT_MAX_def LONG_MAX_def SYSFS_ATTR_SIZE_def)
    moreover have "wq_path ex_empty_wq = ex_path" "wq_id ex_empty_wq = 0" "wq_name ex_wq = Some ''app''" "u32 (dev_configurable ex_dev) \<noteq> 0"
      "4 \<in> set (dev_wqs ex_dev)"
      by (simp_all add: ex_empty_wq_def ex_wq_def ex_path_def ex_dev_def u32_id)
    ultimately show ?thesis
      using paths(3) ex_idle_mode unfolding section_ok.simps names
      by (intro conjI exI [of _ ex_dev] exI [of _ ex_empty_wq] exI [of _ "0 :: int"]
          exI [of _ "\<lambda>k. ex_idle k \<and> map_of (fs_files k) (ex_path @ ''/mode'') = Some (''shared'' @ [NL])"]) (simp_all add: ex_blank_sel)
  qed
  moreover have "section_ok idxd_os 1 ex_idle ex_blank 2 (Engine_section 5 1)"
  proof -
    have "5 \<in> set (dev_engines ex_dev)" "eng_id ex_eng = 0" by (simp_all add: ex_dev_def ex_eng_def)
    then show ?thesis
      using paths(4) unfolding section_ok.simps names
      by (intro conjI exI [of _ ex_dev] exI [of _ ex_eng] exI [of _ "0 :: int"]) (simp_all add: ex_blank_sel)
  qed
  ultimately show ?thesis by (simp add: ex_sections_def)
qed


end
