(* ===== verification/Show_Props.thy ===== *)
theory Show_Props
  imports Json_Facts List_Cmd
begin

text \<open>
  Properties of the objects that \<open>list\<close> and \<open>save-config\<close> show: which devices and work queues have one, what its
  members are, and the group that a work queue or an engine is shown in.
\<close>

section \<open>Devices and work queues\<close>

text \<open>
  The members of an object by a table: whether each is there, its key and its value.
\<close>

definition present :: "(bool \<times> string \<times> jnew) list \<Rightarrow> (string \<times> jnew) list" where
  "present rows = map snd (filter fst rows)"

lemma present_simps [simp]: "present [] = []" "present ((b, kv) # rows) = (if b then kv # present rows else present rows)"
  "present (rows @ rows') = present rows @ present rows'"
  by (simp_all add: present_def)

lemma present_split: "present (r # r' # rows) = present [r] @ present (r' # rows)"
  "present (r # rows @ rows') = present (r # rows) @ present rows'"
  by (simp add: present_def) (cases r; simp)

definition keys :: "(bool \<times> string \<times> jnew) list \<Rightarrow> string list" where
  "keys rows = map (fst \<circ> snd) rows"

lemma keys_simps [simp]: "keys [] = []" "keys ((b, k, v) # rows) = k # keys rows" "keys (rows @ rows') = keys rows @ keys rows'"
  by (simp_all add: keys_def)

lemma present_keys: "set (map fst (present rows)) \<subseteq> set (keys rows)" "distinct (keys rows) \<Longrightarrow> distinct (map fst (present rows))"
proof (induction rows)
  case (Cons r rows)
  obtain b k v where "r = (b, k, v)" by (cases r)
  with Cons show "set (map fst (present (r # rows))) \<subseteq> set (keys (r # rows))"
    "distinct (keys (r # rows)) \<Longrightarrow> distinct (map fst (present (r # rows)))" by auto
qed simp_all

lemma add_members_append: "add_members (as @ bs) ms = add_members bs (add_members as ms)"
  by (simp add: add_members_def)

text \<open>A member that is added twice with the same value is there once, at its first place.\<close>

lemma set_member_again: "distinct (map fst ms) \<Longrightarrow> (k, v) \<in> set ms \<Longrightarrow> set_member k v ms = ms"
proof -
  assume d: "distinct (map fst ms)" "(k, v) \<in> set ms"
  have "(case p of (k', v') \<Rightarrow> (k', if k' = k then v else v')) = p" if "p \<in> set ms" for p
    using eq_key_imp_eq_value [OF d(1)] d(2) that by (cases p) auto
  then have "map (\<lambda>(k', v'). (k', if k' = k then v else v')) ms = ms" by (intro map_idI)
  then show ?thesis using d(2) by (force simp: set_member_def)
qed

lemma distinct_map_fst_append: "distinct (map fst (as @ bs)) \<Longrightarrow> distinct (map fst as)"
  by simp

lemma add_members_twice:
  assumes "distinct (keys A @ k # keys B @ keys C)"
  shows "add_members (present (A @ (b, k, v) # B @ (c, k, v) # C)) [] = present (A @ (b, k, v) # B @ (c \<and> \<not> b, k, v) # C)"
proof (cases "c \<and> b")
  case True
  let ?as = "present (A @ (b, k, v) # B)"
  have "distinct (keys (A @ (b, k, v) # B) @ keys C)" using assms by simp
  then have d: "distinct (keys ((A @ (b, k, v) # B) @ C))" by (simp only: keys_simps)
  then have all: "distinct (map fst (?as @ present C))" using present_keys(2) by (metis present_simps(3))
  have "distinct (map fst ?as)" using all by (rule distinct_map_fst_append)
  then have "add_members ?as [] = ?as" using add_members_distinct [of "[]" ?as] by (simp only: append_Nil)
  note alone = this
  have "add_members (?as @ (k, v) # present C) [] = add_members (present C) (set_member k v (add_members ?as []))"
    by (simp add: add_members_append)
  also note alone
  also have "set_member k v ?as = ?as" using True by (intro set_member_again distinct_map_fst_append [OF all]) simp
  also have "add_members (present C) ?as = ?as @ present C" by (rule add_members_distinct [OF all])
  finally show ?thesis using True by simp
next
  case False
  have "distinct (keys (A @ B @ C))" "k \<notin> set (keys (A @ B @ C))" using assms by auto
  then have "distinct (map fst (present A @ present B @ present C))" "k \<notin> set (map fst (present A @ present B @ present C))"
    using present_keys [of "A @ B @ C"] by (simp_all only: present_simps) blast+
  with False have "distinct (map fst (present (A @ (b, k, v) # B @ (c, k, v) # C)))" by auto
  from add_members_distinct [of "[]", simplified, OF this] False show ?thesis by auto
qed

text \<open>A statement that makes what a row of the table says.\<close>

definition makes_row :: "'k field \<Rightarrow> 'k mach \<Rightarrow> bool \<times> string \<times> jnew \<Rightarrow> 'k mach \<Rightarrow> bool" where
  "makes_row f m row m' \<longleftrightarrow> (case row of (b, k, v) \<Rightarrow>
     \<exists>r. f m = Some (r, m') \<and> (if b then \<exists>x. r = Member k x \<and> made x = v else \<forall>k x. r \<noteq> Member k x))"

lemma run_rows:
  assumes "list_all2 (\<lambda>f row. makes_row f m row m) fs rows" "run_fields gs m = Some (kvs, m')"
  shows "run_fields (fs @ gs) m = Some (present rows @ kvs, m')"
  using assms(1)
proof (induction fs rows rule: list_all2_induct)
  case (Cons f fs row rows)
  then show ?case by (auto simp: makes_row_def split: prod.splits jfield.splits if_splits)
qed (use assms(2) in simp)

lemma run_row:
  assumes "makes_row f m row m1" "run_fields gs m1 = Some (kvs, m')"
  shows "run_fields (f # gs) m = Some (present [row] @ kvs, m')"
  using assms by (auto simp: makes_row_def split: prod.splits jfield.splits if_splits)

text \<open>
  What a device shows, from its attributes in the library and what the kernel answers: always, and what \<open>save-config\<close> leaves out.  The
  batch size is added twice: it is shown behind the read buffers, or behind \<open>ims_size\<close> when it is 0.
\<close>

definition saved_rows :: "accfg_device \<Rightarrow> string \<Rightarrow> (bool \<times> string \<times> jnew) list" where
  "saved_rows dv name =
    [(True, ''dev'', New_string name),
     (dev_type dv \<noteq> ACCFG_DEVICE_IAX, ''read_buffer_limit'', New_int (s32 (dev_read_buffer_limit dv))),
     (0 \<le> s32 (dev_event_log_size dv), ''event_log_size'', New_int (s32 (dev_event_log_size dv)))]"

definition count_rows :: "accfg_device \<Rightarrow> (bool \<times> string \<times> jnew) list" where
  "count_rows dv =
    [(0 \<le> s32 (dev_max_groups dv), ''max_groups'', New_int (s32 (dev_max_groups dv))),
     (0 \<le> s32 (dev_max_work_queues dv), ''max_work_queues'', New_int (s32 (dev_max_work_queues dv))),
     (0 \<le> s32 (dev_max_engines dv), ''max_engines'', New_int (s32 (dev_max_engines dv))),
     (0 \<le> s32 (dev_max_work_queues_size dv), ''work_queue_size'', New_int (s32 (dev_max_work_queues_size dv))),
     (True, ''numa_node'', New_int (s32 (dev_numa_node dv)))]"

definition kernel_rows :: "int \<times> int list \<Rightarrow> int \<times> int list \<Rightarrow> int \<times> int option \<Rightarrow> (bool \<times> string \<times> jnew) list" where
  "kernel_rows errs caps iaa =
    [(fst errs = 0 \<and> (\<exists>v \<in> set (snd errs). v \<noteq> 0), ''errors'', New_string (bitmask_text (snd errs))),
     (fst caps = 0, ''op_cap'', New_string (bitmask_text (snd caps))),
     (fst iaa = 0, ''iaa_cap'', New_int64 (s64 (the (snd iaa))))]"

definition feature_rows :: "accfg_device \<Rightarrow> accfg_device_state \<Rightarrow> (bool \<times> string \<times> jnew) list" where
  "feature_rows dv st =
    [(True, ''gen_cap'', New_int64 (s64 (dev_gencap dv))),
     (True, ''version'', New_int64 (s64 (dev_version dv))),
     (True, ''state'', New_string (if st = ACCFG_DEVICE_DISABLED then ''disabled'' else ''enabled'')),
     (dev_type dv \<noteq> ACCFG_DEVICE_IAX, ''max_read_buffers'', New_int (s32 (dev_max_read_buffers dv)))]"

definition limit_rows :: "accfg_device \<Rightarrow> (bool \<times> string \<times> jnew) list" where
  "limit_rows dv =
    [(u32 (dev_max_batch_size dv) \<noteq> 0, ''max_batch_size'', New_int (s32 (dev_max_batch_size dv))),
     (0 \<le> s32 (dev_ims_size dv), ''ims_size'', New_int (s32 (dev_ims_size dv))),
     (u32 (dev_max_batch_size dv) = 0, ''max_batch_size'', New_int 0),
     (u64 (dev_max_transfer_size dv) \<noteq> 0, ''max_transfer_size'', New_int64 (s64 (dev_max_transfer_size dv))),
     (0 \<le> s32 (dev_configurable dv), ''configurable'', New_int (s32 (dev_configurable dv))),
     (True, ''pasid_enabled'', New_int (of_bool (dev_pasid_enabled dv \<noteq> 0))),
     (True, ''cdev_major'', New_int (s32 (dev_cdev_major dv)))]"

definition clients_rows :: "int \<Rightarrow> (bool \<times> string \<times> jnew) list" where
  "clients_rows n = [(True, ''clients'', New_int (s32 n))]"

text \<open>The answers of the kernel, one after the other: the errors, the capabilities, the state and the number of clients.\<close>

definition device_reads :: "'k os \<Rightarrow> ptr \<Rightarrow> 'k mach \<Rightarrow> int \<times> int list \<Rightarrow> int \<times> int list \<Rightarrow> int \<times> int option \<Rightarrow> accfg_device_state \<Rightarrow> int \<Rightarrow> 'k mach \<Rightarrow> bool" where
  "device_reads os d m errs caps iaa st n m' \<longleftrightarrow> (\<exists>m1 m2 m3 m4.
     accfg_device_get_errors os d m = Some (errs, m1) \<and> accfg_device_get_op_cap os d m1 = Some (caps, m2) \<and>
     accfg_device_get_iaa_cap os d m2 = Some (iaa, m3) \<and> accfg_device_get_state os d m3 = Some (st, m4) \<and>
     accfg_device_get_clients os d m4 = Some (n, m'))"

text \<open>Reading keeps the device, and the object graph well-formed.\<close>

lemma read_dir_str_same [simp]:
  "devices (snd (read_dir_str os dir name m)) = devices m" "sys.more (snd (read_dir_str os dir name m)) = sys.more m"
  by (simp_all add: read_dir_str_def case_prod_beta)

lemma dir_reader_same:
  assumes "wf_state m" "(if d = 0 then Some (x, m) else devices m d \<bind> (\<lambda>dv. case_prod g (read_dir_str os (dev_path dv) name m))) = Some (r, m')"
    and "\<And>s m1. g s m1 = Some (r, m') \<Longrightarrow> sys.more m' = sys.more m1"
  shows "devices m' = devices m \<and> wf_state m'"
proof -
  have "sys.more m' = sys.more m"
  proof (cases "d = 0")
    case False
    then obtain dv where dv: "devices m d = Some dv" using assms(2) by (cases "devices m d") simp_all
    with assms(2) False have "case_prod g (read_dir_str os (dev_path dv) name m) = Some (r, m')" by simp
    then show ?thesis using assms(3) read_dir_str_same(2) [of os "dev_path dv" name m] by (metis case_prod_beta)
  qed (use assms(2) in simp)
  then show ?thesis using wf_sys_only [OF assms(1)] sys_only_fields(1) by blast
qed

lemma device_reads_same:
  assumes "wf_state m"
  shows "accfg_device_get_errors os d m = Some (r, m') \<Longrightarrow> devices m' = devices m \<and> wf_state m'"
    and "accfg_device_get_op_cap os d m = Some (r', m') \<Longrightarrow> devices m' = devices m \<and> wf_state m'"
    and "accfg_device_get_iaa_cap os d m = Some (r'', m') \<Longrightarrow> devices m' = devices m \<and> wf_state m'"
    and "os_ok os \<Longrightarrow> devices m d = Some dv \<Longrightarrow> accfg_device_get_state os d m = Some (st, m') \<Longrightarrow> devices m' = devices m \<and> wf_state m'"
proof -
  show "accfg_device_get_errors os d m = Some (r, m') \<Longrightarrow> devices m' = devices m \<and> wf_state m'"
    unfolding accfg_device_get_errors_def
    by (erule dir_reader_same [OF assms]) (auto simp: bind_Some_iff Let_def split: sum.splits)
  show "accfg_device_get_op_cap os d m = Some (r', m') \<Longrightarrow> devices m' = devices m \<and> wf_state m'"
    unfolding accfg_device_get_op_cap_def
    by (erule dir_reader_same [OF assms]) (auto simp: Let_def split: sum.splits option.splits)
  show "accfg_device_get_iaa_cap os d m = Some (r'', m') \<Longrightarrow> devices m' = devices m \<and> wf_state m'"
    unfolding accfg_device_get_iaa_cap_def
    by (erule dir_reader_same [OF assms]) (auto simp: Let_def split: sum.splits option.splits prod.splits)
  assume a: "os_ok os" "devices m d = Some dv" "accfg_device_get_state os d m = Some (st, m')"
  have "wp (accfg_device_get_state os d m) (\<lambda>(_, m'). error_frame m m')"
    using read_or_record_wp [OF a(1) assms a(2), of "dev_path dv @ ''/state''" 0 0 0]
      snprintf_path_fits [OF wf_device(1) [OF assms a(2)], of "''state''"] a(2)
    by (auto simp: accfg_device_get_state_def elim!: wp_mono)
  with a(3) have "error_frame m m'" by (simp add: wp_iff)
  then show "devices m' = devices m \<and> wf_state m'" using wf_error_frame [OF _ assms] by (auto simp: error_frame_def)
qed

text \<open>The statements of the builder make these rows.\<close>

lemmas device_row_defs = makes_row_def made_def name_field_def int_field_def nonneg_field_def hex_field_def not_iax_field_def positive_field_def
  pasid_field_def accfg_device_get_devname_def accfg_device_get_read_buffer_limit_def accfg_device_get_event_log_size_def
  accfg_device_get_max_groups_def accfg_device_get_max_work_queues_def accfg_device_get_max_engines_def
  accfg_device_get_max_work_queues_size_def accfg_device_get_numa_node_def accfg_device_get_gen_cap_def accfg_device_get_version_def
  accfg_device_get_max_read_buffers_def accfg_device_get_max_batch_size_def accfg_device_get_ims_size_def
  accfg_device_get_max_transfer_size_def accfg_device_get_configurable_def accfg_device_get_pasid_enabled_def
  accfg_device_get_cdev_major_def accfg_device_get_type_def

lemma positive_u32: "u64 (u32 x) > 0 \<longleftrightarrow> u32 x \<noteq> 0" "u64 y > 0 \<longleftrightarrow> u64 y \<noteq> 0" "u32 x = 0 \<Longrightarrow> s32 x = 0"
proof -
  show "u64 (u32 x) > 0 \<longleftrightarrow> u32 x \<noteq> 0" by (simp add: u64_def u32_def less_le)
  show "u64 y > 0 \<longleftrightarrow> u64 y \<noteq> 0" by (simp add: u64_def less_le)
  show "s32 x = 0" if "u32 x = 0" using s32_u32 [of x] that by (simp add: s32_id)
qed

lemma save_rows:
  assumes "devices m d = Some dv" "devpath_to_devname (dev_path dv) = Some name"
  shows "list_all2 (\<lambda>f row. makes_row f m row m) (device_save_fields d) (saved_rows dv name)"
  using assms by (simp add: device_save_fields_def saved_rows_def device_row_defs)

lemma more_rows:
  assumes "devices m d = Some dv"
  shows "list_all2 (\<lambda>f row. makes_row f m row m)
      [nonneg_field ''max_groups'' accfg_device_get_max_groups d, nonneg_field ''max_work_queues'' accfg_device_get_max_work_queues d,
       nonneg_field ''max_engines'' accfg_device_get_max_engines d, nonneg_field ''work_queue_size'' accfg_device_get_max_work_queues_size d,
       int_field ''numa_node'' accfg_device_get_numa_node d] (count_rows dv)"
    and "list_all2 (\<lambda>f row. makes_row f m row m)
      [hex_field ''gen_cap'' accfg_device_get_gen_cap d, hex_field ''version'' accfg_device_get_version d] (take 2 (feature_rows dv st))"
    and "list_all2 (\<lambda>f row. makes_row f m row m)
      [not_iax_field ''max_read_buffers'' accfg_device_get_max_read_buffers d,
       positive_field ''max_batch_size'' New_int accfg_device_get_max_batch_size d,
       nonneg_field ''ims_size'' accfg_device_get_ims_size d, nonneg_field ''max_batch_size'' accfg_device_get_max_batch_size d,
       positive_field ''max_transfer_size'' New_int64 accfg_device_get_max_transfer_size d,
       nonneg_field ''configurable'' accfg_device_get_configurable d, pasid_field d, int_field ''cdev_major'' accfg_device_get_cdev_major d]
      (drop 3 (feature_rows dv st) @ (u32 (dev_max_batch_size dv) \<noteq> 0, ''max_batch_size'', New_int (s32 (dev_max_batch_size dv))) #
        [limit_rows dv ! 1] @ (0 \<le> s32 (dev_max_batch_size dv), ''max_batch_size'', New_int (s32 (dev_max_batch_size dv))) # drop 3 (limit_rows dv))"
  using assms positive_u32 by (simp_all add: count_rows_def feature_rows_def limit_rows_def device_row_defs s32_id)

lemma kernel_row_makes:
  shows "accfg_device_get_errors os d m = Some (errs, m') \<Longrightarrow> makes_row (errors_field os d) m (kernel_rows errs caps iaa ! 0) m'"
    and "accfg_device_get_op_cap os d m = Some (caps, m') \<Longrightarrow> makes_row (op_cap_field os d) m (kernel_rows errs caps iaa ! 1) m'"
    and "accfg_device_get_iaa_cap os d m = Some (iaa, m') \<Longrightarrow> fst iaa = 0 \<longrightarrow> snd iaa \<noteq> None \<Longrightarrow>
      makes_row (iaa_cap_field os d) m (kernel_rows errs caps iaa ! 2) m'"
    and "accfg_device_get_state os d m = Some (st, m') \<Longrightarrow> makes_row (device_state_field os d) m (feature_rows dv st ! 2) m'"
    and "accfg_device_get_clients os d m = Some (n, m') \<Longrightarrow> makes_row (run_int_field ''clients'' (accfg_device_get_clients os d)) m (hd (clients_rows n)) m'"
proof -
  show "makes_row (errors_field os d) m (kernel_rows errs caps iaa ! 0) m'" if "accfg_device_get_errors os d m = Some (errs, m')"
    using that by (cases errs) (auto simp: makes_row_def errors_field_def kernel_rows_def made_def util_bitmask_to_string_def list_ex_iff)
  show "makes_row (op_cap_field os d) m (kernel_rows errs caps iaa ! 1) m'" if "accfg_device_get_op_cap os d m = Some (caps, m')"
    using that by (cases caps) (auto simp: makes_row_def op_cap_field_def kernel_rows_def made_def util_bitmask_to_string_def)
  show "makes_row (iaa_cap_field os d) m (kernel_rows errs caps iaa ! 2) m'"
    if "accfg_device_get_iaa_cap os d m = Some (iaa, m')" "fst iaa = 0 \<longrightarrow> snd iaa \<noteq> None"
    using that by (cases iaa) (auto simp: makes_row_def iaa_cap_field_def kernel_rows_def made_def numeral_2_eq_2)
  show "makes_row (device_state_field os d) m (feature_rows dv st ! 2) m'" if "accfg_device_get_state os d m = Some (st, m')"
    using that by (cases st) (auto simp: makes_row_def device_state_field_def feature_rows_def made_def numeral_2_eq_2)
  show "makes_row (run_int_field ''clients'' (accfg_device_get_clients os d)) m (hd (clients_rows n)) m'"
    if "accfg_device_get_clients os d m = Some (n, m')"
    using that by (auto simp: makes_row_def run_int_field_def clients_rows_def made_def)
qed

text \<open>A capability that was read is there.\<close>

lemma iaa_cap_there:
  assumes "os_ok os" "d \<noteq> 0" "accfg_device_get_iaa_cap os d m = Some (iaa, m')"
  shows "fst iaa = 0 \<longrightarrow> snd iaa \<noteq> None"
  using assms
  by (auto simp: accfg_device_get_iaa_cap_def read_dir_str_def bind_Some_iff Let_def sys_call_defs EIO_def errno_value_def
      split: if_splits prod.splits sum.splits option.splits dest!: os_ok_open)

lemma device_fields_rows:
  assumes "os_ok os" "wf_state m" "devices m d = Some dv" "devpath_to_devname (dev_path dv) = Some name" "device_reads os d m errs caps iaa st n m'"
  shows "\<exists>kvs. run_fields (device_save_fields d @ device_more_fields os d) m = Some (kvs, m') \<and>
    add_members kvs [] = present (saved_rows dv name @ count_rows dv @ kernel_rows errs caps iaa @ feature_rows dv st @ limit_rows dv @ clients_rows n)"
proof -
  from assms(5) obtain m1 m2 m3 m4 where r: "accfg_device_get_errors os d m = Some (errs, m1)" "accfg_device_get_op_cap os d m1 = Some (caps, m2)"
    "accfg_device_get_iaa_cap os d m2 = Some (iaa, m3)" "accfg_device_get_state os d m3 = Some (st, m4)" "accfg_device_get_clients os d m4 = Some (n, m')"
    unfolding device_reads_def by blast
  have s1: "devices m1 d = Some dv" "wf_state m1" using device_reads_same(1) [OF assms(2) r(1)] assms(3) by simp_all
  have s2: "devices m2 d = Some dv" "wf_state m2" using device_reads_same(2) [OF s1(2) r(2)] s1(1) by simp_all
  have s3: "devices m3 d = Some dv" "wf_state m3" using device_reads_same(3) [OF s2(2) r(3)] s2(1) by simp_all
  have s4: "devices m4 d = Some dv" using device_reads_same(4) [OF s3(2) assms(1) s3(1) r(4)] s3(1) by simp
  have "d \<noteq> 0" by (rule wf_device(3) [OF assms(2,3)])
  note iaa = iaa_cap_there [OF assms(1) this r(3)]
  have "run_fields [run_int_field ''clients'' (accfg_device_get_clients os d)] m4 = Some (present (clients_rows n), m')"
    using run_row [OF kernel_row_makes(5) [OF r(5)], of "[]" "[]" m'] by (simp add: clients_rows_def)
  note clients = run_rows [OF more_rows(3) [OF s4, of st] this]
  note state = run_rows [OF more_rows(2) [OF s3(1), of st] run_row [OF kernel_row_makes(4) [OF r(4), of dv] clients]]
  note caps = run_row [OF kernel_row_makes(1) [OF r(1), of caps iaa] run_row [OF kernel_row_makes(2) [OF r(2), of errs iaa]
      run_row [OF kernel_row_makes(3) [OF r(3) iaa, of errs caps] state]]]
  note all = run_rows [OF save_rows [OF assms(3,4)] run_rows [OF more_rows(1) [OF assms(3)] caps]]
  let ?b = "(u32 (dev_max_batch_size dv) \<noteq> 0, ''max_batch_size'', New_int (s32 (dev_max_batch_size dv)))"
  let ?A = "saved_rows dv name @ count_rows dv @ kernel_rows errs caps iaa @ feature_rows dv st"
  let ?B = "[limit_rows dv ! 1]" and ?C = "drop 3 (limit_rows dv) @ clients_rows n"
  obtain k0 k1 k2 where "kernel_rows errs caps iaa = [k0, k1, k2]" by (simp add: kernel_rows_def)
  then have k: "kernel_rows errs caps iaa = [k0, k1, k2]" "kernel_rows errs caps iaa ! 0 = k0" "kernel_rows errs caps iaa ! 1 = k1"
    "kernel_rows errs caps iaa ! 2 = k2" by simp_all
  obtain f0 f1 f2 f3 where "feature_rows dv st = [f0, f1, f2, f3]" by (simp add: feature_rows_def)
  then have f: "feature_rows dv st = [f0, f1, f2, f3]" "take 2 (feature_rows dv st) = [f0, f1]" "feature_rows dv st ! 2 = f2"
    "drop 3 (feature_rows dv st) = [f3]" by simp_all
  let ?kvs = "present (?A @ ?b # ?B @ (0 \<le> s32 (dev_max_batch_size dv), ''max_batch_size'', New_int (s32 (dev_max_batch_size dv))) # ?C)"
  have "run_fields (device_save_fields d @ device_more_fields os d) m = Some (?kvs, m')"
    using all unfolding k(2-4) f(2-4)
    by (simp only: k(1) f(1) device_more_fields_def append.simps append_assoc present_simps(3) present_split append_Nil append_Nil2)
  moreover have "distinct (keys ?A @ ''max_batch_size'' # keys ?B @ keys ?C)"
    by (simp add: saved_rows_def count_rows_def kernel_rows_def feature_rows_def limit_rows_def clients_rows_def)
  note twice = add_members_twice [OF this, of "u32 (dev_max_batch_size dv) \<noteq> 0" "New_int (s32 (dev_max_batch_size dv))" "0 \<le> s32 (dev_max_batch_size dv)"]
  have "present (?A @ ?b # ?B @ (0 \<le> s32 (dev_max_batch_size dv) \<and> \<not> u32 (dev_max_batch_size dv) \<noteq> 0, ''max_batch_size'', New_int (s32 (dev_max_batch_size dv))) # ?C) =
      present (saved_rows dv name @ count_rows dv @ kernel_rows errs caps iaa @ feature_rows dv st @ limit_rows dv @ clients_rows n)"
    using positive_u32(3) [of "dev_max_batch_size dv"] by (cases "u32 (dev_max_batch_size dv) = 0") (simp_all add: limit_rows_def)
  with twice have "add_members ?kvs [] = present (saved_rows dv name @ count_rows dv @ kernel_rows errs caps iaa @ feature_rows dv st @ limit_rows dv @ clients_rows n)"
    by (simp only:)
  ultimately show ?thesis by blast
qed

text \<open>
  C17: a device has an object exactly when it is enabled or idle devices are asked for.  With the flag for saving, its members are the name, the read
  buffers (not for IAX) and the size of the event log; else also the counts, the errors and capabilities that the kernel shows, the state, the limits and
  the number of clients, each with the key, the value and the condition that its row of the tables above gives, in this order, the batch size once; no
  other value of the library changes.
\<close>

theorem util_device_to_json_shows:
  assumes "json_heap jb nodes" "os_ok os" "alloc_ok os" "wf_state m" "devices m d = Some dv" "devpath_to_devname (dev_path dv) = Some name"
    and "accfg_device_get_state os d m = Some (st, m1)"
    and "\<not> has_flag flags UTIL_JSON_SAVE \<longrightarrow> device_reads os d m1 errs caps iaa st' n m2"
  shows "if st = ACCFG_DEVICE_ENABLED \<or> has_flag flags UTIL_JSON_IDLE
     then \<exists>obj j'. util_device_to_json os jb d flags (m, j) = Some (Some obj, if has_flag flags UTIL_JSON_SAVE then m1 else m2, j') \<and> nodes j obj = None \<and>
       object_shows nodes j' obj (present (if has_flag flags UTIL_JSON_SAVE then saved_rows dv name
         else saved_rows dv name @ count_rows dv @ kernel_rows errs caps iaa @ feature_rows dv st' @ limit_rows dv @ clients_rows n)) \<and>
       keeps_but obj nodes j j'
     else \<exists>j'. util_device_to_json os jb d flags (m, j) = Some (None, m1, j')"
proof -
  have m1: "devices m1 d = Some dv" "wf_state m1" using device_reads_same(4) [OF assms(4,2,5,7)] assms(5) by simp_all
  let ?save = "has_flag flags UTIL_JSON_SAVE"
  let ?rows = "if ?save then saved_rows dv name else saved_rows dv name @ count_rows dv @ kernel_rows errs caps iaa @ feature_rows dv st' @ limit_rows dv @ clients_rows n"
  obtain obj j1 where o: "jb_new_object jb j = (Some obj, j1)" "nodes j obj = None" "nodes j1 = (nodes j)(obj \<mapsto> N_object [])"
    by (rule makesE [OF json_heapD(1) [OF assms(1)]])
  have "\<exists>kvs. run_fields (device_fields os d flags) m1 = Some (kvs, if ?save then m1 else m2) \<and> add_members kvs [] = present ?rows"
  proof (cases ?save)
    case True
    have "run_fields (device_save_fields d @ []) m1 = Some (present (saved_rows dv name) @ [], m1)"
      by (rule run_rows [OF save_rows [OF m1(1) assms(6)]]) simp
    moreover have "distinct (map fst (present (saved_rows dv name)))" by (rule present_keys(2)) (simp add: saved_rows_def)
    then have "add_members (present (saved_rows dv name)) [] = present (saved_rows dv name)" using add_members_distinct [of "[]"] by simp
    ultimately show ?thesis using True by (simp add: device_fields_def)
  next
    case False
    with device_fields_rows [OF assms(2) m1(2,1) assms(6)] assms(8) show ?thesis by (simp add: device_fields_def)
  qed
  then obtain kvs where kvs: "run_fields (device_fields os d flags) m1 = Some (kvs, if ?save then m1 else m2)" "add_members kvs [] = present ?rows" by blast
  show ?thesis
  proof (cases "st = ACCFG_DEVICE_ENABLED \<or> has_flag flags UTIL_JSON_IDLE")
    case True
    have "object_shows nodes j1 obj []" by (simp add: object_shows_def o(3))
    moreover have "run_fields (map snd (map (Pair True) (device_fields os d flags))) m1 = Some (kvs, if ?save then m1 else m2)"
      using kvs(1) by (simp add: o_def)
    ultimately obtain j' where j': "add_fields jb flags obj (map (Pair True) (device_fields os d flags)) (m1, j1) = Some (True, if ?save then m1 else m2, j')"
      "object_shows nodes j' obj (add_members kvs [])" "keeps_but obj nodes j1 j'"
      using add_fields_shows [OF assms(1)] by blast
    have "keeps_but obj nodes j j1" by (simp add: keeps_but_def o(3))
    then have "keeps_but obj nodes j j'" by (rule keeps_but_trans) (rule j'(3))
    moreover have "util_device_to_json os jb d flags (m, j) = Some (Some obj, if ?save then m1 else m2, j')"
      using True o(1) assms(7) j'(1) by (auto simp: util_device_to_json_def build_end_def sys_alloc_ok [OF assms(3)])
    ultimately have "\<exists>obj j'. util_device_to_json os jb d flags (m, j) = Some (Some obj, if ?save then m1 else m2, j') \<and> nodes j obj = None \<and>
        object_shows nodes j' obj (present ?rows) \<and> keeps_but obj nodes j j'"
      using o(2) j'(2) unfolding kvs(2) by blast
    then show ?thesis using True by (simp only: if_True)
  next
    case False
    then show ?thesis using o(1) assms(7) by (simp add: util_device_to_json_def)
  qed
qed

text \<open>The text of the mode; a mode that is neither is shown as the name of the work queue.\<close>

definition mode_text :: "int \<Rightarrow> string \<Rightarrow> string" where
  "mode_text mode name = (if mode = ACCFG_WQ_SHARED then ''shared'' else if mode = ACCFG_WQ_DEDICATED then ''dedicated'' else name)"

lemma mode_value_text:
  "mode = ACCFG_WQ_SHARED \<or> mode = ACCFG_WQ_DEDICATED \<Longrightarrow> mode_value jb mode v j = jb_new_string jb (mode_text mode name) j"
  by (auto simp: mode_value_def mode_text_def)

lemma object_shows_added:
  assumes "json_heap jb nodes" "object_shows nodes j obj kvs" "nodes j v = None" "nodes j1 = (nodes j)(v \<mapsto> N_value x)"
  shows "object_shows nodes (jb_object_add jb obj k v j1) obj (set_member k x kvs)" "keeps_but obj nodes j (jb_object_add jb obj k v j1)"
    and "nodes (jb_object_add jb obj k v j1) v = Some (N_value x)"
proof -
  have v: "nodes j1 v = Some (N_value x)" by (simp add: assms(4))
  note add = object_shows_add [OF assms(1) object_shows_new [OF assms(2-4)] v, of k]
  show "object_shows nodes (jb_object_add jb obj k v j1) obj (set_member k x kvs)" by (rule add(1))
  have "keeps_but obj nodes j j1" using assms(3,4) by (auto simp: keeps_but_def)
  then show "keeps_but obj nodes j (jb_object_add jb obj k v j1)" by (rule keeps_but_trans [OF _ add(2)])
  have "v \<noteq> obj" using assms(2,3) by (auto simp: object_shows_def)
  with add(2) v show "nodes (jb_object_add jb obj k v j1) v = Some (N_value x)" by (simp add: keeps_but_def)
qed

text \<open>
  C16: a work queue has an object exactly when it is enabled, locked or idle ones are asked for: its name, its mode and the members
  that its attributes give.  A mode that cannot be told shows the name of the work queue in its place.
\<close>

theorem util_wq_to_json_shows:
  assumes "json_heap jb nodes" "accfg_wq_get_state os w m = Some (st, m1)" "accfg_wq_get_devname w m1 = Some name"
    and "accfg_wq_get_mode os w m1 = Some (mode, m2)"
    and "run_fields (map snd (wq_fields os w st flags)) m2 = Some (kvs, m3)" "distinct (''dev'' # ''mode'' # map fst kvs)"
  shows "if st = ACCFG_WQ_ENABLED \<or> st = ACCFG_WQ_LOCKED \<or> has_flag flags UTIL_JSON_IDLE
     then \<exists>obj j'. util_wq_to_json os jb w flags (m, j) = Some (Some obj, m3, j') \<and> nodes j obj = None \<and>
       object_shows nodes j' obj ((''dev'', New_string name) # (''mode'', New_string (mode_text mode name)) # kvs) \<and> keeps_but obj nodes j j'
     else \<exists>j'. util_wq_to_json os jb w flags (m, j) = Some (None, m1, j')"
proof -
  note h = json_heapD [OF assms(1)]
  obtain obj j1 where o: "jb_new_object jb j = (Some obj, j1)" "nodes j obj = None" "nodes j1 = (nodes j)(obj \<mapsto> N_object [])"
    by (rule makesE [OF h(1)])
  show ?thesis
  proof (cases "st = ACCFG_WQ_ENABLED \<or> st = ACCFG_WQ_LOCKED \<or> has_flag flags UTIL_JSON_IDLE")
    case False
    then show ?thesis using o(1) assms(2) by (auto simp: util_wq_to_json_def)
  next
    case True
    have new: "object_shows nodes j1 obj []" by (simp add: object_shows_def o(3))
    obtain v j2 where v: "jb_new_string jb name j1 = (Some v, j2)" "nodes j1 v = None" "nodes j2 = (nodes j1)(v \<mapsto> N_value (New_string name))"
      by (rule makesE [OF h(5)])
    have dev: "object_shows nodes (jb_object_add jb obj ''dev'' v j2) obj [(''dev'', New_string name)]"
      "keeps_but obj nodes j1 (jb_object_add jb obj ''dev'' v j2)"
      "nodes (jb_object_add jb obj ''dev'' v j2) v = Some (N_value (New_string name))"
      using object_shows_added [OF assms(1), OF new v(2,3), where k = "''dev''"] by (simp_all add: set_member_def)
    let ?j3 = "jb_object_add jb obj ''dev'' v j2"
    let ?kvs = "[(''dev'', New_string name), (''mode'', New_string (mode_text mode name))]"
    have "\<exists>u j4. mode_value jb mode v ?j3 = (Some u, j4) \<and>
        object_shows nodes (jb_object_add jb obj ''mode'' u j4) obj ?kvs \<and> keeps_but obj nodes ?j3 (jb_object_add jb obj ''mode'' u j4)"
    proof (cases "mode = ACCFG_WQ_SHARED \<or> mode = ACCFG_WQ_DEDICATED")
      case True
      obtain u j4 where u: "jb_new_string jb (mode_text mode name) ?j3 = (Some u, j4)" "nodes ?j3 u = None"
        "nodes j4 = (nodes ?j3)(u \<mapsto> N_value (New_string (mode_text mode name)))" by (rule makesE [OF h(5)])
      note added = object_shows_added [OF assms(1), OF dev(1) u(2,3), where k = "''mode''"]
      have "object_shows nodes (jb_object_add jb obj ''mode'' u j4) obj ?kvs" using added(1) by (simp add: set_member_def)
      moreover have "mode_value jb mode v ?j3 = (Some u, j4)" unfolding u(1) [symmetric]
        by (rule mode_value_text [OF True])
      ultimately show ?thesis using added(2) by blast
    next
      case False
      then show ?thesis
        using object_shows_add [OF assms(1), OF dev(1,3), of "''mode''"] by (simp add: mode_value_def mode_text_def set_member_def)
    qed
    then obtain u j4 where u: "mode_value jb mode v ?j3 = (Some u, j4)" "object_shows nodes (jb_object_add jb obj ''mode'' u j4) obj ?kvs"
      "keeps_but obj nodes ?j3 (jb_object_add jb obj ''mode'' u j4)" by blast
    from add_fields_shows [OF assms(1), OF assms(5) u(2)] obtain j' where
      j': "add_fields jb flags obj (wq_fields os w st flags) (m2, jb_object_add jb obj ''mode'' u j4) = Some (True, m3, j')"
        "object_shows nodes j' obj (add_members kvs ?kvs)" "keeps_but obj nodes (jb_object_add jb obj ''mode'' u j4) j'" by blast
    have "keeps_but obj nodes j j1" by (simp add: keeps_but_def o(3))
    then have "keeps_but obj nodes j j'"
      by (rule keeps_but_trans) (rule keeps_but_trans [OF dev(2)], rule keeps_but_trans [OF u(3) j'(3)])
    moreover have "add_members kvs ?kvs = ?kvs @ kvs" using assms(6) by (intro add_members_distinct) simp
    moreover have "util_wq_to_json os jb w flags (m, j) = Some (Some obj, m3, j')"
      using True assms(2-4) by (auto simp: util_wq_to_json_def o(1) v(1) u(1) j'(1) build_end_def)
    ultimately show ?thesis using True o(2) j'(2) by auto
  qed
qed


section \<open>The array of a group\<close>

text \<open>Slots of other groups are passed over.\<close>

lemma place_loop_pass:
  assumes "\<forall>k < n. i + k < length ids \<and> ids ! (i + k) \<noteq> gid"
  shows "place_loop jb checked key gid jobj ids objs i (n + r) s = place_loop jb checked key gid jobj ids objs (i + n) r s"
  using assms
proof (induction n arbitrary: i)
  case (Suc n)
  obtain found arrs j where s: "s = (found, arrs, j)" by (cases s)
  have "\<forall>k < n. Suc i + k < length ids \<and> ids ! (Suc i + k) \<noteq> gid" using Suc.prems by auto
  from Suc.IH [OF this] Suc.prems [rule_format, of 0] show ?case by (simp add: s nth_opt_def)
qed simp

lemma place_loop_none:
  assumes "gid \<notin> set ids"
  shows "place_loop jb checked key gid jobj ids objs 0 (length ids) s = Some (True, s)"
proof -
  have "\<forall>k < length ids. 0 + k < length ids \<and> ids ! (0 + k) \<noteq> gid" using assms by (auto simp: in_set_conv_nth)
  from place_loop_pass [OF this, where r = 0] show ?thesis by (cases s) simp
qed

text \<open>The slot of the group is the only one that is used.\<close>

lemma place_loop_at:
  assumes "i < length ids" "ids ! i = gid" "\<forall>k < length ids. k \<noteq> i \<longrightarrow> ids ! k \<noteq> gid"
  shows "place_loop jb checked key gid jobj ids objs 0 (length ids) s =
     place_loop jb checked key gid jobj ids objs i (Suc (length ids - Suc i)) s"
    and "place_loop jb checked key gid jobj ids objs (Suc i) (length ids - Suc i) s = Some (True, s)"
proof -
  have "\<forall>k < i. 0 + k < length ids \<and> ids ! (0 + k) \<noteq> gid" using assms by auto
  moreover have "i + Suc (length ids - Suc i) = length ids" using assms(1) by simp
  ultimately show "place_loop jb checked key gid jobj ids objs 0 (length ids) s =
     place_loop jb checked key gid jobj ids objs i (Suc (length ids - Suc i)) s"
    using place_loop_pass [where i = 0 and n = i and r = "Suc (length ids - Suc i)"] by (simp only: add_0)
  have "\<forall>k < length ids - Suc i. Suc i + k < length ids \<and> ids ! (Suc i + k) \<noteq> gid" using assms by auto
  from place_loop_pass [OF this, where r = 0] show "place_loop jb checked key gid jobj ids objs (Suc i) (length ids - Suc i) s = Some (True, s)"
    by (cases s) simp
qed

text \<open>
  with the groups of a device in distinct slots, the object of a work queue or an engine is put at the end of the array of its own
  group and of no other; the first one makes the array, which becomes a member of the object of the group; one
  whose group is not shown is put nowhere.
\<close>

lemma place_in_group:
  assumes "json_heap jb nodes" "distinct ids" "length objs = length ids" "length arrs = length ids"
  shows "(gid \<notin> set ids \<longrightarrow> place_loop jb checked key gid jobj ids objs 0 (length ids) (False, arrs, j) = Some (True, False, arrs, j))
   \<and> (\<forall>i < length ids. ids ! i = gid \<longrightarrow>
     (\<forall>a vs. arrs ! i = Some a \<longrightarrow> nodes j a = Some (N_array vs) \<longrightarrow>
        (\<exists>j'. place_loop jb checked key gid jobj ids objs 0 (length ids) (False, arrs, j) = Some (True, True, arrs, j') \<and>
           nodes j' = (nodes j)(a \<mapsto> N_array (vs @ [Some jobj]))))
     \<and> (\<forall>obj ms. arrs ! i = None \<longrightarrow> objs ! i = Some obj \<longrightarrow> nodes j obj = Some (N_object ms) \<longrightarrow>
        (\<exists>a j'. place_loop jb checked key gid jobj ids objs 0 (length ids) (False, arrs, j) = Some (True, True, arrs[i := Some a], j') \<and>
           nodes j a = None \<and> nodes j' = (nodes j)(a \<mapsto> N_array [Some jobj], obj \<mapsto> N_object (set_member key a ms)))))"
proof (intro conjI allI impI)
  assume "gid \<notin> set ids"
  then show "place_loop jb checked key gid jobj ids objs 0 (length ids) (False, arrs, j) = Some (True, False, arrs, j)"
    by (rule place_loop_none)
next
  fix i a vs
  assume i: "i < length ids" "ids ! i = gid" and a: "arrs ! i = Some a" "nodes j a = Some (N_array vs)"
  note at = place_loop_at [OF i] and h = json_heapD [OF assms(1)]
  have single: "\<forall>k < length ids. k \<noteq> i \<longrightarrow> ids ! k \<noteq> gid" using assms(2) i by (auto simp: nth_eq_iff_index_eq)
  have "place_loop jb checked key gid jobj ids objs 0 (length ids) (False, arrs, j) = Some (True, True, arrs, jb_array_add jb a (Some jobj) j)"
    unfolding at(1) [OF single] using i a assms(3,4) by (simp add: nth_opt_def at(2) [OF single])
  with h(8) [OF a(2), of "Some jobj"] show "\<exists>j'. place_loop jb checked key gid jobj ids objs 0 (length ids) (False, arrs, j) = Some (True, True, arrs, j') \<and>
      nodes j' = (nodes j)(a \<mapsto> N_array (vs @ [Some jobj]))" by blast
next
  fix i obj ms
  assume i: "i < length ids" "ids ! i = gid" and o: "arrs ! i = None" "objs ! i = Some obj" "nodes j obj = Some (N_object ms)"
  note at = place_loop_at [OF i] and h = json_heapD [OF assms(1)]
  have single: "\<forall>k < length ids. k \<noteq> i \<longrightarrow> ids ! k \<noteq> gid" using assms(2) i by (auto simp: nth_eq_iff_index_eq)
  obtain a j1 where a: "jb_new_array jb j = (Some a, j1)" "nodes j a = None" "nodes j1 = (nodes j)(a \<mapsto> N_array [])"
    by (rule makesE [OF h(2)])
  have ne: "a \<noteq> obj" using a(2) o(3) by auto
  let ?j2 = "jb_object_add jb obj key a j1"
  have n2: "nodes ?j2 = (nodes j1)(obj \<mapsto> N_object (set_member key a ms))" using h(7) [of j1 obj ms key a] ne a(3) o(3) by simp
  then have "nodes ?j2 a = Some (N_array [])" using ne a(3) by simp
  from h(8) [OF this, of "Some jobj"] have n3: "nodes (jb_array_add jb a (Some jobj) ?j2) = (nodes j)(a \<mapsto> N_array [Some jobj], obj \<mapsto> N_object (set_member key a ms))"
    using ne by (simp add: n2 a(3) fun_upd_twist)
  have "place_loop jb checked key gid jobj ids objs 0 (length ids) (False, arrs, j) = Some (True, True, arrs[i := Some a], jb_array_add jb a (Some jobj) ?j2)"
    unfolding at(1) [OF single] using i o a(1) assms(3,4) by (simp add: nth_opt_def at(2) [OF single])
  with n3 a(2) show "\<exists>a j'. place_loop jb checked key gid jobj ids objs 0 (length ids) (False, arrs, j) = Some (True, True, arrs[i := Some a], j') \<and>
      nodes j a = None \<and> nodes j' = (nodes j)(a \<mapsto> N_array [Some jobj], obj \<mapsto> N_object (set_member key a ms))" by blast
qed

section \<open>Examples\<close>

definition ex_shown :: fs where
  "ex_shown = ex_fs\<lparr>fs_files := [(''/d/dsa0/state'', ''enabled'' @ [NL]), (''/d/dsa0/wq0.0/state'', ''enabled'' @ [NL]),
     (''/d/dsa0/wq0.0/mode'', ''dedicated'' @ [NL]), (''/d/dsa0/wq0.0/op_config'', ''-'' @ [NL])]\<rparr>"

lemma ex_shown_reads:
  "attr_reads fs_os (dev_path ex_dev @ ''/state'') ''enabled'' (kern (ex_mach ex_shown))"
  "attr_reads fs_os (wq_path ex_wq @ ''/state'') ''enabled'' (kern (ex_mach ex_shown))"
  by (simp_all add: attr_reads_def ex_dev_def ex_wq_def ex_shown_def fs_os_def SYSFS_ATTR_SIZE_def NL_def NUL_def)

text \<open>The device with all its members, and what is shown of it.\<close>

definition ex_full :: fs where
  "ex_full = ex_fs\<lparr>fs_files := [(''/d/dsa0/state'', ''enabled'' @ [NL]), (''/d/dsa0/errors'', ''0,0,0,0,0,0,0,0'' @ [NL]),
     (''/d/dsa0/op_cap'', ''1,0,0,0,0,0,0,2'' @ [NL]), (''/d/dsa0/iaa_cap'', ''0x10'' @ [NL]), (''/d/dsa0/clients'', ''3'' @ [NL])]\<rparr>"

theorem util_device_to_json_shows_witness:
  "\<exists>obj j' m'. util_device_to_json fs_os ex_build 2 0 (ex_mach ex_full, []) = Some (Some obj, m', j') \<and>
     object_shows ex_nodes j' obj [(''dev'', New_string ''dsa0''), (''read_buffer_limit'', New_int 0), (''event_log_size'', New_int 64),
       (''max_groups'', New_int 4), (''max_work_queues'', New_int 8), (''max_engines'', New_int 4), (''work_queue_size'', New_int 128),
       (''numa_node'', New_int 0), (''op_cap'', New_string (bitmask_text [1, 0, 0, 0, 0, 0, 0, 2])), (''iaa_cap'', New_int64 16),
       (''gen_cap'', New_int64 0), (''version'', New_int64 256), (''state'', New_string ''enabled''), (''max_read_buffers'', New_int 96),
       (''max_batch_size'', New_int 1024), (''ims_size'', New_int 2048), (''max_transfer_size'', New_int64 2147483648),
       (''configurable'', New_int 1), (''pasid_enabled'', New_int 1), (''cdev_major'', New_int 236), (''clients'', New_int 3)]"
proof -
  let ?m = "ex_mach ex_full"
  let ?errs = "(0 :: int, [0, 0, 0, 0, 0, 0, 0, 0] :: int list)" and ?caps = "(0 :: int, [1, 0, 0, 0, 0, 0, 0, 2] :: int list)"
  have dev: "devices ?m 2 = Some ex_dev" by simp
  have "attr_reads fs_os (dev_path ex_dev @ ''/state'') ''enabled'' (kern ?m)" "attr_reads fs_os (dev_path ex_dev @ ''/clients'') ''3'' (kern ?m)"
    by (simp_all add: attr_reads_def ex_dev_def ex_full_def fs_os_def SYSFS_ATTR_SIZE_def NL_def NUL_def)
  then have st: "accfg_device_get_state fs_os 2 ?m = Some (ACCFG_DEVICE_ENABLED, ?m)" and
    "read_or_record fs_os (dev_path ex_dev @ ''/clients'') 2 0 0 0 ?m = Some (Some ''3'', ?m)"
    using device_state_reads(1) [OF ex_mach_wf dev] by (simp_all add: read_or_record_text)
  moreover have "atoi ''3'' = 3" by code_simp
  ultimately have n: "accfg_device_get_clients fs_os 2 ?m = Some (3, ?m)"
    using snprintf_path_fits [OF wf_device(1) [OF ex_mach_wf dev], of "''clients''"] dev by (simp add: accfg_device_get_clients_def)
  have read: "read_dir_str fs_os (dev_path ex_dev) ''errors'' ?m = (Inr (Some ''0,0,0,0,0,0,0,0''), ?m)"
    "read_dir_str fs_os (dev_path ex_dev) ''op_cap'' ?m = (Inr (Some ''1,0,0,0,0,0,0,2''), ?m)"
    "read_dir_str fs_os (dev_path ex_dev) ''iaa_cap'' ?m = (Inr (Some ''0x10''), ?m)"
    by (simp_all add: read_dir_str_def accfg_get_param_str_def ex_dev_def ex_full_def ex_fs_def sys_call_defs MAX_PARAM_LEN_def cstring_def NL_def NUL_def)
  have scan: "scan_x32s 8 ''0,0,0,0,0,0,0,0'' = [0, 0, 0, 0, 0, 0, 0, 0]" "scan_x32s 8 ''1,0,0,0,0,0,0,2'' = [1, 0, 0, 0, 0, 0, 0, 2]"
    "strtoull 0 ''0x10'' = (16, [], False)" by code_simp+
  have "errno ?m = 0" by (simp add: ex_mach_def)
  then have iaa: "accfg_device_get_iaa_cap fs_os 2 ?m = Some ((0, Some 16), ?m)" using dev by (simp add: accfg_device_get_iaa_cap_def read scan)
  have reads: "device_reads fs_os 2 ?m ?errs ?caps (0, Some 16) ACCFG_DEVICE_ENABLED 3 ?m"
    using dev st n iaa by (simp add: device_reads_def accfg_device_get_errors_def accfg_device_get_op_cap_def read scan)
  have flags: "\<not> has_flag 0 UTIL_JSON_SAVE" by code_simp
  have members: "present (saved_rows ex_dev ''dsa0'' @ count_rows ex_dev @ kernel_rows ?errs ?caps (0, Some 16) @ feature_rows ex_dev ACCFG_DEVICE_ENABLED @
      limit_rows ex_dev @ clients_rows 3) = [(''dev'', New_string ''dsa0''), (''read_buffer_limit'', New_int 0), (''event_log_size'', New_int 64),
       (''max_groups'', New_int 4), (''max_work_queues'', New_int 8), (''max_engines'', New_int 4), (''work_queue_size'', New_int 128),
       (''numa_node'', New_int 0), (''op_cap'', New_string (bitmask_text [1, 0, 0, 0, 0, 0, 0, 2])), (''iaa_cap'', New_int64 16),
       (''gen_cap'', New_int64 0), (''version'', New_int64 256), (''state'', New_string ''enabled''), (''max_read_buffers'', New_int 96),
       (''max_batch_size'', New_int 1024), (''ims_size'', New_int 2048), (''max_transfer_size'', New_int64 2147483648),
       (''configurable'', New_int 1), (''pasid_enabled'', New_int 1), (''cdev_major'', New_int 236), (''clients'', New_int 3)]"
    by (simp add: saved_rows_def count_rows_def kernel_rows_def feature_rows_def limit_rows_def clients_rows_def ex_dev_def s32_id u32_id u64_id ULONG_MAX_def s64_def
        del: bitmask_text.simps)
  have name: "devpath_to_devname (dev_path ex_dev) = Some ''dsa0''" by (simp add: ex_dev_def) code_simp
  have "\<not> has_flag 0 UTIL_JSON_SAVE \<longrightarrow> device_reads fs_os 2 ?m ?errs ?caps (0, Some 16) ACCFG_DEVICE_ENABLED 3 ?m" using reads by simp
  from util_device_to_json_shows [OF ex_build_ok fs_os_ok ex_mach_wf dev name st this, of "[]"]
  have "\<exists>obj j'. util_device_to_json fs_os ex_build 2 0 (?m, []) = Some (Some obj, ?m, j') \<and> ex_nodes [] obj = None \<and>
      object_shows ex_nodes j' obj (present (saved_rows ex_dev ''dsa0'' @ count_rows ex_dev @ kernel_rows ?errs ?caps (0, Some 16) @
        feature_rows ex_dev ACCFG_DEVICE_ENABLED @ limit_rows ex_dev @ clients_rows 3)) \<and> keeps_but obj ex_nodes [] j'"
    using flags by (simp only: if_True if_False simp_thms)
  then show ?thesis unfolding members by blast
qed

theorem util_wq_to_json_shows_witness:
  "\<exists>obj j'. util_wq_to_json fs_os ex_build 4 UTIL_JSON_SAVE (ex_mach ex_shown, []) = Some (Some obj, ex_mach ex_shown, j') \<and>
     object_shows ex_nodes j' obj
       [(''dev'', New_string ''wq0.0''), (''mode'', New_string ''dedicated''), (''size'', New_int64 16), (''group_id'', New_int 0),
        (''priority'', New_int 10), (''block_on_fault'', New_int 0), (''max_batch_size'', New_int 32),
        (''max_transfer_size'', New_int64 16384), (''type'', New_string ''user''), (''name'', New_string ''app''),
        (''driver_name'', New_string ''user''), (''threshold'', New_int 15), (''prs_disable'', New_int 0), (''ats_disable'', New_int 0)]"
proof -
  let ?m = "ex_mach ex_shown"
  let ?kvs = "[(''size'', New_int64 16), (''group_id'', New_int 0),
        (''priority'', New_int 10), (''block_on_fault'', New_int 0), (''max_batch_size'', New_int 32),
        (''max_transfer_size'', New_int64 16384), (''type'', New_string ''user''), (''name'', New_string ''app''),
        (''driver_name'', New_string ''user''), (''threshold'', New_int 15), (''prs_disable'', New_int 0), (''ats_disable'', New_int 0)]"
  have st: "accfg_wq_get_state fs_os 4 ?m = Some (ACCFG_WQ_ENABLED, ?m)"
    using wq_state_reads [OF ex_mach_wf _ ex_shown_reads(2), of 4] by (simp add: wq_state_of_def)
  have read: "read_dir_str fs_os (wq_path ex_wq) ''mode'' ?m = (Inr (Some ''dedicated''), ?m)"
    "read_dir_str fs_os (wq_path ex_wq) ''op_config'' ?m = (Inr (Some ''-''), ?m)"
    by (simp_all add: read_dir_str_def accfg_get_param_str_def ex_wq_def ex_shown_def ex_fs_def sys_call_defs MAX_PARAM_LEN_def cstring_def NL_def NUL_def)
  have ctx: "accfg_wq_get_ctx 4 ?m = Some 1" "wqs ?m 4 = Some ex_wq"
    by (simp_all add: accfg_wq_get_ctx_def ex_mach_def ex_wq_def ex_dev_def)
  have mode: "accfg_wq_get_mode fs_os 4 ?m = Some (ACCFG_WQ_DEDICATED, ?m)"
    by (simp add: accfg_wq_get_mode_def ctx read)
  have "scan_x32s 8 ''-'' = []" by code_simp
  then have op: "accfg_wq_get_op_config fs_os 4 ?m = Some ((- EIO, []), ?m)"
    by (simp add: accfg_wq_get_op_config_def ctx read)
  have run: "run_fields (map snd (wq_fields fs_os 4 ACCFG_WQ_ENABLED UTIL_JSON_SAVE)) ?m = Some (?kvs, ?m)"
    by (simp add: wq_fields_def has_flag_def UTIL_JSON_SAVE_def op_config_field_def op EIO_def Let_def size_field_def nonneg_field_def
        int_field_def int64_field_def wq_type_field_def wq_name_field_def driver_name_field_def accfg_wq_get_size_def accfg_wq_get_group_id_def
        accfg_wq_get_priority_def accfg_wq_get_block_on_fault_def accfg_wq_get_max_batch_size_def accfg_wq_get_max_transfer_size_def
        accfg_wq_get_type_def accfg_wq_get_type_name_def accfg_wq_get_driver_name_def accfg_wq_get_threshold_def
        accfg_wq_get_prs_disable_def accfg_wq_get_ats_disable_def accfg_wq_get_field_def made_def ULONG_MAX_def)
      (simp add: ex_wq_def s32_id s64_def u64_id wq_type_str_def made_def ULONG_MAX_def)
  have name: "accfg_wq_get_devname 4 ?m = Some ''wq0.0''" by simp
  have "distinct (''dev'' # ''mode'' # map fst ?kvs)" by simp
  from util_wq_to_json_shows [OF ex_build_ok st name mode run this, of "[]"] show ?thesis
    by (auto simp: mode_text_def ACCFG_WQ_SHARED_def ACCFG_WQ_DEDICATED_def)
qed

lemma place_in_group_example:
  "\<exists>a j'. place_loop ex_build True ''grouped_workqueues'' 7 2 [5, 7] [Some 0, Some 1] 0 2 (False, [None, None], [N_object [], N_object [], N_object []])
     = Some (True, True, [None, Some a], j') \<and>
     ex_nodes j' 1 = Some (N_object [(''grouped_workqueues'', a)]) \<and> ex_nodes j' 0 = Some (N_object [])"
proof -
  let ?j = "[N_object [], N_object [], N_object []] :: ex_lib"
  have "\<exists>a j'. place_loop ex_build True ''grouped_workqueues'' 7 2 [5, 7] [Some 0, Some 1] 0 (length [5 :: int, 7]) (False, [None, None], ?j)
      = Some (True, True, [None, None][1 := Some a], j') \<and> ex_nodes ?j a = None \<and>
      ex_nodes j' = (ex_nodes ?j)(a \<mapsto> N_array [Some 2], 1 \<mapsto> N_object (set_member ''grouped_workqueues'' a []))"
    by (rule place_in_group [OF ex_build_ok, THEN conjunct2, rule_format, THEN conjunct2, rule_format]) (simp_all add: ex_nodes_def)
  then obtain a j' where "place_loop ex_build True ''grouped_workqueues'' 7 2 [5, 7] [Some 0, Some 1] 0 2 (False, [None, None], ?j) = Some (True, True, [None, Some a], j')"
    "ex_nodes ?j a = None" "ex_nodes j' = (ex_nodes ?j)(a \<mapsto> N_array [Some 2], 1 \<mapsto> N_object (set_member ''grouped_workqueues'' a []))"
    by (auto simp: numeral_2_eq_2)
  moreover from this(2) have "a \<noteq> 0" "a \<noteq> 1" by (auto simp: ex_nodes_def split: if_splits)
  moreover have "ex_nodes ?j 0 = Some (N_object [])" by (simp add: ex_nodes_def)
  ultimately show ?thesis by (auto simp: set_member_def)
qed

end
