(* ===== verification/Config_Props.thy ===== *)
theory Config_Props
  imports Config_Cmd
begin

text \<open>
  Properties of the command \<open>config-user-default\<close>: the share of a device's entries that each default work
  queue gets, and which devices disabling leaves alone.
\<close>

section \<open>Loops whose bodies leave the object graph alone\<close>

lemma fold_at: "fold (\<lambda>p (m, s). (m, f p s)) ps (m, s) = (m, fold f ps s)"
  by (induction ps arbitrary: s) auto

context child_list begin

lemma foreach_child_fold:
  assumes "wf_state m" "devices m d = Some dv" "device_done m dv"
    and "\<And>p s. p \<in> set (parts dv) \<Longrightarrow> body p (m, s) = Some (m, f p s)"
  shows "foreach_child first parts step os d body (m, s) = Some (m, fold f (parts dv) s)"
proof -
  have ps: "distinct ([] @ parts dv)" "0 \<notin> set (parts dv)" using parts_wf [OF assms(1,2)] by auto
  have "foreach_from (length (parts dv)) (\<lambda>p s. do { s \<leftarrow> body p s; Some (False, s) }) (\<lambda>p (m, _). step p m) (list_top (parts dv)) (m, s)
     = Some (fold (\<lambda>p (m, s). (m, f p s)) (parts dv) (m, s))"
    using step_list [OF assms(1,2)] assms(4) by (intro foreach_from_fold [where I = "\<lambda>(m', s). m' = m", OF ps]) auto
  then show ?thesis using first_done [OF assms(2,3)] assms(2) by (simp add: foreach_child_def fold_at)
qed

end

lemma foreach_device_same:
  assumes "wf_state m" "discovered m c cx" "\<And>d. d \<in> set (c_devices cx) \<Longrightarrow> body d (m, s) = Some (m, s)"
  shows "foreach_device os c body (m, s) = Some (m, s)"
proof -
  have cx: "ctxs m c = Some cx" using assms(2) by (simp add: discovered_def)
  note ls = devices_listed [OF assms(1) cx]
  have "foreach_from (length (c_devices cx)) (\<lambda>p s. do { s \<leftarrow> body p s; Some (False, s) }) (\<lambda>p (m, _). accfg_device_get_next p m)
      (list_top (c_devices cx)) (m, s) = Some (fold (\<lambda>p s. s) (c_devices cx) (m, s))"
    using ls assms(3) by (intro foreach_from_fold [where pre = "[]" and I = "\<lambda>x. x = (m, s)"]) auto
  moreover have "fold (\<lambda>p s. s) ps x = x" for ps :: "ptr list" and x :: "'a mach \<times> 'b" by (induction ps) auto
  ultimately show ?thesis using discovered_first [OF assms(2), of os] cx by (simp add: foreach_device_def)
qed


section \<open>Disabling\<close>

text \<open>The state the kernel shows of every work queue of a device; none that is active has the name.\<close>

definition queues_read :: "'k os \<Rightarrow> string \<Rightarrow> (ptr \<Rightarrow> string) \<Rightarrow> accfg_device \<Rightarrow> 'k mach \<Rightarrow> bool" where
  "queues_read os name st dv m \<longleftrightarrow> (\<forall>w \<in> set (dev_wqs dv). \<exists>wq. wqs m w = Some wq \<and> attr_reads os (wq_path wq @ ''/state'') (st w) (kern m) \<and>
     (st w = ''disabled'' \<or> (\<exists>n. wq_name wq = Some n \<and> n \<noteq> name)))"

lemma default_disable_queue:
  assumes "wf_state m" "queues_read os name st dv m" "w \<in> set (dev_wqs dv)"
  shows "default_disable_wq os name w (m, b) = Some (m, b \<or> st w \<noteq> ''disabled'')"
proof -
  from assms(2,3) obtain wq where wq: "wqs m w = Some wq" "attr_reads os (wq_path wq @ ''/state'') (st w) (kern m)"
    "st w = ''disabled'' \<or> (\<exists>n. wq_name wq = Some n \<and> n \<noteq> name)" by (auto simp: queues_read_def)
  have "wq_state_of (st w) = ACCFG_WQ_DISABLED \<longleftrightarrow> st w = ''disabled''" by (auto simp: wq_state_of_def)
  then show ?thesis
    using wq_state_reads [OF assms(1) wq(1,2)] wq(1,3) by (auto simp: default_disable_wq_def accfg_wq_get_type_name_def)
qed

lemma fold_any: "fold (\<lambda>w b. b \<or> P w) ws b \<longleftrightarrow> b \<or> (\<exists>w \<in> set ws. P w)"
  by (induction ws arbitrary: b) auto

text \<open>
  Of a device none of whose active work queues has the name no work queue is touched, and the device itself is disabled in
  exactly one case: it is enabled and all of its work queues are disabled.
\<close>

lemma default_disable_device_reads:
  assumes "wf_state m" "devices m d = Some dv" "device_done m dv" "queues_read os name st dv m"
    and "attr_reads os (dev_path dv @ ''/state'') s (kern m)"
  shows "default_disable_device os name d (m, ()) =
     (if s = ''enabled'' \<and> (\<forall>w \<in> set (dev_wqs dv). st w = ''disabled'')
      then map_option (\<lambda>(rc, m'). (m', ())) (accfg_device_disable os d True m) else Some (m, ()))"
proof -
  have "foreach_wq os d (default_disable_wq os name) (m, False) = Some (m, fold (\<lambda>w b. b \<or> st w \<noteq> ''disabled'') (dev_wqs dv) False)"
    unfolding foreach_wq_def using default_disable_queue [OF assms(1,4)]
    by (intro wq_list.foreach_child_fold [OF assms(1-3)]) auto
  then show ?thesis
    using device_state_reads(1) [OF assms(1,2,5)]
    by (cases "accfg_device_disable os d True m") (auto simp: default_disable_device_def fold_any ignore_def)
qed

text \<open>
  C15: \<open>config-user-default --disable\<close> changes nothing, neither in the kernel nor in the objects, when no active work queue has the
  name that was given and every enabled device has an active work queue.
\<close>

theorem config_default_disable_keeps:
  assumes "wf_state m" "discovered m c cx" "alloc_ok os"
    and "\<forall>d \<in> set (c_devices cx). \<forall>dv. devices m d = Some dv \<longrightarrow> queues_read os name st dv m \<and>
      (\<exists>s. attr_reads os (dev_path dv @ ''/state'') s (kern m) \<and> (s = ''enabled'' \<longrightarrow> (\<exists>w \<in> set (dev_wqs dv). st w \<noteq> ''disabled'')))"
  shows "config_default_disable os (Some name) c m = Some m"
proof -
  have "default_disable_device os name d (m, ()) = Some (m, ())" if d: "d \<in> set (c_devices cx)" for d
  proof -
    from discovered_device [OF assms(2) d] obtain dv where dv: "devices m d = Some dv" "device_done m dv" by blast
    with assms(4) d obtain s where s: "queues_read os name st dv m" "attr_reads os (dev_path dv @ ''/state'') s (kern m)"
      "s = ''enabled'' \<longrightarrow> (\<exists>w \<in> set (dev_wqs dv). st w \<noteq> ''disabled'')" by blast
    from default_disable_device_reads [OF assms(1) dv s(1,2)] s(3) show ?thesis by auto
  qed
  then show ?thesis
    using foreach_device_same [OF assms(1,2), of "default_disable_device os name" "()" os] by (simp add: config_default_disable_def copy_text_def sys_alloc_ok [OF assms(3)])
qed


section \<open>The size of a default work queue\<close>

text \<open>
  C18: on a device that has work queues, the size of a default work queue is the largest one that all the work queues of the
  device can have at once, and the threshold is the size; the code is \<open>-ENOSPC\<close> exactly when there are fewer
  entries than work queues.
\<close>

theorem config_default_wq_size:
  assumes "devices m d = Some dv" "dev_type dv = ACCFG_DEVICE_DSA \<or> dev_type dv = ACCFG_DEVICE_IAX"
    and "0 \<le> dev_max_work_queues_size dv" "dev_max_work_queues_size dv \<le> INT_MAX"
    and "0 < dev_max_work_queues dv" "dev_max_work_queues dv \<le> INT_MAX"
  shows "\<exists>rc c' p. config_default_wq_set_on_dev d m c = Some (rc, c') \<and> get_conf_def_wq_param (dev_type dv) c' = Some p \<and>
     rc = (if dev_max_work_queues_size dv < dev_max_work_queues dv then - ENOSPC else 0) \<and>
     wqp_wq_size p * dev_max_work_queues dv \<le> dev_max_work_queues_size dv \<and>
     dev_max_work_queues_size dv < (wqp_wq_size p + 1) * dev_max_work_queues dv \<and>
     (rc = 0 \<longrightarrow> wqp_threshold p = wqp_wq_size p)"
proof -
  let ?s = "dev_max_work_queues_size dv" and ?n = "dev_max_work_queues dv"
  have s: "s32 ?s = ?s" "s32 ?n = ?n" using assms by (simp_all add: s32_id INT_MAX_def)
  have "?s sdiv ?n = ?s div ?n" using assms(3,5) by (simp add: signed_divide_int_def sgn_if)
  then have size: "get_wq_size d m = Some (?s div ?n)"
    using assms(1,3,5) s
    by (simp add: get_wq_size_def accfg_device_get_max_work_queues_size_def accfg_device_get_max_work_queues_def)
  have "?s div ?n \<le> ?s" using assms(3,5) using zdiv_mono2 [of ?s 1 ?n] by simp
  moreover have "0 \<le> ?s div ?n" using assms(3,5) by (simp add: pos_imp_zdiv_nonneg_iff)
  ultimately have u: "u32 (?s div ?n) = ?s div ?n" using assms(4) by (simp add: u32_id INT_MAX_def)
  have z: "?s div ?n = 0 \<longleftrightarrow> ?s < ?n" using assms(3,5) by (auto simp: zdiv_eq_0_iff)
  have le: "?s div ?n * ?n \<le> ?s" "?s < (?s div ?n + 1) * ?n"
  proof -
    have "?s div ?n * ?n + ?s mod ?n = ?s" by simp
    moreover have "(?s div ?n + 1) * ?n = ?s div ?n * ?n + ?n" by (simp add: algebra_simps)
    ultimately show "?s div ?n * ?n \<le> ?s" "?s < (?s div ?n + 1) * ?n"
      using pos_mod_sign [OF assms(5), of ?s] pos_mod_bound [OF assms(5), of ?s] by linarith+
  qed
  show ?thesis
    using assms(2) assms(1) size z le
    by (auto simp: config_default_wq_set_on_dev_def accfg_device_get_type_def get_conf_def_wq_param_def upd_conf_def_wq_param_def u ENOSPC_def)
qed


section \<open>Examples\<close>

definition ex_busy :: fs where
  "ex_busy = ex_fs\<lparr>fs_files := [(''/d/dsa0/wq0.0/state'', ''enabled'' @ [NL]), (''/d/dsa0/state'', ''enabled'' @ [NL])]\<rparr>"

theorem config_default_disable_keeps_witness:
  "config_default_disable fs_os (Some ''user_default_wq'') 1 (ex_mach ex_busy) = Some (ex_mach ex_busy)"
proof -
  have "attr_reads fs_os (wq_path ex_wq @ ''/state'') ''enabled'' (kern (ex_mach ex_busy))"
    "attr_reads fs_os (dev_path ex_dev @ ''/state'') ''enabled'' (kern (ex_mach ex_busy))"
    by (simp_all add: attr_reads_def ex_wq_def ex_dev_def ex_busy_def fs_os_def SYSFS_ATTR_SIZE_def NL_def NUL_def)
  then show ?thesis
    by (intro config_default_disable_keeps [OF ex_mach_wf ex_discovered fs_os_ok(2), where st = "\<lambda>_. ''enabled''"])
      (auto simp: ex_ctx_def queues_read_def ex_dev_def ex_wq_def)
qed

theorem config_default_wq_size_witness:
  "\<exists>rc c' p. config_default_wq_set_on_dev 2 (ex_mach ex_fs) (conf_start False False) = Some (rc, c') \<and>
     get_conf_def_wq_param ACCFG_DEVICE_DSA c' = Some p \<and> rc = 0 \<and> wqp_wq_size p * 8 \<le> 128 \<and> 128 < (wqp_wq_size p + 1) * 8"
  using config_default_wq_size [of "ex_mach ex_fs" 2 ex_dev "conf_start False False"] by (auto simp: ex_dev_def INT_MAX_def)

end
