(* ===== verification/Enable_Live.thy ===== *)
theory Enable_Live
  imports Load_Safe Json_Props
begin

text \<open>
  What \<open>load-config --enable\<close> reaches (\<open>activate_devices\<close> of \<open>src/accfg/config.c\<close>): on a kernel whose drivers bind the
  devices and queues they are told to bind, in the order the hardware allows, every device and every work queue in the lists is
  enabled, one after the other, and stays enabled.
\<close>

section \<open>One write\<close>

text \<open>Enabling changes nothing of the objects but the number of a queue's character device.\<close>

definition same_objects :: "'k mach \<Rightarrow> 'k mach \<Rightarrow> bool" where
  "same_objects m m' \<longleftrightarrow> ctxs m' = ctxs m \<and> devices m' = devices m \<and>
     (\<forall>w. map_option (wq_cdev_minor_update (\<lambda>_. 0)) (wqs m' w) = map_option (wq_cdev_minor_update (\<lambda>_. 0)) (wqs m w))"

lemma same_objects_refl [simp]: "same_objects m m"
  and same_objects_trans: "same_objects m m1 \<Longrightarrow> same_objects m1 m2 \<Longrightarrow> same_objects m m2"
  and same_objects_kern [simp]: "same_objects m (m\<lparr>kern := k\<rparr>)"
  by (simp_all add: same_objects_def)

lemma same_objectsD:
  assumes "same_objects m m'"
  shows "ctxs m' = ctxs m" "devices m' = devices m" "(wqs m' w = None) = (wqs m w = None)"
    "wqs m' w = Some q' \<Longrightarrow> \<exists>q. wqs m w = Some q \<and> wq_path q' = wq_path q \<and> wq_device q' = wq_device q \<and>
       wq_driver_name q' = wq_driver_name q \<and> wq_type q' = wq_type q"
proof -
  show "ctxs m' = ctxs m" "devices m' = devices m" using assms by (simp_all add: same_objects_def)
  have "map_option (wq_cdev_minor_update (\<lambda>_. 0)) (wqs m' w) = map_option (wq_cdev_minor_update (\<lambda>_. 0)) (wqs m w)"
    using assms by (simp add: same_objects_def)
  then have w: "wqs m' w = None \<and> wqs m w = None \<or>
      (\<exists>p q. wqs m' w = Some p \<and> wqs m w = Some q \<and> p\<lparr>wq_cdev_minor := 0\<rparr> = q\<lparr>wq_cdev_minor := 0\<rparr>)"
    by (cases "wqs m' w"; cases "wqs m w") simp_all
  then show "(wqs m' w = None) = (wqs m w = None)" by auto
  assume "wqs m' w = Some q'"
  with w obtain q where q: "wqs m w = Some q" "q'\<lparr>wq_cdev_minor := 0\<rparr> = q\<lparr>wq_cdev_minor := 0\<rparr>" by auto
  show "\<exists>q. wqs m w = Some q \<and> wq_path q' = wq_path q \<and> wq_device q' = wq_device q \<and>
       wq_driver_name q' = wq_driver_name q \<and> wq_type q' = wq_type q"
    using q(1) arg_cong [OF q(2), of wq_path] arg_cong [OF q(2), of wq_device] arg_cong [OF q(2), of wq_driver_name]
      arg_cong [OF q(2), of wq_type] by simp
qed

lemma driver_binds_same:
  assumes "driver_binds os C m" "same_objects m m'"
  shows "driver_binds os C m'"
proof -
  have drv: "device_driver m' dv = device_driver m dv" "queue_driver m' dv q' = queue_driver m dv q"
    if "wq_driver_name q' = wq_driver_name q" "wq_type q' = wq_type q" for dv q q'
    using that same_objectsD(1) [OF assms(2)] by (simp_all only: device_driver_def queue_driver_def compat_mode_def)
  have "binds os C (wq_path q') n (bind_path (dev_bus_type_str dv) drv) k"
    if "wqs m' w = Some q'" "devices m' (wq_device q') = Some dv" "queue_driver m' dv q' = Some drv"
      "devpath_to_devname (wq_path q') = Some n" "C k" "state_reads os (dev_path dv) ''enabled'' k" "state_reads os (wq_path q') ''disabled'' k"
    for w q' dv drv n k
  proof -
    from same_objectsD(4) [OF assms(2) that(1)] obtain q where q: "wqs m w = Some q" "wq_path q' = wq_path q" "wq_device q' = wq_device q"
      "wq_driver_name q' = wq_driver_name q" "wq_type q' = wq_type q" by blast
    then show ?thesis
      using driver_bindsD(2) [OF assms(1) q(1)] that drv(2) [OF q(4,5)] same_objectsD(2) [OF assms(2)] by simp
  qed
  then show ?thesis
    using driver_bindsD(1) [OF assms(1)] drv(1) same_objectsD(2) [OF assms(2)] unfolding driver_binds_def by metis
qed

text \<open>The objects at the paths \<open>P\<close> are enabled and the states of the others are what they were.\<close>

definition now_enabled :: "'k os \<Rightarrow> ('k \<Rightarrow> bool) \<Rightarrow> string set \<Rightarrow> 'k mach \<Rightarrow> 'k mach \<Rightarrow> bool" where
  "now_enabled os C P m m' \<longleftrightarrow> steady m m' \<and> same_objects m m' \<and> C (kern m') \<and> (\<forall>p \<in> P. state_reads os p ''enabled'' (kern m')) \<and>
     (\<forall>q s. q \<notin> P \<longrightarrow> state_reads os q s (kern m) \<longrightarrow> state_reads os q s (kern m'))"

lemma now_enabledD:
  assumes "now_enabled os C P m m'"
  shows "steady m m'" "same_objects m m'" "C (kern m')" "p \<in> P \<Longrightarrow> state_reads os p ''enabled'' (kern m')"
    "q \<notin> P \<Longrightarrow> state_reads os q s (kern m) \<Longrightarrow> state_reads os q s (kern m')"
  using assms unfolding now_enabled_def by blast+

lemma now_enabled_trans:
  assumes "now_enabled os C P m m1" "now_enabled os C Q m1 m2"
  shows "now_enabled os C (P \<union> Q) m m2"
proof -
  note D1 = now_enabledD [OF assms(1)] and D2 = now_enabledD [OF assms(2)]
  have "state_reads os p ''enabled'' (kern m2)" if "p \<in> P \<union> Q" for p
    using that D1(4) D2(4,5) by blast
  then show ?thesis
    using steady_trans [OF D1(1) D2(1)] same_objects_trans [OF D1(2) D2(2)] D2(3) D1(5) D2(5) unfolding now_enabled_def by blast
qed

lemma binds_write:
  assumes "binds os C path name file (kern m)"
  obtains k' where "sysfs_write_attr os file name m = (0, m\<lparr>kern := k'\<rparr>)" "now_enabled os C {path} m (m\<lparr>kern := k'\<rparr>)"
proof -
  from assms obtain n k' where k': "os_open os file O_WRONLY (kern m) = None" "os_write os file name (kern m) = (Inr n, k')" "length name \<le> n"
    "C k'" "state_reads os path ''enabled'' k'" "\<forall>q s. q \<noteq> path \<longrightarrow> state_reads os q s (kern m) \<longrightarrow> state_reads os q s k'"
    unfolding binds_def by blast
  show ?thesis
  proof (rule that)
    show "sysfs_write_attr os file name m = (0, m\<lparr>kern := k'\<rparr>)"
      using k'(1-3) by (simp add: sysfs_write_attr_def write_attr_def sys_call_defs)
    show "now_enabled os C {path} m (m\<lparr>kern := k'\<rparr>)"
      using k'(4-6) by (simp add: now_enabled_def sys_only_def)
  qed
qed

lemma bind_path_fits:
  assumes "alloc_ok os" "length bus < 1000" "length drv < 1000"
  shows "get_driver_bind_path os bus (Some drv) m = Some ((0, bind_path bus drv), m)"
  using assms by (simp add: get_driver_bind_path_def sprintf_max_def PATH_MAX_def sys_alloc_ok bind_path_def)


section \<open>One device and one queue\<close>

lemma device_enable_binds:
  assumes "alloc_ok os" "driver_binds os C m" "ready os ctx m" "devices m d = Some dv" "C (kern m)" "state_reads os (dev_path dv) ''disabled'' (kern m)"
  shows "\<exists>m'. accfg_device_enable os d m = Some (0, m') \<and> now_enabled os C {dev_path dv} m m'"
proof -
  have wf: "wf_state m" by (rule readyD(1) [OF assms(3)])
  obtain cx where cx: "ctxs m (dev_ctx dv) = Some cx" using wf_device(2) [OF wf assms(4)] by blast
  obtain n where n: "devpath_to_devname (dev_path dv) = Some n" using path_ok_devname [OF wf_device(1) [OF wf assms(4)]] by blast
  have drv: "IDXD_DRIVER d m = Some (device_driver m dv)" using assms(4) cx by (simp add: IDXD_DRIVER_def device_driver_def compat_mode_def)
  have "length (device_driver m dv) < 1000" "length (dev_bus_type_str dv) < 1000"
    using readyD(3) [OF assms(3,4)] by (simp_all add: device_driver_def)
  note path = bind_path_fits [OF assms(1) this(2,1)]
  obtain k' where "sysfs_write_attr os (bind_path (dev_bus_type_str dv) (device_driver m dv)) n m = (0, m\<lparr>kern := k'\<rparr>)"
    "now_enabled os C {dev_path dv} m (m\<lparr>kern := k'\<rparr>)"
    by (rule binds_write [OF driver_bindsD(1) [OF assms(2,4) n assms(5,6)]])
  then show ?thesis
    using wf_device(3) [OF wf assms(4)] assms(4) drv path n
    by (intro exI [of _ "m\<lparr>kern := k'\<rparr>"]) (simp add: accfg_device_enable_def accfg_device_control_def device_control_write_def accfg_device_get_devname_def)
qed

lemma wq_retrieve_minor_takes:
  assumes "wf_state m" "wqs m w = Some q" "os_open os (wq_path q) O_PATH (kern m) = None"
  shows "\<exists>m'. accfg_wq_retrieve_cdev_minor os w m = Some (0, m') \<and> steady m m' \<and> same_objects m m' \<and> kern m' = kern m"
proof -
  obtain rc m' where r: "accfg_wq_retrieve_cdev_minor os w m = Some (rc, m')" "steady m m'" "kern m' = kern m"
    using accfg_wq_retrieve_cdev_minor_wp [OF assms(1,2), of os] by (auto simp: wp_iff)
  moreover have "sys_open os (wq_path q) O_PATH m = (True, m)" using assms(3) by (simp add: sys_call_defs)
  ultimately have "rc = 0" "same_objects m m'"
    using assms(2) by (auto simp: accfg_wq_retrieve_cdev_minor_def case_prod_beta bind_Some_iff upd_wq_def same_objects_def)
  with r show ?thesis by blast
qed

lemma queue_bind_path:
  assumes "alloc_ok os" "ready os ctx m" "wqs m w = Some q" "devices m (wq_device q) = Some dv" "queue_driver m dv q = Some drv"
    and "os_access os (bind_path (dev_bus_type_str dv) drv) (kern m) = None"
  shows "wq_control_path os w ACCFG_WQ_ENABLE False n m = Some (Inr (Some (bind_path (dev_bus_type_str dv) drv)), m)"
proof -
  obtain cx where cx: "ctxs m (dev_ctx dv) = Some cx" using wf_device(2) [OF readyD(1) [OF assms(2)] assms(4)] by blast
  have bus: "length (dev_bus_type_str dv) < 1000" using readyD(3) [OF assms(2,4)] by simp
  have "length drv < 1000"
    using readyD(4) [OF assms(2,3)] assms(5) bus
    by (auto simp: queue_driver_def short_driver_def split: if_splits accfg_wq_type.splits option.splits)
  note path = bind_path_fits [OF assms(1) bus this]
  have access: "sys_access os (bind_path (dev_bus_type_str dv) drv) m = (True, m)" using assms(6) by (simp add: sys_call_defs)
  have "(case wq_driver_name q of Some n \<Rightarrow> if n \<noteq> [] then Some (Some n) else IDXD_WQ_DEVICE_PORTAL (wq_device q) q m
      | None \<Rightarrow> IDXD_WQ_DEVICE_PORTAL (wq_device q) q m) = Some (Some drv)"
    using assms(4,5) cx
    by (auto simp: queue_driver_def compat_mode_def IDXD_WQ_DEVICE_PORTAL_def accfg_wq_device_portals_def split: option.splits if_splits accfg_wq_type.splits)
  with assms(3,4) path access show ?thesis by (simp add: wq_control_path_def)
qed

lemma wq_enable_binds:
  assumes "alloc_ok os" "driver_binds os C m" "ready os ctx m" "wqs m w = Some q" "devices m (wq_device q) = Some dv"
    and "queue_driver m dv q = Some drv" "\<forall>k. os_open os (wq_path q) O_PATH k = None" "C (kern m)"
    and "state_reads os (dev_path dv) ''enabled'' (kern m)" "state_reads os (wq_path q) ''disabled'' (kern m)"
  shows "\<exists>m'. accfg_wq_enable os w m = Some (0, m') \<and> now_enabled os C {wq_path q} m m'"
proof -
  have wf: "wf_state m" by (rule readyD(1) [OF assms(3)])
  obtain n where n: "devpath_to_devname (wq_path q) = Some n" using path_ok_devname [OF wf_wq(1) [OF wf assms(4)]] by blast
  have b: "binds os C (wq_path q) n (bind_path (dev_bus_type_str dv) drv) (kern m)"
    by (rule driver_bindsD(2) [OF assms(2,4-6) n assms(8-10)])
  then have path: "wq_control_path os w ACCFG_WQ_ENABLE False n m = Some (Inr (Some (bind_path (dev_bus_type_str dv) drv)), m)"
    by (intro queue_bind_path [OF assms(1,3-6)]) (simp add: binds_def)
  obtain k' where k': "sysfs_write_attr os (bind_path (dev_bus_type_str dv) drv) n m = (0, m\<lparr>kern := k'\<rparr>)"
    "now_enabled os C {wq_path q} m (m\<lparr>kern := k'\<rparr>)" by (rule binds_write [OF b])
  let ?m1 = "m\<lparr>kern := k'\<rparr>"
  have m1: "wf_state ?m1" "wqs ?m1 w = Some q" using wf_steady [OF now_enabledD(1) [OF k'(2)] wf] assms(4) by simp_all
  have "state_reads os (wq_path q) ''enabled'' k'" using now_enabledD(4) [OF k'(2)] by simp
  then have "accfg_wq_get_state os w ?m1 = Some (ACCFG_WQ_ENABLED, ?m1)"
    using wq_state_reads [OF m1, of os "''enabled''"] by (simp add: state_reads_def wq_state_of_def)
  moreover obtain m2 where m2: "accfg_wq_retrieve_cdev_minor os w ?m1 = Some (0, m2)" "steady ?m1 m2" "same_objects ?m1 m2" "kern m2 = kern ?m1"
    using wq_retrieve_minor_takes [OF m1, of os] assms(7) by auto
  ultimately have "accfg_wq_enable os w m = Some (0, m2)"
    using assms(4,5) n path k'(1)
    by (simp add: accfg_wq_enable_def accfg_wq_control_def accfg_wq_get_ctx_def accfg_wq_get_devname_def
        wq_control_verify_def accfg_wq_state_expected_def)
  moreover have "now_enabled os C {wq_path q} ?m1 m2" using now_enabledD [OF k'(2)] m2(2-4) by (simp add: now_enabled_def)
  ultimately show ?thesis using now_enabled_trans [OF k'(2)] by fastforce
qed


section \<open>The lists\<close>

text \<open>
  Both loops of \<open>activate_devices\<close>: objects with different paths (\<open>path\<close>), each of which can be enabled where it is disabled, the
  objects it needs (\<open>needs\<close>), which are not in the list, are enabled, and the objects are those of \<open>m0\<close>.
\<close>

lemma enable_all_binds:
  assumes step: "\<And>p m. p \<in> S \<Longrightarrow> same_objects m0 m \<Longrightarrow> ready os ctx m \<Longrightarrow> C (kern m) \<Longrightarrow> state_reads os (path p) ''disabled'' (kern m) \<Longrightarrow>
      \<forall>q \<in> needs p. state_reads os q ''enabled'' (kern m) \<Longrightarrow> \<exists>m'. enable p m = Some (0, m') \<and> now_enabled os C {path p} m m'"
    and "same_objects m0 m" "ready os ctx m" "C (kern m)" "distinct (map path ps)" "set ps \<subseteq> S"
    and "\<forall>p \<in> set ps. state_reads os (path p) ''disabled'' (kern m) \<and> needs p \<inter> path ` set ps = {} \<and> (\<forall>q \<in> needs p. state_reads os q ''enabled'' (kern m))"
  shows "\<exists>m'. enable_all enable ps m = Some (0, m') \<and> now_enabled os C (path ` set ps) m m'"
  using assms(2-)
proof (induction ps arbitrary: m)
  case Nil
  then show ?case by (simp add: now_enabled_def steady_refl)
next
  case (Cons p ps)
  from step [of p m] Cons.prems(1-3,5,6) obtain m1 where m1: "enable p m = Some (0, m1)" "now_enabled os C {path p} m m1" by auto
  note D = now_enabledD [OF m1(2)]
  have kept: "\<forall>p' \<in> set ps. state_reads os (path p') ''disabled'' (kern m1) \<and> needs p' \<inter> path ` set ps = {} \<and>
      (\<forall>q \<in> needs p'. state_reads os q ''enabled'' (kern m1))"
  proof
    fix p'
    assume p': "p' \<in> set ps"
    note prem = bspec [OF Cons.prems(6), of p']
    have "path p' \<noteq> path p" using Cons.prems(4) imageI [OF p', of path] by auto
    then have "state_reads os (path p') ''disabled'' (kern m1)" using prem p' by (intro D(5)) simp_all
    moreover have "state_reads os q ''enabled'' (kern m1)" if "q \<in> needs p'" for q
      using prem p' that by (intro D(5)) auto
    ultimately show "state_reads os (path p') ''disabled'' (kern m1) \<and> needs p' \<inter> path ` set ps = {} \<and>
      (\<forall>q \<in> needs p'. state_reads os q ''enabled'' (kern m1))"
      using prem p' by auto
  qed
  obtain m2 where m2: "enable_all enable ps m1 = Some (0, m2)" "now_enabled os C (path ` set ps) m1 m2"
    using Cons.IH [OF same_objects_trans [OF Cons.prems(1) D(2)] ready_steady [OF Cons.prems(2) D(1)] D(3) _ _ kept] Cons.prems(4,5) by auto
  show ?case using m1(1) m2(1) now_enabled_trans [OF m1(2) m2(2)] by (intro exI [of _ m2]) simp
qed


section \<open>Property\<close>

text \<open>
  What can be enabled: devices and queues that are different, disabled, and, for a queue, that have a driver and belong to a device that is
  enabled or is in the list.
\<close>

definition device_at :: "'k mach \<Rightarrow> ptr \<Rightarrow> string" where
  "device_at m d = (case devices m d of None \<Rightarrow> [] | Some dv \<Rightarrow> dev_path dv)"

definition queue_at :: "'k mach \<Rightarrow> ptr \<Rightarrow> string" where
  "queue_at m w = (case wqs m w of None \<Rightarrow> [] | Some q \<Rightarrow> wq_path q)"

definition can_enable :: "'k os \<Rightarrow> 'k mach \<Rightarrow> ptr list \<Rightarrow> ptr list \<Rightarrow> bool" where
  "can_enable os m ds ws \<longleftrightarrow> distinct (map (device_at m) ds @ map (queue_at m) ws) \<and>
     (\<forall>d \<in> set ds. devices m d \<noteq> None \<and> state_reads os (device_at m d) ''disabled'' (kern m)) \<and>
     (\<forall>w \<in> set ws. \<exists>q dv drv. wqs m w = Some q \<and> devices m (wq_device q) = Some dv \<and> queue_driver m dv q = Some drv \<and>
        state_reads os (wq_path q) ''disabled'' (kern m) \<and> dev_path dv \<notin> queue_at m ` set ws \<and>
        (wq_device q \<in> set ds \<or> state_reads os (dev_path dv) ''enabled'' (kern m)))"

lemma can_enableD:
  assumes "can_enable os m ds ws"
  shows "distinct (map (device_at m) ds)" "distinct (map (queue_at m) ws)" "device_at m ` set ds \<inter> queue_at m ` set ws = {}"
    "d \<in> set ds \<Longrightarrow> \<exists>dv. devices m d = Some dv" "d \<in> set ds \<Longrightarrow> state_reads os (device_at m d) ''disabled'' (kern m)"
    "w \<in> set ws \<Longrightarrow> \<exists>q dv drv. wqs m w = Some q \<and> devices m (wq_device q) = Some dv \<and> queue_driver m dv q = Some drv \<and>
        state_reads os (wq_path q) ''disabled'' (kern m) \<and> dev_path dv \<notin> queue_at m ` set ws \<and>
        (wq_device q \<in> set ds \<or> state_reads os (dev_path dv) ''enabled'' (kern m))"
proof -
  note parts = assms [unfolded can_enable_def]
  show "distinct (map (device_at m) ds)" "distinct (map (queue_at m) ws)" "device_at m ` set ds \<inter> queue_at m ` set ws = {}"
    using parts [THEN conjunct1] by (simp_all only: distinct_append set_map simp_thms)
  show "\<exists>dv. devices m d = Some dv" "state_reads os (device_at m d) ''disabled'' (kern m)" if "d \<in> set ds"
    using bspec [OF parts [THEN conjunct2, THEN conjunct1] that] by auto
  show "\<exists>q dv drv. wqs m w = Some q \<and> devices m (wq_device q) = Some dv \<and> queue_driver m dv q = Some drv \<and>
        state_reads os (wq_path q) ''disabled'' (kern m) \<and> dev_path dv \<notin> queue_at m ` set ws \<and>
        (wq_device q \<in> set ds \<or> state_reads os (dev_path dv) ''enabled'' (kern m))" if "w \<in> set ws"
    using bspec [OF parts [THEN conjunct2, THEN conjunct2] that] .
qed

text \<open>
  C8: \<open>--enable\<close> gets there: where the devices and queues that a configuration has named are different, disabled and fully configured
  (\<open>C\<close>), every queue has a driver and a device that is enabled or named too, and the drivers bind what they are told to bind
  (a device written to the file \<open>bind\<close> of the driver \<open>idxd\<close>, a queue on an enabled device written to that of its own driver, without changing
  the state of anything else), enabling runs through both lists, answers 0, and leaves every device and every work
  queue of the lists enabled, the states of all others as they were, and the objects too, but for the numbers of the queues' character devices.
\<close>

theorem activate_devices_enables:
  assumes "alloc_ok os" "driver_binds os C m" "ready os ctx m" "C (kern m)"
    and "can_enable os m (cf_activate_dev_list c) (cf_activate_wq_list c)" "\<forall>w q k. wqs m w = Some q \<longrightarrow> os_open os (wq_path q) O_PATH k = None"
  shows "\<exists>m'. activate_devices os (m, c) = Some (0, m', c) \<and> ready os ctx m' \<and> same_objects m m' \<and>
     (\<forall>d \<in> set (cf_activate_dev_list c). state_reads os (device_at m d) ''enabled'' (kern m')) \<and>
     (\<forall>w \<in> set (cf_activate_wq_list c). state_reads os (queue_at m w) ''enabled'' (kern m')) \<and>
     (\<forall>q s. q \<notin> device_at m ` set (cf_activate_dev_list c) \<union> queue_at m ` set (cf_activate_wq_list c) \<longrightarrow>
        state_reads os q s (kern m) \<longrightarrow> state_reads os q s (kern m'))"
proof -
  let ?ds = "cf_activate_dev_list c" and ?ws = "cf_activate_wq_list c"
  let ?P = "device_at m ` set ?ds" and ?Q = "queue_at m ` set ?ws"
  let ?needs = "\<lambda>w. {p. \<exists>q dv. wqs m w = Some q \<and> devices m (wq_device q) = Some dv \<and> p = dev_path dv}"
  note can = can_enableD [OF assms(5)]
  have dev: "\<exists>m'. accfg_device_enable os d m1 = Some (0, m') \<and> now_enabled os C {device_at m d} m1 m'"
    if "d \<in> set ?ds" "same_objects m m1" "ready os ctx m1" "C (kern m1)" "state_reads os (device_at m d) ''disabled'' (kern m1)" for d m1
  proof -
    from can(4) [OF that(1)] obtain dv where "devices m d = Some dv" ..
    with device_enable_binds [OF assms(1) driver_binds_same [OF assms(2) that(2)] that(3) _ that(4)] that(5) same_objectsD(2) [OF that(2)]
    show ?thesis by (simp add: device_at_def)
  qed
  have "\<exists>m1. enable_all (accfg_device_enable os) ?ds m = Some (0, m1) \<and> now_enabled os C ?P m m1"
    by (rule enable_all_binds [where ?m0.0 = m and ctx = ctx and needs = "\<lambda>_. {}" and S = "set ?ds"])
      (use dev assms(3,4) can(1,5) in simp_all)
  then obtain m1 where m1: "enable_all (accfg_device_enable os) ?ds m = Some (0, m1)" "now_enabled os C ?P m m1" by blast
  note D = now_enabledD [OF m1(2)]
  have wq: "\<exists>m'. accfg_wq_enable os w m2 = Some (0, m') \<and> now_enabled os C {queue_at m w} m2 m'"
    if "w \<in> set ?ws" "same_objects m m2" "ready os ctx m2" "C (kern m2)" "state_reads os (queue_at m w) ''disabled'' (kern m2)"
      "\<forall>p \<in> ?needs w. state_reads os p ''enabled'' (kern m2)" for w m2
  proof -
    from can(6) [OF that(1)] obtain q dv drv where
      q: "wqs m w = Some q" "devices m (wq_device q) = Some dv" "queue_driver m dv q = Some drv" by blast
    have "\<exists>q2. wqs m2 w = Some q2" using same_objectsD(3) [OF that(2), of w] q(1) by simp
    then obtain q2 where q2: "wqs m2 w = Some q2" ..
    have q2q: "wq_path q2 = wq_path q" "wq_device q2 = wq_device q" "wq_driver_name q2 = wq_driver_name q" "wq_type q2 = wq_type q"
      using same_objectsD(4) [OF that(2) q2] q(1) by auto
    have "queue_driver m2 dv q2 = Some drv"
      using q(3) q2q same_objectsD(1) [OF that(2)] by (simp only: queue_driver_def compat_mode_def)
    from wq_enable_binds [OF assms(1) driver_binds_same [OF assms(2) that(2)] that(3) q2 _ this _ that(4)]
    show ?thesis
      using q q2q that(5,6) assms(6) same_objectsD(2) [OF that(2)] by (simp add: queue_at_def)
  qed
  have "\<forall>w \<in> set ?ws. state_reads os (queue_at m w) ''disabled'' (kern m1) \<and> ?needs w \<inter> ?Q = {} \<and>
      (\<forall>p \<in> ?needs w. state_reads os p ''enabled'' (kern m1))"
  proof (intro ballI conjI)
    fix w
    assume w: "w \<in> set ?ws"
    then obtain q dv drv where q: "wqs m w = Some q" "devices m (wq_device q) = Some dv" "queue_driver m dv q = Some drv"
      "state_reads os (wq_path q) ''disabled'' (kern m)" "dev_path dv \<notin> ?Q" "wq_device q \<in> set ?ds \<or> state_reads os (dev_path dv) ''enabled'' (kern m)"
      using can(6) [OF w] by blast
    have "queue_at m w \<notin> ?P" using can(3) w by blast
    then show "state_reads os (queue_at m w) ''disabled'' (kern m1)" using D(5) q(1,4) by (simp add: queue_at_def)
    show "?needs w \<inter> ?Q = {}" using q(1,2,5) by auto
    fix p
    assume "p \<in> ?needs w"
    then have p: "p = dev_path dv" using q(1,2) by simp
    show "state_reads os p ''enabled'' (kern m1)"
    proof (cases "p \<in> ?P")
      case False
      then have "wq_device q \<notin> set ?ds" using q(2) p by (force simp: device_at_def)
      then show ?thesis using q(6) D(5) [OF False] p by simp
    qed (rule D(4))
  qed
  then have "\<exists>m2. enable_all (accfg_wq_enable os) ?ws m1 = Some (0, m2) \<and> now_enabled os C ?Q m1 m2"
    by (intro enable_all_binds [where ?m0.0 = m and ctx = ctx and needs = ?needs, OF wq D(2) ready_steady [OF assms(3) D(1)] D(3) can(2) order_refl])
  then obtain m2 where m2: "enable_all (accfg_wq_enable os) ?ws m1 = Some (0, m2)" "now_enabled os C ?Q m1 m2" by blast
  note E = now_enabledD [OF now_enabled_trans [OF m1(2) m2(2)]]
  have "activate_devices os (m, c) = Some (0, m2, c)" using m1(1) m2(1) by (simp add: activate_devices_def)
  with ready_steady [OF assms(3) E(1)] E(2,4,5) show ?thesis by blast
qed

text \<open>The device and its queue, both disabled, the queue with its type.\<close>

definition off_fs :: fs where
  "off_fs = ex_fs\<lparr>fs_files := [(''/d/dsa0/state'', ''disabled'' @ [NL]), (''/d/dsa0/wq0.0/state'', ''disabled'' @ [NL]),
     (''/d/dsa0/wq0.0/type'', ''user'' @ [NL])]\<rparr>"

lemma idxd_ready: "ready idxd_os 1 (ex_mach k)"
proof -
  have "mode_reads idxd_os path" for path
    by (auto simp: mode_reads_def MAX_PARAM_LEN_def split: option.split)
  then show ?thesis using ex_ready [of k] unfolding ready_def by simp
qed

theorem activate_devices_enables_witness:
  "\<exists>m'. activate_devices idxd_os (ex_mach off_fs, (conf_start True False)\<lparr>cf_activate_dev_list := [2], cf_activate_wq_list := [4]\<rparr>)
     = Some (0, m', (conf_start True False)\<lparr>cf_activate_dev_list := [2], cf_activate_wq_list := [4]\<rparr>)
   \<and> state_reads idxd_os ''/d/dsa0'' ''enabled'' (kern m') \<and> state_reads idxd_os ''/d/dsa0/wq0.0'' ''enabled'' (kern m')"
proof -
  let ?m = "ex_mach off_fs" and ?c = "(conf_start True False)\<lparr>cf_activate_dev_list := [2], cf_activate_wq_list := [4]\<rparr>"
  have paths: "dev_path ex_dev = ''/d/dsa0''" "wq_path ex_wq = ''/d/dsa0/wq0.0''" "wq_device ex_wq = 2"
    "devices ?m 2 = Some ex_dev" "wqs ?m 4 = Some ex_wq"
    by (simp_all add: ex_dev_def ex_wq_def)
  then have at: "device_at ?m 2 = ''/d/dsa0''" "queue_at ?m 4 = ''/d/dsa0/wq0.0''" by (simp_all add: device_at_def queue_at_def)
  have "has_text (''/d/dsa0'' @ ''/state'') ''disabled'' (kern ?m)" "has_text (''/d/dsa0/wq0.0'' @ ''/state'') ''disabled'' (kern ?m)"
    "wq_complete (kern ?m)"
    by (simp_all add: wq_complete_def has_text_def) (simp_all add: off_fs_def)
  moreover from this have "state_reads idxd_os ''/d/dsa0'' ''disabled'' (kern ?m)" "state_reads idxd_os ''/d/dsa0/wq0.0'' ''disabled'' (kern ?m)"
    by (intro has_text_reads; simp add: SYSFS_ATTR_SIZE_def NUL_def)+
  moreover have "queue_driver ?m ex_dev ex_wq = Some ''user''" by (simp add: queue_driver_def) (simp add: ex_wq_def)
  ultimately have "can_enable idxd_os ?m [2] [4]" by (simp add: can_enable_def at paths)
  with activate_devices_enables [OF idxd_os_ok(2) idxd_binds idxd_ready \<open>wq_complete (kern ?m)\<close>, of ?c]
  obtain m' where "activate_devices idxd_os (?m, ?c) = Some (0, m', ?c)"
    "\<forall>d \<in> set [2]. state_reads idxd_os (device_at ?m d) ''enabled'' (kern m')" "\<forall>w \<in> set [4]. state_reads idxd_os (queue_at ?m w) ''enabled'' (kern m')"
    by auto
  then show ?thesis by (intro exI [of _ m']) (simp add: at)
qed

end
