(* ===== verification/Library_Session.thy ===== *)
theory Library_Session
  imports Enable_Live
begin

text \<open>
  A program that uses \<open>src/accfg/lib/libaccfg.c\<close>, as a transition system: calls of the library on the objects of a scanned context, one
  after the other in any order, whether they succeed or fail, and between any two of them anything that the kernel, the
  driver or another program does to the system.
\<close>

section \<open>Calls and steps\<close>

text \<open>The calls that change a device, a group, a queue or an engine, with the attribute and the value for the setters of \<open>src/accfg/config.c\<close>.\<close>

datatype 'v call =
    Device_state ptr
  | Device_enable ptr
  | Device_disable ptr bool
  | Device_set ptr string 'v
  | Group_set ptr string 'v
  | Wq_state ptr
  | Wq_enable ptr
  | Wq_disable ptr bool
  | Wq_set ptr string 'v
  | Engine_set ptr string 'v

text \<open>The program has the object from the library, and the texts it passes are not longer than a path.\<close>

fun call_ok :: "'v json_ops \<Rightarrow> 'k mach \<Rightarrow> 'v call \<Rightarrow> bool" where
  "call_ok js m (Device_state d) \<longleftrightarrow> devices m d \<noteq> None"
| "call_ok js m (Device_enable d) \<longleftrightarrow> devices m d \<noteq> None"
| "call_ok js m (Device_disable d force) \<longleftrightarrow> devices m d \<noteq> None"
| "call_ok js m (Device_set d key v) \<longleftrightarrow> devices m d \<noteq> None \<and> texts_short js v"
| "call_ok js m (Group_set g key v) \<longleftrightarrow> groups m g \<noteq> None \<and> texts_short js v"
| "call_ok js m (Wq_state w) \<longleftrightarrow> wqs m w \<noteq> None"
| "call_ok js m (Wq_enable w) \<longleftrightarrow> wqs m w \<noteq> None"
| "call_ok js m (Wq_disable w force) \<longleftrightarrow> wqs m w \<noteq> None"
| "call_ok js m (Wq_set w key v) \<longleftrightarrow> wqs m w \<noteq> None \<and> texts_short js v"
| "call_ok js m (Engine_set e key v) \<longleftrightarrow> engines m e \<noteq> None \<and> texts_short js v"

text \<open>What a call leaves; its answer does not matter here.\<close>

definition left_by :: "('k, 'a) run \<Rightarrow> 'k mach option" where
  "left_by r = map_option snd r"

fun run_call :: "'k os \<Rightarrow> 'v json_ops \<Rightarrow> 'v call \<Rightarrow> 'k mach \<Rightarrow> 'k mach option" where
  "run_call os js (Device_state d) m = left_by (accfg_device_get_state os d m)"
| "run_call os js (Device_enable d) m = left_by (accfg_device_enable os d m)"
| "run_call os js (Device_disable d force) m = left_by (accfg_device_disable os d force m)"
| "run_call os js (Device_set d key v) m = left_by (device_json_set_val os js d v key m)"
| "run_call os js (Group_set g key v) m = left_by (group_json_set_val os js g v key m)"
| "run_call os js (Wq_state w) m = left_by (accfg_wq_get_state os w m)"
| "run_call os js (Wq_enable w) m = left_by (accfg_wq_enable os w m)"
| "run_call os js (Wq_disable w force) m = left_by (accfg_wq_disable os w force m)"
| "run_call os js (Wq_set w key v) m = left_by (wq_json_set_val os js w v key m)"
| "run_call os js (Engine_set e key v) m = left_by (engine_json_set_val os js e v key m)"

inductive session_step :: "'k os \<Rightarrow> 'v json_ops \<Rightarrow> 'k mach \<Rightarrow> 'k mach \<Rightarrow> bool" for os js where
  call: "call_ok js m a \<Longrightarrow> run_call os js a m = Some m' \<Longrightarrow> session_step os js m m'"
| other: "session_step os js m (m\<lparr>kern := k\<rparr>)"

inductive_cases session_stepE: "session_step os js m m'"


section \<open>Every call is defined and every step keeps the context\<close>

lemma left_calm: "calm os ctx obj p f \<Longrightarrow> ready os ctx m \<Longrightarrow> obj m p \<noteq> None \<Longrightarrow> \<exists>m'. left_by (f m) = Some m' \<and> steady m m'"
  by (auto simp: calm_def left_by_def wp_iff)

lemma call_defined:
  assumes "os_ok os" "alloc_ok os" "ready os ctx m" "call_ok js m a"
  shows "\<exists>m'. run_call os js a m = Some m' \<and> steady m m'"
proof -
  note left = left_calm [OF _ assms(3)]
  note state = left [OF device_get_state_calm [OF assms(1)]] left [OF wq_get_state_calm [OF assms(1)]]
  note control = left [OF device_control_calm [OF assms(1)]] left [OF wq_control_calm [OF assms(1)]]
  note set_value = left [OF device_json_set_val_calm [OF assms(1)]] left [OF group_json_set_val_calm [OF assms(1)]]
    left [OF wq_json_set_val_calm [OF assms(1,2)]] left [OF engine_json_set_val_calm [OF assms(1)]]
  show ?thesis
  proof (cases a)
    case (Device_state d)
    with assms(4) state(1) [of d] show ?thesis by simp
  next
    case (Device_enable d)
    with assms(4) control(1) [of d] show ?thesis by (simp add: accfg_device_enable_def)
  next
    case (Device_disable d force)
    with assms(4) control(1) [of d] show ?thesis by (simp add: accfg_device_disable_def)
  next
    case (Device_set d key v)
    with assms(4) set_value(1) [of js v d] show ?thesis by simp
  next
    case (Group_set g key v)
    with assms(4) set_value(2) [of js v g] show ?thesis by simp
  next
    case (Wq_state w)
    with assms(4) state(2) [of w] show ?thesis by simp
  next
    case (Wq_enable w)
    with assms(4) control(2) [of _ w] show ?thesis by (simp add: accfg_wq_enable_def)
  next
    case (Wq_disable w force)
    with assms(4) control(2) [of _ w] show ?thesis by (simp add: accfg_wq_disable_def)
  next
    case (Wq_set w key v)
    with assms(4) set_value(3) [of js v w] show ?thesis by simp
  next
    case (Engine_set e key v)
    with assms(4) set_value(4) [of js v e] show ?thesis by simp
  qed
qed

lemma call_ok_steady: "steady m m' \<Longrightarrow> call_ok js m' a = call_ok js m a"
  by (cases a) (simp_all add: steady_live)

lemma step_steady:
  assumes "os_ok os" "alloc_ok os" "session_step os js m m'" "ready os ctx m"
  shows "steady m m'"
  using assms(3)
proof (rule session_stepE)
  fix a
  assume "call_ok js m a" "run_call os js a m = Some m'"
  then show ?thesis using call_defined [OF assms(1,2,4), of js a] by auto
qed (simp add: sys_only_def)

lemma session_steady:
  assumes "(session_step os js)\<^sup>*\<^sup>* m m'" "os_ok os" "alloc_ok os" "ready os ctx m"
  shows "steady m m' \<and> ready os ctx m'"
  using assms(1)
proof (induction rule: rtranclp_induct)
  case (step m1 m2)
  then have "steady m1 m2" using step_steady [OF assms(2,3) step(2)] by blast
  with step.IH show ?case using steady_trans ready_steady by blast
qed (simp add: assms(4))



end
