(* ===== verification/Accel_Config.thy ===== *)
theory Accel_Config
  imports Enable Config_Cmd Json_Facts
begin

text \<open>
  The program \<open>accel-config\<close>: \<open>src/accfg/accel-config.c\<close> and \<open>src/util/main.c\<close>.  A manual page viewer replaces the process when it can be started: \<open>man\<close> is the status it ends
  with, \<open>None\<close> when no viewer starts.
\<close>

type_synonym 'k cmd_struct = "string \<times> (string list \<Rightarrow> ptr \<Rightarrow> 'k mach \<Rightarrow> 'k cmd_run)"

definition EXIT_SUCCESS :: int where "EXIT_SUCCESS = 0"

text \<open>
  What the commands on values of the JSON library need of their surroundings: how deep a text may nest, the
  files, the name of the configuration file, the readers and makers of values, the state of the library before the
  command, and what a text on the standard output does to the kernel; it is written when the command ends.
\<close>

record ('k, 'w, 'v, 'j) tool =
  tl_depth :: nat
  tl_files :: "'k file_ops"
  tl_save :: "'k save_ops"
  tl_conf_file :: string
  tl_json :: "'w json_ops"
  tl_build :: "('v, 'j) json_build"
  tl_lib :: 'j
  tl_print :: "string \<Rightarrow> 'k \<Rightarrow> 'k"

definition emit :: "('k, 'w, 'v, 'j) tool \<Rightarrow> (((int + int) \<times> string) \<times> 'k mach) option \<Rightarrow> 'k cmd_run" where
  "emit t r = map_option (\<lambda>((r, out), m). (r, m\<lparr>kern := tl_print t out (kern m)\<rparr>)) r"

definition commands :: "'k os \<Rightarrow> ('k, 'w, 'v, 'j) tool \<Rightarrow> 'k cmd_struct list" where
  "commands os t =
    [(''list'', \<lambda>argv ctx m. emit t (cmd_list os (tl_build t) (tl_lib t) argv ctx m)),
     (''load-config'', \<lambda>argv ctx m. emit t (cmd_config (tl_depth t) os (tl_files t) (tl_conf_file t) (tl_json t) (tl_build t) (tl_lib t) argv ctx m)),
     (''save-config'', \<lambda>argv ctx m. emit t (cmd_save os (tl_save t) (tl_conf_file t) (tl_build t) (tl_lib t) argv ctx m)),
     (''disable-device'', cmd_disable_device os), (''enable-device'', cmd_enable_device os),
     (''disable-wq'', cmd_disable_wq os), (''enable-wq'', cmd_enable_wq os),
     (''config-device'', cmd_config_device os), (''config-group'', cmd_config_group os),
     (''config-wq'', cmd_config_wq os), (''config-engine'', cmd_config_engine os),
     (''config-user-default'', \<lambda>argv ctx m. emit t (cmd_config_default (tl_depth t) os (tl_files t) (tl_conf_file t) (tl_json t) (tl_build t) (tl_lib t) argv ctx m))]"


section \<open>Options of the program\<close>

definition is_help :: "string \<Rightarrow> bool" where
  "is_help a \<longleftrightarrow> a = ''--help'' \<or> a = ''-h''"

text \<open>The status the program ends with, or \<open>None\<close> to go on with a command.\<close>

definition main_handle_options :: "int option \<Rightarrow> string list \<Rightarrow> string list \<Rightarrow> int option" where
  "main_handle_options man cmds argv =
     (let help_page = (case man of Some st \<Rightarrow> Some st | None \<Rightarrow> Some USAGE_STATUS) in
      case argv of
        _ # arg # rest \<Rightarrow>
          if arg = ''--version'' \<or> arg = ''-v'' then Some EXIT_SUCCESS
          else if take 1 arg \<noteq> ''-'' then
            (if arg \<in> set cmds then (if rest \<noteq> [] \<and> is_help (hd rest) then help_page else None)
             else Some USAGE_STATUS)
          else if is_help arg then help_page
          else if arg = ''--list-cmds'' then Some EXIT_SUCCESS
          else Some USAGE_STATUS
      | _ \<Rightarrow> help_page)"

definition main_handle_internal_command :: "string list \<Rightarrow> ptr \<Rightarrow> 'k cmd_struct list \<Rightarrow> 'k mach \<Rightarrow> 'k cmd_run" where
  "main_handle_internal_command argv ctx cmds m =
     (case List.find (\<lambda>p. fst p = hd argv) cmds of
        Some p \<Rightarrow> snd p argv ctx m
      | None \<Rightarrow> Some (Inr (- EINVAL), m))"


section \<open>The program\<close>

text \<open>The names and the text of the last error, in the order they are printed.\<close>

definition error_names :: "ptr \<Rightarrow> 'k mach \<Rightarrow> string list option" where
  "error_names ctx m = do {
     d \<leftarrow> accfg_ctx_get_last_error_device ctx m;
     g \<leftarrow> accfg_ctx_get_last_error_group ctx m;
     w \<leftarrow> accfg_ctx_get_last_error_wq ctx m;
     e \<leftarrow> accfg_ctx_get_last_error_engine ctx m;
     ds \<leftarrow> (if d \<noteq> 0 then map_option (\<lambda>n. [n]) (accfg_device_get_devname d m) else Some []);
     gs \<leftarrow> (if g \<noteq> 0 then map_option (\<lambda>n. [n]) (accfg_group_get_devname g m) else Some []);
     ws \<leftarrow> (if w \<noteq> 0 then map_option (\<lambda>n. [n]) (accfg_wq_get_devname w m) else Some []);
     es \<leftarrow> (if e \<noteq> 0 then map_option (\<lambda>n. [n]) (accfg_engine_get_devname e m) else Some []);
     text \<leftarrow> accfg_ctx_get_last_error_str ctx m;
     Some (ds @ gs @ ws @ es @ (case text of None \<Rightarrow> [] | Some t \<Rightarrow> [t]))
   }"

text \<open>\<open>main\<close>: the exit status; a command that ends the process leaves the context as it is.\<close>

definition accel_config_main :: "'k os \<Rightarrow> int option \<Rightarrow> 'k cmd_struct list \<Rightarrow> string list \<Rightarrow> 'k mach \<Rightarrow> ('k, int) run" where
  "accel_config_main os man cmds argv m =
     (case main_handle_options man (map fst cmds) argv of
        Some status \<Rightarrow> Some (status, m)
      | None \<Rightarrow>
          case sys_access os ''/sys/module/idxd'' m of (found, m) \<Rightarrow>
          if \<not> found then Some (EXIT_FAILURE, m)
          else case accfg_new os m of (rc, ctx, m) \<Rightarrow>
            if rc \<noteq> 0 then Some (EXIT_FAILURE, m\<lparr>errno := abs rc\<rparr>)
            else do {
              (r, m) \<leftarrow> main_handle_internal_command (tl argv) ctx cmds m;
              case r of
                Inl status \<Rightarrow> Some (status, m)
              | Inr rc \<Rightarrow> do {
                  last_error \<leftarrow> accfg_ctx_get_last_error ctx m;
                  _ \<leftarrow> (if rc \<noteq> 0 \<and> last_error \<noteq> 0 then error_names ctx m else Some []);
                  (_, m) \<leftarrow> accfg_unref ctx m;
                  Some (if rc = 0 then (EXIT_SUCCESS, m) else (EXIT_FAILURE, m\<lparr>errno := abs rc\<rparr>))
                }
            })"


section \<open>Properties\<close>

text \<open>
  the program runs a command exactly when its first argument names one and the second does not ask for
  help; in every other case it ends before it opens a context, with status 0 for the version and the list of
  commands, and else with the status of the manual viewer or of a usage error.
\<close>

lemma main_handle_options_runs:
  "main_handle_options man cmds argv = None \<longleftrightarrow>
     (\<exists>prog arg rest. argv = prog # arg # rest \<and> arg \<in> set cmds \<and> take 1 arg \<noteq> ''-'' \<and>
        (rest = [] \<or> hd rest \<noteq> ''--help'' \<and> hd rest \<noteq> ''-h''))"
proof (cases argv)
  case (Cons prog args)
  then show ?thesis
    by (cases args) (auto simp: main_handle_options_def Let_def is_help_def split: option.split)
qed (simp add: main_handle_options_def Let_def split: option.split)

lemma accfg_ctx_last_error_defined: "ctxs m c = Some cx \<Longrightarrow> \<exists>v. accfg_ctx_get_last_error c m = Some v"
  by (simp add: accfg_ctx_get_last_error_def)

text \<open>
  C6: a command that answers 0 on the context it is given, and keeps the object graph well-formed with one
  reference to the context, makes the program end with status 0 and nothing left: the context and every
  device that belongs to it are released.
\<close>

theorem main_releases:
  assumes "alloc_ok os" "wf_state m" "main_handle_options man (map fst cmds) argv = None"
    and "os_access os ''/sys/module/idxd'' (kern m) = None"
    and "\<And>m1 cx. wf_state m1 \<Longrightarrow> ctxs m1 (next_ptr m) = Some cx \<Longrightarrow> c_refcount cx = 1 \<Longrightarrow>
      wp (main_handle_internal_command (tl argv) (next_ptr m) cmds m1)
        (\<lambda>(r, m2). r = Inr 0 \<and> wf_state m2 \<and> (\<exists>cx. ctxs m2 (next_ptr m) = Some cx \<and> c_refcount cx = 1))"
  shows "wp (accel_config_main os man cmds argv m) (\<lambda>(status, m'). status = 0 \<and> wf_state m' \<and>
     ctxs m' (next_ptr m) = None \<and> (\<forall>d dv. devices m' d = Some dv \<longrightarrow> dev_ctx dv \<noteq> next_ptr m))"
proof -
  let ?c = "next_ptr m"
  have access: "sys_access os ''/sys/module/idxd'' m = (True, m)" using assms(4) by (simp add: sys_call_defs)
  from accfg_new_ok [OF assms(1,2)] obtain m1 cx where m1: "accfg_new os m = (0, ?c, m1)" "ctxs m1 ?c = Some cx" "wf_state m1"
    "c_refcount cx = 1" by blast
  from assms(5) [OF m1(3,2,4)] obtain m2 cx2 where m2: "main_handle_internal_command (tl argv) ?c cmds m1 = Some (Inr 0, m2)"
    "wf_state m2" "ctxs m2 ?c = Some cx2" "c_refcount cx2 = 1" by (auto simp: wp_iff)
  from accfg_unref_frees [OF m2(2-4)] obtain m3 where m3: "accfg_unref ?c m2 = Some (0, m3)" "wf_state m3"
    "ctxs m3 = (ctxs m2)(?c := None)" "freed {d. owns m2 ?c d} m2 m3" by blast
  have "\<forall>d dv. devices m3 d = Some dv \<longrightarrow> dev_ctx dv \<noteq> ?c"
    using m3(4) by (auto simp: freed_def owns_def)
  moreover obtain v where "accfg_ctx_get_last_error ?c m2 = Some v" using accfg_ctx_last_error_defined [OF m2(3)] by blast
  ultimately show ?thesis
    using assms(3) access m1(1) m2(1) m3(1-3) by (simp add: accel_config_main_def EXIT_SUCCESS_def)
qed

text \<open>The command of the witness: \<open>accel-config config-device all\<close>.\<close>

lemma config_device_all: "cmd_config_device os [''config-device'', ''all''] ctx m = Some (Inr 0, m)"
  using parse_options_args [of "[''all'']" "''config-device''"]
  by (simp add: positional_def cmd_config_device_def config_cmd_def all_args_def parse_names_all EINVAL_def)

definition ex_tool :: "(fs, ex_json, nat, ex_lib) tool" where
  "ex_tool = \<lparr>tl_depth = 5,
     tl_files = \<lparr>fo_open = (\<lambda>p k. if map_of (fs_files k) p = None then Some ENOENT else None),
       fo_stat_size = (\<lambda>p k. case map_of (fs_files k) p of None \<Rightarrow> Inl ENOENT | Some s \<Rightarrow> Inr (int (length s))),
       fo_read = (\<lambda>p n k. case map_of (fs_files k) p of None \<Rightarrow> [] | Some s \<Rightarrow> take n s)\<rparr>,
     tl_save = \<lparr>so_create = (\<lambda>p k. (None, k)), so_contents = (\<lambda>p t k. k\<lparr>fs_files := (p, t) # fs_files k\<rparr>)\<rparr>,
     tl_conf_file = ''/etc/accel-config/accel-config.conf'', tl_json = ex_js JNull, tl_build = ex_build, tl_lib = [],
     tl_print = (\<lambda>t k. k)\<rparr>"

theorem main_releases_witness:
  "wp (accel_config_main fs_os None (commands fs_os ex_tool) [''accel-config'', ''config-device'', ''all''] (ex_mach (ex_fs\<lparr>fs_dirs := [(''/sys/module/idxd'', [])]\<rparr>)))
     (\<lambda>(status, m'). status = 0 \<and> wf_state m' \<and> ctxs m' 6 = None \<and> (\<forall>d dv. devices m' d = Some dv \<longrightarrow> dev_ctx dv \<noteq> 6))"
proof -
  let ?cmds = "commands fs_os ex_tool"
  let ?argv = "[''accel-config'', ''config-device'', ''all'']"
  let ?fs = "ex_fs\<lparr>fs_dirs := [(''/sys/module/idxd'', [])]\<rparr>"
  have "main_handle_options None (map fst ?cmds) ?argv = None"
    by (simp add: main_handle_options_def commands_def is_help_def)
  moreover have "main_handle_internal_command (tl ?argv) c ?cmds m1 = Some (Inr 0, m1)" for c m1
    by (simp add: main_handle_internal_command_def commands_def config_device_all)
  moreover have "next_ptr (ex_mach ?fs) = 6" by (simp add: ex_mach_def)
  ultimately show ?thesis
    using main_releases [OF fs_os_ok(2) ex_mach_wf, of None ?cmds ?argv ?fs] by simp
qed

end
