(* ===== verification/Report.thy ===== *)
theory Report
  imports Strbuf
begin

text \<open>
  Messages: \<open>src/util/usage.c\<close> and the output side of \<open>src/util/log.c\<close> and \<open>log.h\<close>.  What is printed on the
  standard error is the value of a function; a format with its arguments is the text it prints as.
\<close>

section \<open>Texts in memory\<close>

text \<open>Reading a string from memory: up to the first NUL, and \<open>None\<close> when a byte before it was never written
  or the memory ends without one.\<close>

fun c_text :: "char option list \<Rightarrow> string option" where
  "c_text [] = None"
| "c_text (None # bs) = None"
| "c_text (Some c # bs) = (if c = NUL then Some [] else map_option ((#) c) (c_text bs))"

lemma c_text_Some: "NUL \<notin> set s \<Longrightarrow> c_text (map Some s @ Some NUL # rest) = Some s"
  by (induction s) auto

lemma c_text_unwritten: "c_text (replicate n None) = None"
  by (cases n) auto

lemma c_text_holds:
  assumes "sb_holds sb cs" "NUL \<notin> set cs"
  shows "c_text (sb_buf sb) = Some cs"
proof (cases "sb_alloc sb = 0")
  case True
  then show ?thesis using assms(1) by (simp add: sb_holds_def sb_area_def strbuf_slopbuf_def)
next
  case False
  then have "take (sb_len sb) (sb_buf sb) = map Some cs" "sb_len sb < length (sb_buf sb)" "sb_buf sb ! sb_len sb = Some NUL"
    using assms(1) by (auto simp: sb_holds_def sb_area_def)
  then have "sb_buf sb = map Some cs @ Some NUL # drop (Suc (sb_len sb)) (sb_buf sb)"
    using id_take_nth_drop [of "sb_len sb" "sb_buf sb"] by simp
  with c_text_Some [OF assms(2)] show ?thesis by metis
qed


section \<open>With memory for the texts\<close>

text \<open>
  A buffer that holds \<open>cs\<close> and is not much larger than a bound \<open>n\<close> stays so when a text is added that leaves it
  below \<open>n\<close>; \<open>plenty\<close> memory then grants every request.
\<close>

definition roomy :: "nat \<Rightarrow> strbuf \<Rightarrow> string \<Rightarrow> bool" where
  "roomy n sb cs \<longleftrightarrow> sb_holds sb cs \<and> sb_alloc sb \<le> 2 * n + 24"

lemma roomy_init [simp]: "roomy n STRBUF_INIT []"
  using STRBUF_INIT_holds by (simp add: roomy_def) (simp add: STRBUF_INIT_def)

lemma strbuf_setlen_alloc: "sb_alloc sb \<noteq> 0 \<Longrightarrow> strbuf_setlen ok n sb = Some (Inr sb') \<Longrightarrow> sb_alloc sb' = sb_alloc sb"
  by (auto simp: strbuf_setlen_def dying_bind_def split: if_splits)

lemma strbuf_addstr_roomy:
  assumes "roomy n sb cs" "mem_ok ok" "plenty ok" "length cs + length data + 1 \<le> n" "n \<le> 1152921504606846976"
  shows "\<exists>sb'. strbuf_addstr ok data sb = Some (Inr sb') \<and> roomy n sb' (cs @ data)"
proof -
  have sb: "sb_area sb cs" "sb_len sb = length cs" "sb_alloc sb \<le> 2 * n + 24" using assms(1) by (auto simp: roomy_def sb_holds_def sb_area_def)
  have fit: "sb_len sb + length data + 1 \<le> n" using sb(2) assms(4) by simp
  note grow = plenty_grows [OF assms(3) fit assms(5) sb(3)]
  have len: "length data < 18446744073709551616" using assms(4,5) by simp
  from strbuf_grow_outcome [OF sb(1) assms(2) len] grow(1) obtain x
    where x: "strbuf_grow ok (length data) sb = Some (Inr x)" "sb_alloc x = grown sb (length data)" "sb_len sb + length data < sb_alloc x"
    by (auto simp: outcome_def)
  from strbuf_add_outcome [OF sb(1) assms(2) len] grow(1) obtain sb'
    where sb': "strbuf_add ok data sb = Some (Inr sb')" "sb_holds sb' (cs @ data)" by (auto simp: outcome_def)
  then obtain k p where "strbuf_setlen ok k (x\<lparr>sb_buf := p\<rparr>) = Some (Inr sb')"
    using x(1) by (auto simp: strbuf_add_def dying_bind_def bind_Some_iff)
  from strbuf_setlen_alloc [OF _ this] have "sb_alloc sb' = sb_alloc x" using x(3) by simp
  then show ?thesis using sb' x(2) grow(2) by (auto simp: strbuf_addstr_def roomy_def)
qed

lemma strbuf_addch_roomy:
  assumes "roomy n sb cs" "mem_ok ok" "plenty ok" "length cs + 2 \<le> n" "n \<le> 1152921504606846976"
  shows "\<exists>sb'. strbuf_addch ok c sb = Some (Inr sb') \<and> roomy n sb' (cs @ [c])"
proof -
  have sb: "sb_area sb cs" "sb_len sb = length cs" "sb_alloc sb \<le> 2 * n + 24" using assms(1) by (auto simp: roomy_def sb_holds_def sb_area_def)
  have fit: "sb_len sb + 1 + 1 \<le> n" using sb(2) assms(4) by simp
  note grow = plenty_grows [OF assms(3) fit assms(5) sb(3)]
  from strbuf_grow_outcome [OF sb(1) assms(2), of 1] grow(1) obtain x
    where x: "strbuf_grow ok 1 sb = Some (Inr x)" "sb_alloc x = grown sb 1" by (auto simp: outcome_def)
  from strbuf_addch_outcome [OF sb(1) assms(2), of c] grow(1) obtain sb'
    where sb': "strbuf_addch ok c sb = Some (Inr sb')" "sb_holds sb' (cs @ [c])" by (auto simp: outcome_def)
  then have "sb_alloc sb' = sb_alloc x" using x(1) by (auto simp: strbuf_addch_def dying_bind_def bind_Some_iff)
  then show ?thesis using sb' x(2) grow(2) by (auto simp: roomy_def)
qed

lemma strbuf_addf_alloc:
  assumes "mem_ok ok" "strbuf_addf ok text STRBUF_INIT = Some (Inr sb)" "length text + 66 \<le> n" "n \<le> 1073741900"
  shows "sb_alloc sb \<le> 2 * n + 24"
proof -
  have area: "sb_area STRBUF_INIT []" using STRBUF_INIT_holds by (simp add: sb_holds_def)
  have g: "grown STRBUF_INIT 64 = 65" by (simp add: grown_def STRBUF_INIT_def alloc_nr_def usize_def)
  have full: "strbuf_avail STRBUF_INIT = 0" by (simp add: strbuf_avail_def STRBUF_INIT_def)
  show ?thesis
  proof (cases "refused ok STRBUF_INIT 64")
    case True
    with strbuf_grow_outcome [OF area assms(1), of 64] full assms(2) show ?thesis
      by (simp add: outcome_def strbuf_addf_def dying_bind_def)
  next
    case False
    with strbuf_grow_outcome [OF area assms(1), of 64] g obtain x
      where x: "strbuf_grow ok 64 STRBUF_INIT = Some (Inr x)" "sb_area x []" "sb_alloc x = 65" "sb_len x = 0"
      by (auto simp: outcome_def STRBUF_INIT_def)
    have len: "int (length text) \<le> INT_MAX" using assms(3,4) by (simp add: c_limits)
    from vsnprintf_area [OF x(2) _ len] x(3) obtain p
      where p: "vsnprintf (sb_len x) (sb_alloc x - sb_len x) text (sb_buf x) = Some (int (length text), p)" "sb_area (x\<lparr>sb_buf := p\<rparr>) []"
      by auto
    have avail: "strbuf_avail (x\<lparr>sb_buf := p\<rparr>) = 64" using strbuf_avail_area [OF p(2)] x(3,4) by simp
    show ?thesis
    proof (cases "64 < length text")
      case small: False
      then have "sb_alloc sb = 65"
        using assms(2) x full p(1) avail by (auto simp: strbuf_addf_def dying_bind_def dest!: strbuf_setlen_alloc [rotated])
      then show ?thesis using assms(3) by simp
    next
      case True
      have len2: "length text < 18446744073709551616" using assms(3,4) by simp
      show ?thesis
      proof (cases "refused ok (x\<lparr>sb_buf := p\<rparr>) (length text)")
        case True
        with strbuf_grow_outcome [OF p(2) assms(1) len2] assms(2) x full p(1) avail \<open>64 < length text\<close> show ?thesis
          by (simp add: outcome_def strbuf_addf_def dying_bind_def)
      next
        case False
        with strbuf_grow_outcome [OF p(2) assms(1) len2] obtain z
          where z: "strbuf_grow ok (length text) (x\<lparr>sb_buf := p\<rparr>) = Some (Inr z)" "sb_alloc z = grown (x\<lparr>sb_buf := p\<rparr>) (length text)" "sb_alloc z \<noteq> 0"
          by (auto simp: outcome_def)
        then have "sb_alloc sb = sb_alloc z"
          using assms(2) x full p(1) avail \<open>64 < length text\<close>
          by (auto simp: strbuf_addf_def dying_bind_def bind_Some_iff Let_def split: if_splits dest!: strbuf_setlen_alloc [rotated])
        moreover have "grown (x\<lparr>sb_buf := p\<rparr>) (length text) \<le> 2 * n + 24"
          using alloc_nr_le [of 65 n] assms(3,4) x(3,4) by (auto simp: grown_def)
        ultimately show ?thesis using z(2) by simp
      qed
    qed
  qed
qed

lemma strbuf_addf_init:
  assumes "mem_ok ok" "plenty ok" "length text + 66 \<le> n" "n \<le> 1073741900"
  shows "\<exists>sb'. strbuf_addf ok text STRBUF_INIT = Some (Inr sb') \<and> roomy n sb' text"
proof -
  have area: "sb_area STRBUF_INIT []" using STRBUF_INIT_holds by (simp add: sb_holds_def)
  have "\<not> refused ok STRBUF_INIT 64" "\<not> refused ok (STRBUF_INIT\<lparr>sb_alloc := grown STRBUF_INIT 64\<rparr>) (length text)"
    using assms(3,4)
    by (intro plenty_grows(1) [OF assms(2), where n = 1073741900]; simp add: STRBUF_INIT_def grown_def alloc_nr_def usize_def)+
  then have "\<not> addf_refused ok STRBUF_INIT (length text)"
    using assms(3,4) by (simp add: addf_refused_def c_limits STRBUF_INIT_def)
  with strbuf_addf_outcome [OF area assms(1), of "text"] obtain sb'
    where "strbuf_addf ok text STRBUF_INIT = Some (Inr sb')" "sb_holds sb' text" by (auto simp: outcome_def)
  with strbuf_addf_alloc [OF assms(1) _ assms(3,4)] show ?thesis by (auto simp: roomy_def)
qed

text \<open>A text of C of a moderate size.\<close>

definition moderate :: "string \<Rightarrow> bool" where
  "moderate s \<longleftrightarrow> NUL \<notin> set s \<and> length s \<le> 100000000"


section \<open>Reports\<close>

text \<open>The local array \<open>msg\<close> has 1024 bytes that were never written.\<close>

definition report :: "string \<Rightarrow> string \<Rightarrow> string option" where
  "report prefix text = do {
     (_, msg) \<leftarrow> vsnprintf 0 1024 text (replicate 1024 None);
     msg \<leftarrow> c_text msg;
     Some ('' '' @ prefix @ msg @ [NL])
   }"

definition usage_builtin :: "string \<Rightarrow> int \<times> string" where
  "usage_builtin err = (129, [NL] @ '' Usage: '' @ err @ [NL])"

definition die_builtin :: "string \<Rightarrow> (int \<times> string) option" where
  "die_builtin text = map_option (\<lambda>out. (DIE_STATUS, out)) (report '' Fatal: '' text)"

definition error_builtin :: "string \<Rightarrow> string option" where "error_builtin text = report '' Error: '' text"

definition warn_builtin :: "string \<Rightarrow> string option" where "warn_builtin text = report '' Warning: '' text"

text \<open>The four pointers of the file; a routine that does not return gives the status it ends with.\<close>

record routines =
  usage_routine :: "string \<Rightarrow> int \<times> string"
  die_routine :: "string \<Rightarrow> (int \<times> string) option"
  error_routine :: "string \<Rightarrow> string option"
  warn_routine :: "string \<Rightarrow> string option"

definition builtin_routines :: routines where
  "builtin_routines = \<lparr>usage_routine = usage_builtin, die_routine = die_builtin, error_routine = error_builtin, warn_routine = warn_builtin\<rparr>"

definition set_die_routine :: "(string \<Rightarrow> (int \<times> string) option) \<Rightarrow> routines \<Rightarrow> routines" where
  "set_die_routine routine r = r\<lparr>die_routine := routine\<rparr>"

definition usage :: "routines \<Rightarrow> string \<Rightarrow> int \<times> string" where "usage r err = usage_routine r err"

definition die :: "routines \<Rightarrow> string \<Rightarrow> (int \<times> string) option" where "die r text = die_routine r text"

text \<open>\<open>error\<close> answers -1.\<close>

definition error_msg :: "routines \<Rightarrow> string \<Rightarrow> (int \<times> string) option" where
  "error_msg r text = map_option (Pair (-1)) (error_routine r text)"

definition warning :: "routines \<Rightarrow> string \<Rightarrow> string option" where "warning r text = warn_routine r text"

text \<open>
  A message is printed behind its prefix and cut after 1023 characters; no byte of the array is read that
  was not written.  Only a text too long for an \<open>int\<close> leaves the array unwritten.
\<close>

lemma report_cut:
  assumes "NUL \<notin> set text"
  shows "report prefix text =
    (if int (length text) \<le> INT_MAX then Some ('' '' @ prefix @ take 1023 text @ [NL]) else None)"
proof (cases "int (length text) \<le> INT_MAX")
  case True
  have "NUL \<notin> set (take 1023 text)" using assms by (auto dest: in_set_takeD)
  from c_text_Some [OF this] True show ?thesis by (simp add: report_def vsnprintf_def put_bytes_def)
next
  case False
  then show ?thesis by (simp add: report_def vsnprintf_def c_text_unwritten)
qed

lemma error_msg_builtin:
  "NUL \<notin> set text \<Longrightarrow> int (length text) \<le> INT_MAX \<Longrightarrow>
     error_msg builtin_routines text = Some (-1, ''  Error: '' @ take 1023 text @ [NL])"
  by (simp add: error_msg_def builtin_routines_def error_builtin_def report_cut)


section \<open>The log\<close>

text \<open>\<open>errno\<close> and the surroundings, which writing on the standard error may both change.\<close>

type_synonym 's io = "int \<times> 's"

record 's log_ctx =
  lc_fn :: "string \<Rightarrow> int \<Rightarrow> string \<Rightarrow> int \<Rightarrow> string \<Rightarrow> string \<Rightarrow> 's io \<Rightarrow> 's io"
  lc_owner :: string
  lc_priority :: int

definition log_stderr ::
  "(string \<Rightarrow> 's io \<Rightarrow> 's io) \<Rightarrow> string \<Rightarrow> int \<Rightarrow> string \<Rightarrow> int \<Rightarrow> string \<Rightarrow> string \<Rightarrow> 's io \<Rightarrow> 's io" where
  "log_stderr err owner priority file line fn text io = err text (err (owner @ '': '' @ fn @ '': '') io)"

definition do_log :: "'s log_ctx \<Rightarrow> int \<Rightarrow> string \<Rightarrow> int \<Rightarrow> string \<Rightarrow> string \<Rightarrow> 's io \<Rightarrow> 's io" where
  "do_log ctx priority file line fn text io =
     (let errno_save = fst io; io = lc_fn ctx (lc_owner ctx) priority file line fn text io in (errno_save, snd io))"

definition log_cond :: "'s log_ctx \<Rightarrow> int \<Rightarrow> string \<Rightarrow> int \<Rightarrow> string \<Rightarrow> string \<Rightarrow> 's io \<Rightarrow> 's io" where
  "log_cond ctx prio file line fn text io =
     (if lc_priority ctx \<ge> prio then do_log ctx prio file line fn text io else io)"

text \<open>Whatever the log function does, a message leaves \<open>errno\<close> alone; the callers' \<open>-errno\<close> after it relies on this.\<close>

lemma log_cond_errno: "fst (log_cond ctx prio file line fn text io) = fst io"
  by (simp add: log_cond_def do_log_def Let_def)

end
