(* ===== verification/Help.thy ===== *)
theory Help
  imports Report Parse_Options
begin

text \<open>
  The manual pages: \<open>src/util/help.c\<close>.  A viewer replaces the process: the file that is executed and its
  arguments are the result then, with the environment it inherits.  Which sizes of memory are granted is \<open>ok\<close>;
  \<open>fails\<close> is \<open>execlp\<close>, the text of the error of a file that cannot be executed; \<open>prefix\<close> and
  \<open>man_path\<close> are the directories the build chose.
\<close>

section \<open>The process\<close>

record proc =
  pr_env :: "string \<Rightarrow> string option"
  pr_err :: string

type_synonym image = "string \<times> string list"

definition pr_warning :: "string \<Rightarrow> proc \<Rightarrow> proc option" where
  "pr_warning text p = map_option (\<lambda>out. p\<lparr>pr_err := pr_err p @ out\<rparr>) (warning builtin_routines text)"

text \<open>\<open>execlp\<close> and the warning behind it.\<close>

definition exec_or_warn :: "(string \<Rightarrow> string option) \<Rightarrow> string \<Rightarrow> string list \<Rightarrow> proc \<Rightarrow> (image option \<times> proc) option" where
  "exec_or_warn fails path args p = (case fails path of
       None \<Rightarrow> Some (Some (path, args), p)
     | Some e \<Rightarrow> map_option (Pair None) (pr_warning (''failed to exec '' @ [CHR 0x27] @ path @ [CHR 0x27] @ '': '' @ e) p))"


section \<open>The viewers\<close>

definition exec_man_man :: "(string \<Rightarrow> string option) \<Rightarrow> string option \<Rightarrow> string \<Rightarrow> proc \<Rightarrow> (image option \<times> proc) option" where
  "exec_man_man fails path page p =
     (let path = (case path of None \<Rightarrow> ''man'' | Some f \<Rightarrow> f) in exec_or_warn fails path [''man'', page] p)"

text \<open>
  The last component of \<open>path\<close> is compared with \<open>konqueror\<close> and written over with \<open>kfmclient\<close>; \<open>file\<close> starts at
  the slash before it.
\<close>

definition konqueror_path :: "string option \<Rightarrow> string \<times> string" where
  "konqueror_path path = (case path of
       None \<Rightarrow> (''kfmclient'', ''kfmclient'')
     | Some f \<Rightarrow> (case after_last_slash f of
         None \<Rightarrow> (f, ''kfmclient'')
       | Some name \<Rightarrow> (if name = ''konqueror'' then take (length f - length name) f @ ''kfmclient'' else f, CHR ''/'' # name)))"

definition exec_man_konqueror ::
  "(nat \<Rightarrow> bool) \<Rightarrow> (string \<Rightarrow> string option) \<Rightarrow> string option \<Rightarrow> string \<Rightarrow> proc \<Rightarrow> (image option \<times> proc) dying" where
  "exec_man_konqueror ok fails path page p =
     (case pr_env p ''DISPLAY'' of
        Some (_ # _) \<Rightarrow>
          (case konqueror_path path of (path, filename) \<Rightarrow>
           dying_bind (strbuf_addf ok (''man:'' @ page @ ''(1)'') STRBUF_INIT) (\<lambda>man_page. do {
             man_page \<leftarrow> c_text (sb_buf man_page);
             r \<leftarrow> exec_or_warn fails path [filename, ''newTab'', man_page] p;
             Some (Inr r)
           }))
      | _ \<Rightarrow> Some (Inr (None, p)))"

text \<open>\<open>strcasecmp\<close> with a name in lower case.\<close>

definition to_lower :: "char \<Rightarrow> char" where
  "to_lower c = (let n = (of_char c :: nat) in if 65 \<le> n \<and> n \<le> 90 then char_of (n + 32) else c)"

definition strcasecmp_eq :: "string \<Rightarrow> string \<Rightarrow> bool" where
  "strcasecmp_eq a b \<longleftrightarrow> map to_lower a = map to_lower b"

definition exec_viewer ::
  "(nat \<Rightarrow> bool) \<Rightarrow> (string \<Rightarrow> string option) \<Rightarrow> string \<Rightarrow> string \<Rightarrow> proc \<Rightarrow> (image option \<times> proc) dying" where
  "exec_viewer ok fails name page p =
     (if strcasecmp_eq name ''man'' then map_option Inr (exec_man_man fails None page p)
      else if strcasecmp_eq name ''konqueror'' then exec_man_konqueror ok fails None page p
      else map_option (\<lambda>p. Inr (None, p)) (pr_warning ([CHR 0x27] @ name @ [CHR 0x27] @ '': unknown man viewer.'') p))"


section \<open>The page and its directory\<close>

definition cmd_to_page :: "(nat \<Rightarrow> bool) \<Rightarrow> string option \<Rightarrow> string \<Rightarrow> string option" where
  "cmd_to_page ok cmd util_name =
     (let page = (case cmd of
         None \<Rightarrow> util_name
       | Some c \<Rightarrow> if prefixcmp c util_name = 0 then c else util_name @ ''-'' @ c)
      in if ok (length page + 1) then Some page else None)"

definition system_path :: "(nat \<Rightarrow> bool) \<Rightarrow> string \<Rightarrow> string \<Rightarrow> string dying" where
  "system_path ok prefix path =
     (if is_absolute_path path then Some (Inr path)
      else dying_bind (strbuf_addf ok (prefix @ ''/'' @ path) STRBUF_INIT) (\<lambda>d.
        dying_bind (strbuf_detach ok d) (\<lambda>(buf, _, _). do {
          buf \<leftarrow> buf;
          path \<leftarrow> c_text buf;
          Some (Inr path)
        })))"

text \<open>\<open>setenv\<close> may find no memory, which is not looked at.\<close>

definition setup_man_path :: "(nat \<Rightarrow> bool) \<Rightarrow> string \<Rightarrow> string \<Rightarrow> proc \<Rightarrow> proc dying" where
  "setup_man_path ok prefix man_path p =
     (let old_path = pr_env p ''MANPATH'' in
      dying_bind (system_path ok prefix man_path) (\<lambda>dir.
      dying_bind (strbuf_addstr ok dir STRBUF_INIT) (\<lambda>new_path.
      dying_bind (strbuf_addch ok (CHR '':'') new_path) (\<lambda>new_path.
      dying_bind (case old_path of None \<Rightarrow> Some (Inr new_path) | Some old \<Rightarrow> strbuf_addstr ok old new_path) (\<lambda>new_path. do {
        val \<leftarrow> c_text (sb_buf new_path);
        Some (Inr (if ok (length val + 9) then p\<lparr>pr_env := (pr_env p)(''MANPATH'' := Some val)\<rparr> else p))
      })))))"

text \<open>
  \<open>help_show_man_page\<close> either replaces the process or answers -1.  \<open>viewer\<close> names the variable with the viewer to
  try first.
\<close>

definition help_show_man_page ::
  "(nat \<Rightarrow> bool) \<Rightarrow> (string \<Rightarrow> string option) \<Rightarrow> string \<Rightarrow> string \<Rightarrow> string option \<Rightarrow> string \<Rightarrow> string \<Rightarrow> proc \<Rightarrow>
     ((image + int) \<times> proc) dying" where
  "help_show_man_page ok fails prefix man_path cmd util_name viewer p =
     (let fallback = pr_env p viewer in
      case cmd_to_page ok cmd util_name of
        None \<Rightarrow> Some (Inr (Inr (-1), p))
      | Some page \<Rightarrow>
          dying_bind (setup_man_path ok prefix man_path p) (\<lambda>p.
          dying_bind (case fallback of None \<Rightarrow> Some (Inr (None, p)) | Some f \<Rightarrow> exec_viewer ok fails f page p) (\<lambda>(image, p).
            case image of
              Some i \<Rightarrow> Some (Inr (Inl i, p))
            | None \<Rightarrow>
                dying_bind (exec_viewer ok fails ''man'' page p) (\<lambda>(image, p).
                  case image of
                    Some i \<Rightarrow> Some (Inr (Inl i, p))
                  | None \<Rightarrow> Some (Inr (Inr (-1), p\<lparr>pr_err := pr_err p @ ''no man viewer handled the request''\<rparr>))))))"


section \<open>Property\<close>

definition page_of :: "string option \<Rightarrow> string \<Rightarrow> string" where
  "page_of cmd util_name = (case cmd of
     None \<Rightarrow> util_name | Some c \<Rightarrow> if take (length util_name) c = util_name then c else util_name @ ''-'' @ c)"

definition man_dir :: "string \<Rightarrow> string \<Rightarrow> string" where
  "man_dir prefix man_path = (if is_absolute_path man_path then man_path else prefix @ ''/'' @ man_path)"

definition or_empty :: "string option \<Rightarrow> string" where
  "or_empty s = (case s of None \<Rightarrow> [] | Some t \<Rightarrow> t)"

lemma system_path_ok:
  assumes "mem_ok ok" "plenty ok" "moderate prefix" "moderate man_path"
  shows "system_path ok prefix man_path = Some (Inr (man_dir prefix man_path))"
proof (cases "is_absolute_path man_path")
  case False
  let ?d = "prefix @ ''/'' @ man_path"
  have d: "length ?d + 66 \<le> 1073741900" "NUL \<notin> set ?d" using assms(3,4) by (auto simp: moderate_def NUL_def)
  from strbuf_addf_init [OF assms(1,2) d(1)] obtain sb
    where sb: "strbuf_addf ok ?d STRBUF_INIT = Some (Inr sb)" "sb_holds sb ?d" by (auto simp: roomy_def)
  have "sb_alloc sb \<noteq> 0" using sb(2) by (auto simp: sb_holds_def sb_area_def split: if_splits)
  then have "strbuf_detach ok sb = Some (Inr (Some (sb_buf sb), sb_len sb, STRBUF_INIT))"
    by (simp add: strbuf_detach_def strbuf_init_0 dying_bind_def)
  with False sb(1) c_text_holds [OF sb(2) d(2)] show ?thesis by (simp add: system_path_def dying_bind_def man_dir_def)
qed (simp add: system_path_def man_dir_def)

lemma setup_man_path_ok:
  assumes "mem_ok ok" "plenty ok" "moderate prefix" "moderate man_path" "moderate (or_empty (pr_env p ''MANPATH''))"
  shows "setup_man_path ok prefix man_path p =
    Some (Inr (p\<lparr>pr_env := (pr_env p)(''MANPATH'' := Some (man_dir prefix man_path @ '':'' @ or_empty (pr_env p ''MANPATH'')))\<rparr>))"
proof -
  let ?dir = "man_dir prefix man_path"
  let ?old = "or_empty (pr_env p ''MANPATH'')"
  let ?n = "1073741824 :: nat"
  have dir: "length ?dir \<le> 200000001" "NUL \<notin> set ?dir" using assms(3,4) by (auto simp: man_dir_def moderate_def NUL_def)
  have old: "length ?old \<le> 100000000" "NUL \<notin> set ?old" using assms(5) by (auto simp: moderate_def)
  from strbuf_addstr_roomy [OF roomy_init assms(1,2), of ?dir ?n] dir obtain s1
    where s1: "strbuf_addstr ok ?dir STRBUF_INIT = Some (Inr s1)" "roomy ?n s1 ?dir" by auto
  from strbuf_addch_roomy [OF s1(2) assms(1,2), of "CHR '':''"] dir obtain s2
    where s2: "strbuf_addch ok (CHR '':'') s1 = Some (Inr s2)" "roomy ?n s2 (?dir @ '':'')" by auto
  have "\<exists>s3. (case pr_env p ''MANPATH'' of None \<Rightarrow> Some (Inr s2) | Some old \<Rightarrow> strbuf_addstr ok old s2) = Some (Inr s3) \<and>
      roomy ?n s3 ((?dir @ '':'') @ ?old)"
    using s2(2) strbuf_addstr_roomy [OF s2(2) assms(1,2), of ?old] dir old
    by (cases "pr_env p ''MANPATH''") (auto simp: or_empty_def)
  then obtain s3 where s3: "(case pr_env p ''MANPATH'' of None \<Rightarrow> Some (Inr s2) | Some old \<Rightarrow> strbuf_addstr ok old s2) = Some (Inr s3)"
      "sb_holds s3 (?dir @ '':'' @ ?old)" by (auto simp: roomy_def)
  have "NUL \<notin> set (?dir @ '':'' @ ?old)" using dir(2) old(2) by (auto simp: NUL_def)
  from c_text_holds [OF s3(2) this] have val: "c_text (sb_buf s3) = Some (?dir @ '':'' @ ?old)" .
  have "ok (length (?dir @ '':'' @ ?old) + 9)" using assms(2) dir(1) old(1) by (simp add: plenty_def)
  with system_path_ok [OF assms(1-4)] s1(1) s2(1) s3(1) val show ?thesis
    unfolding setup_man_path_def dying_bind_def Let_def by (simp add: bind_Some_iff)
qed

lemma cmd_to_page_ok:
  assumes "plenty ok" "moderate util_name" "moderate (or_empty cmd)"
  shows "cmd_to_page ok cmd util_name = Some (page_of cmd util_name)" "moderate (or_empty cmd) \<Longrightarrow> length (page_of cmd util_name) \<le> 200000001"
    "NUL \<notin> set (page_of cmd util_name)"
  using assms
  by (auto simp: cmd_to_page_def page_of_def plenty_def moderate_def or_empty_def prefixcmp_eq_0_iff NUL_def split: option.splits)

definition errors_ok :: "(string \<Rightarrow> string option) \<Rightarrow> bool" where
  "errors_ok fails \<longleftrightarrow> (\<forall>f e. fails f = Some e \<longrightarrow> moderate e)"

lemma pr_warning_ok:
  "NUL \<notin> set text \<Longrightarrow> length text \<le> 1073741824 \<Longrightarrow> \<exists>p'. pr_warning text p = Some p' \<and> pr_env p' = pr_env p"
  by (simp add: pr_warning_def warning_def builtin_routines_def warn_builtin_def report_cut c_limits)

lemma exec_or_warn_ok:
  assumes "errors_ok fails" "moderate path"
  shows "\<exists>p'. exec_or_warn fails path args p = Some (if fails path = None then Some (path, args) else None, p') \<and> pr_env p' = pr_env p"
proof (cases "fails path")
  case (Some e)
  let ?t = "''failed to exec '' @ [CHR 0x27] @ path @ [CHR 0x27] @ '': '' @ e"
  have "NUL \<notin> set ?t" "length ?t \<le> 1073741824"
    using assms Some by (auto simp: errors_ok_def moderate_def NUL_def dest!: spec)
  from pr_warning_ok [OF this] obtain p' where "pr_warning ?t p = Some p'" "pr_env p' = pr_env p" by blast
  with Some show ?thesis by (simp add: exec_or_warn_def)
qed (simp add: exec_or_warn_def)

text \<open>The two ways a page is shown.\<close>

definition shows_page :: "string \<Rightarrow> image \<Rightarrow> bool" where
  "shows_page page i \<longleftrightarrow> i = (''man'', [''man'', page]) \<or> i = (''kfmclient'', [''kfmclient'', ''newTab'', ''man:'' @ page @ ''(1)''])"

lemma moderate_names: "moderate ''man''" "moderate ''kfmclient''"
  by (simp_all add: moderate_def NUL_def)

lemma exec_viewer_ok:
  assumes "mem_ok ok" "plenty ok" "errors_ok fails" "moderate name" "length page \<le> 200000001" "NUL \<notin> set page"
  shows "\<exists>r p'. exec_viewer ok fails name page p = Some (Inr (r, p')) \<and> pr_env p' = pr_env p \<and>
    (\<forall>i. r = Some i \<longrightarrow> fails (fst i) = None \<and> shows_page page i) \<and> (strcasecmp_eq name ''man'' \<longrightarrow> (r = None \<longleftrightarrow> fails ''man'' \<noteq> None))"
proof -
  consider (man) "strcasecmp_eq name ''man''" | (konq) "\<not> strcasecmp_eq name ''man''" "strcasecmp_eq name ''konqueror''"
    | (other) "\<not> strcasecmp_eq name ''man''" "\<not> strcasecmp_eq name ''konqueror''" by blast
  then show ?thesis
  proof cases
    case man
    from exec_or_warn_ok [OF assms(3) moderate_names(1), of "[''man'', page]" p] man show ?thesis
      by (auto simp: exec_viewer_def exec_man_man_def shows_page_def)
  next
    case konq
    let ?m = "''man:'' @ page @ ''(1)''"
    have m: "length ?m + 66 \<le> 1073741900" "NUL \<notin> set ?m" using assms(5,6) by (auto simp: NUL_def)
    from strbuf_addf_init [OF assms(1,2) m(1)] obtain sb where sb: "strbuf_addf ok ?m STRBUF_INIT = Some (Inr sb)" "sb_holds sb ?m" by (auto simp: roomy_def)
    from exec_or_warn_ok [OF assms(3) moderate_names(2), of "[''kfmclient'', ''newTab'', ?m]" p] obtain p' where
      "exec_or_warn fails ''kfmclient'' [''kfmclient'', ''newTab'', ?m] p =
        Some (if fails ''kfmclient'' = None then Some (''kfmclient'', [''kfmclient'', ''newTab'', ?m]) else None, p')" "pr_env p' = pr_env p"
      by blast
    with konq sb(1) c_text_holds [OF sb(2) m(2)] show ?thesis
      by (auto simp: exec_viewer_def exec_man_konqueror_def konqueror_path_def dying_bind_def shows_page_def split: option.split list.split)
  next
    case other
    let ?t = "[CHR 0x27] @ name @ [CHR 0x27] @ '': unknown man viewer.''"
    have "NUL \<notin> set ?t" "length ?t \<le> 1073741824" using assms(4) by (auto simp: moderate_def NUL_def)
    from pr_warning_ok [OF this] other show ?thesis by (auto simp: exec_viewer_def)
  qed
qed

text \<open>
  C24: help for a command ends in one of two ways: the process becomes a viewer that can be executed and is given the page of the
  command, or it answers -1, and then \<open>man\<close> cannot be executed.  Either way \<open>MANPATH\<close> has the directory of the pages in front of what it
  held, so that the viewer searches there first and its default places behind it.
\<close>

theorem help_shows_page:
  assumes "mem_ok ok" "plenty ok" "errors_ok fails" "\<forall>s \<in> {prefix, man_path, util_name, or_empty cmd, or_empty (pr_env p ''MANPATH''), or_empty (pr_env p viewer)}. moderate s"
  shows "\<exists>r p'. help_show_man_page ok fails prefix man_path cmd util_name viewer p = Some (Inr (r, p')) \<and>
    pr_env p' = (pr_env p)(''MANPATH'' := Some (man_dir prefix man_path @ '':'' @ or_empty (pr_env p ''MANPATH''))) \<and>
    (case r of Inl i \<Rightarrow> fails (fst i) = None \<and> shows_page (page_of cmd util_name) i | Inr rc \<Rightarrow> rc = -1 \<and> fails ''man'' \<noteq> None)"
proof -
  let ?page = "page_of cmd util_name"
  have mod: "moderate prefix" "moderate man_path" "moderate util_name" "moderate (or_empty cmd)"
    "moderate (or_empty (pr_env p ''MANPATH''))" "moderate (or_empty (pr_env p viewer))"
    using assms(4) by simp_all
  note page = cmd_to_page_ok [OF assms(2) mod(3,4)]
  note view = exec_viewer_ok [OF assms(1-3) _ page(2) [OF mod(4)] page(3)]
  define p1 where "p1 = p\<lparr>pr_env := (pr_env p)(''MANPATH'' := Some (man_dir prefix man_path @ '':'' @ or_empty (pr_env p ''MANPATH'')))\<rparr>"
  have first: "\<exists>r p'. (case pr_env p viewer of None \<Rightarrow> Some (Inr (None, p1)) | Some f \<Rightarrow> exec_viewer ok fails f ?page p1) = Some (Inr (r, p')) \<and>
    pr_env p' = pr_env p1 \<and> (\<forall>i. r = Some i \<longrightarrow> fails (fst i) = None \<and> shows_page ?page i)"
    using view [of "or_empty (pr_env p viewer)" p1] mod(6) by (cases "pr_env p viewer") (auto simp: or_empty_def)
  then obtain r2 p2 where r2: "(case pr_env p viewer of None \<Rightarrow> Some (Inr (None, p1)) | Some f \<Rightarrow> exec_viewer ok fails f ?page p1) = Some (Inr (r2, p2))"
    "pr_env p2 = pr_env p1" "\<forall>i. r2 = Some i \<longrightarrow> fails (fst i) = None \<and> shows_page ?page i" by blast
  from view [OF moderate_names(1), of p2] obtain r3 p3 where r3: "exec_viewer ok fails ''man'' ?page p2 = Some (Inr (r3, p3))"
    "pr_env p3 = pr_env p2" "\<forall>i. r3 = Some i \<longrightarrow> fails (fst i) = None \<and> shows_page ?page i" "r3 = None \<longleftrightarrow> fails ''man'' \<noteq> None"
    by (auto simp: strcasecmp_eq_def)
  have p1: "pr_env p1 = (pr_env p)(''MANPATH'' := Some (man_dir prefix man_path @ '':'' @ or_empty (pr_env p ''MANPATH'')))" by (simp add: p1_def)
  show ?thesis
    using r2 r3 p1 page(1) setup_man_path_ok [OF assms(1,2) mod(1,2,5), folded p1_def]
    by (cases r2; cases r3) (simp_all add: help_show_man_page_def dying_bind_def)
qed

text \<open>No viewer is chosen, and \<open>man\<close> is the only program there is.\<close>

theorem help_shows_page_witness:
  "\<exists>p'. help_show_man_page (\<lambda>n. n < 9223372036854775808) (\<lambda>f. if f = ''man'' then None else Some ''not found'') ''/usr'' ''share/man''
       (Some ''list'') ''accel-config'' ''ACCFG_MAN_VIEWER'' \<lparr>pr_env = (\<lambda>v. None), pr_err = []\<rparr>
     = Some (Inr (Inl (''man'', [''man'', ''accel-config-list'']), p')) \<and> pr_env p' ''MANPATH'' = Some ''/usr/share/man:''"
proof -
  let ?ok = "\<lambda>n :: nat. n < 9223372036854775808"
  let ?fails = "\<lambda>f. if f = ''man'' then None else Some ''not found''"
  let ?p = "\<lparr>pr_env = (\<lambda>v. None), pr_err = []\<rparr>"
  have "mem_ok ?ok" "plenty ?ok" "errors_ok ?fails" by (simp_all add: mem_ok_def plenty_def errors_ok_def moderate_def NUL_def)
  moreover have "\<forall>s \<in> {''/usr'', ''share/man'', ''accel-config'', or_empty (Some ''list''), or_empty (pr_env ?p ''MANPATH''), or_empty (pr_env ?p ''ACCFG_MAN_VIEWER'')}. moderate s"
    by (simp add: moderate_def NUL_def or_empty_def)
  ultimately obtain r p' where r: "help_show_man_page ?ok ?fails ''/usr'' ''share/man'' (Some ''list'') ''accel-config'' ''ACCFG_MAN_VIEWER'' ?p = Some (Inr (r, p'))"
    "pr_env p' = (pr_env ?p)(''MANPATH'' := Some (man_dir ''/usr'' ''share/man'' @ '':'' @ or_empty (pr_env ?p ''MANPATH'')))"
    "case r of Inl i \<Rightarrow> ?fails (fst i) = None \<and> shows_page (page_of (Some ''list'') ''accel-config'') i | Inr rc \<Rightarrow> rc = -1 \<and> ?fails ''man'' \<noteq> None"
    using help_shows_page [of ?ok ?fails "''/usr''" "''share/man''" "''accel-config''" "Some ''list''" ?p "''ACCFG_MAN_VIEWER''"] by blast
  have "r = Inl (''man'', [''man'', ''accel-config-list''])"
    using r(3) by (cases r) (auto simp: shows_page_def page_of_def split: if_splits)
  moreover have "pr_env p' ''MANPATH'' = Some ''/usr/share/man:''" using r(2) by (simp add: man_dir_def is_absolute_path_def or_empty_def)
  ultimately show ?thesis using r(1) by blast
qed

end
