(* ===== verification/Usage.thy ===== *)
theory Usage
  imports Report Parse_Options
begin

text \<open>
  The texts of the command-line parser \<open>src/util/parse-options.c\<close>: the usage, the help of an option, the names for
  the completion of the shell, and the parser of commands with subcommands, which prints them.  A text is the value of
  its function; \<open>None\<close> is a read behind the end of the array of usage lines or of a null name.
\<close>

section \<open>Options with their texts\<close>

text \<open>The members of \<open>struct option\<close> that only the texts need, and the flag \<open>PARSE_OPT_HIDDEN\<close>.\<close>

record help_option = option_rec +
  o_argh :: "string option"
  o_help :: string
  o_hidden :: bool

definition spaces :: "nat \<Rightarrow> string" where "spaces n = replicate n (CHR '' '')"

definition USAGE_OPTS_WIDTH :: nat where "USAGE_OPTS_WIDTH = 24"
definition USAGE_GAP :: nat where "USAGE_GAP = 2"

text \<open>The names of an option.\<close>

definition option_names :: "help_option \<Rightarrow> string" where
  "option_names o1 = spaces 4
     @ (case o_short o1 of Some c \<Rightarrow> [CHR ''-'', c] | None \<Rightarrow> spaces 4)
     @ (if o_long o1 \<noteq> None \<and> o_short o1 \<noteq> None then '', '' else [])
     @ (case o_long o1 of Some l \<Rightarrow> ''--'' @ l | None \<Rightarrow> [])"

text \<open>An argument, optional behind a long name, optional behind a short name only, or required.\<close>

definition show_argument :: "help_option \<Rightarrow> string \<Rightarrow> string" where
  "show_argument o1 a =
     (if OPTARG (o_flags o1) then (if o_long o1 \<noteq> None then ''[='' @ a @ '']'' else ''['' @ a @ '']'')
      else '' '' @ a)"

definition option_argument :: "help_option \<Rightarrow> string" where
  "option_argument o1 =
     (let str = show_argument o1 (case o_argh o1 of Some a \<Rightarrow> ''<'' @ a @ ''>'' | None \<Rightarrow> ''...'') in
      case o_type o1 of
        OPTION_LONG \<Rightarrow> show_argument o1 ''<n>'' | OPTION_U64 \<Rightarrow> show_argument o1 ''<n>''
      | OPTION_INTEGER \<Rightarrow> show_argument o1 ''<n>'' | OPTION_UINTEGER \<Rightarrow> show_argument o1 ''<n>''
      | OPTION_CALLBACK \<Rightarrow> (if NOARG (o_flags o1) then [] else str)
      | OPTION_FILENAME \<Rightarrow> str | OPTION_STRING \<Rightarrow> str
      | _ \<Rightarrow> [])"

definition print_option_help :: "help_option \<Rightarrow> bool \<Rightarrow> string" where
  "print_option_help o1 full =
     (if o_type o1 = OPTION_GROUP then [NL] @ (if o_help o1 \<noteq> [] then o_help o1 @ [NL] else [])
      else if \<not> full \<and> o_hidden o1 then []
      else
        let left = option_names o1 @ option_argument o1; pos = length left in
        left @ (if pos \<le> USAGE_OPTS_WIDTH then spaces (USAGE_OPTS_WIDTH - pos + USAGE_GAP)
                else [NL] @ spaces (USAGE_OPTS_WIDTH + USAGE_GAP))
          @ o_help o1 @ [NL])"


text \<open>The macros of \<open>parse-options.h\<close> that the parser's theory does not need, and the options that many commands have.\<close>

definition OPT_ARGUMENT :: "string \<Rightarrow> option_rec" where
  "OPT_ARGUMENT l = (OPT OPTION_ARGUMENT NUL l [])\<lparr>o_short := None\<rparr>"

definition OPT_GROUP :: option_rec where
  "OPT_GROUP = (OPT OPTION_GROUP NUL [] [])\<lparr>o_short := None, o_long := None\<rparr>"

definition OPT_BIT :: "char \<Rightarrow> string \<Rightarrow> string \<Rightarrow> int \<Rightarrow> option_rec" where
  "OPT_BIT s l v b = (OPT OPTION_BIT s l v)\<lparr>o_defval := VInt b\<rparr>"

definition OPT_BOOLEAN_SET :: "char \<Rightarrow> string \<Rightarrow> string \<Rightarrow> string \<Rightarrow> option_rec" where
  "OPT_BOOLEAN_SET s l v os = (OPT OPTION_BOOLEAN s l v)\<lparr>o_set := Some os\<rparr>"

definition OPT_INCR :: "char \<Rightarrow> string \<Rightarrow> string \<Rightarrow> option_rec" where "OPT_INCR = OPT OPTION_INCR"
definition OPT_LONG :: "char \<Rightarrow> string \<Rightarrow> string \<Rightarrow> option_rec" where "OPT_LONG = OPT OPTION_LONG"

definition OPT_SET_UINT :: "char \<Rightarrow> string \<Rightarrow> string \<Rightarrow> int \<Rightarrow> option_rec" where
  "OPT_SET_UINT s l v i = (OPT OPTION_SET_UINT s l v)\<lparr>o_defval := VInt i\<rparr>"

definition OPT_SET_PTR :: "char \<Rightarrow> string \<Rightarrow> string \<Rightarrow> string option \<Rightarrow> option_rec" where
  "OPT_SET_PTR s l v p = (OPT OPTION_SET_PTR s l v)\<lparr>o_defval := VStr p\<rparr>"

definition OPT_CALLBACK :: "char \<Rightarrow> string \<Rightarrow> string \<Rightarrow> (vars \<Rightarrow> string option \<Rightarrow> bool \<Rightarrow> int \<times> vars) \<Rightarrow> option_rec" where
  "OPT_CALLBACK s l v f = (OPT OPTION_CALLBACK s l v)\<lparr>o_callback := f\<rparr>"

definition OPT_CALLBACK_NOOPT :: "char \<Rightarrow> string \<Rightarrow> string \<Rightarrow> (vars \<Rightarrow> string option \<Rightarrow> bool \<Rightarrow> int \<times> vars) \<Rightarrow> option_rec" where
  "OPT_CALLBACK_NOOPT s l v f = (OPT_CALLBACK s l v f)\<lparr>o_flags := no_flags\<lparr>NOARG := True\<rparr>\<rparr>"

definition OPT_CALLBACK_DEFAULT ::
  "char \<Rightarrow> string \<Rightarrow> string \<Rightarrow> (vars \<Rightarrow> string option \<Rightarrow> bool \<Rightarrow> int \<times> vars) \<Rightarrow> val \<Rightarrow> option_rec" where
  "OPT_CALLBACK_DEFAULT s l v f d = (OPT_CALLBACK s l v f)\<lparr>o_defval := d, o_flags := no_flags\<lparr>LASTARG_DEFAULT := True\<rparr>\<rparr>"

definition OPT_CALLBACK_DEFAULT_NOOPT ::
  "char \<Rightarrow> string \<Rightarrow> string \<Rightarrow> (vars \<Rightarrow> string option \<Rightarrow> bool \<Rightarrow> int \<times> vars) \<Rightarrow> val \<Rightarrow> option_rec" where
  "OPT_CALLBACK_DEFAULT_NOOPT s l v f d =
     (OPT_CALLBACK s l v f)\<lparr>o_defval := d, o_flags := no_flags\<lparr>LASTARG_DEFAULT := True, NOARG := True\<rparr>\<rparr>"

definition OPT__VERBOSE :: "string \<Rightarrow> option_rec" where "OPT__VERBOSE var = OPT_BOOLEAN (CHR ''v'') ''verbose'' var"
definition OPT__QUIET :: "string \<Rightarrow> option_rec" where "OPT__QUIET var = OPT_BOOLEAN (CHR ''q'') ''quiet'' var"
definition OPT__DRY_RUN :: "string \<Rightarrow> option_rec" where "OPT__DRY_RUN var = OPT_BOOLEAN (CHR ''n'') ''dry-run'' var"


section \<open>The usage\<close>

text \<open>
  The first line, the alternatives up to an empty line, and the lines behind them.  An array that starts with its
  null pointer is read behind its end.
\<close>

definition usage_lines :: "string list \<Rightarrow> string option" where
  "usage_lines usagestr = (case usagestr of
       [] \<Rightarrow> None
     | u # us \<Rightarrow> Some ([NL] @ '' usage: '' @ u @ [NL]
         @ concat (map (\<lambda>l. ''    or: '' @ l @ [NL]) (takeWhile (\<lambda>l. l \<noteq> []) us))
         @ concat (map (\<lambda>l. (if l \<noteq> [] then spaces 4 else []) @ l @ [NL]) (dropWhile (\<lambda>l. l \<noteq> []) us))))"

definition help_opts_of :: "help_option list \<Rightarrow> help_option list" where
  "help_opts_of opts = takeWhile (\<lambda>x. o_type x \<noteq> OPTION_END) opts"

text \<open>Without an array of lines nothing is printed; the end of the options is the end of the list or an \<open>OPTION_END\<close>.\<close>

definition usage_with_options_internal :: "string list option \<Rightarrow> help_option list \<Rightarrow> bool \<Rightarrow> (parse_result \<times> string) option" where
  "usage_with_options_internal usagestr opts full = (case usagestr of
       None \<Rightarrow> Some (PARSE_OPT_HELP, [])
     | Some us \<Rightarrow> do {
         head \<leftarrow> usage_lines us;
         Some (PARSE_OPT_HELP, head
           @ (case opts of x # _ \<Rightarrow> if o_type x \<noteq> OPTION_GROUP then [NL] else [] | [] \<Rightarrow> [NL])
           @ concat (map (\<lambda>x. print_option_help x full) (help_opts_of opts))
           @ [NL])
       })"

definition usage_with_options :: "string list option \<Rightarrow> help_option list \<Rightarrow> (int \<times> string) option" where
  "usage_with_options usagestr opts = map_option (\<lambda>(_, text). (129, text)) (usage_with_options_internal usagestr opts False)"

text \<open>The usage behind an error in an option, with the help of the option it finds.\<close>

definition usage_option :: "help_option list \<Rightarrow> string \<Rightarrow> bool \<Rightarrow> help_option option" where
  "usage_option opts optstr short_opt = List.find
     (\<lambda>x. if short_opt then o_short x = (case optstr of c # _ \<Rightarrow> Some c | [] \<Rightarrow> None)
          else case o_long x of
            None \<Rightarrow> False
          | Some l \<Rightarrow> prefixcmp optstr l = 0 \<or> (prefixcmp optstr ''no-'' = 0 \<and> prefixcmp (drop 3 optstr) l = 0))
     (help_opts_of opts)"

definition parse_options_usage :: "string list option \<Rightarrow> help_option list \<Rightarrow> string \<Rightarrow> bool \<Rightarrow> (parse_result \<times> string) option" where
  "parse_options_usage usagestr opts optstr short_opt = do {
     head \<leftarrow> (case usagestr of None \<Rightarrow> Some [] | Some us \<Rightarrow> map_option (\<lambda>t. t @ [NL]) (usage_lines us));
     Some (PARSE_OPT_HELP, head @ (case usage_option opts optstr short_opt of None \<Rightarrow> [] | Some x \<Rightarrow> print_option_help x False))
   }"


section \<open>Verbosity\<close>

text \<open>A counter of the program that is raised by \<open>-v\<close> and lowered by \<open>-q\<close>.\<close>

definition parse_opt_verbosity_cb :: "string \<Rightarrow> char option \<Rightarrow> vars \<Rightarrow> string option \<Rightarrow> bool \<Rightarrow> int \<times> vars" where
  "parse_opt_verbosity_cb target short_name vs arg unset =
     (let t = the_int (vs target) in
      (0, vs(target := VInt
        (if unset then 0
         else if short_name = Some (CHR ''v'') then (if t \<ge> 0 then s32 (t + 1) else 1)
         else (if t \<le> 0 then s32 (t - 1) else -1)))))"

definition OPT__VERBOSITY :: "string \<Rightarrow> option_rec list" where
  "OPT__VERBOSITY var =
     (let opt = (\<lambda>c l. (OPT OPTION_CALLBACK c l var)\<lparr>o_flags := no_flags\<lparr>NOARG := True\<rparr>,
                   o_callback := parse_opt_verbosity_cb var (Some c)\<rparr>)
      in [opt (CHR ''v'') ''verbose'', opt (CHR ''q'') ''quiet''])"


text \<open>Each \<open>v\<close> of a cluster raises the verbosity by one.\<close>

lemma verbosity_step:
  assumes "p_opt p = Some (CHR ''v'' # cs)" "0 \<le> the_int (vs var)" "the_int (vs var) < INT_MAX"
  shows "parse_short_opt p (OPT__VERBOSITY var) vs =
    Inr (0, p\<lparr>p_opt := if cs \<noteq> [] then Some cs else None\<rparr>, vs(var := VInt (the_int (vs var) + 1)))"
proof -
  have "s32 (the_int (vs var) + 1) = the_int (vs var) + 1" using assms(2,3) by (intro s32_id) (simp_all add: c_limits)
  with assms show ?thesis
    by (simp add: parse_short_opt_def OPT__VERBOSITY_def OPT_def opts_of_def no_flags_def get_value_def get_callback_def
        parse_opt_verbosity_cb_def Let_def)
qed

lemma verbosity_cluster:
  assumes "p_opt p = (if n = 0 then None else Some (replicate n (CHR ''v'')))" "0 \<le> the_int (vs var)"
    "the_int (vs var) + int n \<le> INT_MAX" "n \<le> k"
  shows "\<exists>w. short_cluster k (OPT__VERBOSITY var) p vs = Some (Inr (None, p\<lparr>p_opt := None\<rparr>, w)) \<and>
    the_int (w var) = the_int (vs var) + int n \<and> (\<forall>x. x \<noteq> var \<longrightarrow> w x = vs x)"
  using assms
proof (induction n arbitrary: p vs k)
  case 0
  then show ?case by (auto simp: short_cluster.simps)
next
  case (Suc n)
  obtain j where k: "k = Suc j" "n \<le> j" using Suc.prems(4) by (cases k) auto
  let ?vs = "vs(var := VInt (the_int (vs var) + 1))"
  let ?p = "p\<lparr>p_opt := if replicate n (CHR ''v'') \<noteq> [] then Some (replicate n (CHR ''v'')) else None\<rparr>"
  have step: "parse_short_opt p (OPT__VERBOSITY var) vs = Inr (0, ?p, ?vs)"
    by (rule verbosity_step) (use Suc.prems in simp_all)
  have var: "the_int (?vs var) = the_int (vs var) + 1" by (simp add: the_int_def)
  have opt: "p_opt ?p = (if n = 0 then None else Some (replicate n (CHR ''v'')))" by simp
  have bounds: "0 \<le> the_int (?vs var)" "the_int (?vs var) + int n \<le> INT_MAX" unfolding var using Suc.prems(2,3) by simp_all
  from Suc.IH [of ?p ?vs j, OF opt bounds k(2)] obtain w
    where w: "short_cluster j (OPT__VERBOSITY var) ?p ?vs = Some (Inr (None, ?p\<lparr>p_opt := None\<rparr>, w))"
      "the_int (w var) = the_int (?vs var) + int n" "\<forall>x. x \<noteq> var \<longrightarrow> w x = ?vs x" by blast
  have "short_cluster k (OPT__VERBOSITY var) p vs = short_cluster j (OPT__VERBOSITY var) ?p ?vs"
    using Suc.prems(1) step by (simp add: k short_cluster.simps [of "Suc j"])
  with w var show ?case by auto
qed


section \<open>Commands with subcommands\<close>

text \<open>The line built from the names of the subcommands; its copy is null when memory is refused.\<close>

fun add_subcommands :: "(nat \<Rightarrow> bool) \<Rightarrow> bool \<Rightarrow> string list \<Rightarrow> strbuf \<Rightarrow> strbuf dying" where
  "add_subcommands ok first [] sb = Some (Inr sb)"
| "add_subcommands ok first (s # ss) sb =
     dying_bind (if first then Some (Inr sb) else strbuf_addstr ok ''|'' sb) (\<lambda>sb.
     dying_bind (strbuf_addstr ok s sb) (add_subcommands ok False ss))"

definition subcommand_usage :: "(nat \<Rightarrow> bool) \<Rightarrow> string \<Rightarrow> string list \<Rightarrow> string dying" where
  "subcommand_usage ok cmd subcommands =
     dying_bind (strbuf_addf ok (''accel-config '' @ cmd @ '' [<options>] {'') STRBUF_INIT) (\<lambda>buf.
     dying_bind (add_subcommands ok True subcommands buf) (\<lambda>buf.
     dying_bind (strbuf_addstr ok ''}'' buf) (\<lambda>buf. map_option Inr (c_text (sb_buf buf)))))"

text \<open>
  How a parse ends: with the arguments left and the variables, or with a status and what was printed on the
  standard output and, by this function itself, on the standard error.
\<close>

datatype parse_end = Parse_Done "string list" vars | Parse_Exit int string string

definition unknown_text :: "parse_opt_ctx \<Rightarrow> string option" where
  "unknown_text p = (let arg = hd (p_argv p) in
     if take 1 (tl arg) = ''-'' then Some (''unknown option `'' @ drop 2 arg @ [CHR 0x27])
     else case p_opt p of Some (c # _) \<Rightarrow> Some (''unknown switch `'' @ [c] @ [CHR 0x27]) | _ \<Rightarrow> None)"

definition parse_options_subcommand_prefix ::
  "(nat \<Rightarrow> bool) \<Rightarrow> string list \<Rightarrow> string option \<Rightarrow> help_option list \<Rightarrow> string list option \<Rightarrow> string list \<Rightarrow> vars \<Rightarrow>
     parse_end dying" where
  "parse_options_subcommand_prefix ok argv prefix options subcommands usagestr vs =
     dying_bind (case subcommands of
         Some subs \<Rightarrow> (if usagestr = [] then dying_bind (subcommand_usage ok (hd argv) subs) (\<lambda>u. Some (Inr (if ok (length u + 1) then [u] else []))) else Some (Inr usagestr))
       | None \<Rightarrow> Some (Inr usagestr)) (\<lambda>usagestr.
     case parse_options_step (map option_rec.truncate options) (parse_options_start argv prefix) vs of
       None \<Rightarrow> None
     | Some (Inl e) \<Rightarrow> Some (Inl e)
     | Some (Inr (res, p, vs)) \<Rightarrow> (case res of
         PARSE_OPT_HELP \<Rightarrow> Some (Inr (Parse_Exit 0 [] []))
       | PARSE_OPT_DONE \<Rightarrow> Some (Inr (Parse_Done (parse_options_end p) vs))
       | PARSE_OPT_LIST_OPTS \<Rightarrow> (case those (map o_long (help_opts_of options)) of
           None \<Rightarrow> None
         | Some names \<Rightarrow> Some (Inr (Parse_Exit 0 (concat (map (\<lambda>l. ''--'' @ l @ '' '') names)) [])))
       | PARSE_OPT_LIST_SUBCMDS \<Rightarrow>
           Some (Inr (Parse_Exit 0 (case subcommands of None \<Rightarrow> [] | Some subs \<Rightarrow> concat (map (\<lambda>s. s @ '' '') subs)) []))
       | PARSE_OPT_UNKNOWN \<Rightarrow> do {
           text \<leftarrow> unknown_text p;
           (_, err) \<leftarrow> error_msg builtin_routines text;
           (status, out) \<leftarrow> usage_with_options (Some usagestr) options;
           Some (Inr (Parse_Exit status [] (err @ out)))
         }))"

definition parse_options_subcommand ::
  "(nat \<Rightarrow> bool) \<Rightarrow> string list \<Rightarrow> help_option list \<Rightarrow> string list option \<Rightarrow> string list \<Rightarrow> vars \<Rightarrow> parse_end dying" where
  "parse_options_subcommand ok argv options subcommands usagestr vs =
     parse_options_subcommand_prefix ok argv None options subcommands usagestr vs"


section \<open>The help of an option\<close>

definition last_line :: "string \<Rightarrow> string" where
  "last_line s = rev (takeWhile (\<lambda>c. c \<noteq> NL) (rev s))"

lemma takeWhile_rev_spaces: "NL \<notin> set s \<Longrightarrow> takeWhile (\<lambda>c. c \<noteq> NL) (rev s @ NL # t) = rev s"
  by (subst takeWhile_append2) auto

lemma last_line_simps: "NL \<notin> set s \<Longrightarrow> last_line s = s" "NL \<notin> set s \<Longrightarrow> last_line (t @ NL # s) = s"
proof -
  assume s: "NL \<notin> set s"
  have "takeWhile (\<lambda>c. c \<noteq> NL) (rev s) = rev s" using s by (subst takeWhile_eq_all_conv) auto
  then show "last_line s = s" unfolding last_line_def by (simp only: rev_rev_ident)
  show "last_line (t @ NL # s) = s" using takeWhile_rev_spaces [OF s] by (simp add: last_line_def)
qed

lemma NL_not_in_spaces [simp]: "NL \<notin> set (spaces n)"
  by (simp add: spaces_def NL_def)

lemma length_spaces [simp]: "length (spaces n) = n"
  by (simp add: spaces_def)

text \<open>The help of every option that is shown starts in the same column, on the line of its names or on the next.\<close>

lemma print_option_help_column:
  assumes "o_type x \<noteq> OPTION_GROUP" "full \<or> \<not> o_hidden x" "NL \<notin> set (option_names x @ option_argument x)"
  shows "\<exists>pre. print_option_help x full = pre @ o_help x @ [NL] \<and> length (last_line pre) = USAGE_OPTS_WIDTH + USAGE_GAP"
proof -
  let ?left = "option_names x @ option_argument x"
  let ?pre = "if length ?left \<le> USAGE_OPTS_WIDTH then ?left @ spaces (USAGE_OPTS_WIDTH - length ?left + USAGE_GAP)
      else ?left @ NL # spaces (USAGE_OPTS_WIDTH + USAGE_GAP)"
  have "print_option_help x full = ?pre @ o_help x @ [NL]"
    using assms(1,2) by (auto simp: print_option_help_def Let_def)
  moreover have "last_line ?pre = (if length ?left \<le> USAGE_OPTS_WIDTH then ?pre else spaces (USAGE_OPTS_WIDTH + USAGE_GAP))"
    using assms(3) last_line_simps(1) [of ?pre] last_line_simps(2) [OF NL_not_in_spaces, of ?left] by auto
  ultimately show ?thesis by (intro exI [of _ ?pre]) auto
qed


section \<open>The line of the subcommands\<close>

fun joined :: "string list \<Rightarrow> string" where
  "joined [] = []"
| "joined [s] = s"
| "joined (s # ss) = s @ ''|'' @ joined ss"

definition bars :: "bool \<Rightarrow> string list \<Rightarrow> string" where
  "bars first ss = (if first \<or> ss = [] then joined ss else ''|'' @ joined ss)"

lemma bars_Cons: "bars first (s # ss) = (if first then [] else ''|'') @ s @ bars False ss"
  by (cases ss) (simp_all add: bars_def)

lemma add_subcommands_roomy:
  assumes "roomy n sb cs" "mem_ok ok" "plenty ok" "length cs + length (bars first ss) + 1 \<le> n" "n \<le> 1152921504606846976"
  shows "\<exists>sb'. add_subcommands ok first ss sb = Some (Inr sb') \<and> roomy n sb' (cs @ bars first ss)"
  using assms(1,4)
proof (induction ss arbitrary: sb cs first)
  case Nil
  then show ?case by (simp add: bars_def)
next
  case (Cons s ss)
  have len: "length cs + length (if first then [] else ''|'') + length s + length (bars False ss) + 1 \<le> n"
    using Cons.prems(2) by (simp add: bars_Cons del: length_0_conv)
  have "\<exists>sb1. (if first then Some (Inr sb) else strbuf_addstr ok ''|'' sb) = Some (Inr sb1) \<and> roomy n sb1 (cs @ (if first then [] else ''|''))"
    using strbuf_addstr_roomy [OF Cons.prems(1) assms(2,3), of "''|''"] len Cons.prems(1) assms(5) by (cases first) auto
  then obtain sb1 where sb1: "(if first then Some (Inr sb) else strbuf_addstr ok ''|'' sb) = Some (Inr sb1)" "roomy n sb1 (cs @ (if first then [] else ''|''))"
    by blast
  from strbuf_addstr_roomy [OF sb1(2) assms(2,3) _ assms(5), of s] len obtain sb2
    where sb2: "strbuf_addstr ok s sb1 = Some (Inr sb2)" "roomy n sb2 ((cs @ (if first then [] else ''|'')) @ s)" by auto
  from Cons.IH [OF sb2(2), of False] len obtain sb'
    where "add_subcommands ok False ss sb2 = Some (Inr sb')" "roomy n sb' (((cs @ (if first then [] else ''|'')) @ s) @ bars False ss)" by auto
  with sb1(1) sb2(1) show ?case by (simp add: dying_bind_def bars_Cons)
qed

text \<open>The line has the names of the subcommands in their order, with a bar between two.\<close>

lemma subcommand_usage_ok:
  assumes "mem_ok ok" "plenty ok" "NUL \<notin> set cmd" "\<forall>s \<in> set subs. NUL \<notin> set s" "length cmd + length (joined subs) \<le> 1000000000"
  shows "subcommand_usage ok cmd subs = Some (Inr (''accel-config '' @ cmd @ '' [<options>] {'' @ joined subs @ ''}''))"
proof -
  let ?n = "1073741900 :: nat"
  let ?h = "''accel-config '' @ cmd @ '' [<options>] {''"
  have "length ?h + 66 \<le> ?n" using assms(5) by simp
  from strbuf_addf_init [OF assms(1,2) this] obtain s1
    where s1: "strbuf_addf ok ?h STRBUF_INIT = Some (Inr s1)" "roomy ?n s1 ?h" by auto
  from add_subcommands_roomy [OF s1(2) assms(1,2), of True subs] assms(5) obtain s2
    where s2: "add_subcommands ok True subs s1 = Some (Inr s2)" "roomy ?n s2 (?h @ joined subs)" by (auto simp: bars_def)
  from strbuf_addstr_roomy [OF s2(2) assms(1,2), of "''}''"] assms(5) obtain s3
    where s3: "strbuf_addstr ok ''}'' s2 = Some (Inr s3)" "sb_holds s3 ((?h @ joined subs) @ ''}'')" by (auto simp: roomy_def)
  have "NUL \<notin> set (joined subs)" using assms(4) by (induction subs rule: joined.induct) (auto simp: NUL_def)
  then have "NUL \<notin> set ((?h @ joined subs) @ ''}'')" using assms(3) by (auto simp: NUL_def)
  from c_text_holds [OF s3(2) this] s1(1) s2(1) s3(1) show ?thesis by (simp add: subcommand_usage_def dying_bind_def)
qed


section \<open>An unknown option can be named\<close>

text \<open>
  An option takes at most the next argument, and only a search without a find answers -2: the arguments that are
  left when the parser stops at an unknown option are the ones it was given, with the rest of a cluster in the
  place of the first.
\<close>

definition opt_ok :: "parse_opt_ctx \<Rightarrow> bool" where
  "opt_ok p \<longleftrightarrow> (\<forall>cs. p_opt p = Some cs \<longrightarrow> cs \<noteq> [] \<and> moderate cs)"

definition unknown_ok :: "parse_opt_ctx \<Rightarrow> bool" where
  "unknown_ok p \<longleftrightarrow> p_argv p \<noteq> [] \<and> (\<exists>t. unknown_text p = Some t \<and> NUL \<notin> set t \<and> length t \<le> 200000000)"

lemma moderate_drop: "moderate s \<Longrightarrow> moderate (drop n s)" and moderate_tl: "moderate s \<Longrightarrow> moderate (tl s)"
  by (auto simp: moderate_def dest: in_set_dropD list.set_sel(2) [rotated]) (cases s; auto)

lemma get_arg_argv: "set (p_argv (snd (get_arg p opt))) \<subseteq> set (p_argv p)"
  by (cases "p_argv p") (auto simp: get_arg_def)

lemma get_value_argv:
  assumes "get_value p opt flags vs = Inr (rc, p', vs')"
  shows "set (p_argv p') \<subseteq> set (p_argv p) \<and> rc \<noteq> -2"
proof -
  have cases: "(p' = p \<or> p' = snd (get_arg p opt)) \<and> rc \<noteq> -2"
    using assms unfolding get_value_def get_number_def get_string_def get_filename_def get_callback_def opterror_def Let_def
    by (cases "o_type opt"; cases "get_arg p opt") (auto split: if_splits option.splits prod.splits)
  then show ?thesis using get_arg_argv [of p opt] by auto
qed

lemma parse_short_opt_argv:
  assumes "parse_short_opt p options vs = Inr (rc, p', vs')"
  shows "set (p_argv p') \<subseteq> set (p_argv p)" "rc = -2 \<Longrightarrow> p' = p"
  using assms by (auto simp: parse_short_opt_def split: option.splits list.splits dest!: get_value_argv)

lemma parse_short_opt_opt:
  assumes "parse_short_opt p options vs = Inr (rc, p', vs')" "opt_ok p"
  shows "opt_ok p'"
proof (cases "p_opt p")
  case (Some cs)
  then obtain c ds where cs: "cs = c # ds" "moderate ds" using assms(2) by (cases cs) (auto simp: opt_ok_def moderate_def)
  show ?thesis
    using assms(1,2) Some cs by (auto simp: parse_short_opt_def consumes_def opt_ok_def split: option.splits if_splits dest!: get_value_consumes)
qed (use assms in \<open>simp add: parse_short_opt_def\<close>)

lemma parse_long_loop_argv:
  "parse_long_loop p arg xs abbrev amb vs = Inr (rc, p', vs') \<Longrightarrow>
    set (p_argv p') \<subseteq> set (p_argv p) \<and> (rc = -2 \<longrightarrow> p_argv p' = p_argv p)"
proof (induction xs arbitrary: p abbrev amb)
  case Nil
  then show ?case by (auto split: if_splits option.splits prod.splits dest!: get_value_argv)
next
  case (Cons x xs)
  then show ?case
    by (auto split: if_splits option.splits long_match.splits dest!: get_value_argv Cons.IH simp: Let_def opterror_def)
qed

definition turn_args :: "parse_opt_ctx \<Rightarrow> int + parse_result option \<times> parse_opt_ctx \<times> vars \<Rightarrow> bool" where
  "turn_args p r \<longleftrightarrow> (\<forall>res p' vs'. r = Inr (res, p', vs') \<longrightarrow>
     set (tl (p_argv p')) \<subseteq> set (p_argv p) \<and> (res = Some PARSE_OPT_UNKNOWN \<longrightarrow> unknown_ok p'))"

lemma turn_args_trans: "set (p_argv p') \<subseteq> set (p_argv p) \<Longrightarrow> turn_args p' r \<Longrightarrow> turn_args p r"
  by (fastforce simp: turn_args_def)

lemma in_set_tl [dest]: "x \<in> set (tl xs) \<Longrightarrow> x \<in> set xs"
  by (cases xs) auto

lemma unknown_opt_ok:
  assumes "p_opt p = Some opt" "opt_ok p" "p_argv p = arg # args" "moderate arg"
  shows "unknown_ok p"
proof -
  obtain c cs where opt: "opt = c # cs" "c \<noteq> NUL" using assms(1,2) by (cases opt) (auto simp: opt_ok_def moderate_def)
  have "NUL \<notin> set (drop 2 arg)" "length (drop 2 arg) \<le> 100000000" using moderate_drop [OF assms(4), of 2] by (simp_all add: moderate_def)
  then show ?thesis using assms(1,3) opt by (simp add: unknown_ok_def unknown_text_def Let_def) (simp add: NUL_def)
qed

lemma short_cluster_args:
  assumes "short_cluster n options p vs = Some r" "opt_ok p" "\<forall>a \<in> set (p_argv p). moderate a"
  shows "turn_args p r"
  using assms
proof (induction n arbitrary: p vs)
  case 0
  then show ?case by (cases "p_opt p") (auto simp: short_cluster.simps turn_args_def)
next
  case (Suc n)
  show ?case
  proof (cases "p_opt p")
    case None
    with Suc.prems(1) show ?thesis by (auto simp: short_cluster.simps turn_args_def)
  next
    case (Some opt)
    have dash: "moderate opt \<Longrightarrow> NUL \<notin> set (''-'' @ opt) \<and> length (''-'' @ opt) \<le> 100000001" by (auto simp: moderate_def NUL_def)
    show ?thesis
    proof (cases "parse_short_opt p options vs")
      case (Inl e)
      with Suc.prems(1) Some show ?thesis by (auto simp: short_cluster.simps [of "Suc n"] turn_args_def split: if_splits)
    next
      case (Inr q)
      obtain rc p' vs' where q: "parse_short_opt p options vs = Inr (rc, p', vs')" using Inr by (cases q) auto
      note sub = parse_short_opt_argv [OF q]
      note next_ok = parse_short_opt_opt [OF q Suc.prems(2)]
      show ?thesis
      proof (cases "rc = -2")
        case True
        then have p': "p' = p" by (rule sub(2))
        have opt: "opt \<noteq> []" "moderate opt" using Suc.prems(2) Some by (auto simp: opt_ok_def)
        then obtain c cs where c: "opt = c # cs" "c \<noteq> NUL" by (cases opt) (auto simp: moderate_def)
        have "unknown_ok (p\<lparr>p_argv := (''-'' @ opt) # tl (p_argv p)\<rparr>)"
          using Some c opt(2) by (auto simp: unknown_ok_def unknown_text_def Let_def moderate_def NUL_def)
        with Suc.prems(1) Some q True p' show ?thesis
          by (auto simp: short_cluster.simps [of "Suc n"] turn_args_def split: if_splits)
      next
        case False
        have rest: "turn_args p r" if "short_cluster n options p' vs' = Some r"
          by (rule turn_args_trans [OF sub(1)]) (rule Suc.IH [OF that next_ok], use sub(1) Suc.prems(3) in blast)
        have stop: "turn_args p (Inr (Some PARSE_OPT_HELP, q, us))" if "set (p_argv q) \<subseteq> set (p_argv p)" for q us
          using that by (auto simp: turn_args_def)
        show ?thesis
          using Suc.prems(1) Some q False rest stop [OF order_refl] stop [OF sub(1)]
          by (auto simp: short_cluster.simps [of "Suc n"] split: if_splits)
      qed
    qed
  qed
qed

lemma short_argument_args:
  assumes "short_argument options arg p vs = Some r" "p_argv p = arg # args" "\<forall>a \<in> set (p_argv p). moderate a" "tl arg \<noteq> []"
  shows "turn_args p r"
proof -
  let ?p = "p\<lparr>p_opt := Some (tl arg)\<rparr>"
  have ok: "opt_ok ?p" using assms(2-4) moderate_tl by (simp add: opt_ok_def)
  show ?thesis
  proof (cases "parse_short_opt ?p options vs")
    case (Inr q)
    obtain rc p' vs' where q: "parse_short_opt ?p options vs = Inr (rc, p', vs')" using Inr by (cases q) auto
    note sub = parse_short_opt_argv [OF q]
    have "turn_args p (Inr (Some PARSE_OPT_UNKNOWN, ?p, us))" for us
      using unknown_opt_ok [of ?p "tl arg" arg args] ok assms(2,3) by (auto simp: turn_args_def)
    moreover have "turn_args p r" if "short_cluster (length arg) options p' vs' = Some r"
      using turn_args_trans [of p' p r] short_cluster_args [OF that parse_short_opt_opt [OF q ok]] sub(1) assms(3) by auto
    ultimately show ?thesis
      using assms(1) q sub by (auto simp: short_argument_def Let_def turn_args_def split: if_splits)
  qed (use assms(1) in \<open>auto simp: short_argument_def Let_def turn_args_def split: if_splits\<close>)
qed

lemma turn_args_known: "set (p_argv q) \<subseteq> set (p_argv p) \<Longrightarrow> res \<noteq> Some PARSE_OPT_UNKNOWN \<Longrightarrow> turn_args p (Inr (res, q, vs))"
  by (auto simp: turn_args_def)

lemma long_argument_args:
  assumes "p_argv p = (''--'' @ name) # args" "moderate name"
  shows "turn_args p (long_argument options name p vs)"
proof -
  have unknown: "turn_args p (Inr (Some PARSE_OPT_UNKNOWN, q, us))" if "p_argv q = p_argv p" for q us
    using that assms by (simp add: turn_args_def unknown_ok_def unknown_text_def subset_insertI) (auto simp: moderate_def NUL_def)
  show ?thesis
  proof (cases "parse_long_opt p name options vs")
    case (Inr r)
    obtain rc q us where r: "parse_long_opt p name options vs = Inr (rc, q, us)" using Inr by (cases r) auto
    have sub: "set (p_argv q) \<subseteq> set (p_argv p)" "rc = -2 \<Longrightarrow> p_argv q = p_argv p"
      using parse_long_loop_argv [OF r [unfolded parse_long_opt_def]] by auto
    show ?thesis
      using r unknown [OF sub(2)] turn_args_known [OF sub(1)] turn_args_known [OF order_refl]
      by (simp add: long_argument_def Let_def)
  qed (use turn_args_known [OF order_refl] in \<open>simp add: long_argument_def Let_def, simp add: turn_args_def\<close>)
qed

lemma parse_options_loop_unknown:
  assumes "parse_options_loop n options p vs = Some (Inr (PARSE_OPT_UNKNOWN, p', vs'))" "\<forall>a \<in> set (p_argv p). moderate a"
  shows "unknown_ok p'"
  using assms
proof (induction n arbitrary: p vs)
  case 0
  then show ?case by (cases "p_argv p") (auto simp: parse_options_loop.simps)
next
  case (Suc n)
  show ?case
  proof (cases "p_argv p")
    case (Cons arg args)
    have next_turn: "unknown_ok p'" if "parse_options_loop n options q us = Some (Inr (PARSE_OPT_UNKNOWN, p', vs'))" "set (p_argv q) \<subseteq> set (p_argv p)" for q us
      by (rule Suc.IH [OF that(1)]) (use that(2) Suc.prems(2) in blast)
    have after: "unknown_ok p'" if ok: "turn_args p r" and run: "(case r of
                   Inl e \<Rightarrow> Some (Inl e)
                 | Inr (None, p, vs) \<Rightarrow> parse_options_loop n options (p\<lparr>p_argv := tl (p_argv p)\<rparr>) vs
                 | Inr (Some PARSE_OPT_UNKNOWN, p, vs) \<Rightarrow>
                     if \<not> p_keep_unknown p then Some (Inr (PARSE_OPT_UNKNOWN, p, vs))
                     else parse_options_loop n options ((\<lambda>p. p\<lparr>p_argv := tl (p_argv p)\<rparr>) ((\<lambda>p. p\<lparr>p_out := p_out p @ [hd (p_argv p)]\<rparr>) (p\<lparr>p_opt := None\<rparr>))) vs
                 | Inr (Some res, p, vs) \<Rightarrow> Some (Inr (res, p, vs))) = Some (Inr (PARSE_OPT_UNKNOWN, p', vs'))" for r
    proof (cases r)
      case (Inr q)
      obtain res q1 us where q: "q = (res, q1, us)" by (cases q)
      with ok run Inr show ?thesis
        by (auto simp: turn_args_def split: option.splits parse_result.splits if_splits elim!: next_turn)
    qed (use run in simp)
    have arg: "moderate arg" using Suc.prems(2) Cons by simp
    have dashes: "''--'' @ drop 2 arg = arg" if "take 1 arg = ''-''" "arg ! 1 = CHR ''-''" "\<not> length arg < 2"
      using that by (cases arg; cases "tl arg") (auto simp: numeral_2_eq_2)
    have more: "tl arg \<noteq> []" if "\<not> length arg < 2" using that by (cases arg; cases "tl arg") auto
    have tls: "set (tl (p_argv p)) \<subseteq> set (p_argv p)" by auto
    show ?thesis
    proof (cases "take 1 arg \<noteq> ''-'' \<or> length arg < 2")
      case True
      with Suc.prems(1) Cons tls show ?thesis
        by (auto simp: parse_options_loop.simps [of "Suc n"] Let_def split: if_splits elim!: next_turn)
    next
      case False
      show ?thesis
      proof (cases "arg ! 1 = CHR ''-''")
        case short: False
        with Suc.prems(1) Cons False obtain r where r: "short_argument options arg p vs = Some r"
          by (auto simp: parse_options_loop.simps [of "Suc n"] Let_def bind_Some_iff)
        have "turn_args p r" by (rule short_argument_args [OF r Cons Suc.prems(2)]) (use more False in blast)
        from after [OF this] Suc.prems(1) Cons False short r show ?thesis
          by (auto simp: parse_options_loop.simps [of "Suc n"] Let_def)
      next
        case True
        have "turn_args p (long_argument options (drop 2 arg) p vs)"
          by (rule long_argument_args [OF _ moderate_drop [OF arg]]) (use dashes True False Cons in auto)
        from after [OF this] Suc.prems(1) Cons False True show ?thesis
          by (auto simp: parse_options_loop.simps [of "Suc n"] Let_def split: if_splits)
      qed
    qed
  qed (use Suc.prems(1) in \<open>simp add: parse_options_loop.simps\<close>)
qed


section \<open>Properties\<close>

text \<open>What the parser of the commands answers, without the texts.\<close>

definition end_of :: "int + parse_end \<Rightarrow> int + string list \<times> vars" where
  "end_of r = (case r of Inl status \<Rightarrow> Inl status | Inr (Parse_Done args vs) \<Rightarrow> Inr (args, vs) | Inr (Parse_Exit status _ _) \<Rightarrow> Inl status)"

lemma those_some: "\<forall>x \<in> set xs. f x \<noteq> None \<Longrightarrow> \<exists>ys. those (map f xs) = Some ys"
  by (induction xs) auto

lemma usage_with_options_exits: "us \<noteq> [] \<Longrightarrow> \<exists>text. usage_with_options (Some us) opts = Some (129, text)"
  by (cases us) (auto simp: usage_with_options_def usage_with_options_internal_def usage_lines_def)

lemma unknown_error: "unknown_ok p \<Longrightarrow> \<exists>t err. unknown_text p = Some t \<and> error_msg builtin_routines t = Some (-1, err)"
  by (auto simp: unknown_ok_def error_msg_builtin c_limits)

lemma usage_array_ok:
  assumes "mem_ok ok" "plenty ok" "usagestr \<noteq> [] \<or> subs \<noteq> None" "\<forall>a \<in> set argv. moderate a" "argv \<noteq> []"
    and "\<forall>ss. subs = Some ss \<longrightarrow> (\<forall>s \<in> set ss. NUL \<notin> set s) \<and> length (joined ss) \<le> 500000000"
  shows "\<exists>us. (case subs of
         Some ss \<Rightarrow> (if usagestr = [] then dying_bind (subcommand_usage ok (hd argv) ss) (\<lambda>u. Some (Inr (if ok (length u + 1) then [u] else []))) else Some (Inr usagestr))
       | None \<Rightarrow> Some (Inr usagestr)) = Some (Inr us) \<and> us \<noteq> []"
proof (cases "usagestr = []")
  case True
  then obtain ss where ss: "subs = Some ss" using assms(3) by auto
  have "NUL \<notin> set (hd argv)" "length (hd argv) \<le> 100000000" using assms(4,5) by (cases argv; simp add: moderate_def)+
  with subcommand_usage_ok [OF assms(1,2), of "hd argv" ss] assms(2,6) ss True show ?thesis
    by (simp add: dying_bind_def plenty_def)
qed (auto split: option.split)

text \<open>
  a command with subcommands parses its arguments as every other command does, and its texts are always defined: for all
  arguments, options and subcommands the parser ends, with the status or the arguments and variables that the
  parser without texts answers; an unknown option can be named, and the usage shown for it has a first line, which is
  built from the names of the subcommands when there is none.
\<close>

lemma parse_options_subcommand_ends:
  assumes "mem_ok ok" "plenty ok" "usagestr \<noteq> [] \<or> subs \<noteq> None" "\<forall>a \<in> set argv. moderate a" "argv \<noteq> []"
    and "\<forall>ss. subs = Some ss \<longrightarrow> (\<forall>s \<in> set ss. NUL \<notin> set s) \<and> length (joined ss) \<le> 500000000"
    and "\<forall>x \<in> set (help_opts_of options). o_long x \<noteq> None"
  shows "\<exists>r. parse_options_subcommand_prefix ok argv prefix options subs usagestr vs = Some r \<and>
    parse_options_prefix prefix argv (map option_rec.truncate options) vs = Some (end_of r)"
proof -
  let ?opts = "map option_rec.truncate options"
  let ?p = "parse_options_start argv prefix"
  from usage_array_ok [OF assms(1-6)] obtain us where us: "(case subs of
         Some ss \<Rightarrow> (if usagestr = [] then dying_bind (subcommand_usage ok (hd argv) ss) (\<lambda>u. Some (Inr (if ok (length u + 1) then [u] else []))) else Some (Inr usagestr))
       | None \<Rightarrow> Some (Inr usagestr)) = Some (Inr us)" "us \<noteq> []" by blast
  from usage_with_options_exits [OF us(2)] obtain out where out: "usage_with_options (Some us) options = Some (129, out)" by blast
  from those_some [OF assms(7)] obtain names where names: "those (map o_long (help_opts_of options)) = Some names" by blast
  obtain r where r: "parse_options_step ?opts ?p vs = Some r"
    using parse_options_loop_defined [of "?p\<lparr>p_opt := None\<rparr>" "length (p_argv ?p)"] by (auto simp: parse_options_step_def)
  have "\<forall>a \<in> set (p_argv (?p\<lparr>p_opt := None\<rparr>)). moderate a" using assms(4) by (auto simp: parse_options_start_def)
  then have unknown: "unknown_ok q" if "r = Inr (PARSE_OPT_UNKNOWN, q, ws)" for q ws
    using parse_options_loop_unknown r that unfolding parse_options_step_def by blast
  show ?thesis
  proof (cases r)
    case (Inl e)
    with r us(1) show ?thesis by (simp add: parse_options_subcommand_prefix_def parse_options_prefix_def dying_bind_def end_of_def)
  next
    case (Inr q)
    obtain res p ws where q: "q = (res, p, ws)" by (cases q)
    show ?thesis
    proof (cases "res = PARSE_OPT_UNKNOWN")
      case True
      from unknown_error [OF unknown] Inr q True obtain t err where
        "unknown_text p = Some t" "error_msg builtin_routines t = Some (-1, err)" by blast
      with r Inr q us(1) out True show ?thesis
        by (simp add: parse_options_subcommand_prefix_def parse_options_prefix_def dying_bind_def end_of_def)
    next
      case False
      with r Inr q us(1) names show ?thesis
        by (cases res) (simp_all add: parse_options_subcommand_prefix_def parse_options_prefix_def dying_bind_def end_of_def)
    qed
  qed
qed

text \<open>A command with two subcommands and the option \<open>--force\<close> is given an option it does not know.\<close>

definition ex_force :: help_option where
  "ex_force = option_rec.extend (OPT_BOOLEAN (CHR ''f'') ''force'' ''force'') (help_option.fields None ''force the operation'' False)"

lemma parse_options_subcommand_ends_example:
  "\<exists>r. parse_options_subcommand_prefix (\<lambda>n. n < 9223372036854775808) [''wq'', ''-x''] None [ex_force] (Some [''enable'', ''disable'']) [] (\<lambda>_. VInt 0)
     = Some r \<and> end_of r = Inl 129"
proof -
  let ?ok = "\<lambda>n :: nat. n < 9223372036854775808"
  let ?r = "parse_options_subcommand_prefix ?ok [''wq'', ''-x''] None [ex_force] (Some [''enable'', ''disable'']) [] (\<lambda>_. VInt 0)"
  have ok: "mem_ok ?ok" "plenty ?ok" by (simp_all add: mem_ok_def plenty_def)
  have args: "\<forall>a \<in> set [''wq'', ''-x'']. moderate a" by (simp add: moderate_def NUL_def)
  have subs: "\<forall>ss. Some [''enable'', ''disable''] = Some ss \<longrightarrow> (\<forall>s \<in> set ss. NUL \<notin> set s) \<and> length (joined ss) \<le> 500000000"
    by (simp add: NUL_def)
  have opts: "\<forall>x \<in> set (help_opts_of [ex_force]). o_long x \<noteq> None"
    by (simp add: help_opts_of_def ex_force_def option_rec.defs help_option.defs OPT_BOOLEAN_def OPT_def)
  from parse_options_subcommand_ends [OF ok _ args _ subs opts, where usagestr = "[]" and prefix = None and vs = "\<lambda>_. VInt 0"] obtain r where r: "?r = Some r"
    "parse_options_prefix None [''wq'', ''-x''] (map option_rec.truncate [ex_force]) (\<lambda>_. VInt 0) = Some (end_of r)" by auto
  have "parse_options_prefix None [''wq'', ''-x''] (map option_rec.truncate [ex_force]) (\<lambda>_. VInt 0) = Some (Inl 129)"
    by (simp add: parse_options_prefix_def parse_options_step_def parse_options_start_def parse_options_loop.simps Let_def
      short_argument_def parse_short_opt_def opts_of_def ex_force_def option_rec.defs help_option.defs OPT_BOOLEAN_def OPT_def)
  with r show ?thesis by auto
qed

end
