(* ===== verification/Spec2Isabelle.thy ===== *)
theory Spec2Isabelle
  imports Size Strbuf Bitmap Idxd Ccan_Walk Saved_Config Show_Props Config_Props Library_Session Accel_Config Help Usage
begin

text \<open>
  A model of \<open>accel-config\<close>, the tool and library that configure the Intel accelerators (DSA, IAA, IAX) of
  the Linux driver \<open>idxd\<close>, and the properties that make it correct.

  \<^bold>\<open>The program.\<close>  The library \<open>libaccfg\<close> (\<open>src/accfg/lib/libaccfg.c\<close>) keeps a tree of objects: a context
  lists devices, a device lists groups, work queues and engines.  It fills the tree from the directories
  of sysfs when the first object is asked for, answers getters from the cached values or from sysfs, and
  writes attributes back.  The tool (\<open>src/accfg/accel-config.c\<close>) looks a command up in a table, opens a
  context, runs the command and drops the context.  A command (\<open>src/accfg/enable.c\<close>,
  \<open>src/accfg/config_attr.c\<close>, \<open>src/accfg/list.c\<close>, \<open>src/accfg/config.c\<close>) parses its options with
  \<open>src/util/parse-options.c\<close> and its names with \<open>src/util/filter.c\<close>, walks the tree, and calls the library.
  \<open>list\<close> and \<open>save-config\<close> build JSON objects (\<open>src/util/json.c\<close>) and print them; \<open>load-config\<close> reads such a
  text back and sets the attributes it names; \<open>config-user-default\<close> sets up one of two fixed configurations.

  \<^bold>\<open>State.\<close>  A \<open>mach\<close> is a record of the kernel's state, \<open>errno\<close>, the next address and one heap for each
  structure of \<open>src/accfg/lib/private.h\<close> (a map from addresses to records; 0 is null, a freed object is not in
  the map).  A function that may read a null or freed pointer, pass one to \<open>sscanf\<close>, write past an array or
  fail an assertion answers \<open>None\<close> there, so that a property which says \<open>wp\<close> of a run says that none of
  this happens.  Error codes of the program are values.  The kernel and the C library's system calls are the
  argument \<open>os\<close> of every definition that uses them (\<open>'k os\<close> over an abstract state \<open>'k\<close>); \<open>os_ok\<close>,
  \<open>alloc_ok\<close> and the readable-type hypotheses of discovery state what a property relies on, and \<open>fs_os\<close>, a
  small file system of directories and attributes, meets them in the witnesses.  The library json-c is not part of
  the repository: reading a tree of it is the argument \<open>js\<close> (\<open>json_ops\<close>), building one the argument \<open>jb\<close>
  (\<open>json_build\<close>); \<open>represents\<close>, \<open>json_ok\<close> and \<open>json_heap\<close> name the documented behaviour that a property relies on, and
  two small libraries, one of values and one of a heap of nodes, meet it in the witnesses.  The loader fills its buffer with the bytes of the
  file and gives it to the parser as a string, without a terminating null: what the parser reads ends at the first null in the buffer or in the
  memory behind it (\<open>js_behind\<close>, \<open>buffer_text\<close>), and the properties of the loader are stated of that text.  What a property relies on of the
  driver \<open>idxd\<close> is a named hypothesis of \<open>Idxd_Sysfs\<close>, after the kernel's documentation of its attributes, and \<open>idxd_os\<close>, a device with one queue,
  meets all of them at once.

  \<^bold>\<open>Theories and code.\<close>

  \<^item> \<open>Prelude\<close>: C's integer conversions, runs (\<open>wp\<close>, \<open>wlp\<close>) and the lemmas that take a run apart.
  \<^item> \<open>CString\<close>: the C library's functions on strings and numbers that the sources call.
  \<^item> \<open>Size\<close>: \<open>util/size.c\<close>, the prefix helpers of \<open>util/strbuf.c\<close> and \<open>util/util.h\<close>.
  \<^item> \<open>Strbuf\<close>: the growing buffers of \<open>util/strbuf.c\<close>, \<open>util/strbuf.h\<close>, \<open>util/wrapper.c\<close>.
  \<^item> \<open>Bitmap\<close>: \<open>util/bitmap.c\<close> and \<open>util/bitmap.h\<close>.
  \<^item> \<open>Sysfs\<close>: the system calls, \<open>util/sysfs.c\<close> and the priorities of \<open>util/log.c\<close>.
  \<^item> \<open>Accfg_State\<close>: \<open>accfg/lib/private.h\<close>, \<open>accfg/libaccel_config.h\<close> and the tables of \<open>libaccfg.c\<close>.
  \<^item> \<open>Ccan_List\<close>: the circular lists of \<open>ccan/list/list.h\<close> and \<open>list.c\<close>, and the proof that they implement
    the lists of addresses by which \<open>Accfg_State\<close> represents them.
  \<^item> \<open>Accfg_Param\<close>: the parameter readers and writers, command status and last error of \<open>libaccfg.c\<close>.
  \<^item> \<open>Accfg_Core\<close>: contexts, \<open>add_device\<close>, \<open>add_group\<close>, \<open>add_wq\<close>, \<open>add_engine\<close>, discovery, iteration, lookup
    and release of \<open>libaccfg.c\<close>.
  \<^item> \<open>Accfg_Heap\<close>, \<open>Accfg_Inv\<close>, \<open>Accfg_Free\<close>: the invariant \<open>wf_state\<close> of the tree (every list is free of
    repetition and lists exactly the objects that point back to their owner), its preservation by discovery
    and by release; \<open>Accfg_Lifecycle\<close>: what these give.
  \<^item> \<open>Accfg_Attr\<close>, \<open>Accfg_Group\<close>, \<open>Accfg_Device\<close>, \<open>Accfg_Wq\<close>: the getters and setters, the macros that
    generate them, the checks, and the enabling and disabling of devices and work queues.
  \<^item> \<open>Accfg_Example\<close>: a small tree on which the witnesses run.
  \<^item> \<open>Parse_Options\<close>: \<open>util/parse-options.c\<close>, \<open>util/parse-options.h\<close>, \<open>util/abspath.c\<close>.
  \<^item> \<open>Util_Filter\<close>: \<open>util/filter.c\<close>.  \<open>Enable\<close>: \<open>accfg/enable.c\<close>.  \<open>Config_Attr\<close>: \<open>accfg/config_attr.c\<close>.
  \<^item> \<open>Util_Json\<close>: the objects of devices, work queues and engines, the sizes and bit masks of \<open>util/json.c\<close>.
  \<^item> \<open>Json_Walk\<close>, \<open>List_Cmd\<close>: the containers and callbacks of \<open>list\<close> and \<open>save-config\<close> in \<open>accfg/list.c\<close>, with what
    \<open>accfg/config.c\<close> has a copy of.
  \<^item> \<open>Json_Set\<close>, \<open>Load_Config\<close>: the tables of attributes and their setters, and the loader of \<open>accfg/config.c\<close>.
  \<^item> \<open>Config_Default\<close>, \<open>Config_Cmd\<close>: the default configurations and the commands \<open>load-config\<close> and
    \<open>config-user-default\<close> of \<open>accfg/config.c\<close>.
  \<^item> \<open>Idxd_Sysfs\<close>: what the driver does with the attributes and with \<open>bind\<close> (\<open>takes_all\<close>: a write to an attribute of a configuration is
    accepted; \<open>config_kept\<close>: it enables and disables nothing; \<open>driver_binds\<close>: a name written to the file \<open>bind\<close> of the right driver enables the device or
    queue and nothing else; \<open>shows_mask\<close>: how \<open>op_config\<close> is shown), and a kernel that does so.
  \<^item> \<open>Json_Facts\<close>, \<open>Json_Props\<close>, \<open>Saved_Wq\<close>, \<open>Saved_Config\<close>, \<open>Show_Props\<close>, \<open>Config_Props\<close>, \<open>Load_Safe\<close>: what these commands build,
    save, load and set up.  \<open>Enable_Live\<close>: enabling the devices and queues of a configuration.  \<open>Library_Session\<close>: a program that calls the
    library, as a transition system in which the kernel and other programs act between any two calls.
  \<^item> \<open>Accel_Config\<close>: \<open>accfg/accel-config.c\<close> and \<open>util/main.c\<close>.
  \<^item> \<open>Report\<close>: the messages of \<open>util/usage.c\<close>, \<open>util/log.c\<close> and \<open>util/log.h\<close>.  \<open>Usage\<close>: the texts that
    \<open>util/parse-options.c\<close> prints and the options that the macros of \<open>util/parse-options.h\<close> build.  \<open>Help\<close>:
    \<open>util/help.c\<close>, the page that \<open>help\<close> shows.
  \<^item> \<open>Ccan_Walk\<close>: the walks of \<open>ccan/list/list.h\<close> backwards, from the middle and with removal.
  \<^item> \<open>Idxd\<close>: the codes, flags and layouts of descriptors, completion records and windows of \<open>accfg/idxd.h\<close>.
  \<^item> \<open>Ccan_Util\<close>: the byte orders, string tests, minima and member offsets of \<open>ccan/endian\<close>, \<open>ccan/str\<close>,
    \<open>ccan/minmax\<close> and \<open>ccan/container_of\<close>.

  \<^bold>\<open>Interfaces.\<close>  \<open>add_dev_contract\<close> is what the walk over a directory of sysfs asks of a callback; the four
  \<open>add_\<close> functions provide it.  \<open>attr_setter\<close> is what a setter of one attribute promises (\<open>-errno\<close> and
  nothing but the recorded error changes, or 0 and the attribute reads as written), and its consequence for
  a command that sets several.  \<open>child_list\<close> is what the walk over the children of a device asks of first and
  next; \<open>child_store\<close> what the object model asks of a linked list; \<open>word_update\<close> what setting and clearing of
  bit ranges share.

  \<^bold>\<open>What is shown.\<close>  Release of the last reference frees exactly the tree of the context, and discovery keeps
  it well-formed and appends exactly the directories of sysfs in their order; a work queue is reported
  enabled or disabled only when the kernel says so, by the library and by the commands; the linked lists
  refine the lists of the model; loading a configuration sets its pairs in the order of the text, leaves enabled devices
  alone, and restores what was saved of a group, of a work queue and of a whole configuration; loading an array of JSON of any
  shape ends without a fault and keeps the graph of objects, and so does any sequence of calls whatever happens between them; enabling gets there where
  the drivers bind what they are told to; the object of a device or work queue has exactly
  the members its attributes give; disabling the default configuration changes nothing when a condition of its check
  fails; the command-line parser ends on every input, and a command that is asked for its usage
  or manual page shows it and ends; names, numbers and sizes are read back
  as they are printed; bounds of the table lookups, of sizes and of integer conversions; and the faults
  the model brought up (a search in bit maps that counts from one, checks of overflow that miss products,
  errors that answer 0, a dangling group, objects listed twice, the argument \<open>all\<close> that does nothing).

  \<^bold>\<open>Loops.\<close>  Walks over lists of the model are structural, or take the length of the list as fuel
  (\<open>find_from\<close>, \<open>foreach_from\<close>: every step moves to a later element of a list without repetition).
  \<open>parse_options_loop\<close> takes the number of arguments and \<open>short_cluster\<close> the number of letters; each step
  uses one up, and \<open>parse_options_terminates\<close> shows that the bound is never reached.  \<open>json_parse\<close> takes the depth of the tree, which bounds its recursion: an object inside a pair is entered, and every entry
  goes one level down.  The walks along linked nodes take fuel as an
  argument: the length of the list is enough, and on a chain that never comes back they do not end.

  \<^bold>\<open>Not modelled.\<close>  The single messages of the library and the commands are output only and left out, with the
  status they come with kept; what prints them is modelled in \<open>Report\<close>.  The test programs (\<open>accfg/test.c\<close>,
  \<open>test/\<close>) drive hardware.  What is left of \<open>ccan/\<close> is checked at compile time (\<open>build_assert\<close>,
  \<open>check_type\<close>, \<open>array_size\<close>, the type checks of \<open>minmax\<close>) or wraps the C library for debugging
  (\<open>CCAN_STR_DEBUG\<close>), and of \<open>accfg/idxd.h\<close> the request numbers of \<open>ioctl\<close> are left out.  Memory other than
  the objects (names, paths) is not counted, and threads do not occur in the program.
\<close>

end
